(* ===== verification/Prelude.thy ===== *)
theory Prelude
  imports Main "HOL-Library.AList" "HOL-Library.Word" "HOL-Library.Code_Target_Nat"
begin

text \<open>
  Shared vocabulary of the development: text as lists of Unicode scalar values, Rust's
  \<open>Result\<close> with the \<open>?\<close> operator, association lists for \<open>HashMap\<close>, time, and the
  lemma collections the component theories fill.
\<close>

section \<open>Lemma collections\<close>

named_theorems handler_defs "definitions of the handlers of a component"
named_theorems keeps_intros "introduction rules: an operation keeps an invariant"
named_theorems frame_simps "fields an operation does not change"

section \<open>Basic types\<close>

text \<open>
  A Rust \<open>String\<close> is a sequence of Unicode scalar values; \<open>lit\<close> reads an ASCII literal.
  An \<open>Instant\<close> or \<open>DateTime\<close> is a number of nanoseconds since some origin, so that
  \<open>now - at\<close> on \<open>nat\<close> is exactly \<open>Instant::elapsed\<close>, which saturates at zero.
  A \<open>Uuid\<close> is its canonical text (what \<open>to_string\<close> yields and the database stores as a key).
\<close>

type_synonym utext = "nat list"
type_synonym instant = nat
type_synonym duration = nat
type_synonym uuid = utext
type_synonym path = utext
type_synonym byte = "8 word"
type_synonym u16 = "16 word"
type_synonym u32 = "32 word"

definition lit :: "string \<Rightarrow> utext" where
  "lit s = map of_char s"

definition secs :: "nat \<Rightarrow> duration" where
  "secs n = n * 1000000000"

definition millis :: "nat \<Rightarrow> duration" where
  "millis n = n * 1000000"

lemma lit_Nil [simp]: "lit [] = []"
  by (simp add: lit_def)

lemma lit_append: "lit (a @ b) = lit a @ lit b"
  by (simp add: lit_def)

lemma length_lit [simp]: "length (lit s) = length s"
  by (simp add: lit_def)

lemma lit_eq_iff [simp]: "lit a = lit b \<longleftrightarrow> a = b"
proof -
  have "inj (of_char :: char \<Rightarrow> nat)" by (simp add: inj_on_def)
  then show ?thesis by (auto simp: lit_def inj_map_eq_map)
qed

lemma secs_mono [simp]: "secs a \<le> secs b \<longleftrightarrow> a \<le> b"
  by (simp add: secs_def)

lemma secs_pos [simp]: "0 < secs a \<longleftrightarrow> 0 < a"
  by (simp add: secs_def)

lemma millis_mono [simp]: "millis a \<le> millis b \<longleftrightarrow> a \<le> b"
  by (simp add: millis_def)

section \<open>Results and the question mark operator\<close>

text \<open>
  A fallible operation over a state yields \<open>(Inl error, state)\<close> or \<open>(Inr value, state)\<close>:
  an error return does not roll the state back. \<open>and_then\<close> is Rust's \<open>?\<close>: it
  returns an error to the caller together with the state reached so far.
\<close>

definition and_then :: "('e + 'a) \<times> 's \<Rightarrow> ('a \<Rightarrow> 's \<Rightarrow> ('e + 'b) \<times> 's) \<Rightarrow> ('e + 'b) \<times> 's" where
  "and_then r k = (case r of (Inl e, s) \<Rightarrow> (Inl e, s) | (Inr x, s) \<Rightarrow> k x s)"

text \<open>The same for a pure \<open>Result\<close>.\<close>

definition res_bind :: "'e + 'a \<Rightarrow> ('a \<Rightarrow> 'e + 'b) \<Rightarrow> 'e + 'b" where
  "res_bind r k = (case r of Inl e \<Rightarrow> Inl e | Inr x \<Rightarrow> k x)"

definition map_err :: "('e \<Rightarrow> 'f) \<Rightarrow> 'e + 'a \<Rightarrow> 'f + 'a" where
  "map_err f r = (case r of Inl e \<Rightarrow> Inl (f e) | Inr x \<Rightarrow> Inr x)"

definition is_ok :: "'e + 'a \<Rightarrow> bool" where
  "is_ok r = (case r of Inl _ \<Rightarrow> False | Inr _ \<Rightarrow> True)"

lemma and_then_simps [simp]:
  "and_then (Inl e, s) k = (Inl e, s)"
  "and_then (Inr x, s) k = k x s"
  by (simp_all add: and_then_def)

lemma res_bind_simps [simp]:
  "res_bind (Inl e) k = Inl e"
  "res_bind (Inr x) k' = k' x"
  by (simp_all add: res_bind_def)

lemma map_err_simps [simp]:
  "map_err f (Inl e) = Inl (f e)"
  "map_err f (Inr x) = Inr x"
  by (simp_all add: map_err_def)

lemma is_ok_simps [simp]: "\<not> is_ok (Inl e)" "is_ok (Inr x)"
  by (simp_all add: is_ok_def)

lemma res_bind_Inr_iff:
  "res_bind r k = Inr y \<longleftrightarrow> (\<exists>x. r = Inr x \<and> k x = Inr y)"
  by (cases r) auto

lemma map_err_Inr_iff [simp]: "map_err f r = Inr x \<longleftrightarrow> r = Inr x"
  by (cases r) auto

lemma and_then_split:
  "P (and_then r k) \<longleftrightarrow>
    (\<forall>e s. r = (Inl e, s) \<longrightarrow> P (Inl e, s)) \<and> (\<forall>x s. r = (Inr x, s) \<longrightarrow> P (k x s))"
  by (cases r; cases "fst r") auto

lemma and_then_keeps:
  assumes "P (snd r)" and "\<And>x s. r = (Inr x, s) \<Longrightarrow> P s \<Longrightarrow> P (snd (k x s))"
  shows "P (snd (and_then r k))"
  using assms by (cases r; cases "fst r") auto

lemma and_then_okE:
  assumes "and_then r k = (Inr y, t)"
  obtains x s where "r = (Inr x, s)" "k x s = (Inr y, t)"
  using assms by (cases r; cases "fst r") auto

lemma and_then_errE:
  assumes "and_then r k = (Inl e, t)"
  obtains "r = (Inl e, t)" | x s where "r = (Inr x, s)" "k x s = (Inl e, t)"
  using assms by (cases r; cases "fst r") auto

section \<open>Keyed lists\<close>

text \<open>
  \<open>upsert\<close> of \<open>runtime.rs\<close>: replace the first item with the same id in place, otherwise insert at
  the front.
\<close>

fun replace_first :: "('a \<Rightarrow> 'k) \<Rightarrow> 'a \<Rightarrow> 'a list \<Rightarrow> 'a list" where
  "replace_first key v [] = []"
| "replace_first key v (x # xs) = (if key x = key v then v # xs else x # replace_first key v xs)"

definition upsert :: "('a \<Rightarrow> 'k) \<Rightarrow> 'a \<Rightarrow> 'a list \<Rightarrow> 'a list" where
  "upsert key v xs =
     (if \<exists>x \<in> set xs. key x = key v then replace_first key v xs else v # xs)"

definition find_by :: "('a \<Rightarrow> 'k) \<Rightarrow> 'k \<Rightarrow> 'a list \<Rightarrow> 'a option" where
  "find_by key k xs = find (\<lambda>x. key x = k) xs"

lemma find_by_simps [simp]:
  "find_by key k [] = None"
  "find_by key k (x # xs) = (if key x = k then Some x else find_by key k xs)"
  by (simp_all add: find_by_def)

lemma find_by_None_iff: "find_by key k xs = None \<longleftrightarrow> k \<notin> key ` set xs"
  by (induction xs) auto

lemma find_by_SomeD: "find_by key k xs = Some x \<Longrightarrow> x \<in> set xs \<and> key x = k"
  by (induction xs) (auto split: if_splits)

lemma find_by_distinct:
  "distinct (map key xs) \<Longrightarrow> x \<in> set xs \<Longrightarrow> find_by key (key x) xs = Some x"
  by (induction xs) auto

lemma distinct_keys_ConsD: "distinct (map key (x # xs)) \<Longrightarrow> y \<in> set xs \<Longrightarrow> key y \<noteq> key x"
  by (metis distinct.simps(2) image_eqI list.set_map list.simps(9))

lemma map_key_replace_first [simp]: "map key (replace_first key v xs) = map key xs"
  by (induction xs) auto

lemma length_replace_first [simp]: "length (replace_first key v xs) = length xs"
  by (induction xs) auto

lemma find_by_replace_first:
  "find_by key k (replace_first key v xs) =
     (if k = key v \<and> key v \<in> key ` set xs then Some v else find_by key k xs)"
  by (induction xs) auto

lemma find_by_upsert:
  "find_by key k (upsert key v xs) = (if k = key v then Some v else find_by key k xs)"
  by (auto simp: upsert_def find_by_replace_first image_iff)

lemma keys_upsert: "key ` set (upsert key v xs) = insert (key v) (key ` set xs)"
proof -
  have "key ` set (replace_first key v xs) = key ` set xs"
    by (metis list.set_map map_key_replace_first)
  then show ?thesis by (auto simp: upsert_def image_iff) metis
qed

lemma distinct_upsert: "distinct (map key xs) \<Longrightarrow> distinct (map key (upsert key v xs))"
  by (auto simp: upsert_def)

lemma set_replace_first: "x \<in> set (replace_first key v xs) \<Longrightarrow> x = v \<or> x \<in> set xs"
  by (induction xs) (auto split: if_splits)

lemma set_upsert_subset: "set (upsert key v xs) \<subseteq> insert v (set xs)"
  by (auto simp: upsert_def dest: set_replace_first)

lemma map_upsert_present:
  "key v \<in> key ` set xs \<Longrightarrow> map key (upsert key v xs) = map key xs"
  by (auto simp: upsert_def)

lemma replace_first_map:
  "(\<And>a b. key' (f a) = key' (f b) \<longleftrightarrow> key a = key b) \<Longrightarrow>
   map f (replace_first key v xs) = replace_first key' (f v) (map f xs)"
  by (induction xs) auto

lemma find_by_filter_key:
  "find_by key k (filter (\<lambda>x. key x \<noteq> j) xs) = (if k = j then None else find_by key k xs)"
  by (induction xs) auto

section \<open>Association lists for hash maps\<close>

text \<open>
  A \<open>HashMap\<close> whose size or values the code inspects is an association list with distinct keys.
  The order of the list stands for the map's unspecified iteration order.
\<close>

definition keys_of :: "('k \<times> 'v) list \<Rightarrow> 'k list" where
  "keys_of m = map fst m"

definition wf_map :: "('k \<times> 'v) list \<Rightarrow> bool" where
  "wf_map m \<longleftrightarrow> distinct (map fst m)"

lemma wf_map_Nil [simp]: "wf_map []"
  by (simp add: wf_map_def)

lemma wf_map_update [simp]: "wf_map m \<Longrightarrow> wf_map (AList.update k v m)"
  by (simp add: wf_map_def distinct_update)

lemma wf_map_delete [simp]: "wf_map m \<Longrightarrow> wf_map (AList.delete k m)"
  by (simp add: wf_map_def distinct_delete)

lemma wf_map_filter [simp]: "wf_map m \<Longrightarrow> wf_map (filter P m)"
  by (induction m) (auto simp: wf_map_def)

lemma wf_map_Cons [simp]: "wf_map (e # m) \<longleftrightarrow> fst e \<notin> fst ` set m \<and> wf_map m"
  by (simp add: wf_map_def)

lemma keys_update [simp]: "fst ` set (AList.update k v m) = insert k (fst ` set m)"
  by (simp add: dom_update)

lemma keys_delete [simp]: "fst ` set (AList.delete k m) = fst ` set m - {k}"
  by (induction m) auto

lemma map_of_isSome_iff: "(\<exists>v. map_of m k = Some v) \<longleftrightarrow> k \<in> fst ` set m"
  by (metis domD domI dom_map_of_conv_image_fst)

lemma length_update_new:
  "k \<notin> fst ` set m \<Longrightarrow> length (AList.update k v m) = Suc (length m)"
  by (induction m) auto

lemma length_update_old:
  "k \<in> fst ` set m \<Longrightarrow> length (AList.update k v m) = length m"
  by (induction m) auto

lemma length_delete_present:
  "wf_map m \<Longrightarrow> k \<in> fst ` set m \<Longrightarrow> length m = Suc (length (AList.delete k m))"
proof (induction m)
  case (Cons e m)
  then show ?case
    by (cases e) (auto simp: delete_id)
qed simp

lemma length_delete_absent:
  "k \<notin> fst ` set m \<Longrightarrow> AList.delete k m = m"
  by (rule delete_id)

end
