(* ===== verification/RustText.thy ===== *)
theory RustText
  imports Prelude
begin

text \<open>
  The parts of Rust's standard library the code uses on text, numbers and addresses:
  \<open>str::trim\<close>, \<open>split\<close>, \<open>split_once\<close>, \<open>lines\<close>, \<open>parse\<close>, decimal
  formatting, \<open>IpAddr\<close> and \<open>SocketAddr\<close> with their parsers and printers, and the
  big-endian integer conversions. The lemmas are the facts the components use: what
  splitting returns, that numbers and IPv4 addresses survive a print and parse.
\<close>

section \<open>Characters\<close>

definition is_whitespace :: "nat \<Rightarrow> bool" where
  "is_whitespace c \<longleftrightarrow> 9 \<le> c \<and> c \<le> 13 \<or> c = 32 \<or> c = 0x85 \<or> c = 0xA0 \<or> c = 0x1680 \<or>
     0x2000 \<le> c \<and> c \<le> 0x200A \<or> c = 0x2028 \<or> c = 0x2029 \<or> c = 0x202F \<or> c = 0x205F \<or> c = 0x3000"

definition is_control :: "nat \<Rightarrow> bool" where
  "is_control c \<longleftrightarrow> c < 32 \<or> 127 \<le> c \<and> c \<le> 159"

definition is_ascii :: "nat \<Rightarrow> bool" where
  "is_ascii c \<longleftrightarrow> c < 128"

definition is_ascii_digit :: "nat \<Rightarrow> bool" where
  "is_ascii_digit c \<longleftrightarrow> 48 \<le> c \<and> c \<le> 57"

definition to_ascii_lower :: "nat \<Rightarrow> nat" where
  "to_ascii_lower c = (if 65 \<le> c \<and> c \<le> 90 then c + 32 else c)"

definition to_ascii_lowercase :: "utext \<Rightarrow> utext" where
  "to_ascii_lowercase s = map to_ascii_lower s"

definition eq_ignore_ascii_case :: "utext \<Rightarrow> utext \<Rightarrow> bool" where
  "eq_ignore_ascii_case a b \<longleftrightarrow> to_ascii_lowercase a = to_ascii_lowercase b"

text \<open>\<open>str::len\<close> counts UTF-8 bytes.\<close>

definition utf8_width :: "nat \<Rightarrow> nat" where
  "utf8_width c = (if c < 0x80 then 1 else if c < 0x800 then 2 else if c < 0x10000 then 3 else 4)"

definition byte_len :: "utext \<Rightarrow> nat" where
  "byte_len s = sum_list (map utf8_width s)"

lemma byte_len_ascii: "list_all is_ascii s \<Longrightarrow> byte_len s = length s"
  by (induction s) (auto simp: byte_len_def utf8_width_def is_ascii_def)

lemma length_le_byte_len: "length s \<le> byte_len s"
  by (induction s) (auto simp: byte_len_def utf8_width_def)

section \<open>Searching and splitting\<close>

definition starts_with :: "utext \<Rightarrow> utext \<Rightarrow> bool" where
  "starts_with p s \<longleftrightarrow> take (length p) s = p"

definition strip_prefix :: "utext \<Rightarrow> utext \<Rightarrow> utext option" where
  "strip_prefix p s = (if starts_with p s then Some (drop (length p) s) else None)"

fun contains :: "utext \<Rightarrow> utext \<Rightarrow> bool" where
  "contains p [] = (p = [])"
| "contains p (c # s) = (starts_with p (c # s) \<or> contains p s)"

definition trim_start :: "utext \<Rightarrow> utext" where
  "trim_start s = dropWhile is_whitespace s"

definition trim_end :: "utext \<Rightarrow> utext" where
  "trim_end s = rev (dropWhile is_whitespace (rev s))"

definition trim :: "utext \<Rightarrow> utext" where
  "trim s = trim_end (trim_start s)"

text \<open>\<open>str::split\<close> on a character: always at least one piece.\<close>

fun split_on :: "nat \<Rightarrow> utext \<Rightarrow> utext list" where
  "split_on d [] = [[]]"
| "split_on d (c # s) =
     (if c = d then [] # split_on d s
      else (case split_on d s of [] \<Rightarrow> [[c]] | p # ps \<Rightarrow> (c # p) # ps))"

fun split_once :: "nat \<Rightarrow> utext \<Rightarrow> (utext \<times> utext) option" where
  "split_once d [] = None"
| "split_once d (c # s) =
     (if c = d then Some ([], s)
      else (case split_once d s of None \<Rightarrow> None | Some (a, b) \<Rightarrow> Some (c # a, b)))"

definition rsplit_once :: "nat \<Rightarrow> utext \<Rightarrow> (utext \<times> utext) option" where
  "rsplit_once d s =
     (case split_once d (rev s) of None \<Rightarrow> None | Some (a, b) \<Rightarrow> Some (rev b, rev a))"

text \<open>\<open>str::split_whitespace\<close>: the maximal runs of non-whitespace characters.\<close>

fun words_acc :: "utext \<Rightarrow> utext \<Rightarrow> utext list" where
  "words_acc w [] = (if w = [] then [] else [rev w])"
| "words_acc w (c # s) =
     (if is_whitespace c then (if w = [] then words_acc [] s else rev w # words_acc [] s)
      else words_acc (c # w) s)"

definition split_whitespace :: "utext \<Rightarrow> utext list" where
  "split_whitespace s = words_acc [] s"

text \<open>\<open>str::lines\<close>: pieces between newlines, without the last one when it is empty, and
  without a carriage return before the newline. A piece not ended by a newline keeps it.\<close>

fun strip_cr :: "utext \<Rightarrow> utext" where
  "strip_cr s = (if s \<noteq> [] \<and> last s = 13 then butlast s else s)"

fun lines_of :: "utext list \<Rightarrow> utext list" where
  "lines_of [] = []"
| "lines_of [p] = (if p = [] then [] else [p])"
| "lines_of (p # q # ps) = strip_cr p # lines_of (q # ps)"

definition lines :: "utext \<Rightarrow> utext list" where
  "lines s = lines_of (split_on 10 s)"

fun join :: "utext \<Rightarrow> utext list \<Rightarrow> utext" where
  "join sep [] = []"
| "join sep [p] = p"
| "join sep (p # q # ps) = p @ sep @ join sep (q # ps)"

lemma starts_with_append [simp]: "starts_with p (p @ s)"
  by (simp add: starts_with_def)

lemma starts_with_Nil [simp]: "starts_with [] s"
  by (simp add: starts_with_def)

lemma starts_with_decomp: "starts_with p s \<Longrightarrow> s = p @ drop (length p) s"
  by (metis append_take_drop_id starts_with_def)

lemma contains_prefix: "contains p (p @ b)"
proof (cases "p @ b")
  case (Cons c s)
  have "starts_with p (c # s)" unfolding Cons [symmetric] by simp
  then show ?thesis using Cons by simp
qed simp

lemma contains_append: "contains p (a @ p @ b)"
  by (induction a) (simp_all add: contains_prefix)

lemma split_on_nonempty [simp]: "split_on d s \<noteq> []"
  by (induction s) (auto split: list.splits)

lemma split_on_append_sep:
  "d \<notin> set a \<Longrightarrow> split_on d (a @ d # s) = a # split_on d s"
  by (induction a) (auto split: list.splits)

lemma split_on_no_sep: "d \<notin> set a \<Longrightarrow> split_on d a = [a]"
  by (induction a) (auto split: list.splits)

lemma split_once_Some:
  "d \<notin> set a \<Longrightarrow> split_once d (a @ d # s) = Some (a, s)"
  by (induction a) auto

lemma split_once_None_iff: "split_once d s = None \<longleftrightarrow> d \<notin> set s"
  by (induction s) (auto split: option.splits)

lemma split_once_SomeD: "split_once d s = Some (a, b) \<Longrightarrow> s = a @ d # b \<and> d \<notin> set a"
proof (induction s arbitrary: a)
  case (Cons c s)
  show ?case
  proof (cases "c = d")
    case False
    with Cons.prems obtain a' where a': "split_once d s = Some (a', b)" "a = c # a'"
      by (auto split: option.splits)
    from Cons.IH [OF a'(1)] False a'(2) show ?thesis by simp
  qed (use Cons.prems in auto)
qed simp

lemma words_acc_word:
  "\<forall>c \<in> set w. \<not> is_whitespace c \<Longrightarrow> words_acc a (w @ s) = words_acc (rev w @ a) s"
  by (induction w arbitrary: a) auto

lemma split_whitespace_cons:
  "w \<noteq> [] \<Longrightarrow> \<forall>c \<in> set w. \<not> is_whitespace c \<Longrightarrow> is_whitespace d \<Longrightarrow>
   split_whitespace (w @ d # s) = w # split_whitespace s"
  by (simp add: split_whitespace_def words_acc_word)

lemma split_whitespace_last:
  "w \<noteq> [] \<Longrightarrow> \<forall>c \<in> set w. \<not> is_whitespace c \<Longrightarrow> split_whitespace w = [w]"
  using words_acc_word [of w "[]" "[]"] by (simp add: split_whitespace_def)

lemma trim_id:
  assumes "s \<noteq> []" "\<not> is_whitespace (hd s)" "\<not> is_whitespace (last s)"
  shows "trim s = s"
proof -
  have "dropWhile is_whitespace s = s" using assms by (cases s) auto
  moreover have "dropWhile is_whitespace (rev s) = rev s"
    using assms by (cases "rev s") (auto simp: last_rev hd_rev dropWhile_eq_self_iff)
  ultimately show ?thesis by (simp add: trim_def trim_start_def trim_end_def)
qed

lemma trim_Nil [simp]: "trim [] = []"
  by (simp add: trim_def trim_start_def trim_end_def)

lemma to_ascii_lower_idem [simp]: "to_ascii_lower (to_ascii_lower c) = to_ascii_lower c"
  by (simp add: to_ascii_lower_def)

lemma lines_crlf:
  assumes "10 \<notin> set a"
  shows "lines (a @ 13 # 10 # s) = a # lines s"
proof -
  have "split_on 10 ((a @ [13]) @ 10 # s) = (a @ [13]) # split_on 10 s"
    using assms by (intro split_on_append_sep) auto
  then have eq: "split_on 10 (a @ 13 # 10 # s) = (a @ [13]) # split_on 10 s"
    by simp
  obtain q ps where q: "split_on 10 s = q # ps"
    using split_on_nonempty [of 10 s] by (cases "split_on 10 s") auto
  show ?thesis unfolding lines_def eq q by simp
qed

lemma lines_Nil [simp]: "lines [] = []"
  by (simp add: lines_def)

section \<open>Numbers\<close>

fun to_decimal :: "nat \<Rightarrow> utext" where
  "to_decimal n = (if n < 10 then [48 + n] else to_decimal (n div 10) @ [48 + n mod 10])"

declare to_decimal.simps [simp del]

definition digits_value :: "utext \<Rightarrow> nat" where
  "digits_value s = foldl (\<lambda>acc c. acc * 10 + (c - 48)) 0 s"

text \<open>\<open>parse\<close> of an unsigned type: an optional plus sign, at least one digit, no overflow.\<close>

definition parse_uint :: "nat \<Rightarrow> utext \<Rightarrow> nat option" where
  "parse_uint bound s =
     (let d = (if starts_with [43] s then drop 1 s else s)
      in if d \<noteq> [] \<and> list_all is_ascii_digit d \<and> digits_value d \<le> bound
         then Some (digits_value d) else None)"

definition signed_decimal :: "int \<Rightarrow> utext" where
  "signed_decimal i = (if i < 0 then 45 # to_decimal (nat (- i)) else to_decimal (nat i))"

lemma to_decimal_nonempty [simp]: "to_decimal n \<noteq> []"
  by (subst to_decimal.simps) simp

lemma to_decimal_digits: "list_all is_ascii_digit (to_decimal n)"
proof (induction n rule: to_decimal.induct)
  case (1 n)
  then show ?case
    by (subst to_decimal.simps) (auto, simp_all add: is_ascii_digit_def)
qed

lemma to_decimal_range: "c \<in> set (to_decimal n) \<Longrightarrow> 48 \<le> c \<and> c \<le> 57"
  using to_decimal_digits [of n] by (auto simp: list_all_iff is_ascii_digit_def)

lemma digits_value_snoc: "digits_value (s @ [c]) = digits_value s * 10 + (c - 48)"
  by (simp add: digits_value_def)

lemma digits_value_to_decimal [simp]: "digits_value (to_decimal n) = n"
proof (induction n rule: to_decimal.induct)
  case (1 n)
  show ?case
  proof (cases "n < 10")
    case True
    then show ?thesis by (subst to_decimal.simps) (simp add: digits_value_def)
  next
    case False
    with 1 show ?thesis
      by (subst to_decimal.simps) (simp add: digits_value_snoc)
  qed
qed

lemma to_decimal_inj: "to_decimal a = to_decimal b \<longleftrightarrow> a = b"
  by (metis digits_value_to_decimal)

lemma starts_with_singleton: "starts_with [c] s \<longleftrightarrow> s \<noteq> [] \<and> hd s = c"
  by (cases s) (auto simp: starts_with_def)

lemma to_decimal_not_plus: "\<not> starts_with [43] (to_decimal n)"
proof
  assume "starts_with [43] (to_decimal n)"
  then have "43 \<in> set (to_decimal n)"
    by (metis hd_in_set starts_with_singleton)
  then show False using to_decimal_range by fastforce
qed

lemma parse_to_decimal: "n \<le> bound \<Longrightarrow> parse_uint bound (to_decimal n) = Some n"
  by (simp add: parse_uint_def to_decimal_not_plus to_decimal_digits)

lemma parse_uint_bound: "parse_uint bound s = Some n \<Longrightarrow> n \<le> bound"
  by (auto simp: parse_uint_def Let_def split: if_splits)

lemma length_to_decimal_pos [simp]: "0 < length (to_decimal n)"
  by simp

section \<open>Bytes\<close>

definition be16 :: "byte \<Rightarrow> byte \<Rightarrow> nat" where
  "be16 a b = unat a * 256 + unat b"

definition be32 :: "byte \<Rightarrow> byte \<Rightarrow> byte \<Rightarrow> byte \<Rightarrow> nat" where
  "be32 a b c d = ((unat a * 256 + unat b) * 256 + unat c) * 256 + unat d"

definition to_be16 :: "u16 \<Rightarrow> byte list" where
  "to_be16 w = [word_of_nat (unat w div 256), word_of_nat (unat w mod 256)]"

definition to_be32 :: "u32 \<Rightarrow> byte list" where
  "to_be32 w = [word_of_nat (unat w div 16777216), word_of_nat (unat w div 65536 mod 256),
                word_of_nat (unat w div 256 mod 256), word_of_nat (unat w mod 256)]"

lemma unat_byte_of_nat: "n < 256 \<Longrightarrow> unat (word_of_nat n :: byte) = n"
  by (simp add: unat_of_nat)

lemma be16_bound: "be16 a b < 65536"
proof -
  have "unat a < 256" "unat b < 256"
    using unsigned_less [of a, where 'a = nat] unsigned_less [of b, where 'a = nat] by simp_all
  then show ?thesis by (simp add: be16_def)
qed

lemma be16_to_be16:
  "to_be16 w = [a, b] \<Longrightarrow> be16 a b = unat w"
proof -
  assume "to_be16 w = [a, b]"
  moreover have "unat w < 65536" using unsigned_less [of w, where 'a = nat] by simp
  then have "unat w div 256 < 256" by simp
  ultimately show "be16 a b = unat w"
    by (auto simp: be16_def to_be16_def unat_byte_of_nat)
qed

lemma base256_digits:
  "(((n div 16777216) * 256 + n div 65536 mod 256) * 256 + n div 256 mod 256) * 256 + n mod 256 = (n::nat)"
proof -
  have 1: "n div 256 * 256 + n mod 256 = n" by (rule div_mult_mod_eq)
  have 2: "n div 65536 * 256 + n div 256 mod 256 = n div 256"
    using div_mult_mod_eq [of "n div 256" 256] by (simp add: div_mult2_eq [symmetric])
  have 3: "n div 16777216 * 256 + n div 65536 mod 256 = n div 65536"
    using div_mult_mod_eq [of "n div 65536" 256] by (simp add: div_mult2_eq [symmetric])
  show ?thesis by (simp only: 3 2 1)
qed

lemma be32_to_be32:
  assumes "to_be32 w = [a, b, c, d]"
  shows "be32 a b c d = unat w"
proof -
  have "unat w < 4294967296" using unsigned_less [of w, where 'a = nat] by simp
  then have "unat (word_of_nat (unat w div 16777216) :: byte) = unat w div 16777216"
    by (intro unat_byte_of_nat) simp
  then show ?thesis
    using assms base256_digits [of "unat w"]
    by (auto simp: be32_def to_be32_def unat_byte_of_nat simp del: unsigned_of_nat)
qed

end
