(* ===== verification/NetAddr.thy ===== *)
theory NetAddr
  imports RustText
begin

text \<open>
  \<open>std::net\<close>: IP and socket addresses, their classification, \<open>Display\<close> and
  \<open>FromStr\<close>, following the standard library's recursive descent parser.
\<close>

datatype ip_addr = V4 byte byte byte byte | V6 "u16 list"

type_synonym sock_addr = "ip_addr \<times> u16"

definition is_ipv4 :: "ip_addr \<Rightarrow> bool" where
  "is_ipv4 ip = (case ip of V4 _ _ _ _ \<Rightarrow> True | V6 _ \<Rightarrow> False)"

definition is_unspecified :: "ip_addr \<Rightarrow> bool" where
  "is_unspecified ip =
     (case ip of V4 a b c d \<Rightarrow> a = 0 \<and> b = 0 \<and> c = 0 \<and> d = 0 | V6 s \<Rightarrow> list_all (\<lambda>w. w = 0) s)"

definition is_multicast :: "ip_addr \<Rightarrow> bool" where
  "is_multicast ip =
     (case ip of V4 a b c d \<Rightarrow> 224 \<le> unat a \<and> unat a \<le> 239
      | V6 s \<Rightarrow> (case s of [] \<Rightarrow> False | w # _ \<Rightarrow> 0xff00 \<le> unat w))"

definition is_broadcast :: "ip_addr \<Rightarrow> bool" where
  "is_broadcast ip = (ip = V4 255 255 255 255)"

section \<open>Printing\<close>

definition show_ipv4 :: "byte \<Rightarrow> byte \<Rightarrow> byte \<Rightarrow> byte \<Rightarrow> utext" where
  "show_ipv4 a b c d =
     to_decimal (unat a) @ [46] @ to_decimal (unat b) @ [46] @ to_decimal (unat c) @ [46] @
     to_decimal (unat d)"

definition hex_digit :: "nat \<Rightarrow> nat" where
  "hex_digit n = (if n < 10 then 48 + n else 87 + n)"

fun to_hex :: "nat \<Rightarrow> utext" where
  "to_hex n = (if n < 16 then [hex_digit n] else to_hex (n div 16) @ [hex_digit (n mod 16)])"

declare to_hex.simps [simp del]

text \<open>The first longest run of zero segments, as (start, length).\<close>

fun zero_span :: "nat \<Rightarrow> nat \<times> nat \<Rightarrow> nat \<times> nat \<Rightarrow> u16 list \<Rightarrow> nat \<times> nat" where
  "zero_span i cur best [] = best"
| "zero_span i cur best (w # ws) =
     (if w = 0 then
        (let cur' = (if snd cur = 0 then i else fst cur, Suc (snd cur));
             best' = (if snd cur' > snd best then cur' else best)
         in zero_span (Suc i) cur' best' ws)
      else zero_span (Suc i) (0, 0) best ws)"

definition show_segments :: "u16 list \<Rightarrow> utext" where
  "show_segments ws = join [58] (map (\<lambda>w. to_hex (unat w)) ws)"

definition show_ipv6 :: "u16 list \<Rightarrow> utext" where
  "show_ipv6 s =
     (if length s = 8 \<and> take 5 s = replicate 5 0 \<and> s ! 5 = 0xffff
      then lit ''::ffff:'' @ show_ipv4 (ucast (drop_bit 8 (s ! 6))) (ucast (s ! 6))
             (ucast (drop_bit 8 (s ! 7))) (ucast (s ! 7))
      else (let (start, len) = zero_span 0 (0, 0) (0, 0) s
            in if len > 1
               then show_segments (take start s) @ lit ''::'' @ show_segments (drop (start + len) s)
               else show_segments s))"

definition show_ip :: "ip_addr \<Rightarrow> utext" where
  "show_ip ip = (case ip of V4 a b c d \<Rightarrow> show_ipv4 a b c d | V6 s \<Rightarrow> show_ipv6 s)"

section \<open>Parsing\<close>

definition digit_value :: "nat \<Rightarrow> nat \<Rightarrow> nat option" where
  "digit_value radix c =
     (if 48 \<le> c \<and> c \<le> 57 \<and> c - 48 < radix then Some (c - 48)
      else if 97 \<le> c \<and> c \<le> 122 \<and> c - 87 < radix then Some (c - 87)
      else if 65 \<le> c \<and> c \<le> 90 \<and> c - 55 < radix then Some (c - 55)
      else None)"

definition is_digit_of :: "nat \<Rightarrow> nat \<Rightarrow> bool" where
  "is_digit_of radix c = (digit_value radix c \<noteq> None)"

text \<open>\<open>read_number\<close>: all digits that follow, at most \<open>max_digits\<close> of them.\<close>

definition read_number :: "nat \<Rightarrow> nat \<Rightarrow> bool \<Rightarrow> nat \<Rightarrow> utext \<Rightarrow> (nat \<times> utext) option" where
  "read_number radix max_digits allow_zero bound s =
     (let ds = takeWhile (is_digit_of radix) s;
          v = foldl (\<lambda>acc c. acc * radix + the (digit_value radix c)) 0 ds
      in if ds = [] \<or> length ds > max_digits \<or> \<not> allow_zero \<and> hd s = 48 \<and> length ds > 1 \<or> v > bound
         then None else Some (v, dropWhile (is_digit_of radix) s))"

definition read_char :: "nat \<Rightarrow> utext \<Rightarrow> utext option" where
  "read_char c s = (case s of [] \<Rightarrow> None | d # r \<Rightarrow> if d = c then Some r else None)"

text \<open>\<open>read_separator\<close>: the separator first, unless this is element 0.\<close>

definition read_separator ::
  "nat \<Rightarrow> nat \<Rightarrow> (utext \<Rightarrow> ('a \<times> utext) option) \<Rightarrow> utext \<Rightarrow> ('a \<times> utext) option" where
  "read_separator sep i p s =
     (if i = 0 then p s else (case read_char sep s of None \<Rightarrow> None | Some r \<Rightarrow> p r))"

definition read_octet :: "utext \<Rightarrow> (nat \<times> utext) option" where
  "read_octet s = read_number 10 3 False 255 s"

definition read_ipv4 :: "utext \<Rightarrow> ((nat \<times> nat \<times> nat \<times> nat) \<times> utext) option" where
  "read_ipv4 s =
     (case read_octet s of None \<Rightarrow> None | Some (a, s) \<Rightarrow>
     (case read_separator 46 1 read_octet s of None \<Rightarrow> None | Some (b, s) \<Rightarrow>
     (case read_separator 46 2 read_octet s of None \<Rightarrow> None | Some (c, s) \<Rightarrow>
     (case read_separator 46 3 read_octet s of None \<Rightarrow> None | Some (d, s) \<Rightarrow>
       Some ((a, b, c, d), s)))))"

text \<open>\<open>read_groups\<close>: up to \<open>n\<close> more groups; \<open>i\<close> is the index of the next one. Returns the
  groups and whether an embedded IPv4 address ended them.\<close>

fun read_groups :: "nat \<Rightarrow> nat \<Rightarrow> utext \<Rightarrow> (nat list \<times> bool) \<times> utext" where
  "read_groups 0 i s = (([], False), s)"
| "read_groups (Suc n) i s =
     (case (if n > 0 then read_separator 58 i read_ipv4 s else None) of
        Some ((a, b, c, d), r) \<Rightarrow> (([a * 256 + b, c * 256 + d], True), r)
      | None \<Rightarrow>
          (case read_separator 58 i (read_number 16 4 True 65535) s of
             None \<Rightarrow> (([], False), s)
           | Some (g, r) \<Rightarrow>
               (case read_groups n (Suc i) r of ((gs, e), t) \<Rightarrow> ((g # gs, e), t))))"

definition read_ipv6 :: "utext \<Rightarrow> (nat list \<times> utext) option" where
  "read_ipv6 s =
     (case read_groups 8 0 s of ((head, ends4), r) \<Rightarrow>
        if length head = 8 then Some (head, r)
        else if ends4 then None
        else (case read_char 58 r of None \<Rightarrow> None | Some r \<Rightarrow>
             (case read_char 58 r of None \<Rightarrow> None | Some r \<Rightarrow>
             (case read_groups (7 - length head) 0 r of ((tail, _), r) \<Rightarrow>
                Some (head @ replicate (8 - length head - length tail) 0 @ tail, r)))))"

definition parse_ipv6 :: "utext \<Rightarrow> ip_addr option" where
  "parse_ipv6 s = (case read_ipv6 s of Some (gs, []) \<Rightarrow> Some (V6 (map word_of_nat gs)) | _ \<Rightarrow> None)"

definition parse_ipv4 :: "utext \<Rightarrow> ip_addr option" where
  "parse_ipv4 s =
     (case read_ipv4 s of
        Some ((a, b, c, d), []) \<Rightarrow> Some (V4 (word_of_nat a) (word_of_nat b) (word_of_nat c) (word_of_nat d))
      | _ \<Rightarrow> None)"

text \<open>\<open>IpAddr::from_str\<close>: IPv4, else IPv6, and nothing may remain. The parser tries IPv6 only when
  the IPv4 reader failed, not when it succeeded and left input over.\<close>

definition parse_ip :: "utext \<Rightarrow> ip_addr option" where
  "parse_ip s =
     (case read_ipv4 s of
        Some ((a, b, c, d), r) \<Rightarrow>
          (if r = [] then Some (V4 (word_of_nat a) (word_of_nat b) (word_of_nat c) (word_of_nat d)) else None)
      | None \<Rightarrow> parse_ipv6 s)"

section \<open>IPv4 addresses survive printing and parsing\<close>

lemma is_digit_of_decimal: "48 \<le> c \<Longrightarrow> c \<le> 57 \<Longrightarrow> is_digit_of 10 c"
  by (simp add: is_digit_of_def digit_value_def)

lemma digit_value_decimal: "48 \<le> c \<Longrightarrow> c \<le> 57 \<Longrightarrow> digit_value 10 c = Some (c - 48)"
  by (simp add: digit_value_def)

lemma foldl_digit_value:
  "\<forall>c \<in> set s. 48 \<le> c \<and> c \<le> 57 \<Longrightarrow>
   foldl (\<lambda>acc c. acc * 10 + the (digit_value 10 c)) a s = foldl (\<lambda>acc c. acc * 10 + (c - 48)) a s"
  by (induction s arbitrary: a) (auto simp: digit_value_decimal)

lemma to_decimal_octet_shape:
  assumes "n < 256"
  shows "length (to_decimal n) \<le> 3" and "hd (to_decimal n) = 48 \<Longrightarrow> length (to_decimal n) = 1"
proof -
  have two: "to_decimal n = [48 + n div 10, 48 + n mod 10]" if "10 \<le> n" "n < 100"
  proof -
    have "to_decimal (n div 10) = [48 + n div 10]"
      using that by (subst to_decimal.simps) simp
    then show ?thesis using that by (subst to_decimal.simps) simp
  qed
  have three: "to_decimal n = [48 + n div 100, 48 + n div 10 mod 10, 48 + n mod 10]" if "100 \<le> n"
  proof -
    have d: "n div 10 div 10 = n div 100" by (simp add: div_mult2_eq [symmetric])
    have "to_decimal (n div 100) = [48 + n div 100]"
      using that assms by (subst to_decimal.simps) simp
    moreover have "to_decimal (n div 10) = to_decimal (n div 10 div 10) @ [48 + n div 10 mod 10]"
      using that by (subst to_decimal.simps) simp
    moreover have "to_decimal n = to_decimal (n div 10) @ [48 + n mod 10]"
      using that by (subst to_decimal.simps) simp
    ultimately show ?thesis by (simp add: d)
  qed
  have one: "to_decimal n = [48 + n]" if "n < 10"
    using that by (subst to_decimal.simps) simp
  show "length (to_decimal n) \<le> 3"
    by (cases "n < 10"; cases "n < 100") (simp_all add: one two three)
  show "hd (to_decimal n) = 48 \<Longrightarrow> length (to_decimal n) = 1"
  proof (cases "n < 10")
    case True
    then show ?thesis by (simp only: one) simp
  next
    case False
    then show "hd (to_decimal n) = 48 \<Longrightarrow> length (to_decimal n) = 1"
      by (cases "n < 100") (simp_all add: two three)
  qed
qed

lemma read_octet_to_decimal:
  assumes "n < 256" and "r = [] \<or> \<not> is_digit_of 10 (hd r)"
  shows "read_octet (to_decimal n @ r) = Some (n, r)"
proof -
  have all: "\<forall>c \<in> set (to_decimal n). is_digit_of 10 c"
    using to_decimal_range is_digit_of_decimal by blast
  have tw: "takeWhile (is_digit_of 10) (to_decimal n @ r) = to_decimal n"
    using all assms(2) by (cases r) (auto simp: takeWhile_append2)
  have dw: "dropWhile (is_digit_of 10) (to_decimal n @ r) = r"
    using all assms(2) by (cases r) (auto simp: dropWhile_append2)
  have v: "foldl (\<lambda>acc c. acc * 10 + the (digit_value 10 c)) 0 (to_decimal n) = n"
    using foldl_digit_value [of "to_decimal n" 0] to_decimal_range [of _ n]
    by (simp add: digits_value_def [symmetric])
  show ?thesis
    using assms(1) to_decimal_octet_shape [OF assms(1)]
    by (auto simp: read_octet_def read_number_def Let_def tw dw v)
qed

lemma read_ipv4_show:
  assumes "r = [] \<or> \<not> is_digit_of 10 (hd r)"
  shows "read_ipv4 (show_ipv4 a b c d @ r) = Some ((unat a, unat b, unat c, unat d), r)"
proof -
  have bound: "\<And>x :: byte. unat x < 256"
    using unsigned_less [where 'a = nat and 'b = 8] by simp
  have dot: "\<not> is_digit_of 10 46" by (simp add: is_digit_of_def digit_value_def)
  show ?thesis
    using assms
    by (simp add: show_ipv4_def read_ipv4_def read_separator_def read_char_def
        read_octet_to_decimal bound dot)
qed

lemma parse_ip_show_ipv4: "parse_ip (show_ip (V4 a b c d)) = Some (V4 a b c d)"
  using read_ipv4_show [of "[]" a b c d]
  by (simp add: parse_ip_def show_ip_def)

end
