(* ===== verification/NativeTypes.thy ===== *)
theory NativeTypes
  imports NetAddr
begin

text \<open>
  The values that cross the boundary of the \<open>faxe-native\<close> crate: its error type
  (\<open>lib.rs\<close>), fax stages, statistics and events (\<open>fax.rs\<close>), transports and modes
  (\<open>sip.rs\<close>), limits, listeners and service events (\<open>sip/service.rs\<close>), the receive
  report (\<open>recovery.rs\<close>) and the playout delay check (\<open>playout.rs\<close>).
\<close>

section \<open>Fax stages, statistics, failures and events (fax.rs)\<close>

record page_progress =
  pp_page :: nat
  pp_rows :: nat
  pp_total :: nat

record transfer_stats =
  ts_sent_pages :: nat
  ts_received_pages :: nat
  ts_received_rows :: nat
  ts_bit_rate :: nat
  ts_ecm :: bool

record fax_failure =
  failure_code :: int
  failure_reason :: utext
  failure_stats :: transfer_stats

datatype fax_stage =
    SConnecting | SSecuring | SRegistering | SCalling | SRinging | SConnected | SOfferingT38
  | SFallingBack | SNegotiating | SSendingT38 | SSendingG711 | SConfirming

datatype fax_event =
    EvStage fax_stage
  | EvNegotiated
  | EvPageAcknowledged transfer_stats
  | EvPageProgress page_progress
  | EvT38Activity nat
  | EvCompleted "fax_failure + transfer_stats"

definition show_failure :: "fax_failure \<Rightarrow> utext" where
  "show_failure f = lit ''T.30 '' @ signed_decimal (failure_code f) @ lit '': '' @ failure_reason f"

section \<open>Errors (lib.rs)\<close>

text \<open>Errors of other libraries are carried as the text their \<open>Display\<close> yields.\<close>

datatype native_error =
    NIo utext
  | NSip utext
  | NCancelled
  | NFax fax_failure
  | NDsp utext
  | NInvalid utext

fun show_native_error :: "native_error \<Rightarrow> utext" where
  "show_native_error (NIo e) = e"
| "show_native_error (NSip s) = lit ''SIP: '' @ s"
| "show_native_error NCancelled = lit ''Fax cancelled''"
| "show_native_error (NFax f) = show_failure f"
| "show_native_error (NDsp e) = lit ''SpanDSP: '' @ e"
| "show_native_error (NInvalid s) = s"

section \<open>Transports, modes, limits and listeners (sip.rs, sip/service.rs)\<close>

datatype signaling_transport = SigUdp | SigTcp | SigTls

datatype call_mode = MAuto | MG711 | MT38

record call_limits =
  lim_outgoing :: nat
  lim_incoming :: nat

definition default_limits :: call_limits where
  "default_limits = \<lparr>lim_outgoing = 1, lim_incoming = 1\<rparr>"

definition server_limits :: call_limits where
  "server_limits = \<lparr>lim_outgoing = 100, lim_incoming = 100\<rparr>"

definition limits_validate :: "call_limits \<Rightarrow> native_error + unit" where
  "limits_validate l =
     (if lim_outgoing l = 0 \<or> lim_incoming l = 0
      then Inl (NInvalid (lit ''Call limits must be positive'')) else Inr ())"

record listener_config =
  lc_bind :: sock_addr
  lc_transport :: signaling_transport
  lc_advertised :: "ip_addr option"

definition listener_ip :: "listener_config \<Rightarrow> ip_addr" where
  "listener_ip l = (case lc_advertised l of Some ip \<Rightarrow> ip | None \<Rightarrow> fst (lc_bind l))"

definition listener_validate :: "listener_config \<Rightarrow> native_error + unit" where
  "listener_validate l =
     (if \<not> is_ipv4 (fst (lc_bind l)) \<or> \<not> is_ipv4 (listener_ip l) \<or>
         is_unspecified (listener_ip l) \<or> lc_transport l = SigTls
      then Inl (NInvalid (lit ''Direct listeners require IPv4 UDP/TCP and a concrete advertised IP (or bind IP)''))
      else Inr ())"

record service_account =
  sa_id :: uuid
  sa_server :: utext
  sa_port :: u16
  sa_transport :: signaling_transport
  sa_username :: utext
  sa_auth_username :: "utext option"
  sa_password :: "utext option"
  sa_register :: bool
  sa_outbound_proxy :: "utext option"
  sa_playout_delay :: nat
  sa_automatic_nat :: bool
  sa_stun_server :: "utext option"

section \<open>The playout delay check (playout.rs)\<close>

definition default_playout_delay_ms :: nat where
  "default_playout_delay_ms = 200"

definition validate_playout_delay :: "nat \<Rightarrow> native_error + unit" where
  "validate_playout_delay ms =
     (if \<not> (40 \<le> ms \<and> ms \<le> 1000)
      then Inl (NInvalid (lit ''Audio receive delay must be between 40 and 1000 ms''))
      else Inr ())"

section \<open>The receive report (recovery.rs)\<close>

datatype receive_completion = RCompleted int | RInterrupted int

datatype page_kind = PComplete | PRecoveredPartial

record receive_page =
  rp_kind :: page_kind
  rp_decoded_rows :: nat
  rp_pixel_width :: nat
  rp_hres :: int
  rp_vres :: int
  rp_bad_rows :: nat
  rp_missing_tail :: bool

datatype output_error = OWrite | OFlush | OClose | OAllocation | OOpen | OUnknown int

record receive_report =
  rr_completion :: receive_completion
  rr_confirmed :: nat
  rr_pages :: "receive_page list"
  rr_output_closed :: bool
  rr_output_errors :: "output_error list"
  rr_missing_tail :: bool
  rr_unsupported_codec :: bool

text \<open>The derived \<open>Debug\<close> format of the error list.\<close>

fun debug_output_error :: "output_error \<Rightarrow> utext" where
  "debug_output_error OWrite = lit ''Write''"
| "debug_output_error OFlush = lit ''Flush''"
| "debug_output_error OClose = lit ''Close''"
| "debug_output_error OAllocation = lit ''Allocation''"
| "debug_output_error OOpen = lit ''Open''"
| "debug_output_error (OUnknown n) = lit ''Unknown('' @ signed_decimal n @ lit '')''"

definition debug_output_errors :: "output_error list \<Rightarrow> utext" where
  "debug_output_errors es = lit ''['' @ join (lit '', '') (map debug_output_error es) @ lit '']''"

definition completion_reasons :: "receive_completion \<Rightarrow> utext list" where
  "completion_reasons c =
     (case c of
        RCompleted code \<Rightarrow>
          (if code = 0 then [] else [lit ''T.30 failed with code '' @ signed_decimal code])
      | RInterrupted st \<Rightarrow>
          [lit ''T.30 interrupted (last status '' @ signed_decimal st @ lit '')''])"

definition report_reasons :: "receive_report \<Rightarrow> utext list" where
  "report_reasons r =
     completion_reasons (rr_completion r) @
     (if \<not> rr_output_closed r \<or> rr_output_errors r \<noteq> []
      then [lit ''TIFF output did not finish cleanly: '' @ debug_output_errors (rr_output_errors r)] else []) @
     (if rr_missing_tail r \<or>
         list_ex (\<lambda>p. rp_missing_tail p \<or> rp_kind p = PRecoveredPartial) (rr_pages r)
      then [lit ''An unfinished page has missing image content''] else []) @
     (if list_ex (\<lambda>p. rp_bad_rows p > 0) (rr_pages r)
      then [lit ''Received image contains damaged rows''] else []) @
     (if rr_unsupported_codec r
      then [lit ''The negotiated codec cannot preserve unfinished pages''] else [])"

definition incomplete_reason :: "receive_report \<Rightarrow> utext option" where
  "incomplete_reason r =
     (if report_reasons r \<noteq> [] then Some (join (lit ''; '') (report_reasons r)) else None)"

text \<open>The conversion of SpanDSP's error flags: known flags are decoded in a fixed order, bits outside
  \<open>all\<close> become \<open>Unknown\<close>. The flag values are the library's and parameters here.\<close>

record output_error_flags =
  flag_write :: int
  flag_flush :: int
  flag_close :: int
  flag_allocation :: int
  flag_open :: int
  flag_all :: int

definition decode_output_error :: "output_error_flags \<Rightarrow> int option \<Rightarrow> output_error list" where
  "decode_output_error fl err =
     (case err of None \<Rightarrow> [] | Some bits \<Rightarrow>
        map snd (filter (\<lambda>(flag, _). Bit_Operations.and bits flag = flag)
          [(flag_write fl, OWrite), (flag_flush fl, OFlush), (flag_close fl, OClose),
           (flag_allocation fl, OAllocation), (flag_open fl, OOpen)]) @
        (let unknown = Bit_Operations.and bits (Bit_Operations.not (flag_all fl))
         in if unknown \<noteq> 0 then [OUnknown unknown] else []))"

section \<open>Service events (sip/service.rs)\<close>

datatype receive_state = RsOff | RsRegistering | RsReady | RsReceiving | RsError utext

datatype receive_event =
    ReStatus "uuid option" receive_state
  | ReProgress uuid fax_event
  | ReFinished uuid "native_error + transfer_stats" "call_mode option" "receive_report option"

datatype send_update =
    SuProgress fax_event
  | SuFinished "native_error + transfer_stats"

section \<open>Facts\<close>

lemma validate_playout_delay_ok [simp]:
  "validate_playout_delay ms = Inr u \<longleftrightarrow> 40 \<le> ms \<and> ms \<le> 1000"
  by (auto simp: validate_playout_delay_def)

lemma join_eq_Nil_iff: "sep \<noteq> [] \<Longrightarrow> join sep xs = [] \<longleftrightarrow> xs = [] \<or> xs = [[]]"
  by (induction sep xs rule: join.induct) auto

lemma if_singleton_Nil [simp]: "((if b then [x] else []) = []) \<longleftrightarrow> \<not> b"
  by simp

lemma completion_reasons_Nil [simp]: "completion_reasons c = [] \<longleftrightarrow> c = RCompleted 0"
  by (cases c) (simp_all add: completion_reasons_def)

lemma incomplete_reason_None_iff:
  "incomplete_reason r = None \<longleftrightarrow>
     rr_completion r = RCompleted 0 \<and> rr_output_closed r \<and> rr_output_errors r = [] \<and>
     \<not> rr_missing_tail r \<and> \<not> rr_unsupported_codec r \<and>
     (\<forall>p \<in> set (rr_pages r). rp_kind p = PComplete \<and> \<not> rp_missing_tail p \<and> rp_bad_rows p = 0)"
proof -
  have kind: "\<And>p. rp_kind p = PRecoveredPartial \<longleftrightarrow> rp_kind p \<noteq> PComplete"
    using page_kind.exhaust by (metis page_kind.distinct(1))
  have "incomplete_reason r = None \<longleftrightarrow> report_reasons r = []"
    by (simp add: incomplete_reason_def)
  also have "\<dots> \<longleftrightarrow> rr_completion r = RCompleted 0 \<and>
      \<not> (\<not> rr_output_closed r \<or> rr_output_errors r \<noteq> []) \<and>
      \<not> (rr_missing_tail r \<or>
         list_ex (\<lambda>p. rp_missing_tail p \<or> rp_kind p = PRecoveredPartial) (rr_pages r)) \<and>
      \<not> list_ex (\<lambda>p. rp_bad_rows p > 0) (rr_pages r) \<and> \<not> rr_unsupported_codec r"
    by (simp only: report_reasons_def append_is_Nil_conv if_singleton_Nil completion_reasons_Nil)
  finally show ?thesis
    by (auto simp: list_ex_iff kind)
qed

end
