(* ===== verification/Model.thy ===== *)
theory Model
  imports NativeTypes
begin

text \<open>
  The data model of \<open>faxe-engine\<close>: its error type (\<open>error.rs\<close>), the engine options
  (\<open>options.rs\<close>), profiles, destinations, documents, jobs and their validation
  (\<open>model.rs\<close>). Constructors of enums whose names clash carry a letter of the enum; fields
  carry a prefix of the struct. Errors of other crates are carried as their \<open>Display\<close> text.
\<close>

section \<open>Errors (error.rs)\<close>

datatype engine_error =
    ETransmission utext
  | EInvalid utext
  | EIo utext
  | EDatabase utext
  | EJson utext
  | EImage utext
  | ETiff utext
  | EPdf utext
  | ECancelled
  | ENotFound utext
  | EWorkerStopped
  | ECredentials utext

fun show_error :: "engine_error \<Rightarrow> utext" where
  "show_error (ETransmission s) = s"
| "show_error (EInvalid s) = s"
| "show_error (EIo e) = e"
| "show_error (EDatabase e) = lit ''Database: '' @ e"
| "show_error (EJson e) = lit ''Stored data: '' @ e"
| "show_error (EImage e) = lit ''Image: '' @ e"
| "show_error (ETiff e) = lit ''TIFF: '' @ e"
| "show_error (EPdf s) = lit ''PDF: '' @ s"
| "show_error ECancelled = lit ''Operation cancelled''"
| "show_error (ENotFound s) = s @ lit '' was not found''"
| "show_error EWorkerStopped = lit ''Engine worker stopped''"
| "show_error (ECredentials s) = lit ''Credentials: '' @ s"

section \<open>Engine options (options.rs)\<close>

record engine_options =
  opt_limits :: call_limits
  opt_document_workers :: nat
  opt_admission_timeout_secs :: nat

definition default_engine_options :: engine_options where
  "default_engine_options =
     \<lparr>opt_limits = default_limits, opt_document_workers = 1, opt_admission_timeout_secs = 5\<rparr>"

definition server_engine_options :: engine_options where
  "server_engine_options =
     default_engine_options\<lparr>opt_limits := server_limits, opt_document_workers := 2\<rparr>"

definition engine_options_validate :: "engine_options \<Rightarrow> engine_error + unit" where
  "engine_options_validate o' =
     res_bind (map_err (\<lambda>e. EInvalid (show_native_error e)) (limits_validate (opt_limits o')))
       (\<lambda>_. if opt_document_workers o' = 0 \<or> opt_admission_timeout_secs o' = 0
             then Inl (EInvalid (lit ''Worker count and admission timeout must be positive''))
             else Inr ())"

section \<open>Enumerations (model.rs)\<close>

datatype fax_mode = FAuto | FT38 | FG711

definition all_fax_modes :: "fax_mode list" where
  "all_fax_modes = [FAuto, FT38, FG711]"

text \<open>The separator \<open>183\<close> is the middle dot.\<close>

fun show_fax_mode :: "fax_mode \<Rightarrow> utext" where
  "show_fax_mode FAuto = lit ''Auto '' @ [183] @ lit '' prefer T.38''"
| "show_fax_mode FT38 = lit ''T.38 only''"
| "show_fax_mode FG711 = lit ''G.711 only''"

datatype sip_transport = TUdp | TTcp | TTls

definition all_sip_transports :: "sip_transport list" where
  "all_sip_transports = [TUdp, TTcp, TTls]"

fun default_port :: "sip_transport \<Rightarrow> u16" where
  "default_port TUdp = 5060"
| "default_port TTcp = 5060"
| "default_port TTls = 5061"

fun show_sip_transport :: "sip_transport \<Rightarrow> utext" where
  "show_sip_transport TUdp = lit ''UDP''"
| "show_sip_transport TTcp = lit ''TCP''"
| "show_sip_transport TTls = lit ''TLS''"

datatype paper_size = A4 | Letter

datatype resolution = Standard | Fine

fun vertical_dpi :: "resolution \<Rightarrow> nat" where
  "vertical_dpi Standard = 98"
| "vertical_dpi Fine = 196"

datatype binarization = Photo | BText

fun show_paper :: "paper_size \<Rightarrow> utext" where
  "show_paper A4 = lit ''A4''"
| "show_paper Letter = lit ''Letter''"

fun show_resolution :: "resolution \<Rightarrow> utext" where
  "show_resolution Standard = lit ''Standard''"
| "show_resolution Fine = lit ''Fine''"

fun show_binarization :: "binarization \<Rightarrow> utext" where
  "show_binarization BText = lit ''Text''"
| "show_binarization Photo = lit ''Photo''"

section \<open>Profiles\<close>

record sip_profile =
  prof_id :: uuid
  prof_name :: utext
  prof_server :: utext
  prof_port :: u16
  prof_transport :: sip_transport
  prof_username :: utext
  prof_auth_username :: "utext option"
  prof_register :: bool
  prof_outbound_proxy :: "utext option"
  prof_station_id :: utext
  prof_sending_mode :: fax_mode
  prof_automatic_nat :: bool
  prof_stun_server :: "utext option"
  prof_playout_delay :: nat

definition nonempty :: "utext \<Rightarrow> utext \<Rightarrow> engine_error + unit" where
  "nonempty label v =
     (if trim v = [] then Inl (EInvalid (label @ lit '' is required'')) else Inr ())"

definition validate_sip_uri :: "utext \<Rightarrow> engine_error + unit" where
  "validate_sip_uri v =
     (if \<not> starts_with (lit ''sip:'') v \<and> \<not> starts_with (lit ''sips:'') v
      then Inl (EInvalid (lit ''SIP URI must start with sip: or sips:''))
      else if list_ex (\<lambda>c. is_whitespace c \<or> c \<in> set (lit ''<>'')) v
      then Inl (EInvalid (lit ''SIP URI contains whitespace or angle brackets''))
      else Inr ())"

definition validate_destination :: "utext \<Rightarrow> engine_error + unit" where
  "validate_destination v =
     res_bind (nonempty (lit ''Destination'') v)
       (\<lambda>_. if starts_with (lit ''sip:'') v \<or> starts_with (lit ''sips:'') v then validate_sip_uri v
             else if list_all (\<lambda>c. is_ascii_digit c \<or> c \<in> set (lit ''+*#'')) v then Inr ()
             else Inl (EInvalid (lit ''Use a fax number or a complete sip: URI'')))"

text \<open>\<open>SipProfile::validate\<close>, one check per early return, in the order of the source.\<close>

definition profile_port_check :: "sip_profile \<Rightarrow> engine_error + unit" where
  "profile_port_check p =
     (if prof_port p = 0 then Inl (EInvalid (lit ''SIP port must be between 1 and 65535''))
      else Inr ())"

definition profile_server_check :: "sip_profile \<Rightarrow> engine_error + unit" where
  "profile_server_check p =
     (if list_ex (\<lambda>c. is_whitespace c \<or> c \<in> set (lit ''/@;?<>'')) (prof_server p)
      then Inl (EInvalid (lit ''Enter a SIP hostname or IP address, without sip: or a port''))
      else if contains (lit '':'') (prof_server p) \<and> parse_ipv6 (prof_server p) = None
      then Inl (EInvalid (lit ''Set the SIP port separately from the server''))
      else Inr ())"

definition profile_user_check :: "sip_profile \<Rightarrow> engine_error + unit" where
  "profile_user_check p =
     (if list_ex (\<lambda>c. is_control c \<or> c \<in> set (lit ''@<>;? '')) (prof_username p)
      then Inl (EInvalid (lit ''SIP username contains a URI delimiter''))
      else Inr ())"

definition profile_station_check :: "sip_profile \<Rightarrow> engine_error + unit" where
  "profile_station_check p =
     (if 20 < byte_len (prof_station_id p) \<or> \<not> list_all is_ascii (prof_station_id p) \<or>
         list_ex is_control (prof_station_id p)
      then Inl (EInvalid (lit ''Station ID must be at most 20 printable ASCII characters''))
      else Inr ())"

definition profile_proxy_check :: "sip_profile \<Rightarrow> engine_error + unit" where
  "profile_proxy_check p =
     (case prof_outbound_proxy p of None \<Rightarrow> Inr () | Some proxy \<Rightarrow> validate_sip_uri proxy)"

definition profile_stun_check :: "sip_profile \<Rightarrow> engine_error + unit" where
  "profile_stun_check p =
     (case prof_stun_server p of
        None \<Rightarrow> Inr ()
      | Some server \<Rightarrow>
          if trim server = [] \<or> list_ex is_whitespace server \<or> contains (lit ''/'') server
          then Inl (EInvalid (lit ''Use a STUN hostname with an optional port'')) else Inr ())"

definition profile_validate :: "sip_profile \<Rightarrow> engine_error + unit" where
  "profile_validate p =
     res_bind (map_err (\<lambda>e. EInvalid (show_native_error e))
                 (validate_playout_delay (prof_playout_delay p))) (\<lambda>_.
     res_bind (nonempty (lit ''Profile name'') (prof_name p)) (\<lambda>_.
     res_bind (nonempty (lit ''SIP server'') (prof_server p)) (\<lambda>_.
     res_bind (nonempty (lit ''SIP username'') (prof_username p)) (\<lambda>_.
     res_bind (profile_port_check p) (\<lambda>_.
     res_bind (profile_server_check p) (\<lambda>_.
     res_bind (profile_user_check p) (\<lambda>_.
     res_bind (profile_station_check p) (\<lambda>_.
     res_bind (profile_proxy_check p) (\<lambda>_.
     profile_stun_check p)))))))))"

text \<open>\<open>PartialEq\<close> of profiles compares their ids only.\<close>

definition profile_eq :: "sip_profile \<Rightarrow> sip_profile \<Rightarrow> bool" where
  "profile_eq a b \<longleftrightarrow> prof_id a = prof_id b"

section \<open>Destinations, documents and requests\<close>

record destination =
  dest_id :: uuid
  dest_name :: utext
  dest_address :: utext
  dest_profile :: uuid

record document_options =
  do_paper :: paper_size
  do_resolution :: resolution
  do_binarization :: binarization
  do_contrast :: int

definition default_document_options :: document_options where
  "default_document_options =
     \<lparr>do_paper = A4, do_resolution = Fine, do_binarization = Photo, do_contrast = 0\<rparr>"

record prepared_document =
  doc_id :: uuid
  doc_pages :: nat
  doc_sources :: "utext list"
  doc_options :: document_options

record fax_request =
  rq_profile :: uuid
  rq_destination :: utext
  rq_mode :: fax_mode
  rq_document :: prepared_document

record document_input =
  di_paths :: "path list"
  di_options :: document_options

section \<open>Jobs\<close>

datatype job_state =
    JQueued
  | JConnecting
  | JNegotiating
  | JSending nat
  | JSucceeded nat
  | JFailed utext nat
  | JCancelled nat
  | JInterrupted

definition job_is_active :: "job_state \<Rightarrow> bool" where
  "job_is_active s =
     (case s of JConnecting \<Rightarrow> True | JNegotiating \<Rightarrow> True | JSending _ \<Rightarrow> True | _ \<Rightarrow> False)"

definition job_is_finished :: "job_state \<Rightarrow> bool" where
  "job_is_finished s \<longleftrightarrow> (case s of JQueued \<Rightarrow> False | _ \<Rightarrow> True) \<and> \<not> job_is_active s"

definition acknowledged_pages :: "job_state \<Rightarrow> nat" where
  "acknowledged_pages s =
     (case s of JSending n \<Rightarrow> n | JSucceeded n \<Rightarrow> n | JFailed _ n \<Rightarrow> n | JCancelled n \<Rightarrow> n | _ \<Rightarrow> 0)"

definition show_job_state :: "job_state \<Rightarrow> utext" where
  "show_job_state s =
     (case s of
        JQueued \<Rightarrow> lit ''Queued''
      | JConnecting \<Rightarrow> lit ''Connecting''
      | JNegotiating \<Rightarrow> lit ''Negotiating fax''
      | JSending n \<Rightarrow> lit ''Sending '' @ [183] @ lit '' '' @ to_decimal n @ lit '' acknowledged''
      | JSucceeded n \<Rightarrow> lit ''Delivered '' @ [183] @ lit '' '' @ to_decimal n @ lit '' pages''
      | JFailed reason _ \<Rightarrow> lit ''Failed '' @ [183] @ lit '' '' @ reason
      | JCancelled _ \<Rightarrow> lit ''Cancelled''
      | JInterrupted \<Rightarrow> lit ''Interrupted '' @ [183] @ lit '' retry manually'')"

record job_step =
  js_at :: instant
  js_stage :: fax_stage

record job =
  job_id :: uuid
  job_created :: instant
  job_updated :: instant
  job_request :: fax_request
  job_profile :: sip_profile
  job_state :: job_state
  job_retry_of :: "uuid option"
  job_steps :: "job_step list"
  job_bytes :: nat
  job_page_progress :: "page_progress option"

text \<open>
  The derived \<open>PartialEq\<close> of \<open>Job\<close> compares the embedded profile with \<open>profile_eq\<close>; every other
  field is compared structurally.
\<close>

definition job_eq :: "job \<Rightarrow> job \<Rightarrow> bool" where
  "job_eq a b \<longleftrightarrow> profile_eq (job_profile a) (job_profile b) \<and>
     a\<lparr>job_profile := job_profile b\<rparr> = b"

section \<open>Facts\<close>

lemma nonempty_ok [simp]: "nonempty l v = Inr u \<longleftrightarrow> trim v \<noteq> []"
  by (simp add: nonempty_def)

lemma validate_sip_uri_ok [simp]:
  "validate_sip_uri v = Inr u \<longleftrightarrow>
     (starts_with (lit ''sip:'') v \<or> starts_with (lit ''sips:'') v) \<and>
     (\<forall>c \<in> set v. \<not> is_whitespace c \<and> c \<notin> set (lit ''<>''))"
  by (auto simp: validate_sip_uri_def list_ex_iff)

text \<open>The lifecycle phase of a job: queued, active, finished.\<close>

lemma job_phase_exclusive:
  "job_is_active s \<Longrightarrow> \<not> job_is_finished s"
  "job_is_finished JQueued = False" "job_is_active JQueued = False"
  by (simp_all add: job_is_finished_def job_is_active_def)

lemma job_phase_cases:
  obtains "s = JQueued" | "job_is_active s" | "job_is_finished s"
  by (cases s) (auto simp: job_is_finished_def job_is_active_def)

lemma job_state_phase_simps [simp]:
  "job_is_active JConnecting" "job_is_active JNegotiating" "job_is_active (JSending n)"
  "job_is_finished (JSucceeded n)" "job_is_finished (JFailed r n)"
  "job_is_finished (JCancelled n)" "job_is_finished JInterrupted"
  "\<not> job_is_finished JConnecting" "\<not> job_is_finished JNegotiating" "\<not> job_is_finished (JSending n)"
  "\<not> job_is_active (JSucceeded n)" "\<not> job_is_active (JFailed r n)"
  "\<not> job_is_active (JCancelled n)" "\<not> job_is_active JInterrupted"
  "\<not> job_is_active JQueued" "\<not> job_is_finished JQueued"
  by (simp_all add: job_is_finished_def job_is_active_def)

lemma job_eq_refl [simp]: "job_eq a a"
  by (simp add: job_eq_def profile_eq_def)

lemma job_eq_state: "job_eq a b \<Longrightarrow> job_id a = job_id b \<and> job_state a = job_state b"
  by (metis job_eq_def job.ext_inject job.surjective job.update_convs(5))

lemma res_bind_unit_iff:
  "res_bind r k = Inr () \<longleftrightarrow> r = Inr () \<and> k () = Inr ()"
  by (cases r) auto

lemma profile_validate_ok_iff:
  "profile_validate p = Inr () \<longleftrightarrow>
     40 \<le> prof_playout_delay p \<and> prof_playout_delay p \<le> 1000 \<and>
     trim (prof_name p) \<noteq> [] \<and> trim (prof_server p) \<noteq> [] \<and> trim (prof_username p) \<noteq> [] \<and>
     profile_port_check p = Inr () \<and> profile_server_check p = Inr () \<and>
     profile_user_check p = Inr () \<and> profile_station_check p = Inr () \<and>
     profile_proxy_check p = Inr () \<and> profile_stun_check p = Inr ()"
  by (simp only: profile_validate_def res_bind_unit_iff map_err_Inr_iff validate_playout_delay_ok
      nonempty_ok conj_assoc)

end
