(* ===== verification/Receive.thy ===== *)
theory Receive
  imports Model
begin

text \<open>
  Receiving data (\<open>receive.rs\<close>): settings and their validation, receiver status, received
  faxes, their outcome and export status.
\<close>

record receive_settings =
  rs_profile :: "uuid option"
  rs_listener :: "listener_config option"
  rs_manual :: bool
  rs_folder :: "path option"
  rs_mode :: fax_mode
  rs_ecm :: bool
  rs_notifications :: bool

definition default_receive_settings :: receive_settings where
  "default_receive_settings =
     \<lparr>rs_profile = None, rs_listener = None, rs_manual = False, rs_folder = None,
      rs_mode = FAuto, rs_ecm = True, rs_notifications = True\<rparr>"

text \<open>\<open>Path::is_absolute\<close> on Unix.\<close>

definition is_absolute :: "path \<Rightarrow> bool" where
  "is_absolute p = starts_with (lit ''/'') p"

definition settings_listener_check :: "receive_settings \<Rightarrow> engine_error + unit" where
  "settings_listener_check s =
     (case rs_listener s of
        None \<Rightarrow> Inr ()
      | Some l \<Rightarrow>
          res_bind (map_err (\<lambda>e. EInvalid (show_native_error e)) (listener_validate l))
            (\<lambda>_. if rs_profile s \<noteq> None
                  then Inl (EInvalid (lit ''Choose a profile or a direct listener'')) else Inr ()))"

definition settings_profile_check :: "receive_settings \<Rightarrow> sip_profile list \<Rightarrow> engine_error + unit" where
  "settings_profile_check s profiles =
     (case rs_profile s of
        None \<Rightarrow> Inr ()
      | Some i \<Rightarrow>
          (case find_by prof_id i profiles of
             None \<Rightarrow> Inl (ENotFound i)
           | Some p \<Rightarrow>
               res_bind (profile_validate p)
                 (\<lambda>_. if \<not> prof_register p
                       then Inl (EInvalid (lit ''Enable SIP registration before enabling receiving''))
                       else Inr ())))"

definition receive_settings_validate ::
  "receive_settings \<Rightarrow> sip_profile list \<Rightarrow> engine_error + unit" where
  "receive_settings_validate s profiles =
     res_bind (settings_listener_check s) (\<lambda>_.
     res_bind (settings_profile_check s profiles) (\<lambda>_.
     if (rs_profile s \<noteq> None \<or> rs_listener s \<noteq> None) \<and>
        (case rs_folder s of None \<Rightarrow> True | Some p \<Rightarrow> \<not> is_absolute p)
     then Inl (EInvalid (lit ''Receive folder must be an absolute path'')) else Inr ()))"

datatype receiver_state = ROff | RRegistering | RReady | RReceiving | RError utext

record receiver_status =
  rst_profile :: "uuid option"
  rst_state :: receiver_state

definition default_receiver_status :: receiver_status where
  "default_receiver_status = \<lparr>rst_profile = None, rst_state = ROff\<rparr>"

fun show_receiver_state :: "receiver_state \<Rightarrow> utext" where
  "show_receiver_state ROff = lit ''Receive off''"
| "show_receiver_state RRegistering = lit ''Registering''"
| "show_receiver_state RReady = lit ''Ready''"
| "show_receiver_state RReceiving = lit ''Receiving''"
| "show_receiver_state (RError reason) = lit ''Error '' @ [183] @ lit '' '' @ reason"

datatype reception_outcome =
    OutReceiving
  | OutReceived
  | OutPartial utext
  | OutFailed utext
  | OutInterrupted

definition outcome_is_active :: "reception_outcome \<Rightarrow> bool" where
  "outcome_is_active oc = (case oc of OutReceiving \<Rightarrow> True | _ \<Rightarrow> False)"

definition outcome_is_complete :: "reception_outcome \<Rightarrow> bool" where
  "outcome_is_complete oc = (case oc of OutReceived \<Rightarrow> True | _ \<Rightarrow> False)"

text \<open>\<open>Publishing destination staging bytes error\<close>: the destination and the temporary file in the same
  directory are journalled before publication.\<close>

datatype export_status =
    XPending
  | XPublishing path path nat "utext option"
  | XPublished path
  | XFailed utext
  | XNoContent

datatype reception_result =
    ResSucceeded
  | ResFailed utext "int option"
  | ResInterrupted

record received_fax =
  rf_id :: uuid
  rf_profile :: "uuid option"
  rf_profile_name :: utext
  rf_caller :: utext
  rf_destination :: utext
  rf_peer :: utext
  rf_tiff_path :: "path option"
  rf_arrived :: instant
  rf_stem :: utext
  rf_finished :: "instant option"
  rf_options :: receive_settings
  rf_confirmed :: nat
  rf_recovered :: nat
  rf_transport :: "fax_mode option"
  rf_outcome :: reception_outcome
  rf_result :: "reception_result option"
  rf_recovery :: "receive_report option"
  rf_export :: export_status
  rf_partial_available :: bool

record incoming_fax =
  inc_id :: uuid
  inc_caller :: utext
  inc_destination :: utext
  inc_peer :: utext
  inc_arrived :: instant

text \<open>Transfer and the first export attempt have both finished.\<close>

definition received_is_finished :: "received_fax \<Rightarrow> bool" where
  "received_is_finished f \<longleftrightarrow> \<not> outcome_is_active (rf_outcome f) \<and>
     (case rf_export f of
        XPublished _ \<Rightarrow> True
      | XFailed _ \<Rightarrow> True
      | XNoContent \<Rightarrow> True
      | XPublishing _ _ _ (Some _) \<Rightarrow> True
      | _ \<Rightarrow> False)"

section \<open>Facts\<close>

lemma outcome_is_active_iff [simp]: "outcome_is_active oc \<longleftrightarrow> oc = OutReceiving"
  by (cases oc) (simp_all add: outcome_is_active_def)

lemma outcome_is_complete_iff [simp]: "outcome_is_complete oc \<longleftrightarrow> oc = OutReceived"
  by (cases oc) (simp_all add: outcome_is_complete_def)

lemma settings_profile_check_ok:
  "settings_profile_check s profiles = Inr () \<longleftrightarrow>
     (\<forall>i. rs_profile s = Some i \<longrightarrow>
        (\<exists>p. find_by prof_id i profiles = Some p \<and> profile_validate p = Inr () \<and> prof_register p))"
  by (cases "rs_profile s")
     (auto simp: settings_profile_check_def res_bind_unit_iff split: option.splits)

lemma settings_listener_check_ok:
  "settings_listener_check s = Inr () \<longleftrightarrow>
     (\<forall>l. rs_listener s = Some l \<longrightarrow> listener_validate l = Inr () \<and> rs_profile s = None)"
  by (cases "rs_listener s") (auto simp: settings_listener_check_def res_bind_unit_iff)

text \<open>What a valid setting guarantees to the receiver that is started from it.\<close>

lemma receive_settings_validate_ok:
  assumes "receive_settings_validate s profiles = Inr ()"
  shows "rs_listener s = None \<or> rs_profile s = None"
    and "rs_profile s = Some i \<Longrightarrow>
         \<exists>p. find_by prof_id i profiles = Some p \<and> profile_validate p = Inr () \<and> prof_register p"
    and "rs_listener s = Some l \<Longrightarrow> listener_validate l = Inr ()"
    and "rs_profile s \<noteq> None \<or> rs_listener s \<noteq> None \<Longrightarrow> \<exists>f. rs_folder s = Some f \<and> is_absolute f"
proof -
  have l: "settings_listener_check s = Inr ()" and p: "settings_profile_check s profiles = Inr ()"
    and f: "\<not> ((rs_profile s \<noteq> None \<or> rs_listener s \<noteq> None) \<and>
               (case rs_folder s of None \<Rightarrow> True | Some p \<Rightarrow> \<not> is_absolute p))"
    using assms by (auto simp: receive_settings_validate_def res_bind_unit_iff split: if_splits)
  show "rs_listener s = None \<or> rs_profile s = None"
    using l by (auto simp: settings_listener_check_ok)
  show "rs_profile s = Some i \<Longrightarrow>
         \<exists>p. find_by prof_id i profiles = Some p \<and> profile_validate p = Inr () \<and> prof_register p"
    using p by (auto simp: settings_profile_check_ok)
  show "rs_listener s = Some l \<Longrightarrow> listener_validate l = Inr ()"
    using l by (auto simp: settings_listener_check_ok)
  show "rs_profile s \<noteq> None \<or> rs_listener s \<noteq> None \<Longrightarrow> \<exists>f. rs_folder s = Some f \<and> is_absolute f"
    using f by (auto split: option.splits)
qed

end
