(* ===== verification/Store.thy ===== *)
theory Store
  imports Receive "HOL-Library.List_Lexorder" "HOL-Library.Product_Lexorder"
begin

text \<open>
  The durable store (\<open>store.rs\<close>): five SQLite tables as lists of rows in rowid order. Every SQL
  statement, clock reading and fresh uuid consumes one tick of an environment stream, which says
  whether the statement fails and with what text, what the clock shows and which uuid is drawn; a
  failed statement changes no row. A \<open>data\<close> column holds a JSON value, which either decodes
  (\<open>Json\<close>) or does not (\<open>Malformed\<close> with serde's message). Timestamps are compared as instants: the
  RFC 3339 texts in UTC that the columns hold sort in the same order.
\<close>

section \<open>Rows and tables\<close>

datatype 'a json = Json 'a | Malformed utext

definition decode :: "'a json \<Rightarrow> engine_error + 'a" where
  "decode d = (case d of Json x \<Rightarrow> Inr x | Malformed e \<Rightarrow> Inl (EJson e))"

fun decode_all :: "'a json list \<Rightarrow> engine_error + 'a list" where
  "decode_all [] = Inr []"
| "decode_all (d # ds) = res_bind (decode d) (\<lambda>x. res_bind (decode_all ds) (\<lambda>xs. Inr (x # xs)))"

datatype row_status = StQueued | StActive | StFinished

record profile_row =
  pr_id :: uuid
  pr_data :: "sip_profile json"

record destination_row =
  dr_id :: uuid
  dr_profile :: uuid
  dr_data :: "destination json"

record job_row =
  jr_id :: uuid
  jr_created :: instant
  jr_status :: row_status
  jr_data :: "job json"

record received_row =
  fr_id :: uuid
  fr_arrived :: instant
  fr_data :: "received_fax json"

record environment =
  env_fault :: "nat \<Rightarrow> utext option"
  env_now :: "nat \<Rightarrow> instant"
  env_uuid :: "nat \<Rightarrow> uuid"

record store =
  st_version :: nat
  st_profiles :: "profile_row list"
  st_destinations :: "destination_row list"
  st_jobs :: "job_row list"
  st_received :: "received_row list"
  st_preference :: "receive_settings json option"
  st_env :: environment
  st_ticks :: nat

type_synonym 'a stored = "(engine_error + 'a) \<times> store"

definition tick :: "store \<Rightarrow> store" where
  "tick st = st\<lparr>st_ticks := Suc (st_ticks st)\<rparr>"

text \<open>One SQL statement: it fails as a whole or takes effect.\<close>

definition statement :: "(store \<Rightarrow> 'a stored) \<Rightarrow> store \<Rightarrow> 'a stored" where
  "statement f st =
     (case env_fault (st_env st) (st_ticks st) of
        Some e \<Rightarrow> (Inl (EDatabase e), tick st)
      | None \<Rightarrow> f (tick st))"

definition clock :: "store \<Rightarrow> instant" where
  "clock st = env_now (st_env st) (st_ticks st)"

definition fresh_uuid :: "store \<Rightarrow> uuid" where
  "fresh_uuid st = env_uuid (st_env st) (st_ticks st)"

definition fail_store :: "engine_error \<Rightarrow> store \<Rightarrow> 'a stored" where
  "fail_store e st = (Inl e, st)"

definition lift_result :: "engine_error + 'a \<Rightarrow> store \<Rightarrow> 'a stored" where
  "lift_result r st = (r, st)"

text \<open>\<open>INSERT ... ON CONFLICT(id) DO UPDATE\<close>: the row with the id is changed in place, otherwise the
  new row gets the next rowid.\<close>

definition update_rows :: "('r \<Rightarrow> uuid) \<Rightarrow> uuid \<Rightarrow> ('r \<Rightarrow> 'r) \<Rightarrow> 'r list \<Rightarrow> 'r list" where
  "update_rows key k f rows = map (\<lambda>r. if key r = k then f r else r) rows"

definition insert_or_update :: "('r \<Rightarrow> uuid) \<Rightarrow> 'r \<Rightarrow> ('r \<Rightarrow> 'r) \<Rightarrow> 'r list \<Rightarrow> 'r list" where
  "insert_or_update key new f rows =
     (if key new \<in> key ` set rows then update_rows key (key new) f rows else rows @ [new])"

section \<open>Reading\<close>

definition read_list :: "(store \<Rightarrow> 'a json list) \<Rightarrow> store \<Rightarrow> 'a list stored" where
  "read_list query = statement (\<lambda>s. (decode_all (query s), s))"

definition read_one :: "(store \<Rightarrow> 'a json option) \<Rightarrow> uuid \<Rightarrow> store \<Rightarrow> 'a stored" where
  "read_one query i =
     statement (\<lambda>s. (case query s of None \<Rightarrow> Inl (ENotFound i) | Some d \<Rightarrow> decode d, s))"

definition receive_settings_of :: "store \<Rightarrow> receive_settings stored" where
  "receive_settings_of =
     statement (\<lambda>s. (case st_preference s of
                        None \<Rightarrow> Inr default_receive_settings | Some d \<Rightarrow> decode d, s))"

text \<open>\<open>ORDER BY arrived DESC, rowid DESC\<close> is the reverse of the stable ascending sort.\<close>

definition newest_received :: "received_row list \<Rightarrow> received_row list" where
  "newest_received rows = rev (sort_key fr_arrived rows)"

definition received_faxes :: "store \<Rightarrow> received_fax list stored" where
  "received_faxes = read_list (\<lambda>s. map fr_data (newest_received (st_received s)))"

definition received_fax :: "uuid \<Rightarrow> store \<Rightarrow> received_fax stored" where
  "received_fax i = read_one (\<lambda>s. map_option fr_data (find_by fr_id i (st_received s))) i"

text \<open>\<open>ORDER BY json_extract(data, '$.name')\<close>; SQL leaves ties open, the model keeps the rowid order.\<close>

definition profile_sort_key :: "profile_row \<Rightarrow> utext" where
  "profile_sort_key r = (case pr_data r of Json p \<Rightarrow> prof_name p | Malformed _ \<Rightarrow> [])"

definition destination_sort_key :: "destination_row \<Rightarrow> utext" where
  "destination_sort_key r = (case dr_data r of Json d \<Rightarrow> dest_name d | Malformed _ \<Rightarrow> [])"

definition profiles :: "store \<Rightarrow> sip_profile list stored" where
  "profiles = read_list (\<lambda>s. map pr_data (sort_key profile_sort_key (st_profiles s)))"

definition profile :: "uuid \<Rightarrow> store \<Rightarrow> sip_profile stored" where
  "profile i = read_one (\<lambda>s. map_option pr_data (find_by pr_id i (st_profiles s))) i"

definition destinations :: "store \<Rightarrow> destination list stored" where
  "destinations = read_list (\<lambda>s. map dr_data (sort_key destination_sort_key (st_destinations s)))"

definition newest_jobs :: "job_row list \<Rightarrow> job_row list" where
  "newest_jobs rows = rev (sort_key jr_created rows)"

definition jobs :: "store \<Rightarrow> job list stored" where
  "jobs = read_list (\<lambda>s. map jr_data (newest_jobs (st_jobs s)))"

definition stored_job :: "uuid \<Rightarrow> store \<Rightarrow> job stored" where
  "stored_job i = read_one (\<lambda>s. map_option jr_data (find_by jr_id i (st_jobs s))) i"

section \<open>Writing\<close>

text \<open>The effect of the upserting statements on the rows of their tables.\<close>

definition put_profile :: "sip_profile \<Rightarrow> profile_row list \<Rightarrow> profile_row list" where
  "put_profile p =
     insert_or_update pr_id \<lparr>pr_id = prof_id p, pr_data = Json p\<rparr> (\<lambda>r. r\<lparr>pr_data := Json p\<rparr>)"

definition put_destination :: "destination \<Rightarrow> destination_row list \<Rightarrow> destination_row list" where
  "put_destination d =
     insert_or_update dr_id \<lparr>dr_id = dest_id d, dr_profile = dest_profile d, dr_data = Json d\<rparr>
       (\<lambda>r. r\<lparr>dr_profile := dest_profile d, dr_data := Json d\<rparr>)"

definition put_received :: "received_fax \<Rightarrow> received_row list \<Rightarrow> received_row list" where
  "put_received f =
     insert_or_update fr_id \<lparr>fr_id = rf_id f, fr_arrived = rf_arrived f, fr_data = Json f\<rparr>
       (\<lambda>r. r\<lparr>fr_data := Json f\<rparr>)"

text \<open>\<open>UPDATE jobs SET status=..., data=... WHERE id=...\<close>\<close>

definition put_job :: "row_status \<Rightarrow> job \<Rightarrow> job_row list \<Rightarrow> job_row list" where
  "put_job status j = update_rows jr_id (job_id j) (\<lambda>r. r\<lparr>jr_status := status, jr_data := Json j\<rparr>)"

definition save_receive_settings :: "receive_settings \<Rightarrow> store \<Rightarrow> unit stored" where
  "save_receive_settings x st =
     and_then (profiles st) (\<lambda>ps s.
     and_then (lift_result (receive_settings_validate x ps) s) (\<lambda>_.
     statement (\<lambda>s. (Inr (), s\<lparr>st_preference := Some (Json x)\<rparr>))))"

definition save_received :: "received_fax \<Rightarrow> store \<Rightarrow> unit stored" where
  "save_received f =
     statement (\<lambda>s. (Inr (), s\<lparr>st_received := put_received f (st_received s)\<rparr>))"

definition save_profile :: "sip_profile \<Rightarrow> store \<Rightarrow> unit stored" where
  "save_profile p st =
     and_then (lift_result (profile_validate p) st) (\<lambda>_ s.
     and_then (if \<not> prof_register p
               then and_then (receive_settings_of s) (\<lambda>x s.
                      if rs_profile x = Some (prof_id p)
                      then fail_store (EInvalid (lit ''Disable receiving before disabling registration'')) s
                      else (Inr (), s))
               else (Inr (), s)) (\<lambda>_.
     statement (\<lambda>s. (Inr (), s\<lparr>st_profiles := put_profile p (st_profiles s)\<rparr>))))"

text \<open>\<open>PRAGMA foreign_keys=ON\<close>: the profile of a destination must exist.\<close>

definition save_destination :: "destination \<Rightarrow> store \<Rightarrow> unit stored" where
  "save_destination d st =
     and_then (lift_result (nonempty (lit ''Destination name'') (dest_name d)) st) (\<lambda>_ s.
     and_then (lift_result (validate_destination (dest_address d)) s) (\<lambda>_.
     statement (\<lambda>s.
       if dest_profile d \<notin> pr_id ` set (st_profiles s)
       then fail_store (EDatabase (lit ''FOREIGN KEY constraint failed'')) s
       else (Inr (), s\<lparr>st_destinations := put_destination d (st_destinations s)\<rparr>))))"

definition remove_destination :: "uuid \<Rightarrow> store \<Rightarrow> unit stored" where
  "remove_destination i =
     statement (\<lambda>s. (Inr (), s\<lparr>st_destinations := filter (\<lambda>r. dr_id r \<noteq> i) (st_destinations s)\<rparr>))"

text \<open>\<open>clear_queue\<close> keeps the active row until the worker records its cancellation.\<close>

definition clear_queue :: "store \<Rightarrow> nat stored" where
  "clear_queue =
     statement (\<lambda>s. (Inr (length (filter (\<lambda>r. jr_status r \<noteq> StActive) (st_jobs s))),
                     s\<lparr>st_jobs := filter (\<lambda>r. \<not> jr_status r \<noteq> StActive) (st_jobs s)\<rparr>))"

definition remove_job :: "uuid \<Rightarrow> store \<Rightarrow> unit stored" where
  "remove_job i =
     statement (\<lambda>s. (Inr (), s\<lparr>st_jobs := filter (\<lambda>r. jr_id r \<noteq> i) (st_jobs s)\<rparr>))"

definition new_job ::
  "uuid \<Rightarrow> instant \<Rightarrow> fax_request \<Rightarrow> sip_profile \<Rightarrow> uuid option \<Rightarrow> job" where
  "new_job i now request p retry_of =
     \<lparr>job_id = i, job_created = now, job_updated = now, job_request = request, job_profile = p,
      job_state = JQueued, job_retry_of = retry_of, job_steps = [], job_bytes = 0,
      job_page_progress = None\<rparr>"

definition enqueue :: "fax_request \<Rightarrow> uuid option \<Rightarrow> store \<Rightarrow> job stored" where
  "enqueue request retry_of st =
     and_then (lift_result (validate_destination (rq_destination request)) st) (\<lambda>_ s.
     and_then (profile (rq_profile request) s) (\<lambda>p s.
     and_then (lift_result (profile_validate p) s) (\<lambda>_ s.
     let now = clock s; s = tick s; i = fresh_uuid s; s = tick s;
         j = new_job i now request p retry_of
     in statement (\<lambda>s.
          if i \<in> jr_id ` set (st_jobs s)
          then fail_store (EDatabase (lit ''UNIQUE constraint failed: jobs.id'')) s
          else (Inr j, s\<lparr>st_jobs := st_jobs s @
                 [\<lparr>jr_id = i, jr_created = now, jr_status = StQueued, jr_data = Json j\<rparr>]\<rparr>)) s)))"

text \<open>\<open>SELECT ... WHERE status='queued' ORDER BY created, rowid LIMIT 1\<close>\<close>

definition oldest_queued :: "job_row list \<Rightarrow> job_row option" where
  "oldest_queued rows =
     (case sort_key jr_created (filter (\<lambda>r. jr_status r = StQueued) rows) of
        [] \<Rightarrow> None | r # _ \<Rightarrow> Some r)"

text \<open>The transaction of \<open>claim_next\<close>: \<open>BEGIN\<close>, the query, the update and \<open>COMMIT\<close> may each fail; a
  dropped transaction rolls the rows back.\<close>

definition claim_next :: "store \<Rightarrow> job option stored" where
  "claim_next st =
     and_then (statement (\<lambda>s. (Inr (), s)) st) (\<lambda>_ s.
     and_then (statement (\<lambda>s. (Inr (oldest_queued (st_jobs s)), s)) s) (\<lambda>row s.
       case row of
         None \<Rightarrow> (Inr None, s)
       | Some r \<Rightarrow>
           and_then (lift_result (decode (jr_data r)) s) (\<lambda>j s.
           let j = j\<lparr>job_state := JConnecting, job_updated := clock s\<rparr>; s = tick s;
               rows = put_job StActive j (st_jobs s)
           in and_then (statement (\<lambda>s. (Inr (), s)) s) (\<lambda>_.
              statement (\<lambda>s. (Inr (Some j), s\<lparr>st_jobs := rows\<rparr>))))))"

definition status_of :: "job_state \<Rightarrow> row_status" where
  "status_of s =
     (case s of JQueued \<Rightarrow> StQueued | _ \<Rightarrow> if job_is_active s then StActive else StFinished)"

text \<open>\<open>update_job\<close> takes \<open>&mut Job\<close>: the time stamp stays in the caller's job even when the statement
  fails, so the operation also returns the job.\<close>

definition stamp_job :: "job \<Rightarrow> store \<Rightarrow> job" where
  "stamp_job j st = j\<lparr>job_updated := clock st\<rparr>"

definition update_job :: "job \<Rightarrow> store \<Rightarrow> unit stored" where
  "update_job j st =
     (let j = stamp_job j st
      in statement (\<lambda>s.
           if job_id j \<in> jr_id ` set (st_jobs s)
           then (Inr (), s\<lparr>st_jobs := put_job (status_of (job_state j)) j (st_jobs s)\<rparr>)
           else fail_store (ENotFound (job_id j)) s) (tick st))"

end
