(* ===== verification/Systems.thy ===== *)
theory Systems
  imports Prelude
begin

text \<open>
  The interfaces the components share, as locales. \<open>labelled_system\<close>: a deterministic machine whose
  every step keeps an invariant, hence every run does. \<open>graded_system\<close>: moreover a measure never
  decreases along a run. \<open>keyed_table\<close>: a container of values that carry their own key, with
  \<open>lookup\<close> after \<open>put\<close>; the components interpret them on their own operations.
\<close>

section \<open>Machines with an invariant\<close>

definition run :: "('a \<Rightarrow> 's \<Rightarrow> 's) \<Rightarrow> 'a list \<Rightarrow> 's \<Rightarrow> 's" where
  "run step as s = foldl (\<lambda>s a. step a s) s as"

lemma run_Nil [simp]: "run step [] s = s"
  by (simp add: run_def)

lemma run_Cons [simp]: "run step (a # as) s = run step as (step a s)"
  by (simp add: run_def)

lemma run_append: "run step (as @ bs) s = run step bs (run step as s)"
  by (simp add: run_def)

locale labelled_system =
  fixes step :: "'a \<Rightarrow> 's \<Rightarrow> 's"
    and inv :: "'s \<Rightarrow> bool"
    and allowed :: "'s \<Rightarrow> 'a \<Rightarrow> bool"
  assumes inv_step: "inv s \<Longrightarrow> allowed s a \<Longrightarrow> inv (step a s)"
begin

primrec allowed_run :: "'a list \<Rightarrow> 's \<Rightarrow> bool" where
  "allowed_run [] s = True"
| "allowed_run (a # as) s = (allowed s a \<and> allowed_run as (step a s))"

lemma inv_run: "inv s \<Longrightarrow> allowed_run as s \<Longrightarrow> inv (run step as s)"
  by (induction as arbitrary: s) (auto intro: inv_step)

lemma allowed_run_append: "allowed_run (as @ bs) s \<longleftrightarrow> allowed_run as s \<and> allowed_run bs (run step as s)"
  by (induction as arbitrary: s) simp_all

lemma inv_run_always: "inv s \<Longrightarrow> (\<And>t a. inv t \<Longrightarrow> allowed t a) \<Longrightarrow> inv (run step as s)"
  by (induction as arbitrary: s) (auto intro: inv_step)

end

locale graded_system = labelled_system step inv allowed
  for step :: "'a \<Rightarrow> 's \<Rightarrow> 's"
    and inv :: "'s \<Rightarrow> bool"
    and allowed :: "'s \<Rightarrow> 'a \<Rightarrow> bool" +
  fixes grade :: "'s \<Rightarrow> 'm::order"
  assumes grade_step: "inv s \<Longrightarrow> allowed s a \<Longrightarrow> grade s \<le> grade (step a s)"
begin

lemma grade_run: "inv s \<Longrightarrow> allowed_run as s \<Longrightarrow> grade s \<le> grade (run step as s)"
proof (induction as arbitrary: s)
  case (Cons a as)
  then have "grade s \<le> grade (step a s)" "grade (step a s) \<le> grade (run step as (step a s))"
    by (auto intro: inv_step grade_step)
  then show ?case by (simp add: order_trans)
qed simp

lemma grade_run_always:
  "inv s \<Longrightarrow> (\<And>t a. inv t \<Longrightarrow> allowed t a) \<Longrightarrow> grade s \<le> grade (run step as s)"
proof (rule grade_run)
  show "inv s \<Longrightarrow> (\<And>t a. inv t \<Longrightarrow> allowed t a) \<Longrightarrow> allowed_run as s"
    by (induction as arbitrary: s) (auto intro: inv_step)
qed

end

section \<open>Tables of keyed values\<close>

locale keyed_table =
  fixes key :: "'v \<Rightarrow> 'k"
    and lookup :: "'k \<Rightarrow> 't \<Rightarrow> 'v option"
    and put :: "'v \<Rightarrow> 't \<Rightarrow> 't"
    and wf :: "'t \<Rightarrow> bool"
  assumes lookup_put: "wf t \<Longrightarrow> lookup k (put v t) = (if k = key v then Some v else lookup k t)"
    and wf_put: "wf t \<Longrightarrow> wf (put v t)"
    and lookup_key: "wf t \<Longrightarrow> lookup k t = Some v \<Longrightarrow> key v = k"
begin

definition put_all :: "'v list \<Rightarrow> 't \<Rightarrow> 't" where
  "put_all vs t = foldl (\<lambda>t v. put v t) t vs"

lemma put_all_simps [simp]: "put_all [] t = t" "put_all (v # vs) t = put_all vs (put v t)"
  by (simp_all add: put_all_def)

lemma wf_put_all: "wf t \<Longrightarrow> wf (put_all vs t)"
  by (induction vs arbitrary: t) (auto intro: wf_put)

lemma lookup_put_all:
  assumes "wf t" "distinct (map key vs)"
  shows "lookup k (put_all vs t) =
           (case find_by key k vs of Some v \<Rightarrow> Some v | None \<Rightarrow> lookup k t)"
  using assms
proof (induction vs arbitrary: t)
  case (Cons v vs)
  show ?case
  proof (cases "key v = k")
    case True
    then have "find_by key k vs = None"
      using Cons.prems(2) by (auto simp: find_by_None_iff)
    with True Cons show ?thesis by (simp add: wf_put lookup_put)
  next
    case False
    with Cons show ?thesis by (auto simp: wf_put lookup_put split: option.splits)
  qed
qed simp

end

text \<open>The item lists of the published view are such a table under \<open>upsert\<close>.\<close>

interpretation view_table: keyed_table key "find_by key" "upsert key" "\<lambda>xs. distinct (map key xs)"
  for key :: "'v \<Rightarrow> 'k"
  by unfold_locales (auto simp: find_by_upsert distinct_upsert dest: find_by_SomeD)

end
