(* ===== verification/StoreInv.thy ===== *)
theory StoreInv
  imports Store Systems
begin

text \<open>
  The invariant of the durable store and the effect of its operations: every row decodes and
  carries its own id, the \<open>status\<close> column mirrors the state in the JSON column, destinations refer
  to existing profiles and the stored receive settings always validate against the stored
  profiles. Every operation keeps it, whichever of its statements fails.
\<close>

section \<open>The invariant\<close>

definition wf_profiles :: "profile_row list \<Rightarrow> bool" where
  "wf_profiles rows \<longleftrightarrow> distinct (map pr_id rows) \<and>
     (\<forall>r \<in> set rows. case pr_data r of
        Json p \<Rightarrow> prof_id p = pr_id r \<and> profile_validate p = Inr () | Malformed _ \<Rightarrow> False)"

definition wf_destinations :: "profile_row list \<Rightarrow> destination_row list \<Rightarrow> bool" where
  "wf_destinations ps rows \<longleftrightarrow> distinct (map dr_id rows) \<and>
     (\<forall>r \<in> set rows. dr_profile r \<in> pr_id ` set ps \<and>
        (case dr_data r of
           Json d \<Rightarrow> dest_id d = dr_id r \<and> dest_profile d = dr_profile r \<and>
                      validate_destination (dest_address d) = Inr ()
         | Malformed _ \<Rightarrow> False))"

definition job_row_ok :: "job_row \<Rightarrow> bool" where
  "job_row_ok r \<longleftrightarrow>
     (case jr_data r of
        Json j \<Rightarrow> job_id j = jr_id r \<and> jr_status r = status_of (job_state j)
      | Malformed _ \<Rightarrow> False)"

definition wf_jobs :: "job_row list \<Rightarrow> bool" where
  "wf_jobs rows \<longleftrightarrow> distinct (map jr_id rows) \<and> (\<forall>r \<in> set rows. job_row_ok r)"

definition received_row_ok :: "received_row \<Rightarrow> bool" where
  "received_row_ok r \<longleftrightarrow>
     (case fr_data r of Json f \<Rightarrow> rf_id f = fr_id r | Malformed _ \<Rightarrow> False)"

definition wf_received :: "received_row list \<Rightarrow> bool" where
  "wf_received rows \<longleftrightarrow> distinct (map fr_id rows) \<and> (\<forall>r \<in> set rows. received_row_ok r)"

text \<open>What a stored preference promises: its own shape, and its profile exists and registers.\<close>

definition settings_shape :: "receive_settings \<Rightarrow> bool" where
  "settings_shape x \<longleftrightarrow> settings_listener_check x = Inr () \<and>
     \<not> ((rs_profile x \<noteq> None \<or> rs_listener x \<noteq> None) \<and>
        (case rs_folder x of None \<Rightarrow> True | Some p \<Rightarrow> \<not> is_absolute p))"

definition receiving_profile_ok :: "profile_row list \<Rightarrow> receive_settings \<Rightarrow> bool" where
  "receiving_profile_ok rows x \<longleftrightarrow>
     (case rs_profile x of None \<Rightarrow> True | Some i \<Rightarrow>
        (\<exists>r \<in> set rows. pr_id r = i \<and>
           (case pr_data r of Json p \<Rightarrow> prof_register p | Malformed _ \<Rightarrow> False)))"

definition preference_ok :: "profile_row list \<Rightarrow> receive_settings json option \<Rightarrow> bool" where
  "preference_ok rows pref \<longleftrightarrow>
     (case pref of None \<Rightarrow> True
      | Some (Malformed _) \<Rightarrow> False
      | Some (Json x) \<Rightarrow> settings_shape x \<and> receiving_profile_ok rows x)"

definition wf_store :: "store \<Rightarrow> bool" where
  "wf_store st \<longleftrightarrow>
     wf_profiles (st_profiles st) \<and>
     wf_destinations (st_profiles st) (st_destinations st) \<and>
     wf_jobs (st_jobs st) \<and> wf_received (st_received st) \<and>
     preference_ok (st_profiles st) (st_preference st)"

section \<open>Statements\<close>

lemma tick_fields [simp]:
  "st_version (tick st) = st_version st" "st_profiles (tick st) = st_profiles st"
  "st_destinations (tick st) = st_destinations st" "st_jobs (tick st) = st_jobs st"
  "st_received (tick st) = st_received st" "st_preference (tick st) = st_preference st"
  "st_env (tick st) = st_env st" "st_ticks (tick st) = Suc (st_ticks st)"
  by (simp_all add: tick_def)

lemma wf_store_tick [simp]: "wf_store (tick st) = wf_store st"
  by (simp add: wf_store_def)

lemma statement_okD:
  "statement f st = (Inr x, s) \<Longrightarrow> f (tick st) = (Inr x, s)"
  by (simp add: statement_def split: option.splits)

lemma statement_reliable:
  "env_fault (st_env st) (st_ticks st) = None \<Longrightarrow> statement f st = f (tick st)"
  by (simp add: statement_def)

lemma statement_keeps:
  "P (tick st) \<Longrightarrow> P (snd (f (tick st))) \<Longrightarrow> P (snd (statement f st))"
  by (simp add: statement_def split: option.splits)

lemmas wf_statement [keeps_intros] = statement_keeps [where P = wf_store, simplified wf_store_tick]
lemmas wf_and_then [keeps_intros] = and_then_keeps [where P = wf_store]

lemma lift_result_simps [simp]: "lift_result r s = (r, s)" "fail_store e s = (Inl e, s)"
  by (simp_all add: lift_result_def fail_store_def)

lemma snd_statement_pure [simp]: "snd (statement (\<lambda>s. (f s, s)) st) = tick st"
  by (simp add: statement_def split: option.splits)

lemma read_ops_state [frame_simps]:
  "snd (read_list query st) = tick st" "snd (read_one query' i st) = tick st"
  "snd (receive_settings_of st) = tick st" "snd (profiles st) = tick st"
  "snd (profile i st) = tick st" "snd (jobs st) = tick st" "snd (received_faxes st) = tick st"
  "snd (destinations st) = tick st" "snd (stored_job i st) = tick st"
  by (simp_all add: read_list_def read_one_def receive_settings_of_def profiles_def profile_def
      jobs_def received_faxes_def destinations_def stored_job_def)

lemma decode_all_ok: "decode_all ds = Inr xs \<longleftrightarrow> ds = map Json xs"
proof (induction ds arbitrary: xs)
  case (Cons d ds)
  then show ?case
    by (cases d; cases xs) (auto simp: decode_def res_bind_Inr_iff)
qed auto

lemma jobs_okD:
  "jobs st = (Inr js, s) \<Longrightarrow> s = tick st \<and> map jr_data (newest_jobs (st_jobs st)) = map Json js"
  by (auto simp: jobs_def read_list_def decode_all_ok dest!: statement_okD)

lemma received_faxes_okD:
  "received_faxes st = (Inr fs, s) \<Longrightarrow>
     s = tick st \<and> map fr_data (newest_received (st_received st)) = map Json fs"
  by (auto simp: received_faxes_def read_list_def decode_all_ok dest!: statement_okD)

lemma profiles_okD:
  "profiles st = (Inr ps, s) \<Longrightarrow>
     s = tick st \<and> map pr_data (sort_key profile_sort_key (st_profiles st)) = map Json ps"
  by (auto simp: profiles_def read_list_def decode_all_ok dest!: statement_okD)

lemma receive_settings_okD:
  "receive_settings_of st = (Inr x, s) \<Longrightarrow>
     s = tick st \<and> (case st_preference st of None \<Rightarrow> x = default_receive_settings
                    | Some d \<Rightarrow> d = Json x)"
  by (auto simp: receive_settings_of_def decode_def dest!: statement_okD
      split: option.splits json.splits)

lemma set_newest_jobs [simp]: "set (newest_jobs rows) = set rows"
  by (simp add: newest_jobs_def)

lemma set_newest_received [simp]: "set (newest_received rows) = set rows"
  by (simp add: newest_received_def)

lemma case_json_iff:
  "(case d of Json x \<Rightarrow> P x | Malformed _ \<Rightarrow> False) \<longleftrightarrow> (\<exists>x. d = Json x \<and> P x)"
  by (cases d) auto

section \<open>Rows\<close>

lemma keys_update_rows:
  "(\<And>r. key (f r) = key r) \<Longrightarrow> map key (update_rows key k f rows) = map key rows"
  by (simp add: update_rows_def)

lemma set_update_rows:
  "r \<in> set (update_rows key k f rows) \<longleftrightarrow>
     (r \<in> set rows \<and> key r \<noteq> k) \<or> (\<exists>q \<in> set rows. key q = k \<and> r = f q)"
  by (auto simp: update_rows_def)

lemma find_by_update_rows:
  "(\<And>r. key (f r) = key r) \<Longrightarrow>
   find_by key i (update_rows key k f rows) =
     (if i = k then map_option f (find_by key i rows) else find_by key i rows)"
  by (induction rows) (auto simp: update_rows_def)

lemma keys_insert_or_update:
  "(\<And>r. key (f r) = key r) \<Longrightarrow>
   key ` set (insert_or_update key new f rows) = insert (key new) (key ` set rows)"
  by (auto simp: insert_or_update_def keys_update_rows simp flip: set_map)

lemma distinct_insert_or_update:
  "(\<And>r. key (f r) = key r) \<Longrightarrow> distinct (map key rows) \<Longrightarrow>
   distinct (map key (insert_or_update key new f rows))"
  by (auto simp: insert_or_update_def keys_update_rows)

lemma set_insert_or_update:
  assumes "r \<in> set (insert_or_update key new f rows)"
  obtains "r \<in> set rows" "key r \<noteq> key new"
    | "r = new" | q where "q \<in> set rows" "key q = key new" "r = f q"
  using assms by (auto simp: insert_or_update_def set_update_rows image_iff split: if_splits)

lemma in_insert_or_update:
  "q \<in> set rows \<Longrightarrow> key q \<noteq> key new \<Longrightarrow> q \<in> set (insert_or_update key new f rows)"
  by (auto simp: insert_or_update_def set_update_rows)

lemma insert_or_update_has:
  "(\<exists>q \<in> set rows. key q = key new \<and> f q \<in> set (insert_or_update key new f rows)) \<or>
   new \<in> set (insert_or_update key new f rows)"
proof (cases "key new \<in> key ` set rows")
  case True
  then obtain q where "q \<in> set rows" "key q = key new" by force
  then have "f q \<in> set (update_rows key (key new) f rows)" by (auto simp: set_update_rows)
  with True \<open>q \<in> set rows\<close> \<open>key q = key new\<close> show ?thesis
    by (auto simp: insert_or_update_def)
qed (simp add: insert_or_update_def)

section \<open>The stored values\<close>

fun json_value :: "'a json \<Rightarrow> 'a option" where
  "json_value (Json x) = Some x"
| "json_value (Malformed _) = None"

text \<open>The job and the received fax stored under an id.\<close>

definition job_at :: "store \<Rightarrow> uuid \<Rightarrow> job option" where
  "job_at st i = Option.bind (find_by jr_id i (st_jobs st)) (\<lambda>r. json_value (jr_data r))"

definition received_at :: "store \<Rightarrow> uuid \<Rightarrow> received_fax option" where
  "received_at st i = Option.bind (find_by fr_id i (st_received st)) (\<lambda>r. json_value (fr_data r))"

lemma job_at_tick [simp]: "job_at (tick st) i = job_at st i"
  by (simp add: job_at_def)

lemma received_at_tick [simp]: "received_at (tick st) i = received_at st i"
  by (simp add: received_at_def)

lemma wf_jobs_row:
  "wf_jobs rows \<Longrightarrow> r \<in> set rows \<Longrightarrow>
     \<exists>j. jr_data r = Json j \<and> job_id j = jr_id r \<and> jr_status r = status_of (job_state j)"
  by (cases "jr_data r") (auto simp: wf_jobs_def job_row_ok_def)

lemma wf_received_row:
  "wf_received rows \<Longrightarrow> r \<in> set rows \<Longrightarrow> \<exists>f. fr_data r = Json f \<and> rf_id f = fr_id r"
  by (cases "fr_data r") (auto simp: wf_received_def received_row_ok_def)

lemma job_at_SomeD:
  assumes "wf_jobs (st_jobs st)" "job_at st i = Some j"
  shows "job_id j = i" "i \<in> jr_id ` set (st_jobs st)"
proof -
  obtain r where r: "find_by jr_id i (st_jobs st) = Some r" "json_value (jr_data r) = Some j"
    using assms(2) by (auto simp: job_at_def bind_eq_Some_conv)
  then have "r \<in> set (st_jobs st)" "jr_id r = i" by (auto dest: find_by_SomeD)
  with wf_jobs_row [OF assms(1), of r] r show "job_id j = i" "i \<in> jr_id ` set (st_jobs st)"
    by auto
qed

lemma job_at_row:
  assumes "wf_jobs (st_jobs st)" "r \<in> set (st_jobs st)" "jr_data r = Json j"
  shows "job_at st (jr_id r) = Some j"
  using assms find_by_distinct [of jr_id "st_jobs st" r]
  by (simp add: job_at_def wf_jobs_def)

lemma job_at_None_iff:
  assumes "wf_jobs (st_jobs st)"
  shows "job_at st i = None \<longleftrightarrow> i \<notin> jr_id ` set (st_jobs st)"
proof
  show "job_at st i = None" if "i \<notin> jr_id ` set (st_jobs st)"
    using that find_by_None_iff [of jr_id i "st_jobs st"] by (simp add: job_at_def)
  show "i \<notin> jr_id ` set (st_jobs st)" if "job_at st i = None"
    using that job_at_row [OF assms] wf_jobs_row [OF assms] by fastforce
qed

section \<open>Every operation keeps the invariant\<close>

lemma wf_profiles_put:
  assumes "wf_profiles rows" "profile_validate p = Inr ()"
  shows "wf_profiles (put_profile p rows)"
  unfolding wf_profiles_def put_profile_def
proof (intro conjI ballI)
  show "distinct (map pr_id (insert_or_update pr_id \<lparr>pr_id = prof_id p, pr_data = Json p\<rparr>
          (\<lambda>r. r\<lparr>pr_data := Json p\<rparr>) rows))"
    using assms(1) by (intro distinct_insert_or_update) (auto simp: wf_profiles_def)
  fix r assume "r \<in> set (insert_or_update pr_id \<lparr>pr_id = prof_id p, pr_data = Json p\<rparr>
          (\<lambda>r. r\<lparr>pr_data := Json p\<rparr>) rows)"
  then show "case pr_data r of Json q \<Rightarrow> prof_id q = pr_id r \<and> profile_validate q = Inr ()
             | Malformed _ \<Rightarrow> False"
    using assms by (cases rule: set_insert_or_update) (auto simp: wf_profiles_def)
qed

lemma profile_ids_put:
  "pr_id ` set (put_profile p rows) = insert (prof_id p) (pr_id ` set rows)"
  unfolding put_profile_def by (subst keys_insert_or_update) auto

lemma wf_destinations_mono:
  "wf_destinations ps rows \<Longrightarrow> pr_id ` set ps \<subseteq> pr_id ` set qs \<Longrightarrow> wf_destinations qs rows"
  by (auto simp: wf_destinations_def)

lemma wf_destinations_filter: "wf_destinations ps rows \<Longrightarrow> wf_destinations ps (filter P rows)"
  by (auto simp: wf_destinations_def distinct_map_filter)

lemma wf_destinations_put:
  assumes "wf_destinations ps rows" "dest_profile d \<in> pr_id ` set ps"
    "validate_destination (dest_address d) = Inr ()"
  shows "wf_destinations ps (put_destination d rows)" (is "wf_destinations ps ?rows")
  unfolding wf_destinations_def
proof (intro conjI ballI)
  show "distinct (map dr_id ?rows)"
    using assms(1) unfolding put_destination_def by (intro distinct_insert_or_update) (auto simp: wf_destinations_def)
  fix r assume r: "r \<in> set ?rows"
  then show "dr_profile r \<in> pr_id ` set ps"
    using assms unfolding put_destination_def
    by (cases rule: set_insert_or_update) (auto simp: wf_destinations_def)
  from r show "case dr_data r of
      Json d \<Rightarrow> dest_id d = dr_id r \<and> dest_profile d = dr_profile r \<and>
        validate_destination (dest_address d) = Inr ()
    | Malformed _ \<Rightarrow> False"
    using assms unfolding put_destination_def
    by (cases rule: set_insert_or_update) (auto simp: wf_destinations_def)
qed

lemma wf_received_put:
  assumes "wf_received rows"
  shows "wf_received (put_received f rows)" (is "wf_received ?rows")
  unfolding wf_received_def
proof (intro conjI ballI)
  show "distinct (map fr_id ?rows)"
    using assms(1) unfolding put_received_def by (intro distinct_insert_or_update) (auto simp: wf_received_def)
  fix r assume "r \<in> set ?rows"
  then show "received_row_ok r"
    using assms unfolding put_received_def
    by (cases rule: set_insert_or_update) (auto simp: wf_received_def received_row_ok_def)
qed

lemma wf_jobs_update:
  assumes "wf_jobs rows"
  shows "wf_jobs (put_job (status_of (job_state j)) j rows)" (is "wf_jobs ?rows")
  unfolding wf_jobs_def
proof (intro conjI ballI)
  show "distinct (map jr_id ?rows)"
    using assms unfolding put_job_def by (subst keys_update_rows) (auto simp: wf_jobs_def)
  fix r assume "r \<in> set ?rows"
  then show "job_row_ok r"
    using assms by (auto simp: put_job_def set_update_rows wf_jobs_def job_row_ok_def)
qed

lemma wf_jobs_filter: "wf_jobs rows \<Longrightarrow> wf_jobs (filter P rows)"
  by (auto simp: wf_jobs_def distinct_map_filter)

lemma wf_jobs_snoc:
  "wf_jobs rows \<Longrightarrow> jr_id r \<notin> jr_id ` set rows \<Longrightarrow> job_row_ok r \<Longrightarrow> wf_jobs (rows @ [r])"
  by (auto simp: wf_jobs_def)

lemma receiving_profile_put:
  assumes ok: "receiving_profile_ok rows x"
    and "prof_register p \<or> rs_profile x \<noteq> Some (prof_id p)"
  shows "receiving_profile_ok (put_profile p rows) x" (is "receiving_profile_ok ?rows x")
proof (cases "rs_profile x")
  case (Some i)
  with ok obtain r where r: "r \<in> set rows" "pr_id r = i"
      "case pr_data r of Json p \<Rightarrow> prof_register p | Malformed _ \<Rightarrow> False"
    by (auto simp: receiving_profile_ok_def)
  show ?thesis
  proof (cases "i = prof_id p")
    case False
    with r have "r \<in> set ?rows" unfolding put_profile_def by (intro in_insert_or_update) auto
    with r Some show ?thesis by (auto simp: receiving_profile_ok_def)
  next
    case True
    with assms(2) Some have reg: "prof_register p" by simp
    have "\<exists>q \<in> set ?rows. pr_id q = prof_id p \<and> pr_data q = Json p"
      using insert_or_update_has [of rows pr_id "\<lparr>pr_id = prof_id p, pr_data = Json p\<rparr>"
          "\<lambda>r. r\<lparr>pr_data := Json p\<rparr>"] unfolding put_profile_def
      by (elim disjE bexE conjE) (rule bexI [rotated], assumption, simp)+
    with reg True Some show ?thesis by (force simp: receiving_profile_ok_def)
  qed
qed (simp add: receiving_profile_ok_def)

text \<open>The profile list the validation reads is the table, up to order.\<close>

lemma find_profile_in_list:
  assumes wf: "wf_profiles rows" and ps: "map pr_data (sort_key profile_sort_key rows) = map Json ps"
    and p: "find_by prof_id i ps = Some p"
  shows "\<exists>r \<in> set rows. pr_id r = i \<and> pr_data r = Json p"
proof -
  have "p \<in> set ps" "prof_id p = i" using p by (auto dest: find_by_SomeD)
  then have "Json p \<in> set (map pr_data (sort_key profile_sort_key rows))" by (simp add: ps)
  then obtain r where "r \<in> set rows" "pr_data r = Json p" by (auto simp: image_iff)
  with wf \<open>prof_id p = i\<close> show ?thesis by (force simp: wf_profiles_def)
qed

lemma receive_settings_validate_shape:
  "receive_settings_validate x ps = Inr () \<longleftrightarrow>
     settings_shape x \<and> settings_profile_check x ps = Inr ()"
  by (auto simp: receive_settings_validate_def settings_shape_def res_bind_unit_iff)

lemma validated_preference_ok:
  assumes "wf_profiles rows" "map pr_data (sort_key profile_sort_key rows) = map Json ps"
    and "receive_settings_validate x ps = Inr ()"
  shows "preference_ok rows (Some (Json x))"
proof -
  have s: "settings_shape x" and p: "settings_profile_check x ps = Inr ()"
    using assms(3) by (auto simp: receive_settings_validate_shape)
  have "receiving_profile_ok rows x"
  proof (cases "rs_profile x")
    case (Some i)
    with p obtain q where "find_by prof_id i ps = Some q" "prof_register q"
      by (auto simp: settings_profile_check_ok)
    with find_profile_in_list [OF assms(1,2)] Some show ?thesis
      by (fastforce simp: receiving_profile_ok_def)
  qed (simp add: receiving_profile_ok_def)
  with s show ?thesis by (simp add: preference_ok_def)
qed

text \<open>Conversely a stored preference validates against any reading of the profile table.\<close>

lemma preference_validates:
  assumes "wf_profiles rows" "map pr_data (sort_key profile_sort_key rows) = map Json ps"
    and "preference_ok rows (Some (Json x))"
  shows "receive_settings_validate x ps = Inr ()"
proof -
  have "settings_profile_check x ps = Inr ()"
    unfolding settings_profile_check_ok
  proof (intro allI impI)
    fix i assume i: "rs_profile x = Some i"
    then obtain r p where r: "r \<in> set rows" "pr_id r = i" "pr_data r = Json p" "prof_register p"
      using assms(3) by (auto simp: preference_ok_def receiving_profile_ok_def case_json_iff)
    then have p: "prof_id p = i" "profile_validate p = Inr ()"
      using assms(1) by (auto simp: wf_profiles_def)
    have "Json p \<in> set (map pr_data (sort_key profile_sort_key rows))"
      using r by (force simp: image_iff)
    then have "p \<in> set ps" by (auto simp: assms(2))
    then obtain q where q: "find_by prof_id i ps = Some q"
      using p(1) by (metis find_by_None_iff imageI option.exhaust)
    obtain r' where "r' \<in> set rows" "pr_id r' = i" "pr_data r' = Json q"
      using find_profile_in_list [OF assms(1,2) q] by auto
    with r assms(1) have "r' = r"
      by (auto simp: wf_profiles_def dest: inj_onD [OF distinct_map [THEN iffD1, THEN conjunct2]])
    with r q p \<open>pr_data r' = Json q\<close>
    show "\<exists>p. find_by prof_id i ps = Some p \<and> profile_validate p = Inr () \<and> prof_register p" by auto
  qed
  with assms(3) show ?thesis by (simp add: receive_settings_validate_shape preference_ok_def)
qed

text \<open>One rule per table: replacing it keeps the invariant.\<close>

lemma wf_store_set_jobs [keeps_intros]:
  "wf_store st \<Longrightarrow> wf_jobs rows \<Longrightarrow> wf_store (st\<lparr>st_jobs := rows\<rparr>)"
  by (simp add: wf_store_def)

lemma wf_store_set_received [keeps_intros]:
  "wf_store st \<Longrightarrow> wf_received rows \<Longrightarrow> wf_store (st\<lparr>st_received := rows\<rparr>)"
  by (simp add: wf_store_def)

lemma wf_store_set_destinations [keeps_intros]:
  "wf_store st \<Longrightarrow> wf_destinations (st_profiles st) rows \<Longrightarrow> wf_store (st\<lparr>st_destinations := rows\<rparr>)"
  by (simp add: wf_store_def)

lemma wf_store_set_preference [keeps_intros]:
  "wf_store st \<Longrightarrow> preference_ok (st_profiles st) x \<Longrightarrow> wf_store (st\<lparr>st_preference := x\<rparr>)"
  by (simp add: wf_store_def)

lemma wf_store_parts:
  assumes "wf_store st"
  shows "wf_profiles (st_profiles st)" "wf_destinations (st_profiles st) (st_destinations st)"
    "wf_jobs (st_jobs st)" "wf_received (st_received st)"
    "preference_ok (st_profiles st) (st_preference st)"
  using assms by (simp_all add: wf_store_def)

lemma save_receive_settings_keeps_wf:
  assumes "wf_store st" shows "wf_store (snd (save_receive_settings x st))"
  unfolding save_receive_settings_def
proof (rule wf_and_then)
  show "wf_store (snd (profiles st))" using assms by (simp add: frame_simps)
  fix ps s assume ps: "profiles st = (Inr ps, s)" and s: "wf_store s"
  note st = profiles_okD [OF ps]
  show "wf_store (snd (and_then (lift_result (receive_settings_validate x ps) s)
          (\<lambda>_. statement (\<lambda>s. (Inr (), s\<lparr>st_preference := Some (Json x)\<rparr>)))))"
  proof (rule wf_and_then)
    fix u t assume "lift_result (receive_settings_validate x ps) s = (Inr u, t)" "wf_store t"
    then have t: "t = s" and v: "receive_settings_validate x ps = Inr ()" by simp_all
    have "preference_ok (st_profiles st) (Some (Json x))"
      using validated_preference_ok [OF wf_store_parts(1) [OF assms] _ v] st by simp
    then show "wf_store (snd (statement (\<lambda>s. (Inr (), s\<lparr>st_preference := Some (Json x)\<rparr>)) t))"
      unfolding t by (intro wf_statement) (use s st in \<open>auto intro!: wf_store_set_preference\<close>)
  qed (use s in simp)
qed

lemma save_received_keeps_wf: "wf_store st \<Longrightarrow> wf_store (snd (save_received f st))"
  unfolding save_received_def
  by (rule wf_statement) (auto intro!: wf_store_set_received wf_received_put dest: wf_store_parts)

lemma put_profile_keeps_wf:
  assumes "wf_store st" "profile_validate p = Inr ()"
    and reg: "\<And>x. st_preference st = Some (Json x) \<Longrightarrow> prof_register p \<or> rs_profile x \<noteq> Some (prof_id p)"
  shows "wf_store (snd (statement (\<lambda>s. (Inr (), s\<lparr>st_profiles := put_profile p (st_profiles s)\<rparr>)) st))"
proof (rule wf_statement)
  let ?rows = "put_profile p (st_profiles st)"
  have "wf_destinations ?rows (st_destinations st)"
    by (rule wf_destinations_mono [OF wf_store_parts(2) [OF assms(1)]]) (auto simp: profile_ids_put)
  moreover have "preference_ok ?rows (st_preference st)"
  proof -
    consider "st_preference st = None" | x where "st_preference st = Some (Json x)"
      using assms(1) by (auto simp: wf_store_def preference_ok_def split: option.splits json.splits)
    then show ?thesis
    proof cases
      case 2
      with assms(1) have "settings_shape x" "receiving_profile_ok (st_profiles st) x"
        by (simp_all add: wf_store_def preference_ok_def)
      with 2 receiving_profile_put [OF _ reg [OF 2]] show ?thesis by (simp add: preference_ok_def)
    qed (simp add: preference_ok_def)
  qed
  ultimately show "wf_store (snd (Inr (), (tick st)\<lparr>st_profiles := put_profile p (st_profiles (tick st))\<rparr>))"
    using assms(1,2) by (simp add: wf_store_def wf_profiles_put)
qed (use assms(1) in simp)

lemma save_profile_keeps_wf:
  assumes wf: "wf_store st" shows "wf_store (snd (save_profile p st))"
proof (cases "profile_validate p")
  case (Inr u)
  show ?thesis
  proof (cases "prof_register p")
    case True
    with wf Inr show ?thesis
      unfolding save_profile_def by (simp add: put_profile_keeps_wf)
  next
    case False
    show ?thesis
    proof (cases "receive_settings_of st")
      case (Pair r s)
      have s: "s = tick st" using Pair read_ops_state(3) [of st] by simp
      show ?thesis
      proof (cases r)
        case (Inl e)
        with wf Inr False Pair s show ?thesis by (simp add: save_profile_def)
      next
        case (Inr x)
        from Pair this have x: "case st_preference st of None \<Rightarrow> x = default_receive_settings
            | Some d \<Rightarrow> d = Json x"
          using receive_settings_okD by blast
        show ?thesis
        proof (cases "rs_profile x = Some (prof_id p)")
          case True
          with wf \<open>profile_validate p = Inr u\<close> False Pair Inr s show ?thesis
            by (simp add: save_profile_def)
        next
          case other: False
          with x have "rs_profile y \<noteq> Some (prof_id p)" if "st_preference st = Some (Json y)" for y
            using that by simp
          with wf \<open>profile_validate p = Inr u\<close> False Pair Inr s other show ?thesis
            by (simp add: save_profile_def) (rule put_profile_keeps_wf, simp_all)
        qed
      qed
    qed
  qed
qed (use wf in \<open>simp add: save_profile_def\<close>)

lemma save_destination_keeps_wf:
  assumes "wf_store st" shows "wf_store (snd (save_destination d st))"
proof (cases "nonempty (lit ''Destination name'') (dest_name d)")
  case n: (Inr u)
  show ?thesis
  proof (cases "validate_destination (dest_address d)")
    case (Inr u)
    have "wf_store (snd (statement (\<lambda>s.
       if dest_profile d \<notin> pr_id ` set (st_profiles s)
       then fail_store (EDatabase e) s
       else (Inr (), s\<lparr>st_destinations := put_destination d (st_destinations s)\<rparr>)) st))" for e
      using assms Inr
      by (intro wf_statement) (auto intro!: wf_store_set_destinations wf_destinations_put
          dest: wf_store_parts)
    with Inr show ?thesis by (simp only: save_destination_def n and_then_simps lift_result_simps)
  qed (simp only: save_destination_def n and_then_simps lift_result_simps assms snd_conv)
qed (simp only: save_destination_def and_then_simps lift_result_simps assms snd_conv)

lemma remove_destination_keeps_wf: "wf_store st \<Longrightarrow> wf_store (snd (remove_destination i st))"
  unfolding remove_destination_def
  by (rule wf_statement)
     (auto intro!: wf_store_set_destinations wf_destinations_filter dest: wf_store_parts)

lemma clear_queue_keeps_wf: "wf_store st \<Longrightarrow> wf_store (snd (clear_queue st))"
  unfolding clear_queue_def
  by (rule wf_statement) (auto intro!: wf_store_set_jobs wf_jobs_filter dest: wf_store_parts)

lemma remove_job_keeps_wf: "wf_store st \<Longrightarrow> wf_store (snd (remove_job i st))"
  unfolding remove_job_def
  by (rule wf_statement) (auto intro!: wf_store_set_jobs wf_jobs_filter dest: wf_store_parts)

lemma update_job_keeps_wf: "wf_store st \<Longrightarrow> wf_store (snd (update_job j st))"
  unfolding update_job_def Let_def
  by (rule wf_statement) (auto intro!: wf_store_set_jobs wf_jobs_update dest: wf_store_parts)

section \<open>Enqueueing and claiming\<close>

lemma statement_errD:
  "statement f st = (Inl e, s) \<Longrightarrow>
     (\<exists>d. e = EDatabase d \<and> s = tick st) \<or> f (tick st) = (Inl e, s)"
  by (auto simp: statement_def split: option.splits)

lemma profile_okD:
  "profile i st = (Inr p, s) \<Longrightarrow>
     s = tick st \<and> (\<exists>r. find_by pr_id i (st_profiles st) = Some r \<and> pr_data r = Json p)"
  by (auto simp: profile_def read_one_def decode_def dest!: statement_okD
      split: option.splits json.splits)

lemma enqueue_okD:
  assumes "enqueue rq retry_of st = (Inr j, s)"
  obtains p where "validate_destination (rq_destination rq) = Inr ()" "profile_validate p = Inr ()"
    "\<exists>r. find_by pr_id (rq_profile rq) (st_profiles st) = Some r \<and> pr_data r = Json p"
    "j = new_job (job_id j) (job_created j) rq p retry_of"
    "job_id j \<notin> jr_id ` set (st_jobs st)"
    "s = st\<lparr>st_jobs := st_jobs st @ [\<lparr>jr_id = job_id j, jr_created = job_created j,
           jr_status = StQueued, jr_data = Json j\<rparr>], st_ticks := st_ticks s\<rparr>"
  using assms unfolding enqueue_def Let_def
  apply (elim and_then_okE)
  apply (drule statement_okD)
  apply (drule profile_okD)
  apply (clarsimp split: if_splits)
  apply (rule that)
       apply (auto simp: new_job_def tick_def)
  done

lemma enqueue_errD:
  assumes "enqueue rq retry_of st = (Inl e, s)"
  shows "st_jobs s = st_jobs st"
proof -
  have "snd (profile i t) = tick t" for i t by (simp add: frame_simps)
  with assms show ?thesis
    unfolding enqueue_def Let_def
    by (auto elim!: and_then_errE dest!: statement_errD profile_okD split: if_splits)
      (metis snd_conv tick_fields(4))
qed

lemma enqueue_keeps_wf:
  assumes wf: "wf_store st" shows "wf_store (snd (enqueue rq retry_of st))"
proof (cases "enqueue rq retry_of st")
  case (Pair r s)
  show ?thesis
    unfolding enqueue_def Let_def
  proof (intro wf_and_then wf_statement)
    fix u t p t' v t''
    assume t'': "wf_store t''"
    show "wf_store (snd (if fresh_uuid (tick t'') \<in> jr_id ` set (st_jobs (tick (tick (tick t''))))
          then fail_store (EDatabase (lit ''UNIQUE constraint failed: jobs.id'')) (tick (tick (tick t'')))
          else (Inr (new_job (fresh_uuid (tick t'')) (clock t'') rq p retry_of),
            (tick (tick (tick t'')))\<lparr>st_jobs := st_jobs (tick (tick (tick t''))) @
              [\<lparr>jr_id = fresh_uuid (tick t''), jr_created = clock t'', jr_status = StQueued,
                jr_data = Json (new_job (fresh_uuid (tick t'')) (clock t'') rq p retry_of)\<rparr>]\<rparr>)))"
      using t'' by (auto intro!: wf_store_set_jobs wf_jobs_snoc dest: wf_store_parts
          simp: job_row_ok_def new_job_def status_of_def)
  qed (use wf in \<open>auto simp: frame_simps\<close>)
qed

lemma oldest_queuedD:
  assumes "oldest_queued rows = Some r"
  shows "r \<in> set rows" "jr_status r = StQueued"
    "\<And>q. q \<in> set rows \<Longrightarrow> jr_status q = StQueued \<Longrightarrow> jr_created r \<le> jr_created q"
proof -
  let ?qs = "sort_key jr_created (filter (\<lambda>r. jr_status r = StQueued) rows)"
  obtain rest where qs: "?qs = r # rest"
    using assms by (auto simp: oldest_queued_def split: list.splits)
  have set: "set ?qs = {r \<in> set rows. jr_status r = StQueued}" by simp
  then show "r \<in> set rows" "jr_status r = StQueued" unfolding qs by auto
  have "sorted (map jr_created ?qs)" by simp
  then have le: "\<forall>q \<in> set ?qs. jr_created r \<le> jr_created q" unfolding qs by simp
  show "jr_created r \<le> jr_created q" if "q \<in> set rows" "jr_status q = StQueued" for q
    using le that unfolding set by simp
qed

lemma oldest_queued_None_iff:
  "oldest_queued rows = None \<longleftrightarrow> (\<forall>r \<in> set rows. jr_status r \<noteq> StQueued)"
proof -
  have "oldest_queued rows = None \<longleftrightarrow> filter (\<lambda>r. jr_status r = StQueued) rows = []"
    by (auto simp: oldest_queued_def split: list.splits dest: arg_cong [where f = length])
  then show ?thesis by (simp add: filter_empty_conv)
qed

lemma claim_okD:
  assumes "claim_next st = (Inr (Some j), s)"
  obtains r k where "oldest_queued (st_jobs st) = Some r" "jr_data r = Json k"
    "j = k\<lparr>job_state := JConnecting, job_updated := job_updated j\<rparr>"
    "s = st\<lparr>st_jobs := put_job StActive j (st_jobs st), st_ticks := st_ticks s\<rparr>"
proof -
  obtain s1 s2 row where 1: "statement (\<lambda>s. (Inr (), s)) st = (Inr (), s1)"
    and 2: "statement (\<lambda>s. (Inr (oldest_queued (st_jobs s)), s)) s1 = (Inr row, s2)"
    and 3: "(case row of None \<Rightarrow> (Inr None, s2)
       | Some r \<Rightarrow> and_then (lift_result (decode (jr_data r)) s2) (\<lambda>j s.
           let j = j\<lparr>job_state := JConnecting, job_updated := clock s\<rparr>; s = tick s;
               rows = put_job StActive j (st_jobs s)
           in and_then (statement (\<lambda>s. (Inr (), s)) s) (\<lambda>_.
              statement (\<lambda>s. (Inr (Some j), s\<lparr>st_jobs := rows\<rparr>))))) = (Inr (Some j), s)"
    using assms unfolding claim_next_def by (elim and_then_okE) auto
  have s1: "s1 = tick st" using statement_okD [OF 1] by simp
  have s2: "s2 = tick s1" "row = oldest_queued (st_jobs st)" using statement_okD [OF 2] s1 by auto
  obtain r where r: "row = Some r" using 3 by (cases row) auto
  obtain k where k: "jr_data r = Json k"
    using 3 r by (cases "jr_data r") (auto simp: decode_def)
  show thesis
  proof (rule that)
    show "oldest_queued (st_jobs st) = Some r" using s2 r by simp
    show "jr_data r = Json k" by (rule k)
    show "j = k\<lparr>job_state := JConnecting, job_updated := job_updated j\<rparr>"
      "s = st\<lparr>st_jobs := put_job StActive j (st_jobs st), st_ticks := st_ticks s\<rparr>"
      using 3 r k s1 s2
      by (auto simp: decode_def Let_def tick_def elim!: and_then_okE dest!: statement_okD)
  qed
qed

lemma claim_NoneD:
  assumes "claim_next st = (Inr None, s)"
  shows "oldest_queued (st_jobs st) = None \<and> s = st\<lparr>st_ticks := st_ticks s\<rparr>"
  using assms unfolding claim_next_def
  by (auto simp: Let_def tick_def elim!: and_then_okE dest!: statement_okD split: option.splits)

lemma claim_errD:
  assumes "claim_next st = (Inl e, s)"
  shows "s = st\<lparr>st_ticks := st_ticks s\<rparr>"
  using assms unfolding claim_next_def
  by (auto simp: Let_def tick_def elim!: and_then_errE dest!: statement_okD statement_errD
      split: option.splits)

lemma wf_store_ticks [simp]: "wf_store (st\<lparr>st_ticks := n\<rparr>) = wf_store st"
  by (simp add: wf_store_def)

lemma status_of_simps [simp]:
  "status_of JQueued = StQueued" "status_of JConnecting = StActive"
  "status_of st = StQueued \<longleftrightarrow> st = JQueued"
  "status_of st = StActive \<longleftrightarrow> job_is_active st"
  "status_of st = StFinished \<longleftrightarrow> job_is_finished st"
  by (cases st; simp add: status_of_def job_is_active_def job_is_finished_def)+

lemma claim_next_keeps_wf:
  assumes wf: "wf_store st" shows "wf_store (snd (claim_next st))"
proof (cases "claim_next st")
  case (Pair r s)
  show ?thesis
  proof (cases r)
    case (Inl e)
    with claim_errD [of st e s] Pair wf show ?thesis by (metis snd_conv wf_store_ticks)
  next
    case (Inr c)
    show ?thesis
    proof (cases c)
      case None
      with claim_NoneD [of st s] Pair Inr wf show ?thesis by (metis snd_conv wf_store_ticks)
    next
      case (Some j)
      obtain k where j: "j = k\<lparr>job_state := JConnecting, job_updated := job_updated j\<rparr>"
        and s: "s = st\<lparr>st_jobs := put_job StActive j (st_jobs st), st_ticks := st_ticks s\<rparr>"
        using claim_okD [of st j s] Pair Inr Some by metis
      have "job_state j = JConnecting" by (subst j) simp
      then have "wf_jobs (put_job StActive j (st_jobs st))"
        using wf_jobs_update [OF wf_store_parts(3) [OF wf], of j] by simp
      then have "wf_store (st\<lparr>st_jobs := put_job StActive j (st_jobs st), st_ticks := st_ticks s\<rparr>)"
        using wf by (simp add: wf_store_set_jobs)
      with s Pair show ?thesis by simp
    qed
  qed
qed

section \<open>The effect on the stored jobs\<close>

lemma find_by_put_job:
  "find_by jr_id i (put_job c j rows) =
     (if i = job_id j then map_option (\<lambda>r. r\<lparr>jr_status := c, jr_data := Json j\<rparr>) (find_by jr_id i rows)
      else find_by jr_id i rows)"
  unfolding put_job_def by (rule find_by_update_rows) simp

lemma job_at_put_job:
  "job_at (st\<lparr>st_jobs := put_job c j (st_jobs st)\<rparr>) i =
     (if i = job_id j \<and> i \<in> jr_id ` set (st_jobs st) then Some j else job_at st i)"
  using find_by_None_iff [of jr_id i "st_jobs st"]
  by (auto simp: job_at_def find_by_put_job split: option.splits)

lemma job_at_ticks [simp]: "job_at (st\<lparr>st_ticks := n\<rparr>) i = job_at st i"
  by (simp add: job_at_def)

lemma update_job_okD:
  assumes "update_job j st = (Inr u, s)"
  shows "s = st\<lparr>st_jobs := put_job (status_of (job_state j)) (stamp_job j st) (st_jobs st),
              st_ticks := st_ticks s\<rparr>"
    and "job_id j \<in> jr_id ` set (st_jobs st)"
  using assms unfolding update_job_def Let_def
  by (auto simp: stamp_job_def tick_def dest!: statement_okD split: if_splits)

lemma update_job_errD:
  assumes "update_job j st = (Inl e, s)"
  shows "s = st\<lparr>st_ticks := st_ticks s\<rparr>"
  using assms unfolding update_job_def Let_def
  by (auto simp: tick_def dest!: statement_errD split: if_splits)

lemma stamp_job_fields [simp]:
  "job_id (stamp_job j st) = job_id j" "job_state (stamp_job j st) = job_state j"
  "job_request (stamp_job j st) = job_request j" "job_profile (stamp_job j st) = job_profile j"
  "job_created (stamp_job j st) = job_created j" "job_bytes (stamp_job j st) = job_bytes j"
  "job_steps (stamp_job j st) = job_steps j" "job_page_progress (stamp_job j st) = job_page_progress j"
  "job_retry_of (stamp_job j st) = job_retry_of j"
  by (simp_all add: stamp_job_def)

lemma ids_put_job [simp]: "jr_id ` set (put_job c j rows) = jr_id ` set rows"
  by (simp add: put_job_def keys_update_rows flip: set_map)

lemma update_job_ids:
  "jr_id ` set (st_jobs (snd (update_job j st))) = jr_id ` set (st_jobs st)"
proof (cases "update_job j st")
  case (Pair r s)
  show ?thesis
  proof (cases r)
    case (Inl e)
    with Pair update_job_errD [of j st e s] show ?thesis by (metis snd_conv store.ext_inject store.surjective store.update_convs(8))
  next
    case (Inr u)
    with Pair have "s = st\<lparr>st_jobs := put_job (status_of (job_state j)) (stamp_job j st) (st_jobs st),
              st_ticks := st_ticks s\<rparr>"
      by (auto intro: update_job_okD(1))
    then have "st_jobs s = put_job (status_of (job_state j)) (stamp_job j st) (st_jobs st)"
      by (metis store.select_convs(4) store.surjective store.update_convs(4,8))
    with Pair show ?thesis by simp
  qed
qed

lemma job_at_update_job:
  assumes "update_job j st = (Inr u, s)"
  shows "job_at s i = (if i = job_id j then Some (stamp_job j st) else job_at st i)"
proof -
  have "job_at s i = job_at (st\<lparr>st_jobs := put_job (status_of (job_state j)) (stamp_job j st) (st_jobs st)\<rparr>) i"
    by (subst update_job_okD(1) [OF assms]) (simp add: job_at_def)
  with update_job_okD(2) [OF assms] show ?thesis by (simp add: job_at_put_job)
qed

end
