(* ===== verification/StoreOpen.thy ===== *)
theory StoreOpen
  imports StoreInv
begin

text \<open>
  Opening the store: the single-owner lease, the schema migrations, the default receive folder and
  the recovery of calls that were active when the previous process stopped (\<open>Store::open\<close>); the
  operations of the store as one labelled system that keeps the invariant.
\<close>

section \<open>Opening\<close>

text \<open>What the file system answers: the preparation of the directory and the lock file, whether the
  lock is taken, the connection, the user directories (documents, home) and the canonical path.\<close>

record open_world =
  ow_directory :: path
  ow_prepare :: "utext option"
  ow_locked :: bool
  ow_connect :: "utext option"
  ow_user_dirs :: "(path option \<times> path) option"
  ow_canonical :: "utext + path"

definition default_folder :: "open_world \<Rightarrow> engine_error + path" where
  "default_folder w =
     (case ow_user_dirs w of
        Some (documents, home) \<Rightarrow> Inr (case documents of Some d \<Rightarrow> d | None \<Rightarrow> home)
      | None \<Rightarrow> if is_absolute (ow_directory w) then Inr (ow_directory w)
                else map_err EIo (ow_canonical w))"

definition create_schema_1 :: "store \<Rightarrow> unit stored" where
  "create_schema_1 = statement (\<lambda>s. (Inr (),
     s\<lparr>st_profiles := [], st_destinations := [], st_jobs := [], st_version := 1\<rparr>))"

definition create_schema_2 :: "store \<Rightarrow> unit stored" where
  "create_schema_2 = statement (\<lambda>s. (Inr (),
     s\<lparr>st_received := [], st_preference := None, st_version := 2\<rparr>))"

definition migrate :: "store \<Rightarrow> unit stored" where
  "migrate st =
     and_then (statement (\<lambda>s. (Inr (st_version s), s)) st) (\<lambda>version s.
     and_then (if version = 0 then create_schema_1 s
               else if version = 1 \<or> version = 2 then (Inr (), s)
               else fail_store (EInvalid (lit ''Database schema '' @ to_decimal version @
                      lit '' is newer than this application supports'')) s) (\<lambda>_ s.
     if version < 2 then create_schema_2 s else (Inr (), s)))"

definition ensure_folder :: "open_world \<Rightarrow> store \<Rightarrow> unit stored" where
  "ensure_folder w st =
     and_then (receive_settings_of st) (\<lambda>x s.
       if rs_folder x = None
       then and_then (lift_result (default_folder w) s) (\<lambda>folder.
              save_receive_settings (x\<lparr>rs_folder := Some folder\<rparr>))
       else (Inr (), s))"

primrec recover_jobs :: "job list \<Rightarrow> store \<Rightarrow> unit stored" where
  "recover_jobs [] st = (Inr (), st)"
| "recover_jobs (j # js) st =
     (if job_is_active (job_state j)
      then and_then (update_job (j\<lparr>job_state := JInterrupted\<rparr>) st) (\<lambda>_. recover_jobs js)
      else recover_jobs js st)"

primrec recover_received :: "received_fax list \<Rightarrow> store \<Rightarrow> unit stored" where
  "recover_received [] st = (Inr (), st)"
| "recover_received (f # fs) st =
     (if outcome_is_active (rf_outcome f)
      then and_then (save_received (f\<lparr>rf_outcome := OutInterrupted,
                       rf_result := Some ResInterrupted, rf_finished := Some (clock st)\<rparr>) (tick st))
             (\<lambda>_. recover_received fs)
      else recover_received fs st)"

definition open_store :: "open_world \<Rightarrow> store \<Rightarrow> unit stored" where
  "open_store w st =
     (case ow_prepare w of
        Some e \<Rightarrow> (Inl (EIo e), st)
      | None \<Rightarrow>
          if ow_locked w
          then (Inl (EInvalid (lit ''This Faxe data directory is already in use by another engine'')), st)
          else case ow_connect w of
            Some e \<Rightarrow> (Inl (EDatabase e), st)
          | None \<Rightarrow>
              and_then (statement (\<lambda>s. (Inr (), s)) st) (\<lambda>_ s.
              and_then (migrate s) (\<lambda>_ s.
              and_then (ensure_folder w s) (\<lambda>_ s.
              and_then (jobs s) (\<lambda>js s.
              and_then (recover_jobs js s) (\<lambda>_ s.
              and_then (received_faxes s) recover_received))))))"

section \<open>Recovery of jobs and receptions\<close>

definition job_recovered :: "job \<Rightarrow> job \<Rightarrow> bool" where
  "job_recovered j j' \<longleftrightarrow>
     j' = (if job_is_active (job_state j)
           then j\<lparr>job_state := JInterrupted, job_updated := job_updated j'\<rparr> else j)"

definition received_recovered :: "received_fax \<Rightarrow> received_fax \<Rightarrow> bool" where
  "received_recovered f f' \<longleftrightarrow>
     f' = (if rf_outcome f = OutReceiving
           then f\<lparr>rf_outcome := OutInterrupted, rf_result := Some ResInterrupted,
                  rf_finished := rf_finished f'\<rparr> else f)"

lemma job_recovered_state:
  assumes "job_recovered j j'"
  shows "job_state j' = (if job_is_active (job_state j) then JInterrupted else job_state j)"
  using arg_cong [OF assms [unfolded job_recovered_def], of job_state] by simp

lemma received_recovered_outcome:
  assumes "received_recovered f f'"
  shows "rf_outcome f' = (if rf_outcome f = OutReceiving then OutInterrupted else rf_outcome f)"
  using arg_cong [OF assms [unfolded received_recovered_def], of rf_outcome] by simp

lemma recover_jobs_keeps_wf: "wf_store st \<Longrightarrow> wf_store (snd (recover_jobs js st))"
proof (induction js arbitrary: st)
  case (Cons j js)
  then show ?case
    by (simp only: recover_jobs.simps split: if_splits)
       (intro conjI impI wf_and_then update_job_keeps_wf; blast)
qed simp

lemma recover_received_keeps_wf: "wf_store st \<Longrightarrow> wf_store (snd (recover_received fs st))"
proof (induction fs arbitrary: st)
  case (Cons f fs)
  then have "wf_store (tick st)" by simp
  with Cons show ?case
    by (simp only: recover_received.simps split: if_splits)
       (intro conjI impI wf_and_then save_received_keeps_wf; blast)
qed simp

lemma update_job_frame [frame_simps]:
  "st_received (snd (update_job j st)) = st_received st"
  "st_profiles (snd (update_job j st)) = st_profiles st"
  "st_preference (snd (update_job j st)) = st_preference st"
  "st_version (snd (update_job j st)) = st_version st"
  by (simp_all add: update_job_def Let_def statement_def fail_store_def split: option.splits)

lemma save_received_frame [frame_simps]:
  "st_jobs (snd (save_received f st)) = st_jobs st"
  "st_profiles (snd (save_received f st)) = st_profiles st"
  "st_preference (snd (save_received f st)) = st_preference st"
  "st_version (snd (save_received f st)) = st_version st"
  by (simp_all add: save_received_def statement_def split: option.splits)

lemma recover_jobs_preference: "st_preference (snd (recover_jobs js st)) = st_preference st"
proof (induction js arbitrary: st)
  case (Cons j js)
  then show ?case
    by (cases "update_job (j\<lparr>job_state := JInterrupted\<rparr>) st"; cases "fst (update_job (j\<lparr>job_state := JInterrupted\<rparr>) st)")
      (use update_job_frame(3) [of "j\<lparr>job_state := JInterrupted\<rparr>" st] in auto)
qed simp

lemma recover_received_preference: "st_preference (snd (recover_received fs st)) = st_preference st"
proof (induction fs arbitrary: st)
  case (Cons f fs)
  let ?g = "f\<lparr>rf_outcome := OutInterrupted, rf_result := Some ResInterrupted, rf_finished := Some (clock st)\<rparr>"
  show ?case
    by (cases "save_received ?g (tick st)"; cases "fst (save_received ?g (tick st))")
      (use save_received_frame(3) [of ?g "tick st"] Cons.IH in auto)
qed simp

lemma recover_jobs_effect:
  assumes "recover_jobs js st = (Inr (), s)" "distinct (map job_id js)"
    and "\<forall>j \<in> set js. job_at st (job_id j) = Some j"
  shows "(\<forall>i. i \<notin> job_id ` set js \<longrightarrow> job_at s i = job_at st i) \<and>
         (\<forall>j \<in> set js. \<exists>j'. job_at s (job_id j) = Some j' \<and> job_recovered j j') \<and>
         st_received s = st_received st"
  using assms
proof (induction js arbitrary: st)
  case (Cons j js)
  show ?case
  proof (cases "job_is_active (job_state j)")
    case True
    let ?k = "j\<lparr>job_state := JInterrupted\<rparr>"
    obtain u t where t: "update_job ?k st = (Inr u, t)" "recover_jobs js t = (Inr (), s)"
      using Cons.prems(1) unfolding recover_jobs.simps if_P [OF True] by (rule and_then_okE)
    have at: "job_at t i = (if i = job_id j then Some (stamp_job ?k st) else job_at st i)" for i
      using job_at_update_job [OF t(1)] by simp
    have rest: "\<forall>k \<in> set js. job_at t (job_id k) = Some k"
    proof
      fix k assume k: "k \<in> set js"
      then have "job_id k \<noteq> job_id j" by (rule distinct_keys_ConsD [OF Cons.prems(2)])
      with k Cons.prems(3) show "job_at t (job_id k) = Some k" by (simp add: at)
    qed
    have rcv: "st_received t = st_received st"
      using update_job_frame(1) [of ?k st] t(1) by simp
    note ih = Cons.IH [OF t(2) _ rest]
    have "job_at s (job_id j) = Some (stamp_job ?k st)"
      using ih Cons.prems(2) by (simp add: at)
    moreover have "job_recovered j (stamp_job ?k st)"
      using True by (simp add: job_recovered_def stamp_job_def)
    ultimately show ?thesis
      using ih Cons.prems(2) rcv by (auto simp: at)
  next
    case False
    then have rec: "recover_jobs js st = (Inr (), s)" using Cons.prems(1) by simp
    note ih = Cons.IH [OF rec]
    have "job_recovered j j" using False by (simp add: job_recovered_def)
    with ih Cons.prems(2,3) show ?thesis by auto
  qed
qed simp

lemma save_received_okD:
  assumes "save_received f st = (Inr u, s)"
  shows "s = st\<lparr>st_received := put_received f (st_received st), st_ticks := st_ticks s\<rparr>"
  using assms unfolding save_received_def by (auto simp: tick_def dest!: statement_okD)

lemma find_by_put_received:
  "find_by fr_id i (put_received f rows) =
     (if i = rf_id f
      then Some (case find_by fr_id i rows of
                   Some r \<Rightarrow> r\<lparr>fr_data := Json f\<rparr>
                 | None \<Rightarrow> \<lparr>fr_id = rf_id f, fr_arrived = rf_arrived f, fr_data = Json f\<rparr>)
      else find_by fr_id i rows)"
proof (cases "rf_id f \<in> fr_id ` set rows")
  case True
  then obtain r where "find_by fr_id (rf_id f) rows = Some r"
    by (metis find_by_None_iff option.exhaust)
  with True show ?thesis
    by (simp add: put_received_def insert_or_update_def find_by_update_rows)
next
  case False
  have app: "find_by fr_id i (rows @ [r]) =
      (case find_by fr_id i rows of Some q \<Rightarrow> Some q | None \<Rightarrow> if fr_id r = i then Some r else None)"
    for r by (induction rows) auto
  from False have "find_by fr_id (rf_id f) rows = None" by (simp add: find_by_None_iff)
  with False show ?thesis
    by (auto simp: put_received_def insert_or_update_def app split: option.splits)
qed

lemma received_at_save:
  assumes "save_received f st = (Inr u, s)"
  shows "received_at s i = (if i = rf_id f then Some f else received_at st i)"
  by (subst save_received_okD [OF assms])
     (auto simp: received_at_def find_by_put_received split: option.splits)

lemma recover_received_effect:
  assumes "recover_received fs st = (Inr (), s)" "distinct (map rf_id fs)"
    and "\<forall>f \<in> set fs. received_at st (rf_id f) = Some f"
  shows "(\<forall>i. i \<notin> rf_id ` set fs \<longrightarrow> received_at s i = received_at st i) \<and>
         (\<forall>f \<in> set fs. \<exists>f'. received_at s (rf_id f) = Some f' \<and> received_recovered f f') \<and>
         st_jobs s = st_jobs st"
  using assms
proof (induction fs arbitrary: st)
  case (Cons f fs)
  show ?case
  proof (cases "rf_outcome f = OutReceiving")
    case True
    let ?g = "f\<lparr>rf_outcome := OutInterrupted, rf_result := Some ResInterrupted,
                rf_finished := Some (clock st)\<rparr>"
    have act: "outcome_is_active (rf_outcome f)" using True by simp
    obtain u t where t: "save_received ?g (tick st) = (Inr u, t)" "recover_received fs t = (Inr (), s)"
      using Cons.prems(1) unfolding recover_received.simps if_P [OF act] by (rule and_then_okE)
    have at: "received_at t i = (if i = rf_id f then Some ?g else received_at st i)" for i
      using received_at_save [OF t(1)] by simp
    have rest: "\<forall>k \<in> set fs. received_at t (rf_id k) = Some k"
    proof
      fix k assume k: "k \<in> set fs"
      then have "rf_id k \<noteq> rf_id f" by (rule distinct_keys_ConsD [OF Cons.prems(2)])
      with k Cons.prems(3) show "received_at t (rf_id k) = Some k" by (simp add: at)
    qed
    have js: "st_jobs t = st_jobs st"
      using save_received_frame(1) [of ?g "tick st"] t(1) by simp
    note ih = Cons.IH [OF t(2) _ rest]
    have "received_at s (rf_id f) = Some ?g"
      using ih Cons.prems(2) by (simp add: at)
    moreover have "received_recovered f ?g"
      using True by (simp add: received_recovered_def)
    ultimately show ?thesis
      using ih Cons.prems(2) js by (auto simp: at)
  next
    case False
    then have rec: "recover_received fs st = (Inr (), s)" using Cons.prems(1) by simp
    note ih = Cons.IH [OF rec]
    have "received_recovered f f" using False by (simp add: received_recovered_def)
    with ih Cons.prems(2,3) show ?thesis by auto
  qed
qed simp

text \<open>Recovery keeps the rows in place, the columns beside the data, and the other tables.\<close>

definition job_columns :: "store \<Rightarrow> (uuid \<times> instant) list" where
  "job_columns st = map (\<lambda>r. (jr_id r, jr_created r)) (st_jobs st)"

definition received_columns :: "store \<Rightarrow> (uuid \<times> instant) list" where
  "received_columns st = map (\<lambda>r. (fr_id r, fr_arrived r)) (st_received st)"

definition same_rest :: "store \<Rightarrow> store \<Rightarrow> bool" where
  "same_rest st s \<longleftrightarrow> job_columns s = job_columns st \<and> received_columns s = received_columns st \<and>
     st_profiles s = st_profiles st \<and> st_destinations s = st_destinations st"

lemma same_rest_refl [simp]: "same_rest st st"
  and same_rest_trans: "same_rest st s \<Longrightarrow> same_rest s t \<Longrightarrow> same_rest st t"
  and same_rest_tick [simp]: "same_rest (tick st) s = same_rest st s" "same_rest st (tick s) = same_rest st s"
  by (simp_all add: same_rest_def job_columns_def received_columns_def)

lemma update_job_rest: "same_rest st (snd (update_job j st))"
  by (auto simp: update_job_def Let_def statement_def fail_store_def same_rest_def job_columns_def received_columns_def
      put_job_def update_rows_def split: option.splits)

lemma recover_jobs_rest: "recover_jobs js st = (Inr (), s) \<Longrightarrow> same_rest st s"
proof (induction js arbitrary: st)
  case (Cons j js)
  show ?case
  proof (cases "job_is_active (job_state j)")
    case True
    obtain t where "update_job (j\<lparr>job_state := JInterrupted\<rparr>) st = (Inr (), t)" "recover_jobs js t = (Inr (), s)"
      using Cons.prems True by (auto elim!: and_then_okE)
    then show ?thesis using update_job_rest [of st "j\<lparr>job_state := JInterrupted\<rparr>"] Cons.IH by (auto intro: same_rest_trans)
  qed (use Cons in simp)
qed simp

lemma save_received_rest: "rf_id f \<in> fr_id ` set (st_received st) \<Longrightarrow> same_rest st (snd (save_received f st))"
  by (auto simp: save_received_def statement_def same_rest_def job_columns_def received_columns_def put_received_def
      insert_or_update_def update_rows_def split: option.splits)

lemma received_columns_ids: "received_columns s = received_columns st \<Longrightarrow> fr_id ` set (st_received s) = fr_id ` set (st_received st)"
proof -
  assume "received_columns s = received_columns st"
  then have "fst ` set (received_columns s) = fst ` set (received_columns st)" by simp
  then show ?thesis by (simp add: received_columns_def image_image)
qed

lemma recover_received_rest:
  "recover_received fs st = (Inr (), s) \<Longrightarrow> rf_id ` set fs \<subseteq> fr_id ` set (st_received st) \<Longrightarrow> same_rest st s"
proof (induction fs arbitrary: st)
  case (Cons f fs)
  show ?case
  proof (cases "outcome_is_active (rf_outcome f)")
    case True
    let ?g = "f\<lparr>rf_outcome := OutInterrupted, rf_result := Some ResInterrupted, rf_finished := Some (clock st)\<rparr>"
    obtain t where t: "save_received ?g (tick st) = (Inr (), t)" "recover_received fs t = (Inr (), s)"
      using Cons.prems True by (auto elim!: and_then_okE)
    have rest: "same_rest st t" using save_received_rest [of ?g "tick st"] t(1) Cons.prems(2) by simp
    then have "fr_id ` set (st_received t) = fr_id ` set (st_received st)"
      by (intro received_columns_ids) (simp add: same_rest_def)
    then have "same_rest t s" using Cons.IH [OF t(2)] Cons.prems(2) by simp
    with rest show ?thesis by (rule same_rest_trans)
  qed (use Cons in simp)
qed simp

section \<open>The listings\<close>

lemma jobs_list:
  assumes "wf_jobs (st_jobs st)" "jobs st = (Inr js, s)"
  shows "distinct (map job_id js)" "\<forall>j \<in> set js. job_at st (job_id j) = Some j"
    "job_id ` set js = jr_id ` set (st_jobs st)"
proof -
  have d: "map jr_data (newest_jobs (st_jobs st)) = map Json js" using jobs_okD [OF assms(2)] by simp
  have row: "\<exists>j. jr_data r = Json j \<and> job_id j = jr_id r" if "r \<in> set (newest_jobs (st_jobs st))" for r
    using wf_jobs_row [OF assms(1)] that by auto
  have "map Some (map job_id js) = map (\<lambda>d. map_option job_id (json_value d)) (map Json js)" by simp
  also have "\<dots> = map (\<lambda>r. map_option job_id (json_value (jr_data r))) (newest_jobs (st_jobs st))"
    by (simp only: d [symmetric] map_map comp_def)
  also have "\<dots> = map Some (map jr_id (newest_jobs (st_jobs st)))"
    using row by (fastforce simp: map_eq_conv)
  finally have ids: "map job_id js = map jr_id (newest_jobs (st_jobs st))"
    by (simp only: inj_map_eq_map inj_Some)
  have "distinct (map jr_id (newest_jobs (st_jobs st)))"
    using assms(1) by (simp add: newest_jobs_def rev_map [symmetric] wf_jobs_def distinct_map)
  with ids show "distinct (map job_id js)" by simp
  show "job_id ` set js = jr_id ` set (st_jobs st)"
    using arg_cong [OF ids, of set] by simp
  show "\<forall>j \<in> set js. job_at st (job_id j) = Some j"
  proof
    fix j assume "j \<in> set js"
    then have "Json j \<in> jr_data ` set (newest_jobs (st_jobs st))"
      using arg_cong [OF d, of set] by auto
    then obtain r where r: "r \<in> set (st_jobs st)" "jr_data r = Json j" by auto
    with wf_jobs_row [OF assms(1) r(1)] job_at_row [OF assms(1) r]
    show "job_at st (job_id j) = Some j" by simp
  qed
qed

lemma received_at_row:
  assumes "wf_received (st_received st)" "r \<in> set (st_received st)" "fr_data r = Json f"
  shows "received_at st (fr_id r) = Some f"
  using assms find_by_distinct [of fr_id "st_received st" r]
  by (simp add: received_at_def wf_received_def)

lemma received_at_None_iff:
  assumes "wf_received (st_received st)"
  shows "received_at st i = None \<longleftrightarrow> i \<notin> fr_id ` set (st_received st)"
proof
  show "received_at st i = None" if "i \<notin> fr_id ` set (st_received st)"
    using that find_by_None_iff [of fr_id i "st_received st"] by (simp add: received_at_def)
  show "i \<notin> fr_id ` set (st_received st)" if "received_at st i = None"
    using that received_at_row [OF assms] wf_received_row [OF assms] by fastforce
qed

lemma received_list:
  assumes "wf_received (st_received st)" "received_faxes st = (Inr fs, s)"
  shows "distinct (map rf_id fs)" "\<forall>f \<in> set fs. received_at st (rf_id f) = Some f"
    "rf_id ` set fs = fr_id ` set (st_received st)"
proof -
  have d: "map fr_data (newest_received (st_received st)) = map Json fs"
    using received_faxes_okD [OF assms(2)] by simp
  have row: "\<exists>f. fr_data r = Json f \<and> rf_id f = fr_id r" if "r \<in> set (newest_received (st_received st))" for r
    using wf_received_row [OF assms(1)] that by auto
  have "map Some (map rf_id fs) = map (\<lambda>d. map_option rf_id (json_value d)) (map Json fs)" by simp
  also have "\<dots> = map (\<lambda>r. map_option rf_id (json_value (fr_data r))) (newest_received (st_received st))"
    by (simp only: d [symmetric] map_map comp_def)
  also have "\<dots> = map Some (map fr_id (newest_received (st_received st)))"
    using row by (fastforce simp: map_eq_conv)
  finally have ids: "map rf_id fs = map fr_id (newest_received (st_received st))"
    by (simp only: inj_map_eq_map inj_Some)
  have "distinct (map fr_id (newest_received (st_received st)))"
    using assms(1) by (simp add: newest_received_def rev_map [symmetric] wf_received_def distinct_map)
  with ids show "distinct (map rf_id fs)" by simp
  show "rf_id ` set fs = fr_id ` set (st_received st)"
    using arg_cong [OF ids, of set] by simp
  show "\<forall>f \<in> set fs. received_at st (rf_id f) = Some f"
  proof
    fix f assume "f \<in> set fs"
    then have "Json f \<in> fr_data ` set (newest_received (st_received st))"
      using arg_cong [OF d, of set] by auto
    then obtain r where r: "r \<in> set (st_received st)" "fr_data r = Json f" by auto
    with wf_received_row [OF assms(1) r(1)] received_at_row [OF assms(1) r]
    show "received_at st (rf_id f) = Some f" by simp
  qed
qed

section \<open>What opening achieves\<close>

text \<open>A database that was never migrated has no tables: the model keeps them empty.\<close>

definition schema_ok :: "store \<Rightarrow> bool" where
  "schema_ok st \<longleftrightarrow>
     (st_version st = 0 \<longrightarrow> st_profiles st = [] \<and> st_destinations st = [] \<and> st_jobs st = []) \<and>
     (st_version st < 2 \<longrightarrow> st_received st = [] \<and> st_preference st = None)"

lemma migrate_okD:
  assumes "migrate st = (Inr (), s)" "schema_ok st"
  shows "s = st\<lparr>st_version := 2, st_ticks := st_ticks s\<rparr>"
  using assms unfolding migrate_def
  by (auto elim!: and_then_okE dest!: statement_okD split: if_splits
      simp: create_schema_1_def create_schema_2_def schema_ok_def tick_def)

lemma ensure_folder_frame [frame_simps]:
  "st_jobs (snd (ensure_folder w st)) = st_jobs st"
  "st_received (snd (ensure_folder w st)) = st_received st"
proof -
  have s: "st_jobs (snd (statement (\<lambda>s. (Inr (), s\<lparr>st_preference := x\<rparr>)) t)) = st_jobs t"
    "st_received (snd (statement (\<lambda>s. (Inr (), s\<lparr>st_preference := x\<rparr>)) t)) = st_received t" for x t
    by (simp_all add: statement_def split: option.splits)
  have r: "st_jobs (snd (save_receive_settings x t)) = st_jobs t \<and>
      st_received (snd (save_receive_settings x t)) = st_received t" for x t
  proof (cases "profiles t")
    case (Pair q t1)
    then have "t1 = tick t" using read_ops_state(4) [of t] by simp
    with Pair s show ?thesis
      by (cases q; cases "receive_settings_validate x (projr q)")
         (simp_all add: save_receive_settings_def)
  qed
  have "st_jobs (snd (ensure_folder w st)) = st_jobs st \<and>
        st_received (snd (ensure_folder w st)) = st_received st"
  proof (cases "receive_settings_of st")
    case (Pair q t1)
    then have "t1 = tick st" using read_ops_state(3) [of st] by simp
    with Pair r show ?thesis
      by (cases q; cases "default_folder w") (simp_all add: ensure_folder_def)
  qed
  then show "st_jobs (snd (ensure_folder w st)) = st_jobs st"
    "st_received (snd (ensure_folder w st)) = st_received st" by simp_all
qed

text \<open>The receive settings: a missing folder becomes the default one, nothing else changes.\<close>

definition folder_ensured :: "open_world \<Rightarrow> receive_settings json option \<Rightarrow> receive_settings json option \<Rightarrow> bool" where
  "folder_ensured w p q \<longleftrightarrow>
     (\<exists>x. (case p of None \<Rightarrow> x = default_receive_settings | Some d \<Rightarrow> d = Json x) \<and>
          (if rs_folder x = None
           then \<exists>folder. default_folder w = Inr folder \<and> q = Some (Json (x\<lparr>rs_folder := Some folder\<rparr>))
           else q = p))"

lemma save_receive_settings_okD:
  "save_receive_settings x st = (Inr (), s) \<Longrightarrow> s = st\<lparr>st_preference := Some (Json x), st_ticks := st_ticks s\<rparr>"
  unfolding save_receive_settings_def
  by (auto simp: tick_def elim!: and_then_okE dest!: statement_okD profiles_okD)

lemma ensure_folder_okD:
  assumes "ensure_folder w st = (Inr (), s)"
  shows "s = st\<lparr>st_preference := st_preference s, st_ticks := st_ticks s\<rparr> \<and> folder_ensured w (st_preference st) (st_preference s)"
proof -
  obtain x t where x: "receive_settings_of st = (Inr x, t)"
    "(if rs_folder x = None then and_then (lift_result (default_folder w) t) (\<lambda>folder.
        save_receive_settings (x\<lparr>rs_folder := Some folder\<rparr>)) else (Inr (), t)) = (Inr (), s)"
    using assms unfolding ensure_folder_def by (rule and_then_okE)
  note t = receive_settings_okD [OF x(1)]
  show ?thesis
  proof (cases "rs_folder x = None")
    case True
    then obtain folder where folder: "default_folder w = Inr folder"
      "save_receive_settings (x\<lparr>rs_folder := Some folder\<rparr>) t = (Inr (), s)"
      using x(2) by (auto elim!: and_then_okE)
    note s = save_receive_settings_okD [OF folder(2)]
    have "st_preference s = Some (Json (x\<lparr>rs_folder := Some folder\<rparr>))" by (subst s) simp
    moreover have "s = st\<lparr>st_preference := st_preference s, st_ticks := st_ticks s\<rparr>"
      using s t calculation by (simp add: tick_def)
    ultimately show ?thesis using True t folder(1) by (auto simp: folder_ensured_def)
  next
    case False
    then have "s = tick st" using x(2) t by (simp only: if_False prod.inject)
    then show ?thesis using t False by (auto simp: folder_ensured_def tick_def)
  qed
qed

lemma ensure_folder_keeps_wf:
  assumes "wf_store st" shows "wf_store (snd (ensure_folder w st))"
  unfolding ensure_folder_def
proof (rule wf_and_then)
  fix x s assume "wf_store s"
  then show "wf_store (snd (if rs_folder x = None
       then and_then (lift_result (default_folder w) s) (\<lambda>folder.
              save_receive_settings (x\<lparr>rs_folder := Some folder\<rparr>))
       else (Inr (), s)))"
    by (cases "default_folder w") (simp_all add: save_receive_settings_keeps_wf)
qed (use assms in \<open>simp add: frame_simps\<close>)

lemma open_store_okE:
  assumes "open_store w st = (Inr (), s)"
  obtains s1 s2 js s4 fs where
    "migrate (tick st) = (Inr (), s1)" "ensure_folder w s1 = (Inr (), s2)"
    "jobs s2 = (Inr js, tick s2)" "recover_jobs js (tick s2) = (Inr (), s4)"
    "received_faxes s4 = (Inr fs, tick s4)" "recover_received fs (tick s4) = (Inr (), s)"
proof -
  have "and_then (statement (\<lambda>s. (Inr (), s)) st) (\<lambda>_ s.
              and_then (migrate s) (\<lambda>_ s.
              and_then (ensure_folder w s) (\<lambda>_ s.
              and_then (jobs s) (\<lambda>js s.
              and_then (recover_jobs js s) (\<lambda>_ s.
              and_then (received_faxes s) recover_received))))) = (Inr (), s)"
    using assms by (simp add: open_store_def split: option.splits if_splits)
  then show thesis
    by (elim and_then_okE) (auto dest!: statement_okD dest: jobs_okD received_faxes_okD intro: that)
qed

lemma rel_recovered:
  assumes f: "\<And>i. i \<notin> K \<Longrightarrow> at' i = at i" and r: "\<And>j. j \<in> S \<Longrightarrow> \<exists>j'. at' (key j) = Some j' \<and> R j j'"
    and at: "\<And>j. j \<in> S \<Longrightarrow> at (key j) = Some j" and K: "K = key ` S"
    and none: "\<And>i. at i = None \<longleftrightarrow> i \<notin> K"
  shows "rel_option R (at i) (at' i)"
proof (cases "i \<in> K")
  case True
  then obtain j where "j \<in> S" "i = key j" by (auto simp: K)
  with r [of j] at [of j] show ?thesis by auto
next
  case False
  with f [of i] none [of i] show ?thesis by simp
qed

lemma recovery_effect:
  assumes wf: "wf_store st" and sch: "schema_ok st" and ok: "open_store w st = (Inr (), s)"
  shows "wf_store s" "\<And>i. rel_option job_recovered (job_at st i) (job_at s i)"
    "\<And>i. rel_option received_recovered (received_at st i) (received_at s i)"
    "same_rest st s" "folder_ensured w (st_preference st) (st_preference s)"
proof -
  obtain s1 s2 js s4 fs where
    1: "migrate (tick st) = (Inr (), s1)" and 2: "ensure_folder w s1 = (Inr (), s2)" and
    3: "jobs s2 = (Inr js, tick s2)" and 4: "recover_jobs js (tick s2) = (Inr (), s4)" and
    5: "received_faxes s4 = (Inr fs, tick s4)" and 6: "recover_received fs (tick s4) = (Inr (), s)"
    using ok by (rule open_store_okE)
  have s1: "s1 = (tick st)\<lparr>st_version := 2, st_ticks := st_ticks s1\<rparr>"
    using migrate_okD [OF 1] sch by (simp add: schema_ok_def)
  have "wf_store ((tick st)\<lparr>st_version := 2, st_ticks := n\<rparr>)" for n
    using wf by (simp add: wf_store_def)
  with s1 have wf1: "wf_store s1" by metis
  have jobs1: "st_jobs s1 = st_jobs st" "st_received s1 = st_received st"
    by (subst s1, simp)+
  note folder = ensure_folder_okD [OF 2]
  have other1: "st_profiles s1 = st_profiles st" "st_destinations s1 = st_destinations st" "st_preference s1 = st_preference st"
    by (subst s1, simp)+
  have other2: "st_profiles s2 = st_profiles st" "st_destinations s2 = st_destinations st"
    using folder other1 by (metis store.select_convs store.surjective store.update_convs(6,8))+
  have wf2: "wf_store s2" using ensure_folder_keeps_wf [OF wf1, of w] 2 by simp
  have jobs2: "st_jobs s2 = st_jobs st" "st_received s2 = st_received st"
    using ensure_folder_frame [of w s1] 2 jobs1 by simp_all
  have wf4: "wf_store s4" using recover_jobs_keeps_wf [of "tick s2" js] wf2 4 by simp
  note jl = jobs_list [OF wf_store_parts(3) [OF wf2] 3]
  note je = recover_jobs_effect [OF 4 jl(1)]
  note rl = received_list [OF wf_store_parts(4) [OF wf4] 5]
  note re = recover_received_effect [OF 6 rl(1)]
  have rest2: "same_rest st s2" by (simp add: same_rest_def job_columns_def received_columns_def jobs2 other2)
  have rest4: "same_rest s2 s4" using recover_jobs_rest [OF 4] by simp
  have "same_rest s4 s" using recover_received_rest [OF 6] rl(3) by simp
  then show "same_rest st s" using rest2 rest4 by (blast intro: same_rest_trans)
  have "st_preference s4 = st_preference s2" using recover_jobs_preference [of js "tick s2"] 4 by simp
  moreover have "st_preference s = st_preference s4" using recover_received_preference [of fs "tick s4"] 6 by simp
  ultimately show "folder_ensured w (st_preference st) (st_preference s)" using folder other1(3) by simp
  show "wf_store s" using recover_received_keeps_wf [of "tick s4" fs] wf4 6 by simp
  have at2: "job_at s2 i = job_at st i" for i by (simp add: job_at_def jobs2)
  have rat4: "received_at s4 i = received_at st i" for i
    using je jl(2) by (simp add: received_at_def jobs2)
  have jat: "job_at s i = job_at s4 i" for i
    using re rl(2) by (simp add: job_at_def)
  show "rel_option job_recovered (job_at st i) (job_at s i)" for i
  proof (rule rel_recovered [where K = "job_id ` set js" and S = "set js" and key = job_id])
    show "\<And>i. job_at st i = None \<longleftrightarrow> i \<notin> job_id ` set js"
      using job_at_None_iff [OF wf_store_parts(3) [OF wf2]] jl(3) by (simp add: at2)
    show "\<And>j. j \<in> set js \<Longrightarrow> job_at st (job_id j) = Some j" using jl(2) by (simp add: at2)
  qed (use je jl(2) in \<open>simp_all add: jat at2\<close>)
  show "rel_option received_recovered (received_at st i) (received_at s i)" for i
  proof (rule rel_recovered [where K = "rf_id ` set fs" and S = "set fs" and key = rf_id])
    show "\<And>i. received_at st i = None \<longleftrightarrow> i \<notin> rf_id ` set fs"
      using received_at_None_iff [OF wf_store_parts(4) [OF wf4]] rl(3) by (simp add: rat4)
    show "\<And>f. f \<in> set fs \<Longrightarrow> received_at st (rf_id f) = Some f" using rl(2) by (simp add: rat4)
  qed (use re rl(2) in \<open>simp_all add: rat4\<close>)
qed

section \<open>The operations as a labelled system\<close>

datatype store_op =
    OpSaveSettings receive_settings
  | OpSaveReceived received_fax
  | OpSaveProfile sip_profile
  | OpSaveDestination destination
  | OpRemoveDestination uuid
  | OpClearQueue
  | OpRemoveJob uuid
  | OpEnqueue fax_request "uuid option"
  | OpClaimNext
  | OpUpdateJob job

fun store_step :: "store_op \<Rightarrow> store \<Rightarrow> store" where
  "store_step (OpSaveSettings x) st = snd (save_receive_settings x st)"
| "store_step (OpSaveReceived f) st = snd (save_received f st)"
| "store_step (OpSaveProfile p) st = snd (save_profile p st)"
| "store_step (OpSaveDestination d) st = snd (save_destination d st)"
| "store_step (OpRemoveDestination i) st = snd (remove_destination i st)"
| "store_step OpClearQueue st = snd (clear_queue st)"
| "store_step (OpRemoveJob i) st = snd (remove_job i st)"
| "store_step (OpEnqueue rq r) st = snd (enqueue rq r st)"
| "store_step OpClaimNext st = snd (claim_next st)"
| "store_step (OpUpdateJob j) st = snd (update_job j st)"

lemma store_step_keeps_wf: "wf_store st \<Longrightarrow> wf_store (store_step op st)"
  by (cases op)
     (simp_all add: save_receive_settings_keeps_wf save_received_keeps_wf save_profile_keeps_wf
       save_destination_keeps_wf remove_destination_keeps_wf clear_queue_keeps_wf
       remove_job_keeps_wf enqueue_keeps_wf claim_next_keeps_wf update_job_keeps_wf)

interpretation store_system: labelled_system store_step wf_store "\<lambda>_ _. True"
  by unfold_locales (rule store_step_keeps_wf)

text \<open>The table of received faxes is a keyed table.\<close>

interpretation received_table: keyed_table rf_id
    "\<lambda>i rows. Option.bind (find_by fr_id i rows) (\<lambda>r. json_value (fr_data r))"
    put_received wf_received
proof
  fix t :: "received_row list" and k v
  show "Option.bind (find_by fr_id k (put_received v t)) (\<lambda>r. json_value (fr_data r)) =
      (if k = rf_id v then Some v else Option.bind (find_by fr_id k t) (\<lambda>r. json_value (fr_data r)))"
    by (auto simp: find_by_put_received split: option.splits)
  show "wf_received t \<Longrightarrow> wf_received (put_received v t)" by (rule wf_received_put)
  assume wf: "wf_received t"
    and "Option.bind (find_by fr_id k t) (\<lambda>r. json_value (fr_data r)) = Some v"
  then obtain r where "find_by fr_id k t = Some r" "json_value (fr_data r) = Some v"
    by (auto simp: bind_eq_Some_conv)
  moreover have "r \<in> set t \<and> fr_id r = k" using calculation(1) by (rule find_by_SomeD)
  ultimately show "rf_id v = k"
    using wf_received_row [OF wf, of r] by auto
qed

end
