(* ===== verification/StoreProps.thy ===== *)
theory StoreProps
  imports StoreOpen
begin

text \<open>
  What the store promises to the engine: recovery on opening, first-in-first-out claiming, the
  protection of the receiving profile, the fate of the queue when it is cleared. The sample values
  serve the witnesses here and in later theories.
\<close>

section \<open>Sample values\<close>

definition sample_profile :: sip_profile where
  "sample_profile =
     \<lparr>prof_id = lit ''p1'', prof_name = lit ''Office'', prof_server = lit ''sip.example.org'',
      prof_port = 5060, prof_transport = TUdp, prof_username = lit ''100'',
      prof_auth_username = None, prof_register = True, prof_outbound_proxy = None,
      prof_station_id = lit ''FAXE'', prof_sending_mode = FAuto, prof_automatic_nat = True,
      prof_stun_server = None, prof_playout_delay = 200\<rparr>"

definition sample_document :: prepared_document where
  "sample_document = \<lparr>doc_id = lit ''d1'', doc_pages = 2, doc_sources = [lit ''letter.pdf''],
     doc_options = default_document_options\<rparr>"

definition sample_request :: fax_request where
  "sample_request = \<lparr>rq_profile = lit ''p1'', rq_destination = lit ''+4912345'', rq_mode = FAuto,
     rq_document = sample_document\<rparr>"

definition sample_job :: "uuid \<Rightarrow> instant \<Rightarrow> job_state \<Rightarrow> job" where
  "sample_job i t st = (new_job i t sample_request sample_profile None)\<lparr>job_state := st\<rparr>"

definition sample_row :: "uuid \<Rightarrow> instant \<Rightarrow> job_state \<Rightarrow> job_row" where
  "sample_row i t st = \<lparr>jr_id = i, jr_created = t, jr_status = status_of st,
     jr_data = Json (sample_job i t st)\<rparr>"

definition reliable :: environment where
  "reliable = \<lparr>env_fault = (\<lambda>_. None), env_now = (\<lambda>n. 1000 + n),
     env_uuid = (\<lambda>n. lit ''new-'' @ to_decimal n)\<rparr>"

definition sample_settings :: receive_settings where
  "sample_settings = default_receive_settings\<lparr>rs_profile := Some (lit ''p1''),
     rs_folder := Some (lit ''/home/fax'')\<rparr>"

definition sample_store :: store where
  "sample_store =
     \<lparr>st_version = 2, st_profiles = [\<lparr>pr_id = lit ''p1'', pr_data = Json sample_profile\<rparr>],
      st_destinations = [],
      st_jobs = [sample_row (lit ''a'') 10 (JSending 1), sample_row (lit ''b'') 30 JQueued,
                 sample_row (lit ''c'') 20 JQueued, sample_row (lit ''d'') 5 (JSucceeded 2)],
      st_received = [], st_preference = Some (Json sample_settings), st_env = reliable, st_ticks = 0\<rparr>"

definition sample_world :: open_world where
  "sample_world = \<lparr>ow_directory = lit ''/var/faxe'', ow_prepare = None, ow_locked = False,
     ow_connect = None, ow_user_dirs = None, ow_canonical = Inr (lit ''/var/faxe'')\<rparr>"

lemma profile_valid_sample: "profile_validate sample_profile = Inr ()"
  by code_simp

lemma wf_sample_store: "wf_store sample_store"
  by code_simp

lemma schema_sample_store: "schema_ok sample_store"
  by code_simp

section \<open>Properties\<close>

text \<open>
  C17: Opening the store recovers it. Whatever the previous process left behind, after a successful
  \<open>Store::open\<close> no job and no reception is active: each active job is \<open>Interrupted\<close> and each
  active reception \<open>Interrupted\<close> with that result, every other job and reception is exactly what it was,
  no row appears, goes or moves, profiles and destinations are the same, the receive settings change
  only by the default folder where none was set, and the store invariant holds.
\<close>

theorem open_recovers_interrupted:
  assumes "wf_store st" "schema_ok st" "open_store w st = (Inr (), s)"
  shows "wf_store s \<and>
    (\<forall>i. rel_option job_recovered (job_at st i) (job_at s i)) \<and>
    (\<forall>i. rel_option received_recovered (received_at st i) (received_at s i)) \<and>
    (\<forall>r \<in> set (st_jobs s). jr_status r \<noteq> StActive) \<and>
    (\<forall>i f. received_at s i = Some f \<longrightarrow> rf_outcome f \<noteq> OutReceiving) \<and>
    map (\<lambda>r. (jr_id r, jr_created r)) (st_jobs s) = map (\<lambda>r. (jr_id r, jr_created r)) (st_jobs st) \<and>
    map (\<lambda>r. (fr_id r, fr_arrived r)) (st_received s) = map (\<lambda>r. (fr_id r, fr_arrived r)) (st_received st) \<and>
    st_profiles s = st_profiles st \<and> st_destinations s = st_destinations st \<and>
    (\<exists>x. (case st_preference st of None \<Rightarrow> x = default_receive_settings | Some d \<Rightarrow> d = Json x) \<and>
         (if rs_folder x = None
          then \<exists>folder. default_folder w = Inr folder \<and> st_preference s = Some (Json (x\<lparr>rs_folder := Some folder\<rparr>))
          else st_preference s = st_preference st))"
proof -
  note eff = recovery_effect [OF assms]
  have job: "\<not> job_is_active (job_state j)" if "job_at s i = Some j" for i j
    using eff(2) [of i] that
    by (cases "job_at st i") (auto simp: job_recovered_state)
  have "jr_status r \<noteq> StActive" if r: "r \<in> set (st_jobs s)" for r
  proof -
    obtain j where j: "jr_data r = Json j" "jr_status r = status_of (job_state j)"
      using wf_jobs_row [OF wf_store_parts(3) [OF eff(1)] r] by auto
    from job [OF job_at_row [OF wf_store_parts(3) [OF eff(1)] r j(1)]] j(2) show ?thesis by simp
  qed
  moreover have "rf_outcome f \<noteq> OutReceiving" if "received_at s i = Some f" for i f
    using eff(3) [of i] that
    by (cases "received_at st i") (auto simp: received_recovered_outcome)
  ultimately show ?thesis using eff(1-3) eff(4) [unfolded same_rest_def job_columns_def received_columns_def]
      eff(5) [unfolded folder_ensured_def] by blast
qed

theorem open_recovers_interrupted_witness:
  "map (\<lambda>r. (jr_id r, jr_status r)) (st_jobs (snd (open_store sample_world sample_store))) =
     [(lit ''a'', StFinished), (lit ''b'', StQueued), (lit ''c'', StQueued), (lit ''d'', StFinished)] \<and>
   wf_store (snd (open_store sample_world sample_store))"
proof -
  have "fst (open_store sample_world sample_store) = Inr ()" by code_simp
  then have "open_store sample_world sample_store =
      (Inr (), snd (open_store sample_world sample_store))"
    by (metis prod.collapse)
  from open_recovers_interrupted [OF wf_sample_store schema_sample_store this]
  have "wf_store (snd (open_store sample_world sample_store))" by blast
  moreover have "map (\<lambda>r. (jr_id r, jr_status r)) (st_jobs (snd (open_store sample_world sample_store))) =
     [(lit ''a'', StFinished), (lit ''b'', StQueued), (lit ''c'', StQueued), (lit ''d'', StFinished)]"
    by code_simp
  ultimately show ?thesis by blast
qed

text \<open>
  C22: Claiming is first in, first out and touches one job. When \<open>claim_next\<close> returns a job, that
  job was queued, no queued job was created before it, it is the stored job with only its state, now
  \<open>Connecting\<close>, and its time stamp changed, its row has that data and the active status, and every
  other row and table is unchanged; when it returns nothing, no job was queued and nothing changed; when
  it fails, nothing changed. (The tick is the number of questions asked of the environment.)
\<close>

theorem claim_next_fifo:
  assumes "wf_store st"
  shows "case claim_next st of
      (Inr (Some j), s) \<Rightarrow>
        (\<exists>k. job_at st (job_id j) = Some k \<and> job_state k = JQueued \<and>
             j = k\<lparr>job_state := JConnecting, job_updated := job_updated j\<rparr>) \<and>
        s = st\<lparr>st_jobs := map (\<lambda>r. if jr_id r = job_id j then r\<lparr>jr_status := StActive, jr_data := Json j\<rparr> else r) (st_jobs st),
               st_ticks := st_ticks s\<rparr> \<and>
        job_state j = JConnecting \<and> job_at s (job_id j) = Some j \<and>
        (\<forall>i. i \<noteq> job_id j \<longrightarrow> job_at s i = job_at st i) \<and>
        (\<exists>r \<in> set (st_jobs st). jr_id r = job_id j \<and>
           (\<forall>q \<in> set (st_jobs st). jr_status q = StQueued \<longrightarrow> jr_created r \<le> jr_created q))
    | (Inr None, s) \<Rightarrow> (\<forall>r \<in> set (st_jobs st). jr_status r \<noteq> StQueued) \<and> s = st\<lparr>st_ticks := st_ticks s\<rparr>
    | (Inl e, s) \<Rightarrow> s = st\<lparr>st_ticks := st_ticks s\<rparr>"
proof (cases "claim_next st")
  case (Pair res s)
  note wfj = wf_store_parts(3) [OF assms]
  show ?thesis
  proof (cases res)
    case (Inl e)
    then have "s = st\<lparr>st_ticks := st_ticks s\<rparr>" using Pair claim_errD by simp
    with Inl Pair show ?thesis by simp
  next
    case (Inr c)
    show ?thesis
    proof (cases c)
      case None
      then have q: "oldest_queued (st_jobs st) = None" and s: "s = st\<lparr>st_ticks := st_ticks s\<rparr>"
        using Pair Inr claim_NoneD [of st s] by simp_all
      with q None Inr Pair show ?thesis by (simp add: oldest_queued_None_iff)
    next
      case (Some j)
      obtain r k where r: "oldest_queued (st_jobs st) = Some r" "jr_data r = Json k"
        and j: "j = k\<lparr>job_state := JConnecting, job_updated := job_updated j\<rparr>"
        and s: "s = st\<lparr>st_jobs := put_job StActive j (st_jobs st), st_ticks := st_ticks s\<rparr>"
        using Pair Inr Some claim_okD [of st j s] by metis
      note old = oldest_queuedD [OF r(1)]
      have k: "job_id k = jr_id r" "job_state k = JQueued"
        using wf_jobs_row [OF wfj old(1)] old(2) r(2) status_of_simps(3) [of "job_state k"] by auto
      have fields: "job_id j = jr_id r" "job_state j = JConnecting"
        "job_request j = job_request k" "job_profile j = job_profile k"
        by (subst j, simp add: k)+
      have at: "job_at s i = (if i = job_id j \<and> i \<in> jr_id ` set (st_jobs st) then Some j else job_at st i)" for i
      proof -
        have "job_at s i = job_at (st\<lparr>st_jobs := put_job StActive j (st_jobs st)\<rparr>) i"
          by (subst s) (simp add: job_at_def)
        then show ?thesis by (simp add: job_at_put_job)
      qed
      have "job_at st (job_id j) = Some k" using job_at_row [OF wfj old(1) r(2)] fields by simp
      moreover have "job_at s (job_id j) = Some j" using old(1) fields by (simp add: at)
      ultimately show ?thesis
        using Pair Inr Some fields(1,2) k old j s [unfolded put_job_def update_rows_def] by (auto simp: at)
    qed
  qed
qed

theorem claim_next_fifo_witness:
  "map_option job_id (projr (fst (claim_next sample_store))) = Some (lit ''c'') \<and>
   job_at (snd (claim_next sample_store)) (lit ''b'') = job_at sample_store (lit ''b'')"
proof -
  have ok: "is_ok (fst (claim_next sample_store))"
    and id: "map_option job_id (projr (fst (claim_next sample_store))) = Some (lit ''c'')"
    by code_simp+
  obtain j s where c: "claim_next sample_store = (Inr (Some j), s)" "job_id j = lit ''c''"
    using ok id by (cases "claim_next sample_store"; cases "fst (claim_next sample_store)") auto
  have "job_at s (lit ''b'') = job_at sample_store (lit ''b'')"
    using claim_next_fifo [OF wf_sample_store] c by simp
  with id c show ?thesis by simp
qed

text \<open>
  C23: Stored receive settings stay valid. From a well-formed store, after any sequence of store
  operations - whichever statements fail in between - the store is still well-formed, and whatever
  receive settings and profiles it then reads back validate against each other: no operation can
  leave receiving pointing at a profile that is missing, invalid or not registering.
\<close>

theorem receive_settings_stay_valid:
  assumes "wf_store st" "receive_settings_of (run store_step ops st) = (Inr x, t)"
    "profiles t = (Inr ps, u)"
  shows "wf_store (run store_step ops st) \<and> receive_settings_validate x ps = Inr ()"
proof
  show wf: "wf_store (run store_step ops st)"
    using assms(1) by (rule store_system.inv_run_always) simp
  have t: "t = tick (run store_step ops st)"
    and x: "case st_preference (run store_step ops st) of None \<Rightarrow> x = default_receive_settings
            | Some d \<Rightarrow> d = Json x"
    using receive_settings_okD [OF assms(2)] by simp_all
  show "receive_settings_validate x ps = Inr ()"
  proof (cases "st_preference (run store_step ops st)")
    case None
    with x show ?thesis
      by (simp add: receive_settings_validate_def settings_listener_check_def
          settings_profile_check_def default_receive_settings_def)
  next
    case (Some d)
    with x wf_store_parts(5) [OF wf] have "preference_ok (st_profiles (run store_step ops st)) (Some (Json x))"
      by simp
    with preference_validates [OF wf_store_parts(1) [OF wf]] profiles_okD [OF assms(3)] t
    show ?thesis by simp
  qed
qed

theorem receive_settings_stay_valid_witness:
  "receive_settings_validate sample_settings [sample_profile] = Inr ()"
proof -
  let ?ops = "[OpSaveProfile (sample_profile\<lparr>prof_register := False\<rparr>), OpClaimNext]"
  let ?s = "run store_step ?ops sample_store"
  have x: "receive_settings_of ?s = (Inr sample_settings, snd (receive_settings_of ?s))"
    and ps: "profiles (snd (receive_settings_of ?s)) =
      (Inr [sample_profile], snd (profiles (snd (receive_settings_of ?s))))"
  proof -
    have "fst (receive_settings_of ?s) = Inr sample_settings"
      and "fst (profiles (snd (receive_settings_of ?s))) = Inr [sample_profile]"
      by code_simp+
    then show "receive_settings_of ?s = (Inr sample_settings, snd (receive_settings_of ?s))"
      "profiles (snd (receive_settings_of ?s)) =
        (Inr [sample_profile], snd (profiles (snd (receive_settings_of ?s))))"
      by (metis prod.collapse)+
  qed
  from receive_settings_stay_valid [OF wf_sample_store x ps] show ?thesis by blast
qed

text \<open>
  Clearing the queue removes exactly the jobs that are not active. The active job stays with its
  data until its worker records the cancellation, every other job is gone, and the number returned
  is the number of jobs removed.
\<close>

theorem clear_queue_keeps_active:
  assumes "wf_store st" "clear_queue st = (Inr n, s)"
  shows "(\<forall>i. job_at s i = (case job_at st i of
              Some j \<Rightarrow> if job_is_active (job_state j) then Some j else None | None \<Rightarrow> None)) \<and>
         n + length (st_jobs s) = length (st_jobs st)"
proof -
  note wfj = wf_store_parts(3) [OF assms(1)]
  have s: "s = (tick st)\<lparr>st_jobs := filter (\<lambda>r. \<not> jr_status r \<noteq> StActive) (st_jobs st)\<rparr>"
    and n: "n = length (filter (\<lambda>r. jr_status r \<noteq> StActive) (st_jobs st))"
    using assms(2) by (auto simp: clear_queue_def dest!: statement_okD)
  have "job_at s i = (case job_at st i of
      Some j \<Rightarrow> if job_is_active (job_state j) then Some j else None | None \<Rightarrow> None)" for i
  proof -
    have "Option.bind (find_by jr_id i (filter (\<lambda>r. jr_status r = StActive) rows))
            (\<lambda>r. json_value (jr_data r)) =
          (case Option.bind (find_by jr_id i rows) (\<lambda>r. json_value (jr_data r)) of
             Some j \<Rightarrow> if job_is_active (job_state j) then Some j else None | None \<Rightarrow> None)"
      if "wf_jobs rows" for rows
      using that
    proof (induction rows)
      case (Cons r rows)
      then obtain j where j: "jr_data r = Json j" "jr_status r = status_of (job_state j)"
        using wf_jobs_row [OF Cons.prems, of r] by auto
      have wf: "wf_jobs rows" using Cons.prems by (simp add: wf_jobs_def)
      have "i = jr_id r \<Longrightarrow> find_by jr_id i rows = None"
        using Cons.prems by (auto simp: wf_jobs_def find_by_None_iff)
      with Cons.IH [OF wf] j show ?case by auto
    qed simp
    from this [OF wfj] show ?thesis by (simp add: s job_at_def)
  qed
  moreover have "n + length (st_jobs s) = length (st_jobs st)"
    using sum_length_filter_compl [of "\<lambda>r. jr_status r \<noteq> StActive" "st_jobs st"] by (simp add: n s)
  ultimately show ?thesis by blast
qed

theorem clear_queue_keeps_active_witness:
  "job_at (snd (clear_queue sample_store)) (lit ''b'') = None \<and>
   job_at (snd (clear_queue sample_store)) (lit ''a'') = job_at sample_store (lit ''a'')"
proof -
  have c: "clear_queue sample_store = (Inr 3, snd (clear_queue sample_store))"
  proof -
    have "fst (clear_queue sample_store) = Inr 3" by code_simp
    then show ?thesis by (metis prod.collapse)
  qed
  have a: "job_at sample_store (lit ''a'') = Some (sample_job (lit ''a'') 10 (JSending 1))"
    and b: "job_at sample_store (lit ''b'') = Some (sample_job (lit ''b'') 30 JQueued)"
    by code_simp+
  show ?thesis
    using clear_queue_keeps_active [OF wf_sample_store c] by (simp add: a b sample_job_def)
qed

end
