(* ===== verification/NatTraversal.thy ===== *)
theory NatTraversal
  imports NativeTypes RustText Systems
begin

text \<open>
  NAT traversal (\<open>nat.rs\<close>): the STUN request schedule and response parser of a media socket, and the
  rule by which a call learns the port its peer really sends from.
\<close>

unbundle bit_operations_syntax

section \<open>STUN messages\<close>

definition stun_cookie :: "byte list" where
  "stun_cookie = [0x21, 0x12, 0xa4, 0x42]"

definition is_stun :: "byte list \<Rightarrow> bool" where
  "is_stun packet \<longleftrightarrow>
     20 \<le> length packet \<and> (packet ! 0) AND 0xc0 = 0 \<and> take 4 (drop 4 packet) = stun_cookie"

text \<open>The address of a mapped-address attribute value; the XOR form undoes the cookie.\<close>

definition attr_port :: "bool \<Rightarrow> byte list \<Rightarrow> u16" where
  "attr_port xored v =
     (let port = word_of_nat (be16 (v ! 2) (v ! 3)) in if xored then port XOR 0x2112 else port)"

definition attr_ip :: "bool \<Rightarrow> byte list \<Rightarrow> ip_addr" where
  "attr_ip xored v =
     (if xored
      then V4 (v ! 4 XOR stun_cookie ! 0) (v ! 5 XOR stun_cookie ! 1)
              (v ! 6 XOR stun_cookie ! 2) (v ! 7 XOR stun_cookie ! 3)
      else V4 (v ! 4) (v ! 5) (v ! 6) (v ! 7))"

definition attr_address :: "bool \<Rightarrow> byte list \<Rightarrow> sock_addr option" where
  "attr_address xored v =
     (let port = attr_port xored v; ip = attr_ip xored v
      in if port = 0 \<or> is_unspecified ip \<or> is_multicast ip \<or> is_broadcast ip
         then None else Some (ip, port))"

text \<open>The attribute loop from \<open>offset\<close>, with the plain mapped address seen so far.\<close>

function stun_attrs :: "byte list \<Rightarrow> nat \<Rightarrow> sock_addr option \<Rightarrow> sock_addr option" where
  "stun_attrs packet offset mapped =
     (if offset + 4 \<le> length packet
      then let kind = be16 (packet ! offset) (packet ! (offset + 1));
               len = be16 (packet ! (offset + 2)) (packet ! (offset + 3));
               next = offset + (4 + (len + 3) div 4 * 4)
           in if length packet < offset + 4 + len then None
              else let v = take len (drop (offset + 4) packet)
                   in if (kind = 0x0001 \<or> kind = 0x0020) \<and> length v = 8 \<and> v ! 1 = 1
                      then (case attr_address (kind = 0x0020) v of
                              None \<Rightarrow> None
                            | Some a \<Rightarrow> if kind = 0x0020 then Some a
                                         else stun_attrs packet next (Some a))
                      else stun_attrs packet next mapped
      else mapped)"
  by pat_completeness auto

termination
  by (relation "measure (\<lambda>(packet, offset, _). length packet - offset)") auto

declare stun_attrs.simps [simp del]

definition stun_parse_response :: "byte list \<Rightarrow> byte list \<Rightarrow> sock_addr option" where
  "stun_parse_response packet transaction =
     (if \<not> is_stun packet \<or> take 2 packet \<noteq> [1, 1] \<or> take 12 (drop 8 packet) \<noteq> transaction then None
      else let len = be16 (packet ! 2) (packet ! 3)
           in if len mod 4 \<noteq> 0 \<or> length packet \<noteq> 20 + len then None
              else stun_attrs packet 20 None)"

section \<open>The mapping of a socket\<close>

record stun_mapping =
  sm_server :: sock_addr
  sm_transaction :: "byte list"
  sm_address :: "sock_addr option"
  sm_started :: instant
  sm_sent :: instant
  sm_attempts :: nat

text \<open>The random transaction and the clock are inputs. The clock is read twice in \<open>new\<close> and counts from
  an origin at least 30 seconds back, so that the subtraction does not underflow.\<close>

definition mapping_new :: "sock_addr \<Rightarrow> byte list \<Rightarrow> instant \<Rightarrow> instant \<Rightarrow> stun_mapping" where
  "mapping_new server transaction now now' =
     \<lparr>sm_server = server, sm_transaction = transaction, sm_address = None, sm_started = now,
      sm_sent = now' - secs 30, sm_attempts = 0\<rparr>"

definition mapping_pending :: "instant \<Rightarrow> stun_mapping \<Rightarrow> bool" where
  "mapping_pending now m \<longleftrightarrow> sm_address m = None \<and> now - sm_started m < secs 3"

definition mapping_interval :: "stun_mapping \<Rightarrow> duration" where
  "mapping_interval m =
     (if sm_attempts m < 3 \<and> sm_address m = None then millis (500 * 2 ^ sm_attempts m) else secs 15)"

definition mapping_deadline :: "instant \<Rightarrow> stun_mapping \<Rightarrow> instant" where
  "mapping_deadline now m =
     (let next = sm_sent m + mapping_interval m
      in if mapping_pending now m then min next (sm_started m + secs 3) else next)"

definition stun_request :: "byte list \<Rightarrow> byte list" where
  "stun_request transaction = [0, 1, 0, 0] @ stun_cookie @ transaction"

text \<open>\<open>tick\<close>: \<open>fresh\<close> is the transaction a new uuid would give, \<open>failure\<close> the error of the socket when it
  refuses the datagram, \<open>now'\<close> the clock after sending. The third component is the datagram sent.\<close>

definition mapping_tick ::
  "instant \<Rightarrow> instant \<Rightarrow> byte list \<Rightarrow> native_error option \<Rightarrow> stun_mapping \<Rightarrow>
   (native_error + unit) \<times> stun_mapping \<times> (byte list \<times> sock_addr) option" where
  "mapping_tick now now' fresh failure m =
     (if now - sm_sent m \<ge> mapping_interval m
      then let m = (if sm_attempts m \<ge> 3 \<or> sm_address m \<noteq> None
                    then m\<lparr>sm_transaction := fresh\<rparr> else m);
               request = stun_request (sm_transaction m)
           in (case failure of
                 Some e \<Rightarrow> (Inl e, m, None)
               | None \<Rightarrow> (Inr (), m\<lparr>sm_sent := now', sm_attempts := min 255 (sm_attempts m + 1)\<rparr>,
                          Some (request, sm_server m)))
      else (Inr (), m, None))"

definition mapping_receive :: "sock_addr \<Rightarrow> byte list \<Rightarrow> stun_mapping \<Rightarrow> bool \<times> stun_mapping" where
  "mapping_receive source packet m =
     (if source \<noteq> sm_server m \<or> \<not> is_stun packet then (False, m)
      else (True, case stun_parse_response packet (sm_transaction m) of
                    Some a \<Rightarrow> m\<lparr>sm_address := Some a\<rparr> | None \<Rightarrow> m))"

section \<open>Learning the peer's port\<close>

record peer =
  pe_address :: sock_addr
  pe_enabled :: bool
  pe_pinned :: bool
  pe_candidate :: "(sock_addr \<times> u16 \<times> u32 \<times> nat) option"

definition peer_new :: "sock_addr \<Rightarrow> bool \<Rightarrow> peer" where
  "peer_new address enabled =
     \<lparr>pe_address = address, pe_enabled = enabled, pe_pinned = False, pe_candidate = None\<rparr>"

definition candidate_count :: "peer \<Rightarrow> sock_addr \<Rightarrow> u16 \<Rightarrow> u32 \<Rightarrow> nat" where
  "candidate_count p source sequence stream =
     (case pe_candidate p of
        Some (candidate, previous, ssrc, count) \<Rightarrow>
          if candidate = source \<and> ssrc = stream \<and> sequence = previous + 1 then count + 1 else 1
      | None \<Rightarrow> 1)"

definition peer_accept :: "sock_addr \<Rightarrow> u16 \<Rightarrow> u32 \<Rightarrow> peer \<Rightarrow> bool \<times> peer" where
  "peer_accept source sequence stream p =
     (if source = pe_address p then (True, p\<lparr>pe_pinned := True\<rparr>)
      else if \<not> pe_enabled p \<or> pe_pinned p \<or> fst source \<noteq> fst (pe_address p) then (False, p)
      else let count = candidate_count p source sequence stream;
               p = p\<lparr>pe_candidate := Some (source, sequence, stream, count)\<rparr>
           in if count < 3 then (False, p)
              else (True, p\<lparr>pe_address := source, pe_pinned := True\<rparr>))"

section \<open>The STUN server to ask\<close>

text \<open>The resolver is a parameter: it maps host and port to addresses or an I/O error.\<close>

definition stun_target :: "utext \<Rightarrow> utext" where
  "stun_target v =
     (let v = (case strip_prefix (lit ''stun:'') v of Some r \<Rightarrow> r | None \<Rightarrow> v)
      in if contains (lit '':'') v then v else v @ lit '':3478'')"

definition stun_server ::
  "(utext \<Rightarrow> utext + sock_addr list) \<Rightarrow> utext \<Rightarrow> native_error + sock_addr" where
  "stun_server resolve v =
     res_bind (map_err NIo (resolve (stun_target v))) (\<lambda>addresses.
       case find (\<lambda>a. is_ipv4 (fst a)) addresses of
         Some a \<Rightarrow> Inr a
       | None \<Rightarrow> Inl (NInvalid (lit ''No IPv4 STUN server address'')))"

section \<open>Responses decode to the mapped address\<close>

text \<open>The wire format: attributes as kind, length and value, padded to four bytes.\<close>

definition be16_bytes :: "nat \<Rightarrow> byte list" where
  "be16_bytes n = [word_of_nat (n div 256), word_of_nat (n mod 256)]"

definition attr_bytes :: "nat \<times> byte list \<Rightarrow> byte list" where
  "attr_bytes a = be16_bytes (fst a) @ be16_bytes (length (snd a)) @ snd a @
     replicate ((length (snd a) + 3) div 4 * 4 - length (snd a)) 0"

definition attrs_bytes :: "(nat \<times> byte list) list \<Rightarrow> byte list" where
  "attrs_bytes as = concat (map attr_bytes as)"

definition stun_success :: "byte list \<Rightarrow> (nat \<times> byte list) list \<Rightarrow> byte list" where
  "stun_success transaction as =
     [1, 1] @ be16_bytes (length (attrs_bytes as)) @ stun_cookie @ transaction @ attrs_bytes as"

definition xor_mapped_attr :: "byte \<Rightarrow> byte \<Rightarrow> byte \<Rightarrow> byte \<Rightarrow> u16 \<Rightarrow> nat \<times> byte list" where
  "xor_mapped_attr a b c d port =
     (0x0020, [0, 1] @ be16_bytes (unat (port XOR 0x2112)) @
        [a XOR 0x21, b XOR 0x12, c XOR 0xa4, d XOR 0x42])"

text \<open>An attribute the parser passes over.\<close>

definition attr_ignored :: "nat \<times> byte list \<Rightarrow> bool" where
  "attr_ignored a \<longleftrightarrow> fst a < 65536 \<and> length (snd a) < 65536 \<and>
     \<not> ((fst a = 0x0001 \<or> fst a = 0x0020) \<and> length (snd a) = 8 \<and> snd a ! 1 = 1)"

lemma be16_be16_bytes: "n < 65536 \<Longrightarrow> be16 (be16_bytes n ! 0) (be16_bytes n ! 1) = n"
  by (simp add: be16_def be16_bytes_def unat_byte_of_nat)

lemma length_be16_bytes [simp]: "length (be16_bytes n) = 2"
  by (simp add: be16_bytes_def)

lemma length_attr_bytes: "length (attr_bytes a) = 4 + (length (snd a) + 3) div 4 * 4"
  by (simp add: attr_bytes_def)

lemma stun_attrs_step:
  assumes p: "packet = pre @ attr_bytes (k, v) @ rest" and k: "k < 65536" and v: "length v < 65536"
  shows "stun_attrs packet (length pre) mapped =
    (if (k = 0x0001 \<or> k = 0x0020) \<and> length v = 8 \<and> v ! 1 = 1
     then (case attr_address (k = 0x0020) v of
             None \<Rightarrow> None
           | Some a \<Rightarrow> if k = 0x0020 then Some a
                        else stun_attrs packet (length (pre @ attr_bytes (k, v))) (Some a))
     else stun_attrs packet (length (pre @ attr_bytes (k, v))) mapped)"
proof -
  have nths: "packet ! length pre = be16_bytes k ! 0" "packet ! (length pre + 1) = be16_bytes k ! 1"
    "packet ! (length pre + 2) = be16_bytes (length v) ! 0"
    "packet ! (length pre + 3) = be16_bytes (length v) ! 1"
    by (simp_all add: p attr_bytes_def nth_append be16_bytes_def)
  have kind: "be16 (packet ! length pre) (packet ! (length pre + 1)) = k"
    and len: "be16 (packet ! (length pre + 2)) (packet ! (length pre + 3)) = length v"
    unfolding nths by (simp_all only: be16_be16_bytes [OF k] be16_be16_bytes [OF v])
  have drop: "take (length v) (drop (length pre + 4) packet) = v"
    by (simp add: p attr_bytes_def be16_bytes_def)
  have le: "length pre + 4 \<le> length packet" "\<not> length packet < length pre + 4 + length v"
    by (simp_all add: p attr_bytes_def)
  have nxt: "length pre + (4 + (length v + 3) div 4 * 4) = length (pre @ attr_bytes (k, v))"
    by (simp add: length_attr_bytes)
  show ?thesis
    by (subst stun_attrs.simps) (simp only: Let_def kind len drop le nxt if_True if_False)
qed

lemma stun_attrs_ignored:
  assumes "list_all attr_ignored as" "packet = pre @ attrs_bytes as @ rest"
  shows "stun_attrs packet (length pre) mapped = stun_attrs packet (length (pre @ attrs_bytes as)) mapped"
  using assms
proof (induction as arbitrary: pre)
  case (Cons a as)
  obtain k v where a: "a = (k, v)" by (cases a)
  have p: "packet = pre @ attr_bytes (k, v) @ attrs_bytes as @ rest"
    using Cons.prems(2) by (simp add: a attrs_bytes_def)
  have ig: "k < 65536" "length v < 65536" "\<not> ((k = 0x0001 \<or> k = 0x0020) \<and> length v = 8 \<and> v ! 1 = 1)"
    using Cons.prems(1) by (auto simp: a attr_ignored_def)
  have "stun_attrs packet (length pre) mapped = stun_attrs packet (length (pre @ attr_bytes (k, v))) mapped"
    by (subst stun_attrs_step [OF p ig(1,2)]) (simp only: ig(3) if_False)
  also have "\<dots> = stun_attrs packet (length ((pre @ attr_bytes (k, v)) @ attrs_bytes as)) mapped"
    using Cons.prems(1) p by (intro Cons.IH) simp_all
  finally show ?case by (simp add: a attrs_bytes_def)
qed (simp add: attrs_bytes_def)

lemma xor_twice [simp]: "(x XOR k) XOR k = (x :: 'a::len word)"
  by (simp add: xor.assoc)

lemma attr_of_xor_mapped:
  "attr_port True (snd (xor_mapped_attr a b c d port)) = port"
  "attr_ip True (snd (xor_mapped_attr a b c d port)) = V4 a b c d"
proof -
  let ?x = "port XOR 0x2112"
  have "unat ?x < 65536" using unsigned_less [of ?x, where 'a = nat] by simp
  then have "be16 (be16_bytes (unat ?x) ! 0) (be16_bytes (unat ?x) ! 1) = unat ?x"
    by (rule be16_be16_bytes)
  then show "attr_port True (snd (xor_mapped_attr a b c d port)) = port"
    by (simp add: attr_port_def xor_mapped_attr_def be16_bytes_def)
  show "attr_ip True (snd (xor_mapped_attr a b c d port)) = V4 a b c d"
    by (simp add: attr_ip_def xor_mapped_attr_def be16_bytes_def stun_cookie_def)
qed

lemma stun_success_shape:
  assumes "length transaction = 12"
  shows "is_stun (stun_success transaction as)" "take 2 (stun_success transaction as) = [1, 1]"
    "take 12 (drop 8 (stun_success transaction as)) = transaction"
    "length (stun_success transaction as) = 20 + length (attrs_bytes as)"
    "stun_success transaction as ! 2 = be16_bytes (length (attrs_bytes as)) ! 0"
    "stun_success transaction as ! 3 = be16_bytes (length (attrs_bytes as)) ! 1"
  using assms by (simp_all add: stun_success_def is_stun_def stun_cookie_def be16_bytes_def)

lemma attrs_bytes_mod_4: "length (attrs_bytes as) mod 4 = 0"
proof (induction as)
  case (Cons a as)
  have "length (attrs_bytes (a # as)) = 4 + (length (snd a) + 3) div 4 * 4 + length (attrs_bytes as)"
    by (simp add: attrs_bytes_def length_attr_bytes)
  with Cons show ?case by presburger
qed (simp add: attrs_bytes_def)

text \<open>
  A STUN success response decodes to the address the server saw. Whatever unrecognised
  attributes come first and whatever follows, a response with our transaction whose
  XOR-MAPPED-ADDRESS holds a usable IPv4 address and port is decoded to exactly that address and
  port.
\<close>

theorem stun_response_decodes:
  assumes "length transaction = 12" "list_all attr_ignored before"
    and "length (attrs_bytes (before @ xor_mapped_attr a b c d port # after)) < 65536"
    and "port \<noteq> 0" "\<not> is_unspecified (V4 a b c d)" "\<not> is_multicast (V4 a b c d)" "\<not> is_broadcast (V4 a b c d)"
  shows "stun_parse_response
      (stun_success transaction (before @ xor_mapped_attr a b c d port # after)) transaction =
    Some (V4 a b c d, port)"
proof -
  let ?as = "before @ xor_mapped_attr a b c d port # after"
  let ?p = "stun_success transaction ?as"
  let ?h = "[1, 1] @ be16_bytes (length (attrs_bytes ?as)) @ stun_cookie @ transaction"
  let ?v = "snd (xor_mapped_attr a b c d port)"
  note shape = stun_success_shape [OF assms(1), of ?as]
  have len: "be16 (?p ! 2) (?p ! 3) = length (attrs_bytes ?as)"
    unfolding shape(5,6) by (rule be16_be16_bytes [OF assms(3)])
  have h: "length ?h = 20" using assms(1) by (simp add: stun_cookie_def)
  have split: "?p = ?h @ attrs_bytes before @ attr_bytes (0x0020, ?v) @ attrs_bytes after"
    by (simp add: stun_success_def attrs_bytes_def xor_mapped_attr_def)
  have "stun_attrs ?p 20 None = stun_attrs ?p (length (?h @ attrs_bytes before)) None"
    using stun_attrs_ignored [OF assms(2) split] unfolding h .
  also have "\<dots> = Some (V4 a b c d, port)"
  proof (subst stun_attrs_step)
    show "?p = (?h @ attrs_bytes before) @ attr_bytes (0x0020, ?v) @ attrs_bytes after"
      using split by (simp only: append_assoc)
    have v: "length ?v = 8" "?v ! 1 = 1" by (simp_all add: xor_mapped_attr_def be16_bytes_def)
    show "(0x0020 :: nat) < 65536" "length ?v < 65536" using v by simp_all
    have "attr_address True ?v = Some (V4 a b c d, port)"
      using assms(4-7) by (simp add: attr_address_def attr_of_xor_mapped)
    then show "(if ((0x0020 :: nat) = 0x0001 \<or> (0x0020 :: nat) = 0x0020) \<and> length ?v = 8 \<and> ?v ! 1 = 1
     then (case attr_address ((0x0020 :: nat) = 0x0020) ?v of
             None \<Rightarrow> None
           | Some a \<Rightarrow> if (0x0020 :: nat) = 0x0020 then Some a
                        else stun_attrs ?p (length ((?h @ attrs_bytes before) @ attr_bytes (0x0020, ?v))) (Some a))
     else stun_attrs ?p (length ((?h @ attrs_bytes before) @ attr_bytes (0x0020, ?v))) None) =
      Some (V4 a b c d, port)"
      unfolding v by simp
  qed
  finally have loop: "stun_attrs ?p 20 None = Some (V4 a b c d, port)" .
  show ?thesis
    unfolding stun_parse_response_def len Let_def
    using shape(1-4) attrs_bytes_mod_4 [of ?as] loop by simp
qed

theorem stun_response_decodes_witness:
  "stun_parse_response
     (stun_success (replicate 12 7) [(0x8022, [1, 2, 3]), xor_mapped_attr 203 0 113 9 40000]) (replicate 12 7) =
   Some (V4 203 0 113 9, 40000)"
proof -
  have "length (attrs_bytes ([(0x8022, [1, 2, 3])] @ xor_mapped_attr 203 0 113 9 40000 # [])) < 65536"
    by code_simp
  moreover have "list_all attr_ignored [(0x8022, [1, 2, 3])]" by code_simp
  moreover have "\<not> is_unspecified (V4 203 0 113 9)" "\<not> is_multicast (V4 203 0 113 9)"
    "\<not> is_broadcast (V4 203 0 113 9)" by code_simp+
  ultimately show ?thesis
    using stun_response_decodes [of "replicate 12 7" "[(0x8022, [1, 2, 3])]" 203 0 113 9 40000 "[]"] by simp
qed

section \<open>What a mapping trusts\<close>

definition usable_mapping :: "sock_addr \<Rightarrow> bool" where
  "usable_mapping a \<longleftrightarrow> is_ipv4 (fst a) \<and> snd a \<noteq> 0 \<and> \<not> is_unspecified (fst a) \<and>
     \<not> is_multicast (fst a) \<and> \<not> is_broadcast (fst a)"

lemma attr_address_usable: "attr_address x v = Some a \<Longrightarrow> usable_mapping a"
  by (auto simp: attr_address_def usable_mapping_def attr_ip_def is_ipv4_def Let_def split: if_splits)

lemma stun_attrs_usable:
  "stun_attrs packet offset mapped = Some a \<Longrightarrow> (\<And>b. mapped = Some b \<Longrightarrow> usable_mapping b) \<Longrightarrow>
   usable_mapping a"
proof (induction "length packet - offset" arbitrary: offset mapped rule: less_induct)
  case less
  define kind where "kind = be16 (packet ! offset) (packet ! (offset + 1))"
  define len where "len = be16 (packet ! (offset + 2)) (packet ! (offset + 3))"
  define nxt where "nxt = offset + (4 + (len + 3) div 4 * 4)"
  define v where "v = take len (drop (offset + 4) packet)"
  have step: "stun_attrs packet offset mapped =
    (if offset + 4 \<le> length packet
     then if length packet < offset + 4 + len then None
          else if (kind = 0x0001 \<or> kind = 0x0020) \<and> length v = 8 \<and> v ! 1 = 1
               then (case attr_address (kind = 0x0020) v of None \<Rightarrow> None
                     | Some b \<Rightarrow> if kind = 0x0020 then Some b else stun_attrs packet nxt (Some b))
               else stun_attrs packet nxt mapped
     else mapped)"
    by (subst stun_attrs.simps) (simp only: Let_def kind_def len_def nxt_def v_def)
  show ?case
  proof (cases "offset + 4 \<le> length packet")
    case True
    then have dec: "length packet - nxt < length packet - offset" by (simp add: nxt_def)
    have rest: "stun_attrs packet nxt mapped = Some a \<Longrightarrow> usable_mapping a"
      using less.hyps [OF dec] less.prems(2) by blast
    have rest': "stun_attrs packet nxt (Some b) = Some a \<Longrightarrow> usable_mapping b \<Longrightarrow> usable_mapping a" for b
      using less.hyps [OF dec, of "Some b"] by blast
    from less.prems(1) True rest rest' show ?thesis
      unfolding step by (auto split: if_splits option.splits dest: attr_address_usable)
  next
    case False
    with less.prems show ?thesis by (simp add: step)
  qed
qed

text \<open>
  C39: A mapping only believes its server. A datagram changes the mapped address only if it comes
  from the configured server and is a success response to the current transaction, and the address
  it then holds is a concrete IPv4 address with a non-zero port - never unspecified, multicast or
  broadcast.
\<close>

theorem mapping_trusts_server_only:
  assumes "mapping_receive source packet m = (handled, m')" "sm_address m' \<noteq> sm_address m"
  shows "handled \<and> source = sm_server m \<and> take 2 packet = [1, 1] \<and>
    take 12 (drop 8 packet) = sm_transaction m \<and>
    (\<exists>a. m' = m\<lparr>sm_address := Some a\<rparr> \<and> usable_mapping a)"
proof -
  obtain a where h: "handled" "source = sm_server m"
    and a: "stun_parse_response packet (sm_transaction m) = Some a" "m' = m\<lparr>sm_address := Some a\<rparr>"
  proof (cases "source \<noteq> sm_server m \<or> \<not> is_stun packet")
    case False
    with assms that show ?thesis
      by (cases "stun_parse_response packet (sm_transaction m)") (auto simp: mapping_receive_def)
  next
    case True
    then have "mapping_receive source packet m = (False, m)" by (simp only: mapping_receive_def if_True)
    with assms show ?thesis by auto
  qed
  have "stun_attrs packet 20 None = Some a" "take 2 packet = [1, 1]"
    "take 12 (drop 8 packet) = sm_transaction m"
    using a(1) by (auto simp: stun_parse_response_def Let_def split: if_splits)
  with h a(2) stun_attrs_usable [of packet 20 None a] show ?thesis by blast
qed

theorem mapping_trusts_server_only_witness:
  "(\<exists>a. sm_address (snd (mapping_receive (V4 192 0 2 1, 3478)
      (stun_success (replicate 12 7) [xor_mapped_attr 203 0 113 9 40000])
      (mapping_new (V4 192 0 2 1, 3478) (replicate 12 7) 0 0))) = Some a \<and> usable_mapping a)"
proof -
  let ?m = "mapping_new (V4 192 0 2 1, 3478) (replicate 12 7) 0 0"
  let ?r = "mapping_receive (V4 192 0 2 1, 3478)
      (stun_success (replicate 12 7) [xor_mapped_attr 203 0 113 9 40000]) ?m"
  have "sm_address (snd ?r) \<noteq> sm_address ?m" by code_simp
  from mapping_trusts_server_only [OF prod.collapse [symmetric] this] show ?thesis by auto
qed

section \<open>What a peer can become\<close>

type_synonym datagram = "sock_addr \<times> u16 \<times> u32"

definition peer_step :: "datagram \<Rightarrow> peer \<Rightarrow> peer" where
  "peer_step d p = snd (peer_accept (fst d) (fst (snd d)) (snd (snd d)) p)"

text \<open>The datagrams from the peer's host, which alone can move the candidate.\<close>

definition from_host :: "sock_addr \<Rightarrow> datagram list \<Rightarrow> datagram list" where
  "from_host a ds = filter (\<lambda>d. fst (fst d) = fst a) ds"

text \<open>\<open>n\<close> datagrams in sequence from one source and stream, the last with number \<open>q\<close>.\<close>

primrec in_sequence :: "nat \<Rightarrow> sock_addr \<Rightarrow> u16 \<Rightarrow> u32 \<Rightarrow> datagram list" where
  "in_sequence 0 s q i = []"
| "in_sequence (Suc n) s q i = in_sequence n s (q - 1) i @ [(s, q, i)]"

definition learned :: "sock_addr \<Rightarrow> bool \<Rightarrow> datagram list \<Rightarrow> peer \<Rightarrow> bool" where
  "learned a e ds p \<longleftrightarrow>
     pe_enabled p = e \<and> fst (pe_address p) = fst a \<and>
     (pe_address p \<noteq> a \<longrightarrow> e \<and> pe_pinned p \<and>
        (\<exists>before after q i. from_host a ds = before @ in_sequence 3 (pe_address p) q i @ after \<and>
           (\<forall>d \<in> set before. fst d \<noteq> a))) \<and>
     (\<not> pe_pinned p \<longrightarrow> (\<forall>d \<in> set ds. fst d \<noteq> a) \<and>
        (case pe_candidate p of None \<Rightarrow> True
         | Some (s, q, i, n) \<Rightarrow> n < 3 \<and> 0 < n \<and>
             (e \<longrightarrow> (\<exists>before. from_host a ds = before @ in_sequence n s q i))))"

lemma from_host_simps [simp]:
  "from_host a [] = []"
  "from_host a (ds @ es) = from_host a ds @ from_host a es"
  "from_host a (d # ds) = (if fst (fst d) = fst a then d # from_host a ds else from_host a ds)"
  by (simp_all add: from_host_def)

lemma in_from_host: "d \<in> set (from_host a ds) \<Longrightarrow> d \<in> set ds"
  by (simp add: from_host_def)

lemma learned_pinned_step:
  assumes "learned a e ds p" "pe_pinned p"
  shows "learned a e (ds @ [d]) (peer_step d p)"
proof -
  obtain s q i where d: "d = (s, q, i)" by (cases d)
  have "peer_step d p = p"
    using assms(2) by (cases "s = pe_address p") (simp_all add: d peer_step_def peer_accept_def)
  moreover have "learned a e (ds @ [d]) p"
    using assms by (fastforce simp: learned_def)
  ultimately show ?thesis by simp
qed

lemma learned_step:
  assumes l: "learned a e ds p"
  shows "learned a e (ds @ [d]) (peer_step d p)"
proof (cases "pe_pinned p")
  case False
  obtain s q i where d: "d = (s, q, i)" by (cases d)
  have adr: "pe_address p = a" "pe_enabled p = e" and none: "\<forall>d \<in> set ds. fst d \<noteq> a"
    and cand: "case pe_candidate p of None \<Rightarrow> True
         | Some (s, q, i, n) \<Rightarrow> n < 3 \<and> 0 < n \<and> (e \<longrightarrow> (\<exists>before. from_host a ds = before @ in_sequence n s q i))"
    using l False by (auto simp: learned_def)
  show ?thesis
  proof (cases "s = a \<or> \<not> e \<or> fst s \<noteq> fst a")
    case True
    with l False adr show ?thesis
      by (auto simp: d peer_step_def peer_accept_def learned_def split: option.splits)
  next
    case move: False
    define n where "n = candidate_count p s q i"
    have n: "0 < n" "n \<le> 3"
      using cand by (auto simp: n_def candidate_count_def split: option.splits if_splits)
    have seq: "\<exists>before. from_host a (ds @ [d]) = before @ in_sequence n s q i"
    proof (cases "pe_candidate p")
      case None
      then show ?thesis using move by (simp add: n_def candidate_count_def d)
    next
      case (Some c)
      obtain s' q' i' m where c: "c = (s', q', i', m)" by (cases c)
      show ?thesis
      proof (cases "s' = s \<and> i' = i \<and> q = q' + 1")
        case True
        with cand Some c move obtain before where "from_host a ds = before @ in_sequence m s (q - 1) i"
          by auto
        with True Some c move show ?thesis by (simp add: n_def candidate_count_def d)
      next
        case False
        with Some c move show ?thesis by (auto simp: n_def candidate_count_def d)
      qed
    qed
    have step: "peer_step d p = (if n < 3 then p\<lparr>pe_candidate := Some (s, q, i, n)\<rparr>
        else p\<lparr>pe_candidate := Some (s, q, i, n), pe_address := s, pe_pinned := True\<rparr>)"
      using move False adr by (auto simp: d peer_step_def peer_accept_def n_def Let_def)
    show ?thesis
    proof (cases "n < 3")
      case True
      with step adr none seq n move show ?thesis by (simp add: learned_def d)
    next
      case three: False
      with n have n3: "n = 3" by simp
      with seq obtain before where b: "from_host a (ds @ [d]) = before @ in_sequence 3 s q i" by auto
      have "\<forall>x \<in> set (from_host a (ds @ [d])). fst x \<noteq> a"
        using none move by (auto dest: in_from_host simp: d)
      with b have "\<forall>x \<in> set before. fst x \<noteq> a" by auto
      with b have "\<exists>before after q i. from_host a (ds @ [d]) = before @ in_sequence 3 s q i @ after \<and>
           (\<forall>d \<in> set before. fst d \<noteq> a)"
        by (intro exI [of _ before] exI [of _ "[]"] exI [of _ q] exI [of _ i]) simp
      with step three adr move show ?thesis by (simp add: learned_def del: from_host_simps)
    qed
  qed
qed (rule learned_pinned_step [OF l])

lemma learned_run: "learned a e ds (run peer_step ds (peer_new a e))"
proof (induction ds rule: rev_induct)
  case Nil
  show ?case by (simp add: learned_def peer_new_def)
next
  case (snoc d ds)
  from learned_step [OF this] show ?case by (simp add: run_append)
qed

text \<open>A pinned peer never moves, and its host never changes.\<close>

interpretation peer_system: graded_system peer_step "\<lambda>_. True" "\<lambda>_ _. True" pe_pinned
proof
  show "True \<Longrightarrow> True \<Longrightarrow> pe_pinned s \<le> pe_pinned (peer_step d s)" for s d
    by (cases d) (simp add: peer_step_def peer_accept_def Let_def)
qed simp

text \<open>
  C40: A call accepts media only from the negotiated host, and moves to another port only on
  evidence. Whatever datagrams arrive, in whatever order and from wherever, the peer address keeps
  the host that was negotiated; if its port has changed then learning was enabled, the peer is
  pinned, and three datagrams with consecutive sequence numbers (modulo 2^16) of one stream came
  from exactly that address, uninterrupted among the datagrams of that host and before any datagram
  from the negotiated address.
\<close>

theorem peer_learns_on_evidence:
  assumes "p = run peer_step ds (peer_new a enabled)"
  shows "fst (pe_address p) = fst a \<and>
    (pe_address p \<noteq> a \<longrightarrow> enabled \<and> pe_pinned p \<and>
      (\<exists>before after q i. from_host a ds =
         before @ [(pe_address p, q - 2, i), (pe_address p, q - 1, i), (pe_address p, q, i)] @ after \<and>
         (\<forall>d \<in> set before. fst d \<noteq> a)))"
proof -
  have "in_sequence 3 s q i = [(s, q - 2, i), (s, q - 1, i), (s, q, i)]" for s q i
    by (simp add: numeral_3_eq_3 diff_diff_eq)
  with learned_run [of a enabled ds] show ?thesis
    unfolding assms learned_def by auto
qed

theorem peer_learns_on_evidence_witness:
  "\<exists>before after q i. from_host (V4 192 0 2 9, 4000)
      [((V4 192 0 2 9, 5000), 65534, 1), ((V4 198 51 100 1, 9), 7, 1), ((V4 192 0 2 9, 5000), 65535, 1),
       ((V4 192 0 2 9, 5000), 0, 1)] =
    before @ [((V4 192 0 2 9, 5000), q - 2, i), ((V4 192 0 2 9, 5000), q - 1, i), ((V4 192 0 2 9, 5000), q, i)] @ after"
proof -
  let ?ds = "[((V4 192 0 2 9, 5000), 65534, 1), ((V4 198 51 100 1, 9), 7, 1), ((V4 192 0 2 9, 5000), 65535, 1),
       ((V4 192 0 2 9, 5000), 0, 1)] :: datagram list"
  let ?p = "run peer_step ?ds (peer_new (V4 192 0 2 9, 4000) True)"
  have adr: "pe_address ?p = (V4 192 0 2 9, 5000)" by code_simp
  have ne: "pe_address ?p \<noteq> (V4 192 0 2 9, 4000)" by code_simp
  from peer_learns_on_evidence [OF refl, of ?ds "(V4 192 0 2 9, 4000)" True] ne
  show ?thesis unfolding adr by blast
qed

text \<open>
  Once pinned, forever pinned: after a datagram was accepted, no later datagram from any other
  address is accepted or changes where media is sent.
\<close>

theorem peer_pinned_is_final:
  assumes "pe_pinned p"
  shows "pe_address (run peer_step ds p) = pe_address p \<and> pe_pinned (run peer_step ds p) \<and>
    fst (peer_accept source sequence stream (run peer_step ds p)) = (source = pe_address p)"
proof -
  have "peer_step d p = p" for d
    using assms by (cases d; cases "fst d = pe_address p") (simp_all add: peer_step_def peer_accept_def)
  then have "run peer_step ds p = p" by (induction ds) simp_all
  moreover have "pe_pinned p \<le> pe_pinned (run peer_step ds p)"
    by (rule peer_system.grade_run_always) simp_all
  ultimately show ?thesis using assms by (simp add: peer_accept_def)
qed

theorem peer_pinned_is_final_witness:
  "pe_address (run peer_step [((V4 192 0 2 9, 5000), 1, 1), ((V4 192 0 2 9, 5000), 2, 1), ((V4 192 0 2 9, 5000), 3, 1)]
     (peer_step ((V4 192 0 2 9, 4000), 9, 9) (peer_new (V4 192 0 2 9, 4000) True))) = (V4 192 0 2 9, 4000)"
proof -
  let ?p = "peer_step ((V4 192 0 2 9, 4000), 9, 9) (peer_new (V4 192 0 2 9, 4000) True)"
  have "pe_pinned ?p" "pe_address ?p = (V4 192 0 2 9, 4000)" by code_simp+
  with peer_pinned_is_final [of ?p "[((V4 192 0 2 9, 5000), 1, 1), ((V4 192 0 2 9, 5000), 2, 1),
      ((V4 192 0 2 9, 5000), 3, 1)]"] show ?thesis by (simp del: run_Cons)
qed

end
