(* ===== verification/Sdp.thy ===== *)
theory Sdp
  imports NativeTypes
begin

text \<open>
  Session descriptions (\<open>sdp.rs\<close>, codecs of \<open>g711.rs\<close>): printing of offers and answers, the line
  parser and the choice of a compatible medium; the round trip from a printed description to what
  the peer's parser reads, and the agreement of both ends after an answer.
\<close>

section \<open>Media (sdp.rs, g711.rs)\<close>

datatype g711 = Pcma | Pcmu

definition payload_type :: "g711 \<Rightarrow> nat" where
  "payload_type c = (case c of Pcma \<Rightarrow> 8 | Pcmu \<Rightarrow> 0)"

datatype media_kind = KAudio | KT38

text \<open>\<open>RAudio address codec\<close> and \<open>RT38 address max_datagram bit_rate\<close>.\<close>

datatype remote_media =
    RAudio sock_addr g711
  | RT38 sock_addr nat nat

definition remote_kind :: "remote_media \<Rightarrow> media_kind" where
  "remote_kind m = (case m of RAudio _ _ \<Rightarrow> KAudio | RT38 _ _ _ \<Rightarrow> KT38)"

record local_media =
  lm_ip :: ip_addr
  lm_audio_port :: u16
  lm_fax_port :: u16
  lm_session :: nat
  lm_version :: nat

definition crlf :: utext where
  "crlf = [13, 10]"

definition show_port :: "u16 \<Rightarrow> utext" where
  "show_port p = to_decimal (unat p)"

definition sdp_header :: "local_media \<Rightarrow> utext" where
  "sdp_header l =
     (let family = (case lm_ip l of V4 _ _ _ _ \<Rightarrow> lit ''IP4'' | V6 _ \<Rightarrow> lit ''IP6'');
          ip = show_ip (lm_ip l)
      in lit ''v=0'' @ crlf @
         lit ''o=faxe '' @ to_decimal (lm_session l) @ lit '' '' @ to_decimal (lm_version l) @
           lit '' IN '' @ family @ lit '' '' @ ip @ crlf @
         lit ''s=Faxe'' @ crlf @
         lit ''c=IN '' @ family @ lit '' '' @ ip @ crlf @
         lit ''t=0 0'' @ crlf)"

definition sdp_t38 :: "local_media \<Rightarrow> nat \<Rightarrow> utext" where
  "sdp_t38 l bit_rate =
     lit ''m=image '' @ show_port (lm_fax_port l) @ lit '' udptl t38'' @ crlf @
     lit ''a=T38FaxVersion:0'' @ crlf @
     lit ''a=T38MaxBitRate:'' @ to_decimal bit_rate @ crlf @
     lit ''a=T38FaxRateManagement:transferredTCF'' @ crlf @
     lit ''a=T38FaxMaxBuffer:2000'' @ crlf @
     lit ''a=T38FaxMaxDatagram:1200'' @ crlf @
     lit ''a=T38FaxUdpEC:t38UDPRedundancy'' @ crlf"

definition sdp_offer :: "local_media \<Rightarrow> media_kind \<Rightarrow> utext" where
  "sdp_offer l kind =
     sdp_header l @
     (case kind of
        KAudio \<Rightarrow>
          lit ''m=audio '' @ show_port (lm_audio_port l) @ lit '' RTP/AVP 8 0'' @ crlf @
          lit ''a=rtpmap:8 PCMA/8000'' @ crlf @ lit ''a=rtpmap:0 PCMU/8000'' @ crlf @
          lit ''a=ptime:20'' @ crlf @ lit ''a=sendrecv'' @ crlf
      | KT38 \<Rightarrow> sdp_t38 l 14400)"

section \<open>Parsing\<close>

record media =
  md_name :: utext
  md_port :: nat
  md_protocol :: utext
  md_formats :: "utext list"
  md_connection :: "ip_addr option"
  md_attributes :: "utext list"

record session =
  ss_connection :: "ip_addr option"
  ss_media :: "media list"

text \<open>\<open>last_mut\<close>: change the last medium, if there is one.\<close>

definition map_last :: "('a \<Rightarrow> 'a) \<Rightarrow> 'a list \<Rightarrow> 'a list" where
  "map_last f xs = (if xs = [] then [] else butlast xs @ [f (last xs)])"

definition parse_media_line :: "utext \<Rightarrow> session \<Rightarrow> native_error + session" where
  "parse_media_line v s =
     (let parts = split_whitespace v
      in if length parts < 4 then Inl (NSip (lit ''Malformed SDP media line''))
         else (case parse_uint 65535 (parts ! 1) of
                 None \<Rightarrow> Inl (NSip (lit ''Invalid SDP port''))
               | Some port \<Rightarrow>
                   Inr (s\<lparr>ss_media := ss_media s @
                     [\<lparr>md_name = parts ! 0, md_port = port, md_protocol = parts ! 2,
                       md_formats = drop 3 parts, md_connection = None, md_attributes = []\<rparr>]\<rparr>)))"

definition parse_connection_line :: "utext \<Rightarrow> session \<Rightarrow> native_error + session" where
  "parse_connection_line v s =
     (let parts = split_whitespace v
      in case (if 2 < length parts then parse_ip (parts ! 2) else None) of
           None \<Rightarrow> Inl (NSip (lit ''SDP requires a unicast IP address''))
         | Some address \<Rightarrow>
             Inr (if ss_media s = [] then s\<lparr>ss_connection := Some address\<rparr>
                  else s\<lparr>ss_media := map_last (\<lambda>m. m\<lparr>md_connection := Some address\<rparr>) (ss_media s)\<rparr>))"

definition parse_line :: "utext \<Rightarrow> session \<Rightarrow> native_error + session" where
  "parse_line line s =
     (case split_once 61 line of
        None \<Rightarrow> Inr s
      | Some (key, v) \<Rightarrow>
          if key = lit ''m'' then parse_media_line v s
          else if key = lit ''c'' then parse_connection_line v s
          else if key = lit ''a''
          then Inr (s\<lparr>ss_media := map_last (\<lambda>m. m\<lparr>md_attributes := md_attributes m @ [v]\<rparr>) (ss_media s)\<rparr>)
          else Inr s)"

primrec parse_lines :: "utext list \<Rightarrow> session \<Rightarrow> native_error + session" where
  "parse_lines [] s = Inr s"
| "parse_lines (l # ls) s = res_bind (parse_line l s) (parse_lines ls)"

definition session_parse :: "utext \<Rightarrow> native_error + session" where
  "session_parse sdp =
     parse_lines (map trim (lines sdp)) \<lparr>ss_connection = None, ss_media = []\<rparr>"

section \<open>Choosing a medium\<close>

text \<open>\<open>Media::attr\<close>: the value after the colon of the first attribute with the name.\<close>

primrec find_attr :: "utext \<Rightarrow> utext list \<Rightarrow> utext option" where
  "find_attr name [] = None"
| "find_attr name (a # as) =
     (case split_once 58 a of
        Some (key, v) \<Rightarrow> if eq_ignore_ascii_case key name then Some v else find_attr name as
      | None \<Rightarrow> find_attr name as)"

definition attr_is_not :: "media \<Rightarrow> string \<Rightarrow> string \<Rightarrow> bool" where
  "attr_is_not m name v =
     (case find_attr (lit name) (md_attributes m) of
        None \<Rightarrow> False | Some s \<Rightarrow> \<not> eq_ignore_ascii_case s (lit v))"

definition attr_or :: "media \<Rightarrow> string \<Rightarrow> string \<Rightarrow> utext" where
  "attr_or m name v = (case find_attr (lit name) (md_attributes m) of None \<Rightarrow> lit v | Some s \<Rightarrow> s)"

definition t38_rate :: "nat \<Rightarrow> nat option" where
  "t38_rate maximum =
     (if 14400 \<le> maximum then Some 14400 else if 9600 \<le> maximum then Some 9600
      else if 4800 \<le> maximum then Some 4800 else None)"

text \<open>The T.38 arm of \<open>select\<close>: \<open>Inr None\<close> is \<open>continue\<close>.\<close>

definition select_t38 :: "sock_addr \<Rightarrow> media \<Rightarrow> native_error + remote_media option" where
  "select_t38 address m =
     (if attr_is_not m ''T38FaxRateManagement'' ''transferredTCF'' \<or>
         attr_is_not m ''T38FaxUdpEC'' ''t38UDPRedundancy''
      then Inr None
      else (case parse_uint (2 ^ 64 - 1) (attr_or m ''T38FaxMaxDatagram'' ''400'') of
        None \<Rightarrow> Inl (NSip (lit ''Invalid T.38 datagram limit''))
      | Some d \<Rightarrow>
          let max_datagram = min d 1200
          in if max_datagram < 64 then Inr None
             else (case parse_uint (2 ^ 32 - 1) (attr_or m ''T38MaxBitRate'' ''14400'') of
               None \<Rightarrow> Inl (NSip (lit ''Invalid T.38 bit rate''))
             | Some maximum \<Rightarrow>
                 Inr (map_option (RT38 address max_datagram) (t38_rate maximum)))))"

primrec first_codec :: "utext list \<Rightarrow> g711 option" where
  "first_codec [] = None"
| "first_codec (f # fs) =
     (if f = lit ''8'' then Some Pcma else if f = lit ''0'' then Some Pcmu else first_codec fs)"

definition media_usable :: "ip_addr option \<Rightarrow> media \<Rightarrow> ip_addr option" where
  "media_usable conn m =
     (if md_port m = 0 \<or> list_ex (\<lambda>a. a = lit ''inactive'' \<or> a = lit ''sendonly'') (md_attributes m)
      then None
      else (case (case md_connection m of Some ip \<Rightarrow> Some ip | None \<Rightarrow> conn) of
              None \<Rightarrow> None
            | Some ip \<Rightarrow> if is_unspecified ip \<or> is_multicast ip then None else Some ip))"

definition select_media ::
  "bool \<Rightarrow> bool \<Rightarrow> ip_addr option \<Rightarrow> media \<Rightarrow> native_error + remote_media option" where
  "select_media allow_audio allow_t38 conn m =
     (case media_usable conn m of
        None \<Rightarrow> Inr None
      | Some ip \<Rightarrow>
          let address = (ip, word_of_nat (md_port m));
              protocol = to_ascii_lowercase (md_protocol m)
          in if md_name m = lit ''image'' \<and> protocol = lit ''udptl'' \<and> allow_t38 \<and>
                list_ex (\<lambda>f. eq_ignore_ascii_case f (lit ''t38'')) (md_formats m)
             then select_t38 address m
             else if md_name m = lit ''audio'' \<and> protocol = lit ''rtp/avp'' \<and> allow_audio
             then Inr (map_option (RAudio address) (first_codec (md_formats m)))
             else Inr None)"

primrec select_from ::
  "bool \<Rightarrow> bool \<Rightarrow> ip_addr option \<Rightarrow> nat \<Rightarrow> media list \<Rightarrow> native_error + (nat \<times> remote_media)" where
  "select_from allow_audio allow_t38 conn i [] =
     Inl (NSip (lit ''Peer offered no compatible G.711 or T.38 media''))"
| "select_from allow_audio allow_t38 conn i (m # ms) =
     (case select_media allow_audio allow_t38 conn m of
        Inl e \<Rightarrow> Inl e
      | Inr (Some r) \<Rightarrow> Inr (i, r)
      | Inr None \<Rightarrow> select_from allow_audio allow_t38 conn (Suc i) ms)"

definition session_select :: "session \<Rightarrow> bool \<Rightarrow> bool \<Rightarrow> native_error + (nat \<times> remote_media)" where
  "session_select s allow_audio allow_t38 =
     select_from allow_audio allow_t38 (ss_connection s) 0 (ss_media s)"

definition sdp_remote :: "utext \<Rightarrow> native_error + remote_media" where
  "sdp_remote sdp =
     res_bind (session_parse sdp) (\<lambda>s. res_bind (session_select s True True) (\<lambda>r. Inr (snd r)))"

section \<open>Answering\<close>

definition codec_name :: "g711 \<Rightarrow> utext" where
  "codec_name c = (case c of Pcma \<Rightarrow> lit ''PCMA'' | Pcmu \<Rightarrow> lit ''PCMU'')"

definition answer_selected :: "local_media \<Rightarrow> remote_media \<Rightarrow> utext" where
  "answer_selected l m =
     (case m of
        RAudio _ codec \<Rightarrow>
          (let pt = to_decimal (payload_type codec)
           in lit ''m=audio '' @ show_port (lm_audio_port l) @ lit '' RTP/AVP '' @ pt @ crlf @
              lit ''a=rtpmap:'' @ pt @ lit '' '' @ codec_name codec @ lit ''/8000'' @ crlf @
              lit ''a=ptime:20'' @ crlf @ lit ''a=sendrecv'' @ crlf)
      | RT38 _ _ bit_rate \<Rightarrow> sdp_t38 l bit_rate)"

definition answer_rejected :: "media \<Rightarrow> utext" where
  "answer_rejected m =
     lit ''m='' @ md_name m @ lit '' 0 '' @ md_protocol m @ lit '' '' @ join (lit '' '') (md_formats m) @ crlf"

primrec answer_media :: "local_media \<Rightarrow> nat \<Rightarrow> remote_media \<Rightarrow> nat \<Rightarrow> media list \<Rightarrow> utext" where
  "answer_media l sel r i [] = []"
| "answer_media l sel r i (m # ms) =
     (if i \<noteq> sel then answer_rejected m else answer_selected l r) @ answer_media l sel r (Suc i) ms"

definition sdp_answer :: "local_media \<Rightarrow> utext \<Rightarrow> bool \<Rightarrow> bool \<Rightarrow> native_error + utext" where
  "sdp_answer l offer allow_audio allow_t38 =
     res_bind (session_parse offer) (\<lambda>s.
     res_bind (session_select s allow_audio allow_t38) (\<lambda>sel.
     Inr (sdp_header l @ answer_media l (fst sel) (snd sel) 0 (ss_media s))))"

section \<open>Printed lines and what the parser reads\<close>

text \<open>A text of lines, each ended by a carriage return and a newline.\<close>

definition text_of :: "utext list \<Rightarrow> utext" where
  "text_of ls = concat (map (\<lambda>l. l @ crlf) ls)"

lemma text_of_simps [simp]:
  "text_of [] = []" "text_of (l # ls) = l @ crlf @ text_of ls"
  "text_of (as @ bs) = text_of as @ text_of bs"
  by (simp_all add: text_of_def)

definition clean_line :: "utext \<Rightarrow> bool" where
  "clean_line l \<longleftrightarrow> 10 \<notin> set l \<and> l \<noteq> [] \<and> \<not> is_whitespace (hd l) \<and> \<not> is_whitespace (last l)"

lemma lines_text_of: "list_all clean_line ls \<Longrightarrow> map trim (lines (text_of ls)) = ls"
  by (induction ls) (auto simp: clean_line_def crlf_def lines_crlf trim_id)

lemma session_parse_text_of:
  "list_all clean_line ls \<Longrightarrow>
   session_parse (text_of ls) = parse_lines ls \<lparr>ss_connection = None, ss_media = []\<rparr>"
  by (simp add: session_parse_def lines_text_of)

lemma session_parse_two:
  "list_all clean_line as \<Longrightarrow> list_all clean_line bs \<Longrightarrow>
   session_parse (text_of as @ text_of bs) = parse_lines (as @ bs) \<lparr>ss_connection = None, ss_media = []\<rparr>"
  using session_parse_text_of [of "as @ bs"] by simp

definition word_ok :: "utext \<Rightarrow> bool" where
  "word_ok w \<longleftrightarrow> w \<noteq> [] \<and> (\<forall>c \<in> set w. \<not> is_whitespace c)"

lemma split_whitespace_join:
  "list_all word_ok ws \<Longrightarrow> split_whitespace (join [32] ws) = ws"
proof (induction "[32] :: utext" ws rule: join.induct)
  case 1
  then show ?case by (simp add: split_whitespace_def)
next
  case (2 p)
  then show ?case by (simp add: word_ok_def split_whitespace_last)
next
  case (3 p q ps)
  then have "split_whitespace (p @ 32 # join [32] (q # ps)) = p # split_whitespace (join [32] (q # ps))"
    by (intro split_whitespace_cons) (auto simp: word_ok_def is_whitespace_def)
  with 3 show ?case by simp
qed

lemma words_acc_ok:
  "\<forall>c \<in> set a. \<not> is_whitespace c \<Longrightarrow> w \<in> set (words_acc a s) \<Longrightarrow> word_ok w"
proof (induction a s rule: words_acc.induct)
  case (1 a)
  then show ?case by (simp add: word_ok_def split: if_splits)
next
  case (2 a c s)
  show ?case
  proof (cases "is_whitespace c")
    case True
    then have "w = rev a \<and> a \<noteq> [] \<or> w \<in> set (words_acc [] s)"
      using "2.prems"(2) by (simp split: if_splits)
    with True "2.IH"(1,2) "2.prems"(1) show ?thesis by (auto simp: word_ok_def)
  next
    case False
    with 2 show ?thesis by simp
  qed
qed

lemma split_whitespace_words: "list_all word_ok (split_whitespace s)"
  using words_acc_ok [of "[]"] by (auto simp: split_whitespace_def list_all_iff)

text \<open>The parser keeps the words of a media line free of white space.\<close>

definition media_ok :: "media \<Rightarrow> bool" where
  "media_ok m \<longleftrightarrow> word_ok (md_name m) \<and> word_ok (md_protocol m) \<and>
     list_all word_ok (md_formats m) \<and> md_formats m \<noteq> []"

lemma map_last_all: "list_all P xs \<Longrightarrow> (\<And>x. P x \<Longrightarrow> P (f x)) \<Longrightarrow> list_all P (map_last f xs)"
  by (cases xs rule: rev_cases) (auto simp: map_last_def)

lemma parse_line_media_ok:
  assumes "parse_line l s = Inr t" "list_all media_ok (ss_media s)"
  shows "list_all media_ok (ss_media t)"
proof (cases "split_once 61 l")
  case (Some kv)
  obtain k v where kv: "kv = (k, v)" by (cases kv)
  let ?p = "split_whitespace v"
  have ws: "list_all word_ok ?p" by (rule split_whitespace_words)
  have med: "media_ok \<lparr>md_name = ?p ! 0, md_port = n, md_protocol = ?p ! 2,
      md_formats = drop 3 ?p, md_connection = None, md_attributes = []\<rparr>" if "4 \<le> length ?p" for n
  proof -
    have "word_ok (?p ! 0)" "word_ok (?p ! 2)"
      using ws that nth_mem [of 0 ?p] nth_mem [of 2 ?p] by (simp_all only: list_all_iff)
    moreover have "list_all word_ok (drop 3 ?p)" using ws by (auto simp: list_all_iff dest: in_set_dropD)
    ultimately show ?thesis using that by (simp add: media_ok_def)
  qed
  consider "k = lit ''m''" | "k = lit ''c''" | "k = lit ''a''" | "k \<notin> {lit ''m'', lit ''c'', lit ''a''}"
    by auto
  then show ?thesis
  proof cases
    case 1
    with assms Some kv med show ?thesis
      by (auto simp: parse_line_def parse_media_line_def Let_def not_less split: if_splits option.splits)
  next
    case 2
    with assms Some kv show ?thesis
      by (auto simp: parse_line_def parse_connection_line_def Let_def media_ok_def
          split: if_splits option.splits intro!: map_last_all)
  next
    case 3
    with assms Some kv show ?thesis
      by (auto simp: parse_line_def media_ok_def intro!: map_last_all)
  qed (use assms Some kv in \<open>auto simp: parse_line_def\<close>)
qed (use assms in \<open>simp add: parse_line_def\<close>)

lemma parse_lines_media_ok:
  "parse_lines ls s = Inr t \<Longrightarrow> list_all media_ok (ss_media s) \<Longrightarrow> list_all media_ok (ss_media t)"
  by (induction ls arbitrary: s) (auto simp: res_bind_Inr_iff dest: parse_line_media_ok)

lemma session_parse_media_ok: "session_parse sdp = Inr s \<Longrightarrow> list_all media_ok (ss_media s)"
  unfolding session_parse_def by (erule parse_lines_media_ok) simp

section \<open>Lines with a fixed key\<close>

lemma parse_m_line:
  assumes "list_all word_ok ws" "4 \<le> length ws"
  shows "parse_line (lit ''m='' @ join [32] ws) s =
    (case parse_uint 65535 (ws ! 1) of
       None \<Rightarrow> Inl (NSip (lit ''Invalid SDP port''))
     | Some port \<Rightarrow> Inr (s\<lparr>ss_media := ss_media s @
         [\<lparr>md_name = ws ! 0, md_port = port, md_protocol = ws ! 2, md_formats = drop 3 ws,
           md_connection = None, md_attributes = []\<rparr>]\<rparr>))"
proof -
  have "split_once 61 (lit ''m='' @ join [32] ws) = Some (lit ''m'', join [32] ws)"
    by (simp add: lit_def)
  with assms show ?thesis
    by (simp add: parse_line_def parse_media_line_def split_whitespace_join)
qed

lemma parse_a_line:
  "parse_line (lit ''a='' @ v) s =
     Inr (s\<lparr>ss_media := map_last (\<lambda>m. m\<lparr>md_attributes := md_attributes m @ [v]\<rparr>) (ss_media s)\<rparr>)"
proof -
  have "split_once 61 (lit ''a='' @ v) = Some (lit ''a'', v)" by (simp add: lit_def)
  then show ?thesis by (simp add: parse_line_def)
qed

text \<open>Attribute lines after a medium collect in it.\<close>

lemma parse_a_lines:
  "parse_lines (map (\<lambda>v. lit ''a='' @ v) vs @ ls) (s\<lparr>ss_media := ms @ [m]\<rparr>) =
     parse_lines ls (s\<lparr>ss_media := ms @ [m\<lparr>md_attributes := md_attributes m @ vs\<rparr>]\<rparr>)"
proof (induction vs arbitrary: m)
  case (Cons v vs)
  from Cons.IH [of "m\<lparr>md_attributes := md_attributes m @ [v]\<rparr>"] show ?case
    by (simp only: list.map append_Cons parse_lines.simps parse_a_line)
       (simp add: map_last_def)
qed simp

lemma parse_other_line:
  "split_once 61 l = Some (k, v) \<Longrightarrow> k \<notin> {lit ''m'', lit ''c'', lit ''a''} \<Longrightarrow> parse_line l s = Inr s"
  by (simp add: parse_line_def)

lemma clean_lineI:
  "list_all (\<lambda>c. c \<noteq> 10) l \<Longrightarrow> l \<noteq> [] \<Longrightarrow> \<not> is_whitespace (hd l) \<Longrightarrow> \<not> is_whitespace (last l) \<Longrightarrow>
   clean_line l"
  unfolding clean_line_def list_all_iff by blast

lemma is_whitespace_simps [simp]:
  "is_whitespace 10" "is_whitespace 13" "is_whitespace 32" "\<not> is_whitespace 61" "\<not> is_whitespace 46"
  "\<not> is_whitespace 109" "\<not> is_whitespace 97" "\<not> is_whitespace 99"
  by (simp_all add: is_whitespace_def)

lemma is_whitespace_graphic: "32 < c \<Longrightarrow> c < 127 \<Longrightarrow> \<not> is_whitespace c"
  by (simp add: is_whitespace_def)

lemma word_ok_no_newline: "word_ok w \<Longrightarrow> list_all (\<lambda>c. c \<noteq> 10) w"
  unfolding word_ok_def list_all_iff using is_whitespace_simps(1) by blast

lemma word_ok_last: "word_ok w \<Longrightarrow> \<not> is_whitespace (last w)"
  by (simp add: word_ok_def)

lemma join_words_clean:
  "list_all word_ok ws \<Longrightarrow> ws \<noteq> [] \<Longrightarrow>
   list_all (\<lambda>c. c \<noteq> 10) (join [32] ws) \<and> join [32] ws \<noteq> [] \<and> \<not> is_whitespace (last (join [32] ws))"
proof (induction "[32] :: utext" ws rule: join.induct)
  case (2 p)
  then show ?case by (simp add: word_ok_no_newline word_ok_last) (simp add: word_ok_def)
next
  case (3 p q ps)
  then show ?case by (simp add: word_ok_no_newline)
qed simp

lemma clean_prefixed:
  "\<not> is_whitespace k \<Longrightarrow> k \<noteq> 10 \<Longrightarrow> list_all word_ok ws \<Longrightarrow> ws \<noteq> [] \<Longrightarrow>
   clean_line (k # 61 # join [32] ws)"
  using join_words_clean [of ws] by (intro clean_lineI) auto

lemma to_decimal_word [simp]: "word_ok (to_decimal n)"
proof -
  have "\<not> is_whitespace c" if "c \<in> set (to_decimal n)" for c
    using to_decimal_range [OF that] by (intro is_whitespace_graphic) simp_all
  then show ?thesis by (simp add: word_ok_def)
qed

lemma show_port_word [simp]: "word_ok (show_port p)"
  by (simp add: show_port_def)

lemma show_ipv4_word [simp]: "word_ok (show_ip (V4 a b c d))"
proof -
  have "word_ok x \<Longrightarrow> word_ok y \<Longrightarrow> word_ok (x @ 46 # y)" for x y
    by (auto simp: word_ok_def)
  then show ?thesis by (simp add: show_ip_def show_ipv4_def lit_def)
qed

lemma parse_show_port [simp]: "parse_uint 65535 (show_port p) = Some (unat p)"
  using unsigned_less [of p, where 'a = nat] by (simp add: show_port_def parse_to_decimal)

section \<open>Printed descriptions as lines\<close>

definition family_word :: "ip_addr \<Rightarrow> utext" where
  "family_word ip = (case ip of V4 _ _ _ _ \<Rightarrow> lit ''IP4'' | V6 _ \<Rightarrow> lit ''IP6'')"

definition header_lines :: "local_media \<Rightarrow> utext list" where
  "header_lines l =
     [lit ''v='' @ join [32] [lit ''0''],
      lit ''o='' @ join [32] [lit ''faxe'', to_decimal (lm_session l), to_decimal (lm_version l),
        lit ''IN'', family_word (lm_ip l), show_ip (lm_ip l)],
      lit ''s='' @ join [32] [lit ''Faxe''],
      lit ''c='' @ join [32] [lit ''IN'', family_word (lm_ip l), show_ip (lm_ip l)],
      lit ''t='' @ join [32] [lit ''0'', lit ''0'']]"

lemma sdp_header_lines: "sdp_header l = text_of (header_lines l)"
  by (simp add: sdp_header_def header_lines_def family_word_def Let_def lit_def)

definition m_line :: "string \<Rightarrow> u16 \<Rightarrow> string \<Rightarrow> utext list \<Rightarrow> utext" where
  "m_line name port protocol formats =
     lit ''m='' @ join [32] (lit name # show_port port # lit protocol # formats)"

definition a_lines :: "utext list \<Rightarrow> utext list" where
  "a_lines vs = map (\<lambda>v. lit ''a='' @ v) vs"

definition t38_attrs :: "nat \<Rightarrow> utext list" where
  "t38_attrs bit_rate =
     [lit ''T38FaxVersion:0'', lit ''T38MaxBitRate:'' @ to_decimal bit_rate,
      lit ''T38FaxRateManagement:transferredTCF'', lit ''T38FaxMaxBuffer:2000'',
      lit ''T38FaxMaxDatagram:1200'', lit ''T38FaxUdpEC:t38UDPRedundancy'']"

definition t38_lines :: "local_media \<Rightarrow> nat \<Rightarrow> utext list" where
  "t38_lines l bit_rate =
     m_line ''image'' (lm_fax_port l) ''udptl'' [lit ''t38''] # a_lines (t38_attrs bit_rate)"

lemma sdp_t38_lines: "sdp_t38 l bit_rate = text_of (t38_lines l bit_rate)"
  by (simp add: sdp_t38_def t38_lines_def m_line_def a_lines_def t38_attrs_def lit_def)

definition codec_attrs :: "g711 \<Rightarrow> utext list" where
  "codec_attrs c = [lit ''rtpmap:'' @ to_decimal (payload_type c) @ lit '' '' @ codec_name c @ lit ''/8000'',
     lit ''ptime:20'', lit ''sendrecv'']"

definition selected_lines :: "local_media \<Rightarrow> remote_media \<Rightarrow> utext list" where
  "selected_lines l r =
     (case r of
        RAudio _ c \<Rightarrow> m_line ''audio'' (lm_audio_port l) ''RTP/AVP'' [to_decimal (payload_type c)] #
                      a_lines (codec_attrs c)
      | RT38 _ _ bit_rate \<Rightarrow> t38_lines l bit_rate)"

lemma answer_selected_lines: "answer_selected l r = text_of (selected_lines l r)"
  by (cases r) (simp_all add: answer_selected_def selected_lines_def sdp_t38_lines m_line_def
      a_lines_def codec_attrs_def Let_def lit_def)

definition rejected_line :: "media \<Rightarrow> utext" where
  "rejected_line m =
     lit ''m='' @ join [32] (md_name m # lit ''0'' # md_protocol m # md_formats m)"

lemma answer_rejected_line: "media_ok m \<Longrightarrow> answer_rejected m = text_of [rejected_line m]"
  by (cases "md_formats m")
     (simp_all add: answer_rejected_def rejected_line_def media_ok_def lit_def)

primrec answer_lines :: "local_media \<Rightarrow> nat \<Rightarrow> remote_media \<Rightarrow> nat \<Rightarrow> media list \<Rightarrow> utext list" where
  "answer_lines l sel r i [] = []"
| "answer_lines l sel r i (m # ms) =
     (if i \<noteq> sel then [rejected_line m] else selected_lines l r) @ answer_lines l sel r (Suc i) ms"

lemma answer_media_lines:
  "list_all media_ok ms \<Longrightarrow> answer_media l sel r i ms = text_of (answer_lines l sel r i ms)"
  by (induction ms arbitrary: i) (simp_all add: answer_rejected_line answer_selected_lines)

subsection \<open>The lines are clean\<close>

lemma lit_prefix_clean:
  "\<not> is_whitespace k \<Longrightarrow> list_all word_ok ws \<Longrightarrow> ws \<noteq> [] \<Longrightarrow> clean_line (k # 61 # join [32] ws)"
  using is_whitespace_simps(1) by (intro clean_prefixed) auto

lemma lit_word:
  "list_all (\<lambda>c. 32 < (of_char c :: nat) \<and> of_char c < (127::nat)) s \<Longrightarrow> s \<noteq> [] \<Longrightarrow> word_ok (lit s)"
  using is_whitespace_graphic by (auto simp: word_ok_def lit_def list_all_iff)

lemma family_word_ok [simp]: "word_ok (family_word ip)"
  by (cases ip) (auto simp: family_word_def intro!: lit_word)

definition is_v4 :: "ip_addr \<Rightarrow> bool" where
  "is_v4 ip = (case ip of V4 _ _ _ _ \<Rightarrow> True | V6 _ \<Rightarrow> False)"

lemma header_lines_clean:
  assumes "is_v4 (lm_ip l)" shows "list_all clean_line (header_lines l)"
proof -
  have ip: "word_ok (show_ip (lm_ip l))"
    using assms by (cases "lm_ip l") (simp_all add: is_v4_def)
  have w: "word_ok (lit ''0'')" "word_ok (lit ''faxe'')" "word_ok (lit ''IN'')" "word_ok (lit ''Faxe'')"
    by (rule lit_word; simp)+
  have k: "lit ''v='' @ x = 118 # 61 # x" "lit ''o='' @ x = 111 # 61 # x" "lit ''s='' @ x = 115 # 61 # x"
    "lit ''c='' @ x = 99 # 61 # x" "lit ''t='' @ x = 116 # 61 # x" for x
    by (simp_all add: lit_def)
  have c: "clean_line (118 # 61 # join [32] ws)" "clean_line (111 # 61 # join [32] ws)"
    "clean_line (115 # 61 # join [32] ws)" "clean_line (99 # 61 # join [32] ws)"
    "clean_line (116 # 61 # join [32] ws)" if "list_all word_ok ws" "ws \<noteq> []" for ws
    using that by (simp_all add: lit_prefix_clean is_whitespace_def del: join.simps)
  show ?thesis
    unfolding header_lines_def k by (simp add: c ip w del: join.simps)
qed

lemma m_line_clean:
  "word_ok (lit n) \<Longrightarrow> word_ok (lit p) \<Longrightarrow> list_all word_ok fs \<Longrightarrow> clean_line (m_line n port p fs)"
  using lit_prefix_clean [of 109 "lit n # show_port port # lit p # fs"]
  by (simp add: m_line_def lit_def)

lemma rejected_line_clean:
  assumes "media_ok m" shows "clean_line (rejected_line m)"
proof -
  have "word_ok (lit ''0'')" by (rule lit_word; simp)
  with assms show ?thesis
    using lit_prefix_clean [of 109 "md_name m # lit ''0'' # md_protocol m # md_formats m"]
    by (simp add: rejected_line_def media_ok_def lit_def)
qed

definition attr_ok :: "utext \<Rightarrow> bool" where
  "attr_ok v \<longleftrightarrow> v \<noteq> [] \<and> list_all (\<lambda>c. c \<noteq> 10) v \<and> \<not> is_whitespace (last v)"

lemma a_lines_clean: "list_all attr_ok vs \<Longrightarrow> list_all clean_line (a_lines vs)"
proof (induction vs)
  case (Cons v vs)
  have "clean_line (97 # 61 # v)"
    using Cons.prems by (intro clean_lineI) (auto simp: attr_ok_def)
  with Cons show ?case by (simp add: a_lines_def lit_def)
qed (simp add: a_lines_def)

lemma t38_lines_clean: "list_all clean_line (t38_lines l b)"
proof -
  have "word_ok (lit ''image'')" "word_ok (lit ''udptl'')" "word_ok (lit ''t38'')"
    by (rule lit_word; simp)+
  moreover have "list_all attr_ok (t38_attrs b)"
    using word_ok_last [OF to_decimal_word [of b]] word_ok_no_newline [OF to_decimal_word [of b]]
    by (simp add: t38_attrs_def attr_ok_def lit_def is_whitespace_graphic)
  ultimately show ?thesis by (simp add: t38_lines_def m_line_clean a_lines_clean)
qed

lemma selected_lines_clean: "list_all clean_line (selected_lines l r)"
proof (cases r)
  case (RAudio a c)
  have "word_ok (lit ''audio'')" "word_ok (lit ''RTP/AVP'')" by (rule lit_word; simp)+
  moreover have "list_all attr_ok (codec_attrs c)"
    using word_ok_no_newline [OF to_decimal_word [of "payload_type c"]]
    by (cases c) (simp_all add: codec_attrs_def codec_name_def attr_ok_def lit_def is_whitespace_graphic)
  ultimately show ?thesis
    using RAudio by (simp add: selected_lines_def m_line_clean a_lines_clean)
qed (simp add: selected_lines_def t38_lines_clean)

lemma answer_lines_clean:
  "list_all media_ok ms \<Longrightarrow> list_all clean_line (answer_lines l sel r i ms)"
  by (induction ms arbitrary: i) (simp_all add: rejected_line_clean selected_lines_clean)

subsection \<open>What the parser makes of them\<close>

definition t38_media :: "local_media \<Rightarrow> nat \<Rightarrow> media" where
  "t38_media l b = \<lparr>md_name = lit ''image'', md_port = unat (lm_fax_port l), md_protocol = lit ''udptl'',
     md_formats = [lit ''t38''], md_connection = None, md_attributes = t38_attrs b\<rparr>"

definition selected_media :: "local_media \<Rightarrow> remote_media \<Rightarrow> media" where
  "selected_media l r =
     (case r of
        RAudio _ c \<Rightarrow>
          \<lparr>md_name = lit ''audio'', md_port = unat (lm_audio_port l), md_protocol = lit ''RTP/AVP'',
           md_formats = [to_decimal (payload_type c)], md_connection = None,
           md_attributes = codec_attrs c\<rparr>
      | RT38 _ _ b \<Rightarrow> t38_media l b)"

definition rejected_media :: "media \<Rightarrow> media" where
  "rejected_media m = \<lparr>md_name = md_name m, md_port = 0, md_protocol = md_protocol m,
     md_formats = md_formats m, md_connection = None, md_attributes = []\<rparr>"

primrec answered :: "local_media \<Rightarrow> nat \<Rightarrow> remote_media \<Rightarrow> nat \<Rightarrow> media list \<Rightarrow> media list" where
  "answered l sel r i [] = []"
| "answered l sel r i (m # ms) =
     (if i \<noteq> sel then rejected_media m else selected_media l r) # answered l sel r (Suc i) ms"

lemma parse_m_a_lines:
  assumes "word_ok (lit n)" "word_ok (lit p)" "list_all word_ok fs" "fs \<noteq> []"
  shows "res_bind (parse_line (m_line n port p fs) s) (parse_lines (a_lines vs @ ls)) =
    parse_lines ls (s\<lparr>ss_media := ss_media s @
      [\<lparr>md_name = lit n, md_port = unat port, md_protocol = lit p, md_formats = fs,
        md_connection = None, md_attributes = vs\<rparr>]\<rparr>)"
proof -
  have "4 \<le> length (lit n # show_port port # lit p # fs)"
    using assms(4) by (cases fs) simp_all
  then have "parse_line (m_line n port p fs) s =
      Inr (s\<lparr>ss_media := ss_media s @ [\<lparr>md_name = lit n, md_port = unat port, md_protocol = lit p,
        md_formats = fs, md_connection = None, md_attributes = []\<rparr>]\<rparr>)"
    using assms(1-3) parse_m_line [of "lit n # show_port port # lit p # fs" s]
    by (simp add: m_line_def del: join.simps)
  then show ?thesis
    unfolding a_lines_def by (simp add: parse_a_lines [where s = s])
qed

lemma parse_t38_lines:
  "parse_lines (t38_lines l b @ ls) s = parse_lines ls (s\<lparr>ss_media := ss_media s @ [t38_media l b]\<rparr>)"
proof -
  have "word_ok (lit ''image'')" "word_ok (lit ''udptl'')" "word_ok (lit ''t38'')"
    by (rule lit_word; simp)+
  then show ?thesis by (simp add: t38_lines_def t38_media_def parse_m_a_lines)
qed

lemma parse_selected_lines:
  "parse_lines (selected_lines l r @ ls) s =
     parse_lines ls (s\<lparr>ss_media := ss_media s @ [selected_media l r]\<rparr>)"
proof (cases r)
  case (RAudio a c)
  have "word_ok (lit ''audio'')" "word_ok (lit ''RTP/AVP'')" by (rule lit_word; simp)+
  with RAudio show ?thesis by (simp add: selected_lines_def selected_media_def parse_m_a_lines)
qed (simp add: selected_lines_def selected_media_def parse_t38_lines)

lemma parse_rejected_line:
  assumes "media_ok m"
  shows "parse_line (rejected_line m) s = Inr (s\<lparr>ss_media := ss_media s @ [rejected_media m]\<rparr>)"
proof -
  have "word_ok (lit ''0'')" by (rule lit_word; simp)
  moreover have "4 \<le> length (md_name m # lit ''0'' # md_protocol m # md_formats m)"
    using assms by (cases "md_formats m") (simp_all add: media_ok_def)
  moreover have "parse_uint 65535 (lit ''0'') = Some 0" by code_simp
  ultimately show ?thesis
    using assms parse_m_line [of "md_name m # lit ''0'' # md_protocol m # md_formats m" s]
    by (simp add: rejected_line_def rejected_media_def media_ok_def del: join.simps)
qed

lemma parse_answer_lines:
  "list_all media_ok ms \<Longrightarrow>
   parse_lines (answer_lines l sel r i ms) s = Inr (s\<lparr>ss_media := ss_media s @ answered l sel r i ms\<rparr>)"
  by (induction ms arbitrary: i s) (simp_all add: parse_rejected_line parse_selected_lines)

lemma parse_header_lines:
  assumes "is_v4 (lm_ip l)"
  shows "parse_lines (header_lines l @ ls) \<lparr>ss_connection = None, ss_media = []\<rparr> =
     parse_lines ls \<lparr>ss_connection = Some (lm_ip l), ss_media = []\<rparr>"
proof -
  have ip: "word_ok (show_ip (lm_ip l))" "parse_ip (show_ip (lm_ip l)) = Some (lm_ip l)"
    using assms by (cases "lm_ip l"; simp add: is_v4_def parse_ip_show_ipv4)+
  have "split_whitespace (join [32] [lit ''IN'', family_word (lm_ip l), show_ip (lm_ip l)]) =
      [lit ''IN'', family_word (lm_ip l), show_ip (lm_ip l)]"
    using ip lit_word [of "''IN''"] by (intro split_whitespace_join) simp
  then have c: "parse_line (lit ''c='' @ join [32] [lit ''IN'', family_word (lm_ip l), show_ip (lm_ip l)])
      \<lparr>ss_connection = None, ss_media = []\<rparr> = Inr \<lparr>ss_connection = Some (lm_ip l), ss_media = []\<rparr>"
    using ip(2) by (simp add: parse_line_def parse_connection_line_def lit_def del: join.simps)
  have o: "parse_line (lit [k, CHR ''=''] @ x) s = Inr s" if "k \<in> {CHR ''v'', CHR ''o'', CHR ''s'', CHR ''t''}" for k x s
    using that by (auto simp: parse_line_def lit_def)
  show ?thesis unfolding header_lines_def by (simp add: o c del: join.simps)
qed

section \<open>Agreement after an answer\<close>

lemma select_from_range:
  "select_from a t conn i ms = Inr (n, r) \<Longrightarrow>
     i \<le> n \<and> n < i + length ms \<and> select_media a t conn (ms ! (n - i)) = Inr (Some r)"
proof (induction ms arbitrary: i)
  case (Cons m ms)
  show ?case
  proof (cases "select_media a t conn m = Inr None")
    case True
    with Cons.prems Cons.IH [of "Suc i"] show ?thesis by (auto simp: nth_Cons' Suc_diff_le)
  next
    case False
    with Cons.prems show ?thesis by (auto split: sum.splits option.splits)
  qed
qed simp

text \<open>The bit rate of a chosen T.38 medium is one of the three the code knows.\<close>

definition negotiated :: "remote_media \<Rightarrow> bool" where
  "negotiated r = (case r of RAudio _ _ \<Rightarrow> True | RT38 _ d b \<Rightarrow> 64 \<le> d \<and> d \<le> 1200 \<and> b \<in> {4800, 9600, 14400})"

lemma select_media_negotiated: "select_media a t conn m = Inr (Some r) \<Longrightarrow> negotiated r"
  by (auto simp: select_media_def select_t38_def t38_rate_def negotiated_def Let_def
      split: option.splits if_splits)

text \<open>What the peer reads from our description.\<close>

definition local_view :: "local_media \<Rightarrow> remote_media \<Rightarrow> remote_media" where
  "local_view l r =
     (case r of RAudio _ c \<Rightarrow> RAudio (lm_ip l, lm_audio_port l) c
      | RT38 _ _ b \<Rightarrow> RT38 (lm_ip l, lm_fax_port l) 1200 b)"

text \<open>An address a peer can send to: IPv4, neither unspecified nor multicast, with open ports.\<close>

definition reachable :: "local_media \<Rightarrow> bool" where
  "reachable l \<longleftrightarrow> is_v4 (lm_ip l) \<and> \<not> is_unspecified (lm_ip l) \<and> \<not> is_multicast (lm_ip l) \<and>
     lm_audio_port l \<noteq> 0 \<and> lm_fax_port l \<noteq> 0"

lemma select_rejected: "select_media a t conn (rejected_media m) = Inr None"
  by (simp add: select_media_def media_usable_def rejected_media_def)

lemma find_attr_simps:
  "find_attr (lit ''T38FaxRateManagement'') (t38_attrs b) = Some (lit ''transferredTCF'')"
  "find_attr (lit ''T38FaxUdpEC'') (t38_attrs b) = Some (lit ''t38UDPRedundancy'')"
  "find_attr (lit ''T38FaxMaxDatagram'') (t38_attrs b) = Some (lit ''1200'')"
  "find_attr (lit ''T38MaxBitRate'') (t38_attrs b) = Some (to_decimal b)"
  by (simp_all add: t38_attrs_def lit_def eq_ignore_ascii_case_def to_ascii_lowercase_def to_ascii_lower_def)

lemma select_t38_printed:
  assumes "b \<in> {4800, 9600, 14400}"
  shows "select_t38 address (t38_media l b) = Inr (Some (RT38 address 1200 b))"
proof -
  have "parse_uint (2 ^ 64 - 1) (lit ''1200'') = Some 1200" by code_simp
  moreover have "parse_uint (2 ^ 32 - 1) (to_decimal b) = Some b"
    using assms by (intro parse_to_decimal) auto
  moreover have "\<not> attr_is_not (t38_media l b) ''T38FaxRateManagement'' ''transferredTCF''"
    "\<not> attr_is_not (t38_media l b) ''T38FaxUdpEC'' ''t38UDPRedundancy''"
    by (simp_all add: attr_is_not_def t38_media_def find_attr_simps eq_ignore_ascii_case_def)
  moreover have "t38_rate b = Some b" using assms by (auto simp: t38_rate_def)
  moreover have "attr_or (t38_media l b) ''T38FaxMaxDatagram'' ''400'' = lit ''1200''"
    "attr_or (t38_media l b) ''T38MaxBitRate'' ''14400'' = to_decimal b"
    by (simp_all add: attr_or_def t38_media_def find_attr_simps)
  ultimately show ?thesis by (simp add: select_t38_def)
qed

lemma usable_printed:
  assumes "reachable l"
  shows "media_usable (Some (lm_ip l)) (selected_media l r) = Some (lm_ip l)"
proof -
  have "list_ex (\<lambda>a. a = lit ''inactive'' \<or> a = lit ''sendonly'') (codec_attrs c) = False"
    "list_ex (\<lambda>a. a = lit ''inactive'' \<or> a = lit ''sendonly'') (t38_attrs b) = False" for b c
    by (simp_all add: codec_attrs_def t38_attrs_def lit_def)
  with assms show ?thesis
    by (cases r) (simp_all add: reachable_def media_usable_def selected_media_def t38_media_def
        unat_eq_zero)
qed

lemma select_selected:
  assumes "reachable l" "negotiated r"
  shows "select_media True True (Some (lm_ip l)) (selected_media l r) = Inr (Some (local_view l r))"
proof (cases r)
  case (RAudio a c)
  have "first_codec [to_decimal (payload_type c)] = Some c"
    by (cases c) (simp_all add: payload_type_def to_decimal.simps lit_def)
  moreover have "to_ascii_lowercase (lit ''RTP/AVP'') = lit ''rtp/avp''" by code_simp
  ultimately show ?thesis
    using RAudio usable_printed [OF assms(1), of r]
    by (simp add: select_media_def selected_media_def local_view_def)
next
  case (RT38 a d b)
  have "to_ascii_lowercase (lit ''udptl'') = lit ''udptl''"
    "eq_ignore_ascii_case (lit ''t38'') (lit ''t38'')" by code_simp+
  moreover have "b \<in> {4800, 9600, 14400}" using assms(2) RT38 by (simp add: negotiated_def)
  ultimately show ?thesis
    using RT38 usable_printed [OF assms(1), of r] select_t38_printed [of b "(lm_ip l, lm_fax_port l)" l]
    by (simp add: select_media_def selected_media_def local_view_def Let_def)
       (simp add: t38_media_def)
qed

lemma select_answered:
  assumes "reachable l" "negotiated r"
  shows "i \<le> n \<Longrightarrow> n < i + length ms \<Longrightarrow>
    select_from True True (Some (lm_ip l)) i (answered l n r i ms) = Inr (n, local_view l r)"
  by (induction ms arbitrary: i) (auto simp: select_rejected select_selected [OF assms])

lemma length_answered [simp]: "length (answered l n r i ms) = length ms"
  by (induction ms arbitrary: i) auto

lemma nth_answered:
  "k < length ms \<Longrightarrow> answered l n r i ms ! k =
     (if i + k \<noteq> n then rejected_media (ms ! k) else selected_media l r)"
  by (induction ms arbitrary: i k) (auto simp: nth_Cons')

lemma answer_parts:
  assumes "is_v4 (lm_ip l)" "sdp_answer l offer a t = Inr ans"
  obtains s n r where "session_parse offer = Inr s" "session_select s a t = Inr (n, r)"
    "session_parse ans = Inr \<lparr>ss_connection = Some (lm_ip l), ss_media = answered l n r 0 (ss_media s)\<rparr>"
proof -
  obtain s n r where s: "session_parse offer = Inr s" and sel: "session_select s a t = Inr (n, r)"
    and ans: "ans = sdp_header l @ answer_media l n r 0 (ss_media s)"
    using assms(2) by (auto simp: sdp_answer_def res_bind_Inr_iff)
  note ok = session_parse_media_ok [OF s]
  have "ans = text_of (header_lines l @ answer_lines l n r 0 (ss_media s))"
    by (simp add: ans sdp_header_lines answer_media_lines [OF ok])
  then have "session_parse ans = Inr \<lparr>ss_connection = Some (lm_ip l), ss_media = answered l n r 0 (ss_media s)\<rparr>"
    using header_lines_clean [OF assms(1)] answer_lines_clean [OF ok]
    by (simp add: session_parse_two parse_header_lines [OF assms(1)] parse_answer_lines [OF ok])
  with s sel show thesis by (rule that)
qed

text \<open>
  C33: Both ends agree after an answer. When a reachable endpoint answers an offer, the offerer
  that parses the answer gets exactly the medium the answerer selected: the same kind, the same
  codec or T.38 bit rate (one of 4800, 9600, 14400 with the 1200 byte datagram limit), at the
  answerer's own address and port.
\<close>

theorem answer_agrees_with_selection:
  assumes "reachable l" "sdp_answer l offer allow_audio allow_t38 = Inr ans"
  shows "\<exists>s n r. session_parse offer = Inr s \<and>
    session_select s allow_audio allow_t38 = Inr (n, r) \<and> negotiated r \<and>
    sdp_remote ans = Inr (local_view l r)"
proof -
  have v4: "is_v4 (lm_ip l)" using assms(1) by (simp add: reachable_def)
  obtain s n r where s: "session_parse offer = Inr s"
    and sel: "session_select s allow_audio allow_t38 = Inr (n, r)"
    and ans: "session_parse ans =
      Inr \<lparr>ss_connection = Some (lm_ip l), ss_media = answered l n r 0 (ss_media s)\<rparr>"
    using answer_parts [OF v4 assms(2)] by metis
  note range = select_from_range [OF sel [unfolded session_select_def]]
  then have "negotiated r" by (auto intro: select_media_negotiated)
  with range have "sdp_remote ans = Inr (local_view l r)"
    using select_answered [OF assms(1), of r 0 n "ss_media s"]
    by (simp add: sdp_remote_def ans session_select_def)
  with s sel \<open>negotiated r\<close> show ?thesis by blast
qed

definition sample_local :: local_media where
  "sample_local = \<lparr>lm_ip = V4 192 0 2 7, lm_audio_port = 4000, lm_fax_port = 4002,
     lm_session = 17, lm_version = 1\<rparr>"

theorem answer_agrees_with_selection_witness:
  "sdp_remote (projr (sdp_answer sample_local (sdp_offer (sample_local\<lparr>lm_ip := V4 192 0 2 9\<rparr>) KT38) True True)) =
     Inr (RT38 (V4 192 0 2 7, 4002) 1200 14400)"
proof -
  let ?o = "sdp_offer (sample_local\<lparr>lm_ip := V4 192 0 2 9\<rparr>) KT38"
  have "is_ok (sdp_answer sample_local ?o True True)" by code_simp
  then obtain ans where ans: "sdp_answer sample_local ?o True True = Inr ans"
    by (cases "sdp_answer sample_local ?o True True") auto
  have "reachable sample_local" by code_simp
  from answer_agrees_with_selection [OF this ans] obtain s n r where
    s: "session_parse ?o = Inr s" and r: "session_select s True True = Inr (n, r)"
    and rem: "sdp_remote ans = Inr (local_view sample_local r)" by blast
  have "res_bind (session_parse ?o) (\<lambda>s. session_select s True True) =
      Inr (0, RT38 (V4 192 0 2 9, 4002) 1200 14400)" by code_simp
  with s r have "r = RT38 (V4 192 0 2 9, 4002) 1200 14400" by simp
  with rem ans show ?thesis by (simp add: local_view_def sample_local_def)
qed

text \<open>
  An answer mirrors the offer line by line. It parses, carries one medium per medium of the
  offer in the same order, the selected one is the only one with an open port, and every other
  one repeats the name, protocol and formats of the offer with port zero.
\<close>

theorem answer_mirrors_offer:
  assumes "reachable l" "sdp_answer l offer allow_audio allow_t38 = Inr ans"
  shows "\<exists>s n r s'. session_parse offer = Inr s \<and>
    session_select s allow_audio allow_t38 = Inr (n, r) \<and> session_parse ans = Inr s' \<and>
    length (ss_media s') = length (ss_media s) \<and> n < length (ss_media s) \<and>
    (\<forall>k < length (ss_media s).
       (md_port (ss_media s' ! k) \<noteq> 0 \<longleftrightarrow> k = n) \<and>
       (k \<noteq> n \<longrightarrow> ss_media s' ! k = rejected_media (ss_media s ! k)))"
proof -
  have v4: "is_v4 (lm_ip l)" using assms(1) by (simp add: reachable_def)
  obtain s n r where s: "session_parse offer = Inr s"
    and sel: "session_select s allow_audio allow_t38 = Inr (n, r)"
    and ans: "session_parse ans =
      Inr \<lparr>ss_connection = Some (lm_ip l), ss_media = answered l n r 0 (ss_media s)\<rparr>"
    using answer_parts [OF v4 assms(2)] by metis
  have n: "n < length (ss_media s)"
    using select_from_range [OF sel [unfolded session_select_def]] by simp
  have port: "md_port (selected_media l r) \<noteq> 0"
    using assms(1) by (cases r) (simp_all add: reachable_def selected_media_def t38_media_def unat_eq_zero)
  show ?thesis
    by (rule exI [of _ s], rule exI [of _ n], rule exI [of _ r], rule exI, intro conjI, rule s, rule sel, rule ans)
       (use port in \<open>auto simp: nth_answered n rejected_media_def\<close>)
qed

theorem answer_mirrors_offer_witness:
  "\<exists>s'. session_parse (projr (sdp_answer sample_local (sdp_offer sample_local KAudio) True True)) = Inr s' \<and>
     length (ss_media s') = 1"
proof -
  let ?o = "sdp_offer sample_local KAudio"
  have "is_ok (sdp_answer sample_local ?o True True)" by code_simp
  then obtain ans where ans: "sdp_answer sample_local ?o True True = Inr ans"
    by (cases "sdp_answer sample_local ?o True True") auto
  have "reachable sample_local" by code_simp
  from answer_mirrors_offer [OF this ans] obtain s s' where
    s: "session_parse ?o = Inr s" and s': "session_parse ans = Inr s'"
    and len: "length (ss_media s') = length (ss_media s)" by blast
  have "length (ss_media (projr (session_parse ?o))) = 1" by code_simp
  with s s' len ans show ?thesis by simp
qed

lemma offer_read_back:
  assumes "reachable l"
  shows "sdp_remote (sdp_offer l KAudio) = Inr (RAudio (lm_ip l, lm_audio_port l) Pcma)"
    and "sdp_remote (sdp_offer l KT38) = Inr (RT38 (lm_ip l, lm_fax_port l) 1200 14400)"
proof -
  have v4: "is_v4 (lm_ip l)" using assms by (simp add: reachable_def)
  let ?s = "\<lparr>ss_connection = Some (lm_ip l), ss_media = []\<rparr>"
  show "sdp_remote (sdp_offer l KT38) = Inr (RT38 (lm_ip l, lm_fax_port l) 1200 14400)"
  proof -
    let ?r = "RT38 (lm_ip l, lm_fax_port l) 1200 14400"
    have "sdp_offer l KT38 = text_of (header_lines l @ selected_lines l ?r)"
      by (simp add: sdp_offer_def sdp_header_lines selected_lines_def sdp_t38_lines)
    moreover have "parse_lines (selected_lines l ?r) ?s = Inr (?s\<lparr>ss_media := [selected_media l ?r]\<rparr>)"
      using parse_selected_lines [of l ?r "[]" ?s] by simp
    ultimately have "session_parse (sdp_offer l KT38) = Inr (?s\<lparr>ss_media := [selected_media l ?r]\<rparr>)"
      using header_lines_clean [OF v4] selected_lines_clean
      by (simp add: session_parse_two parse_header_lines [OF v4])
    then show ?thesis
      using select_selected [OF assms, of ?r]
      by (simp add: sdp_remote_def session_select_def negotiated_def local_view_def)
  qed
  show "sdp_remote (sdp_offer l KAudio) = Inr (RAudio (lm_ip l, lm_audio_port l) Pcma)"
  proof -
    let ?attrs = "[lit ''rtpmap:8 PCMA/8000'', lit ''rtpmap:0 PCMU/8000'', lit ''ptime:20'', lit ''sendrecv'']"
    let ?fs = "[lit ''8'', lit ''0'']"
    let ?m = "\<lparr>md_name = lit ''audio'', md_port = unat (lm_audio_port l), md_protocol = lit ''RTP/AVP'',
       md_formats = ?fs, md_connection = None, md_attributes = ?attrs\<rparr>"
    let ?ls = "m_line ''audio'' (lm_audio_port l) ''RTP/AVP'' ?fs # a_lines ?attrs"
    have w: "word_ok (lit ''audio'')" "word_ok (lit ''RTP/AVP'')" "list_all word_ok ?fs"
      by (rule lit_word; simp | simp add: lit_word)+
    have "list_all attr_ok ?attrs" by (simp add: attr_ok_def lit_def is_whitespace_graphic)
    then have clean: "list_all clean_line ?ls" using w by (simp add: m_line_clean a_lines_clean)
    have "sdp_offer l KAudio = text_of (header_lines l @ ?ls)"
      by (simp add: sdp_offer_def sdp_header_lines m_line_def a_lines_def lit_def)
    moreover have "list_all clean_line (header_lines l @ ?ls)"
      using header_lines_clean [OF v4] clean by (simp only: list_all_append)
    ultimately have "session_parse (sdp_offer l KAudio) = parse_lines ?ls ?s"
      by (simp only: session_parse_text_of parse_header_lines [OF v4])
    also have "\<dots> = Inr (?s\<lparr>ss_media := [?m]\<rparr>)"
      using parse_m_a_lines [OF w, where vs = ?attrs and ls = "[]" and s = ?s and port = "lm_audio_port l"]
      by simp
    finally have "session_parse (sdp_offer l KAudio) = Inr (?s\<lparr>ss_media := [?m]\<rparr>)" .
    moreover have "select_media True True (Some (lm_ip l)) ?m = Inr (Some (RAudio (lm_ip l, lm_audio_port l) Pcma))"
    proof -
      have "to_ascii_lowercase (lit ''RTP/AVP'') = lit ''rtp/avp''" by code_simp
      with assms show ?thesis
        by (simp add: select_media_def media_usable_def reachable_def unat_eq_zero)
    qed
    ultimately show ?thesis by (simp add: sdp_remote_def session_select_def)
  qed
qed

text \<open>
  C34: Offers read back as what they offer: the audio offer as A-law at the audio port, the fax
  offer as T.38 at the fax port with 1200 byte datagrams and 14400 bit/s.
\<close>

theorem offer_roundtrip:
  assumes "reachable l"
  shows "sdp_remote (sdp_offer l kind) = Inr
    (case kind of KAudio \<Rightarrow> RAudio (lm_ip l, lm_audio_port l) Pcma
     | KT38 \<Rightarrow> RT38 (lm_ip l, lm_fax_port l) 1200 14400)"
  using offer_read_back [OF assms] by (cases kind) simp_all

theorem offer_roundtrip_witness:
  "sdp_remote (sdp_offer sample_local KAudio) = Inr (RAudio (V4 192 0 2 7, 4000) Pcma)"
proof -
  have "reachable sample_local" by code_simp
  from offer_roundtrip [OF this, of KAudio] show ?thesis by (simp add: sample_local_def)
qed

end
