(* ===== verification/Playout.thy ===== *)
theory Playout
  imports Sdp Systems
begin

text \<open>
  The playout buffer of received audio (\<open>playout.rs\<close>): a ring of samples indexed by RTP timestamp.
  The ring is proved to refine a window of an unbounded map from positions to samples, in which
  no sample is lost, duplicated or reordered.
\<close>

section \<open>State and operations\<close>

type_synonym i16 = "16 word"

record receive_stats =
  late_samples :: nat
  overflow_samples :: nat
  duplicate_samples :: nat
  missing_samples :: nat

record playout =
  po_samples :: "i16 option list"
  po_anchor :: "u32 option"
  po_cursor :: int
  po_end :: int
  po_delay :: duration
  po_next :: "instant option"
  po_started :: bool
  po_stats :: receive_stats

definition frame_samples :: nat where
  "frame_samples = 160"

definition playout_new :: "nat \<Rightarrow> native_error + playout" where
  "playout_new delay_ms =
     res_bind (validate_playout_delay delay_ms) (\<lambda>_.
       Inr \<lparr>po_samples = replicate ((delay_ms + 1000) * 8) None, po_anchor = None, po_cursor = 0,
            po_end = 0, po_delay = millis delay_ms, po_next = None, po_started = False,
            po_stats = \<lparr>late_samples = 0, overflow_samples = 0, duplicate_samples = 0,
                        missing_samples = 0\<rparr>\<rparr>)"

definition capacity :: "playout \<Rightarrow> int" where
  "capacity p = int (length (po_samples p))"

definition slot :: "playout \<Rightarrow> int \<Rightarrow> nat" where
  "slot p pos = nat (pos mod capacity p)"

definition restart_stream :: "u32 \<Rightarrow> playout \<Rightarrow> playout" where
  "restart_stream timestamp p =
     (if po_anchor p \<noteq> None
      then p\<lparr>po_anchor := Some (timestamp - word_of_int (max (po_end p) (po_cursor p)))\<rparr> else p)"

text \<open>One iteration of the loop of \<open>insert\<close>.\<close>

definition insert_sample :: "int \<Rightarrow> i16 \<Rightarrow> playout \<Rightarrow> playout" where
  "insert_sample position s p =
     (let st = po_stats p
      in if position < po_cursor p
         then p\<lparr>po_stats := st\<lparr>late_samples := late_samples st + 1\<rparr>\<rparr>
         else if position \<ge> po_cursor p + capacity p
         then p\<lparr>po_stats := st\<lparr>overflow_samples := overflow_samples st + 1\<rparr>\<rparr>
         else if po_samples p ! slot p position \<noteq> None
         then p\<lparr>po_stats := st\<lparr>duplicate_samples := duplicate_samples st + 1\<rparr>\<rparr>
         else p\<lparr>po_samples := (po_samples p)[slot p position := Some s],
                po_end := max (po_end p) (position + 1)\<rparr>)"

primrec insert_samples :: "int \<Rightarrow> i16 list \<Rightarrow> playout \<Rightarrow> playout" where
  "insert_samples position [] p = p"
| "insert_samples position (s # ss) p = insert_samples (position + 1) ss (insert_sample position s p)"

text \<open>The steps of \<open>insert\<close> before the loop: the anchor of the stream and the offset of the packet;
  preceding samples are allowed while playout has not started.\<close>

definition establish_anchor :: "u32 \<Rightarrow> instant \<Rightarrow> playout \<Rightarrow> playout" where
  "establish_anchor timestamp now p =
     (case po_anchor p of
        Some _ \<Rightarrow> p
      | None \<Rightarrow> p\<lparr>po_anchor := Some timestamp, po_next := Some (now + po_delay p)\<rparr>)"

definition packet_offset :: "u32 \<Rightarrow> playout \<Rightarrow> int" where
  "packet_offset timestamp p =
     (case po_anchor p of Some a \<Rightarrow> sint (timestamp - a) | None \<Rightarrow> 0)"

definition admit_preceding :: "int \<Rightarrow> playout \<Rightarrow> playout" where
  "admit_preceding offset p =
     (if \<not> po_started p \<and> offset < po_cursor p \<and> po_end p - offset \<le> capacity p
      then p\<lparr>po_cursor := offset\<rparr> else p)"

text \<open>The decoding table of the codec is SpanDSP's and a parameter.\<close>

definition playout_insert ::
  "(g711 \<Rightarrow> byte \<Rightarrow> i16) \<Rightarrow> u32 \<Rightarrow> byte list \<Rightarrow> g711 \<Rightarrow> instant \<Rightarrow> playout \<Rightarrow> playout" where
  "playout_insert decode timestamp payload codec now p =
     (if payload = [] then p
      else let p = establish_anchor timestamp now p;
               offset = packet_offset timestamp p;
               p = admit_preceding offset p
           in insert_samples offset (map (decode codec) payload) p)"

primrec take_samples :: "nat \<Rightarrow> playout \<Rightarrow> i16 list \<times> playout" where
  "take_samples 0 p = ([], p)"
| "take_samples (Suc n) p =
     (let cell = po_samples p ! slot p (po_cursor p);
          st = po_stats p;
          q = p\<lparr>po_samples := (po_samples p)[slot p (po_cursor p) := None],
                po_stats := (if cell = None then st\<lparr>missing_samples := missing_samples st + 1\<rparr> else st),
                po_cursor := po_cursor p + 1\<rparr>;
          s = (case cell of Some s \<Rightarrow> s | None \<Rightarrow> 0)
      in case take_samples n q of (ss, q) \<Rightarrow> (s # ss, q))"

definition take_frame :: "nat \<Rightarrow> playout \<Rightarrow> i16 list \<times> playout" where
  "take_frame count p =
     (case take_samples (min count frame_samples) p of
        (ss, q) \<Rightarrow> (ss @ replicate (frame_samples - length ss) 0, q))"

definition playout_receive :: "instant \<Rightarrow> playout \<Rightarrow> i16 list option \<times> playout" where
  "playout_receive now p =
     (case po_next p of
        None \<Rightarrow> (None, p)
      | Some at \<Rightarrow>
          if now < at then (None, p)
          else (case take_frame frame_samples (p\<lparr>po_next := Some (at + millis 20), po_started := True\<rparr>) of
                  (f, q) \<Rightarrow> (Some f, q)))"

lemma length_take_samples [simp]: "length (fst (take_samples n p)) = n"
  by (induction n arbitrary: p) (simp_all add: Let_def split: prod.splits, metis fst_conv)

lemma take_samples_frame:
  "length (po_samples (snd (take_samples n p))) = length (po_samples p)"
  "po_cursor (snd (take_samples n p)) = po_cursor p + int n"
  "po_end (snd (take_samples n p)) = po_end p"
  "po_next (snd (take_samples n p)) = po_next p"
  "po_started (snd (take_samples n p)) = po_started p"
  "po_anchor (snd (take_samples n p)) = po_anchor p"
  by (induction n arbitrary: p) (simp_all add: Let_def case_prod_beta)

lemma take_frame_cursor:
  "po_cursor (snd (take_frame n p)) = po_cursor p + int (min n 160)"
  "po_end (snd (take_frame n p)) = po_end p"
  by (simp_all add: take_frame_def case_prod_beta take_samples_frame frame_samples_def)

function playout_drain :: "playout \<Rightarrow> i16 list list \<times> playout" where
  "playout_drain p =
     (if po_cursor p < po_end p
      then (case take_frame (nat (min (po_end p - po_cursor p) 160)) p of
              (f, q) \<Rightarrow> (case playout_drain q of (fs, r) \<Rightarrow> (f # fs, r)))
      else ([], p))"
  by pat_completeness auto

termination
proof (relation "measure (\<lambda>p. nat (po_end p - po_cursor p))")
  fix p f q
  assume less: "po_cursor p < po_end p"
    and q: "(f, q) = take_frame (nat (min (po_end p - po_cursor p) 160)) p"
  have "q = snd (take_frame (nat (min (po_end p - po_cursor p) 160)) p)" by (metis q snd_conv)
  with less show "(q, p) \<in> measure (\<lambda>p. nat (po_end p - po_cursor p))"
    by (simp add: take_frame_cursor)
qed simp

declare playout_drain.simps [simp del]

section \<open>The window of an unbounded map\<close>

text \<open>The abstract buffer: samples by position, the next position to play, one past the last
  position ever filled, and the size of the window. It has no ring.\<close>

record window =
  wi_content :: "int \<Rightarrow> i16 option"
  wi_cursor :: int
  wi_end :: int
  wi_size :: int

definition window_of :: "playout \<Rightarrow> window" where
  "window_of p =
     \<lparr>wi_content = (\<lambda>pos. if po_cursor p \<le> pos \<and> pos < po_cursor p + capacity p
                           then po_samples p ! slot p pos else None),
      wi_cursor = po_cursor p, wi_end = po_end p, wi_size = capacity p\<rparr>"

definition window_insert :: "int \<Rightarrow> i16 \<Rightarrow> window \<Rightarrow> window" where
  "window_insert pos s w =
     (if wi_cursor w \<le> pos \<and> pos < wi_cursor w + wi_size w \<and> wi_content w pos = None
      then w\<lparr>wi_content := (wi_content w)(pos := Some s), wi_end := max (wi_end w) (pos + 1)\<rparr>
      else w)"

definition window_take :: "window \<Rightarrow> window" where
  "window_take w = w\<lparr>wi_content := (wi_content w)(wi_cursor w := None), wi_cursor := wi_cursor w + 1\<rparr>"

text \<open>The invariant: the ring is not empty and everything buffered lies before \<open>end\<close>.\<close>

definition playout_ok :: "playout \<Rightarrow> bool" where
  "playout_ok p \<longleftrightarrow> po_samples p \<noteq> [] \<and>
     (\<forall>pos. po_end p \<le> pos \<and> po_cursor p \<le> pos \<and> pos < po_cursor p + capacity p \<longrightarrow>
        po_samples p ! slot p pos = None) \<and>
     po_end p \<le> po_cursor p + capacity p"

lemma slot_less: "po_samples p \<noteq> [] \<Longrightarrow> slot p pos < length (po_samples p)"
  by (simp add: slot_def capacity_def nat_less_iff)

lemma slot_inj:
  assumes "po_samples p \<noteq> []" "c \<le> a" "a < c + capacity p" "c \<le> b" "b < c + capacity p"
    "slot p a = slot p b"
  shows "a = b"
proof -
  have pos: "0 < capacity p" using assms(1) by (simp add: capacity_def)
  have "a mod capacity p = b mod capacity p"
    using assms(6) pos by (simp add: slot_def eq_nat_nat_iff)
  then have "capacity p dvd a - b" by (simp only: mod_eq_dvd_iff)
  moreover have "\<bar>a - b\<bar> < \<bar>capacity p\<bar>" using assms(2-5) by linarith
  ultimately have "a - b = 0" using dvd_imp_le_int [of "a - b" "capacity p"] by linarith
  then show ?thesis by simp
qed

lemma window_of_stats [simp]: "window_of (p\<lparr>po_stats := x\<rparr>) = window_of p"
  unfolding window_of_def capacity_def slot_def by (simp cong: if_cong)

lemma playout_ok_stats [simp]: "playout_ok (p\<lparr>po_stats := x\<rparr>) = playout_ok p"
  by (simp add: playout_ok_def capacity_def slot_def)

lemma window_insert_refines:
  assumes ok: "playout_ok p"
  shows "window_of (insert_sample pos s p) = window_insert pos s (window_of p)"
    and "playout_ok (insert_sample pos s p)"
proof -
  have ne: "po_samples p \<noteq> []" using ok by (simp add: playout_ok_def)
  let ?in = "po_cursor p \<le> pos \<and> pos < po_cursor p + capacity p \<and> po_samples p ! slot p pos = None"
  have eq: "insert_sample pos s p = (if ?in
      then p\<lparr>po_samples := (po_samples p)[slot p pos := Some s], po_end := max (po_end p) (pos + 1)\<rparr>
      else p\<lparr>po_stats := po_stats (insert_sample pos s p)\<rparr>)"
    by (simp add: insert_sample_def Let_def)
  have slot_upd: "slot (p\<lparr>po_samples := (po_samples p)[i := x], po_end := e\<rparr>) q = slot p q"
    and cap_upd: "capacity (p\<lparr>po_samples := (po_samples p)[i := x], po_end := e\<rparr>) = capacity p"
    for i x e q by (simp_all add: slot_def capacity_def)
  have cell: "((po_samples p)[slot p pos := Some s]) ! slot p q =
      (if q = pos then Some s else po_samples p ! slot p q)"
    if "?in" "po_cursor p \<le> q" "q < po_cursor p + capacity p" for q
    using slot_inj [OF ne, of "po_cursor p" pos q] that slot_less [OF ne, of pos]
    by (auto simp: nth_list_update)
  show "window_of (insert_sample pos s p) = window_insert pos s (window_of p)"
  proof (cases ?in)
    case True
    then have "insert_sample pos s p =
        p\<lparr>po_samples := (po_samples p)[slot p pos := Some s], po_end := max (po_end p) (pos + 1)\<rparr>"
      using eq by simp
    with True show ?thesis
      by (auto simp: window_of_def window_insert_def slot_upd cap_upd cell)
  next
    case False
    then have "insert_sample pos s p = p\<lparr>po_stats := po_stats (insert_sample pos s p)\<rparr>"
      by (rule trans [OF eq if_not_P])
    then have "window_of (insert_sample pos s p) = window_of (p\<lparr>po_stats := po_stats (insert_sample pos s p)\<rparr>)"
      by (rule arg_cong)
    also have "\<dots> = window_of p" by (rule window_of_stats)
    also have "\<dots> = window_insert pos s (window_of p)"
      using False by (auto simp: window_of_def window_insert_def)
    finally show ?thesis .
  qed
  show "playout_ok (insert_sample pos s p)"
  proof (cases ?in)
    case True
    then have "insert_sample pos s p =
        p\<lparr>po_samples := (po_samples p)[slot p pos := Some s], po_end := max (po_end p) (pos + 1)\<rparr>"
      using eq by simp
    with True ok show ?thesis by (auto simp: playout_ok_def slot_upd cap_upd cell)
  next
    case False
    then have "insert_sample pos s p = p\<lparr>po_stats := po_stats (insert_sample pos s p)\<rparr>"
      by (rule trans [OF eq if_not_P])
    then have "playout_ok (insert_sample pos s p) = playout_ok (p\<lparr>po_stats := po_stats (insert_sample pos s p)\<rparr>)"
      by (rule arg_cong)
    with ok show ?thesis by simp
  qed
qed

text \<open>One step of \<open>take_frame\<close>.\<close>

definition take_one :: "playout \<Rightarrow> i16 option \<times> playout" where
  "take_one p =
     (let cell = po_samples p ! slot p (po_cursor p); st = po_stats p
      in (cell, p\<lparr>po_samples := (po_samples p)[slot p (po_cursor p) := None],
                  po_stats := (if cell = None then st\<lparr>missing_samples := missing_samples st + 1\<rparr> else st),
                  po_cursor := po_cursor p + 1\<rparr>))"

definition or_silence :: "i16 option \<Rightarrow> i16" where
  "or_silence cell = (case cell of Some s \<Rightarrow> s | None \<Rightarrow> 0)"

lemma take_samples_Suc:
  "take_samples (Suc n) p =
     (or_silence (fst (take_one p)) # fst (take_samples n (snd (take_one p))),
      snd (take_samples n (snd (take_one p))))"
  by (simp add: take_one_def or_silence_def Let_def case_prod_beta)

lemma take_one_refines:
  assumes ok: "playout_ok p"
  shows "fst (take_one p) = wi_content (window_of p) (wi_cursor (window_of p))"
    and "window_of (snd (take_one p)) = window_take (window_of p)"
    and "playout_ok (snd (take_one p))"
proof -
  have ne: "po_samples p \<noteq> []" using ok by (simp add: playout_ok_def)
  then have cap: "0 < capacity p" by (simp add: capacity_def)
  define i where "i = slot p (po_cursor p)"
  let ?q = "snd (take_one p)"
  have fields: "po_samples ?q = (po_samples p)[i := None]" "po_cursor ?q = po_cursor p + 1"
    "po_end ?q = po_end p" "capacity ?q = capacity p" "slot ?q pos = slot p pos" for pos
    by (simp_all add: take_one_def Let_def i_def capacity_def slot_def)
  have wrap: "slot p (po_cursor p + capacity p) = i" by (simp add: i_def slot_def)
  have cell: "(po_samples p)[i := None] ! slot p pos =
      (if pos = po_cursor p \<or> pos = po_cursor p + capacity p then None else po_samples p ! slot p pos)"
    if "po_cursor p \<le> pos" "pos < po_cursor p + 1 + capacity p" for pos
  proof (cases "pos = po_cursor p + capacity p")
    case False
    with that slot_inj [OF ne, of "po_cursor p" pos "po_cursor p"] cap
      slot_less [OF ne, of pos] slot_less [OF ne, of "po_cursor p"]
    show ?thesis by (auto simp: nth_list_update i_def)
  qed (use wrap slot_less [OF ne, of "po_cursor p"] i_def in simp)
  show "fst (take_one p) = wi_content (window_of p) (wi_cursor (window_of p))"
    using cap by (simp add: take_one_def window_of_def Let_def)
  show "window_of ?q = window_take (window_of p)"
  proof -
    have "wi_content (window_of ?q) pos = wi_content (window_take (window_of p)) pos" for pos
      unfolding window_of_def window_take_def by (simp add: fields cell)
    moreover have "wi_cursor (window_of ?q) = wi_cursor (window_take (window_of p))"
      "wi_end (window_of ?q) = wi_end (window_take (window_of p))"
      "wi_size (window_of ?q) = wi_size (window_take (window_of p))"
      by (simp_all add: window_of_def window_take_def fields)
    ultimately show ?thesis by (intro window.equality) auto
  qed
  have "po_end p \<le> po_cursor p + capacity p" using ok by (simp add: playout_ok_def)
  moreover have "(po_samples p)[i := None] \<noteq> []" using ne by simp
  ultimately show "playout_ok ?q"
    unfolding playout_ok_def fields using ok cell by (auto simp: playout_ok_def)
qed

lemma admit_preceding_ok:
  assumes ok: "playout_ok p"
  shows "playout_ok (admit_preceding offset p)"
proof (cases "\<not> po_started p \<and> offset < po_cursor p \<and> po_end p - offset \<le> capacity p")
  case True
  let ?q = "p\<lparr>po_cursor := offset\<rparr>"
  have fields: "capacity ?q = capacity p" "slot ?q pos = slot p pos" for pos
    by (simp_all add: capacity_def slot_def)
  have ne: "po_samples p \<noteq> []" using ok by (simp add: playout_ok_def)
  then have cap: "0 < capacity p" by (simp add: capacity_def)
  have old: "po_samples p ! slot p x = None"
    if "po_end p \<le> x" "po_cursor p \<le> x" "x < po_cursor p + capacity p" for x
    using ok that unfolding playout_ok_def by blast
  have empty: "po_samples p ! slot p pos = None"
    if "po_end p \<le> pos" "offset \<le> pos" "pos < offset + capacity p" for pos
  proof (cases "po_cursor p \<le> pos")
    case cursor: True
    from that(3) True have "pos < po_cursor p + capacity p" by linarith
    with that(1) cursor show ?thesis by (intro old)
  next
    case before: False
    text \<open>The position lies before the old window: its slot is that of a later position of the
      old window, which is beyond \<open>end\<close> as well.\<close>
    define pos' where "pos' = po_cursor p + (pos - po_cursor p) mod capacity p"
    have "slot p pos' = slot p pos" by (simp add: pos'_def slot_def mod_add_right_eq)
    moreover have in': "po_cursor p \<le> pos'" "pos' < po_cursor p + capacity p"
      using cap by (simp_all add: pos'_def)
    moreover have "po_end p \<le> pos'" using before that(1) in'(1) by linarith
    ultimately show ?thesis using old [of pos'] by simp
  qed
  have "playout_ok ?q"
    unfolding playout_ok_def fields using ne empty True by simp
  moreover have "admit_preceding offset p = ?q" unfolding admit_preceding_def using True by (rule if_P)
  ultimately show ?thesis by simp
qed (use ok in \<open>simp only: admit_preceding_def if_False\<close>)

lemma establish_anchor_ok [simp]: "playout_ok (establish_anchor t now p) = playout_ok p"
  by (simp add: establish_anchor_def playout_ok_def capacity_def slot_def split: option.splits)

lemma insert_samples_ok: "playout_ok p \<Longrightarrow> playout_ok (insert_samples pos ss p)"
  by (induction ss arbitrary: pos p) (simp_all add: window_insert_refines)

lemma playout_insert_ok: "playout_ok p \<Longrightarrow> playout_ok (playout_insert decode t payload c now p)"
  by (simp add: playout_insert_def Let_def insert_samples_ok admit_preceding_ok)

lemma take_samples_ok: "playout_ok p \<Longrightarrow> playout_ok (snd (take_samples n p))"
  by (induction n arbitrary: p) (simp_all add: take_samples_Suc take_one_refines del: take_samples.simps(2))

lemma playout_ok_next [simp]: "playout_ok (p\<lparr>po_next := x, po_started := y\<rparr>) = playout_ok p"
  by (simp add: playout_ok_def capacity_def slot_def)

lemma playout_receive_ok: "playout_ok p \<Longrightarrow> playout_ok (snd (playout_receive now p))"
  by (simp add: playout_receive_def take_frame_def case_prod_beta take_samples_ok split: option.split)

lemma restart_stream_ok [simp]: "playout_ok (restart_stream t p) = playout_ok p"
  by (simp add: restart_stream_def playout_ok_def capacity_def slot_def)

lemma playout_new_ok: "playout_new d = Inr p \<Longrightarrow> playout_ok p"
  by (auto simp: playout_new_def res_bind_Inr_iff playout_ok_def capacity_def slot_def nat_less_iff)

section \<open>Playing positions\<close>

definition content :: "playout \<Rightarrow> int \<Rightarrow> i16 option" where
  "content p = wi_content (window_of p)"

lemma window_of_fields [simp]:
  "wi_content (window_of p) = content p" "wi_cursor (window_of p) = po_cursor p"
  "wi_end (window_of p) = po_end p" "wi_size (window_of p) = capacity p"
  unfolding content_def by (simp_all add: window_of_def)

lemma content_outside: "pos < po_cursor p \<or> po_cursor p + capacity p \<le> pos \<Longrightarrow> content p pos = None"
  unfolding content_def by (auto simp: window_of_def)

lemma content_take_one:
  "playout_ok p \<Longrightarrow> content (snd (take_one p)) = (content p)(po_cursor p := None)"
  using arg_cong [OF take_one_refines(2), of p wi_content] by (simp add: window_take_def)

lemma take_one_fields [simp]:
  "po_cursor (snd (take_one p)) = po_cursor p + 1" "po_end (snd (take_one p)) = po_end p"
  by (simp_all add: take_one_def Let_def)

lemma take_samples_content:
  assumes "playout_ok p"
  shows "fst (take_samples n p) = map (\<lambda>i. or_silence (content p (po_cursor p + int i))) [0..<n]"
    and "content (snd (take_samples n p)) pos = (if pos < po_cursor p + int n then None else content p pos)"
  using assms
proof (induction n arbitrary: p)
  case 0
  { case 1 show ?case by simp }
  { case 2 show ?case by (simp add: content_outside) }
next
  case (Suc n)
  { case (1 p)
    let ?q = "snd (take_one p)"
    have q: "playout_ok ?q" using 1 by (rule take_one_refines(3))
    have hd: "fst (take_one p) = content p (po_cursor p)"
      using take_one_refines(1) [OF 1] by simp
    have "fst (take_samples n ?q) = map (\<lambda>i. or_silence (content p (po_cursor p + int (Suc i)))) [0..<n]"
      using Suc.IH(1) [OF q] by (simp add: content_take_one [OF 1] algebra_simps)
    then show ?case
      unfolding take_samples_Suc fst_conv hd
      by (simp add: upt_conv_Cons map_Suc_upt [symmetric] comp_def del: upt_Suc)
  }
  { case (2 p)
    have q: "playout_ok (snd (take_one p))" using 2 by (rule take_one_refines(3))
    show ?case
      unfolding take_samples_Suc snd_conv
      using Suc.IH(2) [OF q] by (auto simp: content_take_one [OF 2])
  }
qed

lemma content_update_next [simp]:
  "content (p\<lparr>po_next := x, po_started := y\<rparr>) = content p"
  "capacity (p\<lparr>po_next := x, po_started := y\<rparr>) = capacity p"
  unfolding content_def window_of_def capacity_def slot_def by (simp_all cong: if_cong)

text \<open>
  Playout plays every position in order. Once the playout time has come, \<open>receive\<close> returns a
  frame of 160 samples, the k-th being the sample buffered for position cursor + k or silence, moves
  the cursor on by 160, forgets exactly the positions played and schedules the next frame exactly
  20 ms after the last; before that time it returns nothing and changes nothing.
\<close>

theorem receive_plays_positions:
  assumes "playout_ok p" "po_next p = Some at"
  shows "case playout_receive now p of
      (None, q) \<Rightarrow> now < at \<and> q = p
    | (Some frame, q) \<Rightarrow> at \<le> now \<and>
        frame = map (\<lambda>i. or_silence (content p (po_cursor p + int i))) [0..<160] \<and>
        po_cursor q = po_cursor p + 160 \<and> po_next q = Some (at + millis 20) \<and>
        content q = (\<lambda>pos. if pos < po_cursor p + 160 then None else content p pos)"
proof -
  let ?p = "p\<lparr>po_next := Some (at + millis 20), po_started := True\<rparr>"
  have ok: "playout_ok ?p" using assms(1) by simp
  have rcv: "playout_receive now p =
      (if now < at then (None, p)
       else (Some (fst (take_samples 160 ?p)), snd (take_samples 160 ?p)))"
    using assms(2) by (simp add: playout_receive_def take_frame_def frame_samples_def case_prod_beta)
  show ?thesis
    using take_samples_content [OF ok, of 160] by (auto simp: rcv take_samples_frame)
qed

lemma insert_sample_fields [simp]:
  "po_cursor (insert_sample pos s p) = po_cursor p" "capacity (insert_sample pos s p) = capacity p"
  by (simp_all add: insert_sample_def Let_def capacity_def)

lemma content_insert_sample:
  assumes "playout_ok p"
  shows "content (insert_sample pos s p) =
    (if po_cursor p \<le> pos \<and> pos < po_cursor p + capacity p \<and> content p pos = None
     then (content p)(pos := Some s) else content p)"
  using arg_cong [OF window_insert_refines(1) [OF assms, of pos s], of wi_content]
  by (simp add: window_insert_def split: if_splits)

lemma content_insert_samples:
  assumes "playout_ok p"
  shows "content (insert_samples pos ss p) =
    (\<lambda>x. if pos \<le> x \<and> x < pos + int (length ss) \<and> po_cursor p \<le> x \<and> x < po_cursor p + capacity p \<and>
            content p x = None
         then Some (ss ! nat (x - pos)) else content p x)"
  using assms
proof (induction ss arbitrary: pos p)
  case (Cons s ss)
  let ?q = "insert_sample pos s p"
  have ok: "playout_ok ?q" by (rule window_insert_refines(2) [OF Cons.prems])
  have nth: "nat (x - pos) - Suc 0 = nat (x - (pos + 1))" for x by arith
  show ?case
    by (rule ext) (auto simp: Cons.IH [OF ok] content_insert_sample [OF Cons.prems] nth)
qed auto

text \<open>
  The buffer keeps the first sample for every position of its window. After inserting a packet
  at its offset, each position in the window that the packet covers holds the sample that was
  there before or else the packet's sample for that position; no other position changes. So
  reordered, repeated, late and oversized packets never displace or duplicate audio.
\<close>

theorem insert_first_write_wins:
  fixes timestamp :: u32 and now :: instant and p :: playout
  assumes "playout_ok p" "payload \<noteq> []"
  defines "q \<equiv> establish_anchor timestamp now p"
  defines "off \<equiv> packet_offset timestamp q"
  defines "r \<equiv> admit_preceding off q"
  shows "content (playout_insert decode timestamp payload codec now p) =
    (\<lambda>x. if off \<le> x \<and> x < off + int (length payload) \<and> po_cursor r \<le> x \<and>
            x < po_cursor r + capacity r \<and> content r x = None
         then Some (decode codec (payload ! nat (x - off))) else content r x)"
proof -
  have ok: "playout_ok r" unfolding r_def q_def using assms(1) by (intro admit_preceding_ok) simp
  have "playout_insert decode timestamp payload codec now p =
      insert_samples off (map (decode codec) payload) r"
    using assms(2) by (simp add: playout_insert_def Let_def r_def off_def q_def)
  moreover have "map (decode codec) payload ! nat (x - off) = decode codec (payload ! nat (x - off))"
    if "off \<le> x" "x < off + int (length payload)" for x
    using that by (intro nth_map) linarith
  ultimately show ?thesis
    by (auto simp: content_insert_samples [OF ok] intro!: ext)
qed

definition sample_playout :: playout where
  "sample_playout =
     \<lparr>po_samples = [Some 10, None, Some 12, None], po_anchor = Some 1000, po_cursor = 0, po_end = 3,
      po_delay = millis 40, po_next = Some 100, po_started = False,
      po_stats = \<lparr>late_samples = 0, overflow_samples = 0, duplicate_samples = 0, missing_samples = 0\<rparr>\<rparr>"

lemma sample_playout_ok: "playout_ok sample_playout"
proof -
  have "pos = 3" if "3 \<le> pos" "pos < 0 + int (length [Some 10, None, Some 12, None :: i16 option])" for pos
    using that by simp
  then show ?thesis
    unfolding playout_ok_def sample_playout_def slot_def capacity_def by auto
qed

theorem receive_plays_positions_witness:
  "fst (playout_receive 99 sample_playout) = None \<and>
   po_cursor (snd (playout_receive 150 sample_playout)) = 160"
proof -
  have n: "po_next sample_playout = Some 100" and c: "po_cursor sample_playout = 0"
    by (simp_all add: sample_playout_def)
  show ?thesis
    using receive_plays_positions [OF sample_playout_ok n, of 99]
      receive_plays_positions [OF sample_playout_ok n, of 150] c
    by (auto split: prod.splits option.splits)
qed

theorem insert_first_write_wins_witness:
  "content (playout_insert (\<lambda>_. ucast) 1000 [1, 2] Pcma 0 sample_playout) 1 = Some 2"
proof -
  have "content (admit_preceding 0 sample_playout) 1 = None" "po_cursor (admit_preceding 0 sample_playout) = 0"
    "capacity (admit_preceding 0 sample_playout) = 4"
    "establish_anchor 1000 0 sample_playout = sample_playout" "packet_offset 1000 sample_playout = 0"
    by (simp_all add: admit_preceding_def sample_playout_def content_def window_of_def slot_def
        capacity_def establish_anchor_def packet_offset_def)
  then show ?thesis
    using insert_first_write_wins [OF sample_playout_ok, of "[1, 2]" "\<lambda>_. ucast" 1000 Pcma 0] by simp
qed

section \<open>Where every sample goes\<close>

definition buffered :: "playout \<Rightarrow> nat" where
  "buffered p = length (filter (\<lambda>c. c \<noteq> None) (po_samples p))"

definition accounted :: "playout \<Rightarrow> nat" where
  "accounted p = late_samples (po_stats p) + overflow_samples (po_stats p) +
     duplicate_samples (po_stats p) + buffered p"

lemma length_filter_update:
  "i < length xs \<Longrightarrow>
   length (filter P (xs[i := x])) + (if P (xs ! i) then 1 else 0) =
   length (filter P xs) + (if P x then 1 else 0)"
proof (induction xs arbitrary: i)
  case (Cons y ys)
  then show ?case by (cases i) auto
qed simp

lemma insert_sample_accounted:
  assumes "playout_ok p"
  shows "accounted (insert_sample pos s p) = Suc (accounted p)"
    and "missing_samples (po_stats (insert_sample pos s p)) = missing_samples (po_stats p)"
proof -
  have "slot p pos < length (po_samples p)" using assms by (simp add: playout_ok_def slot_less)
  from length_filter_update [OF this, of "\<lambda>c. c \<noteq> None" "Some s"]
  show "accounted (insert_sample pos s p) = Suc (accounted p)"
    by (auto simp: accounted_def buffered_def insert_sample_def Let_def split: if_splits)
  show "missing_samples (po_stats (insert_sample pos s p)) = missing_samples (po_stats p)"
    by (simp add: insert_sample_def Let_def)
qed

lemma insert_samples_accounted:
  assumes "playout_ok p"
  shows "accounted (insert_samples pos ss p) = accounted p + length ss \<and>
    missing_samples (po_stats (insert_samples pos ss p)) = missing_samples (po_stats p)"
  using assms
  by (induction ss arbitrary: pos p) (simp_all add: insert_sample_accounted window_insert_refines(2))

lemma take_one_accounted:
  assumes "playout_ok p"
  shows "accounted (snd (take_one p)) + 1 + missing_samples (po_stats p) =
    accounted p + missing_samples (po_stats (snd (take_one p)))"
proof -
  have "slot p (po_cursor p) < length (po_samples p)" using assms by (simp add: playout_ok_def slot_less)
  from length_filter_update [OF this, of "\<lambda>c. c \<noteq> None" None]
  show ?thesis
    by (auto simp: accounted_def buffered_def take_one_def Let_def split: if_splits)
qed

lemma take_samples_accounted:
  assumes "playout_ok p"
  shows "accounted (snd (take_samples n p)) + n + missing_samples (po_stats p) =
    accounted p + missing_samples (po_stats (snd (take_samples n p)))"
  using assms
proof (induction n arbitrary: p)
  case (Suc n)
  from Suc.IH [OF take_one_refines(3) [OF Suc.prems]] take_one_accounted [OF Suc.prems]
  show ?case unfolding take_samples_Suc snd_conv by linarith
qed simp

text \<open>The calls a worker makes, and what they count.\<close>

datatype playout_event =
    PInsert u32 "byte list" g711 instant
  | PReceive instant
  | PRestart u32

fun playout_step :: "(g711 \<Rightarrow> byte \<Rightarrow> i16) \<Rightarrow> playout_event \<Rightarrow> playout \<Rightarrow> playout" where
  "playout_step decode (PInsert t payload c now) p = playout_insert decode t payload c now p"
| "playout_step decode (PReceive now) p = snd (playout_receive now p)"
| "playout_step decode (PRestart t) p = restart_stream t p"

fun event_bytes :: "playout_event \<Rightarrow> nat" where
  "event_bytes (PInsert t payload c now) = length payload"
| "event_bytes _ = 0"

fun event_frames :: "playout \<Rightarrow> playout_event \<Rightarrow> nat" where
  "event_frames p (PReceive now) = (case fst (playout_receive now p) of None \<Rightarrow> 0 | Some _ \<Rightarrow> 1)"
| "event_frames p _ = 0"

primrec run_frames :: "(g711 \<Rightarrow> byte \<Rightarrow> i16) \<Rightarrow> playout_event list \<Rightarrow> playout \<Rightarrow> nat" where
  "run_frames decode [] p = 0"
| "run_frames decode (e # es) p = event_frames p e + run_frames decode es (playout_step decode e p)"

lemma playout_step_ok: "playout_ok p \<Longrightarrow> playout_ok (playout_step decode e p)"
  by (cases e) (simp_all add: playout_insert_ok playout_receive_ok)

interpretation playout_system: labelled_system "playout_step decode" playout_ok "\<lambda>_ _. True"
  for decode by unfold_locales (rule playout_step_ok)

lemma accounted_simps [simp]:
  "accounted (p\<lparr>po_next := x, po_started := y\<rparr>) = accounted p"
  "accounted (establish_anchor t now p) = accounted p"
  "accounted (admit_preceding off p) = accounted p"
  "po_stats (establish_anchor t now p) = po_stats p"
  "po_stats (admit_preceding off p) = po_stats p"
  "accounted (restart_stream t p) = accounted p" "po_stats (restart_stream t p) = po_stats p"
  by (simp_all add: accounted_def buffered_def establish_anchor_def admit_preceding_def
      restart_stream_def split: option.splits)

lemma playout_step_accounted:
  assumes "playout_ok p"
  shows "accounted (playout_step decode e p) + 160 * event_frames p e + missing_samples (po_stats p) =
    accounted p + event_bytes e + missing_samples (po_stats (playout_step decode e p))"
proof (cases e)
  case (PInsert t payload c now)
  have ok: "playout_ok (admit_preceding off (establish_anchor t now p))" for off
    using assms by (intro admit_preceding_ok) simp
  show ?thesis
    using insert_samples_accounted [OF ok]
    by (simp add: PInsert playout_insert_def Let_def)
next
  case (PReceive now)
  have ok: "playout_ok (p\<lparr>po_next := x, po_started := True\<rparr>)" for x using assms by simp
  show ?thesis
    using take_samples_accounted [OF ok, of 160]
    by (auto simp: PReceive playout_receive_def take_frame_def frame_samples_def case_prod_beta
        split: option.splits)
qed simp

text \<open>
  C37: Every received byte is accounted for. Along any sequence of insertions, frames and stream
  restarts from a new buffer, the bytes inserted are exactly those counted late, overflowing or
  duplicate, those still buffered and those played; and a played frame contributes 160 samples less
  the ones counted missing.
\<close>

theorem playout_conserves_samples:
  assumes "playout_new delay = Inr p0" "p = run (playout_step decode) events p0"
  shows "sum_list (map event_bytes events) + missing_samples (po_stats p) =
    late_samples (po_stats p) + overflow_samples (po_stats p) + duplicate_samples (po_stats p) +
    buffered p + 160 * run_frames decode events p0"
proof -
  have "accounted (run (playout_step decode) es q) + 160 * run_frames decode es q + missing_samples (po_stats q) =
      accounted q + sum_list (map event_bytes es) + missing_samples (po_stats (run (playout_step decode) es q))"
    if "playout_ok q" for es q
    using that
  proof (induction es arbitrary: q)
    case (Cons e es)
    from Cons.IH [OF playout_step_ok [OF Cons.prems], of decode e] playout_step_accounted [OF Cons.prems, of decode e]
    show ?case by simp
  qed simp
  from this [OF playout_new_ok [OF assms(1)], of events] assms
  show ?thesis
    by (auto simp: accounted_def buffered_def playout_new_def res_bind_Inr_iff)
qed

theorem playout_conserves_samples_witness:
  "late_samples (po_stats (run (playout_step (\<lambda>_. ucast)) [PReceive 5] (projr (playout_new 40)))) = 0"
proof -
  have p0: "playout_new 40 = Inr (projr (playout_new 40))"
    by (simp add: playout_new_def validate_playout_delay_def)
  have "run_frames (\<lambda>_. ucast) [PReceive 5] (projr (playout_new 40)) = 0"
    by (simp add: playout_new_def validate_playout_delay_def playout_receive_def)
  moreover have "missing_samples (po_stats (run (playout_step (\<lambda>_. ucast)) [PReceive 5] (projr (playout_new 40)))) = 0"
    by (simp add: playout_new_def validate_playout_delay_def playout_receive_def)
  ultimately show ?thesis
    using playout_conserves_samples [OF p0 refl, where decode = "\<lambda>_. ucast" and events = "[PReceive 5]"]
    by simp
qed

text \<open>
  A replacement stream joins seamlessly. After \<open>restart_stream\<close> with its first time stamp, a
  packet with that time stamp lands exactly behind the buffered tail (or at the cursor when the
  buffer ran dry), as long as that position is below 2^31; nothing buffered is touched.
\<close>

theorem restart_joins_tail:
  assumes "po_anchor p \<noteq> None" "0 \<le> max (po_end p) (po_cursor p)" "max (po_end p) (po_cursor p) < 2 ^ 31"
  shows "packet_offset timestamp (restart_stream timestamp p) = max (po_end p) (po_cursor p) \<and>
    content (restart_stream timestamp p) = content p"
proof -
  let ?m = "max (po_end p) (po_cursor p)"
  have "sint (word_of_int ?m :: u32) = ?m"
    using assms(2,3) by (simp add: signed_of_int signed_take_bit_int_eq_self)
  then have "packet_offset timestamp (restart_stream timestamp p) = ?m"
    using assms(1) by (simp add: packet_offset_def restart_stream_def)
  moreover have "content (restart_stream timestamp p) = content p"
    unfolding content_def window_of_def capacity_def slot_def restart_stream_def by (simp cong: if_cong)
  ultimately show ?thesis by blast
qed

theorem restart_joins_tail_witness:
  "packet_offset 4294967295 (restart_stream 4294967295 sample_playout) = 3"
  using restart_joins_tail [of sample_playout 4294967295] by (simp add: sample_playout_def)

section \<open>Draining\<close>

lemma drain_step:
  assumes "playout_ok p" "0 < n" "n \<le> 160"
  shows "fst (take_frame n p) =
      map (\<lambda>i. or_silence (content p (po_cursor p + int i))) [0..<n] @ replicate (160 - n) 0"
    and "content (snd (take_frame n p)) pos = (if pos < po_cursor p + int n then None else content p pos)"
    and "playout_ok (snd (take_frame n p))"
  using take_samples_content [OF assms(1), of n] take_samples_ok [OF assms(1), of n] assms(3)
  by (simp_all add: take_frame_def frame_samples_def case_prod_beta min_def)

lemma drain_content:
  "playout_ok p \<Longrightarrow>
   (\<exists>pad. concat (fst (playout_drain p)) =
      map (\<lambda>i. or_silence (content p (po_cursor p + int i))) [0..<nat (po_end p - po_cursor p)] @
      replicate pad 0) \<and>
   list_all (\<lambda>f. length f = 160) (fst (playout_drain p)) \<and>
   po_end (snd (playout_drain p)) \<le> po_cursor (snd (playout_drain p)) \<and> playout_ok (snd (playout_drain p))"
proof (induction p rule: playout_drain.induct)
  case (1 p)
  show ?case
  proof (cases "po_cursor p < po_end p")
    case True
    define n where "n = nat (min (po_end p - po_cursor p) 160)"
    have n: "0 < n" "n \<le> 160" "int n \<le> po_end p - po_cursor p" using True by (auto simp: n_def)
    define q where "q = snd (take_frame n p)"
    have q: "po_cursor q = po_cursor p + int n" "po_end q = po_end p"
      using n by (simp_all add: q_def take_frame_cursor min_def)
    have drain: "playout_drain p = (fst (take_frame n p) # fst (playout_drain q), snd (playout_drain q))"
      by (subst playout_drain.simps) (simp add: True case_prod_beta q_def n_def)
    note step = drain_step [OF "1.prems" n(1,2), folded q_def]
    have ih: "(\<exists>pad. concat (fst (playout_drain q)) =
        map (\<lambda>i. or_silence (content q (po_cursor q + int i))) [0..<nat (po_end q - po_cursor q)] @
        replicate pad 0) \<and>
      list_all (\<lambda>f. length f = 160) (fst (playout_drain q)) \<and>
      po_end (snd (playout_drain q)) \<le> po_cursor (snd (playout_drain q)) \<and> playout_ok (snd (playout_drain q))"
      using "1.IH" [OF True, of "fst (take_frame n p)" q, OF _ step(3)] by (simp add: q_def n_def)
    then obtain pad where pad: "concat (fst (playout_drain q)) =
        map (\<lambda>i. or_silence (content q (po_cursor q + int i))) [0..<nat (po_end q - po_cursor q)] @
        replicate pad 0" by blast
    have len: "length (fst (take_frame n p)) = 160" using step(1) n(2) by simp
    have "\<exists>pad. concat (fst (playout_drain p)) =
      map (\<lambda>i. or_silence (content p (po_cursor p + int i))) [0..<nat (po_end p - po_cursor p)] @ replicate pad 0"
    proof (cases "po_end p - po_cursor p \<le> 160")
      case True
      then have all: "n = nat (po_end p - po_cursor p)" by (simp add: n_def)
      then have "nat (po_end q - po_cursor q) = 0" using q \<open>po_cursor p < po_end p\<close> by simp
      then have "concat (fst (playout_drain p)) =
        map (\<lambda>i. or_silence (content p (po_cursor p + int i))) [0..<nat (po_end p - po_cursor p)] @
        replicate ((160 - n) + pad) 0"
        using step(1) pad unfolding all [symmetric] by (simp add: drain replicate_add)
      then show ?thesis by blast
    next
      case False
      then have full: "n = 160" by (simp add: n_def)
      have later: "content q (po_cursor q + int i) = content p (po_cursor p + int (160 + i))" for i
        by (simp add: step(2) q full add.assoc)
      have "nat (po_end p - po_cursor p) = 160 + nat (po_end q - po_cursor q)"
        using q full False by simp
      then have "map (\<lambda>i. or_silence (content p (po_cursor p + int i))) [0..<nat (po_end p - po_cursor p)] =
        map (\<lambda>i. or_silence (content p (po_cursor p + int i))) [0..<160] @
        map (\<lambda>i. or_silence (content q (po_cursor q + int i))) [0..<nat (po_end q - po_cursor q)]"
        by (simp only: upt_add_eq_append [of 0] map_append later)
           (simp add: map_add_upt [symmetric] add.commute del: upt_add_eq_append)
      then show ?thesis
        using step(1) by (intro exI [of _ pad]) (simp add: drain pad full)
    qed
    with ih len show ?thesis by (simp add: drain)
  next
    case False
    with "1.prems" show ?thesis by (subst (1 2 3 4 5) playout_drain.simps) simp
  qed
qed

text \<open>
  C38: Draining delivers the whole tail. \<open>drain\<close> terminates, returns frames of 160 samples whose
  concatenation is exactly the buffered positions from the cursor to the end, in order, padded
  with silence, and leaves nothing buffered.
\<close>

theorem drain_delivers_tail:
  assumes "playout_ok p"
  shows "\<exists>frames q pad. playout_drain p = (frames, q) \<and>
    concat frames = map (\<lambda>i. or_silence (content p (po_cursor p + int i)))
                      [0..<nat (po_end p - po_cursor p)] @ replicate pad 0 \<and>
    list_all (\<lambda>f. length f = 160) frames \<and> content q = (\<lambda>_. None)"
proof -
  let ?q = "snd (playout_drain p)"
  note d = drain_content [OF assms]
  have "content ?q pos = None" for pos
  proof (cases "po_cursor ?q \<le> pos \<and> pos < po_cursor ?q + capacity ?q")
    case True
    then have "po_samples ?q ! slot ?q pos = None" using d by (auto simp: playout_ok_def)
    then show ?thesis unfolding content_def by (simp add: window_of_def)
  next
    case False
    then show ?thesis by (intro content_outside) auto
  qed
  with d show ?thesis by (metis (no_types, lifting) ext prod.collapse)
qed

theorem drain_delivers_tail_witness:
  "\<exists>pad. concat (fst (playout_drain sample_playout)) = [10, 0, 12] @ replicate pad 0"
proof -
  have "map (\<lambda>i. or_silence (content sample_playout (po_cursor sample_playout + int i)))
      [0..<nat (po_end sample_playout - po_cursor sample_playout)] = [10, 0, 12]"
    by (simp add: sample_playout_def or_silence_def content_def window_of_def slot_def capacity_def
        upt_rec numeral_3_eq_3)
  with drain_delivers_tail [OF sample_playout_ok] show ?thesis by auto
qed

end
