(* ===== verification/Network.thy ===== *)
theory Network
  imports NatTraversal Playout
begin

text \<open>
  Media over UDP (\<open>network.rs\<close>): the RTP packet format, the selection of the audio stream to play,
  the outgoing RTP clock, and the sending of UDPTL datagrams with redundancy. Sockets are inputs:
  the list of what \<open>recv_from\<close> yields, and the errors \<open>send_to\<close> raises. One clock reading stands for
  the readings made while a single datagram is processed.
\<close>

unbundle bit_operations_syntax

section \<open>RTP packets\<close>

record rtp =
  rtp_payload_type :: byte
  rtp_sequence :: u16
  rtp_timestamp :: u32
  rtp_ssrc :: u32
  rtp_payload :: "byte list"

definition rtp_start :: "byte list \<Rightarrow> nat option" where
  "rtp_start p =
     (let start = 12 + unat (p ! 0 AND 15) * 4
      in if p ! 0 AND 0x10 \<noteq> 0
         then (if start + 4 \<le> length p
               then Some (start + (4 + be16 (p ! (start + 2)) (p ! (start + 3)) * 4)) else None)
         else Some start)"

definition rtp_end :: "byte list \<Rightarrow> nat option" where
  "rtp_end p =
     (if p ! 0 AND 0x20 \<noteq> 0
      then (let padding = unat (last p)
            in if padding = 0 then None
               else if length p < padding then None else Some (length p - padding))
      else Some (length p))"

definition rtp_parse :: "byte list \<Rightarrow> rtp option" where
  "rtp_parse p =
     (if length p < 12 \<or> drop_bit 6 (p ! 0) \<noteq> 2 then None
      else (case rtp_start p of None \<Rightarrow> None | Some start \<Rightarrow>
           (case rtp_end p of None \<Rightarrow> None | Some end' \<Rightarrow>
             if start \<le> end' \<and> end' \<le> length p
             then Some \<lparr>rtp_payload_type = p ! 1 AND 0x7f,
                        rtp_sequence = word_of_nat (be16 (p ! 2) (p ! 3)),
                        rtp_timestamp = word_of_nat (be32 (p ! 4) (p ! 5) (p ! 6) (p ! 7)),
                        rtp_ssrc = word_of_nat (be32 (p ! 8) (p ! 9) (p ! 10) (p ! 11)),
                        rtp_payload = take (end' - start) (drop start p)\<rparr>
             else None)))"

definition rtp_packet :: "byte \<Rightarrow> u16 \<Rightarrow> u32 \<Rightarrow> u32 \<Rightarrow> byte list \<Rightarrow> byte list" where
  "rtp_packet pt sequence timestamp ssrc payload =
     [0x80, pt] @ to_be16 sequence @ to_be32 timestamp @ to_be32 ssrc @ payload"

section \<open>The audio network\<close>

record pending_audio =
  pa_ssrc :: u32
  pa_sequence :: u16
  pa_timestamp :: u32
  pa_payload :: "byte list"

record audio_network =
  an_peer :: peer
  an_signaled :: sock_addr
  an_symmetric :: bool
  an_mapping :: "stun_mapping option"
  an_codec :: g711
  an_sequence :: u16
  an_timestamp :: u32
  an_ssrc :: u32
  an_source :: "u32 option"
  an_change_pending :: bool
  an_retired :: "u32 option"
  an_candidate :: "pending_audio list"
  an_received :: nat
  an_malformed :: nat
  an_unexpected_payload :: nat
  an_unexpected_peer :: nat
  an_unselected :: nat
  an_playout :: playout
  an_reported :: receive_stats
  an_last_report :: instant
  an_last_received :: instant

text \<open>\<open>random\<close> is the uuid from which the outgoing stream draws its start values.\<close>

definition audio_new ::
  "byte list \<Rightarrow> instant \<Rightarrow> sock_addr \<Rightarrow> g711 \<Rightarrow> bool \<Rightarrow> stun_mapping option \<Rightarrow> nat \<Rightarrow>
   native_error + audio_network" where
  "audio_new random now address codec symmetric mapping delay_ms =
     res_bind (playout_new delay_ms) (\<lambda>playout. Inr
       \<lparr>an_peer = peer_new address symmetric, an_signaled = address, an_symmetric = symmetric,
        an_mapping = mapping, an_codec = codec,
        an_sequence = word_of_nat (be16 (random ! 0) (random ! 1)),
        an_timestamp = word_of_nat (be32 (random ! 2) (random ! 3) (random ! 4) (random ! 5)),
        an_ssrc = word_of_nat (be32 (random ! 6) (random ! 7) (random ! 8) (random ! 9)),
        an_source = None, an_change_pending = False, an_retired = None, an_candidate = [],
        an_received = 0, an_malformed = 0, an_unexpected_payload = 0, an_unexpected_peer = 0,
        an_unselected = 0, an_playout = playout, an_reported = po_stats playout,
        an_last_report = now, an_last_received = now\<rparr>)"

definition audio_update_remote :: "sock_addr \<Rightarrow> g711 \<Rightarrow> instant \<Rightarrow> audio_network \<Rightarrow> audio_network" where
  "audio_update_remote address codec now n =
     (let n = (if address \<noteq> an_signaled n
               then n\<lparr>an_signaled := address, an_peer := peer_new address (an_symmetric n),
                      an_source := None, an_change_pending := False, an_retired := None,
                      an_candidate := [], an_last_received := now\<rparr>
               else if codec \<noteq> an_codec n
               then n\<lparr>an_change_pending := True, an_candidate := []\<rparr>
               else n)
      in n\<lparr>an_codec := codec\<rparr>)"

text \<open>\<open>send\<close>: the codec's encoder is SpanDSP's; \<open>failure\<close> is the socket's error, if any. Returns the
  datagram sent.\<close>

definition audio_send ::
  "(g711 \<Rightarrow> i16 list \<Rightarrow> byte list) \<Rightarrow> i16 list \<Rightarrow> native_error option \<Rightarrow> audio_network \<Rightarrow>
   (native_error + (byte list \<times> sock_addr)) \<times> audio_network" where
  "audio_send encode samples failure n =
     (let packet = rtp_packet (word_of_nat (payload_type (an_codec n))) (an_sequence n)
                     (an_timestamp n) (an_ssrc n) (encode (an_codec n) samples)
      in case failure of
           Some e \<Rightarrow> (Inl e, n)
         | None \<Rightarrow> (Inr (packet, pe_address (an_peer n)),
                    n\<lparr>an_sequence := an_sequence n + 1,
                      an_timestamp := an_timestamp n + word_of_nat frame_samples\<rparr>))"

text \<open>The probation of another stream: packets that continue the previous candidate collect.\<close>

definition continues :: "pending_audio \<Rightarrow> rtp \<Rightarrow> bool" where
  "continues previous packet \<longleftrightarrow>
     \<not> (pa_ssrc previous \<noteq> rtp_ssrc packet \<or>
        rtp_sequence packet \<noteq> pa_sequence previous + 1 \<or>
        rtp_timestamp packet \<noteq> pa_timestamp previous + word_of_nat (length (pa_payload previous)))"

definition pending_of :: "rtp \<Rightarrow> pending_audio" where
  "pending_of packet = \<lparr>pa_ssrc = rtp_ssrc packet, pa_sequence = rtp_sequence packet,
     pa_timestamp = rtp_timestamp packet, pa_payload = rtp_payload packet\<rparr>"

definition extend_candidate :: "rtp \<Rightarrow> pending_audio list \<Rightarrow> pending_audio list" where
  "extend_candidate packet cs =
     (if cs \<noteq> [] \<and> \<not> continues (last cs) packet then [] else cs) @ [pending_of packet]"

fun insert_pending ::
  "(g711 \<Rightarrow> byte \<Rightarrow> i16) \<Rightarrow> g711 \<Rightarrow> instant \<Rightarrow> pending_audio list \<Rightarrow> playout \<Rightarrow> playout" where
  "insert_pending decode codec now [] p = p"
| "insert_pending decode codec now (c # cs) p =
     insert_pending decode codec now cs
       (playout_insert decode (pa_timestamp c) (pa_payload c) codec now p)"

text \<open>The last part of the loop body: play a packet of the selected (or first) stream.\<close>

definition play_packet ::
  "(g711 \<Rightarrow> byte \<Rightarrow> i16) \<Rightarrow> instant \<Rightarrow> rtp \<Rightarrow> audio_network \<Rightarrow> audio_network" where
  "play_packet decode now packet n =
     (let p = (if an_source n = None then restart_stream (rtp_timestamp packet) (an_playout n)
               else an_playout n)
      in n\<lparr>an_candidate := [], an_change_pending := False, an_source := Some (rtp_ssrc packet),
           an_playout := playout_insert decode (rtp_timestamp packet) (rtp_payload packet)
                           (an_codec n) now p,
           an_last_received := now\<rparr>)"

text \<open>A change of stream: retire the old source and join the new one to the buffered tail.\<close>

definition switch_stream ::
  "(g711 \<Rightarrow> byte \<Rightarrow> i16) \<Rightarrow> instant \<Rightarrow> rtp \<Rightarrow> audio_network \<Rightarrow> audio_network" where
  "switch_stream decode now packet n =
     (let n = n\<lparr>an_retired := an_source n\<rparr>;
          timestamp = (case an_candidate n of c # _ \<Rightarrow> pa_timestamp c | [] \<Rightarrow> rtp_timestamp packet);
          p = restart_stream timestamp (an_playout n)
      in if an_candidate n \<noteq> []
         then n\<lparr>an_playout := insert_pending decode (an_codec n) now (an_candidate n) p,
                an_candidate := [], an_source := Some (rtp_ssrc packet), an_last_received := now\<rparr>
         else play_packet decode now packet (n\<lparr>an_playout := p\<rparr>))"

definition other_stream ::
  "(g711 \<Rightarrow> byte \<Rightarrow> i16) \<Rightarrow> instant \<Rightarrow> rtp \<Rightarrow> audio_network \<Rightarrow> audio_network" where
  "other_stream decode now packet n =
     (let n = n\<lparr>an_unselected := an_unselected n + 1\<rparr>
      in if an_retired n = Some (rtp_ssrc packet) then n
         else if \<not> an_change_pending n
         then (let n = n\<lparr>an_candidate := extend_candidate packet (an_candidate n)\<rparr>
               in if length (an_candidate n) < 3 then n else switch_stream decode now packet n)
         else switch_stream decode now packet n)"

definition receive_rtp ::
  "(g711 \<Rightarrow> byte \<Rightarrow> i16) \<Rightarrow> instant \<Rightarrow> sock_addr \<Rightarrow> rtp \<Rightarrow> audio_network \<Rightarrow> audio_network" where
  "receive_rtp decode now source packet n =
     (if unat (rtp_payload_type packet) \<noteq> payload_type (an_codec n) \<or> rtp_payload packet = [] \<or>
         length (rtp_payload packet) > 3200
      then n\<lparr>an_unexpected_payload := an_unexpected_payload n + 1\<rparr>
      else (case peer_accept source (rtp_sequence packet) (rtp_ssrc packet) (an_peer n) of
              (ok, peer) \<Rightarrow>
                let n = n\<lparr>an_peer := peer\<rparr>
                in if \<not> ok then n\<lparr>an_unexpected_peer := an_unexpected_peer n + 1\<rparr>
                   else if an_source n \<noteq> None \<and> an_source n \<noteq> Some (rtp_ssrc packet)
                   then other_stream decode now packet n
                   else play_packet decode now packet n))"

definition receive_datagram ::
  "(g711 \<Rightarrow> byte \<Rightarrow> i16) \<Rightarrow> instant \<Rightarrow> sock_addr \<Rightarrow> byte list \<Rightarrow> audio_network \<Rightarrow> audio_network" where
  "receive_datagram decode now source bytes n =
     (let (handled, m) = (case an_mapping n of
                            None \<Rightarrow> (False, None)
                          | Some m \<Rightarrow> (case mapping_receive source bytes m of (h, m) \<Rightarrow> (h, Some m)));
          n = n\<lparr>an_mapping := m\<rparr>
      in if handled then n
         else (case rtp_parse bytes of
                 None \<Rightarrow> n\<lparr>an_malformed := an_malformed n + 1\<rparr>
               | Some packet \<Rightarrow>
                   receive_rtp decode now source packet (n\<lparr>an_received := an_received n + 1\<rparr>)))"

datatype received = Datagram sock_addr "byte list" | WouldBlock | RecvFailed utext

text \<open>\<open>receive_packets\<close>: at most \<open>fuel\<close> (64) datagrams; the clock before each is an input.\<close>

fun receive_packets ::
  "(g711 \<Rightarrow> byte \<Rightarrow> i16) \<Rightarrow> nat \<Rightarrow> (instant \<times> received) list \<Rightarrow> audio_network \<Rightarrow>
   (native_error + unit) \<times> audio_network" where
  "receive_packets decode 0 inputs n = (Inr (), n)"
| "receive_packets decode (Suc k) [] n = (Inr (), n)"
| "receive_packets decode (Suc k) ((now, WouldBlock) # rest) n = (Inr (), n)"
| "receive_packets decode (Suc k) ((now, RecvFailed e) # rest) n = (Inl (NIo e), n)"
| "receive_packets decode (Suc k) ((now, Datagram source bytes) # rest) n =
     receive_packets decode k rest (receive_datagram decode now source bytes n)"

definition audio_report :: "instant \<Rightarrow> audio_network \<Rightarrow> audio_network" where
  "audio_report now n = n\<lparr>an_reported := po_stats (an_playout n), an_last_report := now\<rparr>"

definition audio_receive ::
  "(g711 \<Rightarrow> byte \<Rightarrow> i16) \<Rightarrow> (instant \<times> received) list \<Rightarrow> instant \<Rightarrow> audio_network \<Rightarrow>
   (native_error + i16 list option) \<times> audio_network" where
  "audio_receive decode inputs now n =
     and_then (receive_packets decode 64 inputs n) (\<lambda>_ n.
       case playout_receive now (an_playout n) of
         (frame, p) \<Rightarrow>
           let n = n\<lparr>an_playout := p\<rparr>
           in (Inr frame, if now - an_last_report n \<ge> secs 1 then audio_report now n else n))"

definition audio_drain ::
  "(g711 \<Rightarrow> byte \<Rightarrow> i16) \<Rightarrow> (instant \<times> received) list \<Rightarrow> audio_network \<Rightarrow>
   (native_error + i16 list list) \<times> audio_network" where
  "audio_drain decode inputs n =
     and_then (receive_packets decode 64 inputs n) (\<lambda>_ n.
       case playout_drain (an_playout n) of (frames, p) \<Rightarrow> (Inr frames, n\<lparr>an_playout := p\<rparr>))"

section \<open>Sending over UDPTL\<close>

text \<open>The \<open>udptl\<close> crate is a parameter: \<open>encode sequence primary redundancy\<close> is the datagram.\<close>

record packet_network =
  pn_peer :: peer
  pn_mapping :: "stun_mapping option"
  pn_sequence :: u16
  pn_history :: "byte list list"
  pn_max_datagram :: nat
  pn_last_activity :: instant
  pn_transmitted :: nat

text \<open>\<open>PacketNetwork::new\<close> clones the socket, which fails for no socket of this program
  (\<open>DatagramSocket::try_clone\<close> always returns \<open>Ok\<close>), so it has no error here.\<close>

definition packet_new ::
  "instant \<Rightarrow> sock_addr \<Rightarrow> nat \<Rightarrow> bool \<Rightarrow> stun_mapping option \<Rightarrow> packet_network" where
  "packet_new now address max_datagram symmetric mapping =
     \<lparr>pn_peer = peer_new address symmetric, pn_mapping = mapping, pn_sequence = 0, pn_history = [],
      pn_max_datagram = max_datagram, pn_last_activity = now, pn_transmitted = 0\<rparr>"

type_synonym udptl_encode = "u16 \<Rightarrow> byte list \<Rightarrow> byte list list \<Rightarrow> byte list"

text \<open>Drop the oldest redundant packets until the datagram fits; \<open>None\<close> when even the primary packet
  alone does not. The loop pops the last element, so it recurses on the reversed list.\<close>

function fit_datagram ::
  "udptl_encode \<Rightarrow> u16 \<Rightarrow> byte list \<Rightarrow> nat \<Rightarrow> byte list list \<Rightarrow> byte list option" where
  "fit_datagram encode sequence primary limit history =
     (let encoded = encode sequence primary history
      in if length encoded \<le> limit then Some encoded
         else if history \<noteq> [] then fit_datagram encode sequence primary limit (butlast history)
         else None)"
  by pat_completeness auto

termination
  by (relation "measure (\<lambda>(_, _, _, _, h). length h)") auto

declare fit_datagram.simps [simp del]

definition clamp_repetitions :: "nat \<Rightarrow> nat" where
  "clamp_repetitions r = max 1 (min 6 r)"

text \<open>\<open>failures\<close>: the error of each \<open>send_to\<close> of the repetition loop, in order.\<close>

fun send_repeated ::
  "nat \<Rightarrow> (nat \<Rightarrow> native_error option) \<Rightarrow> nat \<Rightarrow> packet_network \<Rightarrow> (native_error + unit) \<times> packet_network" where
  "send_repeated 0 failures len n = (Inr (), n)"
| "send_repeated (Suc k) failures len n =
     (case failures 0 of
        Some e \<Rightarrow> (Inl e, n)
      | None \<Rightarrow> send_repeated k (\<lambda>i. failures (Suc i)) len (n\<lparr>pn_transmitted := pn_transmitted n + len\<rparr>))"

definition carries_data :: "byte list \<Rightarrow> bool" where
  "carries_data payload \<longleftrightarrow> payload \<noteq> [] \<and> hd payload AND 0x40 \<noteq> 0"

definition packet_send ::
  "udptl_encode \<Rightarrow> (nat \<Rightarrow> native_error option) \<Rightarrow> instant \<Rightarrow> nat \<Rightarrow> byte list \<Rightarrow> packet_network \<Rightarrow>
   (native_error + byte list) \<times> packet_network" where
  "packet_send encode failures now repetitions payload n =
     (case fit_datagram encode (pn_sequence n) payload (pn_max_datagram n)
             (take 3 (rev (pn_history n))) of
        None \<Rightarrow> (Inl (NSip (lit ''T.38 IFP exceeds the peer's maximum datagram size'')), n)
      | Some encoded \<Rightarrow>
          and_then (send_repeated (clamp_repetitions repetitions) failures (length encoded) n) (\<lambda>_ n.
            let n = (if carries_data payload then n\<lparr>pn_last_activity := now\<rparr> else n);
                history = pn_history n @ [payload]
            in (Inr encoded, n\<lparr>pn_sequence := pn_sequence n + 1,
                  pn_history := drop (length history - 3) history\<rparr>)))"

text \<open>Receiving: \<open>decode\<close> yields sequence number and primary packet of a datagram, \<open>recover\<close> is the
  crate's redundancy receiver with its state.\<close>

definition packet_receive_one ::
  "(byte list \<Rightarrow> (u16 \<times> byte list) option) \<Rightarrow> ('r \<Rightarrow> byte list \<Rightarrow> 'i list \<times> 'r) \<Rightarrow>
   instant \<Rightarrow> sock_addr \<Rightarrow> byte list \<Rightarrow> packet_network \<times> 'r \<Rightarrow> 'i list \<times> (packet_network \<times> 'r)" where
  "packet_receive_one decode recover now source bytes s =
     (let n = fst s;
          (handled, m) = (case pn_mapping n of
                            None \<Rightarrow> (False, None)
                          | Some m \<Rightarrow> (case mapping_receive source bytes m of (h, m) \<Rightarrow> (h, Some m)));
          n = n\<lparr>pn_mapping := m\<rparr>
      in if handled then ([], (n, snd s))
         else (case decode bytes of
                 None \<Rightarrow> ([], (n, snd s))
               | Some (sequence, primary) \<Rightarrow>
                   if primary = [] then ([], (n, snd s))
                   else (case peer_accept source sequence 0 (pn_peer n) of
                           (ok, peer) \<Rightarrow>
                             let n = n\<lparr>pn_peer := peer\<rparr>
                             in if \<not> ok then ([], (n, snd s))
                                else (case recover (snd s) bytes of
                                        (recovered, r) \<Rightarrow>
                                          (recovered,
                                           (if recovered \<noteq> [] then n\<lparr>pn_last_activity := now\<rparr> else n, r))))))"

fun packet_receive ::
  "(byte list \<Rightarrow> (u16 \<times> byte list) option) \<Rightarrow> ('r \<Rightarrow> byte list \<Rightarrow> 'i list \<times> 'r) \<Rightarrow>
   nat \<Rightarrow> (instant \<times> received) list \<Rightarrow> packet_network \<times> 'r \<Rightarrow>
   (native_error + 'i list) \<times> (packet_network \<times> 'r)" where
  "packet_receive decode recover 0 inputs s = (Inr [], s)"
| "packet_receive decode recover (Suc k) [] s = (Inr [], s)"
| "packet_receive decode recover (Suc k) ((now, WouldBlock) # rest) s = (Inr [], s)"
| "packet_receive decode recover (Suc k) ((now, RecvFailed e) # rest) s = (Inl (NIo e), s)"
| "packet_receive decode recover (Suc k) ((now, Datagram source bytes) # rest) s =
     (case packet_receive_one decode recover now source bytes s of
        (recovered, s) \<Rightarrow> (case packet_receive decode recover k rest s of
          (Inr later, s) \<Rightarrow> (Inr (recovered @ later), s)
        | (Inl e, s) \<Rightarrow> (Inl e, s)))"

section \<open>Packets survive the wire\<close>

lemma length_to_be [simp]: "length (to_be16 w) = 2" "length (to_be32 v) = 4"
  by (simp_all add: to_be16_def to_be32_def)

lemma be16_nth_to_be16: "word_of_nat (be16 (to_be16 w ! 0) (to_be16 w ! 1)) = w"
  using be16_to_be16 [of w "to_be16 w ! 0" "to_be16 w ! 1"] by (simp add: to_be16_def)

lemma be32_nth_to_be32:
  "word_of_nat (be32 (to_be32 w ! 0) (to_be32 w ! 1) (to_be32 w ! 2) (to_be32 w ! 3)) = w"
  using be32_to_be32 [of w "to_be32 w ! 0" "to_be32 w ! 1" "to_be32 w ! 2" "to_be32 w ! 3"]
  by (simp add: to_be32_def)

lemma rtp_packet_nth:
  "rtp_packet pt sq ts ssrc pl ! 0 = 0x80" "rtp_packet pt sq ts ssrc pl ! 1 = pt"
  "rtp_packet pt sq ts ssrc pl ! 2 = to_be16 sq ! 0" "rtp_packet pt sq ts ssrc pl ! 3 = to_be16 sq ! 1"
  "rtp_packet pt sq ts ssrc pl ! 4 = to_be32 ts ! 0" "rtp_packet pt sq ts ssrc pl ! 5 = to_be32 ts ! 1"
  "rtp_packet pt sq ts ssrc pl ! 6 = to_be32 ts ! 2" "rtp_packet pt sq ts ssrc pl ! 7 = to_be32 ts ! 3"
  "rtp_packet pt sq ts ssrc pl ! 8 = to_be32 ssrc ! 0" "rtp_packet pt sq ts ssrc pl ! 9 = to_be32 ssrc ! 1"
  "rtp_packet pt sq ts ssrc pl ! 10 = to_be32 ssrc ! 2" "rtp_packet pt sq ts ssrc pl ! 11 = to_be32 ssrc ! 3"
  by (simp_all add: rtp_packet_def to_be16_def to_be32_def)

lemma length_rtp_packet [simp]: "length (rtp_packet pt sq ts ssrc pl) = 12 + length pl"
  by (simp add: rtp_packet_def)

lemma rtp_parse_packet:
  assumes "pt AND 0x7f = pt"
  shows "rtp_parse (rtp_packet pt sequence timestamp ssrc payload) =
    Some \<lparr>rtp_payload_type = pt, rtp_sequence = sequence, rtp_timestamp = timestamp,
          rtp_ssrc = ssrc, rtp_payload = payload\<rparr>"
proof -
  let ?p = "rtp_packet pt sequence timestamp ssrc payload"
  have bits: "drop_bit 6 (0x80 :: byte) = 2" "(0x80 :: byte) AND 15 = 0" "(0x80 :: byte) AND 0x10 = 0"
    "(0x80 :: byte) AND 0x20 = 0" by simp_all
  have s: "rtp_start ?p = Some 12" by (simp add: rtp_start_def rtp_packet_nth bits)
  have e: "rtp_end ?p = Some (12 + length payload)" by (simp add: rtp_end_def rtp_packet_nth bits)
  have pl: "take (length payload) (drop 12 ?p) = payload"
    by (simp add: rtp_packet_def to_be16_def to_be32_def)
  have len: "(12 \<le> 12 + length payload \<and> 12 + length payload \<le> length ?p) = True"
    "12 + length payload - 12 = length payload" by simp_all
  show ?thesis
    unfolding rtp_parse_def s e option.case len if_True pl rtp_packet_nth assms
      be16_nth_to_be16 be32_nth_to_be32 by simp
qed

text \<open>
  RTP packets survive the wire. Parsing the datagram that \<open>send\<close> builds gives back payload
  type, sequence number, time stamp, source and payload exactly.
\<close>

theorem rtp_roundtrip:
  assumes "pt AND 0x7f = pt"
  shows "rtp_parse (rtp_packet pt sequence timestamp ssrc payload) =
    Some \<lparr>rtp_payload_type = pt, rtp_sequence = sequence, rtp_timestamp = timestamp,
          rtp_ssrc = ssrc, rtp_payload = payload\<rparr>"
  using assms by (rule rtp_parse_packet)

theorem rtp_roundtrip_witness:
  "map_option rtp_timestamp (rtp_parse (rtp_packet 8 65535 4294967295 7 [1, 2, 3])) = Some 4294967295"
proof -
  have "(8 :: byte) AND 0x7f = 8" by simp
  from rtp_roundtrip [OF this] show ?thesis by simp
qed

section \<open>Which stream is played\<close>

text \<open>A list of candidates in sequence with a consistent sample clock.\<close>

fun chained :: "pending_audio list \<Rightarrow> bool" where
  "chained [] = True"
| "chained [c] = True"
| "chained (c # d # cs) =
     (pa_ssrc d = pa_ssrc c \<and> pa_sequence d = pa_sequence c + 1 \<and>
      pa_timestamp d = pa_timestamp c + word_of_nat (length (pa_payload c)) \<and> chained (d # cs))"

definition network_ok :: "audio_network \<Rightarrow> bool" where
  "network_ok n \<longleftrightarrow> playout_ok (an_playout n) \<and> chained (an_candidate n) \<and> length (an_candidate n) < 3"

lemma chained_snoc:
  "chained (cs @ [c]) \<Longrightarrow> continues c packet \<Longrightarrow> chained (cs @ [c, pending_of packet])"
  by (induction cs rule: chained.induct) (auto simp: continues_def pending_of_def)

lemma chained_extend: "chained cs \<Longrightarrow> chained (extend_candidate packet cs)"
  by (cases cs rule: rev_cases) (auto simp: extend_candidate_def intro: chained_snoc)

lemma length_extend: "length (extend_candidate packet cs) \<le> Suc (length cs)"
  by (simp add: extend_candidate_def)

lemma insert_pending_ok: "playout_ok p \<Longrightarrow> playout_ok (insert_pending decode c now cs p)"
  by (induction decode c now cs p rule: insert_pending.induct) (simp_all add: playout_insert_ok)

lemma play_packet_ok: "playout_ok (an_playout n) \<Longrightarrow> network_ok (play_packet decode now packet n)"
  by (simp add: play_packet_def network_ok_def Let_def playout_insert_ok)

lemma switch_stream_ok: "playout_ok (an_playout n) \<Longrightarrow> network_ok (switch_stream decode now packet n)"
proof (cases "an_candidate n = []")
  case True
  assume "playout_ok (an_playout n)"
  then have "network_ok (play_packet decode now packet
      (n\<lparr>an_retired := an_source n, an_playout := restart_stream (rtp_timestamp packet) (an_playout n)\<rparr>))"
    by (intro play_packet_ok) simp
  with True show ?thesis by (simp add: switch_stream_def Let_def)
next
  case False
  assume "playout_ok (an_playout n)"
  with False show ?thesis
    by (simp add: switch_stream_def Let_def network_ok_def insert_pending_ok)
qed

lemma other_stream_ok: "network_ok n \<Longrightarrow> network_ok (other_stream decode now packet n)"
  unfolding other_stream_def Let_def
  using chained_extend [of "an_candidate n" packet]
  by (auto simp: network_ok_def intro!: switch_stream_ok [unfolded network_ok_def])

lemma receive_rtp_ok: "network_ok n \<Longrightarrow> network_ok (receive_rtp decode now source packet n)"
proof -
  assume ok: "network_ok n"
  have "network_ok (n\<lparr>an_peer := p\<rparr>)" "network_ok (n\<lparr>an_peer := p, an_unexpected_peer := k\<rparr>)"
    "network_ok (n\<lparr>an_unexpected_payload := k\<rparr>)" for p k
    using ok by (simp_all add: network_ok_def)
  then show ?thesis
    using ok by (auto simp: receive_rtp_def Let_def case_prod_beta network_ok_def [of n]
        intro!: other_stream_ok play_packet_ok)
qed

lemma receive_datagram_ok: "network_ok n \<Longrightarrow> network_ok (receive_datagram decode now source bytes n)"
proof -
  assume ok: "network_ok n"
  have "network_ok (n\<lparr>an_mapping := m\<rparr>)" "network_ok (n\<lparr>an_mapping := m, an_malformed := k\<rparr>)"
    "network_ok (n\<lparr>an_mapping := m, an_received := k\<rparr>)" for m k
    using ok by (simp_all add: network_ok_def)
  then show ?thesis
    by (auto simp: receive_datagram_def Let_def case_prod_beta intro!: receive_rtp_ok split: option.splits)
qed

interpretation network_system: labelled_system
    "\<lambda>d. receive_datagram decode (fst d) (fst (snd d)) (snd (snd d))" network_ok "\<lambda>_ _. True"
  for decode by unfold_locales (rule receive_datagram_ok)

lemma play_packet_source [simp]:
  "an_source (play_packet decode now packet n) = Some (rtp_ssrc packet)"
  "an_retired (play_packet decode now packet n) = an_retired n"
  by (simp_all add: play_packet_def Let_def)

lemma switch_stream_source [simp]:
  "an_source (switch_stream decode now packet n) = Some (rtp_ssrc packet)"
  "an_retired (switch_stream decode now packet n) = an_source n"
  by (simp_all add: switch_stream_def Let_def)

text \<open>
  C36: The played stream changes only on evidence and without losing audio. If a datagram changes
  the selected RTP source, then the new source is the packet's own, it is not the one retired last,
  the old one is retired, and either a codec change was negotiated or the packet is the third in
  sequence of that source with a consistent sample clock - in which case all three packets are
  inserted behind the buffered tail.
\<close>

theorem stream_changes_on_evidence:
  assumes "network_ok n" "an_source n = Some old"
    and "an_source (receive_rtp decode now source packet n) = Some new" "new \<noteq> old"
  defines "n' \<equiv> receive_rtp decode now source packet n"
  shows "new = rtp_ssrc packet \<and> an_retired n \<noteq> Some new \<and> an_retired n' = Some old \<and>
    (an_change_pending n \<or>
     (\<exists>a b. an_candidate n = [a, b] \<and> chained [a, b, pending_of packet] \<and>
        an_playout n' = insert_pending decode (an_codec n) now [a, b, pending_of packet]
                          (restart_stream (pa_timestamp a) (an_playout n))))"
proof -
  obtain ok peer where acc: "peer_accept source (rtp_sequence packet) (rtp_ssrc packet) (an_peer n) = (ok, peer)"
    by (cases "peer_accept source (rtp_sequence packet) (rtp_ssrc packet) (an_peer n)")
  let ?m = "n\<lparr>an_peer := peer, an_unselected := an_unselected n + 1\<rparr>"
  let ?cs = "extend_candidate packet (an_candidate n)"
  have other: "n' = other_stream decode now packet (n\<lparr>an_peer := peer\<rparr>) \<and> rtp_ssrc packet \<noteq> old"
    using assms(2-4) unfolding n'_def
    by (auto simp: receive_rtp_def acc Let_def split: if_splits)
  have step: "n' = (if an_retired n = Some (rtp_ssrc packet) then ?m
      else if \<not> an_change_pending n
      then (if length ?cs < 3 then ?m\<lparr>an_candidate := ?cs\<rparr>
            else switch_stream decode now packet (?m\<lparr>an_candidate := ?cs\<rparr>))
      else switch_stream decode now packet ?m)"
    using other by (simp add: other_stream_def Let_def)
  have src: "an_source n' = Some new" using assms(3) by (simp add: n'_def)
  have ret: "an_retired n \<noteq> Some (rtp_ssrc packet)" and big: "an_change_pending n \<or> \<not> length ?cs < 3"
    using src assms(2,4) step by (auto split: if_splits)
  show ?thesis
  proof (cases "an_change_pending n")
    case True
    with step ret src assms(2) show ?thesis by auto
  next
    case False
    then have n': "n' = switch_stream decode now packet (?m\<lparr>an_candidate := ?cs\<rparr>)"
      and three: "\<not> length ?cs < 3" using step ret big by simp_all
    have "length (an_candidate n) < 3" using assms(1) by (simp add: network_ok_def)
    with three have cs: "?cs = an_candidate n @ [pending_of packet]" "length (an_candidate n) = 2"
      by (auto simp: extend_candidate_def split: if_splits)
    then obtain a b where ab: "an_candidate n = [a, b]"
      by (auto simp: length_Suc_conv numeral_2_eq_2)
    have "chained ?cs" using assms(1) by (intro chained_extend) (simp add: network_ok_def)
    then have "chained [a, b, pending_of packet]" using cs(1) unfolding ab by simp
    moreover have "an_playout n' = insert_pending decode (an_codec n) now [a, b, pending_of packet]
        (restart_stream (pa_timestamp a) (an_playout n))"
    proof -
      have "extend_candidate packet [a, b] = [a, b, pending_of packet]" using cs(1) unfolding ab by simp
      then show ?thesis unfolding n' ab by (simp add: switch_stream_def Let_def pending_of_def)
    qed
    moreover have "an_retired n' = Some old" "new = rtp_ssrc packet"
      using n' assms(2) src by simp_all
    ultimately show ?thesis using ab ret by auto
  qed
qed

definition sample_network :: audio_network where
  "sample_network =
     \<lparr>an_peer = peer_new (V4 192 0 2 9, 4000) True, an_signaled = (V4 192 0 2 9, 4000), an_symmetric = True,
      an_mapping = None, an_codec = Pcma, an_sequence = 65535, an_timestamp = 100, an_ssrc = 77,
      an_source = Some 1, an_change_pending = False, an_retired = None,
      an_candidate = [\<lparr>pa_ssrc = 2, pa_sequence = 9, pa_timestamp = 500, pa_payload = [1, 2]\<rparr>,
                      \<lparr>pa_ssrc = 2, pa_sequence = 10, pa_timestamp = 502, pa_payload = [3, 4]\<rparr>],
      an_received = 0, an_malformed = 0, an_unexpected_payload = 0, an_unexpected_peer = 0,
      an_unselected = 2, an_playout = sample_playout, an_reported = po_stats sample_playout,
      an_last_report = 0, an_last_received = 0\<rparr>"

theorem stream_changes_on_evidence_witness:
  "an_retired (receive_rtp (\<lambda>_. ucast) 7 (V4 192 0 2 9, 4000)
     \<lparr>rtp_payload_type = 8, rtp_sequence = 11, rtp_timestamp = 504, rtp_ssrc = 2, rtp_payload = [5, 6]\<rparr>
     sample_network) = Some 1"
proof -
  let ?packet = "\<lparr>rtp_payload_type = 8, rtp_sequence = 11, rtp_timestamp = 504, rtp_ssrc = 2,
     rtp_payload = [5, 6]\<rparr> :: rtp"
  have ok: "network_ok sample_network"
    by (simp add: network_ok_def sample_network_def sample_playout_ok)
  have old: "an_source sample_network = Some 1" by (simp add: sample_network_def)
  have new: "an_source (receive_rtp (\<lambda>_. ucast) 7 (V4 192 0 2 9, 4000) ?packet sample_network) = Some 2"
    by code_simp
  have "(2 :: u32) \<noteq> 1" by simp
  from stream_changes_on_evidence [OF ok old new this] show ?thesis by blast
qed

section \<open>One network sending to another\<close>

fun send_frames ::
  "(g711 \<Rightarrow> i16 list \<Rightarrow> byte list) \<Rightarrow> i16 list list \<Rightarrow> audio_network \<Rightarrow> byte list list \<times> audio_network" where
  "send_frames encode [] n = ([], n)"
| "send_frames encode (f # fs) n =
     (case audio_send encode f None n of
        (Inr (d, _), n) \<Rightarrow> (case send_frames encode fs n of (ds, n) \<Rightarrow> (d # ds, n))
      | (Inl e, n) \<Rightarrow> ([], n))"

definition deliver ::
  "(g711 \<Rightarrow> byte \<Rightarrow> i16) \<Rightarrow> sock_addr \<Rightarrow> instant \<Rightarrow> byte list list \<Rightarrow> audio_network \<Rightarrow> audio_network" where
  "deliver decode source now ds n = run (\<lambda>d. receive_datagram decode now source d) ds n"

text \<open>The receiver after \<open>bs\<close> bytes of a stream that began at time stamp \<open>ts\<close>.\<close>

definition hearing ::
  "(g711 \<Rightarrow> byte \<Rightarrow> i16) \<Rightarrow> sock_addr \<Rightarrow> g711 \<Rightarrow> u32 \<Rightarrow> u32 \<Rightarrow> int \<Rightarrow> byte list \<Rightarrow> audio_network \<Rightarrow> bool" where
  "hearing decode source codec ssrc ts cap bs n \<longleftrightarrow>
     an_mapping n = None \<and> an_codec n = codec \<and> pe_address (an_peer n) = source \<and>
     playout_ok (an_playout n) \<and> capacity (an_playout n) = cap \<and> \<not> po_started (an_playout n) \<and>
     po_cursor (an_playout n) = 0 \<and> po_end (an_playout n) = int (length bs) \<and>
     content (an_playout n) =
       (\<lambda>x. if 0 \<le> x \<and> x < int (length bs) then Some (decode codec (bs ! nat x)) else None) \<and>
     (if bs = [] then an_source n = None \<and> po_anchor (an_playout n) = None
      else an_source n = Some ssrc \<and> po_anchor (an_playout n) = Some ts)"

lemma insert_samples_fresh:
  assumes "playout_ok p" "po_cursor p \<le> pos" "pos + int (length ss) \<le> po_cursor p + capacity p"
    "\<forall>x. pos \<le> x \<and> x < pos + int (length ss) \<longrightarrow> content p x = None" "po_end p \<le> pos" "ss \<noteq> []"
  shows "po_end (insert_samples pos ss p) = pos + int (length ss) \<and>
    po_cursor (insert_samples pos ss p) = po_cursor p \<and> capacity (insert_samples pos ss p) = capacity p \<and>
    po_anchor (insert_samples pos ss p) = po_anchor p \<and> po_started (insert_samples pos ss p) = po_started p"
  using assms
proof (induction ss arbitrary: pos p)
  case (Cons s ss)
  have c: "content p pos = None" using Cons.prems(4) by simp
  have slot: "po_samples p ! slot p pos = None"
    using c Cons.prems(2,3) unfolding content_def by (simp add: window_of_def)
  let ?q = "insert_sample pos s p"
  have q: "?q = p\<lparr>po_samples := (po_samples p)[slot p pos := Some s], po_end := max (po_end p) (pos + 1)\<rparr>"
    using Cons.prems(2,3) slot by (simp add: insert_sample_def Let_def)
  have ok: "playout_ok ?q" by (rule window_insert_refines(2) [OF Cons.prems(1)])
  show ?case
  proof (cases "ss = []")
    case True
    with Cons.prems(5) show ?thesis by (simp add: q capacity_def)
  next
    case False
    have "content ?q x = None" if "pos + 1 \<le> x" "x < pos + 1 + int (length ss)" for x
      using that Cons.prems(4) by (simp add: content_insert_sample [OF Cons.prems(1)])
    then have "po_end (insert_samples (pos + 1) ss ?q) = pos + 1 + int (length ss) \<and>
        po_cursor (insert_samples (pos + 1) ss ?q) = po_cursor ?q \<and>
        capacity (insert_samples (pos + 1) ss ?q) = capacity ?q \<and>
        po_anchor (insert_samples (pos + 1) ss ?q) = po_anchor ?q \<and>
        po_started (insert_samples (pos + 1) ss ?q) = po_started ?q"
      using Cons.prems False ok by (intro Cons.IH) (simp_all add: q capacity_def)
    then show ?thesis by (simp add: q capacity_def)
  qed
qed simp

lemma playout_anchor_frame:
  "playout_ok (p\<lparr>po_anchor := a, po_next := b\<rparr>) = playout_ok p"
  "playout_ok (p\<lparr>po_anchor := a\<rparr>) = playout_ok p"
  "capacity (p\<lparr>po_anchor := a, po_next := b\<rparr>) = capacity p"
  "capacity (p\<lparr>po_anchor := a\<rparr>) = capacity p"
  "content (p\<lparr>po_anchor := a, po_next := b\<rparr>) = content p"
  "content (p\<lparr>po_anchor := a\<rparr>) = content p"
  by (simp_all add: playout_ok_def capacity_def slot_def content_def window_of_def cong: if_cong)

lemma hearing_step:
  assumes h: "hearing decode source codec ssrc ts cap bs n"
    and pl: "pl \<noteq> []" "length pl \<le> 3200"
    and fit: "int (length bs + length pl) \<le> cap" "cap < 2 ^ 31"
  shows "hearing decode source codec ssrc ts cap (bs @ pl)
    (receive_rtp decode now source \<lparr>rtp_payload_type = word_of_nat (payload_type codec), rtp_sequence = sq,
       rtp_timestamp = ts + word_of_nat (length bs), rtp_ssrc = ssrc, rtp_payload = pl\<rparr>
       (n\<lparr>an_received := k\<rparr>))"
proof -
  let ?t = "ts + word_of_nat (length bs)"
  let ?packet = "\<lparr>rtp_payload_type = word_of_nat (payload_type codec), rtp_sequence = sq,
       rtp_timestamp = ?t, rtp_ssrc = ssrc, rtp_payload = pl\<rparr>"
  let ?p = "an_playout n"
  have pt: "unat (word_of_nat (payload_type codec) :: byte) = payload_type codec"
    by (cases codec) (simp_all add: payload_type_def)
  have src: "an_source n = None \<or> an_source n = Some ssrc"
    and ok: "playout_ok ?p" and cap: "capacity ?p = cap" and started: "\<not> po_started ?p"
    and cur: "po_cursor ?p = 0" and end': "po_end ?p = int (length bs)"
    and codec: "an_codec n = codec"
    and con: "content ?p = (\<lambda>x. if 0 \<le> x \<and> x < int (length bs) then Some (decode codec (bs ! nat x)) else None)"
    and anchor: "if bs = [] then an_source n = None \<and> po_anchor ?p = None
      else an_source n = Some ssrc \<and> po_anchor ?p = Some ts"
    using h by (auto simp: hearing_def split: if_splits)
  define q where "q = establish_anchor ?t now (if an_source n = None then restart_stream ?t ?p else ?p)"
  have rcv: "receive_rtp decode now source ?packet (n\<lparr>an_received := k\<rparr>) =
      play_packet decode now ?packet (n\<lparr>an_received := k, an_peer := (an_peer n)\<lparr>pe_pinned := True\<rparr>\<rparr>)"
    using h pl src by (auto simp: receive_rtp_def pt hearing_def peer_accept_def Let_def)
  have q: "playout_ok q" "capacity q = cap" "\<not> po_started q" "po_cursor q = 0" "po_end q = int (length bs)"
      "po_anchor q = Some ts" "content q = content ?p"
    using ok cap started cur end' anchor
    by (auto simp: q_def establish_anchor_def restart_stream_def playout_anchor_frame split: if_splits)
  have off: "packet_offset ?t q = int (length bs)"
  proof -
    have "int (length bs) < 2 ^ 31" using fit by simp
    moreover have "(word_of_nat (length bs) :: u32) = word_of_int (int (length bs))" by simp
    ultimately have "sint (word_of_nat (length bs) :: u32) = int (length bs)"
      by (simp only: signed_of_int) (simp add: signed_take_bit_int_eq_self)
    then show ?thesis using q(6) by (simp add: packet_offset_def)
  qed
  have adm: "admit_preceding (int (length bs)) q = q" using q by (simp add: admit_preceding_def)
  let ?ss = "map (decode codec) pl"
  let ?r = "insert_samples (int (length bs)) ?ss q"
  have ins: "playout_insert decode ?t pl codec now (if an_source n = None then restart_stream ?t ?p else ?p) = ?r"
    using pl(1) off adm by (simp only: playout_insert_def Let_def q_def [symmetric] if_False)
  have fresh: "po_end ?r = int (length bs) + int (length ?ss) \<and> po_cursor ?r = po_cursor q \<and>
      capacity ?r = capacity q \<and> po_anchor ?r = po_anchor q \<and> po_started ?r = po_started q"
    using q con pl(1) fit(1) by (intro insert_samples_fresh) simp_all
  have "content ?r = (\<lambda>x. if 0 \<le> x \<and> x < int (length (bs @ pl)) then Some (decode codec ((bs @ pl) ! nat x)) else None)"
    using q con fit(1)
    by (auto simp: content_insert_samples nth_append nat_diff_distrib fun_eq_iff nat_less_iff)
  moreover have "playout_ok ?r" using q(1) by (rule insert_samples_ok)
  moreover have "play_packet decode now ?packet
      (n\<lparr>an_received := k, an_peer := (an_peer n)\<lparr>pe_pinned := True\<rparr>\<rparr>) =
    n\<lparr>an_received := k, an_peer := (an_peer n)\<lparr>pe_pinned := True\<rparr>, an_candidate := [],
      an_change_pending := False, an_source := Some ssrc, an_playout := ?r, an_last_received := now\<rparr>"
    using ins codec by (simp add: play_packet_def cong: if_cong)
  ultimately show ?thesis
    unfolding rcv using h fresh q pl(1) by (simp add: hearing_def)
qed

lemma payload_type_seven: "(word_of_nat (payload_type codec) :: byte) AND 0x7f = word_of_nat (payload_type codec)"
  by (cases codec) (simp_all add: payload_type_def)

lemma receive_datagram_packet:
  assumes "an_mapping n = None" "pt AND 0x7f = pt"
  shows "receive_datagram decode now source (rtp_packet pt sq ts ssrc pl) n =
    receive_rtp decode now source \<lparr>rtp_payload_type = pt, rtp_sequence = sq, rtp_timestamp = ts,
      rtp_ssrc = ssrc, rtp_payload = pl\<rparr> (n\<lparr>an_received := an_received n + 1\<rparr>)"
  using assms by (cases n) (simp add: receive_datagram_def rtp_parse_packet)

lemma hearing_send:
  assumes "hearing decode source codec (an_ssrc s) ts cap bs n" "an_codec s = codec"
    "an_timestamp s = ts + word_of_nat (length bs)"
    "\<forall>f \<in> set fs. length (encode codec f) = 160"
    "int (length bs + 160 * length fs) \<le> cap" "cap < 2 ^ 31"
  shows "hearing decode source codec (an_ssrc s) ts cap (bs @ concat (map (encode codec) fs))
    (deliver decode source now (fst (send_frames encode fs s)) n)"
  using assms
proof (induction fs arbitrary: bs s n)
  case (Cons f fs)
  let ?pl = "encode codec f"
  let ?d = "rtp_packet (word_of_nat (payload_type codec)) (an_sequence s) (an_timestamp s) (an_ssrc s) ?pl"
  let ?s = "s\<lparr>an_sequence := an_sequence s + 1, an_timestamp := an_timestamp s + 160\<rparr>"
  let ?n = "receive_datagram decode now source ?d n"
  have len: "length ?pl = 160" using Cons.prems(4) by simp
  have sent: "fst (send_frames encode (f # fs) s) = ?d # fst (send_frames encode fs ?s)"
    using Cons.prems(2) by (simp add: audio_send_def frame_samples_def case_prod_beta)
  have m: "an_mapping n = None" using Cons.prems(1) by (simp add: hearing_def)
  have "?pl \<noteq> []" "length ?pl \<le> 3200" "int (length bs + length ?pl) \<le> cap" using len Cons.prems(5) by auto
  from hearing_step [OF Cons.prems(1) this Cons.prems(6)]
  have "hearing decode source codec (an_ssrc s) ts cap (bs @ ?pl) ?n"
    unfolding Cons.prems(3) receive_datagram_packet [OF m payload_type_seven] .
  then have "hearing decode source codec (an_ssrc ?s) ts cap (bs @ ?pl) ?n" by simp
  from Cons.IH [OF this] Cons.prems(2-6) len
  have "hearing decode source codec (an_ssrc s) ts cap ((bs @ ?pl) @ concat (map (encode codec) fs))
      (deliver decode source now (fst (send_frames encode fs ?s)) ?n)"
    by (simp add: algebra_simps)
  then show ?case by (simp add: sent deliver_def del: send_frames.simps)
qed (simp add: deliver_def)

lemma hearing_new:
  assumes "audio_new random now source codec symmetric None delay_ms = Inr n"
  shows "hearing decode source codec ssrc ts (int ((delay_ms + 1000) * 8)) [] n" and "delay_ms \<le> 1000"
  using assms playout_new_ok [of delay_ms]
  by (auto simp: audio_new_def hearing_def playout_new_def validate_playout_delay_def peer_new_def
      capacity_def content_def window_of_def slot_def res_bind_def fun_eq_iff nat_less_iff split: sum.splits if_splits)

text \<open>
  C35: Audio arrives intact end to end. Whatever start values the sender drew, every frame it sends
  to a fresh receiver that has no STUN mapping and whose buffer the frames fit is found decoded in
  the receiver's playout buffer, consecutively from position 0, in order, and nothing else is there.
\<close>

theorem audio_stream_arrives:
  assumes "audio_new random start source codec symmetric None delay_ms = Inr receiver"
    and "an_codec sender = codec"
    and "\<forall>f \<in> set frames. length (encode codec f) = 160"
    and "length frames * 160 \<le> (delay_ms + 1000) * 8"
  shows "content (an_playout (deliver decode source now (fst (send_frames encode frames sender)) receiver)) =
    (\<lambda>x. let bs = concat (map (encode codec) frames)
         in if 0 \<le> x \<and> x < int (length bs) then Some (decode codec (bs ! nat x)) else None)"
proof -
  have fit: "int (length [] + 160 * length frames) \<le> int ((delay_ms + 1000) * 8)"
    using assms(4) by simp
  have cap: "int ((delay_ms + 1000) * 8) < 2 ^ 31" using hearing_new(2) [OF assms(1)] by simp
  have start: "an_timestamp sender = an_timestamp sender + word_of_nat (length ([] :: byte list))" by simp
  from hearing_send [where s = sender and encode = encode and fs = frames,
      OF hearing_new(1) [OF assms(1), of decode "an_ssrc sender" "an_timestamp sender"] assms(2) start assms(3) fit cap, of now]
  show ?thesis by (simp add: hearing_def Let_def)
qed

theorem audio_stream_arrives_witness:
  "content (an_playout (deliver (\<lambda>_ b. ucast b) (V4 192 0 2 9, 4000) 5
     (fst (send_frames (\<lambda>_ f. map ucast f) [replicate 160 7, replicate 160 9] sample_network))
     (projr (audio_new [1, 2, 3, 4, 5, 6, 7, 8, 9, 10] 0 (V4 192 0 2 9, 4000) Pcma True None 40)))) 160 = Some 9"
proof -
  let ?enc = "\<lambda>_ f. map ucast (f :: i16 list) :: byte list" and ?dec = "\<lambda>_ b. ucast (b :: byte) :: i16"
  let ?new = "audio_new [1, 2, 3, 4, 5, 6, 7, 8, 9, 10] 0 (V4 192 0 2 9, 4000) Pcma True None 40"
  have new: "?new = Inr (projr ?new)"
    by (simp add: audio_new_def playout_new_def validate_playout_delay_def)
  have codec: "an_codec sample_network = Pcma" by (simp add: sample_network_def)
  have len: "\<forall>f \<in> set [replicate 160 7, replicate 160 9 :: i16 list]. length (?enc Pcma f) = 160" by simp
  have fit: "length [replicate 160 7, replicate 160 9 :: i16 list] * 160 \<le> (40 + 1000) * 8" by simp
  from audio_stream_arrives [OF new codec len fit, of ?dec 5]
  show ?thesis by (simp add: Let_def nth_append)
qed

section \<open>What a UDPTL datagram carries\<close>

definition fits :: "udptl_encode \<Rightarrow> u16 \<Rightarrow> byte list \<Rightarrow> nat \<Rightarrow> byte list list \<Rightarrow> nat \<Rightarrow> bool" where
  "fits encode sq payload limit history k \<longleftrightarrow> length (encode sq payload (take k history)) \<le> limit"

lemma fit_datagram_greatest:
  "case fit_datagram encode sq payload limit history of
     Some d \<Rightarrow> (\<exists>k \<le> length history. d = encode sq payload (take k history) \<and>
       fits encode sq payload limit history k \<and>
       (\<forall>j. k < j \<and> j \<le> length history \<longrightarrow> \<not> fits encode sq payload limit history j))
   | None \<Rightarrow> (\<forall>j \<le> length history. \<not> fits encode sq payload limit history j)"
proof (induction encode sq payload limit history rule: fit_datagram.induct)
  case (1 encode sq payload limit history)
  show ?case
  proof (cases "length (encode sq payload history) \<le> limit")
    case True
    then show ?thesis
      by (auto simp: fit_datagram.simps [of encode sq payload limit history] fits_def Let_def intro!: exI [of _ "length history"])
  next
    case no: False
    show ?thesis
    proof (cases "history = []")
      case True
      with no show ?thesis by (simp add: fit_datagram.simps [of encode sq payload limit "[]"] fits_def)
    next
      case False
      then obtain n where len: "length history = Suc n" by (cases history) auto
      have take: "take j (butlast history) = take j history" if "j \<le> n" for j
        using that len by (simp add: take_butlast)
      have full: "\<not> fits encode sq payload limit history (Suc n)" using no len by (simp add: fits_def)
      have eq: "fit_datagram encode sq payload limit history =
          fit_datagram encode sq payload limit (butlast history)"
        using no False by (simp add: fit_datagram.simps [of encode sq payload limit history])
      have same: "fits encode sq payload limit (butlast history) j = fits encode sq payload limit history j"
        if "j \<le> n" for j using take that by (simp add: fits_def)
      have IH: "case fit_datagram encode sq payload limit (butlast history) of
          Some d \<Rightarrow> (\<exists>k \<le> n. d = encode sq payload (take k (butlast history)) \<and>
            fits encode sq payload limit (butlast history) k \<and>
            (\<forall>j. k < j \<and> j \<le> n \<longrightarrow> \<not> fits encode sq payload limit (butlast history) j))
        | None \<Rightarrow> (\<forall>j \<le> n. \<not> fits encode sq payload limit (butlast history) j)"
      proof -
        have "length (butlast history) = n" using len by simp
        then show ?thesis using 1 [OF refl no False] by (simp only:)
      qed
      show ?thesis
      proof (cases "fit_datagram encode sq payload limit (butlast history)")
        case None
        with IH same full len show ?thesis by (auto simp: eq le_Suc_eq)
      next
        case (Some d)
        with IH obtain k where k: "k \<le> n" "d = encode sq payload (take k (butlast history))"
          "fits encode sq payload limit (butlast history) k"
          "\<And>j. k < j \<and> j \<le> n \<Longrightarrow> \<not> fits encode sq payload limit (butlast history) j" by auto
        have "\<not> fits encode sq payload limit history j" if "k < j" "j \<le> Suc n" for j
          using that k(4) [of j] same [of j] full by (cases "j = Suc n") auto
        with k Some same [OF k(1)] take [OF k(1)] len show ?thesis
          by (auto simp: eq intro!: exI [of _ k])
      qed
    qed
  qed
qed

lemma send_repeated_frame:
  "send_repeated r failures len n = (res, n') \<Longrightarrow>
    \<exists>t. n' = n\<lparr>pn_transmitted := t\<rparr> \<and>
      (case res of Inr _ \<Rightarrow> t = pn_transmitted n + r * len \<and> (\<forall>i < r. failures i = None)
       | Inl e \<Rightarrow> \<exists>i < r. failures i = Some e)"
proof (induction r failures len n rule: send_repeated.induct)
  case (1 failures len n)
  then show ?case by (auto intro: exI [of _ "pn_transmitted n"])
next
  case (2 k failures len n)
  show ?case
  proof (cases "failures 0")
    case None
    with 2 have "\<exists>t. n' = n\<lparr>pn_transmitted := t\<rparr> \<and>
      (case res of Inr _ \<Rightarrow> t = pn_transmitted n + len + k * len \<and> (\<forall>i < k. failures (Suc i) = None)
       | Inl e \<Rightarrow> \<exists>i < k. failures (Suc i) = Some e)"
      by (cases res) auto
    with None show ?thesis by (cases res) (auto simp: less_Suc_eq_0_disj)
  next
    case (Some e)
    with 2 have "res = Inl e" "n' = n\<lparr>pn_transmitted := pn_transmitted n\<rparr>" by simp_all
    moreover have "\<exists>i < Suc k. failures i = Some e" using Some by blast
    ultimately show ?thesis by (intro exI [of _ "pn_transmitted n"]) simp
  qed
qed

text \<open>
  Redundancy of T.38. A sent datagram carries the new packet and as many of the last three
  packets, newest first, as the peer's maximum datagram size admits; sending advances the sequence
  number by one and remembers the packet. A failed send changes neither, and it fails only when a
  socket write fails or when even the bare packet exceeds the peer's maximum.
\<close>

theorem udptl_carries_most_redundancy:
  assumes "packet_send encode failures now repetitions payload n = (result, n')"
  shows "case result of
      Inr d \<Rightarrow> pn_sequence n' = pn_sequence n + 1 \<and>
        pn_history n' = rev (take 3 (payload # rev (pn_history n))) \<and>
        pn_transmitted n' = pn_transmitted n + clamp_repetitions repetitions * length d \<and>
        length d \<le> pn_max_datagram n \<and>
        (\<exists>k \<le> 3. d = encode (pn_sequence n) payload (take k (rev (pn_history n))) \<and>
          (\<forall>j. k < j \<and> j \<le> min 3 (length (pn_history n)) \<longrightarrow>
            pn_max_datagram n < length (encode (pn_sequence n) payload (take j (rev (pn_history n))))))
    | Inl e \<Rightarrow> pn_sequence n' = pn_sequence n \<and> pn_history n' = pn_history n \<and>
        (pn_max_datagram n < length (encode (pn_sequence n) payload []) \<or>
         (\<exists>i < clamp_repetitions repetitions. failures i = Some e))"
proof -
  let ?h = "take 3 (rev (pn_history n))" and ?fit = "fit_datagram encode (pn_sequence n) payload (pn_max_datagram n)"
  note great = fit_datagram_greatest [where encode = encode and sq = "pn_sequence n" and payload = payload
      and limit = "pn_max_datagram n" and history = ?h]
  show ?thesis
  proof (cases "?fit ?h")
    case None
    have "\<not> fits encode (pn_sequence n) payload (pn_max_datagram n) ?h 0" using great None by simp
    with None assms show ?thesis by (auto simp: packet_send_def fits_def)
  next
    case (Some d)
    obtain r m where sent: "send_repeated (clamp_repetitions repetitions) failures (length d) n = (r, m)"
      by fastforce
    from send_repeated_frame [OF sent] obtain t where frame: "m = n\<lparr>pn_transmitted := t\<rparr>"
      "case r of Inr _ \<Rightarrow> t = pn_transmitted n + clamp_repetitions repetitions * length d
       | Inl e \<Rightarrow> \<exists>i < clamp_repetitions repetitions. failures i = Some e"
      by (cases r) auto
    from great Some obtain k where k: "k \<le> length ?h" "d = encode (pn_sequence n) payload (take k ?h)"
      "fits encode (pn_sequence n) payload (pn_max_datagram n) ?h k"
      "\<And>j. k < j \<Longrightarrow> j \<le> length ?h \<Longrightarrow> \<not> fits encode (pn_sequence n) payload (pn_max_datagram n) ?h j"
      by auto
    have k3: "k \<le> 3" using k(1) by simp
    show ?thesis
    proof (cases r)
      case (Inl e)
      with assms Some sent have "result = Inl e" "n' = m" by (simp_all add: packet_send_def)
      with Inl frame show ?thesis by auto
    next
      case (Inr u)
      have m: "pn_sequence m = pn_sequence n" "pn_history m = pn_history n"
        "pn_transmitted m = pn_transmitted n + clamp_repetitions repetitions * length d"
        using frame Inr by auto
      have res: "result = Inr d" "pn_sequence n' = pn_sequence m + 1" "pn_transmitted n' = pn_transmitted m"
        "pn_history n' = drop (length (pn_history m @ [payload]) - 3) (pn_history m @ [payload])"
        using assms Some sent Inr by (auto simp: packet_send_def Let_def)
      have hist: "pn_history n' = rev (take 3 (payload # rev (pn_history n)))"
        unfolding res(4) m by (simp add: rev_take)
      have more: "pn_max_datagram n < length (encode (pn_sequence n) payload (take j (rev (pn_history n))))"
        if "k < j" "j \<le> min 3 (length (pn_history n))" for j
      proof -
        have "j \<le> length ?h" "take j ?h = take j (rev (pn_history n))" using that by simp_all
        with k(4) [OF that(1)] show ?thesis by (simp add: fits_def not_le)
      qed
      have "d = encode (pn_sequence n) payload (take k (rev (pn_history n)))"
        using k(2) k3 by (simp add: min_def)
      with k(3) k3 more res(1-3) m hist show ?thesis by (auto simp: fits_def min_def intro!: exI [of _ k])
    qed
  qed
qed

definition sample_packet_network :: packet_network where
  "sample_packet_network =
     \<lparr>pn_peer = peer_new (V4 192 0 2 9, 4000) True, pn_mapping = None, pn_sequence = 65535,
      pn_history = [[1], [2, 2], [3, 3, 3]], pn_max_datagram = 6, pn_last_activity = 0, pn_transmitted = 0\<rparr>"

theorem udptl_carries_most_redundancy_witness:
  "pn_history (snd (packet_send (\<lambda>_ p h. p @ concat h) (\<lambda>_. None) 5 2 [4] sample_packet_network)) =
     [[2, 2], [3, 3, 3], [4]]"
proof -
  have "packet_send (\<lambda>_ p h. p @ concat h) (\<lambda>_. None) 5 2 [4] sample_packet_network =
      (Inr [4, 3, 3, 3, 2, 2],
       snd (packet_send (\<lambda>_ p h. p @ concat h) (\<lambda>_. None) 5 2 [4] sample_packet_network))"
    by code_simp
  from udptl_carries_most_redundancy [OF this]
  show ?thesis by (simp add: sample_packet_network_def)
qed

end
