(* ===== verification/Sender.thy ===== *)
theory Sender
  imports Receive
begin

text \<open>
  The boundary between the engine and the SIP service: progress and receipts (\<open>engine.rs\<close>), accounts
  and modes and the transmission loop of the SIP backend (\<open>sender.rs\<close>), and the commands the
  service accepts (\<open>sip/service.rs\<close>).
\<close>

section \<open>Progress and receipts\<close>

datatype transmission_progress =
    PgStage fax_stage
  | PgAcknowledged nat
  | PgActivity nat
  | PgPage page_progress

record receipt =
  rc_acknowledged :: nat

section \<open>Accounts and modes\<close>

fun signaling_of :: "sip_transport \<Rightarrow> signaling_transport" where
  "signaling_of TUdp = SigUdp"
| "signaling_of TTcp = SigTcp"
| "signaling_of TTls = SigTls"

fun transport_of :: "signaling_transport \<Rightarrow> sip_transport" where
  "transport_of SigUdp = TUdp"
| "transport_of SigTcp = TTcp"
| "transport_of SigTls = TTls"

definition account :: "sip_profile \<Rightarrow> utext option \<Rightarrow> service_account" where
  "account p password =
     \<lparr>sa_id = prof_id p, sa_server = prof_server p, sa_port = prof_port p,
      sa_transport = signaling_of (prof_transport p), sa_username = prof_username p,
      sa_auth_username = prof_auth_username p, sa_password = password, sa_register = prof_register p,
      sa_outbound_proxy = prof_outbound_proxy p, sa_playout_delay = prof_playout_delay p,
      sa_automatic_nat = prof_automatic_nat p, sa_stun_server = prof_stun_server p\<rparr>"

fun call_mode_of :: "fax_mode \<Rightarrow> call_mode" where
  "call_mode_of FAuto = MAuto"
| "call_mode_of FT38 = MT38"
| "call_mode_of FG711 = MG711"

fun fax_mode_of :: "call_mode \<Rightarrow> fax_mode" where
  "fax_mode_of MAuto = FAuto"
| "fax_mode_of MT38 = FT38"
| "fax_mode_of MG711 = FG711"

section \<open>The commands of the SIP service\<close>

record service_send =
  ss_account :: service_account
  ss_destination :: utext
  ss_file :: path
  ss_station_id :: utext
  ss_mode :: call_mode

text \<open>The \<open>offer\<close> callback of a receive configuration is a closure over the profile and the settings
  it was installed with; \<open>rc_offer\<close> holds what it captures.\<close>

record receive_config =
  rc_account :: service_account
  rc_station_id :: utext
  rc_mode :: call_mode
  rc_ecm :: bool
  rc_offer :: "uuid option \<times> utext \<times> receive_settings"

datatype command =
    CmConfigure "receive_config option" "listener_config option"
  | CmSend service_send
  | CmCancelIncoming uuid
  | CmAdmit uuid "native_error + path"
  | CmReject uuid
  | CmReconnect
  | CmStop

definition service_stopped :: native_error where
  "service_stopped = NSip (lit ''SIP service stopped'')"

text \<open>The validation each public operation of \<open>SipService\<close> makes before it enqueues its command.\<close>

definition configure_command :: "receive_config option \<Rightarrow> native_error + command" where
  "configure_command config =
     (case config of
        None \<Rightarrow> Inr (CmConfigure None None)
      | Some c \<Rightarrow> res_bind (validate_playout_delay (sa_playout_delay (rc_account c)))
                    (\<lambda>_. Inr (CmConfigure (Some c) None)))"

definition listener_command :: "receive_config \<Rightarrow> listener_config \<Rightarrow> native_error + command" where
  "listener_command c l =
     res_bind (listener_validate l) (\<lambda>_.
     res_bind (validate_playout_delay (sa_playout_delay (rc_account c))) (\<lambda>_.
     Inr (CmConfigure (Some c) (Some l))))"

definition submit_command :: "service_send \<Rightarrow> native_error + command" where
  "submit_command s =
     res_bind (validate_playout_delay (sa_playout_delay (ss_account s))) (\<lambda>_. Inr (CmSend s))"

section \<open>Transmission\<close>

definition native_error_of :: "native_error \<Rightarrow> engine_error" where
  "native_error_of e = ETransmission (show_native_error e)"

definition progress_of :: "fax_event \<Rightarrow> transmission_progress option" where
  "progress_of e =
     (case e of
        EvStage s \<Rightarrow> Some (PgStage s)
      | EvPageAcknowledged stats \<Rightarrow> Some (PgAcknowledged (ts_sent_pages stats))
      | EvT38Activity n \<Rightarrow> Some (PgActivity n)
      | EvPageProgress p \<Rightarrow> Some (PgPage p)
      | _ \<Rightarrow> None)"

definition send_result :: "native_error + transfer_stats \<Rightarrow> engine_error + receipt" where
  "send_result r =
     (case r of
        Inr stats \<Rightarrow> Inr \<lparr>rc_acknowledged = ts_sent_pages stats\<rparr>
      | Inl NCancelled \<Rightarrow> Inl ECancelled
      | Inl e \<Rightarrow> Inl (native_error_of e))"

text \<open>The update loop: the updates the service sends, in order; the end of the list is the closed
  channel. The result is the progress reported and the outcome.\<close>

fun update_loop :: "send_update list \<Rightarrow> transmission_progress list \<times> (engine_error + receipt)" where
  "update_loop [] = ([], Inl EWorkerStopped)"
| "update_loop (SuFinished r # us) = ([], send_result r)"
| "update_loop (SuProgress e # us) =
     (case update_loop us of (ps, r) \<Rightarrow>
        ((case progress_of e of Some p \<Rightarrow> p # ps | None \<Rightarrow> ps), r))"

definition outgoing_send :: "job \<Rightarrow> path \<Rightarrow> utext option \<Rightarrow> service_send" where
  "outgoing_send j tiff password =
     \<lparr>ss_account = account (job_profile j) password, ss_destination = rq_destination (job_request j),
      ss_file = tiff, ss_station_id = prof_station_id (job_profile j),
      ss_mode = call_mode_of (rq_mode (job_request j))\<rparr>"

text \<open>\<open>SipSender::send\<close>: \<open>accepts\<close> says whether the service still takes commands.\<close>

definition sip_send ::
  "job \<Rightarrow> path \<Rightarrow> utext option \<Rightarrow> bool \<Rightarrow> send_update list \<Rightarrow>
   transmission_progress list \<times> (engine_error + receipt)" where
  "sip_send j tiff password accepts updates =
     (case submit_command (outgoing_send j tiff password) of
        Inl e \<Rightarrow> ([], Inl (native_error_of e))
      | Inr _ \<Rightarrow>
          if \<not> accepts then ([], Inl (native_error_of service_stopped))
          else (case update_loop updates of (ps, r) \<Rightarrow> (PgStage SConnecting # ps, r)))"

lemma transport_of_signaling [simp]: "transport_of (signaling_of t) = t"
  by (cases t) simp_all

lemma fax_mode_of_call_mode [simp]: "fax_mode_of (call_mode_of m) = m"
  by (cases m) simp_all

lemma update_loop_finished:
  "snd (update_loop us) = Inr r \<Longrightarrow>
    \<exists>stats. SuFinished (Inr stats) \<in> set us \<and> rc_acknowledged r = ts_sent_pages stats"
proof (induction us rule: update_loop.induct)
  case (2 r' us)
  then show ?case by (auto simp: send_result_def split: sum.splits native_error.splits)
qed (auto split: prod.splits)

end
