(* ===== verification/ActorState.thy ===== *)
theory ActorState
  imports Sender StoreOpen
begin

text \<open>
  The state of the engine's single owner (\<open>Actor\<close> in \<open>runtime.rs\<close>) and its primitive effects. The
  closures the actor hands to worker threads are defunctionalised: \<open>task\<close> names what was captured,
  and the outstanding tasks are part of the state. What the actor sends on its channels is a log,
  newest last. Everything it reads from outside (thread creation, room in the work queue, the
  service, the file system, the clock) is answered by an environment stream, one tick per reading.
\<close>

section \<open>The read model\<close>

datatype lifecycle = LStarting | LRunning | LStopping | LStopped

record engine_view =
  ev_revision :: nat
  ev_lifecycle :: lifecycle
  ev_profiles :: "sip_profile list"
  ev_destinations :: "destination list"
  ev_jobs :: "job list"
  ev_sending :: bool
  ev_settings :: receive_settings
  ev_status :: receiver_status
  ev_inbox :: "received_fax list"
  ev_error :: "utext option"

definition default_view :: engine_view where
  "default_view =
     \<lparr>ev_revision = 0, ev_lifecycle = LStarting, ev_profiles = [], ev_destinations = [], ev_jobs = [],
      ev_sending = False, ev_settings = default_receive_settings, ev_status = default_receiver_status,
      ev_inbox = [], ev_error = None\<rparr>"

record snapshot =
  sn_profiles :: "sip_profile list"
  sn_destinations :: "destination list"
  sn_jobs :: "job list"
  sn_sending :: bool
  sn_settings :: receive_settings
  sn_status :: receiver_status
  sn_inbox :: "received_fax list"

datatype engine_effect =
    XfError utext
  | XfReceptionFinished uuid utext nat
  | XfPdfReady uuid path

datatype engine_event =
    EeJob job
  | EeReceived received_fax
  | EeStatus receiver_status
  | EeError utext

record settings =
  set_document_options :: document_options
  set_default_profile :: "uuid option"

section \<open>Work in progress\<close>

text \<open>\<open>AdmissionRequest\<close> and the profile and settings the offer was made under.\<close>

record pending_incoming =
  pi_id :: uuid
  pi_caller :: utext
  pi_destination :: utext
  pi_peer :: utext
  pi_arrived :: instant
  pi_profile :: "uuid option"
  pi_profile_name :: utext
  pi_options :: receive_settings

type_synonym reply = nat
type_synonym pixels = "nat \<times> nat \<times> byte list"

datatype task =
    TkCredentials nat uuid sip_profile receive_settings
  | TkTransmit job path
  | TkExport received_fax path
  | TkSettings settings "reply list"
  | TkProfile sip_profile reply
  | TkPreview path reply
  | TkDocument uuid reply
  | TkStop

datatype answer =
    AUnit
  | AJob job
  | AFax received_fax
  | ACount nat
  | APreview pixels
  | ADocument prepared_document

datatype actor_output =
    OView engine_view
  | OEvent engine_event
  | OEffect engine_effect
  | OCommand command
  | OOffer incoming_fax
  | OReply reply "engine_error + answer"
  | OSpawn task

text \<open>The environment: the answers to the readings the actor makes, by tick.\<close>

record actor_env =
  ae_spawn :: "nat \<Rightarrow> utext option"
  ae_room :: "nat \<Rightarrow> bool"
  ae_accepts :: "nat \<Rightarrow> bool"
  ae_offered :: "nat \<Rightarrow> bool"
  ae_pending :: "nat \<Rightarrow> uuid \<Rightarrow> bool"
  ae_now :: "nat \<Rightarrow> instant"
  ae_is_dir :: "nat \<Rightarrow> path \<Rightarrow> bool"
  ae_is_file :: "nat \<Rightarrow> path \<Rightarrow> bool"
  ae_mkdir :: "nat \<Rightarrow> path \<Rightarrow> utext option"
  ae_chmod :: "nat \<Rightarrow> path \<Rightarrow> utext option"
  ae_document :: "nat \<Rightarrow> path \<Rightarrow> engine_error + prepared_document"
  ae_local_stem :: "instant \<Rightarrow> utext"

record actor =
  ac_store :: store
  ac_directory :: path
  ac_spool :: path
  ac_backend :: bool
  ac_service :: bool
  ac_configuring :: bool
  ac_settings_saving :: bool
  ac_settings_pending :: "(settings \<times> reply list) option"
  ac_working :: nat
  ac_tasks :: "task list"
  ac_active :: "(uuid \<times> job \<times> bool) list"
  ac_limits :: call_limits
  ac_admissions :: "(uuid \<times> pending_incoming) list"
  ac_preparing :: "(uuid \<times> bool) list"
  ac_exports :: "uuid list"
  ac_exporting :: "uuid option"
  ac_generation :: nat
  ac_stopping :: bool
  ac_clear_active :: "uuid set"
  ac_dirty :: bool
  ac_view :: engine_view
  ac_log :: "actor_output list"
  ac_env :: actor_env
  ac_ticks :: nat
  ac_requests_open :: bool
  ac_native_open :: bool

type_synonym 'a acted = "(engine_error + 'a) \<times> actor"

section \<open>Primitive effects\<close>

text \<open>A reading of the environment, and an operation on the store.\<close>

definition observe :: "(actor_env \<Rightarrow> nat \<Rightarrow> 'a) \<Rightarrow> actor \<Rightarrow> 'a \<times> actor" where
  "observe f a = (f (ac_env a) (ac_ticks a), a\<lparr>ac_ticks := Suc (ac_ticks a)\<rparr>)"

definition with_store :: "(store \<Rightarrow> 'a stored) \<Rightarrow> actor \<Rightarrow> 'a acted" where
  "with_store f a = (case f (ac_store a) of (r, st) \<Rightarrow> (r, a\<lparr>ac_store := st\<rparr>))"

definition record_out :: "actor_output \<Rightarrow> actor \<Rightarrow> actor" where
  "record_out x a = a\<lparr>ac_log := ac_log a @ [x]\<rparr>"

definition set_view :: "(engine_view \<Rightarrow> engine_view) \<Rightarrow> actor \<Rightarrow> actor" where
  "set_view f a = a\<lparr>ac_view := f (ac_view a)\<rparr>"

definition mark_dirty :: "actor \<Rightarrow> actor" where
  "mark_dirty a = a\<lparr>ac_dirty := True\<rparr>"

definition publish :: "actor \<Rightarrow> actor" where
  "publish a =
     (if ac_dirty a
      then let a = set_view (\<lambda>v. v\<lparr>ev_revision := ev_revision v + 1\<rparr>) a
           in (record_out (OView (ac_view a)) a)\<lparr>ac_dirty := False\<rparr>
      else a)"

definition emit :: "engine_event \<Rightarrow> actor \<Rightarrow> actor" where
  "emit e a = mark_dirty (record_out (OEvent e) a)"

definition report_error :: "engine_error \<Rightarrow> actor \<Rightarrow> actor" where
  "report_error e a =
     (let message = show_error e;
          a = set_view (\<lambda>v. v\<lparr>ev_error := Some message\<rparr>) a
      in emit (EeError message) (record_out (OEffect (XfError message)) a))"

text \<open>\<open>if let Err(error) = ... { self.error(error) }\<close>\<close>

definition reported :: "'a acted \<Rightarrow> actor" where
  "reported r = (case r of (Inl e, a) \<Rightarrow> report_error e a | (Inr _, a) \<Rightarrow> a)"

text \<open>Sending a command to the SIP service, which may have stopped.\<close>

definition send_command :: "command \<Rightarrow> actor \<Rightarrow> unit acted" where
  "send_command c a =
     (case observe ae_accepts a of
        (True, a) \<Rightarrow> (Inr (), record_out (OCommand c) a)
      | (False, a) \<Rightarrow> (Inl (native_error_of service_stopped), a))"

definition native_command :: "native_error + command \<Rightarrow> actor \<Rightarrow> unit acted" where
  "native_command c a =
     (case c of Inl e \<Rightarrow> (Inl (native_error_of e), a) | Inr c \<Rightarrow> send_command c a)"

text \<open>Tasks that run on the two threads of \<open>BlockingPool\<close>; the others get a thread of their own.\<close>

definition pooled :: "task \<Rightarrow> bool" where
  "pooled t =
     (case t of TkCredentials _ _ _ _ \<Rightarrow> True | TkPreview _ _ \<Rightarrow> True | TkProfile _ _ \<Rightarrow> True
      | TkSettings _ _ \<Rightarrow> True | _ \<Rightarrow> False)"

definition start_task :: "task \<Rightarrow> actor \<Rightarrow> actor" where
  "start_task t a =
     record_out (OSpawn t) (a\<lparr>ac_tasks := ac_tasks a @ [t], ac_working := ac_working a + 1\<rparr>)"

definition spawn :: "task \<Rightarrow> actor \<Rightarrow> unit acted" where
  "spawn t a =
     (if pooled t
      then (case observe ae_room a of
              (True, a) \<Rightarrow> (Inr (), start_task t a)
            | (False, a) \<Rightarrow> (Inl (EInvalid (lit ''Background work queue is full'')), a))
      else (case observe ae_spawn a of
              (None, a) \<Rightarrow> (Inr (), start_task t a)
            | (Some e, a) \<Rightarrow> (Inl (EIo e), a)))"

section \<open>Paths and documents\<close>

definition join_path :: "path \<Rightarrow> utext \<Rightarrow> path" where
  "join_path d x =
     (if d = [] \<or> last d = 47 then d @ x else d @ lit ''/'' @ x)"

definition fax_path :: "path \<Rightarrow> uuid \<Rightarrow> path" where
  "fax_path root i = join_path (join_path root i) (lit ''fax.tiff'')"

text \<open>Zero padding to four digits, as in \<open>{page:04}\<close>.\<close>

definition padded :: "nat \<Rightarrow> utext" where
  "padded n = replicate (4 - length (to_decimal n)) 48 @ to_decimal n"

definition preview_path :: "path \<Rightarrow> uuid \<Rightarrow> nat \<Rightarrow> path" where
  "preview_path root i page =
     join_path (join_path root i) (lit ''page-'' @ padded page @ lit ''.png'')"

definition documents_load :: "uuid \<Rightarrow> actor \<Rightarrow> prepared_document acted" where
  "documents_load i a =
     (case observe ae_document a of
        (read, a) \<Rightarrow> and_then (read (join_path (join_path (ac_spool a) i) (lit ''document.json'')), a) (\<lambda>d a.
          let incomplete = Inl (EInvalid (lit ''Prepared document is incomplete''))
          in if doc_id d \<noteq> i \<or> doc_pages d = 0 then (incomplete, a)
             else (case observe ae_is_file a of
                     (is_file, a) \<Rightarrow> (if \<not> is_file (fax_path (ac_spool a) i) then incomplete else Inr d, a))))"

end
