(* ===== verification/Actor.thy ===== *)
theory Actor
  imports ActorState
begin

text \<open>
  The handlers of the engine's owner (\<open>Actor\<close> in \<open>runtime.rs\<close>): configuration, the queue, the
  incoming calls, the background work and its completions.
\<close>

section \<open>Publishing changes\<close>

definition job_changed :: "job \<Rightarrow> actor \<Rightarrow> actor" where
  "job_changed j a =
     (if list_ex (\<lambda>old. job_eq old j) (ev_jobs (ac_view a)) then a
      else emit (EeJob j) (set_view (\<lambda>v. v\<lparr>ev_jobs := upsert job_id j (ev_jobs v)\<rparr>) a))"

fun is_published :: "export_status \<Rightarrow> bool" where
  "is_published (XPublished _) = True"
| "is_published _ = False"

fun export_terminal :: "export_status \<Rightarrow> bool" where
  "export_terminal (XPublished _) = True"
| "export_terminal (XFailed _) = True"
| "export_terminal XNoContent = True"
| "export_terminal _ = False"

definition announce_pdf :: "received_fax \<Rightarrow> actor \<Rightarrow> actor" where
  "announce_pdf f a =
     (case rf_export f of
        XPublished path \<Rightarrow>
          if list_ex (\<lambda>old. rf_id old = rf_id f \<and> \<not> is_published (rf_export old)) (ev_inbox (ac_view a))
          then record_out (OEffect (XfPdfReady (rf_id f) path)) a else a
      | _ \<Rightarrow> a)"

definition announce_finished :: "received_fax \<Rightarrow> actor \<Rightarrow> actor" where
  "announce_finished f a =
     (if rs_notifications (rf_options f) \<and> export_terminal (rf_export f) \<and>
         list_ex (\<lambda>old. rf_id old = rf_id f \<and> \<not> export_terminal (rf_export old)) (ev_inbox (ac_view a))
      then record_out (OEffect (XfReceptionFinished (rf_id f) (rf_caller f) (rf_recovered f))) a else a)"

definition received_changed :: "received_fax \<Rightarrow> actor \<Rightarrow> actor" where
  "received_changed f a =
     (if f \<in> set (ev_inbox (ac_view a)) then a
      else emit (EeReceived f)
             (set_view (\<lambda>v. v\<lparr>ev_inbox := upsert rf_id f (ev_inbox v)\<rparr>)
               (announce_finished f (announce_pdf f a))))"

definition take_snapshot :: "actor \<Rightarrow> snapshot" where
  "take_snapshot a = (let v = ac_view a in
     \<lparr>sn_profiles = ev_profiles v, sn_destinations = ev_destinations v, sn_jobs = ev_jobs v,
      sn_sending = ev_sending v, sn_settings = ev_settings v, sn_status = ev_status v,
      sn_inbox = ev_inbox v\<rparr>)"

section \<open>The receiver\<close>

definition nil_uuid :: uuid where
  "nil_uuid = lit ''00000000-0000-0000-0000-000000000000''"

definition direct_profile :: "listener_config \<Rightarrow> receive_settings \<Rightarrow> sip_profile" where
  "direct_profile l s =
     \<lparr>prof_id = nil_uuid, prof_name = lit ''Direct listener'', prof_server = show_ip (fst (lc_bind l)),
      prof_port = max (snd (lc_bind l)) 1, prof_transport = transport_of (lc_transport l),
      prof_username = lit ''faxe'', prof_auth_username = None, prof_register = False,
      prof_outbound_proxy = None, prof_station_id = lit ''FAXE'', prof_sending_mode = rs_mode s,
      prof_automatic_nat = False, prof_stun_server = None, prof_playout_delay = 200\<rparr>"

definition install_receiver ::
  "sip_profile \<Rightarrow> receive_settings \<Rightarrow> utext option \<Rightarrow> actor \<Rightarrow> unit acted" where
  "install_receiver p s password a =
     (let config = \<lparr>rc_account = account p password, rc_station_id = prof_station_id p,
            rc_mode = call_mode_of (rs_mode s), rc_ecm = rs_ecm s,
            rc_offer = (rs_profile s, prof_name p, s)\<rparr>
      in case rs_listener s of
           Some l \<Rightarrow> native_command (listener_command config l) a
         | None \<Rightarrow> native_command (configure_command (Some config)) a)"

definition request_credentials :: "nat \<Rightarrow> uuid \<Rightarrow> receive_settings \<Rightarrow> actor \<Rightarrow> unit acted" where
  "request_credentials generation i s a =
     and_then (with_store (profile i) a) (\<lambda>p a.
       case spawn (TkCredentials generation i p s) (a\<lparr>ac_configuring := True\<rparr>) of
         (Inl e, a) \<Rightarrow> (Inl e, a\<lparr>ac_configuring := False\<rparr>)
       | (Inr u, a) \<Rightarrow> (Inr u, a))"

definition refresh_receiver :: "actor \<Rightarrow> unit acted" where
  "refresh_receiver a =
     (let a = a\<lparr>ac_generation := ac_generation a + 1\<rparr>; s = ev_settings (ac_view a)
      in if \<not> ac_service a then (Inr (), a)
         else case rs_listener s of
           Some l \<Rightarrow> install_receiver (direct_profile l s) s None a
         | None \<Rightarrow>
             (case rs_profile s of
                None \<Rightarrow> native_command (configure_command None) a
              | Some i \<Rightarrow>
                  and_then (receive_settings_validate s (ev_profiles (ac_view a)), a) (\<lambda>_ a.
                  if ac_configuring a then (Inr (), a)
                  else request_credentials (ac_generation a) i s a)))"

text \<open>The completion of the credentials task.\<close>

definition credentials_ready ::
  "nat \<Rightarrow> uuid \<Rightarrow> sip_profile \<Rightarrow> receive_settings \<Rightarrow> (engine_error + utext option) \<Rightarrow> actor \<Rightarrow> actor" where
  "credentials_ready generation i p s password a =
     (let a = a\<lparr>ac_configuring := False\<rparr>
      in if ac_stopping a then a
         else if ac_generation a \<noteq> generation then reported (refresh_receiver a)
         else case and_then (password, a) (\<lambda>password. install_receiver p s password) of
           (Inr _, a) \<Rightarrow> a
         | (Inl e, a) \<Rightarrow>
             report_error e (set_view (\<lambda>v. v\<lparr>ev_status :=
               \<lparr>rst_profile = Some i, rst_state = RError (show_error e)\<rparr>\<rparr>) a))"

section \<open>Configuration\<close>

definition actor_save_profile :: "sip_profile \<Rightarrow> actor \<Rightarrow> unit acted" where
  "actor_save_profile p a =
     and_then (with_store (save_profile p) a) (\<lambda>_ a.
     let receiving = rs_profile (ev_settings (ac_view a)) = Some (prof_id p);
         a = mark_dirty (set_view (\<lambda>v. v\<lparr>ev_profiles :=
               sort_key prof_name (upsert prof_id p (ev_profiles v))\<rparr>) a)
     in if receiving then refresh_receiver a else (Inr (), a))"

definition actor_save_destination :: "destination \<Rightarrow> actor \<Rightarrow> unit acted" where
  "actor_save_destination d a =
     and_then (with_store (save_destination d) a) (\<lambda>_ a.
       (Inr (), mark_dirty (set_view (\<lambda>v. v\<lparr>ev_destinations :=
          sort_key dest_name (upsert dest_id d (ev_destinations v))\<rparr>) a)))"

definition actor_remove_destination :: "uuid \<Rightarrow> actor \<Rightarrow> unit acted" where
  "actor_remove_destination i a =
     and_then (with_store (remove_destination i) a) (\<lambda>_ a.
       (Inr (), mark_dirty (set_view (\<lambda>v. v\<lparr>ev_destinations :=
          filter (\<lambda>d. dest_id d \<noteq> i) (ev_destinations v)\<rparr>) a)))"

text \<open>A changed receiver needs its folder to exist.\<close>

definition folder_available :: "receive_settings \<Rightarrow> receive_settings \<Rightarrow> actor \<Rightarrow> unit acted" where
  "folder_available previous s a =
     (let unavailable = Inl (EInvalid (lit ''Receive folder is unavailable''))
      in if (rs_profile s \<noteq> None \<or> rs_listener s \<noteq> None) \<and>
            (rs_profile s \<noteq> rs_profile previous \<or> rs_listener s \<noteq> rs_listener previous \<or>
             rs_folder s \<noteq> rs_folder previous)
         then (case rs_folder s of
                 None \<Rightarrow> (unavailable, a)
               | Some f \<Rightarrow> (case observe ae_is_dir a of
                   (is_dir, a) \<Rightarrow> (if is_dir f then Inr () else unavailable, a)))
         else (Inr (), a))"

definition configure_receiver :: "receive_settings \<Rightarrow> actor \<Rightarrow> unit acted" where
  "configure_receiver s a =
     (let previous = ev_settings (ac_view a);
          s = (if rs_folder s = None then s\<lparr>rs_folder := rs_folder previous\<rparr> else s)
      in and_then (receive_settings_validate s (ev_profiles (ac_view a)), a) (\<lambda>_ a.
         and_then (folder_available previous s a) (\<lambda>_ a.
         and_then (with_store (save_receive_settings s) a) (\<lambda>_ a.
         refresh_receiver (mark_dirty (set_view (\<lambda>v. v\<lparr>ev_settings := s\<rparr>) a))))))"

definition reconnect_receiver :: "actor \<Rightarrow> unit acted" where
  "reconnect_receiver a =
     and_then (refresh_receiver a) (\<lambda>_ a.
       if ac_service a then send_command CmReconnect a else (Inr (), a))"

section \<open>Receptions\<close>

definition cancel_reception :: "uuid \<Rightarrow> actor \<Rightarrow> unit acted" where
  "cancel_reception i a =
     and_then (with_store (received_fax i) a) (\<lambda>f a.
     if \<not> outcome_is_active (rf_outcome f)
     then (Inl (EInvalid (lit ''Reception is no longer active'')), a)
     else if \<not> ac_service a then (Inl EWorkerStopped, a)
     else send_command (CmCancelIncoming i) a)"

definition retry_export :: "uuid \<Rightarrow> actor \<Rightarrow> unit acted" where
  "retry_export i a =
     and_then (with_store (received_fax i) a) (\<lambda>f a.
     if outcome_is_active (rf_outcome f)
     then (Inl (EInvalid (lit ''Wait for reception to finish'')), a)
     else (Inr (),
       if \<not> (is_published (rf_export f) \<or> rf_export f = XNoContent) \<and>
          ac_exporting a \<noteq> Some i \<and> i \<notin> set (ac_exports a)
       then a\<lparr>ac_exports := ac_exports a @ [i]\<rparr> else a))"

section \<open>The queue\<close>

text \<open>Cancelling sets the flag the transmitting thread polls.\<close>

definition cancel_active :: "uuid \<Rightarrow> actor \<Rightarrow> actor" where
  "cancel_active i a =
     a\<lparr>ac_active := map (\<lambda>(k, j, c). (k, j, if k = i then True else c)) (ac_active a)\<rparr>"

definition cancel_all_active :: "actor \<Rightarrow> actor" where
  "cancel_all_active a = a\<lparr>ac_active := map (\<lambda>(k, j, c). (k, j, True)) (ac_active a)\<rparr>"

definition actor_clear_queue :: "actor \<Rightarrow> nat acted" where
  "actor_clear_queue a =
     (let a = (cancel_all_active a)\<lparr>ac_clear_active := ac_clear_active a \<union> fst ` set (ac_active a)\<rparr>
      in and_then (with_store clear_queue a) (\<lambda>count a.
         (Inr count, mark_dirty (set_view (\<lambda>v. v\<lparr>ev_jobs := []\<rparr>) a))))"

definition actor_enqueue :: "fax_request \<Rightarrow> actor \<Rightarrow> job acted" where
  "actor_enqueue rq a =
     and_then (documents_load (doc_id (rq_document rq)) a) (\<lambda>d a.
     and_then (with_store (enqueue (rq\<lparr>rq_document := d\<rparr>) None) a) (\<lambda>j a.
     (Inr j, job_changed j a)))"

definition actor_retry :: "uuid \<Rightarrow> actor \<Rightarrow> job acted" where
  "actor_retry i a =
     and_then (with_store (stored_job i) a) (\<lambda>previous a.
     if \<not> job_is_finished (job_state previous)
     then (Inl (EInvalid (lit ''Only a finished or interrupted fax can be retried'')), a)
     else let rq = job_request previous
          in and_then (documents_load (doc_id (rq_document rq)) a) (\<lambda>d a.
             and_then (with_store (enqueue (rq\<lparr>rq_document := d\<rparr>) (Some i)) a) (\<lambda>j a.
             (Inr j, job_changed j a))))"

text \<open>Store a job and its new time stamp.\<close>

definition store_job :: "job \<Rightarrow> actor \<Rightarrow> job acted" where
  "store_job j a =
     and_then (with_store (update_job j) a) (\<lambda>_ b. (Inr (stamp_job j (ac_store a)), b))"

definition actor_cancel :: "uuid \<Rightarrow> actor \<Rightarrow> unit acted" where
  "actor_cancel i a =
     (if i \<in> fst ` set (ac_active a) then (Inr (), cancel_active i a)
      else and_then (with_store (stored_job i) a) (\<lambda>j a.
           if job_state j \<noteq> JQueued
           then (Inl (EInvalid (lit ''This fax is no longer queued or active'')), a)
           else and_then (store_job (j\<lparr>job_state := JCancelled 0\<rparr>) a) (\<lambda>j a.
                (Inr (), job_changed j a))))"

section \<open>Transmission\<close>

definition push_step :: "fax_stage \<Rightarrow> instant \<Rightarrow> job \<Rightarrow> job" where
  "push_step stage now j =
     (if job_steps j = [] \<or> js_stage (last (job_steps j)) \<noteq> stage
      then j\<lparr>job_steps := job_steps j @ [\<lparr>js_at = now, js_stage = stage\<rparr>]\<rparr> else j)"

fun stage_state :: "fax_stage \<Rightarrow> job_state" where
  "stage_state SConnecting = JConnecting"
| "stage_state SSecuring = JConnecting"
| "stage_state SRegistering = JConnecting"
| "stage_state SCalling = JConnecting"
| "stage_state SRinging = JConnecting"
| "stage_state SSendingT38 = JSending 0"
| "stage_state SSendingG711 = JSending 0"
| "stage_state SConfirming = JSending 0"
| "stage_state SConnected = JNegotiating"
| "stage_state SOfferingT38 = JNegotiating"
| "stage_state SFallingBack = JNegotiating"
| "stage_state SNegotiating = JNegotiating"

text \<open>Whether a page report does not go back: a later page, or no smaller a share of the same page.\<close>

definition page_advances :: "page_progress option \<Rightarrow> page_progress \<Rightarrow> bool" where
  "page_advances old p =
     (case old of
        None \<Rightarrow> True
      | Some q \<Rightarrow> pp_page p > pp_page q \<or>
          (pp_page p = pp_page q \<and> pp_rows p * pp_total q \<ge> pp_rows q * pp_total p))"

definition advance_job :: "instant \<Rightarrow> transmission_progress \<Rightarrow> job \<Rightarrow> job" where
  "advance_job now p j =
     (case p of
        PgStage s \<Rightarrow>
          (let j = push_step s now j
           in if acknowledged_pages (job_state j) = 0 then j\<lparr>job_state := stage_state s\<rparr> else j)
      | PgActivity n \<Rightarrow> j\<lparr>job_bytes := max (job_bytes j) n\<rparr>
      | PgPage page \<Rightarrow>
          (if pp_total page > 0 \<and> pp_rows page \<le> pp_total page \<and> page_advances (job_page_progress j) page
           then j\<lparr>job_page_progress := Some page\<rparr> else j)
      | PgAcknowledged n \<Rightarrow>
          (let j = (if n \<ge> doc_pages (rq_document (job_request j)) then push_step SConfirming now j else j)
           in j\<lparr>job_state := JSending (max n (acknowledged_pages (job_state j)))\<rparr>))"

fun activity_only :: "transmission_progress \<Rightarrow> bool" where
  "activity_only (PgActivity _) = True"
| "activity_only (PgPage _) = True"
| "activity_only _ = False"

definition put_active :: "uuid \<Rightarrow> job \<Rightarrow> bool \<Rightarrow> actor \<Rightarrow> actor" where
  "put_active i j c a = a\<lparr>ac_active := AList.update i (j, c) (ac_active a)\<rparr>"

text \<open>The clock is read once, whether or not a step is recorded.\<close>

definition progress :: "uuid \<Rightarrow> transmission_progress \<Rightarrow> actor \<Rightarrow> unit acted" where
  "progress i p a =
     (case map_of (ac_active a) i of
        None \<Rightarrow> (Inr (), a)
      | Some (previous, c) \<Rightarrow>
          (case observe ae_now a of
             (now, a) \<Rightarrow>
               let j = advance_job now p previous; a = put_active i j c a; silent = i \<in> ac_clear_active a
               in if job_eq j previous then (Inr (), a)
                  else and_then (if \<not> silent \<and> \<not> activity_only p
                                 then store_job j (put_active i (stamp_job j (ac_store a)) c a)
                                 else (Inr j, a)) (\<lambda>j a.
                       (Inr (), if \<not> silent then job_changed j a else a))))"

text \<open>The message of a progress report: a failure to record it cancels the transmission.\<close>

definition transmit_progress :: "uuid \<Rightarrow> transmission_progress \<Rightarrow> actor \<Rightarrow> actor" where
  "transmit_progress i p a =
     (case progress i p a of
        (Inr _, a) \<Rightarrow> a
      | (Inl e, a) \<Rightarrow> report_error e (cancel_active i a))"

definition sent_state :: "nat \<Rightarrow> nat \<Rightarrow> engine_error + receipt \<Rightarrow> job_state" where
  "sent_state pages acknowledged outcome =
     (case outcome of
        Inr r \<Rightarrow> if rc_acknowledged r = pages then JSucceeded (rc_acknowledged r)
                 else JFailed (lit ''T.30 completed with an unexpected page count'') (rc_acknowledged r)
      | Inl ECancelled \<Rightarrow> JCancelled acknowledged
      | Inl e \<Rightarrow> JFailed (show_error e) acknowledged)"

definition final_state :: "bool \<Rightarrow> job \<Rightarrow> engine_error + receipt \<Rightarrow> job_state" where
  "final_state stopping j outcome =
     (case sent_state (doc_pages (rq_document (job_request j))) (acknowledged_pages (job_state j)) outcome of
        JCancelled n \<Rightarrow> if stopping then JInterrupted else JCancelled n
      | s \<Rightarrow> s)"

definition sent :: "uuid \<Rightarrow> engine_error + receipt \<Rightarrow> actor \<Rightarrow> unit acted" where
  "sent i outcome a =
     (case map_of (ac_active a) i of
        None \<Rightarrow> (Inr (), a)
      | Some (j, c) \<Rightarrow>
          let a = a\<lparr>ac_active := AList.delete i (ac_active a)\<rparr>;
              j = j\<lparr>job_state := final_state (ac_stopping a) j outcome\<rparr>
          in if i \<in> ac_clear_active a
             then with_store (remove_job (job_id j)) (a\<lparr>ac_clear_active := ac_clear_active a - {i}\<rparr>)
             else and_then (store_job j a) (\<lambda>j a. (Inr (), job_changed j a)))"

definition start_send :: "actor \<Rightarrow> unit acted" where
  "start_send a =
     (if length (ac_active a) \<ge> lim_outgoing (ac_limits a) \<or>
         \<not> list_ex (\<lambda>j. job_state j = JQueued) (ev_jobs (ac_view a))
      then (Inr (), a)
      else if \<not> ac_backend a then (Inr (), a)
      else and_then (with_store claim_next a) (\<lambda>claimed a.
        case claimed of
          None \<Rightarrow> (Inr (), a)
        | Some j \<Rightarrow>
            let a = job_changed j (put_active (job_id j) j False a)
            in (case spawn (TkTransmit j (fax_path (ac_spool a) (doc_id (rq_document (job_request j))))) a of
                  (Inr u, a) \<Rightarrow> (Inr u, a)
                | (Inl e, a) \<Rightarrow> sent (job_id j) (Inl e) a)))"

section \<open>Export\<close>

definition start_export :: "actor \<Rightarrow> unit acted" where
  "start_export a =
     (if ac_exporting a \<noteq> None then (Inr (), a)
      else case ac_exports a of
        [] \<Rightarrow> (Inr (), a)
      | i # rest \<Rightarrow>
          and_then (with_store (received_fax i) (a\<lparr>ac_exports := rest\<rparr>)) (\<lambda>f a.
            case spawn (TkExport f (join_path (join_path (ac_directory a) (lit ''inbox'')) i))
                   (a\<lparr>ac_exporting := Some i\<rparr>) of
              (Inl e, a) \<Rightarrow> (Inl e, a\<lparr>ac_exporting := None\<rparr>)
            | (Inr u, a) \<Rightarrow> (Inr u, a)))"

text \<open>The message by which the exporting thread journals its record, and its completion.\<close>

definition save_and_publish :: "received_fax \<Rightarrow> actor \<Rightarrow> unit acted" where
  "save_and_publish f a =
     and_then (with_store (save_received f) a) (\<lambda>u a. (Inr u, received_changed f a))"

definition export_failed :: "engine_error \<Rightarrow> received_fax \<Rightarrow> received_fax" where
  "export_failed e f =
     f\<lparr>rf_export := (case rf_export f of
          XPublishing d s n _ \<Rightarrow> XPublishing d s n (Some (show_error e))
        | _ \<Rightarrow> XFailed (show_error e))\<rparr>"

definition export_done :: "received_fax \<Rightarrow> engine_error option \<Rightarrow> actor \<Rightarrow> actor" where
  "export_done f result a =
     (let a = a\<lparr>ac_exporting := None\<rparr>
      in case result of
           None \<Rightarrow> a
         | Some e \<Rightarrow> report_error e (reported (save_and_publish (export_failed e f) a)))"

section \<open>Incoming calls\<close>

text \<open>The commands of \<open>AdmissionRequest\<close>; \<open>is_pending\<close> is a flag the SIP thread clears.\<close>

definition still_pending :: "uuid \<Rightarrow> actor \<Rightarrow> bool \<times> actor" where
  "still_pending i a = (case observe ae_pending a of (f, a) \<Rightarrow> (f i, a))"

definition expired :: engine_error where
  "expired = EInvalid (lit ''Incoming offer expired'')"

definition take_admission :: "uuid \<Rightarrow> actor \<Rightarrow> pending_incoming acted" where
  "take_admission i a =
     (case map_of (ac_admissions a) i of
        None \<Rightarrow> (Inl (ENotFound i), a)
      | Some p \<Rightarrow>
          (case still_pending (pi_id p) (a\<lparr>ac_admissions := AList.delete i (ac_admissions a)\<rparr>) of
             (ok, a) \<Rightarrow> (if \<not> ok then Inl expired else Inr p, a)))"

definition reject_incoming :: "uuid \<Rightarrow> actor \<Rightarrow> unit acted" where
  "reject_incoming i a = and_then (take_admission i a) (\<lambda>p. send_command (CmReject (pi_id p)))"

definition new_reception :: "pending_incoming \<Rightarrow> uuid \<Rightarrow> path \<Rightarrow> utext \<Rightarrow> received_fax" where
  "new_reception p i tiff stem =
     \<lparr>rf_id = i, rf_profile = pi_profile p, rf_profile_name = pi_profile_name p,
      rf_caller = pi_caller p, rf_destination = pi_destination p, rf_peer = pi_peer p,
      rf_tiff_path = Some tiff, rf_arrived = pi_arrived p, rf_stem = stem, rf_finished = None,
      rf_options = pi_options p, rf_confirmed = 0, rf_recovered = 0, rf_transport = None,
      rf_outcome = OutReceiving, rf_result = None, rf_recovery = None, rf_export = XPending,
      rf_partial_available = True\<rparr>"

definition io_check :: "utext option \<Rightarrow> engine_error + unit" where
  "io_check r = (case r of None \<Rightarrow> Inr () | Some e \<Rightarrow> Inl (EIo e))"

definition reserve_incoming :: "pending_incoming \<Rightarrow> uuid \<Rightarrow> actor \<Rightarrow> path acted" where
  "reserve_incoming p i a =
     (if ac_stopping a then (Inl EWorkerStopped, a)
      else let spool = join_path (join_path (ac_directory a) (lit ''inbox'')) i;
               tiff = join_path spool (lit ''fax.tiff'')
           in case observe ae_mkdir a of (mkdir, a) \<Rightarrow>
              and_then (io_check (mkdir spool), a) (\<lambda>_ a.
              case observe ae_chmod a of (chmod, a) \<Rightarrow>
              and_then (io_check (chmod spool), a) (\<lambda>_ a.
              and_then (save_and_publish (new_reception p i tiff (ae_local_stem (ac_env a) (pi_arrived p))) a)
                (\<lambda>_ a. (Inr tiff, a)))))"

text \<open>The SIP service stopped between the admission and the answer: the reception is interrupted.\<close>

definition abandon_reception :: "uuid \<Rightarrow> actor \<Rightarrow> unit acted" where
  "abandon_reception i a =
     and_then (with_store (received_fax i) a) (\<lambda>f a.
     case observe ae_now a of (now, a) \<Rightarrow>
     and_then (save_and_publish (f\<lparr>rf_outcome := OutInterrupted, rf_result := Some ResInterrupted,
                 rf_finished := Some now\<rparr>) a) (\<lambda>_. retry_export i))"

definition accept_incoming :: "uuid \<Rightarrow> actor \<Rightarrow> received_fax acted" where
  "accept_incoming i a =
     and_then (take_admission i a) (\<lambda>p a.
       case reserve_incoming p i a of
         (Inr path, a) \<Rightarrow>
           and_then (case send_command (CmAdmit (pi_id p) (Inr path)) a of
                       (Inr _, a) \<Rightarrow> (Inr (), a)
                     | (Inl _, a) \<Rightarrow> abandon_reception i a) (\<lambda>_ a.
           with_store (received_fax i) a)
       | (Inl e, a) \<Rightarrow> (Inl e, snd (send_command (CmAdmit (pi_id p) (Inl (NInvalid (show_error e)))) a)))"

text \<open>Offers that expired meanwhile are dropped, in map order.\<close>

fun retain_pending :: "(uuid \<times> pending_incoming) list \<Rightarrow> actor \<Rightarrow> (uuid \<times> pending_incoming) list \<times> actor" where
  "retain_pending [] a = ([], a)"
| "retain_pending ((k, p) # ps) a =
     (case still_pending (pi_id p) a of
        (ok, a) \<Rightarrow> (case retain_pending ps a of (ps, a) \<Rightarrow> (if ok then (k, p) # ps else ps, a)))"

definition incoming_of :: "pending_incoming \<Rightarrow> incoming_fax" where
  "incoming_of p =
     \<lparr>inc_id = pi_id p, inc_caller = pi_caller p, inc_destination = pi_destination p,
      inc_peer = pi_peer p, inc_arrived = pi_arrived p\<rparr>"

definition offer_incoming :: "pending_incoming \<Rightarrow> actor \<Rightarrow> actor" where
  "offer_incoming p a =
     (case retain_pending (ac_admissions a) a of
        (kept, a) \<Rightarrow>
          let a = a\<lparr>ac_admissions := kept\<rparr>;
              (ok, a) = (if ac_stopping a then (False, a) else still_pending (pi_id p) a)
          in if \<not> ok then snd (send_command (CmReject (pi_id p)) a)
             else let a = a\<lparr>ac_admissions := AList.update (pi_id p) p (ac_admissions a)\<rparr>
                  in if rs_manual (pi_options p)
                     then (case observe ae_offered a of
                             (True, a) \<Rightarrow> record_out (OOffer (incoming_of p)) a
                           | (False, a) \<Rightarrow> snd (reject_incoming (pi_id p) a))
                     else reported (accept_incoming (pi_id p) a))"

end
