(* ===== verification/ActorRun.thy ===== *)
theory ActorRun
  imports Actor
begin

text \<open>
  The events of the SIP service, the completions of background tasks, the requests of the handles,
  shutdown and the owner's loop (\<open>runtime.rs\<close>) as one deterministic machine over its inputs.
\<close>

section \<open>Events of the SIP service\<close>

fun receiver_state_of :: "receive_state \<Rightarrow> receiver_state" where
  "receiver_state_of RsOff = ROff"
| "receiver_state_of RsRegistering = RRegistering"
| "receiver_state_of RsReady = RReady"
| "receiver_state_of RsReceiving = RReceiving"
| "receiver_state_of (RsError reason) = RError reason"

definition status_changed :: "receiver_status \<Rightarrow> actor \<Rightarrow> actor" where
  "status_changed s a =
     (if ev_status (ac_view a) \<noteq> s
      then emit (EeStatus s) (set_view (\<lambda>v. v\<lparr>ev_status := s\<rparr>) a) else a)"

definition reception_progress :: "fax_event \<Rightarrow> received_fax \<Rightarrow> received_fax option" where
  "reception_progress e f =
     (case e of
        EvPageAcknowledged stats \<Rightarrow> Some (f\<lparr>rf_confirmed := max (rf_confirmed f) (ts_received_pages stats)\<rparr>)
      | EvStage SSendingT38 \<Rightarrow> Some (f\<lparr>rf_transport := Some FT38\<rparr>)
      | EvStage SSendingG711 \<Rightarrow> Some (f\<lparr>rf_transport := Some FG711\<rparr>)
      | _ \<Rightarrow> None)"

text \<open>The parts of \<open>ReceiveEvent::Finished\<close>, in the order of the source.\<close>

definition reception_result_of :: "bool \<Rightarrow> native_error + transfer_stats \<Rightarrow> reception_result" where
  "reception_result_of stopping outcome =
     (case outcome of
        Inr _ \<Rightarrow> ResSucceeded
      | Inl e \<Rightarrow>
          if e = NCancelled \<and> stopping then ResInterrupted
          else ResFailed (show_native_error e) (case e of NFax x \<Rightarrow> Some (failure_code x) | _ \<Rightarrow> None))"

definition record_outcome :: "bool \<Rightarrow> native_error + transfer_stats \<Rightarrow> received_fax \<Rightarrow> received_fax" where
  "record_outcome stopping outcome f =
     (case outcome of
        Inr stats \<Rightarrow>
          f\<lparr>rf_confirmed := ts_received_pages stats,
            rf_outcome := (if ts_received_pages stats > 0 then OutReceived
                           else OutFailed (lit ''Call completed without a received page''))\<rparr>
      | Inl e \<Rightarrow>
          if e = NCancelled \<and> stopping then f\<lparr>rf_outcome := OutInterrupted\<rparr>
          else (case e of
                  NFax x \<Rightarrow> f\<lparr>rf_confirmed := max (rf_confirmed f) (ts_received_pages (failure_stats x)),
                              rf_outcome := OutFailed (show_native_error e)\<rparr>
                | _ \<Rightarrow> f\<lparr>rf_outcome := OutFailed (show_native_error e)\<rparr>))"

definition report_result :: "receive_completion \<Rightarrow> reception_result" where
  "report_result c =
     (case c of
        RCompleted code \<Rightarrow>
          if code = 0 then ResSucceeded
          else ResFailed (lit ''T.30 failed with code '' @ signed_decimal code) (Some code)
      | RInterrupted _ \<Rightarrow> ResInterrupted)"

definition apply_report :: "receive_report \<Rightarrow> received_fax \<Rightarrow> received_fax" where
  "apply_report r f =
     (let f = f\<lparr>rf_confirmed := rr_confirmed r\<rparr>;
          f = (case incomplete_reason r of
                 Some reason \<Rightarrow> if outcome_is_complete (rf_outcome f)
                                then f\<lparr>rf_outcome := OutFailed reason\<rparr> else f
               | None \<Rightarrow> f)
      in if rf_result f = Some ResSucceeded
         then f\<lparr>rf_result := Some (report_result (rr_completion r))\<rparr> else f)"

definition finish_reception ::
  "bool \<Rightarrow> instant \<Rightarrow> native_error + transfer_stats \<Rightarrow> call_mode option \<Rightarrow> receive_report option \<Rightarrow>
   received_fax \<Rightarrow> received_fax" where
  "finish_reception stopping now outcome transport recovery f =
     (let f = f\<lparr>rf_finished := Some now, rf_transport := map_option fax_mode_of transport,
               rf_result := Some (reception_result_of stopping outcome)\<rparr>;
          f = record_outcome stopping outcome f;
          f = (case recovery of Some r \<Rightarrow> apply_report r f | None \<Rightarrow> f)
      in f\<lparr>rf_recovery := recovery\<rparr>)"

definition received :: "receive_event \<Rightarrow> actor \<Rightarrow> unit acted" where
  "received e a =
     (case e of
        ReStatus prof state \<Rightarrow>
          (Inr (), status_changed \<lparr>rst_profile = prof, rst_state = receiver_state_of state\<rparr> a)
      | ReProgress i event \<Rightarrow>
          and_then (with_store (received_fax i) a) (\<lambda>f a.
            case reception_progress event f of
              None \<Rightarrow> (Inr (), a)
            | Some f \<Rightarrow> save_and_publish f a)
      | ReFinished i outcome transport recovery \<Rightarrow>
          and_then (with_store (received_fax i) a) (\<lambda>f a.
            case observe ae_now a of (now, a) \<Rightarrow>
            and_then (save_and_publish
                (finish_reception (ac_stopping a) now outcome transport recovery f) a) (\<lambda>_.
            retry_export i)))"

section \<open>Settings\<close>

definition start_settings :: "actor \<Rightarrow> unit acted" where
  "start_settings a =
     (if ac_settings_saving a then (Inr (), a)
      else case ac_settings_pending a of
        None \<Rightarrow> (Inr (), a)
      | Some (s, replies) \<Rightarrow>
          (case spawn (TkSettings s replies) (a\<lparr>ac_settings_pending := None, ac_settings_saving := True\<rparr>) of
             (Inl e, a) \<Rightarrow> (Inl e, a\<lparr>ac_settings_saving := False\<rparr>)
           | (Inr u, a) \<Rightarrow> (Inr u, a)))"

definition queue_settings :: "settings \<Rightarrow> reply \<Rightarrow> actor \<Rightarrow> unit acted" where
  "queue_settings s reply a =
     (case ac_settings_pending a of
        Some (_, replies) \<Rightarrow>
          if length replies \<ge> 64 then (Inl (EInvalid (lit ''Settings queue is full'')), a)
          else start_settings (a\<lparr>ac_settings_pending := Some (s, replies @ [reply])\<rparr>)
      | None \<Rightarrow> start_settings (a\<lparr>ac_settings_pending := Some (s, [reply])\<rparr>))"

definition reply_all :: "reply list \<Rightarrow> engine_error + answer \<Rightarrow> actor \<Rightarrow> actor" where
  "reply_all replies r a = foldl (\<lambda>a reply. record_out (OReply reply r) a) a replies"

text \<open>Accepted preferences are flushed even during shutdown, in submission order.\<close>

definition settings_saved :: "reply list \<Rightarrow> engine_error + unit \<Rightarrow> actor \<Rightarrow> actor" where
  "settings_saved replies result a =
     (let a = a\<lparr>ac_settings_saving := False\<rparr>;
          r = (case result of Inr _ \<Rightarrow> Inr AUnit | Inl e \<Rightarrow> Inl (EInvalid (show_error e)))
      in reported (start_settings (reply_all replies r a)))"

section \<open>Shutdown\<close>

fun reject_all :: "(uuid \<times> pending_incoming) list \<Rightarrow> actor \<Rightarrow> actor" where
  "reject_all [] a = a"
| "reject_all ((k, p) # ps) a = reject_all ps (snd (send_command (CmReject (pi_id p)) a))"

definition stop :: "actor \<Rightarrow> actor" where
  "stop a =
     (if ac_stopping a then a
      else let a = mark_dirty (set_view (\<lambda>v. v\<lparr>ev_lifecycle := LStopping\<rparr>)
                     (a\<lparr>ac_stopping := True, ac_generation := ac_generation a + 1\<rparr>));
               a = cancel_all_active a;
               a = a\<lparr>ac_preparing := map (\<lambda>(k, c). (k, True)) (ac_preparing a)\<rparr>;
               a = reject_all (ac_admissions a) (a\<lparr>ac_admissions := []\<rparr>)
           in if ac_service a then reported (spawn TkStop (a\<lparr>ac_service := False\<rparr>)) else a)"

section \<open>Completions\<close>

datatype finished =
    FCredentials "engine_error + utext option"
  | FTransmit "engine_error + receipt"
  | FExport received_fax "engine_error option"
  | FSettings "engine_error + unit"
  | FProfile "engine_error + unit"
  | FPreview "engine_error + pixels"
  | FDocument "engine_error + prepared_document"
  | FStop
  | FPanicked

text \<open>Which results a task can produce; a panic stands for any of them.\<close>

fun produces :: "task \<Rightarrow> finished \<Rightarrow> bool" where
  "produces t FPanicked = True"
| "produces (TkCredentials _ _ _ _) (FCredentials _) = True"
| "produces (TkTransmit _ _) (FTransmit _) = True"
| "produces (TkExport f _) (FExport g _) = (rf_id g = rf_id f)"
| "produces (TkSettings _ _) (FSettings _) = True"
| "produces (TkProfile _ _) (FProfile _) = True"
| "produces (TkPreview _ _) (FPreview _) = True"
| "produces (TkDocument _ _) (FDocument _) = True"
| "produces TkStop FStop = True"
| "produces _ _ = False"

definition profile_saved :: "sip_profile \<Rightarrow> reply \<Rightarrow> engine_error + unit \<Rightarrow> actor \<Rightarrow> actor" where
  "profile_saved p reply saved a =
     (case and_then (saved, a) (\<lambda>_ a. if ac_stopping a then (Inl EWorkerStopped, a)
                                     else actor_save_profile p a) of
        (r, a) \<Rightarrow> record_out (OReply reply (case r of Inr _ \<Rightarrow> Inr AUnit | Inl e \<Rightarrow> Inl e)) a)"

definition map_ok :: "('a \<Rightarrow> 'b) \<Rightarrow> 'e + 'a \<Rightarrow> 'e + 'b" where
  "map_ok f r = (case r of Inr x \<Rightarrow> Inr (f x) | Inl e \<Rightarrow> Inl e)"

fun complete :: "task \<Rightarrow> finished \<Rightarrow> actor \<Rightarrow> actor" where
  "complete t FPanicked a = stop (report_error EWorkerStopped a)"
| "complete (TkCredentials g i p s) (FCredentials password) a = credentials_ready g i p s password a"
| "complete (TkTransmit j path) (FTransmit outcome) a = reported (sent (job_id j) outcome a)"
| "complete (TkExport f spool) (FExport g result) a = export_done g result a"
| "complete (TkSettings s replies) (FSettings result) a = settings_saved replies result a"
| "complete (TkProfile p reply) (FProfile saved) a = profile_saved p reply saved a"
| "complete (TkPreview path reply) (FPreview r) a = record_out (OReply reply (map_ok APreview r)) a"
| "complete (TkDocument i reply) (FDocument r) a =
     record_out (OReply reply (map_ok ADocument r)) (a\<lparr>ac_preparing := AList.delete i (ac_preparing a)\<rparr>)"
| "complete TkStop FStop a = a"
| "complete _ _ a = a"

section \<open>Requests\<close>

datatype request =
    RqJob uuid
  | RqReception uuid
  | RqAccept uuid
  | RqReject uuid
  | RqSaveSettings settings reply
  | RqPreview uuid nat reply
  | RqSaveProfilePassword sip_profile reply
  | RqSaveProfile sip_profile
  | RqSaveDestination destination
  | RqRemoveDestination uuid
  | RqConfigure receive_settings
  | RqReconnect
  | RqCancelReception uuid
  | RqRetryExport uuid
  | RqClearQueue
  | RqEnqueue fax_request
  | RqRetry uuid
  | RqCancel uuid
  | RqPrepare uuid bool reply

definition answered :: "('a \<Rightarrow> answer) \<Rightarrow> 'a acted \<Rightarrow> answer acted" where
  "answered f r = (case r of (x, a) \<Rightarrow> (map_ok f x, a))"

definition prepare_document :: "uuid \<Rightarrow> bool \<Rightarrow> reply \<Rightarrow> actor \<Rightarrow> unit acted" where
  "prepare_document i cancelled reply a =
     (case spawn (TkDocument i reply) (a\<lparr>ac_preparing := AList.update i cancelled (ac_preparing a)\<rparr>) of
        (Inl e, a) \<Rightarrow> (Inl e, a\<lparr>ac_preparing := AList.delete i (ac_preparing a)\<rparr>)
      | (Inr u, a) \<Rightarrow> (Inr u, a))"

definition save_profile_with_password :: "sip_profile \<Rightarrow> reply \<Rightarrow> actor \<Rightarrow> unit acted" where
  "save_profile_with_password p reply a =
     and_then (profile_validate p, a) (\<lambda>_. spawn (TkProfile p reply))"

fun perform :: "request \<Rightarrow> actor \<Rightarrow> answer acted" where
  "perform (RqJob i) a = answered AJob (with_store (stored_job i) a)"
| "perform (RqReception i) a = answered AFax (with_store (received_fax i) a)"
| "perform (RqAccept i) a = answered AFax (accept_incoming i a)"
| "perform (RqReject i) a = answered (\<lambda>_. AUnit) (reject_incoming i a)"
| "perform (RqSaveSettings s reply) a = answered (\<lambda>_. AUnit) (queue_settings s reply a)"
| "perform (RqPreview i page reply) a =
     answered (\<lambda>_. AUnit) (spawn (TkPreview (preview_path (ac_spool a) i page) reply) a)"
| "perform (RqSaveProfilePassword p reply) a = answered (\<lambda>_. AUnit) (save_profile_with_password p reply a)"
| "perform (RqSaveProfile p) a = answered (\<lambda>_. AUnit) (actor_save_profile p a)"
| "perform (RqSaveDestination d) a = answered (\<lambda>_. AUnit) (actor_save_destination d a)"
| "perform (RqRemoveDestination i) a = answered (\<lambda>_. AUnit) (actor_remove_destination i a)"
| "perform (RqConfigure s) a = answered (\<lambda>_. AUnit) (configure_receiver s a)"
| "perform RqReconnect a = answered (\<lambda>_. AUnit) (reconnect_receiver a)"
| "perform (RqCancelReception i) a = answered (\<lambda>_. AUnit) (cancel_reception i a)"
| "perform (RqRetryExport i) a = answered (\<lambda>_. AUnit) (retry_export i a)"
| "perform RqClearQueue a = answered ACount (actor_clear_queue a)"
| "perform (RqEnqueue rq) a = answered AJob (actor_enqueue rq a)"
| "perform (RqRetry i) a = answered AJob (actor_retry i a)"
| "perform (RqCancel i) a = answered (\<lambda>_. AUnit) (actor_cancel i a)"
| "perform (RqPrepare i cancelled reply) a = answered (\<lambda>_. AUnit) (prepare_document i cancelled reply a)"

text \<open>The request of an asynchronous handle is refused while stopping; the blocking facade's is not.\<close>

definition blocking_request :: "reply \<Rightarrow> request \<Rightarrow> actor \<Rightarrow> actor" where
  "blocking_request reply rq a =
     (case perform rq a of (r, a) \<Rightarrow> record_out (OReply reply r) (publish a))"

definition handle_request :: "reply \<Rightarrow> request \<Rightarrow> actor \<Rightarrow> actor" where
  "handle_request reply rq a =
     (if ac_stopping a then record_out (OReply reply (Inl EWorkerStopped)) a
      else blocking_request reply rq a)"

section \<open>The loop\<close>

datatype input =
    InStop
  | InRequest reply request
  | InBlocking reply request
  | InRequestsClosed
  | InFinished nat finished
  | InTransmitProgress uuid transmission_progress
  | InExportSave received_fax
  | InOffer pending_incoming
  | InReceived receive_event
  | InNativeClosed

definition remove_nth :: "nat \<Rightarrow> 'a list \<Rightarrow> 'a list" where
  "remove_nth n xs = take n xs @ drop (Suc n) xs"

definition task_finished :: "nat \<Rightarrow> finished \<Rightarrow> actor \<Rightarrow> actor" where
  "task_finished n r a =
     (if n < length (ac_tasks a) \<and> produces (ac_tasks a ! n) r
      then complete (ac_tasks a ! n) r
             (a\<lparr>ac_working := ac_working a - 1, ac_tasks := remove_nth n (ac_tasks a)\<rparr>)
      else a)"

text \<open>The \<open>select!\<close>: one message. A channel that was replaced by \<open>never()\<close> delivers nothing.\<close>

fun dispatch :: "input \<Rightarrow> actor \<Rightarrow> actor" where
  "dispatch InStop a = (stop a)\<lparr>ac_requests_open := False\<rparr>"
| "dispatch (InRequest reply rq) a = (if ac_requests_open a then handle_request reply rq a else a)"
| "dispatch (InBlocking reply rq) a = (if ac_requests_open a then blocking_request reply rq a else a)"
| "dispatch InRequestsClosed a = (if ac_requests_open a then (stop a)\<lparr>ac_requests_open := False\<rparr> else a)"
| "dispatch (InFinished n r) a = task_finished n r a"
| "dispatch (InTransmitProgress i p) a = transmit_progress i p a"
| "dispatch (InExportSave f) a = snd (save_and_publish f a)"
| "dispatch (InOffer p) a = offer_incoming p a"
| "dispatch (InReceived e) a = (if ac_native_open a then reported (received e a) else a)"
| "dispatch InNativeClosed a =
     (if ac_native_open a
      then (let a = a\<lparr>ac_native_open := False\<rparr>
            in if ac_stopping a then a else report_error EWorkerStopped a)
      else a)"

text \<open>\<open>while active.len() < limits.outgoing\<close>: every further iteration follows one that made the map
  grow, so the limit bounds their number.\<close>

fun send_loop :: "nat \<Rightarrow> actor \<Rightarrow> actor" where
  "send_loop 0 a = a"
| "send_loop (Suc k) a =
     (if length (ac_active a) \<ge> lim_outgoing (ac_limits a) then a
      else case start_send a of
        (Inl e, b) \<Rightarrow> report_error e b
      | (Inr _, b) \<Rightarrow> if length (ac_active b) = length (ac_active a) then b else send_loop k b)"

definition serve :: "actor \<Rightarrow> actor" where
  "serve a =
     publish (if \<not> ac_stopping a
              then reported (start_export (send_loop (lim_outgoing (ac_limits a)) a)) else a)"

definition loop_ends :: "actor \<Rightarrow> bool" where
  "loop_ends a \<longleftrightarrow> ac_stopping a \<and> ac_working a = 0"

text \<open>One iteration: a message, then the top of the next iteration. Once the loop has ended, no
  message is taken.\<close>

definition actor_step :: "input \<Rightarrow> actor \<Rightarrow> actor" where
  "actor_step i a = (if loop_ends a then a else serve (dispatch i a))"

text \<open>The end of \<open>run\<close>: the events already queued are handled, then the last view is published.\<close>

definition actor_finish :: "receive_event list \<Rightarrow> actor \<Rightarrow> actor" where
  "actor_finish events a =
     publish (mark_dirty (set_view (\<lambda>v. v\<lparr>ev_lifecycle := LStopped\<rparr>)
       (foldl (\<lambda>a e. reported (received e a)) a events)))"

section \<open>Opening\<close>

record actor_setup =
  su_open :: open_world
  su_limits :: call_limits
  su_backend :: bool
  su_service :: bool
  su_native :: bool
  su_env :: actor_env
  su_spool_error :: "utext option"
  su_pool_error :: "utext option"

definition unexported :: "received_fax \<Rightarrow> bool" where
  "unexported f \<longleftrightarrow> \<not> outcome_is_active (rf_outcome f) \<and>
     (case rf_export f of XPending \<Rightarrow> True | XPublishing _ _ _ _ \<Rightarrow> True | XFailed _ \<Rightarrow> True | _ \<Rightarrow> False)"

definition actor_new :: "actor_setup \<Rightarrow> engine_view \<Rightarrow> store \<Rightarrow> actor" where
  "actor_new su v st =
     \<lparr>ac_store = st, ac_directory = ow_directory (su_open su),
      ac_spool = join_path (ow_directory (su_open su)) (lit ''spool''), ac_backend = su_backend su,
      ac_service = su_service su, ac_configuring = False, ac_settings_saving = False,
      ac_settings_pending = None, ac_working = 0, ac_tasks = [], ac_active = [],
      ac_limits = su_limits su, ac_admissions = [], ac_preparing = [],
      ac_exports = map rf_id (filter unexported (ev_inbox v)), ac_exporting = None, ac_generation = 0,
      ac_stopping = False, ac_clear_active = {}, ac_dirty = True, ac_view = v, ac_log = [],
      ac_env = su_env su, ac_ticks = 0, ac_requests_open = True, ac_native_open = su_native su\<rparr>"

definition actor_open :: "actor_setup \<Rightarrow> store \<Rightarrow> (engine_error + actor) \<times> store" where
  "actor_open su st =
     (let dir = ow_directory (su_open su)
      in case open_store (su_open su) st of
           (Inl e, st) \<Rightarrow> (Inl (EInvalid (lit ''Opening fax database at '' @ dir @ lit '': '' @ show_error e)), st)
         | (Inr _, st) \<Rightarrow>
             (case su_spool_error su of
                Some e \<Rightarrow> (Inl (EInvalid (lit ''Opening document spool at '' @ dir @ lit '': '' @ e)), st)
              | None \<Rightarrow>
                  and_then (profiles st) (\<lambda>ps st.
                  and_then (destinations st) (\<lambda>ds st.
                  and_then (jobs st) (\<lambda>js st.
                  and_then (received_faxes st) (\<lambda>fs st.
                  and_then (receive_settings_of st) (\<lambda>x st.
                  let v = default_view\<lparr>ev_profiles := ps, ev_destinations := ds, ev_jobs := js,
                            ev_inbox := fs, ev_settings := x, ev_sending := su_backend su,
                            ev_lifecycle := LRunning\<rparr>
                  in and_then (io_check (su_pool_error su), st) (\<lambda>_ st.
                     (Inr (actor_new su v st), st)))))))))"

text \<open>The start of the worker: the first view, the receiver, and the top of the first iteration.\<close>

definition actor_start :: "actor \<Rightarrow> actor" where
  "actor_start a = serve (publish (reported (refresh_receiver (publish a))))"

end
