(* ===== verification/StoreFlow.thy ===== *)
theory StoreFlow
  imports StoreOpen
begin

text \<open>
  What the operations of the store can do to the queue: a job becomes queued only by being enqueued
  under a fresh uuid. \<open>store_flow\<close> is this relation between two states of the store; it is reflexive
  and transitive, so it describes any sequence of operations.
\<close>

definition queued_in :: "store \<Rightarrow> uuid \<Rightarrow> bool" where
  "queued_in st i \<longleftrightarrow> (\<exists>r \<in> set (st_jobs st). jr_id r = i \<and> jr_status r = StQueued)"

definition drawn :: "store \<Rightarrow> store \<Rightarrow> uuid \<Rightarrow> bool" where
  "drawn st st' i \<longleftrightarrow> (\<exists>n. st_ticks st \<le> n \<and> n < st_ticks st' \<and> i = env_uuid (st_env st) n)"

definition store_flow :: "store \<Rightarrow> store \<Rightarrow> bool" where
  "store_flow st st' \<longleftrightarrow>
     st_env st' = st_env st \<and> st_version st' = st_version st \<and>
     st_ticks st \<le> st_ticks st' \<and> (wf_store st \<longrightarrow> wf_store st') \<and>
     (\<forall>i. queued_in st' i \<longrightarrow> queued_in st i \<or> drawn st st' i) \<and>
     (\<forall>i \<in> jr_id ` set (st_jobs st'). i \<in> jr_id ` set (st_jobs st) \<or> drawn st st' i)"

lemma drawn_mono: "drawn st s i \<Longrightarrow> st_ticks s \<le> st_ticks t \<Longrightarrow> drawn st t i"
  by (fastforce simp: drawn_def)

lemma drawn_later:
  "drawn s t i \<Longrightarrow> st_env s = st_env st \<Longrightarrow> st_ticks st \<le> st_ticks s \<Longrightarrow> drawn st t i"
  by (auto simp: drawn_def intro: order_trans)

lemma store_flow_refl [simp, intro]: "store_flow st st"
  by (simp add: store_flow_def)

lemma store_flow_wf: "store_flow st t \<Longrightarrow> wf_store st \<Longrightarrow> wf_store t"
  by (simp add: store_flow_def)

lemma store_flow_trans:
  assumes "store_flow st s" "store_flow s t"
  shows "store_flow st t"
proof -
  have env: "st_env s = st_env st" "st_env t = st_env st" and ticks: "st_ticks st \<le> st_ticks s"
      "st_ticks s \<le> st_ticks t"
    using assms by (auto simp: store_flow_def)
  have "drawn s t i \<Longrightarrow> drawn st t i" "drawn st s i \<Longrightarrow> drawn st t i" for i
    using env ticks drawn_later [of s t i st] drawn_mono [of st s i t] by auto
  with assms show ?thesis unfolding store_flow_def by (auto 0 3)
qed

text \<open>Operations that leave the job table alone, and operations that only remove rows.\<close>

lemma store_flow_same_jobs:
  assumes "st_env t = st_env st" "st_version t = st_version st" "st_ticks st \<le> st_ticks t" "wf_store st \<Longrightarrow> wf_store t"
    "set (st_jobs t) \<subseteq> set (st_jobs st)"
  shows "store_flow st t"
  using assms by (auto simp: store_flow_def queued_in_def)

lemma store_flow_tick [simp, intro]: "store_flow st (tick st)"
  by (rule store_flow_same_jobs) simp_all

text \<open>What a statement does to the fields the queue does not depend on.\<close>

definition queue_frame :: "store \<Rightarrow> store \<Rightarrow> bool" where
  "queue_frame st t \<longleftrightarrow>
     st_env t = st_env st \<and> st_version t = st_version st \<and> st_ticks st \<le> st_ticks t \<and>
     set (st_jobs t) \<subseteq> set (st_jobs st)"

lemma queue_frame_statement:
  assumes "\<And>s. queue_frame s (snd (f s))"
  shows "queue_frame st (snd (statement f st))"
  using assms [of "tick st"] by (auto simp: statement_def queue_frame_def split: option.splits)

lemma queue_frame_refl [simp]: "queue_frame st st"
  by (simp add: queue_frame_def)

lemma queue_frame_trans: "queue_frame a b \<Longrightarrow> queue_frame b c \<Longrightarrow> queue_frame a c"
  by (auto simp: queue_frame_def)

lemma queue_frame_tick [simp]: "queue_frame st (tick st)"
  by (simp add: queue_frame_def)

lemma queue_frame_and_then:
  assumes "queue_frame st (snd r)" "\<And>x s. r = (Inr x, s) \<Longrightarrow> queue_frame s (snd (k x s))"
  shows "queue_frame st (snd (and_then r k))"
  using assms by (cases r; cases "fst r") (auto intro: queue_frame_trans)

lemma store_flowI:
  "queue_frame st t \<Longrightarrow> (wf_store st \<Longrightarrow> wf_store t) \<Longrightarrow> store_flow st t"
  by (simp add: queue_frame_def store_flow_same_jobs)

lemma received_fax_state [simp]: "snd (received_fax i st) = tick st"
  by (simp add: received_fax_def read_one_def)

lemma profiles_state: "snd (profiles st) = tick st" "snd (receive_settings_of st) = tick st"
  "snd (profile i st) = tick st" "snd (stored_job i st) = tick st"
  by (simp_all add: frame_simps)

lemma queue_frame_updates [simp]:
  "queue_frame s (s\<lparr>st_received := a\<rparr>)" "queue_frame s (s\<lparr>st_preference := b\<rparr>)"
  "queue_frame s (s\<lparr>st_profiles := c\<rparr>)" "queue_frame s (s\<lparr>st_destinations := d\<rparr>)"
  "queue_frame s (s\<lparr>st_jobs := filter P (st_jobs s)\<rparr>)"
  by (auto simp: queue_frame_def)

lemma save_received_flow: "store_flow st (snd (save_received f st))"
  by (rule store_flowI, unfold save_received_def, rule queue_frame_statement, simp)
     (rule save_received_keeps_wf [unfolded save_received_def])

lemma save_settings_flow: "store_flow st (snd (save_receive_settings x st))"
proof (rule store_flowI)
  show "queue_frame st (snd (save_receive_settings x st))"
    unfolding save_receive_settings_def
    by (intro queue_frame_and_then queue_frame_statement) (simp_all add: profiles_state)
qed (rule save_receive_settings_keeps_wf)

lemma save_profile_flow: "store_flow st (snd (save_profile p st))"
proof (rule store_flowI)
  have "queue_frame s (snd (if b then and_then (receive_settings_of s) (\<lambda>x s.
      if rs_profile x = Some i then fail_store e s else (Inr (), s)) else (Inr (), s)))" for s b i e
    by (auto intro!: queue_frame_and_then simp: profiles_state)
  then show "queue_frame st (snd (save_profile p st))"
    unfolding save_profile_def
    by (intro queue_frame_and_then queue_frame_statement) simp_all
qed (rule save_profile_keeps_wf)

lemma save_destination_flow: "store_flow st (snd (save_destination d st))"
proof (rule store_flowI)
  show "queue_frame st (snd (save_destination d st))"
    unfolding save_destination_def
    by (intro queue_frame_and_then queue_frame_statement) simp_all
qed (rule save_destination_keeps_wf)

lemma remove_destination_flow: "store_flow st (snd (remove_destination i st))"
  by (rule store_flowI, unfold remove_destination_def, rule queue_frame_statement, simp)
     (rule remove_destination_keeps_wf [unfolded remove_destination_def])

lemma clear_queue_flow: "store_flow st (snd (clear_queue st))"
  by (rule store_flowI, unfold clear_queue_def, rule queue_frame_statement, simp)
     (rule clear_queue_keeps_wf [unfolded clear_queue_def])

lemma remove_job_flow: "store_flow st (snd (remove_job i st))"
  by (rule store_flowI, unfold remove_job_def, rule queue_frame_statement, simp)
     (rule remove_job_keeps_wf [unfolded remove_job_def])

text \<open>Rewriting the rows of one job keeps the ids, and queues nothing unless told so.\<close>

lemma queued_put_job:
  "c \<noteq> StQueued \<Longrightarrow> queued_in (st\<lparr>st_jobs := put_job c j rows\<rparr>) i \<longleftrightarrow>
     i \<noteq> job_id j \<and> queued_in (st\<lparr>st_jobs := rows\<rparr>) i"
  by (fastforce simp: queued_in_def put_job_def set_update_rows)

lemma queued_in_ticks [simp]: "queued_in (st\<lparr>st_ticks := n\<rparr>) i = queued_in st i"
  "queued_in (tick st) i = queued_in st i"
  by (simp_all add: queued_in_def)

lemma update_job_env:
  "st_env (snd (update_job j st)) = st_env st \<and> st_version (snd (update_job j st)) = st_version st \<and>
   st_ticks st \<le> st_ticks (snd (update_job j st))"
  by (simp add: update_job_def Let_def statement_def split: option.splits)

lemma update_job_flow:
  assumes "job_state j \<noteq> JQueued"
  shows "store_flow st (snd (update_job j st))"
proof -
  obtain r s where up: "update_job j st = (r, s)" by fastforce
  have q: "queued_in s i \<Longrightarrow> queued_in st i" for i
  proof (cases r)
    case (Inl e)
    with update_job_errD [of j st e s] up have "s = st\<lparr>st_ticks := st_ticks s\<rparr>" by simp
    then show "queued_in s i \<Longrightarrow> queued_in st i" by (metis queued_in_ticks(1))
  next
    case (Inr u)
    with up have s: "s = st\<lparr>st_jobs := put_job (status_of (job_state j)) (stamp_job j st) (st_jobs st),
        st_ticks := st_ticks s\<rparr>" by (auto intro: update_job_okD(1))
    assume "queued_in s i"
    then have "queued_in (st\<lparr>st_jobs := put_job (status_of (job_state j)) (stamp_job j st) (st_jobs st)\<rparr>) i"
      using s by (metis queued_in_ticks(1))
    with assms show "queued_in st i" by (simp add: queued_put_job)
  qed
  have "jr_id ` set (st_jobs s) = jr_id ` set (st_jobs st)" using update_job_ids [of j st] up by simp
  with q update_job_env [of j st] update_job_keeps_wf [of st j] up show ?thesis
    by (auto simp: store_flow_def)
qed

lemma claim_next_env:
  "st_env (snd (claim_next st)) = st_env st \<and> st_version (snd (claim_next st)) = st_version st \<and>
   st_ticks st \<le> st_ticks (snd (claim_next st))"
proof -
  let ?P = "\<lambda>s. st_env s = st_env st \<and> st_version s = st_version st \<and> st_ticks st \<le> st_ticks s"
  have st: "?P s \<Longrightarrow> (\<And>t. ?P t \<Longrightarrow> ?P (snd (f t))) \<Longrightarrow> ?P (snd (statement f s))" for f :: "store \<Rightarrow> 'a stored" and s
    by (simp add: statement_def split: option.splits)
  show ?thesis
    unfolding claim_next_def Let_def
    by (intro and_then_keeps [where P = ?P])
       (auto simp: statement_def split: option.splits intro!: and_then_keeps [where P = ?P])
qed

lemma claim_next_flow: "store_flow st (snd (claim_next st))"
proof -
  obtain r s where cl: "claim_next st = (r, s)" by fastforce
  have jobs: "(\<forall>i. queued_in s i \<longrightarrow> queued_in st i) \<and> jr_id ` set (st_jobs s) = jr_id ` set (st_jobs st)"
  proof -
    have frame: "s = st\<lparr>st_ticks := n\<rparr> \<Longrightarrow> ?thesis" for n by simp
    show ?thesis
    proof (cases r)
      case (Inl e)
      with claim_errD [of st e s] cl frame show ?thesis by blast
    next
      case (Inr c)
      show ?thesis
      proof (cases c)
        case None
        with claim_NoneD [of st s] cl Inr frame show ?thesis by blast
      next
        case (Some j)
        with claim_okD [of st j s] cl Inr obtain n
          where s: "s = st\<lparr>st_jobs := put_job StActive j (st_jobs st), st_ticks := n\<rparr>" by metis
        have "queued_in (st\<lparr>st_jobs := put_job StActive j (st_jobs st)\<rparr>) i \<Longrightarrow> queued_in st i" for i
          by (simp add: queued_put_job)
        with s show ?thesis by simp
      qed
    qed
  qed
  with claim_next_env [of st] claim_next_keeps_wf [of st] cl show ?thesis
    by (auto simp: store_flow_def)
qed

lemma enqueue_flow: "store_flow st (snd (enqueue rq retry_of st))"
proof -
  obtain r s where en: "enqueue rq retry_of st = (r, s)" by fastforce
  have "st_env s = st_env st \<and> st_version s = st_version st \<and> st_ticks st \<le> st_ticks s \<and>
    (st_jobs s = st_jobs st \<or> (\<exists>row. st_jobs s = st_jobs st @ [row] \<and> drawn st s (jr_id row)))"
    using en unfolding enqueue_def Let_def
    by (cases "validate_destination (rq_destination rq)"; cases "profile (rq_profile rq) st";
        cases "fst (profile (rq_profile rq) st)"; cases "profile_validate (projr (fst (profile (rq_profile rq) st)))")
       (use profiles_state(3) [of "rq_profile rq" st] in
         \<open>auto simp: statement_def drawn_def fresh_uuid_def split: option.splits if_splits
           intro!: exI [of _ "Suc (Suc (st_ticks st))"]\<close>)
  with enqueue_keeps_wf [of st rq retry_of] en show ?thesis
    by (auto simp: store_flow_def queued_in_def)
qed

section \<open>Active rows\<close>

text \<open>The rows of a set of jobs stay active. Ids are unique, so an active job is not queued.\<close>

definition active_in :: "store \<Rightarrow> uuid \<Rightarrow> bool" where
  "active_in st i \<longleftrightarrow> (\<exists>r \<in> set (st_jobs st). jr_id r = i \<and> jr_status r = StActive)"

definition rows_kept :: "uuid set \<Rightarrow> store \<Rightarrow> store \<Rightarrow> bool" where
  "rows_kept K st st' \<longleftrightarrow> (\<forall>i \<in> K. active_in st i \<longrightarrow> active_in st' i)"

lemma rows_kept_refl [simp, intro]: "rows_kept K st st"
  by (simp add: rows_kept_def)

lemma rows_kept_trans: "rows_kept K st s \<Longrightarrow> rows_kept K s t \<Longrightarrow> rows_kept K st t"
  by (simp add: rows_kept_def)

lemma active_in_ticks [simp]: "active_in (st\<lparr>st_ticks := n\<rparr>) i = active_in st i"
  "active_in (tick st) i = active_in st i"
  by (simp_all add: active_in_def)

lemma active_not_queued: "wf_store st \<Longrightarrow> active_in st i \<Longrightarrow> \<not> queued_in st i"
proof -
  assume "wf_store st" "active_in st i"
  then have d: "distinct (map jr_id (st_jobs st))" by (simp add: wf_store_def wf_jobs_def)
  obtain r where r: "r \<in> set (st_jobs st)" "jr_id r = i" "jr_status r = StActive"
    using \<open>active_in st i\<close> by (auto simp: active_in_def)
  have "q = r" if "q \<in> set (st_jobs st)" "jr_id q = i" for q
    using d r(1,2) that unfolding distinct_map inj_on_def by blast
  with r(3) have "jr_status q \<noteq> StQueued" if "q \<in> set (st_jobs st)" "jr_id q = i" for q
    using that by force
  then show ?thesis by (auto simp: queued_in_def)
qed

text \<open>Operations that leave the table alone or keep its active rows.\<close>

definition active_frame :: "store \<Rightarrow> store \<Rightarrow> bool" where
  "active_frame st t \<longleftrightarrow> (\<forall>r \<in> set (st_jobs st). jr_status r = StActive \<longrightarrow> r \<in> set (st_jobs t))"

lemma active_frame_simps [simp]:
  "active_frame s s" "active_frame s (tick s)" "active_frame s (s\<lparr>st_received := a\<rparr>)"
  "active_frame s (s\<lparr>st_preference := b\<rparr>)" "active_frame s (s\<lparr>st_profiles := c\<rparr>)"
  "active_frame s (s\<lparr>st_destinations := d\<rparr>)"
  "active_frame s (s\<lparr>st_jobs := filter (\<lambda>r. jr_status r = StActive) (st_jobs s)\<rparr>)"
  by (auto simp: active_frame_def)

lemma active_frame_statement:
  assumes "\<And>s. active_frame s (snd (f s))"
  shows "active_frame st (snd (statement f st))"
  using assms [of "tick st"] by (auto simp: statement_def active_frame_def split: option.splits)

lemma active_frame_and_then:
  assumes "active_frame st (snd r)" "\<And>x s. r = (Inr x, s) \<Longrightarrow> active_frame s (snd (k x s))"
  shows "active_frame st (snd (and_then r k))"
  using assms by (cases r; cases "fst r") (auto simp: active_frame_def)

lemma rows_kept_frame: "active_frame st t \<Longrightarrow> rows_kept K st t"
  by (auto simp: active_frame_def rows_kept_def active_in_def)

lemma save_received_rows: "rows_kept K st (snd (save_received f st))"
  unfolding save_received_def by (intro rows_kept_frame active_frame_statement) simp

lemma save_settings_rows: "rows_kept K st (snd (save_receive_settings x st))"
  unfolding save_receive_settings_def
  by (intro rows_kept_frame active_frame_and_then active_frame_statement) (simp_all add: profiles_state)

lemma save_profile_rows: "rows_kept K st (snd (save_profile p st))"
proof -
  have "active_frame s (snd (if b then and_then (receive_settings_of s) (\<lambda>x s.
      if rs_profile x = Some i then fail_store e s else (Inr (), s)) else (Inr (), s)))" for s b i e
    by (auto intro!: active_frame_and_then simp: profiles_state)
  then show ?thesis
    unfolding save_profile_def
    by (intro rows_kept_frame active_frame_and_then active_frame_statement) simp_all
qed

lemma save_destination_rows: "rows_kept K st (snd (save_destination d st))"
  unfolding save_destination_def
  by (intro rows_kept_frame active_frame_and_then active_frame_statement) simp_all

lemma remove_destination_rows: "rows_kept K st (snd (remove_destination i st))"
  unfolding remove_destination_def by (intro rows_kept_frame active_frame_statement) simp

lemma clear_queue_rows: "rows_kept K st (snd (clear_queue st))"
  unfolding clear_queue_def by (intro rows_kept_frame active_frame_statement) simp

lemma remove_job_rows: "i \<notin> K \<Longrightarrow> rows_kept K st (snd (remove_job i st))"
  by (auto simp: remove_job_def rows_kept_def active_in_def statement_def split: option.splits)

lemma enqueue_rows: "rows_kept K st (snd (enqueue rq retry_of st))"
  unfolding enqueue_def Let_def
  by (intro rows_kept_frame active_frame_and_then)
     (auto simp: profiles_state active_frame_def statement_def split: option.splits)

lemma active_put_job:
  "active_in (st\<lparr>st_jobs := put_job c j rows\<rparr>) i \<longleftrightarrow>
     (if i = job_id j then c = StActive \<and> i \<in> jr_id ` set rows else active_in (st\<lparr>st_jobs := rows\<rparr>) i)"
proof (cases "i = job_id j")
  case True
  have bex: "(\<exists>r \<in> set (map g rows). P r) \<longleftrightarrow> (\<exists>q \<in> set rows. P (g q))" for g P by simp
  have jobs_of: "st_jobs (st\<lparr>st_jobs := x\<rparr>) = x" for x by simp
  have "active_in (st\<lparr>st_jobs := put_job c j rows\<rparr>) i \<longleftrightarrow> (\<exists>q \<in> set rows. jr_id q = i \<and> c = StActive)"
    unfolding active_in_def put_job_def update_rows_def using True by (simp only: jobs_of bex) auto
  with True show ?thesis by (auto simp: image_iff) metis+
next
  case False
  then show ?thesis by (fastforce simp: active_in_def put_job_def set_update_rows)
qed

lemma active_in_ids: "active_in st i \<Longrightarrow> i \<in> jr_id ` set (st_jobs st)"
  by (auto simp: active_in_def)

lemma update_job_rows:
  assumes "job_id j \<in> K \<Longrightarrow> job_is_active (job_state j)"
  shows "rows_kept K st (snd (update_job j st))"
proof -
  obtain r s where up: "update_job j st = (r, s)" by fastforce
  have "active_in s i" if i: "i \<in> K" "active_in st i" for i
  proof (cases r)
    case (Inl e)
    with update_job_errD [of j st e s] up have "s = st\<lparr>st_ticks := st_ticks s\<rparr>" by simp
    then show ?thesis using i by (metis active_in_ticks(1))
  next
    case (Inr u)
    with up obtain n where "s = st\<lparr>st_jobs := put_job (status_of (job_state j)) (stamp_job j st) (st_jobs st),
        st_ticks := n\<rparr>" by (auto dest: update_job_okD(1))
    moreover have "active_in (st\<lparr>st_jobs := put_job (status_of (job_state j)) (stamp_job j st) (st_jobs st)\<rparr>) i"
      using i assms active_in_ids [OF i(2)] unfolding active_put_job by (cases "i = job_id j") simp_all
    ultimately show ?thesis by simp
  qed
  with up show ?thesis by (simp add: rows_kept_def)
qed

text \<open>Claiming: the claimed job was queued and is active afterwards.\<close>

lemma claim_next_rows: "rows_kept K st (snd (claim_next st))"
proof -
  obtain r s where cl: "claim_next st = (r, s)" by fastforce
  have frame: "s = st\<lparr>st_ticks := n\<rparr> \<Longrightarrow> active_in st i \<Longrightarrow> active_in s i" for n i by simp
  have "active_in s i" if i: "active_in st i" for i
  proof (cases r)
    case (Inl e)
    with claim_errD [of st e s] cl frame i show ?thesis by blast
  next
    case (Inr c)
    show ?thesis
    proof (cases c)
      case None
      with claim_NoneD [of st s] cl Inr frame i show ?thesis by blast
    next
      case (Some j)
      with claim_okD [of st j s] cl Inr obtain n
        where "s = st\<lparr>st_jobs := put_job StActive j (st_jobs st), st_ticks := n\<rparr>" by metis
      moreover have "active_in (st\<lparr>st_jobs := put_job StActive j (st_jobs st)\<rparr>) i"
        using i active_in_ids [OF i] unfolding active_put_job by (cases "i = job_id j") simp_all
      ultimately show ?thesis by simp
    qed
  qed
  with cl show ?thesis by (simp add: rows_kept_def)
qed

lemma claim_next_active:
  assumes wf: "wf_store st" and cl: "claim_next st = (Inr (Some j), s)"
  shows "queued_in st (job_id j)" "active_in s (job_id j)" "\<not> queued_in s (job_id j)" "job_state j = JConnecting"
proof -
  obtain r k where r: "oldest_queued (st_jobs st) = Some r" and k: "jr_data r = Json k"
    and j: "j = k\<lparr>job_state := JConnecting, job_updated := job_updated j\<rparr>"
    and s: "s = st\<lparr>st_jobs := put_job StActive j (st_jobs st), st_ticks := st_ticks s\<rparr>"
    by (rule claim_okD [OF cl])
  have row: "r \<in> set (st_jobs st)" "jr_status r = StQueued" using oldest_queuedD [OF r] by auto
  have "job_row_ok r" using wf row by (simp add: wf_store_def wf_jobs_def)
  with k have "job_id k = jr_id r" by (simp add: job_row_ok_def)
  moreover have "job_id j = job_id k" by (subst j) simp
  ultimately have i: "jr_id r = job_id j" by simp
  show "queued_in st (job_id j)" using row i by (auto simp: queued_in_def)
  have "job_id j \<in> jr_id ` set (st_jobs st)" using row i by (metis image_eqI)
  then have "active_in (st\<lparr>st_jobs := put_job StActive j (st_jobs st)\<rparr>) (job_id j)"
    by (simp add: active_put_job)
  then show act: "active_in s (job_id j)" by (subst s) simp
  have "wf_store s" using claim_next_keeps_wf [OF wf] cl by simp
  with act show "\<not> queued_in s (job_id j)" by (intro active_not_queued)
  show "job_state j = JConnecting" by (subst j) simp
qed

lemma stored_job_okD:
  assumes "stored_job i st = (Inr j, s)" "wf_store st"
  shows "job_id j = i"
proof -
  obtain r where r: "find_by jr_id i (st_jobs st) = Some r" "jr_data r = Json j"
    using assms(1) by (auto simp: stored_job_def read_one_def decode_def dest!: statement_okD
        split: option.splits json.splits)
  then have "r \<in> set (st_jobs st)" "jr_id r = i" by (auto dest: find_by_SomeD)
  with r assms(2) show ?thesis by (auto simp: wf_store_def wf_jobs_def job_row_ok_def)
qed

end
