(* ===== verification/ActorInv.thy ===== *)
theory ActorInv
  imports ActorRun StoreFlow
begin

text \<open>
  The invariant of the engine's owner and its preservation by every handler. Most handlers are
  \<open>steady\<close>: they keep the set of transmissions, the outstanding tasks and the flags that guard them,
  and touch the queue only as the store allows; the few that start or end background work are
  treated one by one.
\<close>

section \<open>What a handler may keep\<close>

text \<open>The jobs whose transmission was ever started, oldest first.\<close>

fun dispatched_of :: "actor_output \<Rightarrow> uuid list" where
  "dispatched_of (OSpawn (TkTransmit j _)) = [job_id j]"
| "dispatched_of _ = []"

definition dispatched :: "actor \<Rightarrow> uuid list" where
  "dispatched a = concat (map dispatched_of (ac_log a))"

definition active_ids :: "actor \<Rightarrow> uuid list" where
  "active_ids a = map fst (ac_active a)"

text \<open>Every job in transmission carries its own id and is in an active state.\<close>

definition active_ok :: "actor \<Rightarrow> bool" where
  "active_ok a \<longleftrightarrow> (\<forall>(k, j, c) \<in> set (ac_active a). job_id j = k \<and> job_is_active (job_state j))"

definition flags :: "actor \<Rightarrow> task list \<times> nat \<times> bool \<times> bool \<times> uuid option \<times> bool \<times> call_limits" where
  "flags a = (ac_tasks a, ac_working a, ac_configuring a, ac_settings_saving a, ac_exporting a,
              ac_stopping a, ac_limits a)"

definition steady :: "actor \<Rightarrow> actor \<Rightarrow> bool" where
  "steady a b \<longleftrightarrow> (active_ok a \<longrightarrow>
     flags b = flags a \<and> ac_settings_pending b = ac_settings_pending a \<and>
     ac_requests_open b = ac_requests_open a \<and> active_ids b = active_ids a \<and> active_ok b \<and>
     dispatched b = dispatched a \<and> store_flow (ac_store a) (ac_store b) \<and>
     (wf_store (ac_store a) \<longrightarrow> rows_kept (set (active_ids a)) (ac_store a) (ac_store b)))"

named_theorems steady_intros "handlers that are steady"

lemma steady_refl [simp, intro]: "steady a a"
  by (simp add: steady_def)

lemma steady_trans: "steady a b \<Longrightarrow> steady b c \<Longrightarrow> steady a c"
  by (auto simp: steady_def intro: store_flow_trans rows_kept_trans dest: store_flow_wf)

lemma steady_and_then:
  assumes "steady a (snd r)" "\<And>x b. r = (Inr x, b) \<Longrightarrow> steady a b \<Longrightarrow> steady b (snd (k x b))"
  shows "steady a (snd (and_then r k))"
  using assms by (cases r; cases "fst r") (auto intro: steady_trans)

text \<open>Changes of the other fields.\<close>

lemma steady_updates [simp]:
  "steady a (b\<lparr>ac_generation := n\<rparr>) = steady a b" "steady a (b\<lparr>ac_dirty := d\<rparr>) = steady a b"
  "steady a (b\<lparr>ac_view := v\<rparr>) = steady a b" "steady a (b\<lparr>ac_ticks := n\<rparr>) = steady a b"
  "steady a (b\<lparr>ac_admissions := ps\<rparr>) = steady a b" "steady a (b\<lparr>ac_exports := es\<rparr>) = steady a b"
  "steady a (b\<lparr>ac_clear_active := cs\<rparr>) = steady a b" "steady a (b\<lparr>ac_preparing := qs\<rparr>) = steady a b"
  "steady a (b\<lparr>ac_service := x\<rparr>) = steady a b" "steady a (b\<lparr>ac_native_open := x\<rparr>) = steady a b"
  by (simp_all add: steady_def flags_def active_ids_def active_ok_def dispatched_def)

lemma steady_ticks_left [simp]: "steady (a\<lparr>ac_ticks := n\<rparr>) b = steady a b"
  by (simp add: steady_def flags_def active_ids_def active_ok_def dispatched_def)

lemma steady_set_view [simp]: "steady a (set_view f b) = steady a b"
  by (simp add: set_view_def)

lemma steady_mark_dirty [simp]: "steady a (mark_dirty b) = steady a b"
  by (simp add: mark_dirty_def)

lemma steady_record [simp]: "dispatched_of x = [] \<Longrightarrow> steady a (record_out x b) = steady a b"
  by (simp add: record_out_def steady_def flags_def active_ids_def active_ok_def dispatched_def)

lemma steady_emit [simp]: "steady a (emit e b) = steady a b"
  by (simp add: emit_def)

lemma steady_publish [simp]: "steady a (publish b) = steady a b"
  by (simp add: publish_def Let_def)

lemma steady_report_error [simp]: "steady a (report_error e b) = steady a b"
  by (simp add: report_error_def Let_def)

lemma steady_reported [simp]: "steady a (reported r) = steady a (snd r)"
  by (simp add: reported_def split: prod.splits sum.splits)

lemma steady_observe [simp]: "steady a (snd (observe f b)) = steady a b"
  by (simp add: observe_def)

lemma observe_split: "P (case observe f a of (x, b) \<Rightarrow> k x b) \<longleftrightarrow>
    P (k (f (ac_env a) (ac_ticks a)) (a\<lparr>ac_ticks := Suc (ac_ticks a)\<rparr>))"
  by (simp add: observe_def)

lemma steady_with_store:
  assumes "active_ok a \<Longrightarrow> store_flow (ac_store a) (snd (f (ac_store a)))"
    "active_ok a \<Longrightarrow> wf_store (ac_store a) \<Longrightarrow> rows_kept (set (active_ids a)) (ac_store a) (snd (f (ac_store a)))"
  shows "steady a (snd (with_store f a))"
  using assms
  by (simp add: with_store_def steady_def flags_def active_ids_def active_ok_def dispatched_def case_prod_beta)

lemma with_store_okD:
  "with_store f a = (Inr x, b) \<Longrightarrow> \<exists>s. f (ac_store a) = (Inr x, s) \<and> b = a\<lparr>ac_store := s\<rparr>"
  by (auto simp: with_store_def split: prod.splits)

lemma steady_command [simp]: "steady a (snd (send_command c b)) = steady a b"
  by (simp add: send_command_def observe_def split: bool.splits)

lemma steady_native_command [simp]: "steady a (snd (native_command c b)) = steady a b"
  by (simp add: native_command_def split: sum.splits)

text \<open>Reading the store, and the writes that do not touch the queue.\<close>

lemma steady_store_ops [steady_intros]:
  "steady a (snd (with_store (profile i) a))" "steady a (snd (with_store (received_fax i) a))"
  "steady a (snd (with_store (stored_job i) a))" "steady a (snd (with_store (save_received f) a))"
  "steady a (snd (with_store (save_profile p) a))" "steady a (snd (with_store (save_destination d) a))"
  "steady a (snd (with_store (remove_destination i) a))"
  "steady a (snd (with_store (save_receive_settings s) a))" "steady a (snd (with_store clear_queue a))"
  "steady a (snd (with_store (enqueue rq r) a))"
  by (rule steady_with_store,
      simp add: profiles_state save_received_flow save_profile_flow save_destination_flow
        remove_destination_flow save_settings_flow clear_queue_flow enqueue_flow,
      simp add: profiles_state save_received_rows save_profile_rows save_destination_rows
        remove_destination_rows save_settings_rows clear_queue_rows enqueue_rows rows_kept_frame)+

lemma steady_update_job [steady_intros]:
  "(active_ok a \<Longrightarrow> job_state j \<noteq> JQueued) \<Longrightarrow>
   (active_ok a \<Longrightarrow> wf_store (ac_store a) \<Longrightarrow> job_id j \<in> set (active_ids a) \<Longrightarrow> job_is_active (job_state j)) \<Longrightarrow>
   steady a (snd (with_store (update_job j) a))"
  by (intro steady_with_store update_job_flow update_job_rows)

lemma steady_remove_job [steady_intros]:
  "i \<notin> set (active_ids a) \<Longrightarrow> steady a (snd (with_store (remove_job i) a))"
  by (intro steady_with_store remove_job_flow remove_job_rows)

lemma steady_job_changed [simp]: "steady a (job_changed j b) = steady a b"
  by (simp add: job_changed_def)

lemma steady_announce [simp]: "steady a (announce_pdf f b) = steady a b" "steady a (announce_finished f b) = steady a b"
  by (simp_all add: announce_pdf_def announce_finished_def split: export_status.splits)

lemma steady_received_changed [simp]: "steady a (received_changed f b) = steady a b"
  by (simp add: received_changed_def)

lemma steady_save_and_publish [steady_intros]: "steady a (snd (save_and_publish f a))"
  unfolding save_and_publish_def by (rule steady_and_then) (auto intro: steady_intros)

lemma steady_install [simp]: "steady a (snd (install_receiver p s pw b)) = steady a b"
  by (simp add: install_receiver_def Let_def split: option.splits)

section \<open>Steady handlers\<close>

lemma steady_simple [steady_intros]:
  "steady a (snd (actor_save_destination d a))" "steady a (snd (actor_remove_destination i a))"
  "steady a (snd (cancel_reception i a))" "steady a (snd (retry_export i a))"
  unfolding actor_save_destination_def actor_remove_destination_def cancel_reception_def retry_export_def
  by (rule steady_and_then; auto intro: steady_intros)+

lemma steady_cancel_active [simp]: "steady a (cancel_active i b) = steady a b"
  "steady a (cancel_all_active b) = steady a b"
proof -
  have ids: "active_ids (cancel_active i b) = active_ids b" "active_ids (cancel_all_active b) = active_ids b"
    by (simp_all add: active_ids_def cancel_active_def cancel_all_active_def case_prod_beta comp_def)
  have ok: "active_ok (cancel_active i b) = active_ok b" "active_ok (cancel_all_active b) = active_ok b"
    by (fastforce simp: active_ok_def cancel_active_def cancel_all_active_def)+
  have rest: "ac_settings_pending (cancel_active i b) = ac_settings_pending b"
    "ac_requests_open (cancel_active i b) = ac_requests_open b"
    "ac_settings_pending (cancel_all_active b) = ac_settings_pending b"
    "ac_requests_open (cancel_all_active b) = ac_requests_open b"
    "flags (cancel_active i b) = flags b" "dispatched (cancel_active i b) = dispatched b"
    "ac_store (cancel_active i b) = ac_store b" "flags (cancel_all_active b) = flags b"
    "dispatched (cancel_all_active b) = dispatched b" "ac_store (cancel_all_active b) = ac_store b"
    by (simp_all add: cancel_active_def cancel_all_active_def flags_def dispatched_def)
  show "steady a (cancel_active i b) = steady a b" "steady a (cancel_all_active b) = steady a b"
    by (simp_all add: steady_def ids ok rest)
qed

lemma steady_clear_queue [steady_intros]: "steady a (snd (actor_clear_queue a))"
proof -
  let ?b = "(cancel_all_active a)\<lparr>ac_clear_active := ac_clear_active a \<union> fst ` set (ac_active a)\<rparr>"
  have "steady ?b (snd (and_then (with_store clear_queue ?b) (\<lambda>count a.
      (Inr count, mark_dirty (set_view (\<lambda>v. v\<lparr>ev_jobs := []\<rparr>) a)))))"
    by (rule steady_and_then) (auto intro: steady_intros)
  moreover have "steady a ?b" by simp
  ultimately show ?thesis unfolding actor_clear_queue_def Let_def by (rule steady_trans [rotated])
qed

lemma steady_documents_load [steady_intros]: "steady a (snd (documents_load i a))"
  unfolding documents_load_def observe_def Let_def
  by (simp, rule steady_and_then) auto

lemma steady_enqueue [steady_intros]: "steady a (snd (actor_enqueue rq a))"
  unfolding actor_enqueue_def
  by (intro steady_and_then steady_intros) auto

lemma steady_retry [steady_intros]: "steady a (snd (actor_retry i a))"
  unfolding actor_retry_def Let_def
  by (intro steady_and_then steady_intros) (auto intro!: steady_and_then steady_intros)

lemma steady_store_job [steady_intros]:
  "(active_ok a \<Longrightarrow> job_state j \<noteq> JQueued) \<Longrightarrow>
   (active_ok a \<Longrightarrow> wf_store (ac_store a) \<Longrightarrow> job_id j \<in> set (active_ids a) \<Longrightarrow> job_is_active (job_state j)) \<Longrightarrow>
   steady a (snd (store_job j a))"
  unfolding store_job_def by (rule steady_and_then) (auto intro: steady_intros)

lemma steady_cancel [steady_intros]: "steady a (snd (actor_cancel i a))"
proof (cases "i \<in> fst ` set (ac_active a)")
  case True
  then show ?thesis by (simp add: actor_cancel_def)
next
  case False
  have "steady b (snd (if job_state j \<noteq> JQueued
           then (Inl (EInvalid (lit ''This fax is no longer queued or active'')), b)
           else and_then (store_job (j\<lparr>job_state := JCancelled 0\<rparr>) b) (\<lambda>j a. (Inr (), job_changed j a))))"
    if r: "with_store (stored_job i) a = (Inr j, b)" and ab: "steady a b" for j b
  proof -
    obtain s where s: "stored_job i (ac_store a) = (Inr j, s)" "b = a\<lparr>ac_store := s\<rparr>"
      using with_store_okD [OF r] by blast
    have "s = tick (ac_store a)" using s(1) profiles_state(4) [of i "ac_store a"] by simp
    then have "wf_store (ac_store b) \<Longrightarrow> job_id j = i" using stored_job_okD [OF s(1)] s(2) by simp
    moreover have "i \<notin> set (active_ids b)" using False s(2) by (simp add: active_ids_def)
    ultimately have "steady b (snd (store_job (j\<lparr>job_state := JCancelled 0\<rparr>) b))"
      by (intro steady_store_job) auto
    then show ?thesis by (auto intro!: steady_and_then)
  qed
  with False show ?thesis
    unfolding actor_cancel_def by (auto intro!: steady_and_then steady_intros simp del: not_iff)
qed

lemma steady_folder [steady_intros]: "steady a (snd (folder_available p s a))"
  by (simp add: folder_available_def Let_def observe_def split: option.splits)

text \<open>Progress of a transmission.\<close>

lemma advance_job_ok:
  "job_id (advance_job now p j) = job_id j"
  "job_is_active (job_state j) \<Longrightarrow> job_is_active (job_state (advance_job now p j))"
proof -
  have "job_is_active (stage_state s)" for s by (cases s) simp_all
  then show "job_is_active (job_state j) \<Longrightarrow> job_is_active (job_state (advance_job now p j))"
    by (auto simp: advance_job_def push_step_def Let_def split: transmission_progress.splits)
qed (auto simp: advance_job_def push_step_def Let_def split: transmission_progress.splits)

lemma set_update_subset: "set (AList.update k v al) \<subseteq> insert (k, v) (set al)"
  by (induction al) auto

lemma steady_put_active:
  assumes "i \<in> set (active_ids a)" "active_ok a \<Longrightarrow> job_id j = i \<and> job_is_active (job_state j)"
  shows "steady a (put_active i j c a)"
proof -
  have "active_ids (put_active i j c a) = active_ids a"
    using assms(1) by (simp add: active_ids_def put_active_def update_keys)
  moreover have "active_ok a \<Longrightarrow> active_ok (put_active i j c a)"
    using assms(2) set_update_subset [of i "(j, c)" "ac_active a"]
    by (fastforce simp: active_ok_def put_active_def)
  ultimately show ?thesis
    by (simp add: steady_def) (simp add: put_active_def flags_def dispatched_def)
qed

lemma steady_progress [steady_intros]: "steady a (snd (progress i p a))"
proof (cases "map_of (ac_active a) i")
  case None
  then show ?thesis by (simp add: progress_def)
next
  case (Some e)
  obtain previous c where e: "e = (previous, c)" by (cases e)
  have mem: "(i, previous, c) \<in> set (ac_active a)" using Some e by (simp add: map_of_SomeD)
  let ?b = "a\<lparr>ac_ticks := Suc (ac_ticks a)\<rparr>" and ?now = "ae_now (ac_env a) (ac_ticks a)"
  let ?j = "advance_job ?now p previous"
  have prev: "active_ok a \<Longrightarrow> job_id previous = i \<and> job_is_active (job_state previous)"
    using mem by (auto simp: active_ok_def)
  have ids: "i \<in> set (active_ids a)" using mem by (force simp: active_ids_def)
  have put: "steady x (put_active i j c x)"
    if "active_ids x = active_ids a" "active_ok x \<Longrightarrow> active_ok a" "job_id j = job_id previous"
      "job_is_active (job_state previous) \<Longrightarrow> job_is_active (job_state j)" for x j
    using that prev ids by (intro steady_put_active) auto
  define a1 where "a1 = put_active i ?j c ?b"
  have a1: "steady a a1"
    unfolding a1_def using put [of ?b ?j] by (simp add: active_ids_def active_ok_def advance_job_ok)
  let ?st = "put_active i (stamp_job ?j (ac_store a1)) c a1"
  have a1_ok: "active_ok a1 \<Longrightarrow> job_id ?j = i \<and> job_is_active (job_state ?j)"
  proof -
    assume "active_ok a1"
    moreover have "(i, ?j, c) \<in> set (ac_active a1)"
      using map_of_SomeD [of "ac_active a1" i "(?j, c)"] by (simp add: a1_def put_active_def update_conv)
    ultimately show ?thesis by (auto simp: active_ok_def)
  qed
  have "active_ids a1 = active_ids a"
    using ids by (simp add: a1_def put_active_def active_ids_def update_keys)
  then have st: "steady a1 ?st" using a1_ok ids by (intro steady_put_active) auto
  have "(i, stamp_job ?j (ac_store a1), c) \<in> set (ac_active ?st)"
    using map_of_SomeD [of "ac_active ?st" i "(stamp_job ?j (ac_store a1), c)"]
    by (simp add: put_active_def update_conv)
  then have st_ok: "active_ok ?st \<Longrightarrow> job_is_active (job_state ?j)"
    by (auto simp: active_ok_def)
  have store: "steady a (snd (store_job ?j ?st))"
  proof (rule steady_trans [OF a1], rule steady_trans [OF st], rule steady_store_job)
    show "active_ok ?st \<Longrightarrow> job_state ?j \<noteq> JQueued"
      "active_ok ?st \<Longrightarrow> wf_store (ac_store ?st) \<Longrightarrow> job_id ?j \<in> set (active_ids ?st) \<Longrightarrow> job_is_active (job_state ?j)"
      using st_ok by auto
  qed
  have "progress i p a = (if job_eq ?j previous then (Inr (), a1)
      else and_then (if i \<notin> ac_clear_active a1 \<and> \<not> activity_only p then store_job ?j ?st else (Inr ?j, a1))
        (\<lambda>j b. (Inr (), if i \<notin> ac_clear_active a1 then job_changed j b else b)))"
    by (simp add: progress_def Some e observe_def Let_def a1_def)
  then show ?thesis
    using a1 store by (auto intro!: steady_and_then)
qed

lemma steady_transmit_progress [steady_intros]: "steady a (transmit_progress i p a)"
  using steady_progress [of a i p]
  by (cases "progress i p a"; cases "fst (progress i p a)") (simp_all add: transmit_progress_def)

text \<open>Incoming calls.\<close>

lemma steady_still_pending [simp]: "steady a (snd (still_pending i b)) = steady a b"
  by (simp add: still_pending_def observe_def)

lemma steady_take_admission [steady_intros]: "steady a (snd (take_admission i a))"
  by (simp add: take_admission_def still_pending_def observe_def split: option.splits)

lemma steady_reject [steady_intros]: "steady a (snd (reject_incoming i a))"
  unfolding reject_incoming_def by (rule steady_and_then) (auto intro: steady_intros)

lemma steady_reserve [steady_intros]: "steady a (snd (reserve_incoming p i a))"
  unfolding reserve_incoming_def Let_def observe_def case_prod_conv
  by (auto intro!: steady_and_then steady_intros)

lemma steady_abandon [steady_intros]: "steady a (snd (abandon_reception i a))"
  unfolding abandon_reception_def observe_def case_prod_conv
proof (intro steady_and_then steady_intros)
  fix f :: received_fax and b :: actor
  let ?b = "b\<lparr>ac_ticks := Suc (ac_ticks b)\<rparr>"
  have "steady ?b (snd (save_and_publish g ?b))" for g by (rule steady_save_and_publish)
  then show "steady b (snd (save_and_publish (f\<lparr>rf_outcome := OutInterrupted,
      rf_result := Some ResInterrupted, rf_finished := Some (ae_now (ac_env b) (ac_ticks b))\<rparr>) ?b))"
    by simp
qed

lemma steady_accept [steady_intros]: "steady a (snd (accept_incoming i a))"
  unfolding accept_incoming_def
proof (intro steady_and_then steady_intros)
  fix p b
  have r: "steady b (snd (reserve_incoming p i b))" by (rule steady_reserve)
  obtain x c where rc: "reserve_incoming p i b = (x, c)" by fastforce
  show "steady b (snd (case reserve_incoming p i b of
         (Inr path, a) \<Rightarrow>
           and_then (case send_command (CmAdmit (pi_id p) (Inr path)) a of
                       (Inr _, a) \<Rightarrow> (Inr (), a)
                     | (Inl _, a) \<Rightarrow> abandon_reception i a) (\<lambda>_ a.
           with_store (received_fax i) a)
       | (Inl e, a) \<Rightarrow> (Inl e, snd (send_command (CmAdmit (pi_id p) (Inl (NInvalid (show_error e)))) a))))"
  proof (cases x)
    case (Inl e)
    with r rc show ?thesis by simp
  next
    case (Inr path)
    obtain y d where yd: "send_command (CmAdmit (pi_id p) (Inr path)) c = (y, d)" by fastforce
    have "steady b d" using r rc yd steady_command [of b "CmAdmit (pi_id p) (Inr path)" c] by simp
    then have "steady b (snd (case y of Inr _ \<Rightarrow> (Inr (), d) | Inl _ \<Rightarrow> abandon_reception i d))"
      using steady_trans [OF _ steady_abandon [of d i]] by (simp split: sum.split)
    moreover have "steady e (snd (with_store (received_fax i) e))" for e by (rule steady_intros)
    ultimately show ?thesis
      unfolding rc yd Inr prod.case sum.case by (cases y) (auto intro!: steady_and_then intro: steady_trans)
  qed
qed

lemma steady_retain [simp]: "steady a (snd (retain_pending ps b)) = steady a b"
proof (induction ps b arbitrary: a rule: retain_pending.induct)
  case (2 k p ps b)
  obtain ok c where c: "still_pending (pi_id p) b = (ok, c)" by fastforce
  have "steady a c = steady a b" using steady_still_pending [of a "pi_id p" b] c by simp
  with 2 [of ok c a] c show ?case by (simp add: case_prod_beta)
qed simp

lemma steady_offer [steady_intros]: "steady a (offer_incoming p a)"
proof -
  obtain kept b where kb: "retain_pending (ac_admissions a) a = (kept, b)" by fastforce
  have b: "steady a b" using steady_retain [of a "ac_admissions a" a] kb by simp
  obtain ok c where c: "(if ac_stopping b then (False, b\<lparr>ac_admissions := kept\<rparr>)
      else still_pending (pi_id p) (b\<lparr>ac_admissions := kept\<rparr>)) = (ok, c)" by fastforce
  have sc: "steady a c"
  proof -
    have "c = snd (if ac_stopping b then (False, b\<lparr>ac_admissions := kept\<rparr>)
      else still_pending (pi_id p) (b\<lparr>ac_admissions := kept\<rparr>))" using c by simp
    with b show ?thesis by (simp split: if_splits)
  qed
  let ?d = "c\<lparr>ac_admissions := AList.update (pi_id p) p (ac_admissions c)\<rparr>"
  have d: "steady a ?d" "steady a (?d\<lparr>ac_ticks := n\<rparr>)" for n using sc by simp_all
  have "steady a (snd (accept_incoming (pi_id p) ?d))" using d(1) steady_accept by (rule steady_trans)
  moreover have "steady a (snd (reject_incoming (pi_id p) (?d\<lparr>ac_ticks := n\<rparr>)))" for n
    using d(2) steady_reject by (rule steady_trans)
  ultimately show ?thesis
    using sc d by (simp add: offer_incoming_def kb c Let_def observe_def split: bool.splits)
qed

lemma steady_received [steady_intros]: "steady a (snd (received e a))"
proof (cases e)
  case (ReStatus p s)
  then show ?thesis by (simp add: received_def status_changed_def)
next
  case (ReProgress i ev)
  then show ?thesis
    by (auto simp: received_def intro!: steady_and_then steady_intros split: option.splits)
next
  case (ReFinished i oc tr rc)
  have sp: "steady (b\<lparr>ac_ticks := n\<rparr>) (snd (save_and_publish g (b\<lparr>ac_ticks := n\<rparr>)))" for b n g
    by (rule steady_save_and_publish)
  show ?thesis
    unfolding ReFinished received_def observe_def receive_event.case case_prod_conv
    by (intro steady_and_then steady_intros) (use sp in simp)
qed

end
