(* ===== verification/ActorBooks.thy ===== *)
theory ActorBooks
  imports ActorInv "HOL-Library.Multiset"
begin

text \<open>
  The bookkeeping of background work: outstanding tasks, the transmissions in progress and the flags
  that admit at most one credentials lookup, export and settings write. Every input keeps it, a
  worker's panic included (the engine then stops).
\<close>

section \<open>The invariant\<close>

fun transmit_of :: "task \<Rightarrow> uuid list" where
  "transmit_of (TkTransmit j _) = [job_id j]"
| "transmit_of _ = []"

definition transmits :: "task list \<Rightarrow> uuid list" where
  "transmits ts = concat (map transmit_of ts)"

fun is_credentials :: "task \<Rightarrow> bool" where
  "is_credentials (TkCredentials _ _ _ _) = True" | "is_credentials _ = False"

fun is_export :: "task \<Rightarrow> bool" where
  "is_export (TkExport _ _) = True" | "is_export _ = False"

fun is_settings :: "task \<Rightarrow> bool" where
  "is_settings (TkSettings _ _) = True" | "is_settings _ = False"

definition many :: "(task \<Rightarrow> bool) \<Rightarrow> task list \<Rightarrow> nat" where
  "many P ts = length (filter P ts)"

text \<open>What holds even after a worker panicked.\<close>

definition books_core :: "actor \<Rightarrow> bool" where
  "books_core a \<longleftrightarrow> wf_store (ac_store a) \<and> st_version (ac_store a) = 2 \<and> active_ok a \<and> distinct (active_ids a) \<and>
     (\<forall>i \<in> set (active_ids a). active_in (ac_store a) i) \<and>
     length (ac_active a) \<le> lim_outgoing (ac_limits a) \<and>
     ac_working a = length (ac_tasks a) \<and>
     mset (transmits (ac_tasks a)) \<subseteq># mset (active_ids a) \<and>
     many is_credentials (ac_tasks a) \<le> of_bool (ac_configuring a) \<and>
     many is_export (ac_tasks a) \<le> of_bool (ac_exporting a \<noteq> None) \<and>
     many is_settings (ac_tasks a) \<le> of_bool (ac_settings_saving a)"

definition books_exact :: "actor \<Rightarrow> bool" where
  "books_exact a \<longleftrightarrow>
     mset (transmits (ac_tasks a)) = mset (active_ids a) \<and>
     many is_credentials (ac_tasks a) = of_bool (ac_configuring a) \<and>
     many is_export (ac_tasks a) = of_bool (ac_exporting a \<noteq> None) \<and>
     many is_settings (ac_tasks a) = of_bool (ac_settings_saving a)"

text \<open>The jobs of \<open>D\<close> were transmitted once each and never again, and no uuid still to be drawn was
  ever used. \<open>D\<close> starts with what earlier runs on the same database transmitted.\<close>

definition fresh_for :: "uuid list \<Rightarrow> store \<Rightarrow> bool" where
  "fresh_for D st \<longleftrightarrow>
     inj (env_uuid (st_env st)) \<and> distinct D \<and> (\<forall>i \<in> set D. \<not> queued_in st i) \<and>
     (\<forall>n \<ge> st_ticks st. env_uuid (st_env st) n \<notin> set D \<union> jr_id ` set (st_jobs st))"

abbreviation dispatch_ok :: "uuid list \<Rightarrow> actor \<Rightarrow> bool" where
  "dispatch_ok D a \<equiv> fresh_for (D @ dispatched a) (ac_store a)"

text \<open>The last component of the parameter: no worker panics, so the books stay exact while stopping.\<close>

type_synonym books = "uuid list option \<times> call_limits \<times> bool"

abbreviation no_panic :: "books \<Rightarrow> bool" where
  "no_panic d \<equiv> snd (snd d)"

definition books_ok :: "books \<Rightarrow> actor \<Rightarrow> bool" where
  "books_ok d a \<longleftrightarrow> books_core a \<and> fst (snd d) = ac_limits a \<and> (\<not> ac_stopping a \<or> no_panic d \<longrightarrow> books_exact a) \<and>
     (\<forall>D. fst d = Some D \<longrightarrow> dispatch_ok D a)"

lemma transmits_simps [simp]:
  "transmits [] = []" "transmits (t # ts) = transmit_of t @ transmits ts"
  "transmits (ts @ us) = transmits ts @ transmits us"
  by (simp_all add: transmits_def)

lemma many_simps [simp]:
  "many P [] = 0" "many P (t # ts) = of_bool (P t) + many P ts" "many P (ts @ us) = many P ts + many P us"
  by (simp_all add: many_def)

section \<open>Steady steps\<close>

text \<open>The part of \<open>store_flow\<close> that also opening the database obeys.\<close>

definition store_reflow :: "store \<Rightarrow> store \<Rightarrow> bool" where
  "store_reflow st s \<longleftrightarrow> st_env s = st_env st \<and> st_ticks st \<le> st_ticks s \<and>
     (\<forall>i. queued_in s i \<longrightarrow> queued_in st i \<or> drawn st s i) \<and>
     (\<forall>i \<in> jr_id ` set (st_jobs s). i \<in> jr_id ` set (st_jobs st) \<or> drawn st s i)"

lemma flow_reflow: "store_flow st s \<Longrightarrow> store_reflow st s"
  by (simp add: store_flow_def store_reflow_def)

lemma fresh_for_flow:
  assumes "fresh_for D st" "store_reflow st s"
  shows "fresh_for D s"
proof -
  have env: "st_env s = st_env st" and ticks: "st_ticks st \<le> st_ticks s"
    and q: "\<And>i. queued_in s i \<Longrightarrow> queued_in st i \<or> drawn st s i"
    and ids: "\<And>i. i \<in> jr_id ` set (st_jobs s) \<Longrightarrow> i \<in> jr_id ` set (st_jobs st) \<or> drawn st s i"
    using assms(2) unfolding store_reflow_def by blast+
  have inj: "inj (env_uuid (st_env st))"
    and fresh: "\<And>n. st_ticks st \<le> n \<Longrightarrow> env_uuid (st_env st) n \<notin> set D \<union> jr_id ` set (st_jobs st)"
    and nq: "\<And>i. i \<in> set D \<Longrightarrow> \<not> queued_in st i"
    using assms(1) by (auto simp: fresh_for_def)
  have "\<not> queued_in s i" if "i \<in> set D" for i
    using that q [of i] nq [of i] fresh by (auto simp: drawn_def)
  moreover have "env_uuid (st_env st) n \<notin> set D \<union> jr_id ` set (st_jobs s)" if "st_ticks s \<le> n" for n
    using that ids [of "env_uuid (st_env st) n"] fresh [of n] ticks inj
    by (fastforce simp: drawn_def dest: injD)
  ultimately show ?thesis
    using assms(1) env by (simp add: fresh_for_def)
qed

lemma books_steady:
  assumes ok: "books_ok d a" and st: "steady a b"
  shows "books_ok d b"
proof -
  have act: "active_ok a" and wf: "wf_store (ac_store a)" using ok by (auto simp: books_ok_def books_core_def)
  note s = st [unfolded steady_def, rule_format, OF act]
  have kept: "\<forall>i \<in> set (active_ids a). active_in (ac_store a) i \<longrightarrow> active_in (ac_store b) i"
    using s wf by (auto simp: rows_kept_def)
  have f: "ac_tasks b = ac_tasks a" "ac_working b = ac_working a" "ac_configuring b = ac_configuring a"
    "ac_settings_saving b = ac_settings_saving a" "ac_exporting b = ac_exporting a"
    "ac_stopping b = ac_stopping a" "ac_limits b = ac_limits a"
    using s by (auto simp: flags_def)
  have len: "length (ac_active b) = length (ac_active a)"
    using s by (metis active_ids_def length_map)
  have "st_version (ac_store b) = st_version (ac_store a)" using s by (simp add: store_flow_def)
  then have "books_core b"
    using ok s kept f len store_flow_wf [of "ac_store a" "ac_store b"]
    by (simp add: books_ok_def books_core_def)
  moreover have "\<not> ac_stopping b \<or> no_panic d \<longrightarrow> books_exact b"
    using ok s f by (simp add: books_ok_def books_exact_def)
  moreover have "dispatch_ok D b" if "fst d = Some D" for D
    using ok s that fresh_for_flow [OF _ flow_reflow, of _ "ac_store a"] by (simp add: books_ok_def)
  ultimately show ?thesis using ok f by (simp add: books_ok_def)
qed

lemma books_flags:
  assumes "flags b = flags a" "active_ids b = active_ids a" "active_ok b = active_ok a"
    "dispatched b = dispatched a" "ac_store b = ac_store a"
  shows "books_ok d b = books_ok d a"
proof -
  have "length (ac_active b) = length (ac_active a)" using assms(2) by (metis active_ids_def length_map)
  then show ?thesis
    using assms by (simp add: books_ok_def books_core_def books_exact_def fresh_for_def flags_def)
qed

lemma books_and_then:
  assumes "books_ok d (snd r)" "\<And>x b. r = (Inr x, b) \<Longrightarrow> books_ok d b \<Longrightarrow> books_ok d (snd (k x b))"
  shows "books_ok d (snd (and_then r k))"
  using assms by (rule and_then_keeps)

lemma books_reported [simp]: "books_ok d (reported r) = books_ok d (snd r)"
proof -
  have "books_ok d (report_error e b) = books_ok d b" for e b
    by (rule books_flags)
       (simp_all add: report_error_def Let_def emit_def mark_dirty_def record_out_def set_view_def
         flags_def active_ids_def active_ok_def dispatched_def)
  then show ?thesis by (simp add: reported_def split: prod.splits sum.splits)
qed

section \<open>Starting a task\<close>

lemma spawn_cases:
  obtains e where "spawn t a = (Inl e, a\<lparr>ac_ticks := Suc (ac_ticks a)\<rparr>)"
  | "spawn t a = (Inr (), start_task t (a\<lparr>ac_ticks := Suc (ac_ticks a)\<rparr>))"
proof (cases "pooled t")
  case True
  with that show ?thesis
    by (cases "ae_room (ac_env a) (ac_ticks a)") (simp_all add: spawn_def observe_def)
next
  case False
  with that show ?thesis
    by (cases "ae_spawn (ac_env a) (ac_ticks a)") (simp_all add: spawn_def observe_def)
qed

lemma start_task_fields [simp]:
  "ac_tasks (start_task t a) = ac_tasks a @ [t]" "ac_working (start_task t a) = Suc (ac_working a)"
  "ac_store (start_task t a) = ac_store a" "ac_active (start_task t a) = ac_active a"
  "ac_limits (start_task t a) = ac_limits a" "ac_configuring (start_task t a) = ac_configuring a"
  "ac_exporting (start_task t a) = ac_exporting a" "ac_stopping (start_task t a) = ac_stopping a"
  "ac_settings_saving (start_task t a) = ac_settings_saving a"
  "active_ids (start_task t a) = active_ids a" "active_ok (start_task t a) = active_ok a"
  "dispatched (start_task t a) = dispatched a @ dispatched_of (OSpawn t)"
  by (simp_all add: start_task_def record_out_def active_ids_def active_ok_def dispatched_def)

lemma book_fields [simp]:
  "active_ids (a\<lparr>ac_ticks := n\<rparr>) = active_ids a" "active_ok (a\<lparr>ac_ticks := n\<rparr>) = active_ok a"
  "dispatched (a\<lparr>ac_ticks := n\<rparr>) = dispatched a"
  "active_ids (a\<lparr>ac_configuring := c\<rparr>) = active_ids a" "active_ok (a\<lparr>ac_configuring := c\<rparr>) = active_ok a"
  "dispatched (a\<lparr>ac_configuring := c\<rparr>) = dispatched a"
  "active_ids (a\<lparr>ac_exporting := e\<rparr>) = active_ids a" "active_ok (a\<lparr>ac_exporting := e\<rparr>) = active_ok a"
  "dispatched (a\<lparr>ac_exporting := e\<rparr>) = dispatched a"
  "active_ids (a\<lparr>ac_exports := es\<rparr>) = active_ids a" "active_ok (a\<lparr>ac_exports := es\<rparr>) = active_ok a"
  "dispatched (a\<lparr>ac_exports := es\<rparr>) = dispatched a"
  "active_ids (a\<lparr>ac_settings_saving := c\<rparr>) = active_ids a"
  "active_ok (a\<lparr>ac_settings_saving := c\<rparr>) = active_ok a"
  "dispatched (a\<lparr>ac_settings_saving := c\<rparr>) = dispatched a"
  "active_ids (a\<lparr>ac_settings_pending := sp\<rparr>) = active_ids a"
  "active_ok (a\<lparr>ac_settings_pending := sp\<rparr>) = active_ok a"
  "dispatched (a\<lparr>ac_settings_pending := sp\<rparr>) = dispatched a"
  "active_ids (a\<lparr>ac_stopping := c\<rparr>) = active_ids a" "active_ok (a\<lparr>ac_stopping := c\<rparr>) = active_ok a"
  "dispatched (a\<lparr>ac_stopping := c\<rparr>) = dispatched a"
  "active_ids (a\<lparr>ac_tasks := ts\<rparr>) = active_ids a" "active_ok (a\<lparr>ac_tasks := ts\<rparr>) = active_ok a"
  "dispatched (a\<lparr>ac_tasks := ts\<rparr>) = dispatched a"
  "active_ids (a\<lparr>ac_working := w\<rparr>) = active_ids a" "active_ok (a\<lparr>ac_working := w\<rparr>) = active_ok a"
  "dispatched (a\<lparr>ac_working := w\<rparr>) = dispatched a"
  by (simp_all add: active_ids_def active_ok_def dispatched_def)

text \<open>Tasks that are not guarded: previews, documents, profile saves and the shutdown.\<close>

definition unguarded :: "task \<Rightarrow> bool" where
  "unguarded t \<longleftrightarrow> transmit_of t = [] \<and> \<not> is_credentials t \<and> \<not> is_export t \<and> \<not> is_settings t"

lemma dispatched_of_spawn [simp]: "dispatched_of (OSpawn t) = transmit_of t"
  by (cases t) simp_all

lemma books_spawn_unguarded:
  assumes "unguarded t" "books_ok d a"
  shows "books_ok d (snd (spawn t a))"
  using assms by (cases rule: spawn_cases [of t a])
    (auto simp: books_ok_def books_core_def books_exact_def fresh_for_def unguarded_def)

text \<open>Tasks guarded by a flag: the flag is down before, up while the task is outstanding.\<close>

lemma books_request_credentials:
  assumes "books_ok d a" "\<not> ac_configuring a"
  shows "books_ok d (snd (request_credentials g i s a))"
  unfolding request_credentials_def
proof (rule books_and_then)
  show "books_ok d (snd (with_store (profile i) a))"
    using assms(1) by (rule books_steady) (rule steady_intros)
  fix p b assume r: "with_store (profile i) a = (Inr p, b)" and b: "books_ok d b"
  have conf: "\<not> ac_configuring b" using with_store_okD [OF r] assms(2) by auto
  let ?b = "b\<lparr>ac_configuring := True\<rparr>" and ?t = "TkCredentials g i p s"
  show "books_ok d (snd (case spawn ?t ?b of (Inl e, a) \<Rightarrow> (Inl e, a\<lparr>ac_configuring := False\<rparr>)
       | (Inr u, a) \<Rightarrow> (Inr u, a)))"
  proof (cases rule: spawn_cases [of ?t ?b])
    case (1 e)
    have "books_ok d (b\<lparr>ac_ticks := Suc (ac_ticks b), ac_configuring := False\<rparr>)"
      using b conf by (subst books_flags [of _ b]) (simp_all add: flags_def)
    with 1 show ?thesis by simp
  next
    case 2
    with b conf show ?thesis
      by (simp add: books_ok_def books_core_def books_exact_def fresh_for_def)
  qed
qed

lemma books_refresh:
  assumes "books_ok d a"
  shows "books_ok d (snd (refresh_receiver a))"
proof -
  let ?b = "a\<lparr>ac_generation := ac_generation a + 1\<rparr>" and ?s = "ev_settings (ac_view a)"
  have b: "books_ok d ?b" using assms by (rule books_steady) simp
  have n: "books_ok d (snd (native_command c ?b))" "books_ok d (snd (install_receiver p s pw ?b))" for c p s pw
    using assms by (rule books_steady, simp)+
  have c: "books_ok d (snd (and_then (r, ?b) (\<lambda>_ a. if ac_configuring a then (Inr (), a)
      else request_credentials (ac_generation a) i s a)))" for r i s
    using b by (cases r) (auto intro: books_request_credentials)
  show ?thesis
    using b n c
    by (cases "ac_service a"; cases "rs_listener ?s"; cases "rs_profile ?s")
       (simp_all add: refresh_receiver_def Let_def)
qed

lemma books_credentials_ready:
  assumes "books_ok d (a\<lparr>ac_configuring := False\<rparr>)"
  shows "books_ok d (credentials_ready g i p s password a)"
proof -
  let ?b = "a\<lparr>ac_configuring := False\<rparr>"
  have r: "books_ok d (reported (refresh_receiver ?b))" using books_refresh [OF assms] by simp
  have i: "steady ?b (snd (and_then (password, ?b) (\<lambda>pw. install_receiver p s pw)))"
    by (rule steady_and_then) simp_all
  obtain x c where xc: "and_then (password, ?b) (\<lambda>pw. install_receiver p s pw) = (x, c)" by fastforce
  have "books_ok d (case (x, c) of (Inr _, a) \<Rightarrow> a
         | (Inl e, a) \<Rightarrow> report_error e (set_view (\<lambda>v. v\<lparr>ev_status :=
               \<lparr>rst_profile = Some i, rst_state = RError (show_error e)\<rparr>\<rparr>) a))"
    using i xc by (cases x) (auto intro: books_steady [OF assms])
  then show ?thesis
    using assms r xc by (simp add: credentials_ready_def Let_def)
qed

section \<open>Configuration\<close>

lemma books_save_profile: "books_ok d a \<Longrightarrow> books_ok d (snd (actor_save_profile p a))"
  unfolding actor_save_profile_def Let_def
proof (rule books_and_then)
  assume ok: "books_ok d a"
  show "books_ok d (snd (with_store (save_profile p) a))"
    using ok by (rule books_steady) (rule steady_intros)
  fix b :: actor assume b: "books_ok d b"
  then have "books_ok d (mark_dirty (set_view f b))" for f by (rule books_steady) simp
  then show "books_ok d (snd (if rs_profile (ev_settings (ac_view b)) = Some (prof_id p)
      then refresh_receiver (mark_dirty (set_view (\<lambda>v. v\<lparr>ev_profiles :=
         sort_key prof_name (upsert prof_id p (ev_profiles v))\<rparr>) b))
      else (Inr (), mark_dirty (set_view (\<lambda>v. v\<lparr>ev_profiles :=
         sort_key prof_name (upsert prof_id p (ev_profiles v))\<rparr>) b))))"
    by (simp add: books_refresh)
qed

lemma books_configure: "books_ok d a \<Longrightarrow> books_ok d (snd (configure_receiver s a))"
proof -
  assume ok: "books_ok d a"
  have step: "books_ok d b \<Longrightarrow> books_ok d (snd (folder_available x y b))"
    "books_ok d b \<Longrightarrow> books_ok d (snd (with_store (save_receive_settings y) b))"
    "books_ok d b \<Longrightarrow> books_ok d (mark_dirty (set_view f b))" for b x y f
    by (auto elim!: books_steady intro: steady_intros)
  show ?thesis
    unfolding configure_receiver_def Let_def
    by (intro books_and_then step books_refresh) (use ok in auto)
qed

lemma books_reconnect: "books_ok d a \<Longrightarrow> books_ok d (snd (reconnect_receiver a))"
  unfolding reconnect_receiver_def
  by (rule books_and_then) (auto intro: books_refresh books_steady [where b = "snd (send_command c b)" for c b])

section \<open>Export and settings\<close>

lemma books_start_export: "books_ok d a \<Longrightarrow> books_ok d (snd (start_export a))"
proof -
  assume ok: "books_ok d a"
  show ?thesis
  proof (cases "ac_exporting a \<noteq> None \<or> ac_exports a = []")
    case True
    with ok show ?thesis by (auto simp: start_export_def split: list.split)
  next
    case False
    then obtain i rest where es: "ac_exports a = i # rest" and none: "ac_exporting a = None"
      by (cases "ac_exports a") auto
    let ?a = "a\<lparr>ac_exports := rest\<rparr>"
    let ?t = "\<lambda>f. TkExport f (join_path (join_path (ac_directory a) (lit ''inbox'')) i)"
    have eq: "start_export a = and_then (with_store (received_fax i) ?a) (\<lambda>f a.
        case spawn (TkExport f (join_path (join_path (ac_directory a) (lit ''inbox'')) i))
               (a\<lparr>ac_exporting := Some i\<rparr>) of
          (Inl e, a) \<Rightarrow> (Inl e, a\<lparr>ac_exporting := None\<rparr>)
        | (Inr u, a) \<Rightarrow> (Inr u, a))"
      using es none by (simp add: start_export_def)
    show ?thesis
      unfolding eq
    proof (rule books_and_then)
      have "books_ok d ?a" using ok by (rule books_steady) simp
      then show "books_ok d (snd (with_store (received_fax i) ?a))"
        by (rule books_steady) (rule steady_intros)
      fix f b assume r: "with_store (received_fax i) ?a = (Inr f, b)" and b: "books_ok d b"
      have bn: "ac_exporting b = None" using with_store_okD [OF r] none by auto
      let ?b = "b\<lparr>ac_exporting := Some i\<rparr>"
      let ?task = "TkExport f (join_path (join_path (ac_directory b) (lit ''inbox'')) i)"
      show "books_ok d (snd (case spawn ?task ?b of
          (Inl e, a) \<Rightarrow> (Inl e, a\<lparr>ac_exporting := None\<rparr>) | (Inr u, a) \<Rightarrow> (Inr u, a)))"
      proof (cases rule: spawn_cases [of ?task ?b])
        case (1 e)
        have "books_ok d (b\<lparr>ac_ticks := Suc (ac_ticks b), ac_exporting := None\<rparr>)"
          using b bn by (subst books_flags [of _ b]) (simp_all add: flags_def)
        with 1 show ?thesis by simp
      next
        case 2
        with b bn show ?thesis
          by (simp add: books_ok_def books_core_def books_exact_def fresh_for_def)
      qed
    qed
  qed
qed

lemma steady_export_done: "steady (a\<lparr>ac_exporting := None\<rparr>) (export_done f r a)"
proof (cases r)
  case (Some e)
  have "steady b (report_error e (reported (save_and_publish (export_failed e f) b)))" for b
    by (simp add: steady_save_and_publish)
  with Some show ?thesis by (simp add: export_done_def)
qed (simp add: export_done_def)

lemma books_export_done:
  "books_ok d (a\<lparr>ac_exporting := None\<rparr>) \<Longrightarrow> books_ok d (export_done f r a)"
  by (erule books_steady) (rule steady_export_done)

lemma books_start_settings: "books_ok d a \<Longrightarrow> books_ok d (snd (start_settings a))"
proof -
  assume ok: "books_ok d a"
  show ?thesis
  proof (cases "ac_settings_saving a \<or> ac_settings_pending a = None")
    case True
    with ok show ?thesis by (auto simp: start_settings_def split: option.split)
  next
    case False
    then obtain s replies where p: "ac_settings_pending a = Some (s, replies)" and ns: "\<not> ac_settings_saving a"
      by auto
    let ?a = "a\<lparr>ac_settings_pending := None, ac_settings_saving := True\<rparr>" and ?t = "TkSettings s replies"
    show ?thesis
    proof (cases rule: spawn_cases [of ?t ?a])
      case (1 e)
      have "books_ok d (a\<lparr>ac_settings_pending := None, ac_ticks := Suc (ac_ticks a), ac_settings_saving := False\<rparr>)"
        using ok ns by (subst books_flags [of _ a]) (simp_all add: flags_def)
      with 1 p ns show ?thesis by (simp add: start_settings_def)
    next
      case 2
      with ok p ns show ?thesis
        by (simp add: start_settings_def books_ok_def books_core_def books_exact_def fresh_for_def)
    qed
  qed
qed

lemma books_queue_settings: "books_ok d a \<Longrightarrow> books_ok d (snd (queue_settings s reply a))"
proof -
  assume ok: "books_ok d a"
  then have "books_ok d (a\<lparr>ac_settings_pending := x\<rparr>)" for x
    by (subst books_flags [of _ a]) (simp_all add: flags_def)
  with ok show ?thesis by (simp add: queue_settings_def books_start_settings split: option.split)
qed

lemma steady_reply_all [simp]: "steady a (reply_all rs r b) = steady a b"
  by (induction rs arbitrary: b) (simp_all add: reply_all_def)

lemma books_settings_saved:
  assumes "books_ok d (a\<lparr>ac_settings_saving := False\<rparr>)"
  shows "books_ok d (settings_saved replies r a)"
proof -
  have "books_ok d (reply_all replies x (a\<lparr>ac_settings_saving := False\<rparr>))" for x
    using assms by (rule books_steady) simp
  then show ?thesis by (simp add: settings_saved_def Let_def books_start_settings)
qed

section \<open>Transmission\<close>

lemma final_state_not_queued: "final_state st j r \<noteq> JQueued"
  by (auto simp: final_state_def sent_state_def split: sum.splits engine_error.splits job_state.splits)

text \<open>Once the transmission's entry is gone, recording its outcome is steady.\<close>

lemma steady_sent:
  assumes act: "active_ok a"
  shows "steady (a\<lparr>ac_active := AList.delete i (ac_active a)\<rparr>) (snd (sent i r a))"
proof (cases "map_of (ac_active a) i")
  case None
  then have "i \<notin> fst ` set (ac_active a)" by (simp add: map_of_eq_None_iff)
  then have "a\<lparr>ac_active := AList.delete i (ac_active a)\<rparr> = a" by (simp add: delete_id)
  with None show ?thesis by (simp add: sent_def)
next
  case (Some e)
  obtain j c where e: "e = (j, c)" by (cases e)
  let ?b = "a\<lparr>ac_active := AList.delete i (ac_active a)\<rparr>"
  let ?j = "j\<lparr>job_state := final_state (ac_stopping a) j r\<rparr>"
  have id: "job_id j = i" using act map_of_SomeD [OF Some] e by (auto simp: active_ok_def)
  have gone: "i \<notin> set (active_ids ?b)" by (simp add: active_ids_def)
  have "steady (?b\<lparr>ac_clear_active := x\<rparr>) (snd (with_store (remove_job i) (?b\<lparr>ac_clear_active := x\<rparr>)))" for x
    using gone by (intro steady_intros) (simp add: active_ids_def)
  then have rm: "steady ?b (snd (with_store (remove_job i) (?b\<lparr>ac_clear_active := x\<rparr>)))" for x
    by (rule steady_trans [rotated]) simp
  have up: "steady ?b (snd (and_then (store_job ?j ?b) (\<lambda>j a. (Inr (), job_changed j a))))"
    using gone id final_state_not_queued [of "ac_stopping a" j r]
    by (intro steady_and_then steady_store_job) auto
  from rm up show ?thesis by (simp add: sent_def Some e Let_def id)
qed

lemma books_sent:
  assumes "books_ok d (a\<lparr>ac_active := AList.delete i (ac_active a)\<rparr>)" "active_ok a"
  shows "books_ok d (snd (sent i r a))"
  using books_steady [OF assms(1) steady_sent [OF assms(2)]] .

lemma books_claim:
  assumes ok: "books_ok d a"
  shows "books_ok d (snd (with_store claim_next a))"
  using ok by (rule books_steady) (intro steady_with_store claim_next_flow claim_next_rows)

lemma update_fresh: "k \<notin> fst ` set al \<Longrightarrow> AList.update k v al = al @ [(k, v)]"
  by (induction al) auto

lemma delete_last: "k \<notin> fst ` set al \<Longrightarrow> AList.delete k (al @ [(k, v)]) = al"
  by (induction al) auto

lemma active_put [simp]: "ac_active (put_active i j c a) = AList.update i (j, c) (ac_active a)"
  by (simp add: put_active_def)

text \<open>Publishing a change leaves the books alone.\<close>

lemma job_changed_fields [simp]:
  "ac_active (job_changed j a) = ac_active a" "ac_store (job_changed j a) = ac_store a"
  "flags (job_changed j a) = flags a" "dispatched (job_changed j a) = dispatched a"
  by (simp_all add: job_changed_def emit_def mark_dirty_def record_out_def set_view_def flags_def dispatched_def)

lemma put_active_fields [simp]:
  "ac_store (put_active i j c a) = ac_store a" "flags (put_active i j c a) = flags a"
  "dispatched (put_active i j c a) = dispatched a"
  by (simp_all add: put_active_def flags_def dispatched_def)

lemma books_started:
  assumes b: "books_ok d a" and room: "length (ac_active a) < lim_outgoing (ac_limits a)"
    and q: "ac_active q = ac_active a @ [(job_id j, j, False)]" "flags q = flags a"
      "dispatched q = dispatched a" "ac_store q = s"
    and cl: "claim_next (ac_store a) = (Inr (Some j), s)"
    and t: "t = TkTransmit j path"
  shows "books_ok d (start_task t (q\<lparr>ac_ticks := n\<rparr>))"
proof -
  let ?b = "start_task t (q\<lparr>ac_ticks := n\<rparr>)" and ?i = "job_id j"
  have core: "books_core a" and wf: "wf_store (ac_store a)" using b by (auto simp: books_ok_def books_core_def)
  note c = claim_next_active [OF wf cl]
  have flow: "store_flow (ac_store a) s" and rows: "rows_kept K (ac_store a) s" for K
    using claim_next_flow [of "ac_store a"] claim_next_rows [of K "ac_store a"] cl by simp_all
  have new: "?i \<notin> set (active_ids a)"
    using core c(1) active_not_queued [OF wf] by (auto simp: books_core_def)
  have ids: "active_ids q = active_ids a @ [?i]" and ok: "active_ok q = active_ok a"
    using q(1) c(4) by (auto simp: active_ids_def active_ok_def)
  have fl: "ac_tasks q = ac_tasks a" "ac_working q = ac_working a" "ac_configuring q = ac_configuring a"
    "ac_settings_saving q = ac_settings_saving a" "ac_exporting q = ac_exporting a"
    "ac_stopping q = ac_stopping a" "ac_limits q = ac_limits a"
    using q(2) by (auto simp: flags_def)
  have "books_core ?b"
    using core room new flow rows [of "set (active_ids a)"] c(2) q t fl
    by (auto simp: books_core_def ids ok rows_kept_def store_flow_def)
  moreover have "books_exact ?b" if "\<not> ac_stopping a \<or> no_panic d"
    using b that t fl by (auto simp: books_ok_def books_exact_def ids)
  moreover have "dispatch_ok D ?b" if "fst d = Some D" for D
  proof -
    have da: "dispatch_ok D a" using b that by (simp add: books_ok_def)
    have "dispatch_ok D q" using fresh_for_flow [OF da flow_reflow [OF flow]] q(3,4) by simp
    moreover have "?i \<notin> set D \<union> set (dispatched a)" using da c(1) by (auto simp: fresh_for_def)
    moreover have "env_uuid (st_env s) m \<noteq> ?i" if "st_ticks s \<le> m" for m
    proof -
      have "st_env s = st_env (ac_store a)" "st_ticks (ac_store a) \<le> st_ticks s"
        using flow by (auto simp: store_flow_def)
      moreover have "?i \<in> jr_id ` set (st_jobs (ac_store a))" using c(1) by (force simp: queued_in_def)
      moreover have "env_uuid (st_env (ac_store a)) m \<notin> jr_id ` set (st_jobs (ac_store a))"
        if "st_ticks (ac_store a) \<le> m" for m
        using da that by (simp add: fresh_for_def)
      ultimately show ?thesis using that by (metis order_trans)
    qed
    ultimately show ?thesis
      using c(3) q(3,4) t by (auto simp: fresh_for_def)
  qed
  ultimately show ?thesis using b fl by (simp add: books_ok_def)
qed

lemma start_send_eq:
  "start_send a =
     (if lim_outgoing (ac_limits a) \<le> length (ac_active a) \<or>
         \<not> list_ex (\<lambda>j. job_state j = JQueued) (ev_jobs (ac_view a)) \<or> \<not> ac_backend a
      then (Inr (), a)
      else and_then (with_store claim_next a) (\<lambda>claimed b.
        case claimed of
          None \<Rightarrow> (Inr (), b)
        | Some j \<Rightarrow>
            (case spawn (TkTransmit j (fax_path (ac_spool (job_changed j (put_active (job_id j) j False b)))
                     (doc_id (rq_document (job_request j)))))
                (job_changed j (put_active (job_id j) j False b)) of
               (Inr u, c) \<Rightarrow> (Inr u, c)
             | (Inl e, c) \<Rightarrow> sent (job_id j) (Inl e) c)))"
  unfolding start_send_def Let_def by (auto cong: option.case_cong prod.case_cong sum.case_cong)

lemma books_start_send: "books_ok d a \<Longrightarrow> books_ok d (snd (start_send a))"
proof -
  assume ok: "books_ok d a"
  have core: "books_core a" and wf: "wf_store (ac_store a)" using ok by (auto simp: books_ok_def books_core_def)
  define started where "started b j = job_changed j (put_active (job_id j) j False b)" for b j
  have step: "books_ok d (snd (case claimed of
        None \<Rightarrow> (Inr (), b)
      | Some j \<Rightarrow> (case spawn (TkTransmit j (fax_path (ac_spool (started b j)) (doc_id (rq_document (job_request j)))))
            (started b j) of
          (Inr u, c) \<Rightarrow> (Inr u, c) | (Inl e, c) \<Rightarrow> sent (job_id j) (Inl e) c)))"
    if r: "with_store claim_next a = (Inr claimed, b)" and b: "books_ok d b"
      and room: "length (ac_active a) < lim_outgoing (ac_limits a)" for claimed b
  proof (cases claimed)
    case None
    with b show ?thesis by simp
  next
    case (Some j)
    obtain s where cl: "claim_next (ac_store a) = (Inr (Some j), s)" and bs: "b = a\<lparr>ac_store := s\<rparr>"
      using with_store_okD [OF r] Some by blast
    let ?i = "job_id j" and ?q = "started b j"
      and ?t = "TkTransmit j (fax_path (ac_spool (started b j)) (doc_id (rq_document (job_request j))))"
    note c = claim_next_active [OF wf cl]
    have "?i \<notin> set (active_ids a)"
      using core c(1) active_not_queued [OF wf] by (auto simp: books_core_def)
    then have new: "?i \<notin> fst ` set (ac_active a)" by (simp add: active_ids_def)
    have q: "ac_active ?q = ac_active a @ [(?i, j, False)]" "flags ?q = flags a"
      "dispatched ?q = dispatched a" "ac_store ?q = s"
      using new bs by (simp_all add: started_def update_fresh) (simp_all add: flags_def dispatched_def)
    show ?thesis
    proof (cases rule: spawn_cases [of ?t ?q])
      case (1 e)
      let ?c = "?q\<lparr>ac_ticks := Suc (ac_ticks ?q)\<rparr>"
      have del: "AList.delete ?i (ac_active ?q) = ac_active a" using new by (simp add: q(1) delete_last)
      have "books_ok d (?c\<lparr>ac_active := AList.delete ?i (ac_active ?c)\<rparr>)"
        using b bs q del by (subst books_flags [of _ b])
          (simp_all add: flags_def active_ids_def active_ok_def dispatched_def)
      moreover have "active_ok ?c"
        using core c(4) q(1) by (auto simp: books_core_def active_ok_def)
      ultimately show ?thesis using 1 Some by (simp add: books_sent)
    next
      case 2
      then show ?thesis using books_started [OF ok room q cl, of ?t] Some by simp
    qed
  qed
  show ?thesis
    unfolding start_send_eq
    using ok step [unfolded started_def] by (auto intro!: books_and_then books_claim)
qed

lemma books_send_loop: "books_ok d a \<Longrightarrow> books_ok d (send_loop k a)"
proof (induction k arbitrary: a)
  case (Suc k)
  obtain x b where xb: "start_send a = (x, b)" by fastforce
  have b: "books_ok d b" using books_start_send [OF Suc.prems] xb by simp
  then have "books_ok d (report_error e b)" for e by (rule books_steady) simp
  with b xb Suc show ?case by (simp split: sum.split)
qed simp

lemma books_serve: "books_ok d a \<Longrightarrow> books_ok d (serve a)"
proof -
  assume ok: "books_ok d a"
  have "books_ok d (publish b)" if "books_ok d b" for b using that by (rule books_steady) simp
  with ok show ?thesis by (simp add: serve_def books_send_loop books_start_export)
qed

end
