(* ===== verification/ActorSteps.thy ===== *)
theory ActorSteps
  imports ActorBooks
begin

text \<open>
  Every input of the owner keeps the books of \<open>ActorBooks\<close>: the end of a task, the requests of the
  handles, the events of the SIP service and the shutdown. The owner's loop is a \<open>labelled_system\<close>
  with the books as its invariant, from the moment the store was opened.
\<close>

section \<open>Shutdown\<close>

text \<open>After a panic only the core of the books is claimed while stopping, so a state with a panicked
  worker has good books once the flag is set.\<close>

lemma books_stopping_record:
  "steady a b \<Longrightarrow> books_ok d (a\<lparr>ac_stopping := True\<rparr>) \<Longrightarrow> books_ok d (b\<lparr>ac_stopping := True\<rparr>)"
proof (erule books_steady)
  assume "steady a b"
  then show "steady (a\<lparr>ac_stopping := True\<rparr>) (b\<lparr>ac_stopping := True\<rparr>)"
    by (simp add: steady_def flags_def)
qed

lemma steady_reject_all [simp]: "steady a (reject_all ps b) = steady a b"
  by (induction ps b rule: reject_all.induct) simp_all

lemma stopping_update_id: "ac_stopping a \<Longrightarrow> a\<lparr>ac_stopping := True\<rparr> = a"
  by (cases a) simp

lemma unguarded_stop [simp]: "unguarded TkStop" "unguarded (TkProfile p r)" "unguarded (TkPreview q r)"
  "unguarded (TkDocument i r)"
  by (simp_all add: unguarded_def)

lemma books_stop:
  assumes "books_ok d (a\<lparr>ac_stopping := True\<rparr>)"
  shows "books_ok d (stop a)"
proof (cases "ac_stopping a")
  case True
  with assms show ?thesis by (simp add: stop_def stopping_update_id)
next
  case False
  let ?a = "a\<lparr>ac_stopping := True\<rparr>"
  have st: "steady ?a b \<Longrightarrow> books_ok d b" "steady ?a b \<Longrightarrow> books_ok d (snd (spawn TkStop b))" for b
    using books_steady [OF assms] books_spawn_unguarded [of TkStop d b] by simp_all
  have gen: "a\<lparr>ac_stopping := True, ac_generation := n\<rparr> = ?a\<lparr>ac_generation := n\<rparr>" for n by simp
  show ?thesis
    using False by (simp add: stop_def Let_def st)
qed

lemma books_stopping: "books_ok d a \<Longrightarrow> books_ok d (a\<lparr>ac_stopping := True\<rparr>)"
  by (auto simp: books_ok_def books_core_def books_exact_def fresh_for_def)

section \<open>The end of a task\<close>

lemma delete_fst: "map fst (AList.delete k al) = removeAll k (map fst al)"
  by (induction al) auto

lemma delete_subset: "set (AList.delete k al) \<subseteq> set al"
  by (induction al) auto

abbreviation without :: "task list \<Rightarrow> actor \<Rightarrow> actor" where
  "without ts a \<equiv> a\<lparr>ac_working := ac_working a - 1, ac_tasks := ts\<rparr>"

lemma one_flag: "Suc n \<le> of_bool b \<longleftrightarrow> b \<and> n = 0" "Suc n = of_bool b \<longleftrightarrow> b \<and> n = 0"
  by (cases b; simp)+

lemma task_kinds:
  "is_credentials t \<Longrightarrow> \<not> is_export t \<and> \<not> is_settings t \<and> transmit_of t = []"
  "is_export t \<Longrightarrow> \<not> is_credentials t \<and> \<not> is_settings t \<and> transmit_of t = []"
  "is_settings t \<Longrightarrow> \<not> is_credentials t \<and> \<not> is_export t \<and> transmit_of t = []"
  by (cases t; simp)+

lemma books_close:
  assumes ok: "books_ok d a" and ts: "ac_tasks a = xs @ t # ys"
  shows "\<not> no_panic d \<Longrightarrow> books_ok d ((without (xs @ ys) a)\<lparr>ac_stopping := True\<rparr>)"
    and "unguarded t \<Longrightarrow> books_ok d (without (xs @ ys) a)"
    and "is_credentials t \<Longrightarrow> books_ok d ((without (xs @ ys) a)\<lparr>ac_configuring := False\<rparr>)"
    and "is_export t \<Longrightarrow> books_ok d ((without (xs @ ys) a)\<lparr>ac_exporting := None\<rparr>)"
    and "is_settings t \<Longrightarrow> books_ok d ((without (xs @ ys) a)\<lparr>ac_settings_saving := False\<rparr>)"
proof -
  have sub: "mset (transmits (xs @ ys)) \<subseteq># mset (transmits (ac_tasks a))" by (simp add: ts)
  have core: "books_core a" using ok by (simp add: books_ok_def)
  have tr: "mset (transmits (xs @ ys)) \<subseteq># mset (active_ids a)"
    using sub core unfolding books_core_def by (metis subset_mset.order_trans)
  show "\<not> no_panic d \<Longrightarrow> books_ok d ((without (xs @ ys) a)\<lparr>ac_stopping := True\<rparr>)"
    using ok tr ts by (auto simp: books_ok_def books_core_def fresh_for_def)
  show "unguarded t \<Longrightarrow> books_ok d (without (xs @ ys) a)"
    using ok tr ts by (auto simp: books_ok_def books_core_def books_exact_def fresh_for_def unguarded_def)
  have c: "wf_store (ac_store a)" "st_version (ac_store a) = 2" "active_ok a" "distinct (active_ids a)"
    "\<forall>i \<in> set (active_ids a). active_in (ac_store a) i"
    "length (ac_active a) \<le> lim_outgoing (ac_limits a)" "ac_working a = Suc (length xs + length ys)"
    "mset (transmits xs) + mset (transmits ys) \<subseteq># mset (active_ids a)"
    "of_bool (is_credentials t) + (many is_credentials xs + many is_credentials ys) \<le> of_bool (ac_configuring a)"
    "of_bool (is_export t) + (many is_export xs + many is_export ys) \<le> of_bool (ac_exporting a \<noteq> None)"
    "of_bool (is_settings t) + (many is_settings xs + many is_settings ys) \<le> of_bool (ac_settings_saving a)"
    using core ts tr by (simp_all add: books_core_def)
  have x: "transmit_of t = [] \<longrightarrow> mset (transmits xs) + mset (transmits ys) = mset (active_ids a)"
    "of_bool (is_credentials t) + (many is_credentials xs + many is_credentials ys) = of_bool (ac_configuring a)"
    "of_bool (is_export t) + (many is_export xs + many is_export ys) = of_bool (ac_exporting a \<noteq> None)"
    "of_bool (is_settings t) + (many is_settings xs + many is_settings ys) = of_bool (ac_settings_saving a)"
    if "\<not> ac_stopping a \<or> no_panic d"
    using ok that ts by (auto simp: books_ok_def books_exact_def)
  have f: "\<forall>D. fst d = Some D \<longrightarrow> dispatch_ok D a" using ok by (simp add: books_ok_def)
  have closed: "books_ok d ((without (xs @ ys) a)\<lparr>ac_configuring := g, ac_exporting := e, ac_settings_saving := s\<rparr>)"
    if t: "transmit_of t = []"
      and le: "many is_credentials (xs @ ys) \<le> of_bool g" "many is_export (xs @ ys) \<le> of_bool (e \<noteq> None)"
        "many is_settings (xs @ ys) \<le> of_bool s"
      and eq: "\<not> ac_stopping a \<or> no_panic d \<longrightarrow> many is_credentials (xs @ ys) = of_bool g \<and>
        many is_export (xs @ ys) = of_bool (e \<noteq> None) \<and> many is_settings (xs @ ys) = of_bool s" for g e s
  proof -
    let ?b = "(without (xs @ ys) a)\<lparr>ac_configuring := g, ac_exporting := e, ac_settings_saving := s\<rparr>"
    have "books_core ?b" using c(1-8) le unfolding books_core_def by simp
    moreover have "\<not> ac_stopping ?b \<or> no_panic d \<longrightarrow> books_exact ?b" using x(1) t eq unfolding books_exact_def by simp
    moreover have "\<forall>D. fst d = Some D \<longrightarrow> dispatch_ok D ?b" using f by simp
    moreover have "fst (snd d) = ac_limits ?b" using ok by (simp add: books_ok_def)
    ultimately show ?thesis unfolding books_ok_def by blast
  qed
  show "is_credentials t \<Longrightarrow> books_ok d ((without (xs @ ys) a)\<lparr>ac_configuring := False\<rparr>)"
  proof -
    assume t: "is_credentials t"
    have "books_ok d ((without (xs @ ys) a)\<lparr>ac_configuring := False, ac_exporting := ac_exporting a, ac_settings_saving := ac_settings_saving a\<rparr>)"
      by (rule closed) (use task_kinds(1) [OF t] t c(9-) x(2-) in \<open>simp_all add: one_flag\<close>)
    then show ?thesis by simp
  qed
  show "is_export t \<Longrightarrow> books_ok d ((without (xs @ ys) a)\<lparr>ac_exporting := None\<rparr>)"
  proof -
    assume t: "is_export t"
    have "books_ok d ((without (xs @ ys) a)\<lparr>ac_configuring := ac_configuring a, ac_exporting := None, ac_settings_saving := ac_settings_saving a\<rparr>)"
      by (rule closed) (use task_kinds(2) [OF t] t c(9-) x(2-) in \<open>simp_all add: one_flag\<close>)
    then show ?thesis by simp
  qed
  show "is_settings t \<Longrightarrow> books_ok d ((without (xs @ ys) a)\<lparr>ac_settings_saving := False\<rparr>)"
  proof -
    assume t: "is_settings t"
    have "books_ok d ((without (xs @ ys) a)\<lparr>ac_configuring := ac_configuring a, ac_exporting := ac_exporting a, ac_settings_saving := False\<rparr>)"
      by (rule closed) (use task_kinds(3) [OF t] t c(9-) x(2-) in \<open>simp_all add: one_flag\<close>)
    then show ?thesis by simp
  qed
qed

lemma books_close_transmit:
  assumes ok: "books_ok d a" and ts: "ac_tasks a = xs @ TkTransmit j p # ys"
  shows "books_ok d ((without (xs @ ys) a)\<lparr>ac_active := AList.delete (job_id j) (ac_active a)\<rparr>)"
proof -
  let ?i = "job_id j" and ?b = "(without (xs @ ys) a)\<lparr>ac_active := AList.delete (job_id j) (ac_active a)\<rparr>"
  have core: "books_core a" using ok by (simp add: books_ok_def)
  have ids: "active_ids ?b = remove1 ?i (active_ids a)"
    using core by (simp add: active_ids_def delete_fst books_core_def distinct_remove1_removeAll)
  have msets: "add_mset ?i (mset (transmits (xs @ ys))) = mset (transmits (ac_tasks a))"
    by (simp add: ts)
  have len: "length (AList.delete ?i (ac_active a)) \<le> length (ac_active a)"
    by (simp add: length_delete_le)
  have aok: "active_ok ?b"
    using core delete_subset [of ?i "ac_active a"] by (auto simp: active_ok_def books_core_def)
  have sub: "mset (transmits (xs @ ys)) \<subseteq># mset (active_ids ?b)"
    using core msets by (metis books_core_def ids mset_remove1 add_mset_remove_trivial subset_eq_diff_conv
        mset_subset_eq_add_mset_cancel add_mset_subseteq_single_iff insert_subset_eq_iff)
  have "books_core ?b"
    using core sub len aok ts ids set_remove1_subset [of ?i "active_ids a"]
    by (auto simp: books_core_def)
  moreover have "books_exact ?b" if "\<not> ac_stopping a \<or> no_panic d"
  proof -
    have "mset (transmits (ac_tasks a)) = mset (active_ids a)"
      using ok that by (auto simp: books_ok_def books_exact_def)
    then have "mset (transmits (xs @ ys)) = mset (active_ids ?b)" unfolding ids mset_remove1
      by (metis msets add_mset_remove_trivial)
    then show ?thesis using ok that ts by (auto simp: books_ok_def books_exact_def)
  qed
  moreover have "dispatch_ok D ?b" if "fst d = Some D" for D
    using ok that by (simp add: books_ok_def dispatched_def)
  ultimately show ?thesis using ok by (simp add: books_ok_def)
qed

lemma books_record: "dispatched_of x = [] \<Longrightarrow> books_ok d (record_out x a) = books_ok d a"
  by (rule books_flags)
     (simp_all add: record_out_def flags_def active_ids_def active_ok_def dispatched_def)

lemma books_profile_saved: "books_ok d a \<Longrightarrow> books_ok d (profile_saved p reply saved a)"
proof -
  assume ok: "books_ok d a"
  let ?r = "and_then (saved, a) (\<lambda>_ a. if ac_stopping a then (Inl EWorkerStopped, a) else actor_save_profile p a)"
  have "books_ok d (snd ?r)"
    by (intro books_and_then) (use ok books_save_profile in auto)
  then show ?thesis by (cases ?r) (simp add: profile_saved_def books_record)
qed

lemma books_complete:
  assumes ok: "books_ok d a" and ts: "ac_tasks a = xs @ t # ys" and p: "produces t r"
    and calm: "no_panic d \<Longrightarrow> r \<noteq> FPanicked"
  shows "books_ok d (complete t r (without (xs @ ys) a))"
proof (cases "r = FPanicked")
  case True
  then have open': "\<not> no_panic d" using calm by blast
  have "books_ok d ((report_error e (without (xs @ ys) a))\<lparr>ac_stopping := True\<rparr>)" for e
    using books_stopping_record [OF _ books_close(1) [OF ok ts open']] by simp
  with True show ?thesis by (simp add: books_stop)
next
  case False
  note close = books_close(2-) [OF ok ts]
  show ?thesis
  proof (cases t)
    case (TkCredentials g i q s)
    with False p close(2) show ?thesis
      by (cases r) (auto intro: books_credentials_ready)
  next
    case (TkTransmit j path)
    have "active_ok (without (xs @ ys) a)" using ok by (simp add: books_ok_def books_core_def)
    with TkTransmit False p books_close_transmit [OF ok, of xs j path ys] ts show ?thesis
      by (cases r) (auto intro: books_sent)
  next
    case (TkExport f spool)
    with False p close(3) show ?thesis by (cases r) (auto intro: books_export_done)
  next
    case (TkSettings s replies)
    with False p close(4) show ?thesis by (cases r) (auto intro: books_settings_saved)
  next
    case (TkProfile q reply)
    with False p close(1) show ?thesis by (cases r) (auto intro: books_profile_saved)
  next
    case (TkPreview path reply)
    with False p close(1) show ?thesis by (cases r) (auto simp: books_record)
  next
    case (TkDocument i reply)
    have "books_ok d (without (xs @ ys) a)" using close(1) TkDocument by simp
    then have "books_ok d ((without (xs @ ys) a)\<lparr>ac_preparing := q\<rparr>)" for q
      by (rule books_steady) simp
    with TkDocument False p show ?thesis by (cases r) (auto simp: books_record)
  next
    case TkStop
    with False p close(1) show ?thesis by (cases r) auto
  qed
qed

lemma books_task_finished: "books_ok d a \<Longrightarrow> (no_panic d \<Longrightarrow> r \<noteq> FPanicked) \<Longrightarrow> books_ok d (task_finished n r a)"
proof (cases "n < length (ac_tasks a) \<and> produces (ac_tasks a ! n) r")
  case True
  assume "books_ok d a" "no_panic d \<Longrightarrow> r \<noteq> FPanicked"
  then show ?thesis
    using books_complete [of d a "take n (ac_tasks a)" "ac_tasks a ! n" "drop (Suc n) (ac_tasks a)" r] True
    by (simp add: task_finished_def remove_nth_def id_take_nth_drop [symmetric])
qed (auto simp: task_finished_def)

section \<open>Requests\<close>

lemma books_prepare: "books_ok d a \<Longrightarrow> books_ok d (snd (prepare_document i c reply a))"
proof -
  assume ok: "books_ok d a"
  let ?a = "a\<lparr>ac_preparing := AList.update i c (ac_preparing a)\<rparr>"
  have "books_ok d ?a" using ok by (rule books_steady) simp
  then have sp: "books_ok d (snd (spawn (TkDocument i reply) ?a))" by (simp add: books_spawn_unguarded)
  have "books_ok d b \<Longrightarrow> books_ok d (b\<lparr>ac_preparing := x\<rparr>)" for b x by (erule books_steady) simp
  with sp show ?thesis
    by (cases "spawn (TkDocument i reply) ?a"; cases "fst (spawn (TkDocument i reply) ?a)")
       (simp_all add: prepare_document_def)
qed

lemma books_save_password: "books_ok d a \<Longrightarrow> books_ok d (snd (save_profile_with_password p reply a))"
  unfolding save_profile_with_password_def by (rule books_and_then) (auto intro: books_spawn_unguarded)

lemma snd_answered [simp]: "snd (answered f r) = snd r"
  by (simp add: answered_def case_prod_beta)

lemma steady_requests:
  assumes "rq \<in> {RqJob i, RqReception i, RqAccept i, RqReject i, RqSaveDestination q, RqRemoveDestination i,
    RqCancelReception i, RqRetryExport i, RqClearQueue, RqEnqueue f, RqRetry i, RqCancel i}"
  shows "steady a (snd (perform rq a))"
  using assms by (elim insertE emptyE; simp; intro steady_intros)

lemma books_perform: "books_ok d a \<Longrightarrow> books_ok d (snd (perform rq a))"
proof -
  assume ok: "books_ok d a"
  note st = books_steady [OF ok steady_requests]
  show ?thesis
  proof (cases rq)
    case (RqSaveSettings s reply)
    with ok show ?thesis by (simp add: books_queue_settings)
  next
    case (RqPreview i page reply)
    with ok show ?thesis by (simp add: books_spawn_unguarded)
  next
    case (RqSaveProfilePassword p reply)
    with ok show ?thesis by (simp add: books_save_password)
  next
    case (RqSaveProfile p)
    with ok show ?thesis by (simp add: books_save_profile)
  next
    case (RqConfigure s)
    with ok show ?thesis by (simp add: books_configure)
  next
    case RqReconnect
    with ok show ?thesis by (simp add: books_reconnect)
  next
    case (RqPrepare i c reply)
    with ok show ?thesis by (simp add: books_prepare)
  qed (rule st, blast)+
qed

lemma books_request:
  assumes "books_ok d a"
  shows "books_ok d (blocking_request reply rq a)" "books_ok d (handle_request reply rq a)"
proof -
  obtain r b where rb: "perform rq a = (r, b)" by fastforce
  have "books_ok d (publish b)"
    by (rule books_steady [of d b]) (use books_perform [OF assms, of rq] rb in simp_all)
  then show "books_ok d (blocking_request reply rq a)" by (simp add: blocking_request_def rb books_record)
  then show "books_ok d (handle_request reply rq a)"
    using assms by (simp add: handle_request_def books_record)
qed

section \<open>The loop\<close>

lemma books_open_fields [simp]:
  "books_ok d (a\<lparr>ac_requests_open := x\<rparr>) = books_ok d a" "books_ok d (a\<lparr>ac_native_open := x\<rparr>) = books_ok d a"
  by (rule books_flags; simp add: flags_def active_ids_def active_ok_def dispatched_def)+

definition calm :: "books \<Rightarrow> input \<Rightarrow> bool" where
  "calm d i \<longleftrightarrow> \<not> no_panic d \<or> (\<forall>n. i \<noteq> InFinished n FPanicked)"

lemma calm_False [simp]: "calm (D, l, False) i"
  by (simp add: calm_def)

lemma books_dispatch: "books_ok d a \<Longrightarrow> calm d i \<Longrightarrow> books_ok d (dispatch i a)"
proof -
  assume ok: "books_ok d a" and "calm d i"
  then have fin: "books_ok d (task_finished n r a)" if "i = InFinished n r" for n r
    using that by (intro books_task_finished) (auto simp: calm_def)
  have st: "steady b c \<Longrightarrow> books_ok d b \<Longrightarrow> books_ok d c" for b c by (rule books_steady)
  show ?thesis
    using ok fin
    by (cases i)
       (simp_all add: books_stop books_stopping books_request Let_def
          st [OF steady_transmit_progress] st [OF steady_save_and_publish] st [OF steady_offer]
          st [OF steady_received] st [OF steady_report_error [THEN iffD2, OF steady_refl]])
qed

lemma books_step: "books_ok d a \<Longrightarrow> calm d i \<Longrightarrow> books_ok d (actor_step i a)"
  by (simp add: actor_step_def books_dispatch books_serve)

interpretation owner: labelled_system actor_step "books_ok d" "\<lambda>_. calm d" for d
  by unfold_locales (rule books_step)

lemma books_run: "books_ok (D, l, False) a \<Longrightarrow> books_ok (D, l, False) (run actor_step is a)"
  by (rule owner.inv_run_always) simp_all

lemma books_run_calm:
  assumes "books_ok d a" "\<forall>i \<in> set is. calm d i"
  shows "books_ok d (run actor_step is a)"
proof (rule owner.inv_run [OF assms(1)])
  show "owner.allowed_run d is a" using assms(2) by (induction "is" arbitrary: a) simp_all
qed

end
