(* ===== verification/ActorLives.thy ===== *)
theory ActorLives
  imports ActorSteps
begin

text \<open>
  The lives of an engine on one database: each life opens the store, which migrates it and marks what
  was interrupted, starts the owner and serves any inputs until the process ends, at any point. The
  books hold from the start of every life, and what a life transmitted stays recorded in the next.
\<close>

section \<open>Opening the database\<close>

lemma store_flow_and_then:
  assumes "store_flow st (snd r)" "\<And>x s. store_flow s (snd (k x s))"
  shows "store_flow st (snd (and_then r k))"
  using assms by (cases r; cases "fst r") (auto intro: store_flow_trans)

lemma reflow_trans: "store_reflow st s \<Longrightarrow> store_reflow s t \<Longrightarrow> store_reflow st t"
proof -
  assume a: "store_reflow st s" "store_reflow s t"
  then have "drawn s t i \<Longrightarrow> drawn st t i" "drawn st s i \<Longrightarrow> drawn st t i" for i
    using drawn_later [of s t i st] drawn_mono [of st s i t] by (auto simp: store_reflow_def)
  with a show ?thesis unfolding store_reflow_def by (auto 0 3)
qed

lemma recover_jobs_flow: "store_flow st (snd (recover_jobs js st))"
proof (induction js arbitrary: st)
  case (Cons j js)
  then show ?case by (auto intro!: store_flow_and_then update_job_flow)
qed simp

lemma recover_received_flow: "store_flow st (snd (recover_received fs st))"
proof (induction fs arbitrary: st)
  case (Cons f fs)
  have "store_flow st (snd (save_received g (tick st)))" for g
    using store_flow_tick save_received_flow by (rule store_flow_trans)
  with Cons show ?case by (auto intro!: store_flow_and_then)
qed simp

lemma ensure_folder_flow: "store_flow st (snd (ensure_folder w st))"
  unfolding ensure_folder_def
proof (rule store_flow_and_then)
  show "store_flow st (snd (receive_settings_of st))" by (simp add: profiles_state)
  show "store_flow s (snd (if rs_folder x = None
       then and_then (lift_result (default_folder w) s) (\<lambda>folder.
              save_receive_settings (x\<lparr>rs_folder := Some folder\<rparr>))
       else (Inr (), s)))" for x s
    by (auto intro!: store_flow_and_then save_settings_flow)
qed

text \<open>Everything after the migration.\<close>

definition restore :: "open_world \<Rightarrow> store \<Rightarrow> unit stored" where
  "restore w s =
     and_then (ensure_folder w s) (\<lambda>_ s. and_then (jobs s) (\<lambda>js s.
     and_then (recover_jobs js s) (\<lambda>_ s. and_then (received_faxes s) recover_received)))"

lemma restore_flow: "store_flow st (snd (restore w st))"
  unfolding restore_def
  by (intro store_flow_and_then ensure_folder_flow recover_jobs_flow recover_received_flow)
     (simp_all add: frame_simps)

text \<open>The migration of a well-formed database only moves its version.\<close>

lemma migrate_effect:
  assumes "schema_ok st" "migrate st = (r, s)"
  shows "st_env s = st_env st" "st_jobs s = st_jobs st" "st_profiles s = st_profiles st"
    "st_destinations s = st_destinations st" "st_received s = st_received st"
    "st_preference s = st_preference st" "st_ticks st \<le> st_ticks s" "schema_ok s"
    "r = Inr () \<longrightarrow> st_version s = 2"
proof -
  have "st_env s = st_env st \<and> st_jobs s = st_jobs st \<and> st_profiles s = st_profiles st \<and>
    st_destinations s = st_destinations st \<and> st_received s = st_received st \<and>
    st_preference s = st_preference st \<and> st_ticks st \<le> st_ticks s \<and> schema_ok s \<and>
    (r = Inr () \<longrightarrow> st_version s = 2)"
  proof -
    consider "st_version st = 0" | "st_version st = 1" | "st_version st = 2" | "st_version st > 2"
      by linarith
    then show ?thesis
      using assms
      by cases (auto simp: migrate_def create_schema_1_def create_schema_2_def schema_ok_def
          statement_def tick_def split: option.splits)
  qed
  then show "st_env s = st_env st" "st_jobs s = st_jobs st" "st_profiles s = st_profiles st"
    "st_destinations s = st_destinations st" "st_received s = st_received st"
    "st_preference s = st_preference st" "st_ticks st \<le> st_ticks s" "schema_ok s"
    "r = Inr () \<longrightarrow> st_version s = 2" by blast+
qed

lemma open_store_cases:
  "snd (open_store w st) = st \<and> fst (open_store w st) \<noteq> Inr () \<or>
   open_store w st = and_then (statement (\<lambda>s. (Inr (), s)) st) (\<lambda>_ s. and_then (migrate s) (\<lambda>_ s. restore w s))"
  by (simp add: open_store_def restore_def split: option.splits)

lemma open_store_flow:
  assumes op: "open_store w st = (r, s)" and wf: "wf_store st" and sch: "schema_ok st"
  shows "store_reflow st s" "wf_store s" "schema_ok s" "r = Inr () \<longrightarrow> st_version s = 2"
proof -
  have "store_reflow st s \<and> wf_store s \<and> schema_ok s \<and> (r = Inr () \<longrightarrow> st_version s = 2)"
  proof (cases "s = st \<and> r \<noteq> Inr ()")
    case True
    with wf sch show ?thesis by (simp add: flow_reflow)
  next
    case False
    let ?t = "tick st"
    obtain q m where q: "migrate ?t = (q, m)" by fastforce
    have tick_sch: "schema_ok ?t" using sch by (simp add: schema_ok_def)
    note e = migrate_effect [OF tick_sch q]
    have m: "store_reflow st m" "wf_store m"
      using e wf by (auto simp: store_reflow_def queued_in_def wf_store_def)
    obtain x t where xt: "restore w m = (x, t)" by fastforce
    have t: "store_flow m t" using restore_flow [of m w] xt by simp
    have out: "(s = ?t \<and> r \<noteq> Inr ()) \<or> (s = m \<and> r \<noteq> Inr ()) \<or> (q = Inr () \<and> s = t)"
      using open_store_cases [of w st] op False q xt
      by (cases q) (auto simp: statement_def split: option.splits)
    from out show ?thesis
    proof (elim disjE)
      assume "s = ?t \<and> r \<noteq> Inr ()"
      with wf tick_sch show ?thesis by (simp add: flow_reflow)
    next
      assume "s = m \<and> r \<noteq> Inr ()"
      with m e(8) show ?thesis by simp
    next
      assume q: "q = Inr () \<and> s = t"
      then have "st_version t = 2" using t e(9) by (simp add: store_flow_def)
      with q t m reflow_trans [OF m(1) flow_reflow [OF t]] show ?thesis
        by (simp add: schema_ok_def store_flow_wf)
    qed
  qed
  then show "store_reflow st s" "wf_store s" "schema_ok s" "r = Inr () \<longrightarrow> st_version s = 2" by blast+
qed

section \<open>Opening the engine\<close>

lemma destinations_state: "snd (destinations st) = tick st" "snd (profiles st) = tick st"
  "snd (jobs st) = tick st" "snd (received_faxes st) = tick st" "snd (receive_settings_of st) = tick st"
  by (simp_all add: frame_simps)

text \<open>What the reads at the start leave behind: only the clock moves.\<close>

definition aged :: "store \<Rightarrow> store \<Rightarrow> bool" where
  "aged st s \<longleftrightarrow> (\<exists>n. st_ticks st \<le> n \<and> s = st\<lparr>st_ticks := n\<rparr>)"

lemma aged_simps: "aged st st" "aged st (tick st)" "aged st s \<Longrightarrow> aged st (tick s)"
proof -
  show "aged st st" unfolding aged_def by (rule exI [of _ "st_ticks st"]) simp
  show "aged st (tick st)" unfolding aged_def tick_def by (rule exI [of _ "Suc (st_ticks st)"]) simp
  assume "aged st s"
  then obtain n where "st_ticks st \<le> n" "s = st\<lparr>st_ticks := n\<rparr>" by (auto simp: aged_def)
  then show "aged st (tick s)" unfolding aged_def tick_def by (intro exI [of _ "Suc n"]) simp
qed

lemma aged_reflow:
  assumes "aged st s" "store_reflow st0 st" "wf_store st" "schema_ok st"
  shows "store_reflow st0 s" "wf_store s" "schema_ok s" "st_version s = st_version st"
proof -
  obtain n where n: "st_ticks st \<le> n" "s = st\<lparr>st_ticks := n\<rparr>" using assms(1) by (auto simp: aged_def)
  then have "store_reflow st s" by (auto simp: store_reflow_def queued_in_def)
  with assms(2) show "store_reflow st0 s" by (rule reflow_trans)
  show "wf_store s" "schema_ok s" "st_version s = st_version st"
    using n assms by (simp_all add: wf_store_def schema_ok_def)
qed

lemma aged_and_then:
  assumes "snd (f st) = tick st" "aged st0 st"
    "\<And>x s. aged st0 s \<Longrightarrow> k x s = (Inr y, t) \<Longrightarrow> P" "and_then (f st) k = (Inr y, t)"
  shows P
  using assms aged_simps(3) [OF assms(2)] by (cases "f st"; cases "fst (f st)") auto

lemma actor_open_okE:
  assumes "actor_open su st = (Inr a, t)"
  obtains v s where "open_store (su_open su) st = (Inr (), s)" "aged s t" "a = actor_new su v t"
    "ev_lifecycle v = LRunning" "ev_revision v = 0"
proof -
  obtain s where op: "open_store (su_open su) st = (Inr (), s)"
    using assms by (auto simp: actor_open_def Let_def split: prod.splits sum.splits)
  have "su_spool_error su = None"
    using assms op by (auto simp: actor_open_def Let_def split: option.splits)
  note state = destinations_state
  have "and_then (profiles s) (\<lambda>ps st. and_then (destinations st) (\<lambda>ds st. and_then (jobs st) (\<lambda>js st.
      and_then (received_faxes st) (\<lambda>fs st. and_then (receive_settings_of st) (\<lambda>x st.
      (case su_pool_error su of Some e \<Rightarrow> Inl (EIo e) | None \<Rightarrow> Inr (actor_new su
        (default_view\<lparr>ev_profiles := ps, ev_destinations := ds, ev_jobs := js, ev_inbox := fs,
           ev_settings := x, ev_sending := su_backend su, ev_lifecycle := LRunning\<rparr>) st), st))))))
      = (Inr a, t)"
    using assms op \<open>su_spool_error su = None\<close>
    by (cases "su_pool_error su") (simp_all add: actor_open_def Let_def io_check_def)
  then have "\<exists>v. aged s t \<and> a = actor_new su v t \<and> ev_lifecycle v = LRunning \<and> ev_revision v = 0"
    by (elim aged_and_then [rotated -1, where ?st0.0 = s])
       (auto simp: state aged_simps default_view_def split: option.splits)
  with op that show thesis by blast
qed

lemma open_books:
  assumes op: "actor_open su st = (Inr a, t)" and wf: "wf_store st" and sch: "schema_ok st"
    and fresh: "\<forall>D. fst d = Some D \<longrightarrow> fresh_for D st" and lim: "su_limits su = fst (snd d)"
  shows "books_ok d a"
proof -
  obtain v s where o: "open_store (su_open su) st = (Inr (), s)" and ag: "aged s t" and a: "a = actor_new su v t"
    using actor_open_okE [OF op] by metis
  note f = open_store_flow [OF o wf sch]
  note g = aged_reflow [OF ag f(1-3)]
  have "\<forall>D. fst d = Some D \<longrightarrow> fresh_for D t" using fresh fresh_for_flow [OF _ g(1)] by blast
  then show ?thesis
    using g f(4) lim by (simp add: a actor_new_def books_ok_def books_core_def books_exact_def active_ok_def
        active_ids_def dispatched_def)
qed

lemma books_start: "books_ok d a \<Longrightarrow> books_ok d (actor_start a)"
proof -
  have pub: "books_ok d (publish b)" if "books_ok d b" for b using that by (rule books_steady) simp
  show "books_ok d a \<Longrightarrow> books_ok d (actor_start a)"
    by (simp add: actor_start_def books_serve pub books_refresh)
qed

section \<open>Lives\<close>

text \<open>What one life of the engine transmits, and the database it leaves.\<close>

definition life :: "actor_setup \<times> input list \<Rightarrow> store \<Rightarrow> uuid list \<times> store" where
  "life l st =
     (case actor_open (fst l) st of
        (Inl e, s) \<Rightarrow> ([], s)
      | (Inr a, s) \<Rightarrow> (let b = run actor_step (snd l) (actor_start a) in (dispatched b, ac_store b)))"

fun lives :: "(actor_setup \<times> input list) list \<Rightarrow> store \<Rightarrow> uuid list \<times> store" where
  "lives [] st = ([], st)"
| "lives (l # ls) st =
     (case life l st of (ds, s) \<Rightarrow> (case lives ls s of (es, t) \<Rightarrow> (ds @ es, t)))"

text \<open>Opening leaves a sound database also when it fails.\<close>

lemma aged_reads:
  assumes "snd (f st) = tick st" "aged st0 st" "\<And>x s. aged st0 s \<Longrightarrow> aged st0 (snd (k x s))"
  shows "aged st0 (snd (and_then (f st) k))"
  using assms aged_simps(3) [OF assms(2)] by (cases "f st"; cases "fst (f st)") auto

lemma actor_open_store:
  assumes "actor_open su st = (r, t)" "wf_store st" "schema_ok st"
  shows "store_reflow st t" "wf_store t" "schema_ok t"
proof -
  obtain q s where op: "open_store (su_open su) st = (q, s)" by fastforce
  note f = open_store_flow [OF op assms(2,3)]
  have io: "aged s (snd (and_then (io_check x, u) (\<lambda>_ v. (y v, v))))" if "aged s u" for x y u
    using that by (simp add: io_check_def split: option.split)
  have "aged s (snd (actor_open su st))"
    unfolding actor_open_def Let_def op
    by (cases q; cases "su_spool_error su"; simp add: aged_simps)
       (intro aged_reads io; simp add: destinations_state aged_simps)
  with assms(1) have "aged s t" by simp
  from aged_reflow [OF this f(1-3)] show "store_reflow st t" "wf_store t" "schema_ok t" by blast+
qed

lemma life_keeps:
  assumes "wf_store st" "schema_ok st" "fresh_for D st" "life l st = (ds, s)"
  shows "wf_store s \<and> schema_ok s \<and> fresh_for (D @ ds) s"
proof -
  obtain r t where op: "actor_open (fst l) st = (r, t)" by fastforce
  note o = actor_open_store [OF op assms(1,2)]
  show ?thesis
  proof (cases r)
    case (Inl e)
    with op assms(4) have "ds = []" "s = t" by (simp_all add: life_def)
    with o assms(3) show ?thesis by (simp add: fresh_for_flow)
  next
    case (Inr a)
    let ?d = "(Some D, su_limits (fst l), False)" and ?b = "run actor_step (snd l) (actor_start a)"
    have "books_ok ?d a" using op Inr assms by (intro open_books [of "fst l" st a t]) simp_all
    then have b: "books_ok ?d ?b" by (simp add: books_run books_start)
    have "ds = dispatched ?b" "s = ac_store ?b" using op Inr assms(4) by (simp_all add: life_def Let_def)
    with b show ?thesis by (simp add: books_ok_def books_core_def schema_ok_def)
  qed
qed

lemma lives_keep:
  assumes "wf_store st" "schema_ok st" "fresh_for D st"
  shows "fresh_for (D @ fst (lives ls st)) (snd (lives ls st))"
  using assms
proof (induction ls arbitrary: D st)
  case (Cons l ls)
  obtain ds s where l: "life l st = (ds, s)" by fastforce
  have "fresh_for ((D @ ds) @ fst (lives ls s)) (snd (lives ls s))"
    using life_keeps [OF Cons.prems l] by (intro Cons.IH) simp_all
  then show ?case by (simp add: l case_prod_beta)
qed simp

end
