(* ===== verification/ActorStop.thy ===== *)
theory ActorStop
  imports ActorLives
begin

text \<open>
  The shutdown of the owner: once it is stopping and takes no more requests, no input starts a
  transmission, the outstanding work only shrinks and every completion of a task shrinks it.
\<close>

definition closing :: "actor \<Rightarrow> bool" where
  "closing a \<longleftrightarrow> ac_stopping a \<and> \<not> ac_requests_open a"

text \<open>Tasks outstanding, and the one that accepted but unsaved preferences still need.\<close>

definition outstanding :: "actor \<Rightarrow> nat" where
  "outstanding a = length (ac_tasks a) + of_bool (ac_settings_pending a \<noteq> None)"

fun completes :: "input \<Rightarrow> actor \<Rightarrow> bool" where
  "completes (InFinished n r) a = (n < length (ac_tasks a) \<and> produces (ac_tasks a ! n) r)"
| "completes _ a = False"

text \<open>The number of tasks that complete during a run.\<close>

fun completions :: "input list \<Rightarrow> actor \<Rightarrow> nat" where
  "completions [] a = 0"
| "completions (i # is) a = of_bool (completes i a) + completions is (actor_step i a)"

definition shrinks :: "actor \<Rightarrow> actor \<Rightarrow> bool" where
  "shrinks a b \<longleftrightarrow> closing b \<and> outstanding b \<le> outstanding a \<and> dispatched b = dispatched a"

lemma shrinks_steady:
  assumes "steady a b" "active_ok a" "closing a"
  shows "shrinks a b"
  using assms by (simp add: steady_def flags_def closing_def outstanding_def shrinks_def)

lemma shrinks_trans: "shrinks a b \<Longrightarrow> shrinks b c \<Longrightarrow> shrinks a c"
  by (auto simp: shrinks_def)

lemma shrinks_start_settings:
  assumes "closing a"
  shows "shrinks a (snd (start_settings a))"
proof (cases "ac_settings_saving a \<or> ac_settings_pending a = None")
  case True
  with assms show ?thesis by (auto simp: start_settings_def shrinks_def split: option.split)
next
  case False
  then obtain s replies where p: "ac_settings_pending a = Some (s, replies)" and ns: "\<not> ac_settings_saving a"
    by auto
  let ?a = "a\<lparr>ac_settings_pending := None, ac_settings_saving := True\<rparr>" and ?t = "TkSettings s replies"
  have rest: "ac_requests_open (start_task ?t b) = ac_requests_open b"
    "ac_settings_pending (start_task ?t b) = ac_settings_pending b" for b
    by (simp_all add: start_task_def record_out_def)
  show ?thesis
    using assms p ns rest
    by (cases rule: spawn_cases [of ?t ?a])
       (simp_all add: start_settings_def shrinks_def closing_def outstanding_def)
qed

lemma shrinks_reported [simp]: "shrinks a (reported y) = shrinks a (snd y)"
proof -
  have "shrinks a (report_error e b) = shrinks a b" for e b
    by (simp add: report_error_def Let_def emit_def mark_dirty_def record_out_def set_view_def
        shrinks_def closing_def outstanding_def dispatched_def)
  then show ?thesis by (simp add: reported_def split: prod.split sum.split)
qed

lemma shrinks_settings_saved:
  assumes "active_ok a" "closing a"
  shows "shrinks a (settings_saved replies r a)"
proof -
  let ?a = "a\<lparr>ac_settings_saving := False\<rparr>"
  have a: "shrinks a ?a" "active_ok ?a" "closing ?a"
    using assms by (simp_all add: shrinks_def closing_def outstanding_def)
  have "shrinks ?a (reported (start_settings (reply_all replies x ?a)))" for x
  proof -
    let ?b = "reply_all replies x ?a"
    have "steady ?a ?b" by simp
    then have b: "shrinks ?a ?b" and act: "active_ok ?b"
      using a(2,3) by (auto intro: shrinks_steady simp: steady_def)
    then have c: "shrinks ?b (snd (start_settings ?b))"
      by (intro shrinks_start_settings) (simp add: shrinks_def)
    from b c show ?thesis by (auto intro: shrinks_trans)
  qed
  with a(1) show ?thesis by (auto simp: settings_saved_def Let_def intro: shrinks_trans)
qed

lemma shrinks_complete:
  assumes act: "active_ok a" and cl: "closing a" and p: "produces t r"
  shows "shrinks a (complete t r a)"
proof -
  have st: "shrinks a b" if "steady a b" for b using that act cl by (rule shrinks_steady)
  have stop: "stop b = b" if "shrinks a b" for b using that by (simp add: shrinks_def closing_def stop_def)
  have upd: "shrinks b c" if "steady b c" "shrinks a b" "active_ok b" for b c
    using that by (intro shrinks_steady) (simp_all add: shrinks_def)
  show ?thesis
  proof (cases "r = FPanicked")
    case True
    have "shrinks a (report_error e a)" for e by (rule st) simp
    with True show ?thesis by (simp add: stop)
  next
    case False
    show ?thesis
    proof (cases t)
      case (TkCredentials g i q s)
      have "shrinks a (a\<lparr>ac_configuring := False\<rparr>)"
        using cl by (simp add: shrinks_def closing_def outstanding_def)
      with TkCredentials False p cl show ?thesis
        by (cases r) (auto simp: credentials_ready_def closing_def Let_def)
    next
      case (TkTransmit j path)
      let ?b = "a\<lparr>ac_active := AList.delete (job_id j) (ac_active a)\<rparr>"
      have b: "shrinks a ?b" using cl by (simp add: shrinks_def closing_def outstanding_def dispatched_def)
      have "active_ok ?b"
        using act delete_subset [of "job_id j" "ac_active a"] by (auto simp: active_ok_def)
      then have "shrinks ?b (snd (sent (job_id j) q a))" for q
        using upd [OF steady_sent [OF act] b] by simp
      then have "shrinks a (reported (sent (job_id j) q a))" for q
        using shrinks_trans [OF b] by simp
      with TkTransmit False p show ?thesis by (cases r) simp_all
    next
      case (TkExport f spool)
      let ?b = "a\<lparr>ac_exporting := None\<rparr>"
      have b: "shrinks a ?b" "active_ok ?b" using cl act by (simp_all add: shrinks_def closing_def outstanding_def)
      have "shrinks a (export_done g q a)" for g q
        using shrinks_trans [OF b(1) upd [OF steady_export_done b]] .
      with TkExport False p show ?thesis by (cases r) simp_all
    next
      case (TkSettings s replies)
      with False p shrinks_settings_saved [OF act cl] show ?thesis by (cases r) auto
    next
      case (TkProfile q reply)
      have "steady a (profile_saved q reply saved a)" for saved
        using cl by (cases saved) (simp_all add: profile_saved_def closing_def)
      with TkProfile False p st show ?thesis by (cases r) auto
    next
      case (TkPreview path reply)
      with False p st show ?thesis by (cases r) auto
    next
      case (TkDocument i reply)
      with False p st show ?thesis by (cases r) auto
    next
      case TkStop
      with False p st show ?thesis by (cases r) auto
    qed
  qed
qed

text \<open>Every input shrinks the outstanding work of a closing owner, a completion by at least one.\<close>

lemma shrinks_finished:
  assumes ok: "books_ok (D, l, False) a" and cl: "closing a" and c: "completes (InFinished n r) a"
  shows "shrinks a (task_finished n r a)" "outstanding (task_finished n r a) < outstanding a"
proof -
  let ?b = "a\<lparr>ac_working := ac_working a - 1, ac_tasks := remove_nth n (ac_tasks a)\<rparr>"
  have b: "active_ok ?b" "closing ?b" "Suc (outstanding ?b) = outstanding a" "dispatched ?b = dispatched a"
    using ok cl c by (auto simp: books_ok_def books_core_def closing_def outstanding_def remove_nth_def)
  have "shrinks ?b (complete (ac_tasks a ! n) r ?b)" using b(1,2) c by (intro shrinks_complete) simp_all
  then have "shrinks ?b (task_finished n r a)" using c by (simp add: task_finished_def)
  with b(3,4) show "shrinks a (task_finished n r a)" "outstanding (task_finished n r a) < outstanding a"
    by (auto simp: shrinks_def)
qed

lemma shrinks_dispatch:
  assumes ok: "books_ok (D, l, False) a" and cl: "closing a"
  shows "shrinks a (dispatch i a)" "completes i a \<Longrightarrow> outstanding (dispatch i a) < outstanding a"
proof -
  have act: "active_ok a" using ok by (simp add: books_ok_def books_core_def)
  have refl: "shrinks a a" using cl by (simp add: shrinks_def)
  have st: "shrinks a b" if "steady a b" for b using that act cl by (rule shrinks_steady)
  have upd: "shrinks a (b\<lparr>ac_requests_open := False\<rparr>)" if "shrinks a b" for b
    using that by (simp add: shrinks_def closing_def outstanding_def dispatched_def)
  have nat: "ac_stopping a" "\<not> ac_requests_open a" using cl by (simp_all add: closing_def)
  show "shrinks a (dispatch i a)"
  proof (cases i)
    case (InFinished n r)
    with refl shrinks_finished(1) [OF ok cl, of n r] show ?thesis
      by (cases "completes i a") (auto simp: task_finished_def)
  next
    case InStop
    with upd [OF refl] nat show ?thesis by (simp add: stop_def)
  next
    case (InTransmitProgress j p)
    with st [OF steady_transmit_progress] show ?thesis by simp
  next
    case (InExportSave f)
    with st [OF steady_save_and_publish] show ?thesis by simp
  next
    case (InOffer p)
    with st [OF steady_offer] show ?thesis by simp
  next
    case (InReceived e)
    with refl st [OF steady_received] show ?thesis by simp
  next
    case InNativeClosed
    have "shrinks a (a\<lparr>ac_native_open := False\<rparr>)" by (rule st) simp
    with InNativeClosed refl nat show ?thesis by simp
  qed (use refl nat in simp_all)
  show "completes i a \<Longrightarrow> outstanding (dispatch i a) < outstanding a"
    using shrinks_finished(2) [OF ok cl] by (cases i) auto
qed

lemma shrinks_step:
  assumes ok: "books_ok (D, l, False) a" and cl: "closing a"
  shows "shrinks a (actor_step i a)" "completes i a \<Longrightarrow> outstanding (actor_step i a) < outstanding a"
proof -
  have refl: "shrinks a a" using cl by (simp add: shrinks_def)
  have none: "ac_tasks a = []" if "loop_ends a"
    using ok that by (simp add: loop_ends_def books_ok_def books_core_def)
  have comp: "\<not> completes i a" if "loop_ends a" using none [OF that] by (cases i) simp_all
  let ?b = "dispatch i a"
  note b = shrinks_dispatch [OF ok cl, of i]
  have "active_ok ?b" using books_dispatch [OF ok calm_False, of i] by (simp add: books_ok_def books_core_def)
  moreover have "closing ?b" using b(1) by (simp add: shrinks_def)
  ultimately have p: "shrinks ?b (publish ?b)" by (intro shrinks_steady) simp_all
  have s: "serve ?b = publish ?b" using b(1) by (simp add: serve_def shrinks_def closing_def)
  show "shrinks a (actor_step i a)"
    using refl shrinks_trans [OF b(1) p] s by (simp add: actor_step_def)
  show "completes i a \<Longrightarrow> outstanding (actor_step i a) < outstanding a"
    using comp b(2) p s by (auto simp: actor_step_def shrinks_def)
qed

text \<open>A closing owner: whatever arrives, no transmission starts, and enough completions end it.\<close>

lemma closing_run:
  assumes "books_ok (D, l, False) a" "closing a"
  shows "dispatched (run actor_step js a) = dispatched a \<and> closing (run actor_step js a) \<and>
    (outstanding a \<le> completions js a \<longrightarrow> loop_ends (run actor_step js a))"
  using assms
proof (induction js arbitrary: a)
  case Nil
  then show ?case by (auto simp: outstanding_def loop_ends_def closing_def books_ok_def books_core_def)
next
  case (Cons j js)
  let ?b = "actor_step j a"
  note s = shrinks_step [OF Cons.prems, of j]
  have b: "books_ok (D, l, False) ?b" "closing ?b" using Cons.prems s(1) by (auto simp: books_step shrinks_def)
  have "outstanding ?b \<le> completions js ?b" if "outstanding a \<le> completions (j # js) a"
    using that s by (cases "completes j a") (auto simp: shrinks_def)
  with Cons.IH [OF b] s(1) show ?case by (simp add: shrinks_def)
qed

lemma ended_run: "loop_ends a \<Longrightarrow> run actor_step js a = a"
  by (induction js) (simp_all add: actor_step_def)

text \<open>After the stop request the owner has ended or is closing.\<close>

lemma stop_stopping: "ac_stopping (stop a)"
proof -
  have keep: "ac_stopping (reject_all ps b) = ac_stopping b" for ps b
    by (induction ps b rule: reject_all.induct)
       (simp_all add: send_command_def observe_def record_out_def split: bool.split)
  have sp: "ac_stopping (snd (spawn TkStop b)) = ac_stopping b" for b
    by (cases rule: spawn_cases [of TkStop b]) simp_all
  have rep: "ac_stopping (reported y) = ac_stopping (snd y)" for y :: "unit acted"
  proof -
    have "ac_stopping (report_error e b) = ac_stopping b" for e b
      by (simp add: report_error_def Let_def emit_def mark_dirty_def record_out_def set_view_def)
    then show ?thesis by (simp add: reported_def split: prod.split sum.split)
  qed
  show ?thesis
    by (simp add: stop_def Let_def keep sp rep mark_dirty_def set_view_def cancel_all_active_def)
qed

lemma stop_closes:
  assumes "books_ok (D, l, False) a"
  shows "loop_ends a \<or> closing (actor_step InStop a)"
proof (cases "loop_ends a")
  case False
  let ?b = "dispatch InStop a"
  have ok: "books_ok (D, l, False) ?b" by (rule books_dispatch [OF assms calm_False])
  have cl: "closing ?b" by (simp add: closing_def stop_stopping)
  have "actor_step InStop a = publish ?b" using False cl by (simp add: actor_step_def serve_def closing_def)
  moreover have "shrinks ?b (publish ?b)"
    using ok cl by (intro shrinks_steady) (simp_all add: books_ok_def books_core_def)
  ultimately show ?thesis by (simp add: shrinks_def)
qed simp

end
