(* ===== verification/ActorSamples.thy ===== *)
theory ActorSamples
  imports ActorLives StoreProps
begin

text \<open>An engine opened on the sample store in a cooperative environment, for the witnesses.\<close>

section \<open>Sample values\<close>

definition sample_actor_env :: actor_env where
  "sample_actor_env =
     \<lparr>ae_spawn = (\<lambda>_. None), ae_room = (\<lambda>_. True), ae_accepts = (\<lambda>_. True), ae_offered = (\<lambda>_. True),
      ae_pending = (\<lambda>_ _. True), ae_now = (\<lambda>n. 5000 + n), ae_is_dir = (\<lambda>_ _. True),
      ae_is_file = (\<lambda>_ _. True), ae_mkdir = (\<lambda>_ _. None), ae_chmod = (\<lambda>_ _. None),
      ae_document = (\<lambda>_ _. Inr sample_document), ae_local_stem = (\<lambda>_. lit ''fax'')\<rparr>"

definition sample_setup :: actor_setup where
  "sample_setup =
     \<lparr>su_open = sample_world, su_limits = \<lparr>lim_outgoing = 2, lim_incoming = 1\<rparr>, su_backend = True,
      su_service = True, su_native = True, su_env = sample_actor_env, su_spool_error = None,
      su_pool_error = None\<rparr>"

lemma fresh_sample_store: "fresh_for [] sample_store"
proof -
  have "inj (\<lambda>n. lit ''new-'' @ to_decimal n)"
    by (rule injI) (simp add: to_decimal_inj)
  moreover have "lit ''new-'' @ to_decimal n \<notin> {lit ''a'', lit ''b'', lit ''c'', lit ''d''}" for n
    by (simp add: lit_def)
  ultimately show ?thesis
    by (simp add: fresh_for_def sample_store_def reliable_def sample_row_def queued_in_def)
qed

definition sample_owner :: actor where
  "sample_owner = projr (fst (actor_open sample_setup sample_store))"

lemma sample_open:
  "actor_open sample_setup sample_store = (Inr sample_owner, snd (actor_open sample_setup sample_store))"
proof -
  have "isl (fst (actor_open sample_setup sample_store)) = False" by code_simp
  then show ?thesis
    by (cases "actor_open sample_setup sample_store"; cases "fst (actor_open sample_setup sample_store)")
       (simp_all add: sample_owner_def)
qed

text \<open>The same engine after it accepted an incoming call.\<close>

definition sample_offer :: pending_incoming where
  "sample_offer =
     \<lparr>pi_id = lit ''r1'', pi_caller = lit ''+4930'', pi_destination = lit ''100'', pi_peer = lit ''sip:x@y'',
      pi_arrived = 7000, pi_profile = Some (lit ''p1''), pi_profile_name = lit ''Office'',
      pi_options = sample_settings\<rparr>"

definition sample_receiving :: actor where
  "sample_receiving = actor_step (InOffer sample_offer) (actor_start sample_owner)"

lemma sample_receiving_books: "books_ok (None, su_limits sample_setup, False) sample_receiving"
  unfolding sample_receiving_def
  by (intro books_step books_start open_books [OF sample_open wf_sample_store schema_sample_store]) simp_all

text \<open>An engine that sends nothing and has just reserved the reception of that call.\<close>

definition sample_answering :: actor where
  "sample_answering = dispatch (InOffer sample_offer) sample_owner"

lemma sample_answering_books: "books_ok (None, su_limits sample_setup, False) sample_answering"
  unfolding sample_answering_def
  by (intro books_dispatch open_books [OF sample_open wf_sample_store schema_sample_store]) simp_all

end
