(* ===== verification/ActorProps.thy ===== *)
theory ActorProps
  imports ActorStop ActorSamples "HOL-Library.While_Combinator"
begin

text \<open>
  What the engine promises to its users, from the opening of the database on: a fax is transmitted
  at most once, even across restarts; background work is bounded; the database and the work in
  progress agree; the shutdown ends.
\<close>

section \<open>The loop that starts transmissions\<close>

text \<open>One attempt starts at most one transmission and loses none.\<close>

lemma start_send_active:
  assumes ok: "books_ok d a" and r: "start_send a = (x, b)"
  shows "length (ac_active b) = length (ac_active a) \<or> length (ac_active b) = Suc (length (ac_active a))"
proof -
  have core: "books_core a" and wf: "wf_store (ac_store a)" using ok by (auto simp: books_ok_def books_core_def)
  define started where "started c j = job_changed j (put_active (job_id j) j False c)" for c j
  define P :: "actor \<Rightarrow> bool" where "P c \<longleftrightarrow>
      length (ac_active c) = length (ac_active a) \<or> length (ac_active c) = Suc (length (ac_active a))" for c
  have step: "P (snd (case claimed of
        None \<Rightarrow> (Inr (), c)
      | Some j \<Rightarrow> (case spawn (TkTransmit j (fax_path (ac_spool (started c j)) (doc_id (rq_document (job_request j)))))
            (started c j) of
          (Inr u, e) \<Rightarrow> (Inr u, e) | (Inl e, f) \<Rightarrow> sent (job_id j) (Inl e) f)))"
    if cl: "with_store claim_next a = (Inr claimed, c)" for claimed c
  proof (cases claimed)
    case None
    with with_store_okD [OF cl] show ?thesis by (auto simp: P_def)
  next
    case (Some j)
    obtain s where s: "claim_next (ac_store a) = (Inr (Some j), s)" "c = a\<lparr>ac_store := s\<rparr>"
      using with_store_okD [OF cl] Some by blast
    let ?q = "started c j"
      and ?t = "TkTransmit j (fax_path (ac_spool (started c j)) (doc_id (rq_document (job_request j))))"
    note k = claim_next_active [OF wf s(1)]
    have "job_id j \<notin> set (active_ids a)"
      using core k(1) active_not_queued [OF wf] by (auto simp: books_core_def)
    then have new: "job_id j \<notin> fst ` set (ac_active a)" by (simp add: active_ids_def)
    then have q: "ac_active ?q = ac_active a @ [(job_id j, j, False)]"
      using s(2) by (simp add: started_def update_fresh)
    show ?thesis
    proof (cases rule: spawn_cases [of ?t ?q])
      case (1 e)
      let ?c = "?q\<lparr>ac_ticks := Suc (ac_ticks ?q)\<rparr>"
      let ?d = "?c\<lparr>ac_active := AList.delete (job_id j) (ac_active ?c)\<rparr>"
      have del: "ac_active ?d = ac_active a" using new by (simp add: q delete_last)
      have act: "active_ok ?c" "active_ok ?d"
        using core k(4) q del by (auto simp: books_core_def active_ok_def)
      have "active_ids (snd (sent (job_id j) (Inl e) ?c)) = active_ids ?d"
        using steady_sent [OF act(1), of "job_id j" "Inl e"] act(2) by (simp add: steady_def)
      then have "length (ac_active (snd (sent (job_id j) (Inl e) ?c))) = length (ac_active a)"
        using del by (metis active_ids_def length_map)
      with 1 Some show ?thesis by (simp add: P_def)
    next
      case 2
      with Some q show ?thesis by (simp add: P_def)
    qed
  qed
  have P: "P (snd (with_store claim_next a))" "P a" by (simp_all add: P_def with_store_def case_prod_beta)
  have "P (snd (start_send a))"
    unfolding start_send_eq
    using P step [unfolded started_def] by (auto intro: and_then_keeps [where P = P])
  with r show ?thesis by (simp add: P_def)
qed

text \<open>The loop as the source has it: it runs while there is room, and stops after an error or an
  attempt that started nothing.\<close>

definition send_test :: "bool \<times> actor \<Rightarrow> bool" where
  "send_test s = (fst s \<and> length (ac_active (snd s)) < lim_outgoing (ac_limits (snd s)))"

definition send_body :: "bool \<times> actor \<Rightarrow> bool \<times> actor" where
  "send_body s = (case start_send (snd s) of
      (Inl e, b) \<Rightarrow> (False, report_error e b)
    | (Inr _, b) \<Rightarrow> (length (ac_active b) \<noteq> length (ac_active (snd s)), b))"

lemma send_loop_while:
  assumes "books_ok d a" "lim_outgoing (fst (snd d)) \<le> k + length (ac_active a)"
  shows "\<exists>g. while_option send_test send_body (True, a) = Some (g, send_loop k a)"
  using assms
proof (induction k arbitrary: a)
  case 0
  then have "\<not> send_test (True, a)" by (simp add: send_test_def books_ok_def)
  then show ?case by (subst while_option_unfold) auto
next
  case (Suc k)
  show ?case
  proof (cases "send_test (True, a)")
    case False
    then show ?thesis by (subst while_option_unfold) (auto simp: send_test_def)
  next
    case True
    have unfold: "while_option send_test send_body (True, a) = while_option send_test send_body (send_body (True, a))"
      using True by (subst while_option_unfold) simp
    have stop: "while_option send_test send_body (False, b) = Some (False, b)" for b
      by (subst while_option_unfold) (simp add: send_test_def)
    obtain x b where xb: "start_send a = (x, b)" by fastforce
    have b: "books_ok d b" using books_start_send [OF Suc.prems(1)] xb by simp
    note grow = start_send_active [OF Suc.prems(1) xb]
    show ?thesis
    proof (cases x)
      case (Inl e)
      with xb have "send_body (True, a) = (False, report_error e b)" by (simp add: send_body_def)
      with True xb Inl show ?thesis by (simp only: unfold stop) (auto simp: send_test_def)
    next
      case (Inr u)
      show ?thesis
      proof (cases "length (ac_active b) = length (ac_active a)")
        case same: True
        with xb Inr have "send_body (True, a) = (False, b)" by (simp add: send_body_def)
        with True xb Inr same show ?thesis by (simp only: unfold stop) (auto simp: send_test_def)
      next
        case False
        with grow Suc.prems(2) have "lim_outgoing (fst (snd d)) \<le> k + length (ac_active b)" by auto
        moreover have "send_body (True, a) = (True, b)" using xb Inr False by (simp add: send_body_def)
        moreover have "send_loop (Suc k) a = send_loop k b" using True xb Inr False by (simp add: send_test_def)
        ultimately show ?thesis using Suc.IH [OF b] by (simp only: unfold)
      qed
    qed
  qed
qed

section \<open>Properties\<close>

text \<open>
  C1: A fax is transmitted at most once. Over any number of lives of the engine on one database, each
  with its own settings and limits, ended at any point and possibly failing to open, under any
  requests, any events of the SIP service, any results or panics of the background work and any
  faults of the database, no job is ever handed to a transmitting thread twice, provided the uuids
  the store draws are distinct and new.
\<close>

theorem fax_never_transmitted_twice:
  assumes "wf_store st" "schema_ok st" "inj (env_uuid (st_env st))"
    "\<forall>n \<ge> st_ticks st. env_uuid (st_env st) n \<notin> jr_id ` set (st_jobs st)"
  shows "distinct (fst (lives ls st))"
proof -
  have "fresh_for [] st" using assms(3,4) by (simp add: fresh_for_def)
  from lives_keep [OF assms(1,2) this, of ls] show ?thesis by (simp add: fresh_for_def)
qed

theorem fax_never_transmitted_twice_witness:
  "distinct (fst (lives [(sample_setup, []), (sample_setup, [InRequest 1 (RqRetry (lit ''d''))])] sample_store)) \<and>
   fst (lives [(sample_setup, []), (sample_setup, [InRequest 1 (RqRetry (lit ''d''))])] sample_store) =
     [lit ''c'', lit ''b'', lit ''new-41'']"
proof -
  have "inj (env_uuid (st_env sample_store))"
    "\<forall>n \<ge> st_ticks sample_store. env_uuid (st_env sample_store) n \<notin> jr_id ` set (st_jobs sample_store)"
    using fresh_sample_store by (simp_all add: fresh_for_def)
  from fax_never_transmitted_twice [OF wf_sample_store schema_sample_store this]
  show ?thesis by (rule conjI) code_simp
qed

text \<open>
  C4: Background work is bounded. After any inputs at most \<open>limits.outgoing\<close> transmissions are
  outstanding, and at most one credentials lookup, one export and one settings write.
\<close>

theorem background_work_bounded:
  assumes "actor_open su st = (Inr a, t)" "wf_store st" "schema_ok st"
  shows "let ts = ac_tasks (run actor_step is (actor_start a)) in
    length (transmits ts) \<le> lim_outgoing (su_limits su) \<and> many is_credentials ts \<le> 1 \<and>
    many is_export ts \<le> 1 \<and> many is_settings ts \<le> 1"
proof -
  let ?b = "run actor_step is (actor_start a)" and ?d = "(None, su_limits su, False)"
  have "books_ok ?d ?b" using open_books [OF assms, of ?d] by (simp add: books_run books_start)
  then have b: "books_core ?b" "ac_limits ?b = su_limits su" by (simp_all add: books_ok_def)
  have "length (transmits (ac_tasks ?b)) \<le> length (active_ids ?b)"
    using b(1) size_mset_mono unfolding books_core_def by (metis size_mset)
  moreover have "of_bool x \<le> (1 :: nat)" for x by simp
  ultimately show ?thesis
    using b unfolding books_core_def Let_def by (auto simp: active_ids_def intro: order_trans)
qed

theorem background_work_bounded_witness:
  "length (transmits (ac_tasks (run actor_step [InFinished 2 (FTransmit (Inl ECancelled))]
     (actor_start sample_owner)))) \<le> 2 \<and>
   transmits (ac_tasks (actor_start sample_owner)) = [lit ''c'', lit ''b'']"
proof -
  have "lim_outgoing (su_limits sample_setup) = 2" by (simp add: sample_setup_def)
  then have "length (transmits (ac_tasks (run actor_step [InFinished 2 (FTransmit (Inl ECancelled))]
     (actor_start sample_owner)))) \<le> 2"
    using background_work_bounded [OF sample_open wf_sample_store schema_sample_store,
        of "[InFinished 2 (FTransmit (Inl ECancelled))]"] by (simp add: Let_def)
  moreover have "transmits (ac_tasks (actor_start sample_owner)) = [lit ''c'', lit ''b'']" by code_simp
  ultimately show ?thesis by (rule conjI)
qed

text \<open>
  C2: The owner's work and its database agree. After any inputs the database is well formed, every
  job in transmission is held once, under its own id, in an active state, and is \<open>Active\<close> in the
  database, and every outstanding transmitting thread transmits another one of those jobs. While the
  engine runs, and while it stops unless a worker panicked, the threads are exactly those jobs. (The
  panic of a transmitting thread leaves its job to the recovery at the next start.)
\<close>

theorem owner_agrees_with_database:
  assumes "actor_open su st = (Inr a, t)" "wf_store st" "schema_ok st"
  shows "let b = run actor_step is (actor_start a) in
    wf_store (ac_store b) \<and> distinct (active_ids b) \<and>
    (\<forall>(i, j, c) \<in> set (ac_active b). job_id j = i \<and> job_is_active (job_state j) \<and> active_in (ac_store b) i) \<and>
    mset (transmits (ac_tasks b)) \<subseteq># mset (active_ids b) \<and>
    (\<not> ac_stopping b \<or> (\<forall>n. InFinished n FPanicked \<notin> set is) \<longrightarrow>
       mset (transmits (ac_tasks b)) = mset (active_ids b))"
proof -
  let ?b = "run actor_step is (actor_start a)" and ?d = "(None, su_limits su, False)"
    and ?e = "(None, su_limits su, True)"
  have ok: "books_ok ?d ?b" using open_books [OF assms, of ?d] by (simp add: books_run books_start)
  have exact: "books_exact ?b" if "\<forall>n. InFinished n FPanicked \<notin> set is"
  proof -
    have "\<forall>i \<in> set is. calm ?e i" using that by (auto simp: calm_def)
    then have "books_ok ?e ?b"
      using open_books [OF assms, of ?e] books_start by (intro books_run_calm) simp_all
    then show ?thesis by (simp add: books_ok_def)
  qed
  show ?thesis
    using ok exact by (force simp: books_ok_def books_core_def books_exact_def active_ok_def active_ids_def Let_def)
qed

theorem owner_agrees_with_database_witness:
  "mset (transmits (ac_tasks (run actor_step [InFinished 2 (FTransmit (Inl ECancelled)), InStop] (actor_start sample_owner)))) =
   mset (active_ids (run actor_step [InFinished 2 (FTransmit (Inl ECancelled)), InStop] (actor_start sample_owner)))"
  using owner_agrees_with_database [OF sample_open wf_sample_store schema_sample_store,
      of "[InFinished 2 (FTransmit (Inl ECancelled)), InStop]"] by (simp add: Let_def)

text \<open>
  C3: The shutdown ends and starts nothing. After the stop request, whatever arrives, no further
  transmission starts, and once as many tasks have completed as were outstanding (one more for
  accepted preferences not yet written) the loop has ended.
\<close>

theorem shutdown_ends:
  assumes "actor_open su st = (Inr a, t)" "wf_store st" "schema_ok st"
    "b = run actor_step (is @ [InStop]) (actor_start a)"
  shows "dispatched (run actor_step js b) = dispatched b \<and>
    (outstanding b \<le> completions js b \<longrightarrow> loop_ends (run actor_step js b))"
proof -
  let ?d = "(None, su_limits su, False)" and ?c = "run actor_step is (actor_start a)"
  have c: "books_ok ?d ?c" using open_books [OF assms(1-3), of ?d] by (simp add: books_run books_start)
  have b: "b = actor_step InStop ?c" by (simp add: assms(4) run_append)
  show ?thesis
  proof (cases "loop_ends ?c")
    case True
    then have "b = ?c" by (simp add: b actor_step_def)
    with True show ?thesis by (simp add: ended_run)
  next
    case False
    with stop_closes [OF c] b have "closing b" by simp
    moreover have "books_ok ?d b" unfolding b by (rule books_step [OF c]) simp
    ultimately show ?thesis using closing_run by blast
  qed
qed

theorem shutdown_ends_witness:
  "loop_ends (run actor_step [InFinished 3 FStop, InFinished 2 (FTransmit (Inl ECancelled)),
       InFinished 1 (FTransmit (Inl ECancelled)), InFinished 0 FPanicked]
     (actor_step InStop (actor_start sample_owner)))"
proof -
  let ?js = "[InFinished 3 FStop, InFinished 2 (FTransmit (Inl ECancelled)),
       InFinished 1 (FTransmit (Inl ECancelled)), InFinished 0 FPanicked]"
  let ?b = "actor_step InStop (actor_start sample_owner)"
  have "outstanding ?b \<le> completions ?js ?b" by code_simp
  moreover have "?b = run actor_step ([] @ [InStop]) (actor_start sample_owner)" by simp
  ultimately show ?thesis
    using shutdown_ends [OF sample_open wf_sample_store schema_sample_store, of ?b "[]" ?js] by blast
qed

text \<open>
  The loop that starts transmissions ends. For every reachable owner the loop of the source,
  which has no bound of its own, terminates, with the result of the recursion of the model: each
  iteration but the last starts a transmission, so the limit bounds their number.
\<close>

theorem send_loop_terminates:
  assumes "actor_open su st = (Inr a, t)" "wf_store st" "schema_ok st"
    "b = run actor_step is (actor_start a)"
  shows "\<exists>g. while_option send_test send_body (True, b) = Some (g, send_loop (lim_outgoing (ac_limits b)) b)"
proof -
  let ?d = "(None, su_limits su, False)"
  have b: "books_ok ?d b" using open_books [OF assms(1-3), of ?d] assms(4) by (simp add: books_run books_start)
  then have "lim_outgoing (fst (snd ?d)) \<le> lim_outgoing (ac_limits b) + length (ac_active b)"
    by (simp add: books_ok_def)
  with b show ?thesis by (rule send_loop_while)
qed

theorem send_loop_terminates_witness:
  "\<exists>g. while_option send_test send_body (True, actor_start sample_owner) =
     Some (g, send_loop 2 (actor_start sample_owner))"
proof -
  have "lim_outgoing (ac_limits (actor_start sample_owner)) = 2" by code_simp
  with send_loop_terminates [OF sample_open wf_sample_store schema_sample_store,
      of "actor_start sample_owner" "[]"] show ?thesis by simp
qed

end
