(* ===== verification/ActorOutcomes.thy ===== *)
theory ActorOutcomes
  imports ActorSamples
begin

text \<open>
  What a user reads about one fax: the progress of a transmission never goes back, and the recorded
  outcome of a transmission or a reception is what the call established.
\<close>

section \<open>Progress\<close>

text \<open>A page report is not behind another: a later page, or no smaller a share of the same page.\<close>

definition page_le :: "page_progress option \<Rightarrow> page_progress option \<Rightarrow> bool" where
  "page_le old new \<longleftrightarrow> (\<forall>q. old = Some q \<longrightarrow> (\<exists>p. new = Some p \<and> page_advances (Some q) p))"

definition page_sound :: "page_progress option \<Rightarrow> bool" where
  "page_sound p \<longleftrightarrow> (\<forall>q. p = Some q \<longrightarrow> 0 < pp_total q)"

definition job_advanced :: "job \<Rightarrow> job \<Rightarrow> bool" where
  "job_advanced j k \<longleftrightarrow> job_id k = job_id j \<and> job_request k = job_request j \<and>
     acknowledged_pages (job_state j) \<le> acknowledged_pages (job_state k) \<and> job_bytes j \<le> job_bytes k \<and>
     (\<exists>steps. job_steps k = job_steps j @ steps) \<and> page_le (job_page_progress j) (job_page_progress k) \<and>
     (job_is_active (job_state j) \<longrightarrow> job_is_active (job_state k)) \<and>
     (page_sound (job_page_progress j) \<longrightarrow> page_sound (job_page_progress k))"

lemma page_advances_refl [simp]: "page_advances (Some p) p"
  by (simp add: page_advances_def)

lemma page_advances_trans:
  assumes "page_advances (Some p) q" "page_advances (Some q) r" "0 < pp_total q"
  shows "page_advances (Some p) r"
proof -
  have "pp_rows p * pp_total r \<le> pp_rows r * pp_total p"
    if "pp_rows p * pp_total q \<le> pp_rows q * pp_total p" "pp_rows q * pp_total r \<le> pp_rows r * pp_total q"
  proof -
    have "pp_rows p * pp_total r * pp_total q \<le> pp_rows q * pp_total r * pp_total p"
      using mult_le_mono1 [OF that(1), of "pp_total r"] by (simp add: ac_simps)
    also have "\<dots> \<le> pp_rows r * pp_total p * pp_total q"
      using mult_le_mono1 [OF that(2), of "pp_total p"] by (simp add: ac_simps)
    finally show ?thesis using assms(3) by simp
  qed
  with assms(1,2) show ?thesis by (auto simp: page_advances_def)
qed

lemma page_le_refl [simp]: "page_le p p"
  by (simp add: page_le_def)

lemma page_le_trans: "page_le p q \<Longrightarrow> page_le q r \<Longrightarrow> page_sound q \<Longrightarrow> page_le p r"
  unfolding page_le_def page_sound_def by (blast intro: page_advances_trans)

lemma job_advanced_refl [simp]: "job_advanced j j"
  by (simp add: job_advanced_def)

lemma job_advanced_trans:
  assumes "job_advanced j k" "job_advanced k l" "page_sound (job_page_progress j)"
  shows "job_advanced j l"
proof -
  have "page_le (job_page_progress j) (job_page_progress l)"
    using assms page_le_trans unfolding job_advanced_def by blast
  with assms show ?thesis by (auto simp: job_advanced_def)
qed

lemma push_step_fields [simp]:
  "job_id (push_step s t j) = job_id j" "job_request (push_step s t j) = job_request j"
  "job_state (push_step s t j) = job_state j" "job_bytes (push_step s t j) = job_bytes j"
  "job_page_progress (push_step s t j) = job_page_progress j"
  "\<exists>steps. job_steps (push_step s t j) = job_steps j @ steps"
  by (simp_all add: push_step_def)

lemma stage_state_facts [simp]: "acknowledged_pages (stage_state s) = 0" "job_is_active (stage_state s)"
  by (cases s; simp add: acknowledged_pages_def)+

lemma advance_job_advanced: "job_advanced j (advance_job now p j)"
proof (cases p)
  case (PgPage page)
  have "page_le (job_page_progress j) (Some page)" if "page_advances (job_page_progress j) page"
    using that by (auto simp: page_le_def)
  with PgPage show ?thesis by (auto simp: advance_job_def job_advanced_def page_sound_def)
next
  case (PgAcknowledged n)
  have "acknowledged_pages (JSending m) = m" for m by (simp add: acknowledged_pages_def)
  with PgAcknowledged show ?thesis by (auto simp: advance_job_def job_advanced_def Let_def)
qed (auto simp: advance_job_def job_advanced_def Let_def)

lemma job_advanced_stamp [simp]: "job_advanced j (stamp_job k st) = job_advanced j k"
  by (simp add: job_advanced_def)

text \<open>One progress message, for any job, advances the entry it is about and touches no other.\<close>

lemma store_job_active [simp]: "ac_active (snd (store_job j a)) = ac_active a"
  by (cases "update_job j (ac_store a)"; cases "fst (update_job j (ac_store a))")
     (simp_all add: store_job_def with_store_def)

lemma progress_active:
  "ac_active (snd (progress k p a)) = ac_active a \<or>
   (\<exists>j c l. map_of (ac_active a) k = Some (j, c) \<and> job_advanced j l \<and>
      ac_active (snd (progress k p a)) = AList.update k (l, c) (ac_active a))"
proof (cases "map_of (ac_active a) k")
  case None
  then show ?thesis by (simp add: progress_def)
next
  case (Some e)
  obtain j c where e: "e = (j, c)" by (cases e)
  let ?l = "advance_job (ae_now (ac_env a) (ac_ticks a)) p j"
  let ?a = "put_active k ?l c (a\<lparr>ac_ticks := Suc (ac_ticks a)\<rparr>)"
  let ?s = "stamp_job ?l (ac_store ?a)"
  have after: "ac_active (snd (and_then r (\<lambda>j b. (Inr (), if quiet then job_changed j b else b)))) =
      ac_active (snd r)" for r :: "job acted" and quiet
    by (cases r; cases "fst r") auto
  have twice: "AList.update k x (AList.update k y al) = AList.update k x al" for x y al
    by (induction al) auto
  have "ac_active (snd (progress k p a)) \<in>
      {AList.update k (?l, c) (ac_active a), AList.update k (?s, c) (ac_active a)}"
    by (simp add: progress_def Some e observe_def Let_def after twice)
  moreover have "job_advanced j ?l" "job_advanced j ?s" by (simp_all add: advance_job_advanced)
  ultimately have "\<exists>l. job_advanced j l \<and> ac_active (snd (progress k p a)) = AList.update k (l, c) (ac_active a)"
    by blast
  then show ?thesis using Some e by blast
qed

lemma transmit_progress_entry:
  assumes "map_of (ac_active a) i = Some (j, c)"
  shows "\<exists>k d. map_of (ac_active (transmit_progress m p a)) i = Some (k, d) \<and> job_advanced j k \<and> (c \<longrightarrow> d)"
proof -
  have step: "\<exists>k d. map_of (ac_active (snd (progress m p a))) i = Some (k, d) \<and> job_advanced j k \<and> (c \<longrightarrow> d)"
    using progress_active [of m p a] assms by (auto simp: update_conv)
  have cancel: "map_of (ac_active (cancel_active m b)) i =
      map_option (\<lambda>(k, d). (k, if i = m then True else d)) (map_of (ac_active b) i)" for b
  proof -
    have "map_of (map (\<lambda>(x, j, c). (x, j, if x = m then True else c)) al) i =
        map_option (\<lambda>(k, d). (k, if i = m then True else d)) (map_of al i)" for al :: "(uuid \<times> job \<times> bool) list"
      by (induction al) auto
    then show ?thesis by (simp add: cancel_active_def)
  qed
  have err: "ac_active (report_error e b) = ac_active b" for e b
    by (simp add: report_error_def Let_def emit_def mark_dirty_def record_out_def set_view_def)
  obtain x b where xb: "progress m p a = (x, b)" by fastforce
  obtain k d where kd: "map_of (ac_active b) i = Some (k, d)" "job_advanced j k" "c \<longrightarrow> d"
    using step xb by auto
  show ?thesis
  proof (cases x)
    case (Inl e)
    have "map_of (ac_active (transmit_progress m p a)) i = Some (k, if i = m then True else d)"
      using kd(1) by (simp add: transmit_progress_def xb Inl err cancel)
    with kd show ?thesis by auto
  next
    case (Inr u)
    with kd show ?thesis by (simp add: transmit_progress_def xb)
  qed
qed

section \<open>Outcomes\<close>

lemma final_state_cases:
  "final_state stopping j r =
     (case r of
        Inr rc \<Rightarrow> if rc_acknowledged rc = doc_pages (rq_document (job_request j))
                  then JSucceeded (rc_acknowledged rc)
                  else JFailed (lit ''T.30 completed with an unexpected page count'') (rc_acknowledged rc)
      | Inl e \<Rightarrow> if e = ECancelled
                 then (if stopping then JInterrupted else JCancelled (acknowledged_pages (job_state j)))
                 else JFailed (show_error e) (acknowledged_pages (job_state j)))"
  by (cases r; cases "projl r") (auto simp: final_state_def sent_state_def)

lemma sent_stored:
  assumes act: "active_ok a" and m: "map_of (ac_active a) i = Some (j, c)" "i \<notin> ac_clear_active a"
    and ok: "sent i r a = (Inr (), b)"
  shows "job_at (ac_store b) i = Some (stamp_job (j\<lparr>job_state := final_state (ac_stopping a) j r\<rparr>) (ac_store a))"
    "\<And>k. k \<noteq> i \<Longrightarrow> job_at (ac_store b) k = job_at (ac_store a) k"
    "ac_active b = AList.delete i (ac_active a)"
proof -
  let ?b = "a\<lparr>ac_active := AList.delete i (ac_active a)\<rparr>"
  let ?j = "j\<lparr>job_state := final_state (ac_stopping a) j r\<rparr>"
  have id: "job_id ?j = i" using act map_of_SomeD [OF m(1)] by (auto simp: active_ok_def)
  have "and_then (store_job ?j ?b) (\<lambda>j a. (Inr (), job_changed j a)) = (Inr (), b)"
    using ok m by (simp add: sent_def Let_def)
  then obtain k d where kd: "store_job ?j ?b = (Inr k, d)" "b = job_changed k d"
    by (cases "store_job ?j ?b"; cases "fst (store_job ?j ?b)") auto
  then obtain u s where s: "update_job ?j (ac_store a) = (Inr u, s)" "ac_store d = s" "ac_active d = ac_active ?b"
    by (cases "update_job ?j (ac_store a)"; cases "fst (update_job ?j (ac_store a))")
       (auto simp: store_job_def with_store_def)
  note at = job_at_update_job [OF s(1)]
  show "job_at (ac_store b) i = Some (stamp_job ?j (ac_store a))"
    "\<And>k. k \<noteq> i \<Longrightarrow> job_at (ac_store b) k = job_at (ac_store a) k"
    "ac_active b = AList.delete i (ac_active a)"
    using at id kd s by simp_all
qed

lemma received_fax_okD:
  assumes "received_fax i st = (Inr f, s)" "wf_store st"
  shows "received_at st i = Some f" "rf_id f = i" "s = tick st"
proof -
  obtain r where r: "find_by fr_id i (st_received st) = Some r" "fr_data r = Json f"
    using assms(1) by (auto simp: received_fax_def read_one_def decode_def dest!: statement_okD
        split: option.splits json.splits)
  then show "received_at st i = Some f" by (simp add: received_at_def)
  from r have "r \<in> set (st_received st)" "fr_id r = i" by (auto dest: find_by_SomeD)
  with r assms(2) show "rf_id f = i" by (auto simp: wf_store_def wf_received_def received_row_ok_def)
  show "s = tick st" using assms(1) received_fax_state [of i st] by simp
qed

lemma finish_reception_facts:
  "rf_id (finish_reception stopping now out transport recovery f) = rf_id f"
  "rf_outcome (finish_reception stopping now out transport recovery f) = OutReceived \<longleftrightarrow>
     (\<exists>stats. out = Inr stats \<and> 0 < ts_received_pages stats) \<and>
     (\<forall>r. recovery = Some r \<longrightarrow> incomplete_reason r = None)"
  "rf_outcome (finish_reception stopping now out transport recovery f) = OutInterrupted \<longleftrightarrow>
     out = Inl NCancelled \<and> stopping"
  "\<not> outcome_is_active (rf_outcome (finish_reception stopping now out transport recovery f))"
  by (auto simp: finish_reception_def record_outcome_def apply_report_def Let_def outcome_is_active_def
      split: sum.splits option.splits native_error.splits)

lemma retry_export_frame: "ac_store (snd (retry_export i a)) = tick (ac_store a)"
  by (cases "received_fax i (ac_store a)"; cases "fst (received_fax i (ac_store a))")
     (use received_fax_state [of i "ac_store a"] in \<open>auto simp: retry_export_def with_store_def\<close>)

section \<open>Properties\<close>

text \<open>
  C16: The progress of a transmission never goes back. Over any sequence of progress messages, for this
  job and for others, and also when recording one fails, the acknowledged pages, the transmitted bytes
  and the position on the page do not decrease, no step of the history is lost, and a cancellation is
  not taken back.
\<close>

theorem progress_never_goes_back:
  assumes "map_of (ac_active a) i = Some (j, c)" "page_sound (job_page_progress j)"
  shows "\<exists>k d. map_of (ac_active (foldl (\<lambda>a (m, p). transmit_progress m p a) a ps)) i = Some (k, d) \<and>
    job_advanced j k \<and> (c \<longrightarrow> d)"
  using assms
proof (induction ps arbitrary: a j c)
  case (Cons mp ps)
  obtain m p where mp: "mp = (m, p)" by (cases mp)
  obtain k d where kd: "map_of (ac_active (transmit_progress m p a)) i = Some (k, d)" "job_advanced j k" "c \<longrightarrow> d"
    using transmit_progress_entry [OF Cons.prems(1)] by blast
  have "page_sound (job_page_progress k)" using kd(2) Cons.prems(2) by (simp add: job_advanced_def)
  from Cons.IH [OF kd(1) this] kd Cons.prems(2) show ?case
    by (auto simp: mp intro: job_advanced_trans)
qed simp

theorem progress_never_goes_back_witness:
  "\<exists>k d. map_of (ac_active (foldl (\<lambda>a (m, p). transmit_progress m p a) (actor_start sample_owner)
      [(lit ''c'', PgAcknowledged 1), (lit ''b'', PgAcknowledged 2),
       (lit ''c'', PgPage \<lparr>pp_page = 2, pp_rows = 10, pp_total = 100\<rparr>), (lit ''c'', PgAcknowledged 0)]))
      (lit ''c'') = Some (k, d) \<and> acknowledged_pages (job_state k) \<ge> 0"
proof -
  let ?e = "map_of (ac_active (actor_start sample_owner)) (lit ''c'')"
  have "case ?e of None \<Rightarrow> False | Some (j, c) \<Rightarrow> job_page_progress j = None" by code_simp
  then obtain j c where e: "?e = Some (j, c)" and p: "job_page_progress j = None"
    by (cases ?e) auto
  have "page_sound (job_page_progress j)" by (simp add: p page_sound_def)
  from progress_never_goes_back [OF e this, of "[(lit ''c'', PgAcknowledged 1), (lit ''b'', PgAcknowledged 2),
       (lit ''c'', PgPage \<lparr>pp_page = 2, pp_rows = 10, pp_total = 100\<rparr>), (lit ''c'', PgAcknowledged 0)]"]
  show ?thesis by blast
qed

text \<open>
  C14: The recorded outcome of a transmission is what the call established. When \<open>sent\<close> succeeds for
  a job that was not cleared, the job is stored in a final state and no longer in transmission, no
  other job changes, and it has succeeded exactly when the transmitting side got a receipt for all
  its pages, is cancelled exactly when the call was cancelled by the user, and interrupted exactly
  when it was cancelled by the shutdown.
\<close>

theorem sent_records_outcome:
  assumes "active_ok a" "map_of (ac_active a) i = Some (j, c)" "i \<notin> ac_clear_active a"
    "sent i r a = (Inr (), b)"
  shows "\<exists>k. job_at (ac_store b) i = Some k \<and> job_request k = job_request j \<and>
    map_of (ac_active b) i = None \<and> (\<forall>m. m = i \<or> job_at (ac_store b) m = job_at (ac_store a) m) \<and>
    job_is_finished (job_state k) \<and>
    (\<forall>n. job_state k = JSucceeded n \<longleftrightarrow>
       (\<exists>rc. r = Inr rc \<and> rc_acknowledged rc = n \<and> n = doc_pages (rq_document (job_request j)))) \<and>
    (\<forall>n. job_state k = JCancelled n \<longleftrightarrow>
       r = Inl ECancelled \<and> \<not> ac_stopping a \<and> n = acknowledged_pages (job_state j)) \<and>
    (job_state k = JInterrupted \<longleftrightarrow> r = Inl ECancelled \<and> ac_stopping a)"
proof -
  note s = sent_stored [OF assms]
  let ?k = "stamp_job (j\<lparr>job_state := final_state (ac_stopping a) j r\<rparr>) (ac_store a)"
  have "map_of (ac_active b) i = None" by (simp add: s(3) delete_conv')
  then show ?thesis
    using s(1,2) by (intro exI [of _ ?k]) (auto simp: final_state_cases split: sum.split)
qed

theorem sent_records_outcome_witness:
  "\<exists>k. job_at (ac_store (snd (sent (lit ''c'') (Inr \<lparr>rc_acknowledged = 2\<rparr>) sample_receiving))) (lit ''c'') =
     Some k \<and> job_is_finished (job_state k)"
proof -
  let ?r = "Inr \<lparr>rc_acknowledged = 2\<rparr> :: engine_error + receipt"
  have act: "active_ok sample_receiving" using sample_receiving_books by (simp add: books_ok_def books_core_def)
  have "map_of (ac_active sample_receiving) (lit ''c'') \<noteq> None" by code_simp
  then obtain j c where e: "map_of (ac_active sample_receiving) (lit ''c'') = Some (j, c)" by auto
  have quiet: "lit ''c'' \<notin> ac_clear_active sample_receiving" by code_simp
  have "fst (sent (lit ''c'') ?r sample_receiving) = Inr ()" by code_simp
  then have "sent (lit ''c'') ?r sample_receiving = (Inr (), snd (sent (lit ''c'') ?r sample_receiving))"
    by (metis prod.collapse)
  from sent_records_outcome [OF act e quiet this] show ?thesis by blast
qed

text \<open>
  C15: The recorded outcome of a reception is what the call established. When a finished reception is
  recorded, it is no longer active; it counts as received exactly when the call completed with at
  least one page and the report, if there is one, shows a complete transmission without a bad row,
  a missing tail or an output error; it is interrupted exactly when the shutdown cancelled it; and
  its export is queued, unless it is running, done or has no content.
\<close>

theorem reception_records_outcome:
  assumes "wf_store (ac_store a)" "received (ReFinished i out transport recovery) a = (Inr (), b)"
  shows "\<exists>g. received_at (ac_store b) i = Some g \<and> \<not> outcome_is_active (rf_outcome g) \<and>
    (rf_outcome g = OutReceived \<longleftrightarrow>
       (\<exists>stats. out = Inr stats \<and> 0 < ts_received_pages stats) \<and>
       (\<forall>r. recovery = Some r \<longrightarrow> incomplete_reason r = None)) \<and>
    (rf_outcome g = OutInterrupted \<longleftrightarrow> out = Inl NCancelled \<and> ac_stopping a) \<and>
    (i \<in> set (ac_exports b) \<or> ac_exporting b = Some i \<or> is_published (rf_export g) \<or> rf_export g = XNoContent)"
proof -
  let ?g = "finish_reception (ac_stopping a) (ae_now (ac_env a) (ac_ticks a)) out transport recovery"
  obtain f s where f: "received_fax i (ac_store a) = (Inr f, s)"
    using assms(2) by (cases "received_fax i (ac_store a)"; cases "fst (received_fax i (ac_store a))")
      (auto simp: received_def with_store_def)
  note fd = received_fax_okD [OF f assms(1)]
  let ?a = "a\<lparr>ac_store := s, ac_ticks := Suc (ac_ticks a)\<rparr>"
  have "and_then (save_and_publish (?g f) ?a) (\<lambda>_. retry_export i) = (Inr (), b)"
    using assms(2) f by (simp add: received_def with_store_def observe_def)
  then obtain u c where c: "save_and_publish (?g f) ?a = (Inr u, c)" and b: "retry_export i c = (Inr (), b)"
    by (cases "save_and_publish (?g f) ?a"; cases "fst (save_and_publish (?g f) ?a)") auto
  obtain v t where t: "save_received (?g f) s = (Inr v, t)" and ct: "ac_store c = t"
    using c by (cases "save_received (?g f) s"; cases "fst (save_received (?g f) s)")
      (auto simp: save_and_publish_def with_store_def received_changed_def announce_finished_def
        announce_pdf_def emit_def mark_dirty_def record_out_def set_view_def split: if_splits export_status.splits)
  have at: "received_at t i = Some (?g f)"
    using received_at_save [OF t] fd(2) by (simp add: finish_reception_facts)
  have wf: "wf_store t" using save_received_keeps_wf [of s "?g f"] t fd(3) assms(1) by simp
  have "received_at (ac_store b) i = Some (?g f)"
    using at b ct retry_export_frame [of i c] by simp
  moreover obtain h w where h: "received_fax i t = (Inr h, w)"
    using b ct by (cases "received_fax i t"; cases "fst (received_fax i t)")
      (auto simp: retry_export_def with_store_def)
  then have "h = ?g f" using received_fax_okD(1) [OF h wf] at by simp
  then have "i \<in> set (ac_exports b) \<or> ac_exporting b = Some i \<or> is_published (rf_export (?g f)) \<or>
      rf_export (?g f) = XNoContent"
    using b ct h by (auto simp: retry_export_def with_store_def finish_reception_facts split: if_splits)
  ultimately show ?thesis
    by (intro exI [of _ "?g f"] conjI) (assumption | rule finish_reception_facts)+
qed

definition sample_read :: actor where
  "sample_read = sample_answering\<lparr>ac_store := tick (ac_store sample_answering),
     ac_ticks := Suc (ac_ticks sample_answering)\<rparr>"

definition sample_interrupted :: received_fax where
  "sample_interrupted = finish_reception False 5005 (Inl NCancelled) None None
     (projr (fst (received_fax (lit ''r1'') (ac_store sample_answering))))"

theorem reception_records_outcome_witness:
  "\<exists>g. received_at (ac_store (snd (received (ReFinished (lit ''r1'') (Inl NCancelled) None None) sample_answering)))
     (lit ''r1'') = Some g \<and> \<not> outcome_is_active (rf_outcome g)"
proof -
  let ?e = "ReFinished (lit ''r1'') (Inl NCancelled) None None"
  have wf: "wf_store (ac_store sample_answering)"
    using sample_answering_books by (simp add: books_ok_def books_core_def)
  have "received ?e sample_answering =
      and_then (save_and_publish sample_interrupted sample_read) (\<lambda>_. retry_export (lit ''r1''))"
  proof -
    have "isl (fst (received_fax (lit ''r1'') (ac_store sample_answering))) = False" by code_simp
    then obtain f where f: "received_fax (lit ''r1'') (ac_store sample_answering) = (Inr f, tick (ac_store sample_answering))"
      using received_fax_state [of "lit ''r1''" "ac_store sample_answering"]
      by (cases "received_fax (lit ''r1'') (ac_store sample_answering)";
          cases "fst (received_fax (lit ''r1'') (ac_store sample_answering))") auto
    moreover have "ac_stopping sample_answering = False"
      "ae_now (ac_env sample_answering) (ac_ticks sample_answering) = 5005" by code_simp+
    ultimately show ?thesis
      by (simp add: received_def with_store_def observe_def sample_interrupted_def sample_read_def)
  qed
  moreover have "fst (and_then (save_and_publish sample_interrupted sample_read) (\<lambda>_. retry_export (lit ''r1''))) =
      Inr ()" by code_simp
  ultimately have "received ?e sample_answering = (Inr (), snd (received ?e sample_answering))"
    by (metis prod.collapse)
  from reception_records_outcome [OF wf this] show ?thesis by blast
qed

end
