(* ===== verification/Disk.thy ===== *)
theory Disk
  imports Receive
begin

text \<open>
  The file system as the exporter uses it: regular files with their content, directories, and an
  environment that answers every operation, one tick each. An operation fails as a whole or takes
  effect, so a crash after some operation is the environment in which every later one fails.
\<close>

section \<open>State\<close>

text \<open>\<open>de_fault\<close>: the error of an operation; \<open>de_blind\<close>: a test for existence that cannot read the
  metadata and answers no (\<open>Path::exists\<close> and \<open>is_file\<close> swallow errors); \<open>de_temp\<close>: the random names
  of temporary files; \<open>de_block\<close>: how much a read returns; \<open>de_journal\<close>: the answer of the journal.\<close>

record disk_env =
  de_fault :: "nat \<Rightarrow> utext option"
  de_blind :: "nat \<Rightarrow> bool"
  de_temp :: "nat \<Rightarrow> utext"
  de_block :: "nat \<Rightarrow> nat"
  de_journal :: "nat \<Rightarrow> engine_error option"

text \<open>\<open>dk_fax\<close> is the fax the exporting thread works on, \<open>dk_saved\<close> the last one its journal accepted.\<close>

record disk =
  dk_files :: "path \<Rightarrow> byte list option"
  dk_dirs :: "path list"
  dk_env :: disk_env
  dk_ticks :: nat
  dk_fax :: received_fax
  dk_saved :: received_fax

type_synonym 'a on_disk = "(engine_error + 'a) \<times> disk"

section \<open>Operations\<close>

definition later :: "disk \<Rightarrow> disk" where
  "later d = d\<lparr>dk_ticks := Suc (dk_ticks d)\<rparr>"

definition io :: "(disk \<Rightarrow> 'a on_disk) \<Rightarrow> disk \<Rightarrow> 'a on_disk" where
  "io f d = (case de_fault (dk_env d) (dk_ticks d) of
               Some e \<Rightarrow> (Inl (EIo e), later d)
             | None \<Rightarrow> f (later d))"

definition not_found :: engine_error where
  "not_found = EIo (lit ''entity not found'')"

definition path_exists :: "path \<Rightarrow> disk \<Rightarrow> bool \<times> disk" where
  "path_exists p d =
     (\<not> de_blind (dk_env d) (dk_ticks d) \<and> (dk_files d p \<noteq> None \<or> p \<in> set (dk_dirs d)), later d)"

definition path_is_file :: "path \<Rightarrow> disk \<Rightarrow> bool \<times> disk" where
  "path_is_file p d = (\<not> de_blind (dk_env d) (dk_ticks d) \<and> dk_files d p \<noteq> None, later d)"

definition path_is_dir :: "path \<Rightarrow> disk \<Rightarrow> bool \<times> disk" where
  "path_is_dir p d = (\<not> de_blind (dk_env d) (dk_ticks d) \<and> p \<in> set (dk_dirs d), later d)"

definition read_file :: "path \<Rightarrow> disk \<Rightarrow> byte list on_disk" where
  "read_file p = io (\<lambda>d. (case dk_files d p of Some c \<Rightarrow> Inr c | None \<Rightarrow> Inl not_found, d))"

definition file_length :: "path \<Rightarrow> disk \<Rightarrow> nat on_disk" where
  "file_length p = io (\<lambda>d. (case dk_files d p of Some c \<Rightarrow> Inr (length c) | None \<Rightarrow> Inl not_found, d))"

definition sync :: "disk \<Rightarrow> unit on_disk" where
  "sync = io (\<lambda>d. (Inr (), d))"

text \<open>\<open>NamedTempFile::new_in\<close> creates a file that did not exist; dropping it removes it, if that works. The
  name is joined by a separator in any case: a directory written with a trailing one gets it doubled,
  which names the same file.\<close>

definition create_temp :: "path \<Rightarrow> disk \<Rightarrow> path on_disk" where
  "create_temp dir = io (\<lambda>d.
     let p = dir @ lit ''/'' @ de_temp (dk_env d) (dk_ticks d)
     in if dk_files d p \<noteq> None then (Inl (EIo (lit ''too many temporary files exist'')), d)
        else (Inr p, d\<lparr>dk_files := (dk_files d)(p := Some [])\<rparr>))"

definition write_temp :: "path \<Rightarrow> byte list \<Rightarrow> disk \<Rightarrow> unit on_disk" where
  "write_temp p bytes = io (\<lambda>d. (Inr (), d\<lparr>dk_files := (dk_files d)(p := Some bytes)\<rparr>))"

definition drop_temp :: "path \<Rightarrow> disk \<Rightarrow> disk" where
  "drop_temp p d = snd (io (\<lambda>d. (Inr (), d\<lparr>dk_files := (dk_files d)(p := None)\<rparr>)) d)"

text \<open>Renaming over an existing file or only onto a free name.\<close>

definition persist :: "path \<Rightarrow> path \<Rightarrow> disk \<Rightarrow> unit on_disk" where
  "persist p target = io (\<lambda>d. (Inr (), d\<lparr>dk_files := (dk_files d)(p := None, target := dk_files d p)\<rparr>))"

definition already_exists :: engine_error where
  "already_exists = EIo (lit ''File exists'')"

definition persist_noclobber :: "path \<Rightarrow> path \<Rightarrow> disk \<Rightarrow> unit on_disk" where
  "persist_noclobber p target = io (\<lambda>d.
     if dk_files d target \<noteq> None \<or> target \<in> set (dk_dirs d) then (Inl already_exists, d)
     else (Inr (), d\<lparr>dk_files := (dk_files d)(p := None, target := dk_files d p)\<rparr>))"

text \<open>A temporary file that is dropped when the rest fails. A persisted one has no file to remove.\<close>

definition with_temp :: "path \<Rightarrow> (path \<Rightarrow> disk \<Rightarrow> 'a on_disk) \<Rightarrow> disk \<Rightarrow> 'a on_disk" where
  "with_temp dir body d = and_then (create_temp dir d) (\<lambda>p d.
     case body p d of (Inl e, d) \<Rightarrow> (Inl e, drop_temp p d) | (Inr x, d) \<Rightarrow> (Inr x, d))"

datatype linked = Linked | Occupied | LinkFailed engine_error

definition hard_link :: "path \<Rightarrow> path \<Rightarrow> disk \<Rightarrow> linked \<times> disk" where
  "hard_link p target d =
     (case io (\<lambda>d. (Inr (), d)) d of
        (Inl e, d) \<Rightarrow> (LinkFailed e, d)
      | (Inr _, d) \<Rightarrow>
          if dk_files d target \<noteq> None \<or> target \<in> set (dk_dirs d) then (Occupied, d)
          else case dk_files d p of
            None \<Rightarrow> (LinkFailed not_found, d)
          | Some c \<Rightarrow> (Linked, d\<lparr>dk_files := (dk_files d)(target := Some c)\<rparr>))"

definition remove_file :: "path \<Rightarrow> disk \<Rightarrow> disk" where
  "remove_file p d = drop_temp p d"

definition set_fax :: "(received_fax \<Rightarrow> received_fax) \<Rightarrow> disk \<Rightarrow> disk" where
  "set_fax f d = d\<lparr>dk_fax := f (dk_fax d)\<rparr>"

text \<open>The journal saves the fax in the store, or fails.\<close>

definition journal :: "disk \<Rightarrow> unit on_disk" where
  "journal d = (case de_journal (dk_env d) (dk_ticks d) of
                  Some e \<Rightarrow> (Inl e, later d)
                | None \<Rightarrow> (Inr (), (later d)\<lparr>dk_saved := dk_fax d\<rparr>))"

text \<open>The loop of \<open>same_file_content\<close>: reads of at most 16 KiB, a short read is at least one byte.\<close>

definition block_size :: "disk \<Rightarrow> nat" where
  "block_size d = max 1 (min 16384 (de_block (dk_env d) (dk_ticks d)))"

function same_blocks :: "byte list \<Rightarrow> byte list \<Rightarrow> disk \<Rightarrow> bool on_disk" where
  "same_blocks left right d =
     and_then (io (\<lambda>d. (Inr (block_size d), d)) d) (\<lambda>b d.
       let n = min b (length left)
       in if n = 0 then (Inr True, d)
          else and_then (io (\<lambda>d. (if length right < n then Inl (EIo (lit ''failed to fill whole buffer'')) else Inr (), d)) d)
            (\<lambda>_ d. if take n left \<noteq> take n right then (Inr False, d)
                   else same_blocks (drop n left) (drop n right) d))"
  by pat_completeness auto
termination by (relation "measure (\<lambda>(left, _, _). length left)") auto

declare same_blocks.simps [simp del]

definition same_file_content :: "path \<Rightarrow> path \<Rightarrow> disk \<Rightarrow> bool on_disk" where
  "same_file_content a b d =
     (case path_exists b d of (found, d) \<Rightarrow>
        if \<not> found then (Inr False, d)
        else and_then (file_length a d) (\<lambda>m d. and_then (file_length b d) (\<lambda>n d.
          if m \<noteq> n then (Inr False, d)
          else and_then (read_file a d) (\<lambda>left d. and_then (read_file b d) (\<lambda>right d.
            same_blocks left right d)))))"

end
