(* ===== verification/Export.thy ===== *)
theory Export
  imports Disk ActorState
begin

text \<open>
  The export of a received fax as a PDF (\<open>export.rs\<close>): the normalisation of SpanDSP's TIFF strips,
  the independent reading of its pages, the verdict on the recovered images, and the publication
  protocol, which journals its destination, links a complete staging file to a free name and
  recognises its own publication after a crash. The TIFF decoder, the PDF writer, the JSON codec and
  the arithmetic on page sizes are the parameters of \<open>library\<close>.
\<close>

section \<open>Library\<close>

datatype colour = CGray1 | CGray8 | COther

text \<open>A page as the decoder yields it: its size, its size in points or the error of its resolution, its pixels or the
  error of reading them (\<open>None\<close>: not 8-bit samples), and the error of moving on. Sizes in points are
  the bit patterns of the \<open>f32\<close> values.\<close>

record tiff_page =
  tp_size :: "engine_error + (nat \<times> nat)"
  tp_points :: "engine_error + (nat \<times> nat)"
  tp_colour :: "engine_error + colour"
  tp_bytes :: "engine_error + byte list option"
  tp_next :: "engine_error option"

record tiff_directory =
  td_fill_order :: nat
  td_offsets :: "engine_error + nat list"
  td_lengths :: "engine_error + nat list"
  td_next :: "engine_error option"

type_synonym page_image = "(nat \<times> nat \<times> byte list) \<times> nat \<times> nat"

record library =
  li_directories :: "byte list \<Rightarrow> engine_error + tiff_directory list"
  li_pages :: "byte list \<Rightarrow> engine_error + tiff_page list"
  li_pdf :: "page_image list \<Rightarrow> bool \<Rightarrow> engine_error + byte list"
  li_report :: "nat \<Rightarrow> reception_outcome \<Rightarrow> engine_error + byte list"
  li_parse_report :: "byte list \<Rightarrow> engine_error + (nat \<times> reception_outcome)"

section \<open>Normalisation\<close>

text \<open>The strips of one directory; \<open>checked_add\<close> refuses sums beyond 64 bits.\<close>

definition strip_range :: "nat \<Rightarrow> nat \<times> nat \<Rightarrow> engine_error + (nat \<times> nat)" where
  "strip_range avail = (\<lambda>(offset, len).
     if offset + len \<ge> 2 ^ 64 then Inl (EInvalid (lit ''Invalid TIFF strip range''))
     else if offset + len > avail then Inl (EInvalid (lit ''Truncated TIFF strip''))
     else Inr (offset, offset + len))"

fun collect_ok :: "('e + 'a) list \<Rightarrow> 'e + 'a list" where
  "collect_ok [] = Inr []"
| "collect_ok (r # rs) = res_bind r (\<lambda>x. res_bind (collect_ok rs) (\<lambda>xs. Inr (x # xs)))"

definition directory_strips :: "nat \<Rightarrow> tiff_directory \<Rightarrow> engine_error + (nat \<times> nat) list" where
  "directory_strips avail t =
     (if td_fill_order t \<noteq> 2 then Inr []
      else res_bind (td_offsets t) (\<lambda>offsets. res_bind (td_lengths t) (\<lambda>lengths.
        if length offsets \<noteq> length lengths then Inl (EInvalid (lit ''Invalid TIFF strip table''))
        else collect_ok (map (strip_range avail) (zip offsets lengths)))))"

text \<open>At most \<open>n\<close> directories. The ranges form a map from their start; a later one replaces an
  earlier one.\<close>

fun scan_directories ::
  "nat \<Rightarrow> nat \<Rightarrow> tiff_directory list \<Rightarrow> (nat \<times> nat) list \<Rightarrow> nat \<Rightarrow> (nat \<times> nat) list \<times> nat \<times> utext option" where
  "scan_directories avail n [] ranges pages = (ranges, pages, None)"
| "scan_directories avail n (t # ts) ranges pages =
     (if n = 0 then (ranges, pages, None)
      else case directory_strips avail t of
        Inl e \<Rightarrow> (ranges, pages, Some (show_error e))
      | Inr strips \<Rightarrow>
          let ranges = foldl (\<lambda>m (start, stop). AList.update start stop m) ranges strips
          in if ts = [] then (ranges, Suc pages, None)
             else case td_next t of
               Some e \<Rightarrow> (ranges, Suc pages, Some (show_error e))
             | None \<Rightarrow> scan_directories avail (n - 1) ts ranges (Suc pages))"

definition reverse_range :: "nat \<Rightarrow> nat \<Rightarrow> byte list \<Rightarrow> byte list" where
  "reverse_range start stop bytes =
     take start bytes @ map word_reverse (take (stop - start) (drop start bytes)) @ drop stop bytes"

fun reverse_ranges :: "nat \<Rightarrow> (nat \<times> nat) list \<Rightarrow> byte list \<Rightarrow> engine_error + byte list" where
  "reverse_ranges previous [] bytes = Inr bytes"
| "reverse_ranges previous ((start, stop) # rs) bytes =
     (if start < previous then Inl (EInvalid (lit ''Overlapping TIFF strips''))
      else reverse_ranges stop rs (reverse_range start stop bytes))"

definition normalize :: "library \<Rightarrow> byte list \<Rightarrow> engine_error + (byte list \<times> nat \<times> utext option)" where
  "normalize lib bytes =
     res_bind (li_directories lib bytes) (\<lambda>ts.
       case scan_directories (length bytes) 250 ts [] 0 of (ranges, pages, damage) \<Rightarrow>
         res_bind (reverse_ranges 0 (sort_key fst ranges) bytes) (\<lambda>bytes. Inr (bytes, pages, damage)))"

definition normalized_tiff :: "library \<Rightarrow> path \<Rightarrow> disk \<Rightarrow> (byte list \<times> nat \<times> utext option) on_disk" where
  "normalized_tiff lib p d =
     and_then (file_length p d) (\<lambda>n d.
       if n > 128 * 1024 * 1024 then (Inl (EInvalid (lit ''Received TIFF exceeds 128 MiB'')), d)
       else and_then (read_file p d) (\<lambda>bytes d. (normalize lib bytes, d)))"

section \<open>Pages\<close>

definition unpack_pixels :: "nat \<Rightarrow> nat \<Rightarrow> byte list \<Rightarrow> byte list" where
  "unpack_pixels width height bytes =
     (let stride = (width + 7) div 8
      in concat (map (\<lambda>y. map (\<lambda>x.
           if Bit_Operations.and (bytes ! (y * stride + x div 8)) (drop_bit (x mod 8) 128) \<noteq> 0 then 255 else 0)
         [0..<width]) [0..<height]))"

definition page_pixels :: "nat \<Rightarrow> nat \<Rightarrow> colour \<Rightarrow> byte list \<Rightarrow> engine_error + byte list" where
  "page_pixels width height c bytes =
     (case c of
        CGray1 \<Rightarrow>
          if length bytes \<noteq> (width + 7) div 8 * height
          then Inl (EInvalid (lit ''Incomplete TIFF scanlines''))
          else Inr (unpack_pixels width height bytes)
      | CGray8 \<Rightarrow> Inr bytes
      | COther \<Rightarrow> Inl (EInvalid (lit ''Received TIFF is not monochrome'')))"

text \<open>One page of a known size, given the pixels read so far, its own included.\<close>

definition page_image :: "tiff_page \<Rightarrow> nat \<Rightarrow> nat \<Rightarrow> nat \<Rightarrow> engine_error + page_image" where
  "page_image p width height pixels_read =
     (if width = 0 \<or> height = 0 \<or> width * height > 40000000 \<or> pixels_read > 64000000
      then Inl (EInvalid (lit ''Received page exceeds image limits''))
      else res_bind (tp_points p) (\<lambda>points. res_bind (tp_colour p) (\<lambda>c. res_bind (tp_bytes p) (\<lambda>bytes.
        case bytes of
          None \<Rightarrow> Inl (EInvalid (lit ''Unsupported received TIFF pixels''))
        | Some bytes \<Rightarrow> res_bind (page_pixels width height c bytes) (\<lambda>pixels.
            if length pixels < width * height then Inl (EInvalid (lit ''Invalid TIFF dimensions''))
            else Inr ((width, height, pixels), points))))))"

text \<open>The closure of one page: its verdict and the pixels read after it.\<close>

definition next_page :: "tiff_page \<Rightarrow> nat \<Rightarrow> (engine_error + page_image) \<times> nat" where
  "next_page p pixels =
     (case tp_size p of
        Inl e \<Rightarrow> (Inl e, pixels)
      | Inr (width, height) \<Rightarrow>
          let pixels = pixels + width * height in (page_image p width height pixels, pixels))"

fun read_pages ::
  "nat \<Rightarrow> tiff_page list \<Rightarrow> page_image list \<Rightarrow> nat \<Rightarrow> utext option \<Rightarrow> page_image list \<times> utext option" where
  "read_pages readable [] images pixels damage = (images, damage)"
| "read_pages readable (p # ps) images pixels damage =
     (if length images \<ge> readable then (images, damage)
      else case next_page p pixels of
        (Inl e, pixels) \<Rightarrow> (images, Some (show_error e))
      | (Inr im, pixels) \<Rightarrow>
          let images = images @ [im]
          in if ps = [] then (images, damage)
             else if length images \<ge> 250
             then (images, Some (lit ''Reception exceeds the 250-page export limit''))
             else case tp_next p of
               Some e \<Rightarrow> (images, Some (show_error e))
             | None \<Rightarrow> read_pages readable ps images pixels damage)"

section \<open>The verdict\<close>

definition get_or_insert :: "utext \<Rightarrow> utext option \<Rightarrow> utext option" where
  "get_or_insert x old = (case old of None \<Rightarrow> Some x | Some y \<Rightarrow> Some y)"

definition total_damage :: "nat \<Rightarrow> utext option \<Rightarrow> received_fax \<Rightarrow> utext option" where
  "total_damage recovered damage f =
     (let damage = (case rf_recovery f of
            None \<Rightarrow> damage
          | Some r \<Rightarrow>
              let damage = (case incomplete_reason r of Some reason \<Rightarrow> get_or_insert reason damage | None \<Rightarrow> damage)
              in if length (rr_pages r) \<noteq> recovered
                 then get_or_insert (lit ''Readable images differ from finalized TIFF inventory'') damage
                 else damage)
      in if outcome_is_complete (rf_outcome f) \<and> recovered \<noteq> rf_confirmed f
         then get_or_insert (lit ''Recovered image count differs from confirmed pages'') damage
         else damage)"

fun partial_reason :: "reception_outcome \<Rightarrow> utext" where
  "partial_reason (OutFailed reason) = reason"
| "partial_reason OutInterrupted = lit ''Reception interrupted''"
| "partial_reason _ = lit ''Reception incomplete''"

definition image_verdict :: "utext option \<Rightarrow> reception_outcome \<Rightarrow> reception_outcome" where
  "image_verdict damage oc =
     (let oc = (case damage of Some reason \<Rightarrow> OutPartial (lit ''Image recovery: '' @ reason) | None \<Rightarrow> oc)
      in case oc of OutReceived \<Rightarrow> oc | OutPartial _ \<Rightarrow> oc | _ \<Rightarrow> OutPartial (partial_reason oc))"

definition assess :: "nat \<Rightarrow> utext option \<Rightarrow> received_fax \<Rightarrow> received_fax" where
  "assess recovered damage f =
     f\<lparr>rf_recovered := recovered, rf_outcome := image_verdict (total_damage recovered damage f) (rf_outcome f)\<rparr>"

section \<open>Rendering\<close>

definition spool_tiff :: "path \<Rightarrow> path" where "spool_tiff spool = join_path spool (lit ''fax.tiff'')"
definition spool_pdf :: "path \<Rightarrow> path" where "spool_pdf spool = join_path spool (lit ''received.pdf'')"
definition spool_report :: "path \<Rightarrow> path" where "spool_report spool = join_path spool (lit ''render.json'')"

definition to_bytes :: "utext \<Rightarrow> byte list" where
  "to_bytes t = map of_nat t"

text \<open>The marker that makes the PDF of a reception its own.\<close>

definition marker :: "uuid \<Rightarrow> byte list" where
  "marker i = to_bytes (lit [CHR 0x0A] @ lit ''% FAXE reception '' @ i @ lit [CHR 0x0A])"

definition no_readable :: "utext option \<Rightarrow> engine_error" where
  "no_readable damage = EInvalid (case damage of Some r \<Rightarrow> r | None \<Rightarrow> lit ''No readable image content'')"

definition write_rendering :: "library \<Rightarrow> path \<Rightarrow> page_image list \<Rightarrow> disk \<Rightarrow> unit on_disk" where
  "write_rendering lib spool images d =
     and_then (li_pdf lib images (\<not> outcome_is_complete (rf_outcome (dk_fax d))), d) (\<lambda>pdf d.
     with_temp spool (\<lambda>out d.
       and_then (write_temp out (pdf @ marker (rf_id (dk_fax d))) d) (\<lambda>_ d.
       and_then (sync d) (\<lambda>_ d.
       and_then (with_temp spool (\<lambda>rep d.
         and_then (li_report lib (rf_recovered (dk_fax d)) (rf_outcome (dk_fax d)), d) (\<lambda>json d.
         and_then (write_temp rep json d) (\<lambda>_ d.
         and_then (sync d) (\<lambda>_ d.
         persist rep (spool_report spool) d)))) d) (\<lambda>_ d.
       and_then (persist out (spool_pdf spool) d) (\<lambda>_ d.
       sync d))))) d)"

definition render :: "library \<Rightarrow> path \<Rightarrow> disk \<Rightarrow> bool on_disk" where
  "render lib spool d =
     (case path_exists (spool_tiff spool) d of (found, d) \<Rightarrow>
      and_then (if found then and_then (file_length (spool_tiff spool) d) (\<lambda>n d. (Inr (n = 0), d)) else (Inr True, d))
       (\<lambda>nothing d.
        if nothing then (Inr False, set_fax (\<lambda>f. f\<lparr>rf_export := XNoContent\<rparr>) d)
        else and_then (normalized_tiff lib (spool_tiff spool) d) (\<lambda>(bytes, readable, damage) d.
             and_then (li_pages lib bytes, d) (\<lambda>pages d.
             case read_pages readable pages [] 0 damage of (images, damage) \<Rightarrow>
               if images = [] then (Inl (no_readable damage), d)
               else and_then (write_rendering lib spool images (set_fax (assess (length images) damage) d))
                      (\<lambda>_ d. (Inr True, d))))))"

section \<open>Publication\<close>

definition staging_path :: "path \<Rightarrow> uuid \<Rightarrow> path" where
  "staging_path folder i = join_path folder (lit ''.faxe-'' @ i @ lit ''.pdf'')"

definition destination_path :: "path \<Rightarrow> utext \<Rightarrow> nat \<Rightarrow> path" where
  "destination_path folder stem n =
     join_path folder (if n = 1 then stem @ lit ''.pdf'' else stem @ lit ''-'' @ to_decimal n @ lit ''.pdf'')"

definition set_export :: "export_status \<Rightarrow> disk \<Rightarrow> disk" where
  "set_export x = set_fax (\<lambda>f. f\<lparr>rf_export := x\<rparr>)"

text \<open>The end of both ways to publish: a failure to remove the staging file is ignored.\<close>

definition finish_publication :: "path \<Rightarrow> path \<Rightarrow> disk \<Rightarrow> unit on_disk" where
  "finish_publication destination staging d =
     and_then (sync d) (\<lambda>_ d.
     and_then (journal (set_export (XPublished destination) d)) (\<lambda>_ d.
     (Inr (), remove_file staging d)))"

function link_loop :: "nat \<Rightarrow> path \<Rightarrow> path \<Rightarrow> disk \<Rightarrow> unit on_disk" where
  "link_loop suffix folder staging d =
     (if suffix > 100000 then (Inl (EInvalid (lit ''Too many receive filename collisions'')), d)
      else let destination = destination_path folder (rf_stem (dk_fax d)) suffix
           in and_then (file_length staging d) (\<lambda>n d.
              and_then (journal (set_export (XPublishing destination staging n None) d)) (\<lambda>_ d.
              case hard_link staging destination d of
                (Linked, d) \<Rightarrow> finish_publication destination staging d
              | (Occupied, d) \<Rightarrow> link_loop (Suc suffix) folder staging d
              | (LinkFailed e, d) \<Rightarrow> (Inl e, d))))"
  by pat_completeness auto
termination by (relation "measure (\<lambda>(suffix, _). 100001 - suffix)") auto

declare link_loop.simps [simp del]

text \<open>The staging file: copied from the spool and put in place only if its name is free, or the
  complete one an earlier attempt left.\<close>

definition prepare_staging :: "path \<Rightarrow> path \<Rightarrow> path \<Rightarrow> disk \<Rightarrow> unit on_disk" where
  "prepare_staging pdf folder staging d =
     (case path_exists staging d of (found, d) \<Rightarrow>
        if \<not> found
        then and_then (with_temp folder (\<lambda>t d.
               and_then (read_file pdf d) (\<lambda>bytes d. and_then (write_temp t bytes d) (\<lambda>_ d.
               and_then (sync d) (\<lambda>_ d. persist_noclobber t staging d)))) d) (\<lambda>_ d. sync d)
        else and_then (same_file_content pdf staging d) (\<lambda>same d.
               (if same then Inr ()
                else Inl (EInvalid (lit ''Export staging file changed; internal spool retained'')), d)))"

definition publish_file :: "path \<Rightarrow> disk \<Rightarrow> unit on_disk" where
  "publish_file pdf d =
     (case rs_folder (rf_options (dk_fax d)) of
        None \<Rightarrow> (Inl (EInvalid (lit ''No receive folder configured'')), d)
      | Some folder \<Rightarrow>
          (case path_is_dir folder d of (is_dir, d) \<Rightarrow>
             if \<not> is_dir then (Inl (EInvalid (lit ''Receive folder unavailable: '' @ folder)), d)
             else let staging = staging_path folder (rf_id (dk_fax d))
                  in and_then (prepare_staging pdf folder staging d) (\<lambda>_ d. link_loop 1 folder staging d)))"

text \<open>Whether the destination an earlier attempt journalled is our PDF already.\<close>

definition recognise :: "path \<Rightarrow> bool \<Rightarrow> disk \<Rightarrow> (path \<times> path) option on_disk" where
  "recognise pdf have_pdf d =
     (case rf_export (dk_fax d) of
        XPublishing destination staging _ _ \<Rightarrow>
          if \<not> have_pdf then (Inr None, d)
          else and_then (same_file_content pdf destination d) (\<lambda>same d.
                 (Inr (if same then Some (destination, staging) else None), d))
      | _ \<Rightarrow> (Inr None, d))"

definition recall_rendering :: "library \<Rightarrow> path \<Rightarrow> disk \<Rightarrow> unit on_disk" where
  "recall_rendering lib spool d =
     (case path_is_file (spool_pdf spool) d of (pdf, d) \<Rightarrow>
        if \<not> pdf then (Inr (), d)
        else case path_is_file (spool_report spool) d of (report, d) \<Rightarrow>
          if \<not> report then (Inr (), d)
          else and_then (read_file (spool_report spool) d) (\<lambda>bytes d.
               and_then (li_parse_report lib bytes, d) (\<lambda>(pages, oc) d.
               (Inr (), set_fax (\<lambda>f. f\<lparr>rf_recovered := pages, rf_outcome := oc\<rparr>) d))))"

text \<open>The rest of an export once it is known whether an earlier attempt got through.\<close>

definition render_and_publish :: "library \<Rightarrow> path \<Rightarrow> disk \<Rightarrow> unit on_disk" where
  "render_and_publish lib spool d =
     (case path_is_file (spool_pdf spool) d of (have_pdf, d) \<Rightarrow>
      and_then (if have_pdf then (Inr True, d) else render lib spool d) (\<lambda>rendered d.
      if \<not> rendered then journal d else publish_file (spool_pdf spool) d))"

definition continue_export :: "library \<Rightarrow> path \<Rightarrow> (path \<times> path) option \<Rightarrow> disk \<Rightarrow> unit on_disk" where
  "continue_export lib spool known d =
     (case known of
        Some (destination, staging) \<Rightarrow> finish_publication destination staging d
      | None \<Rightarrow> render_and_publish lib spool d)"

definition check_journal :: "library \<Rightarrow> path \<Rightarrow> disk \<Rightarrow> unit on_disk" where
  "check_journal lib spool d =
     (case (case rf_export (dk_fax d) of XPublishing _ _ _ _ \<Rightarrow> path_is_file (spool_pdf spool) d
            | _ \<Rightarrow> (False, d)) of
        (have_pdf, d) \<Rightarrow> and_then (recognise (spool_pdf spool) have_pdf d) (continue_export lib spool))"

definition export_done_already :: "export_status \<Rightarrow> bool" where
  "export_done_already x = (case x of XPublished _ \<Rightarrow> True | XNoContent \<Rightarrow> True | _ \<Rightarrow> False)"

definition export :: "library \<Rightarrow> path \<Rightarrow> disk \<Rightarrow> unit on_disk" where
  "export lib spool d =
     (if outcome_is_active (rf_outcome (dk_fax d))
      then (Inl (EInvalid (lit ''Wait for reception to finish before exporting'')), d)
      else if export_done_already (rf_export (dk_fax d)) then (Inr (), d)
      else and_then (recall_rendering lib spool d) (\<lambda>_. check_journal lib spool))"

end
