(* ===== verification/ExportInv.thy ===== *)
theory ExportInv
  imports Export
begin

text \<open>
  What the operations of the exporter keep: which of them only read, that files outside the spool and
  the staging name are never touched, and the state of the publication protocol, in which the
  journalled status always mentions the one name the fax may have been published under.
\<close>

section \<open>Operations that only read\<close>

definition quiet :: "disk \<Rightarrow> disk \<Rightarrow> bool" where
  "quiet d e \<longleftrightarrow> dk_files e = dk_files d \<and> dk_dirs e = dk_dirs d \<and> dk_env e = dk_env d \<and>
     dk_fax e = dk_fax d \<and> dk_saved e = dk_saved d"

lemma quiet_refl [simp]: "quiet d d"
  by (simp add: quiet_def)

lemma quiet_trans: "quiet d e \<Longrightarrow> quiet e f \<Longrightarrow> quiet d f"
  by (simp add: quiet_def)

lemma quiet_later [simp]: "quiet d (later e) = quiet d e" "quiet (later d) e = quiet d e"
  by (simp_all add: quiet_def later_def)

lemma later_fields [simp]:
  "dk_files (later d) = dk_files d" "dk_dirs (later d) = dk_dirs d" "dk_env (later d) = dk_env d"
  "dk_fax (later d) = dk_fax d" "dk_saved (later d) = dk_saved d"
  by (simp_all add: later_def)

lemma quiet_and_then:
  "quiet d (snd r) \<Longrightarrow> (\<And>x e. r = (Inr x, e) \<Longrightarrow> quiet e (snd (k x e))) \<Longrightarrow> quiet d (snd (and_then r k))"
  by (cases r; cases "fst r") (auto intro: quiet_trans)

lemma quiet_io: "(\<And>d. quiet d (snd (f d))) \<Longrightarrow> quiet d (snd (io f d))"
  by (simp add: io_def split: option.split) (metis quiet_later(2))

lemma quiet_reads [simp]:
  "quiet d (snd (path_exists p d))" "quiet d (snd (path_is_file p d))" "quiet d (snd (path_is_dir p d))"
  "quiet d (snd (read_file p d))" "quiet d (snd (file_length p d))" "quiet d (snd (sync d))"
  by (simp_all add: path_exists_def path_is_file_def path_is_dir_def read_file_def file_length_def
      sync_def quiet_io)

lemma eq_by_parts: "take n xs = take n ys \<Longrightarrow> (xs = ys) = (drop n xs = drop n ys)"
  by (metis append_take_drop_id)

lemma same_blocks_spec:
  "same_blocks left right d = (r, e) \<Longrightarrow>
     quiet d e \<and> (\<forall>b. r = Inr b \<longrightarrow> length left = length right \<longrightarrow> b = (left = right))"
proof (induction left right d arbitrary: r e rule: same_blocks.induct)
  case (1 left right d)
  let ?first = "io (\<lambda>d. (Inr (block_size d), d)) d"
  have q1: "quiet d (snd ?first)" by (rule quiet_io) simp
  show ?case
  proof (cases "fst ?first")
    case (Inl x)
    with 1(2) q1 show ?thesis by (subst (asm) same_blocks.simps, cases ?first) auto
  next
    case (Inr b)
    obtain d1 where f: "?first = (Inr b, d1)" using Inr by (cases ?first) auto
    have b: "b \<ge> 1" using f by (auto simp: io_def block_size_def split: option.splits)
    let ?n = "min b (length left)"
    let ?second = "io (\<lambda>d. (if length right < ?n then Inl (EIo (lit ''failed to fill whole buffer'')) else Inr (), d)) d1 ::
      unit on_disk"
    show ?thesis
    proof (cases "?n = 0")
      case True
      then have "left = []" using b by (cases left) auto
      with 1(2) f q1 show ?thesis by (subst (asm) same_blocks.simps) auto
    next
      case False
      have q2: "quiet d1 (snd ?second)" by (rule quiet_io) simp
      show ?thesis
      proof (cases "fst ?second")
        case (Inl x)
        with 1(2) f q1 q2 False show ?thesis
          by (subst (asm) same_blocks.simps, cases ?second) (auto simp: Let_def intro: quiet_trans)
      next
        case (Inr u)
        obtain d2 where g: "?second = (Inr (), d2)" using Inr by (cases ?second) auto
        have q: "quiet d d2" using q1 q2 f g by (auto intro: quiet_trans)
        show ?thesis
        proof (cases "take ?n left = take ?n right")
          case differ: False
          with 1(2) f g False q show ?thesis by (subst (asm) same_blocks.simps) auto
        next
          case True
          have rec: "same_blocks (drop ?n left) (drop ?n right) d2 = (r, e)"
            using 1(2) f g False True by (subst (asm) same_blocks.simps) (simp add: Let_def)
          have ih: "quiet d2 e \<and> (\<forall>c. r = Inr c \<longrightarrow>
              length (drop ?n left) = length (drop ?n right) \<longrightarrow> c = (drop ?n left = drop ?n right))"
            by (rule 1(1) [OF refl False _ rec]) (use True in blast)
          have eq: "(left = right) = (drop ?n left = drop ?n right)" using True by (rule eq_by_parts)
          have "quiet d e" using q ih by (blast intro: quiet_trans)
          moreover have "c = (left = right)" if "r = Inr c" "length left = length right" for c
          proof -
            have "length (drop ?n left) = length (drop ?n right)" using that(2) by simp
            with ih that(1) have "c = (drop ?n left = drop ?n right)" by blast
            then show ?thesis by (simp only: eq)
          qed
          ultimately show ?thesis by blast
        qed
      qed
    qed
  qed
qed

lemma quiet_same_file [simp]: "quiet d (snd (same_file_content a b d))"
proof -
  have blocks: "quiet e (snd (same_blocks x y e))" for x y e
    using same_blocks_spec [of x y e] by (metis prod.collapse)
  obtain f e where fe: "path_exists b d = (f, e)" by fastforce
  then have e: "quiet d e" using quiet_reads(1) [of d b] by simp
  have "quiet e (snd (and_then (file_length a e) (\<lambda>m d. and_then (file_length b d) (\<lambda>n d.
          if m \<noteq> n then (Inr False, d)
          else and_then (read_file a d) (\<lambda>left d. and_then (read_file b d) (\<lambda>right d.
            same_blocks left right d))))))"
    by (intro quiet_and_then quiet_reads) (simp add: blocks quiet_and_then)
  with e fe show ?thesis by (auto simp: same_file_content_def intro: quiet_trans)
qed

lemma read_file_okD: "read_file p d = (Inr c, e) \<Longrightarrow> dk_files d p = Some c"
  by (auto simp: read_file_def io_def split: option.splits)

lemma file_length_okD: "file_length p d = (Inr n, e) \<Longrightarrow> \<exists>c. dk_files d p = Some c \<and> n = length c"
  by (auto simp: file_length_def io_def split: option.splits)

text \<open>The comparison decides equality of two existing files.\<close>

definition sighted :: "disk \<Rightarrow> bool" where
  "sighted d \<longleftrightarrow> (\<forall>n. \<not> de_blind (dk_env d) n)"

lemma same_file_contentD:
  assumes "same_file_content a b d = (Inr r, e)"
  shows "r \<Longrightarrow> dk_files d a = dk_files d b \<and> dk_files d a \<noteq> None"
    "sighted d \<Longrightarrow> dk_files d a \<noteq> None \<Longrightarrow> r = (dk_files d a = dk_files d b)"
proof -
  obtain found d1 where p: "path_exists b d = (found, d1)" by fastforce
  have q1: "quiet d d1" using quiet_reads(1) [of d b] p by simp
  have exact: "found = (dk_files d b \<noteq> None \<or> b \<in> set (dk_dirs d))" if "sighted d"
    using that p by (auto simp: path_exists_def sighted_def)
  have main: "\<exists>x y. dk_files d a = Some x \<and> dk_files d b = Some y \<and> r = (x = y)" if found
  proof -
    have "and_then (file_length a d1) (\<lambda>m d. and_then (file_length b d) (\<lambda>n d. if m \<noteq> n then (Inr False, d)
          else and_then (read_file a d) (\<lambda>left d. and_then (read_file b d) (\<lambda>right d.
            same_blocks left right d)))) = (Inr r, e)"
      using assms p that by (simp add: same_file_content_def)
    then obtain m d2 where m: "file_length a d1 = (Inr m, d2)" and
      k: "and_then (file_length b d2) (\<lambda>n d. if m \<noteq> n then (Inr False, d)
          else and_then (read_file a d) (\<lambda>left d. and_then (read_file b d) (\<lambda>right d.
            same_blocks left right d))) = (Inr r, e)"
      by (rule and_then_okE) (rule that)
    obtain n d3 where n: "file_length b d2 = (Inr n, d3)" and
      k2: "(if m \<noteq> n then (Inr False, d3)
          else and_then (read_file a d3) (\<lambda>left d. and_then (read_file b d) (\<lambda>right d.
            same_blocks left right d))) = (Inr r, e)"
      using k by (rule and_then_okE) (rule that)
    have q: "quiet d d2" "quiet d d3"
      using q1 quiet_reads(5) [of d1 a] quiet_reads(5) [of d2 b] m n by (auto intro: quiet_trans)
    obtain x y where x: "dk_files d a = Some x" "m = length x" and y: "dk_files d b = Some y" "n = length y"
      using file_length_okD [OF m] file_length_okD [OF n] q q1 by (auto simp: quiet_def)
    show ?thesis
    proof (cases "m = n")
      case False
      with k2 x y show ?thesis by auto
    next
      case True
      then have "and_then (read_file a d3) (\<lambda>left d. and_then (read_file b d) (\<lambda>right d.
          same_blocks left right d)) = (Inr r, e)" using k2 by simp
      then obtain u d4 where u: "read_file a d3 = (Inr u, d4)"
        and k3: "and_then (read_file b d4) (\<lambda>right d. same_blocks u right d) = (Inr r, e)"
        by (rule and_then_okE) (rule that)
      obtain v d5 where v: "read_file b d4 = (Inr v, d5)" and s: "same_blocks u v d5 = (Inr r, e)"
        using k3 by (rule and_then_okE) (rule that)
      have "quiet d d4" using q quiet_reads(4) [of d3 a] u by (auto intro: quiet_trans)
      then have "u = x" "v = y" using read_file_okD [OF u] read_file_okD [OF v] q x y by (auto simp: quiet_def)
      with same_blocks_spec [OF s] True x y show ?thesis by auto
    qed
  qed
  have no: "r = False" if "\<not> found" using assms p that by (simp add: same_file_content_def)
  show "r \<Longrightarrow> dk_files d a = dk_files d b \<and> dk_files d a \<noteq> None"
    using main no by (cases found) auto
  show "sighted d \<Longrightarrow> dk_files d a \<noteq> None \<Longrightarrow> r = (dk_files d a = dk_files d b)"
    using main no exact by (cases found) auto
qed

section \<open>Existing files are kept\<close>

definition identity :: "received_fax \<Rightarrow> uuid \<times> utext \<times> receive_settings" where
  "identity f = (rf_id f, rf_stem f, rf_options f)"

text \<open>Files outside \<open>S\<close> that existed are unchanged, and the fax is still the same reception.\<close>

definition keeps :: "path set \<Rightarrow> disk \<Rightarrow> disk \<Rightarrow> bool" where
  "keeps S d e \<longleftrightarrow> (\<forall>p c. dk_files d p = Some c \<longrightarrow> p \<notin> S \<longrightarrow> dk_files e p = Some c) \<and>
     identity (dk_fax e) = identity (dk_fax d)"

text \<open>Files at \<open>K\<close> are unchanged, absent ones included, and so is the status of the export unless there
  is nothing to export.\<close>

definition fixed :: "path set \<Rightarrow> disk \<Rightarrow> disk \<Rightarrow> bool" where
  "fixed K d e \<longleftrightarrow> (\<forall>q \<in> K. dk_files e q = dk_files d q) \<and> dk_env e = dk_env d \<and>
     identity (dk_fax e) = identity (dk_fax d) \<and> dk_saved e = dk_saved d \<and>
     (rf_export (dk_fax e) = rf_export (dk_fax d) \<or> rf_export (dk_fax e) = XNoContent)"

definition temps_off :: "path set \<Rightarrow> disk \<Rightarrow> bool" where
  "temps_off K d \<longleftrightarrow> (\<forall>dir n. dir @ lit ''/'' @ de_temp (dk_env d) n \<notin> K)"

named_theorems disk_frames "which files an operation keeps"

lemma keeps_refl [simp]: "keeps S d d" and fixed_refl [simp]: "fixed K d d"
  by (simp_all add: keeps_def fixed_def)

lemma keeps_trans: "keeps S d e \<Longrightarrow> keeps S e f \<Longrightarrow> keeps S d f"
  by (simp add: keeps_def)

lemma fixed_trans: "fixed K d e \<Longrightarrow> fixed K e f \<Longrightarrow> fixed K d f"
  by (auto simp: fixed_def)

lemma quiet_keeps: "quiet d e \<Longrightarrow> keeps S d e" and quiet_fixed: "quiet d e \<Longrightarrow> fixed K d e"
  by (simp_all add: quiet_def keeps_def fixed_def)

lemma keeps_and_then:
  "keeps S d (snd r) \<Longrightarrow> (\<And>x e. r = (Inr x, e) \<Longrightarrow> keeps S e (snd (k x e))) \<Longrightarrow> keeps S d (snd (and_then r k))"
  by (cases r; cases "fst r") (auto intro: keeps_trans)

lemma fixed_and_then:
  "fixed K d (snd r) \<Longrightarrow> (\<And>x e. r = (Inr x, e) \<Longrightarrow> fixed K d e \<Longrightarrow> fixed K e (snd (k x e))) \<Longrightarrow>
   fixed K d (snd (and_then r k))"
  by (cases r; cases "fst r") (auto intro: fixed_trans)

lemma temps_fixed: "fixed K d e \<Longrightarrow> temps_off L e = temps_off L d"
  by (simp add: fixed_def temps_off_def)

lemma keeps_io: "(\<And>d. keeps S d (snd (f d))) \<Longrightarrow> keeps S d (snd (io f d))"
  by (simp add: io_def keeps_def split: option.split)

lemma fixed_later [simp]: "fixed K (later d) e = fixed K d e" "fixed K d (later e) = fixed K d e"
  by (simp_all add: fixed_def)

lemma fixed_io: "(\<And>d. fixed K d (snd (f d))) \<Longrightarrow> fixed K d (snd (io f d))"
  by (simp add: io_def split: option.split) (metis fixed_later(1))

lemma keeps_writes [disk_frames]:
  "p \<in> S \<Longrightarrow> keeps S d (snd (write_temp p bytes d))" "p \<in> S \<Longrightarrow> keeps S d (drop_temp p d)"
  "p \<in> S \<Longrightarrow> keeps S d (remove_file p d)" "p \<in> S \<Longrightarrow> t \<in> S \<Longrightarrow> keeps S d (snd (persist p t d))"
  "p \<in> S \<Longrightarrow> keeps S d (snd (persist_noclobber p t d))" "keeps S d (snd (hard_link p t d))"
  by (auto simp: write_temp_def drop_temp_def remove_file_def persist_def persist_noclobber_def hard_link_def
      io_def keeps_def split: option.splits)

lemma fixed_writes [disk_frames]:
  "p \<notin> K \<Longrightarrow> fixed K d (snd (write_temp p bytes d))" "p \<notin> K \<Longrightarrow> fixed K d (drop_temp p d)"
  "p \<notin> K \<Longrightarrow> fixed K d (remove_file p d)" "p \<notin> K \<Longrightarrow> t \<notin> K \<Longrightarrow> fixed K d (snd (persist p t d))"
  "p \<notin> K \<Longrightarrow> t \<notin> K \<Longrightarrow> fixed K d (snd (persist_noclobber p t d))"
  by (auto simp: write_temp_def drop_temp_def remove_file_def persist_def persist_noclobber_def
      io_def fixed_def split: option.splits)

lemma frames_set_fax [simp]:
  "(\<And>f. identity (g f) = identity f) \<Longrightarrow> keeps S d (set_fax g e) = keeps S d e"
  "(\<And>f. identity (g f) = identity f) \<Longrightarrow> (\<And>f. rf_export (g f) = rf_export f) \<Longrightarrow>
     fixed K d (set_fax g e) = fixed K d e"
  by (simp_all add: set_fax_def keeps_def fixed_def)

lemma identity_updates [simp]:
  "identity (f\<lparr>rf_export := x\<rparr>) = identity f" "identity (f\<lparr>rf_recovered := n, rf_outcome := oc\<rparr>) = identity f"
  "identity (assess n damage f) = identity f"
  by (simp_all add: identity_def assess_def)

lemma keeps_journal [disk_frames]: "keeps S d (snd (journal d))"
  by (simp add: journal_def keeps_def split: option.split)

lemma create_temp_okD:
  assumes "create_temp dir d = (Inr p, e)"
  shows "dk_files d p = None" "e = (later d)\<lparr>dk_files := (dk_files d)(p := Some [])\<rparr>"
    "temps_off K d \<Longrightarrow> p \<notin> K"
proof -
  have "p = dir @ lit ''/'' @ de_temp (dk_env d) (Suc (dk_ticks d)) \<and> dk_files d p = None \<and>
    e = (later d)\<lparr>dk_files := (dk_files d)(p := Some [])\<rparr>"
    using assms by (auto simp: create_temp_def io_def Let_def later_def split: option.splits if_splits)
  then show "dk_files d p = None" "e = (later d)\<lparr>dk_files := (dk_files d)(p := Some [])\<rparr>"
    "temps_off K d \<Longrightarrow> p \<notin> K" by (auto simp: temps_off_def)
qed

lemma create_temp_errD: "create_temp dir d = (Inl x, e) \<Longrightarrow> quiet d e"
  by (auto simp: create_temp_def io_def Let_def split: option.splits if_splits)

lemma keeps_with_temp [disk_frames]:
  assumes "\<And>p d. keeps (insert p S) d (snd (body p d))"
  shows "keeps S d (snd (with_temp dir body d))"
proof (cases "create_temp dir d")
  case (Pair r e)
  show ?thesis
  proof (cases r)
    case (Inl x)
    with Pair create_temp_errD [of dir d x e] show ?thesis by (simp add: with_temp_def quiet_keeps)
  next
    case (Inr p)
    note c = create_temp_okD [OF Pair [unfolded Inr]]
    obtain y f where b: "body p e = (y, f)" by fastforce
    have "keeps (insert p S) e f" using assms [of p e] b by simp
    moreover have "keeps (insert p S) f (drop_temp p f)" by (rule disk_frames) simp
    ultimately have "keeps (insert p S) e f" "keeps (insert p S) e (drop_temp p f)" by (auto intro: keeps_trans)
    moreover have "keeps S d g" if "keeps (insert p S) e g" for g
      unfolding keeps_def
    proof (intro conjI allI impI)
      fix q x assume q: "dk_files d q = Some x" "q \<notin> S"
      then have "q \<noteq> p" "dk_files e q = Some x" using c(1,2) by auto
      with q that show "dk_files g q = Some x" by (simp add: keeps_def)
    qed (use that c(2) in \<open>simp add: keeps_def\<close>)
    ultimately have "keeps S d f" "keeps S d (drop_temp p f)" by blast+
    then show ?thesis by (cases y) (simp_all add: with_temp_def Pair Inr b)
  qed
qed

lemma fixed_with_temp [disk_frames]:
  assumes off: "temps_off K d" and body: "\<And>p e. p \<notin> K \<Longrightarrow> dk_env e = dk_env d \<Longrightarrow> fixed K e (snd (body p e))"
  shows "fixed K d (snd (with_temp dir body d))"
proof (cases "create_temp dir d")
  case (Pair r e)
  show ?thesis
  proof (cases r)
    case (Inl x)
    with Pair create_temp_errD [of dir d x e] show ?thesis by (simp add: with_temp_def quiet_fixed)
  next
    case (Inr p)
    note c = create_temp_okD [OF Pair [unfolded Inr]]
    have p: "p \<notin> K" by (rule c(3) [OF off])
    obtain y f where b: "body p e = (y, f)" by fastforce
    have e: "fixed K d e" using c(2) p by (auto simp: fixed_def)
    then have "fixed K e f" using body [OF p, of e] b by (simp add: fixed_def)
    moreover have "fixed K f (drop_temp p f)" using p by (rule disk_frames)
    ultimately have "fixed K d f" "fixed K d (drop_temp p f)" using e by (auto intro: fixed_trans)
    then show ?thesis by (cases y) (simp_all add: with_temp_def Pair Inr b)
  qed
qed

section \<open>The exporter keeps other files\<close>

lemma frames_pure [simp]: "keeps S d (snd (r, d))" "fixed K d (snd (r, d))"
  by simp_all

lemma keeps_reads [disk_frames]:
  "keeps S d (snd (read_file p d))" "keeps S d (snd (file_length p d))" "keeps S d (snd (sync d))"
  "keeps S d (snd (same_file_content p q d))" "keeps S d (snd (path_exists p d))"
  "keeps S d (snd (path_is_file p d))" "keeps S d (snd (path_is_dir p d))"
  by (simp_all add: quiet_keeps)

lemma fixed_reads [disk_frames]:
  "fixed K d (snd (read_file p d))" "fixed K d (snd (file_length p d))" "fixed K d (snd (sync d))"
  "fixed K d (snd (same_file_content p q d))" "fixed K d (snd (path_exists p d))"
  "fixed K d (snd (path_is_file p d))" "fixed K d (snd (path_is_dir p d))"
  by (simp_all add: quiet_fixed)

lemma keeps_write_rendering [disk_frames]:
  assumes "spool_pdf spool \<in> S" "spool_report spool \<in> S"
  shows "keeps S d (snd (write_rendering lib spool images d))"
  unfolding write_rendering_def
  by (intro keeps_and_then keeps_with_temp frames_pure keeps_writes keeps_reads) (use assms in auto)

lemma fixed_write_rendering [disk_frames]:
  assumes "spool_pdf spool \<notin> K" "spool_report spool \<notin> K" "temps_off K d"
  shows "fixed K d (snd (write_rendering lib spool images d))"
proof -
  have off: "temps_off K e" if "dk_env e = dk_env d" for e using assms(3) that by (simp add: temps_off_def)
  show ?thesis
    unfolding write_rendering_def
    by (intro fixed_and_then fixed_with_temp frames_pure fixed_writes fixed_reads)
       (use assms off in \<open>auto simp: fixed_def\<close>)
qed

lemma case_bool_state: "(case (b, d) of (x, e) \<Rightarrow> k x e) = k b d"
  by simp

lemma keeps_render [disk_frames]:
  assumes "spool_pdf spool \<in> S" "spool_report spool \<in> S"
  shows "keeps S d (snd (render lib spool d))"
proof -
  obtain found e where f: "path_exists (spool_tiff spool) d = (found, e)" by fastforce
  have e: "keeps S d e" using quiet_keeps [OF quiet_reads(1) [of d "spool_tiff spool"]] f by simp
  have norm: "keeps S x (snd (normalized_tiff lib p x))" for p x
    unfolding normalized_tiff_def by (intro keeps_and_then keeps_reads) (auto intro!: keeps_and_then keeps_reads)
  have wr: "keeps S x (snd (write_rendering lib spool images (set_fax (assess n damage) x)))" for images n damage x
  proof -
    have "keeps S (set_fax (assess n damage) x) (snd (write_rendering lib spool images (set_fax (assess n damage) x)))"
      by (rule keeps_write_rendering [OF assms])
    moreover have "keeps S x (set_fax (assess n damage) x)" by simp
    ultimately show ?thesis by (rule keeps_trans [rotated])
  qed
  have "keeps S e (snd (render lib spool d))"
    unfolding render_def f case_bool_state
    by (intro keeps_and_then) (auto intro!: keeps_and_then keeps_reads norm wr split: prod.splits)
  with e show ?thesis by (rule keeps_trans)
qed

lemma keeps_prepare [disk_frames]:
  assumes "staging \<in> S"
  shows "keeps S d (snd (prepare_staging pdf folder staging d))"
proof -
  obtain found e where f: "path_exists staging d = (found, e)" by fastforce
  have e: "keeps S d e" using quiet_keeps [OF quiet_reads(1) [of d staging]] f by simp
  have "keeps S e (snd (prepare_staging pdf folder staging d))"
    unfolding prepare_staging_def f case_bool_state
    by (auto intro!: keeps_and_then keeps_with_temp keeps_writes keeps_reads)
  with e show ?thesis by (rule keeps_trans)
qed

text \<open>One iteration of the loop that looks for a free name.\<close>

lemma link_loop_end: "100000 < n \<Longrightarrow> quiet d (snd (link_loop n folder staging d))"
  by (subst link_loop.simps) simp

lemma link_loop_step:
  assumes "link_loop n folder staging d = (r, e)" "n \<le> 100000"
  defines "destination \<equiv> destination_path folder (rf_stem (dk_fax d)) n"
  obtains x where "file_length staging d = (Inl x, e)" "r = Inl x"
  | m d1 x where "file_length staging d = (Inr m, d1)" "r = Inl x"
      "journal (set_export (XPublishing destination staging m None) d1) = (Inl x, e)"
  | m d1 d2 x where "file_length staging d = (Inr m, d1)" "r = Inl x"
      "journal (set_export (XPublishing destination staging m None) d1) = (Inr (), d2)"
      "hard_link staging destination d2 = (LinkFailed x, e)"
  | m d1 d2 d3 where "file_length staging d = (Inr m, d1)"
      "journal (set_export (XPublishing destination staging m None) d1) = (Inr (), d2)"
      "hard_link staging destination d2 = (Occupied, d3)" "link_loop (Suc n) folder staging d3 = (r, e)"
  | m d1 d2 d3 where "file_length staging d = (Inr m, d1)"
      "journal (set_export (XPublishing destination staging m None) d1) = (Inr (), d2)"
      "hard_link staging destination d2 = (Linked, d3)" "finish_publication destination staging d3 = (r, e)"
proof -
  have eq: "link_loop n folder staging d =
      and_then (file_length staging d) (\<lambda>m d1.
      and_then (journal (set_export (XPublishing destination staging m None) d1)) (\<lambda>_ d2.
      case hard_link staging destination d2 of
        (Linked, d3) \<Rightarrow> finish_publication destination staging d3
      | (Occupied, d3) \<Rightarrow> link_loop (Suc n) folder staging d3
      | (LinkFailed x, d3) \<Rightarrow> (Inl x, d3)))"
    using assms(2) unfolding destination_def by (subst link_loop.simps) (simp add: Let_def)
  obtain fr d1 where f: "file_length staging d = (fr, d1)" by fastforce
  show thesis
  proof (cases fr)
    case (Inl x)
    with f eq assms(1) that(1) show thesis by simp
  next
    case (Inr m)
    obtain jr d2 where j: "journal (set_export (XPublishing destination staging m None) d1) = (jr, d2)" by fastforce
    show thesis
    proof (cases jr)
      case (Inl x)
      with f \<open>fr = Inr m\<close> j eq assms(1) that(2) show thesis by simp
    next
      case (Inr u)
      obtain l d3 where l: "hard_link staging destination d2 = (l, d3)" by fastforce
      show thesis
        using f \<open>fr = Inr m\<close> j Inr l eq assms(1) that(3-5) by (cases l) auto
    qed
  qed
qed

lemma keeps_set_export [simp]: "keeps S d (set_export x e) = keeps S d e"
  by (simp_all add: set_export_def)

lemma set_export_fields [simp]:
  "dk_files (set_export x d) = dk_files d" "dk_env (set_export x d) = dk_env d"
  "dk_saved (set_export x d) = dk_saved d" "dk_dirs (set_export x d) = dk_dirs d"
  "dk_fax (set_export x d) = (dk_fax d)\<lparr>rf_export := x\<rparr>" "dk_ticks (set_export x d) = dk_ticks d"
  by (simp_all add: set_export_def set_fax_def)

lemma keeps_journal_export: "keeps S d (snd (journal (set_export x d)))"
  by (simp add: journal_def keeps_def split: option.split)

lemma keeps_finish: "staging \<in> S \<Longrightarrow> keeps S d (snd (finish_publication destination staging d))"
  unfolding finish_publication_def
  by (intro keeps_and_then keeps_reads keeps_journal_export) (simp add: keeps_writes)

lemma keeps_link_loop [disk_frames]:
  assumes st: "staging \<in> S"
  shows "keeps S d (snd (link_loop n folder staging d))"
proof (induction "100001 - n" arbitrary: n d rule: less_induct)
  case less
  obtain r e where re: "link_loop n folder staging d = (r, e)" by fastforce
  show ?case
  proof (cases "n \<le> 100000")
    case False
    then show ?thesis by (simp add: link_loop_end quiet_keeps)
  next
    case True
    have len: "keeps S d y" if "file_length staging d = (x, y)" for x y using keeps_reads(2) [of S d staging] that by simp
    have jr: "keeps S x z" if "journal (set_export w x) = (y, z)" for w x y z
      using keeps_journal_export [of S x w] that by simp
    have hl: "keeps S x z" if "hard_link staging t x = (y, z)" for t x y z
      using keeps_writes(6) [of S x staging t] that by simp
    from re True have "keeps S d e"
    proof (cases rule: link_loop_step)
      case (4 m d1 d2 d3)
      have "keeps S d3 e" using less [of "Suc n" d3] 4(4) True by simp
      with 4 show ?thesis by (blast intro: keeps_trans len jr hl)
    next
      case (5 m d1 d2 d3)
      have "keeps S d3 e" using keeps_finish [OF st, of d3] 5(4) by (metis snd_conv)
      with 5 show ?thesis by (blast intro: keeps_trans len jr hl)
    qed (blast intro: keeps_trans len jr hl)+
    with re show ?thesis by simp
  qed
qed

lemma keeps_publish [disk_frames]:
  assumes "\<And>folder. rs_folder (rf_options (dk_fax d)) = Some folder \<Longrightarrow>
    staging_path folder (rf_id (dk_fax d)) \<in> S"
  shows "keeps S d (snd (publish_file pdf d))"
proof (cases "rs_folder (rf_options (dk_fax d))")
  case (Some folder)
  obtain x e where f: "path_is_dir folder d = (x, e)" by fastforce
  have q: "quiet d e" using quiet_reads(3) [of d folder] f by simp
  then have "rf_id (dk_fax e) = rf_id (dk_fax d)" by (simp add: quiet_def)
  with Some assms [OF Some] have "keeps S e (snd (publish_file pdf d))"
    by (simp add: publish_file_def f Let_def) (intro impI keeps_and_then disk_frames)
  with quiet_keeps [OF q] show ?thesis by (rule keeps_trans)
qed (simp add: publish_file_def)

lemma recall_effect:
  "keeps S d (snd (recall_rendering lib spool d))" "fixed K d (snd (recall_rendering lib spool d))"
  "dk_files (snd (recall_rendering lib spool d)) = dk_files d"
  "rf_export (dk_fax (snd (recall_rendering lib spool d))) = rf_export (dk_fax d)"
proof -
  obtain x e where x: "path_is_file (spool_pdf spool) d = (x, e)" by fastforce
  obtain y f where y: "path_is_file (spool_report spool) e = (y, f)" by fastforce
  have q: "quiet d e" "quiet d f"
    using quiet_reads(2) [of d "spool_pdf spool"] quiet_reads(2) [of e "spool_report spool"] x y
    by (auto intro: quiet_trans)
  obtain z g where z: "read_file (spool_report spool) f = (z, g)" by fastforce
  have qg: "quiet d g" using quiet_trans [OF q(2) quiet_reads(4) [of f "spool_report spool"]] z by simp
  have "snd (recall_rendering lib spool d) \<in> {e, f, g} \<or>
    (\<exists>n oc. snd (recall_rendering lib spool d) = set_fax (\<lambda>f. f\<lparr>rf_recovered := n, rf_outcome := oc\<rparr>) g)"
  proof (cases "x \<and> y")
    case True
    show ?thesis
    proof (cases "z = Inr (projr z) \<and> (\<exists>p. li_parse_report lib (projr z) = Inr p)")
      case ok: True
      then obtain n oc where "li_parse_report lib (projr z) = Inr (n, oc)" by auto
      with ok True have "recall_rendering lib spool d =
          (Inr (), set_fax (\<lambda>f. f\<lparr>rf_recovered := n, rf_outcome := oc\<rparr>) g)"
        by (cases z) (simp_all add: recall_rendering_def x y z)
      then show ?thesis by auto
    next
      case False
      with True have "snd (recall_rendering lib spool d) = g"
        by (cases z; cases "li_parse_report lib (projr z)") (auto simp: recall_rendering_def x y z)
      then show ?thesis by simp
    qed
  qed (auto simp: recall_rendering_def x y)
  then consider "quiet d (snd (recall_rendering lib spool d))"
    | n oc where "snd (recall_rendering lib spool d) = set_fax (\<lambda>f. f\<lparr>rf_recovered := n, rf_outcome := oc\<rparr>) g"
    using q qg by blast
  then show "keeps S d (snd (recall_rendering lib spool d))" "fixed K d (snd (recall_rendering lib spool d))"
    "dk_files (snd (recall_rendering lib spool d)) = dk_files d"
    "rf_export (dk_fax (snd (recall_rendering lib spool d))) = rf_export (dk_fax d)"
    using qg by (cases; simp add: quiet_keeps quiet_fixed; simp add: set_fax_def quiet_def)+
qed

lemma recognise_effect:
  assumes "recognise pdf have_pdf d = (r, e)"
  shows "quiet d e" "r = Inr (Some (destination, staging)) \<Longrightarrow>
    \<exists>n x. rf_export (dk_fax d) = XPublishing destination staging n x \<and>
      dk_files d pdf = dk_files d destination \<and> dk_files d pdf \<noteq> None"
    "r = Inr None \<Longrightarrow> sighted d \<Longrightarrow> have_pdf = (dk_files d pdf \<noteq> None) \<Longrightarrow>
      rf_export (dk_fax d) = XPublishing destination staging n x \<Longrightarrow>
      dk_files d pdf = None \<or> dk_files d destination \<noteq> dk_files d pdf"
proof -
  have same: "quiet d (snd (same_file_content pdf q d))" for q by simp
  show "quiet d e"
    using assms same
    by (auto simp: recognise_def split: export_status.splits if_splits intro!: quiet_and_then)
       (metis quiet_and_then quiet_refl same snd_conv)+
  show "r = Inr (Some (destination, staging)) \<Longrightarrow>
    \<exists>n x. rf_export (dk_fax d) = XPublishing destination staging n x \<and>
      dk_files d pdf = dk_files d destination \<and> dk_files d pdf \<noteq> None"
  proof -
    assume "r = Inr (Some (destination, staging))"
    with assms obtain n x where st: "rf_export (dk_fax d) = XPublishing destination staging n x"
      and s: "same_file_content pdf destination d = (Inr True, e)"
      by (auto simp: recognise_def split: export_status.splits if_splits elim!: and_then_okE)
    from st same_file_contentD(1) [OF s] show ?thesis by blast
  qed
  show "r = Inr None \<Longrightarrow> sighted d \<Longrightarrow> have_pdf = (dk_files d pdf \<noteq> None) \<Longrightarrow>
      rf_export (dk_fax d) = XPublishing destination staging n x \<Longrightarrow>
      dk_files d pdf = None \<or> dk_files d destination \<noteq> dk_files d pdf"
    using assms same_file_contentD(2) [of pdf destination d False]
    by (auto simp: recognise_def split: if_splits elim!: and_then_okE)
qed

text \<open>The whole exporter keeps every file outside the spool and the staging names of this fax.\<close>

definition own_files :: "path \<Rightarrow> received_fax \<Rightarrow> path set" where
  "own_files spool f = {spool_pdf spool, spool_report spool} \<union>
     {staging_path folder (rf_id f) | folder. rs_folder (rf_options f) = Some folder} \<union>
     {s. \<exists>q n x. rf_export f = XPublishing q s n x}"

lemma own_files_recalled: "identity f = identity g \<Longrightarrow> rf_export f = rf_export g \<Longrightarrow> own_files spool f = own_files spool g"
  by (simp add: own_files_def identity_def)

lemma own_files_stay:
  assumes "keeps K d e" "rf_export (dk_fax e) = rf_export (dk_fax d)"
  shows "own_files spool (dk_fax e) = own_files spool (dk_fax d)"
  using assms by (intro own_files_recalled) (simp_all add: keeps_def)

lemma keeps_render_and_publish:
  assumes own: "spool_pdf spool \<in> S" "spool_report spool \<in> S"
    and folder: "\<And>folder. rs_folder (rf_options (dk_fax d)) = Some folder \<Longrightarrow> staging_path folder (rf_id (dk_fax d)) \<in> S"
  shows "keeps S d (snd (render_and_publish lib spool d))"
proof -
  obtain h f where h: "path_is_file (spool_pdf spool) d = (h, f)" by fastforce
  have f: "keeps S d f" using quiet_keeps [OF quiet_reads(2) [of d "spool_pdf spool"]] h by simp
  let ?r = "if h then (Inr True, f) else render lib spool f"
  have ren: "keeps S f (snd ?r)" using keeps_render [OF own] by simp
  have "keeps S e (snd (if \<not> x then journal e else publish_file (spool_pdf spool) e))" if "?r = (Inr x, e)" for x e
  proof -
    have "keeps S d e" using keeps_trans [OF f ren] that by simp
    then have "identity (dk_fax e) = identity (dk_fax d)" by (simp add: keeps_def)
    with folder show ?thesis by (auto simp: identity_def intro: keeps_journal keeps_publish)
  qed
  with ren have "keeps S f (snd (and_then ?r (\<lambda>x e. if \<not> x then journal e else publish_file (spool_pdf spool) e)))"
    by (rule keeps_and_then)
  with f show ?thesis by (auto simp: render_and_publish_def h intro: keeps_trans)
qed

lemma keeps_check_journal:
  assumes S: "S = own_files spool (dk_fax d)"
  shows "keeps S d (snd (check_journal lib spool d))"
proof -
  let ?pdf = "spool_pdf spool"
  obtain h f where hf: "(case rf_export (dk_fax d) of XPublishing _ _ _ _ \<Rightarrow> path_is_file ?pdf d | _ \<Rightarrow> (False, d)) = (h, f)"
    by fastforce
  have qf: "quiet d f" using hf by (auto split: export_status.splits) (metis snd_conv quiet_reads(2))
  obtain k g where k: "recognise ?pdf h f = (k, g)" by fastforce
  note rec = recognise_effect [OF k]
  have g: "quiet d g" "quiet f g" using quiet_trans [OF qf rec(1)] rec(1) .
  have "keeps S g (snd (continue_export lib spool known g))" if "k = Inr known" for known
  proof (cases known)
    case None
    have "spool_pdf spool \<in> S" "spool_report spool \<in> S" by (simp_all add: S own_files_def)
    moreover have "staging_path folder (rf_id (dk_fax g)) \<in> S"
      if "rs_folder (rf_options (dk_fax g)) = Some folder" for folder
      using that g(1) by (auto simp: S own_files_def quiet_def)
    ultimately show ?thesis using None by (simp add: continue_export_def keeps_render_and_publish)
  next
    case (Some qs)
    obtain q s where qs: "qs = (q, s)" by (cases qs)
    have "s \<in> S" using rec(2) [of q s] that Some qs qf by (auto simp: S own_files_def quiet_def)
    then show ?thesis using Some qs by (simp add: continue_export_def keeps_finish)
  qed
  then have "keeps S f (snd (and_then (recognise ?pdf h f) (continue_export lib spool)))"
    using k quiet_keeps [OF g(2)] by (intro keeps_and_then) auto
  with quiet_keeps [OF qf] show ?thesis by (auto simp: check_journal_def hf intro: keeps_trans)
qed

lemma keeps_export: "keeps (own_files spool (dk_fax d)) d (snd (export lib spool d))"
proof -
  have "keeps (own_files spool (dk_fax d)) e (snd (check_journal lib spool e))"
    if "recall_rendering lib spool d = (Inr (), e)" for e
  proof (rule keeps_check_journal)
    show "own_files spool (dk_fax d) = own_files spool (dk_fax e)"
      using own_files_stay [OF recall_effect(1,4)] that by (metis snd_conv)
  qed
  then show ?thesis
    by (simp add: export_def) (intro impI keeps_and_then recall_effect(1); simp)
qed

end
