(* ===== verification/ExportOnce.thy ===== *)
theory ExportOnce
  imports ExportInv Actor
begin

text \<open>
  Publication at most once. The state of the protocol after any number of attempts, each of which may
  crash or fail at any operation: a name of the receive folder that gained a file holds the rendered
  PDF, and both the record in memory and the journalled one mention that name.
\<close>

section \<open>Places\<close>

definition names :: "received_fax \<Rightarrow> path set" where
  "names f = {destination_path folder (rf_stem f) n | folder n. rs_folder (rf_options f) = Some folder}"

definition stagings :: "received_fax \<Rightarrow> path set" where
  "stagings f = {staging_path folder (rf_id f) | folder. rs_folder (rf_options f) = Some folder}"

definition well_placed :: "path \<Rightarrow> received_fax \<Rightarrow> bool" where
  "well_placed spool f \<longleftrightarrow> spool_pdf spool \<notin> names f \<union> stagings f \<and> spool_report spool \<notin> names f \<and>
     stagings f \<inter> names f = {}"

definition ready :: "path \<Rightarrow> received_fax \<Rightarrow> disk \<Rightarrow> bool" where
  "ready spool f d \<longleftrightarrow> sighted d \<and> temps_off (insert (spool_pdf spool) (names f \<union> stagings f)) d"

lemma names_identity:
  assumes "identity f = identity g"
  shows "names f = names g" "stagings f = stagings g"
proof -
  have "rf_id f = rf_id g" "rf_stem f = rf_stem g" "rf_options f = rf_options g"
    using assms by (simp_all add: identity_def)
  then show "names f = names g" "stagings f = stagings g"
    unfolding names_def stagings_def by (simp_all only:)
qed

lemma ready_env: "dk_env e = dk_env d \<Longrightarrow> ready spool f e = ready spool f d"
  unfolding ready_def sighted_def temps_off_def by (simp only:)

lemma ready_fixed: "fixed K d e \<Longrightarrow> ready spool f e = ready spool f d"
  by (rule ready_env) (simp add: fixed_def)

lemma temps_off_mono: "temps_off K d \<Longrightarrow> L \<subseteq> K \<Longrightarrow> temps_off L d"
  by (auto simp: temps_off_def)

lemma fixed_env: "fixed K d e \<Longrightarrow> dk_env e = dk_env d"
  by (simp add: fixed_def)

lemma fixed_mono: "fixed K d e \<Longrightarrow> L \<subseteq> K \<Longrightarrow> fixed L d e"
  by (auto simp: fixed_def)

section \<open>The state of the protocol\<close>

fun mentions :: "export_status \<Rightarrow> path \<Rightarrow> bool" where
  "mentions (XPublishing q _ _ _) p = (q = p)"
| "mentions (XPublished q) p = (q = p)"
| "mentions _ p = False"

fun staged_at :: "path set \<Rightarrow> export_status \<Rightarrow> bool" where
  "staged_at S (XPublishing _ s _ _) = (s \<in> S)"
| "staged_at S _ = True"

definition own_record :: "received_fax \<Rightarrow> received_fax \<Rightarrow> bool" where
  "own_record f g \<longleftrightarrow> identity g = identity f \<and> staged_at (stagings f) (rf_export g)"

definition sound :: "path \<Rightarrow> received_fax \<Rightarrow> (path \<Rightarrow> byte list option) \<Rightarrow> disk \<Rightarrow> bool" where
  "sound spool f orig d \<longleftrightarrow> own_record f (dk_fax d) \<and> own_record f (dk_saved d) \<and>
     (\<forall>q \<in> names f. dk_files d q \<noteq> orig q \<longrightarrow>
        orig q = None \<and> dk_files d q = dk_files d (spool_pdf spool) \<and> dk_files d (spool_pdf spool) \<noteq> None \<and>
        mentions (rf_export (dk_fax d)) q \<and> mentions (rf_export (dk_saved d)) q)"

text \<open>Nothing is published yet.\<close>

definition unstarted :: "received_fax \<Rightarrow> (path \<Rightarrow> byte list option) \<Rightarrow> disk \<Rightarrow> bool" where
  "unstarted f orig d \<longleftrightarrow> own_record f (dk_fax d) \<and> own_record f (dk_saved d) \<and>
     (\<forall>q \<in> names f. dk_files d q = orig q)"

lemma unstarted_sound: "unstarted f orig d \<Longrightarrow> sound spool f orig d"
  by (simp add: unstarted_def sound_def)

lemma own_record_fixed: "own_record f (dk_fax d) \<Longrightarrow> fixed K d e \<Longrightarrow> own_record f (dk_fax e)"
  by (auto simp: own_record_def fixed_def)

lemma unstarted_fixed: "unstarted f orig d \<Longrightarrow> fixed K d e \<Longrightarrow> names f \<subseteq> K \<Longrightarrow> unstarted f orig e"
  using own_record_fixed [of f d K e] by (auto simp: unstarted_def fixed_def)

lemma sound_quiet: "sound spool f orig d \<Longrightarrow> quiet d e \<Longrightarrow> sound spool f orig e"
  unfolding sound_def quiet_def by (elim conjE) (simp only: simp_thms ball_simps)

text \<open>If no status mentions a name whose file is the PDF, nothing is published yet.\<close>

lemma sound_unstarted:
  assumes "sound spool f orig d"
    and "\<And>q. mentions (rf_export (dk_fax d)) q \<Longrightarrow> q \<in> names f \<Longrightarrow>
      dk_files d (spool_pdf spool) = None \<or> dk_files d q \<noteq> dk_files d (spool_pdf spool)"
  shows "unstarted f orig d"
  using assms unfolding sound_def unstarted_def by blast

section \<open>Effects of the single operations\<close>

lemma journal_effect:
  assumes "journal (set_export x d) = (r, e)"
  shows "dk_files e = dk_files d" "dk_env e = dk_env d" "dk_fax e = (dk_fax d)\<lparr>rf_export := x\<rparr>"
    "dk_saved e = (if r = Inr () then (dk_fax d)\<lparr>rf_export := x\<rparr> else dk_saved d)" "dk_dirs e = dk_dirs d"
  using assms by (auto simp: journal_def split: option.splits)

lemma hard_link_effect:
  "hard_link p t d = (LinkFailed x, e) \<Longrightarrow> quiet d e"
  "hard_link p t d = (Occupied, e) \<Longrightarrow> quiet d e \<and> (dk_files d t \<noteq> None \<or> t \<in> set (dk_dirs d))"
  "hard_link p t d = (Linked, e) \<Longrightarrow> dk_files d t = None \<and> dk_files d p \<noteq> None \<and>
     dk_files e = (dk_files d)(t := dk_files d p) \<and> dk_env e = dk_env d \<and> dk_fax e = dk_fax d \<and>
     dk_saved e = dk_saved d \<and> dk_dirs e = dk_dirs d"
  by (auto simp: hard_link_def io_def quiet_def split: option.splits if_splits)

lemma removal_effect:
  "dk_files (remove_file p d) q = (if q = p \<and> dk_files (remove_file p d) p = None then None else dk_files d q)"
  "dk_env (remove_file p d) = dk_env d" "dk_fax (remove_file p d) = dk_fax d"
  "dk_saved (remove_file p d) = dk_saved d" "dk_dirs (remove_file p d) = dk_dirs d"
  by (auto simp: remove_file_def drop_temp_def io_def split: option.splits)

section \<open>Linking and finishing\<close>

lemma finish_sound:
  assumes d: "sound spool f orig d" "rf_export (dk_fax d) = XPublishing q st n x" "st \<in> stagings f"
    and place: "well_placed spool f"
    and run: "finish_publication q st d = (r, e)"
  shows "sound spool f orig e"
proof -
  obtain sr d1 where s: "sync d = (sr, d1)" by fastforce
  have q1: "quiet d d1" using quiet_reads(6) [of d] s by simp
  then have d1: "sound spool f orig d1" by (rule sound_quiet [OF d(1)])
  have pub: "rf_export (dk_fax d1) = XPublishing q st n x" using q1 d(2) by (simp add: quiet_def)
  show ?thesis
  proof (cases sr)
    case (Inl y)
    with run s d1 show ?thesis by (simp add: finish_publication_def)
  next
    case (Inr u)
    obtain jr d2 where j: "journal (set_export (XPublished q) d1) = (jr, d2)" by fastforce
    note je = journal_effect [OF j]
    have d2: "sound spool f orig d2"
      using d1 pub by (auto simp: sound_def je own_record_def)
    show ?thesis
    proof (cases jr)
      case (Inl y)
      with run s Inr j d2 show ?thesis by (simp add: finish_publication_def)
    next
      case ok: (Inr v)
      then have e: "e = remove_file st d2" using run s Inr j by (simp add: finish_publication_def)
      have "spool_pdf spool \<noteq> st" "st \<notin> names f" using place d(3) by (auto simp: well_placed_def)
      then have "dk_files e p = dk_files d2 p" if "p \<in> insert (spool_pdf spool) (names f)" for p
        using that removal_effect(1) [of st d2 p] unfolding e by (cases "p = st") (blast, simp)
      moreover have "dk_fax e = dk_fax d2" "dk_saved e = dk_saved d2" by (simp_all add: e removal_effect)
      ultimately show ?thesis using d2 by (auto simp: sound_def)
    qed
  qed
qed

lemma link_loop_sound:
  assumes "unstarted f orig d" "dk_files d st = dk_files d (spool_pdf spool)" "well_placed spool f"
    and st: "st \<in> stagings f" "rs_folder (rf_options f) = Some folder"
    and "link_loop n folder st d = (r, e)"
  shows "sound spool f orig e"
  using assms(1,2,6)
proof (induction "100001 - n" arbitrary: n d rule: less_induct)
  case less
  let ?t = "destination_path folder (rf_stem (dk_fax d)) n"
  have stem: "rf_stem (dk_fax d) = rf_stem f" using less.prems(1) by (simp add: unstarted_def own_record_def identity_def)
  then have t: "?t \<in> names f" using st(2) by (auto simp: names_def)
  have sound: "sound spool f orig e'" if "quiet d e'" for e'
    using unstarted_sound [OF less.prems(1)] that by (rule sound_quiet)
  show ?case
  proof (cases "n \<le> 100000")
    case False
    then show ?thesis using link_loop_end [of n d folder st] less.prems(3) by (auto intro: sound)
  next
    case True
    have len: "quiet d d1" if "file_length st d = (x, d1)" for x d1 using quiet_reads(5) [of d st] that by simp
    have un: "unstarted f orig d2 \<and> dk_files d2 = dk_files d \<and> rf_export (dk_fax d2) = XPublishing ?t st m None \<and>
        (x = Inr () \<longrightarrow> rf_export (dk_saved d2) = XPublishing ?t st m None)"
      if "file_length st d = (y, d1)" "journal (set_export (XPublishing ?t st m None) d1) = (x, d2)" for m x y d1 d2
      using journal_effect [OF that(2)] len [OF that(1)] less.prems(1) st(1)
      by (auto simp: unstarted_def own_record_def quiet_def)
    from less.prems(3) True show ?thesis
    proof (cases rule: link_loop_step)
      case (1 x)
      then show ?thesis by (intro sound len)
    next
      case (2 m d1 x)
      then show ?thesis using un [OF 2(1,3)] by (blast intro: unstarted_sound)
    next
      case (3 m d1 d2 x)
      have "quiet d2 e" using hard_link_effect(1) [OF 3(4)] .
      then show ?thesis using un [OF 3(1,3)] by (blast intro: unstarted_sound sound_quiet)
    next
      case (4 m d1 d2 d3)
      have q: "quiet d2 d3" using hard_link_effect(2) [OF 4(3)] by simp
      have "unstarted f orig d3" "dk_files d3 st = dk_files d3 (spool_pdf spool)"
        using un [OF 4(1,2)] q less.prems(2) by (auto simp: unstarted_def quiet_def)
      then show ?thesis using less(1) [of "Suc n" d3] 4(4) True by simp
    next
      case (5 m d1 d2 d3)
      note l = hard_link_effect(3) [OF 5(3)] and u = un [OF 5(1,2)]
      have pdf: "spool_pdf spool \<noteq> ?t" "spool_pdf spool \<notin> names f" "?t \<noteq> st"
        using assms(3) t st by (auto simp: well_placed_def)
      have "sound spool f orig d3"
        using l u pdf less.prems(2) by (auto simp: unstarted_def sound_def)
      then show ?thesis
        by (rule finish_sound [OF _ _ st(1) assms(3) 5(4)]) (use l u in simp)
    qed
  qed
qed

section \<open>Preparing\<close>

lemma fixed_render:
  assumes "spool_pdf spool \<notin> K" "spool_report spool \<notin> K" "temps_off K d"
  shows "fixed K d (snd (render lib spool d))"
proof -
  obtain found e where f: "path_exists (spool_tiff spool) d = (found, e)" by fastforce
  have e: "fixed K d e" using quiet_fixed [OF quiet_reads(1) [of d "spool_tiff spool"]] f by simp
  have none: "fixed K x (set_fax (\<lambda>f. f\<lparr>rf_export := XNoContent\<rparr>) x)" for x
    by (simp add: fixed_def set_fax_def)
  have norm: "fixed K x (snd (normalized_tiff lib p x))" for p x
    unfolding normalized_tiff_def by (intro fixed_and_then fixed_reads) (auto intro!: fixed_and_then fixed_reads)
  have env: "dk_env e = dk_env d" using e by (simp add: fixed_def)
  have wr: "fixed K x (snd (write_rendering lib spool images (set_fax (assess n damage) x)))"
    if "dk_env x = dk_env e" for images n damage x
  proof -
    have x: "fixed K x (set_fax (assess n damage) x)" by (simp add: assess_def)
    have "temps_off K (set_fax (assess n damage) x)"
      using assms(3) that env by (simp add: temps_off_def set_fax_def)
    from fixed_write_rendering [OF assms(1,2) this] show ?thesis by (rule fixed_trans [OF x])
  qed
  have "fixed K e (snd (render lib spool d))"
    unfolding render_def f case_bool_state
    by (intro fixed_and_then)
       (auto intro!: fixed_and_then fixed_reads norm none wr dest!: fixed_env split: prod.splits)
  with e show ?thesis by (rule fixed_trans)
qed

lemma fixed_prepare:
  assumes "st \<notin> K" "temps_off K d"
  shows "fixed K d (snd (prepare_staging pdf folder st d))"
proof -
  obtain found e where f: "path_exists st d = (found, e)" by fastforce
  have e: "fixed K d e" using quiet_fixed [OF quiet_reads(1) [of d st]] f by simp
  have off: "temps_off K e" using temps_fixed [OF e] assms(2) by simp
  have "fixed K e (snd (prepare_staging pdf folder st d))"
    unfolding prepare_staging_def f case_bool_state
    by (auto intro!: fixed_and_then fixed_with_temp fixed_writes fixed_reads assms(1) off)
  with e show ?thesis by (rule fixed_trans)
qed

text \<open>When the staging file is accepted, it is the PDF of the spool.\<close>

lemma prepare_staged:
  assumes "prepare_staging pdf folder st d = (Inr (), e)" "st \<noteq> pdf" "temps_off {pdf, st} d"
  shows "dk_files e st = dk_files e pdf \<and> dk_files e pdf \<noteq> None"
proof -
  obtain found d1 where f: "path_exists st d = (found, d1)" by fastforce
  have q1: "quiet d d1" using quiet_reads(1) [of d st] f by simp
  show ?thesis
  proof (cases found)
    case True
    then obtain d2 where s: "same_file_content pdf st d1 = (Inr True, d2)" and e: "e = d2"
      using assms(1) f by (auto simp: prepare_staging_def elim!: and_then_okE split: if_splits)
    have "dk_files d2 = dk_files d1" using quiet_same_file [of d1 pdf st] s by (simp add: quiet_def)
    with same_file_contentD(1) [OF s] e show ?thesis by metis
  next
    case False
    let ?body = "\<lambda>t d. and_then (read_file pdf d) (\<lambda>bytes d. and_then (write_temp t bytes d) (\<lambda>_ d.
               and_then (sync d) (\<lambda>_ d. persist_noclobber t st d)))"
    obtain d2 where w: "with_temp folder ?body d1 = (Inr (), d2)" and sy: "sync d2 = (Inr (), e)"
      using assms(1) f False by (auto simp: prepare_staging_def elim!: and_then_okE)
    obtain t d3 where c: "create_temp folder d1 = (Inr t, d3)" and b: "?body t d3 = (Inr (), d2)"
      using w by (auto simp: with_temp_def elim!: and_then_okE split: sum.splits prod.splits)
    have "temps_off {pdf, st} d1" using temps_fixed [OF quiet_fixed [OF q1], of "{pdf, st}"] assms(3) by simp
    then have t: "t \<noteq> pdf" "t \<noteq> st" using create_temp_okD(3) [OF c] by auto
    obtain bytes d4 where r: "read_file pdf d3 = (Inr bytes, d4)"
      and k1: "and_then (write_temp t bytes d4) (\<lambda>_ d. and_then (sync d) (\<lambda>_ d. persist_noclobber t st d)) = (Inr (), d2)"
      using b by (rule and_then_okE) (rule that)
    obtain d5 where wt: "write_temp t bytes d4 = (Inr (), d5)"
      and k2: "and_then (sync d5) (\<lambda>_ d. persist_noclobber t st d) = (Inr (), d2)"
      using k1 by (rule and_then_okE) (simp add: that)
    obtain d6 where s6: "sync d5 = (Inr (), d6)" and p: "persist_noclobber t st d6 = (Inr (), d2)"
      using k2 by (rule and_then_okE) (simp add: that)
    have d3: "dk_files d3 pdf = Some bytes" using read_file_okD [OF r] .
    have d4: "quiet d3 d4" using quiet_reads(4) [of d3 pdf] r by simp
    have d5: "dk_files d5 = (dk_files d4)(t := Some bytes)"
      using wt by (auto simp: write_temp_def io_def split: option.splits)
    have d6: "quiet d5 d6" using quiet_reads(6) [of d5] s6 by simp
    have d2: "dk_files d2 = (dk_files d6)(t := None, st := dk_files d6 t)"
      using p by (auto simp: persist_noclobber_def io_def split: option.splits if_splits)
    have e: "quiet d2 e" using quiet_reads(6) [of d2] sy by simp
    show ?thesis using d3 d4 d5 d6 d2 e t assms(2) by (auto simp: quiet_def)
  qed
qed

section \<open>One attempt\<close>

lemma publish_sound:
  assumes un: "unstarted f orig d" and place: "well_placed spool f" and ready: "ready spool f d"
    and run: "publish_file (spool_pdf spool) d = (r, e)"
  shows "sound spool f orig e"
proof (cases "rs_folder (rf_options f)")
  case None
  then have "rs_folder (rf_options (dk_fax d)) = None" using un by (simp add: unstarted_def own_record_def identity_def)
  then show ?thesis using run unstarted_sound [OF un] by (simp add: publish_file_def)
next
  case (Some folder)
  let ?pdf = "spool_pdf spool" and ?st = "staging_path folder (rf_id f)"
  have own: "rs_folder (rf_options (dk_fax d)) = Some folder" "rf_id (dk_fax d) = rf_id f"
    using un Some by (simp_all add: unstarted_def own_record_def identity_def)
  have st: "?st \<in> stagings f" using Some by (auto simp: stagings_def)
  obtain b d1 where f: "path_is_dir folder d = (b, d1)" by fastforce
  have q1: "quiet d d1" using quiet_reads(3) [of d folder] f by simp
  then have id1: "rf_id (dk_fax d1) = rf_id f" using own by (simp add: quiet_def)
  have un1: "unstarted f orig d1" using un quiet_fixed [OF q1] subset_refl by (rule unstarted_fixed)
  have r1: "ready spool f d1" using ready_fixed [OF quiet_fixed [OF q1]] ready by simp
  obtain pr d2 where p: "prepare_staging ?pdf folder ?st d1 = (pr, d2)" by fastforce
  have eq: "publish_file ?pdf d = (if \<not> b then (Inl (EInvalid (lit ''Receive folder unavailable: '' @ folder)), d1)
      else and_then (pr, d2) (\<lambda>_. link_loop 1 folder ?st))"
    using own id1 p by (simp add: publish_file_def f Let_def)
  have off: "temps_off (names f) d1" "temps_off {?pdf, ?st} d1"
    using r1 st by (auto simp: ready_def intro: temps_off_mono)
  have "?st \<notin> names f" "?st \<noteq> ?pdf" using place st by (auto simp: well_placed_def)
  then have fx: "fixed (names f) d1 d2" using fixed_prepare [of ?st "names f" d1 ?pdf folder] off p by simp
  then have un2: "unstarted f orig d2" by (rule unstarted_fixed [OF un1]) simp
  show ?thesis
  proof (cases "b \<and> pr = Inr ()")
    case True
    then have "link_loop 1 folder ?st d2 = (r, e)" using run eq by simp
    moreover have "dk_files d2 ?st = dk_files d2 ?pdf"
      using prepare_staged [of ?pdf folder ?st d1 d2] p True off(2) \<open>?st \<noteq> ?pdf\<close> by simp
    ultimately show ?thesis using un2 place st Some by (blast intro: link_loop_sound)
  next
    case False
    then have "e = d1 \<or> e = d2" using run eq by (cases pr) (auto split: if_splits)
    then show ?thesis using un1 un2 by (blast intro: unstarted_sound)
  qed
qed

lemma render_and_publish_sound:
  assumes un: "unstarted f orig d" and place: "well_placed spool f" and ready: "ready spool f d"
    and run: "render_and_publish lib spool d = (r, e)"
  shows "sound spool f orig e"
proof -
  let ?pdf = "spool_pdf spool"
  obtain h d1 where h: "path_is_file ?pdf d = (h, d1)" by fastforce
  have q1: "fixed (names f) d d1" using quiet_fixed [OF quiet_reads(2) [of d ?pdf]] h by simp
  obtain x d2 where x: "(if h then (Inr True, d1) else render lib spool d1) = (x, d2)" by fastforce
  have "temps_off (names f) d1"
    using ready ready_fixed [OF q1] by (auto simp: ready_def intro: temps_off_mono)
  then have "fixed (names f) d1 d2"
    using fixed_render [of spool "names f" d1 lib] x place by (auto simp: well_placed_def split: if_splits)
  with q1 have fx: "fixed (names f) d d2" by (rule fixed_trans)
  have un2: "unstarted f orig d2" by (rule unstarted_fixed [OF un fx]) simp
  have r2: "ready spool f d2" using ready_fixed [OF fx] ready by simp
  have eq: "render_and_publish lib spool d = and_then (x, d2) (\<lambda>rendered d. if \<not> rendered then journal d else publish_file ?pdf d)"
    by (simp add: render_and_publish_def h x)
  show ?thesis
  proof (cases x)
    case (Inl y)
    then show ?thesis using run eq un2 by (auto intro: unstarted_sound)
  next
    case (Inr rendered)
    show ?thesis
    proof (cases rendered)
      case True
      then show ?thesis using run eq Inr publish_sound [OF un2 place r2] by simp
    next
      case False
      then have "journal d2 = (r, e)" using run eq Inr by simp
      then have "unstarted f orig e" using un2 by (auto simp: journal_def unstarted_def split: option.splits)
      then show ?thesis by (rule unstarted_sound)
    qed
  qed
qed

lemma check_journal_sound:
  assumes d: "sound spool f orig d" "\<not> export_done_already (rf_export (dk_fax d))"
    and place: "well_placed spool f" and ready: "ready spool f d"
    and run: "check_journal lib spool d = (r, e)"
  shows "sound spool f orig e"
proof -
  let ?pdf = "spool_pdf spool"
  obtain h d1 where h: "(case rf_export (dk_fax d) of XPublishing _ _ _ _ \<Rightarrow> path_is_file ?pdf d | _ \<Rightarrow> (False, d)) = (h, d1)"
    by fastforce
  have q1: "quiet d d1" using h by (auto split: export_status.splits) (metis snd_conv quiet_reads(2))
  have hp: "h = (dk_files d1 ?pdf \<noteq> None)" if "rf_export (dk_fax d) = XPublishing q s n x" for q s n x
    using h that ready by (auto simp: path_is_file_def ready_def sighted_def)
  obtain k d2 where k: "recognise ?pdf h d1 = (k, d2)" by fastforce
  note rec = recognise_effect [OF k]
  have q2: "quiet d d2" using quiet_trans [OF q1 rec(1)] .
  have d2: "sound spool f orig d2" using d(1) q2 by (rule sound_quiet)
  have r2: "ready spool f d2" using ready_env [of d2 d spool f] q2 ready by (simp add: quiet_def)
  have eq: "check_journal lib spool d = and_then (k, d2) (continue_export lib spool)"
    by (simp add: check_journal_def h k)
  show ?thesis
  proof (cases k)
    case (Inl y)
    then show ?thesis using run eq d2 by auto
  next
    case (Inr known)
    show ?thesis
    proof (cases known)
      case (Some qs)
      obtain q s where qs: "qs = (q, s)" by (cases qs)
      obtain n x where pub: "rf_export (dk_fax d1) = XPublishing q s n x" using rec(2) [of q s] Inr Some qs by blast
      have pub2: "rf_export (dk_fax d2) = XPublishing q s n x" using pub rec(1) by (simp add: quiet_def)
      have s: "s \<in> stagings f" using d2 pub2 by (simp add: sound_def own_record_def)
      have "finish_publication q s d2 = (r, e)" using run eq Inr Some qs by (simp add: continue_export_def)
      then show ?thesis using finish_sound [OF d2 pub2 s place] by simp
    next
      case None
      have "unstarted f orig d2"
      proof (rule sound_unstarted [OF d2])
        fix q assume m: "mentions (rf_export (dk_fax d2)) q"
        have same: "rf_export (dk_fax d2) = rf_export (dk_fax d)" "rf_export (dk_fax d1) = rf_export (dk_fax d)"
          "dk_files d1 = dk_files d2" using q1 q2 by (simp_all add: quiet_def)
        obtain s n x where pub: "rf_export (dk_fax d) = XPublishing q s n x"
          using m d(2) same by (cases "rf_export (dk_fax d)") (auto simp: export_done_already_def)
        have "sighted d1" using ready q1 by (simp add: ready_def sighted_def quiet_def)
        with rec(3) [of q s n x] Inr None pub hp [OF pub] same
        show "dk_files d2 ?pdf = None \<or> dk_files d2 q \<noteq> dk_files d2 ?pdf" by simp
      qed
      then show ?thesis using render_and_publish_sound [OF _ place r2] run eq Inr None
        by (simp add: continue_export_def)
    qed
  qed
qed

lemma export_sound:
  assumes d: "sound spool f orig d" and place: "well_placed spool f" and ready: "ready spool f d"
    and run: "export lib spool d = (r, e)"
  shows "sound spool f orig e"
proof (cases "outcome_is_active (rf_outcome (dk_fax d)) \<or> export_done_already (rf_export (dk_fax d))")
  case True
  then show ?thesis using run d by (auto simp: export_def split: if_splits)
next
  case False
  obtain x d1 where x: "recall_rendering lib spool d = (x, d1)" by fastforce
  have fx: "fixed {} d d1" and same: "dk_files d1 = dk_files d" "rf_export (dk_fax d1) = rf_export (dk_fax d)"
    using recall_effect(2) [of "{}" d lib spool] recall_effect(3,4) [of lib spool d] x by auto
  have "own_record f (dk_fax d1)" using own_record_fixed [OF _ fx] d by (simp add: sound_def)
  then have d1: "sound spool f orig d1" using d fx same by (auto simp: sound_def fixed_def)
  have "export lib spool d = and_then (x, d1) (\<lambda>_. check_journal lib spool)"
    using False x by (simp add: export_def)
  moreover have "\<not> export_done_already (rf_export (dk_fax d1))" using False same by simp
  moreover have "ready spool f d1" using ready_fixed [OF fx] ready by simp
  ultimately show ?thesis using run check_journal_sound [OF d1 _ place, of lib r e] d1 by (cases x) auto
qed

section \<open>Any number of attempts\<close>

text \<open>The runtime reads the journalled record for each attempt (\<open>start_export\<close>), a crash leaves the disk as
  it is, and a failure is recorded in the store (\<open>export_done\<close>) or not. A failure that comes after the
  status became \<open>XPublished\<close> must not be recorded: see \<open>lost_journal_publishes_twice\<close>. In every attempt the
  checks for existing paths are answered (\<open>sighted\<close>), and temporary files get names of their own.\<close>

definition next_attempt :: "disk_env \<Rightarrow> disk \<Rightarrow> disk" where
  "next_attempt env d = d\<lparr>dk_env := env, dk_fax := dk_saved d\<rparr>"

inductive exported :: "library \<Rightarrow> path \<Rightarrow> disk \<Rightarrow> disk \<Rightarrow> bool" for lib spool start where
  exported_start: "exported lib spool start start"
| exported_attempt: "exported lib spool start d \<Longrightarrow> ready spool (dk_fax start) (next_attempt env d) \<Longrightarrow>
    export lib spool (next_attempt env d) = (r, e) \<Longrightarrow> exported lib spool start e"
| exported_recorded: "exported lib spool start d \<Longrightarrow> ready spool (dk_fax start) (next_attempt env d) \<Longrightarrow>
    export lib spool (next_attempt env d) = (Inl x, e) \<Longrightarrow> \<not> is_published (rf_export (dk_fax e)) \<Longrightarrow>
    exported lib spool start (e\<lparr>dk_saved := export_failed x (dk_fax e)\<rparr>)"

lemma sound_next: "sound spool f orig d \<Longrightarrow> sound spool f orig (next_attempt env d)"
  by (auto simp: sound_def next_attempt_def)

lemma export_failed_record:
  "own_record f g \<Longrightarrow> own_record f (export_failed x g)"
  "\<not> is_published (rf_export g) \<Longrightarrow> mentions (rf_export (export_failed x g)) q = mentions (rf_export g) q"
  by (cases "rf_export g"; simp add: own_record_def export_failed_def identity_def)+

lemma sound_recorded:
  assumes "sound spool f orig e" "\<not> is_published (rf_export (dk_fax e))"
  shows "sound spool f orig (e\<lparr>dk_saved := export_failed x (dk_fax e)\<rparr>)"
  using assms export_failed_record(2) [of "dk_fax e"] by (auto simp: sound_def export_failed_record(1))

lemma exported_sound:
  assumes "exported lib spool start d" and start: "rf_export (dk_fax start) = XPending" "dk_saved start = dk_fax start"
    and place: "well_placed spool (dk_fax start)"
  shows "sound spool (dk_fax start) (dk_files start) d"
  using assms(1)
proof (induction rule: exported.induct)
  case exported_start
  show ?case using start by (simp add: sound_def own_record_def)
next
  case (exported_attempt d env r e)
  then show ?case by (blast intro: export_sound sound_next place)
next
  case (exported_recorded d env x e)
  then have "sound spool (dk_fax start) (dk_files start) e" by (blast intro: export_sound sound_next place)
  then show ?case using exported_recorded(4) by (rule sound_recorded)
qed

section \<open>Attempts without faults\<close>

definition calm :: "disk \<Rightarrow> bool" where
  "calm d \<longleftrightarrow> (\<forall>n. de_fault (dk_env d) n = None \<and> \<not> de_blind (dk_env d) n \<and> de_journal (dk_env d) n = None)"

lemma calm_env: "dk_env e = dk_env d \<Longrightarrow> calm d \<Longrightarrow> calm e"
  by (simp add: calm_def)

lemma calm_later [simp]: "calm (later d) = calm d"
  by (simp add: calm_def)

lemma calm_io: "calm d \<Longrightarrow> io g d = g (later d)"
  by (simp add: io_def calm_def)

lemma calm_ops:
  assumes "calm d"
  shows "path_exists p d = (dk_files d p \<noteq> None \<or> p \<in> set (dk_dirs d), later d)"
    "path_is_file p d = (dk_files d p \<noteq> None, later d)" "path_is_dir p d = (p \<in> set (dk_dirs d), later d)"
    "read_file p d = (case dk_files d p of Some c \<Rightarrow> Inr c | None \<Rightarrow> Inl not_found, later d)"
    "file_length p d = (case dk_files d p of Some c \<Rightarrow> Inr (length c) | None \<Rightarrow> Inl not_found, later d)"
    "sync d = (Inr (), later d)" "journal d = (Inr (), (later d)\<lparr>dk_saved := dk_fax d\<rparr>)"
  using assms by (simp_all add: path_exists_def path_is_file_def path_is_dir_def read_file_def file_length_def
      sync_def journal_def calm_io calm_def)

lemma block_size_min [simp]: "(min (block_size d) n = 0) = (n = 0)"
  by (auto simp: block_size_def min_def)

lemma same_blocks_calm:
  "calm d \<Longrightarrow> length left = length right \<Longrightarrow> \<exists>b e. same_blocks left right d = (Inr b, e)"
proof (induction left right d rule: same_blocks.induct)
  case (1 left right d)
  let ?b = "block_size (later d)" let ?n = "min ?b (length left)"
  show ?case
  proof (cases "?n = 0 \<or> take ?n left \<noteq> take ?n right")
    case True
    then show ?thesis using 1(2,3) by (subst same_blocks.simps) (auto simp: calm_io Let_def)
  next
    case False
    have "\<exists>b e. same_blocks (drop ?n left) (drop ?n right) (later (later d)) = (Inr b, e)"
      by (rule 1(1) [OF refl]) (use False 1(2,3) in \<open>auto simp: calm_io\<close>)
    then show ?thesis using 1(2,3) False by (subst same_blocks.simps) (simp add: calm_io Let_def)
  qed
qed

text \<open>The comparison is equality, whatever each read returns.\<close>

lemma same_file_calm:
  assumes d: "calm d" and a: "dk_files d a = Some x" and b: "b \<notin> set (dk_dirs d)"
  shows "fst (same_file_content a b d) = Inr (dk_files d b = Some x)"
proof -
  have "\<exists>r e. same_file_content a b d = (Inr r, e)"
    using a b same_blocks_calm d
    by (cases "dk_files d b") (auto simp: same_file_content_def calm_ops)
  then obtain r e where re: "same_file_content a b d = (Inr r, e)" by blast
  then have "r = (dk_files d a = dk_files d b)"
    using same_file_contentD(2) [OF re] d a by (simp add: calm_def sighted_def)
  with re a show ?thesis by auto
qed

lemma hard_link_calm:
  "calm d \<Longrightarrow> dk_files d t \<noteq> None \<or> t \<in> set (dk_dirs d) \<Longrightarrow> hard_link p t d = (Occupied, later d)"
  "calm d \<Longrightarrow> dk_files d t = None \<Longrightarrow> t \<notin> set (dk_dirs d) \<Longrightarrow> dk_files d p = Some c \<Longrightarrow>
     hard_link p t d = (Linked, (later d)\<lparr>dk_files := (dk_files d)(t := Some c)\<rparr>)"
  by (simp_all add: hard_link_def calm_io)

lemma remove_calm: "calm d \<Longrightarrow> remove_file p d = (later d)\<lparr>dk_files := (dk_files d)(p := None)\<rparr>"
  by (simp add: remove_file_def drop_temp_def calm_io)

text \<open>What a successful publication leaves.\<close>

definition published :: "path \<Rightarrow> path \<Rightarrow> byte list \<Rightarrow> disk \<Rightarrow> disk \<Rightarrow> bool" where
  "published q st c d e \<longleftrightarrow> dk_files e = (dk_files d)(q := Some c, st := None) \<and>
     dk_fax e = (dk_fax d)\<lparr>rf_export := XPublished q\<rparr> \<and> dk_saved e = dk_fax e"

lemma finish_calm:
  assumes "calm d"
  shows "\<exists>e. finish_publication q st d = (Inr (), e) \<and> dk_files e = (dk_files d)(st := None) \<and>
    dk_fax e = (dk_fax d)\<lparr>rf_export := XPublished q\<rparr> \<and> dk_saved e = dk_fax e"
proof -
  let ?e = "later (set_export (XPublished q) (later d))"
  have "calm (set_export (XPublished q) (later d))" "calm (?e\<lparr>dk_saved := dk_fax ?e\<rparr>)"
    using assms by (simp_all add: calm_def)
  then show ?thesis using assms by (simp add: finish_publication_def calm_ops remove_calm)
qed

lemma link_loop_calm:
  assumes "calm d" "dk_files d st = Some c" "n \<le> k" "k \<le> 100000"
    "\<And>i. n \<le> i \<Longrightarrow> i < k \<Longrightarrow>
       dk_files d (destination_path folder (rf_stem (dk_fax d)) i) \<noteq> None \<or>
       destination_path folder (rf_stem (dk_fax d)) i \<in> set (dk_dirs d)"
    "dk_files d (destination_path folder (rf_stem (dk_fax d)) k) = None"
    "destination_path folder (rf_stem (dk_fax d)) k \<notin> set (dk_dirs d)"
  shows "\<exists>e. link_loop n folder st d = (Inr (), e) \<and>
    published (destination_path folder (rf_stem (dk_fax d)) k) st c d e"
  using assms
proof (induction "k - n" arbitrary: n d)
  case 0
  let ?q = "destination_path folder (rf_stem (dk_fax d)) k"
  let ?d = "(later (set_export (XPublishing ?q st (length c) None) (later d)))"
  let ?j = "?d\<lparr>dk_saved := dk_fax ?d\<rparr>"
  have n: "n = k" using 0 by simp
  have c: "calm ?j" using 0(2) by (simp add: calm_def)
  have j: "journal (set_export (XPublishing ?q st (length c) None) (later d)) = (Inr (), ?j)"
    using 0(2) by (subst calm_ops) (simp_all add: calm_def)
  have h: "hard_link st ?q ?j = (Linked, (later ?j)\<lparr>dk_files := (dk_files ?j)(?q := Some c)\<rparr>)"
    by (rule hard_link_calm(2) [OF c]) (use 0 in simp_all)
  let ?l = "(later ?j)\<lparr>dk_files := (dk_files ?j)(?q := Some c)\<rparr>"
  have "calm ?l" using c by (simp add: calm_def)
  from finish_calm [OF this, of ?q st] obtain e where e: "finish_publication ?q st ?l = (Inr (), e)"
    "dk_files e = (dk_files ?l)(st := None)" "dk_fax e = (dk_fax ?l)\<lparr>rf_export := XPublished ?q\<rparr>" "dk_saved e = dk_fax e"
    by blast
  have "link_loop n folder st d = (Inr (), e)"
    using n 0(2,3,5) j h e(1) by (subst link_loop.simps) (simp add: calm_ops Let_def)
  moreover have "published ?q st c d e" using e(2-4) by (simp add: published_def)
  ultimately show ?case by blast
next
  case (Suc m)
  let ?q = "destination_path folder (rf_stem (dk_fax d)) n"
  let ?d = "(later (set_export (XPublishing ?q st (length c) None) (later d)))"
  let ?j = "?d\<lparr>dk_saved := dk_fax ?d\<rparr>"
  have c: "calm ?j" using Suc.prems(1) by (simp add: calm_def)
  have j: "journal (set_export (XPublishing ?q st (length c) None) (later d)) = (Inr (), ?j)"
    using Suc.prems(1) by (subst calm_ops) (simp_all add: calm_def)
  have "dk_files ?j ?q \<noteq> None \<or> ?q \<in> set (dk_dirs ?j)" using Suc.prems(5) [of n] Suc.hyps(2) by simp
  then have h: "hard_link st ?q ?j = (Occupied, later ?j)" by (rule hard_link_calm(1) [OF c])
  have eq: "link_loop n folder st d = link_loop (Suc n) folder st (later ?j)"
    using Suc.prems(1-4) Suc.hyps(2) j h by (subst link_loop.simps) (simp add: calm_ops Let_def)
  have "\<exists>e. link_loop (Suc n) folder st (later ?j) = (Inr (), e) \<and>
      published (destination_path folder (rf_stem (dk_fax (later ?j))) k) st c (later ?j) e"
    by (rule Suc.hyps(1)) (use Suc.hyps(2) Suc.prems c in auto)
  then show ?case unfolding eq by (auto simp: published_def)
qed

lemma prepare_calm:
  assumes d: "calm d" and pdf: "dk_files d pdf = Some c" and st: "dk_files d st = None" "st \<notin> set (dk_dirs d)"
    and fresh: "\<And>n. dk_files d (folder @ lit ''/'' @ de_temp (dk_env d) n) = None \<and> folder @ lit ''/'' @ de_temp (dk_env d) n \<noteq> st"
  shows "\<exists>e. prepare_staging pdf folder st d = (Inr (), e) \<and> dk_files e = (dk_files d)(st := Some c) \<and>
    dk_dirs e = dk_dirs d \<and> dk_env e = dk_env d \<and> dk_fax e = dk_fax d \<and> dk_saved e = dk_saved d"
proof -
  let ?d1 = "later d"
  let ?t = "folder @ lit ''/'' @ de_temp (dk_env d) (dk_ticks (later ?d1))"
  let ?d2 = "(later ?d1)\<lparr>dk_files := (dk_files d)(?t := Some [])\<rparr>"
  let ?d3 = "(later (later ?d2))\<lparr>dk_files := (dk_files d)(?t := Some c)\<rparr>"
  let ?d4 = "(later (later ?d3))\<lparr>dk_files := (dk_files d)(st := Some c)\<rparr>"
  have f: "dk_files d ?t = None" "?t \<noteq> st" using fresh by blast+
  then have t: "?t \<noteq> pdf" using pdf by (metis option.distinct(1))
  have c: "calm ?d1" "calm ?d2" "calm (later ?d2)" "calm ?d3" "calm (later ?d3)" "calm ?d4"
    using d by (simp_all add: calm_def)
  have start: "create_temp folder ?d1 = (Inr ?t, ?d2)"
    using f by (simp add: create_temp_def calm_io [OF c(1)] Let_def)
  have read: "read_file pdf ?d2 = (Inr c, later ?d2)" using t pdf by (simp add: calm_ops [OF c(2)])
  have wr: "write_temp ?t c (later ?d2) = (Inr (), ?d3)" by (simp add: write_temp_def calm_io [OF c(3)])
  have "(dk_files d)(?t := None) = dk_files d" using f by (metis fun_upd_triv)
  then have mv: "persist_noclobber ?t st (later ?d3) = (Inr (), ?d4)"
    using st f by (simp add: persist_noclobber_def calm_io [OF c(5)])
  have "prepare_staging pdf folder st d = (Inr (), later ?d4)"
    using st start read wr mv
    by (simp add: prepare_staging_def calm_ops [OF d] calm_ops [OF c(4)] calm_ops [OF c(6)] with_temp_def)
  then show ?thesis by simp
qed

lemma publish_calm:
  assumes d: "calm d" and pdf: "dk_files d pdf = Some c"
    and folder: "rs_folder (rf_options (dk_fax d)) = Some folder" "folder \<in> set (dk_dirs d)"
    and st: "st = staging_path folder (rf_id (dk_fax d))" "dk_files d st = None" "st \<notin> set (dk_dirs d)"
    and fresh: "\<And>n. dk_files d (folder @ lit ''/'' @ de_temp (dk_env d) n) = None \<and> folder @ lit ''/'' @ de_temp (dk_env d) n \<noteq> st"
    and k: "1 \<le> k" "k \<le> 100000" and q: "q = (\<lambda>i. destination_path folder (rf_stem (dk_fax d)) i)"
    and taken: "\<And>i. 1 \<le> i \<Longrightarrow> i < k \<Longrightarrow> dk_files d (q i) \<noteq> None \<or> q i \<in> set (dk_dirs d)"
    and free: "dk_files d (q k) = None" "q k \<notin> set (dk_dirs d)" and apart: "q k \<noteq> st"
  shows "\<exists>e. publish_file pdf d = (Inr (), e) \<and> dk_files e = (dk_files d)(q k := Some c) \<and>
    dk_fax e = (dk_fax d)\<lparr>rf_export := XPublished (q k)\<rparr> \<and> dk_saved e = dk_fax e"
proof -
  have "\<exists>e. prepare_staging pdf folder st (later d) = (Inr (), e) \<and> dk_files e = (dk_files (later d))(st := Some c) \<and>
    dk_dirs e = dk_dirs (later d) \<and> dk_env e = dk_env (later d) \<and> dk_fax e = dk_fax (later d) \<and> dk_saved e = dk_saved (later d)"
    by (rule prepare_calm) (use d pdf st fresh in simp_all)
  then obtain d1 where p: "prepare_staging pdf folder st (later d) = (Inr (), d1)" "dk_files d1 = (dk_files d)(st := Some c)"
    "dk_dirs d1 = dk_dirs d" "dk_env d1 = dk_env d" "dk_fax d1 = dk_fax d" by auto
  have c1: "calm d1" using calm_env [OF p(4) d] .
  have "\<exists>e. link_loop 1 folder st d1 = (Inr (), e) \<and>
      published (destination_path folder (rf_stem (dk_fax d1)) k) st c d1 e"
    by (rule link_loop_calm [OF c1 _ k]) (use taken free apart p q in auto)
  then obtain e where e: "link_loop 1 folder st d1 = (Inr (), e)" "published (q k) st c d1 e" by (auto simp: q p)
  have "publish_file pdf d = (Inr (), e)" using folder st p(1) e(1) by (simp add: publish_file_def calm_ops [OF d] Let_def)
  moreover have "dk_files e = (dk_files d)(q k := Some c)" using e(2) p(2) st(2) apart by (auto simp: published_def)
  ultimately show ?thesis using e(2) p(5) by (simp add: published_def)
qed

text \<open>The next attempt after a crash that followed the link recognises its own publication.\<close>

lemma recovered_calm:
  assumes d: "calm d" and st: "rf_export (dk_fax d) = XPublishing q s n x"
    and pdf: "dk_files d (spool_pdf spool) = Some c" "dk_files d q = Some c"
    and report: "dk_files d (spool_report spool) = None" and inactive: "\<not> outcome_is_active (rf_outcome (dk_fax d))"
  shows "\<exists>e. export lib spool d = (Inr (), e) \<and> dk_files e = (dk_files d)(s := None) \<and>
    dk_fax e = (dk_fax d)\<lparr>rf_export := XPublished q\<rparr> \<and> dk_saved e = dk_fax e"
proof -
  let ?d = "later (later (later d))"
  have c: "calm (later d)" "calm (later (later d))" "calm ?d" using d by simp_all
  have "\<exists>r e. same_file_content (spool_pdf spool) q ?d = (Inr r, e)"
    using pdf same_blocks_calm by (auto simp: same_file_content_def calm_ops [OF c(3)] calm_ops d)
  then obtain r e1 where s: "same_file_content (spool_pdf spool) q ?d = (Inr r, e1)" by blast
  have quiet: "quiet d e1" using quiet_same_file [of ?d "spool_pdf spool" q] s by simp
  have r using same_file_contentD(2) [OF s] c(3) pdf by (simp add: calm_def sighted_def)
  have ce: "calm e1" using calm_env [of e1 d] quiet d by (simp add: quiet_def)
  from finish_calm [OF ce, of q s] obtain e where e: "finish_publication q s e1 = (Inr (), e)"
    "dk_files e = (dk_files e1)(s := None)" "dk_fax e = (dk_fax e1)\<lparr>rf_export := XPublished q\<rparr>" "dk_saved e = dk_fax e"
    by blast
  have "recall_rendering lib spool d = (Inr (), later (later d))"
    using pdf report by (simp add: recall_rendering_def calm_ops [OF d] calm_ops [OF c(1)])
  moreover have "check_journal lib spool (later (later d)) = (Inr (), e)"
    using st pdf s \<open>r\<close> e(1) by (simp add: check_journal_def calm_ops [OF c(2)] recognise_def continue_export_def)
  ultimately have "export lib spool d = (Inr (), e)" using inactive st by (simp add: export_def export_done_already_def)
  then show ?thesis using e quiet by (simp add: quiet_def)
qed

end
