(* ===== verification/ExportProps.thy ===== *)
theory ExportProps
  imports ExportOnce
begin

text \<open>
  What the export of a received fax promises: it overwrites nothing, publishes at most once over any
  crashes and retries, reaches the first free name, recognises its own publication, compares files
  exactly, and reverses exactly the bits of the validated strips.
\<close>

section \<open>Normalisation\<close>

definition in_range :: "nat \<Rightarrow> nat \<times> nat \<Rightarrow> bool" where
  "in_range i = (\<lambda>(start, stop). start \<le> i \<and> i < stop)"

lemma reverse_range_nth:
  assumes "start \<le> stop" "stop \<le> length bytes"
  shows "length (reverse_range start stop bytes) = length bytes"
    "i < length bytes \<Longrightarrow> reverse_range start stop bytes ! i =
       (if in_range i (start, stop) then word_reverse (bytes ! i) else bytes ! i)"
  using assms by (auto simp: reverse_range_def nth_append in_range_def min_def)

lemma reverse_ranges_spec:
  assumes "reverse_ranges previous rs bytes = Inr out" "\<forall>(start, stop) \<in> set rs. start \<le> stop \<and> stop \<le> length bytes"
  shows "length out = length bytes \<and> (\<forall>(start, stop) \<in> set rs. previous \<le> start) \<and>
    (\<forall>i < length bytes. out ! i = (if \<exists>r \<in> set rs. in_range i r then word_reverse (bytes ! i) else bytes ! i))"
  using assms
proof (induction previous rs bytes arbitrary: out rule: reverse_ranges.induct)
  case (2 previous start stop rs bytes)
  let ?b = "reverse_range start stop bytes"
  have ord: "previous \<le> start" "start \<le> stop" "stop \<le> length bytes" using 2 by (auto split: if_splits)
  note rev = reverse_range_nth [OF ord(2,3)]
  have ih: "length out = length ?b \<and> (\<forall>(start, stop') \<in> set rs. stop \<le> start) \<and>
    (\<forall>i < length ?b. out ! i = (if \<exists>r \<in> set rs. in_range i r then word_reverse (?b ! i) else ?b ! i))"
    by (rule 2(1)) (use 2(2,3) ord rev in \<open>auto split: if_splits\<close>)
  have later: "\<not> in_range i (start, stop)" if "r \<in> set rs" "in_range i r" for i r
    using ih that by (fastforce simp: in_range_def)
  have "previous \<le> a" if "(a, b) \<in> set rs" for a b using ih that ord by fastforce
  moreover have "out ! i = (if \<exists>r \<in> set ((start, stop) # rs). in_range i r then word_reverse (bytes ! i) else bytes ! i)"
    if "i < length bytes" for i
    using ih rev that later by auto
  ultimately show ?case using ih rev ord by auto
qed simp

lemma collect_ok_set: "collect_ok rs = Inr xs \<Longrightarrow> x \<in> set xs \<Longrightarrow> Inr x \<in> set rs"
  by (induction rs arbitrary: xs) (auto simp: res_bind_Inr_iff)

lemma directory_strips_bounds:
  "directory_strips avail t = Inr strips \<Longrightarrow> (start, stop) \<in> set strips \<Longrightarrow> start \<le> stop \<and> stop \<le> avail"
  by (auto simp: directory_strips_def strip_range_def res_bind_Inr_iff split: if_splits dest!: collect_ok_set)

lemma update_bounds:
  assumes "\<forall>(a, b) \<in> set m. P a b" "\<forall>(a, b) \<in> set strips. P a b"
  shows "\<forall>(a, b) \<in> set (foldl (\<lambda>m (start, stop). AList.update start stop m) m strips). P a b"
  using assms
proof (induction strips arbitrary: m)
  case (Cons s strips)
  obtain a b where s: "s = (a, b)" by (cases s)
  have "set (AList.update a b m) \<subseteq> insert (a, b) (set m)" by (induction m) auto
  with Cons show ?case by (auto simp: s intro!: Cons.IH)
qed simp

lemma scan_bounds:
  assumes "scan_directories avail n ts ranges pages = (rs, k, damage)"
    "\<forall>(a, b) \<in> set ranges. a \<le> b \<and> b \<le> avail"
  shows "(\<forall>(a, b) \<in> set rs. a \<le> b \<and> b \<le> avail) \<and> k \<le> pages + n"
  using assms
proof (induction avail n ts ranges pages rule: scan_directories.induct)
  case (2 avail n t ts ranges pages)
  show ?case
  proof (cases "n = 0")
    case False
    show ?thesis
    proof (cases "directory_strips avail t")
      case (Inr strips)
      let ?r = "foldl (\<lambda>m (start, stop). AList.update start stop m) ranges strips"
      have r: "\<forall>(a, b) \<in> set ?r. a \<le> b \<and> b \<le> avail"
        by (rule update_bounds [OF 2(3)]) (use directory_strips_bounds [OF Inr] in auto)
      show ?thesis
      proof (cases "ts = [] \<or> td_next t \<noteq> None")
        case True
        then show ?thesis using 2(2) Inr r False by (auto simp: Let_def split: if_splits)
      next
        case more: False
        then have "scan_directories avail (n - 1) ts ?r (Suc pages) = (rs, k, damage)"
          using 2(2) Inr False by (simp add: Let_def)
        then show ?thesis using 2(1) [OF False Inr refl _ _ _ r] more False by auto
      qed
    qed (use 2 False in auto)
  qed (use 2 in auto)
qed auto

section \<open>Samples\<close>

definition sample_strip :: tiff_directory where
  "sample_strip = \<lparr>td_fill_order = 2, td_offsets = Inr [1], td_lengths = Inr [1], td_next = None\<rparr>"

definition sample_library :: library where
  "sample_library = \<lparr>li_directories = (\<lambda>_. Inr [sample_strip]), li_pages = (\<lambda>_. Inr []), li_pdf = (\<lambda>_ _. Inr []),
     li_report = (\<lambda>_ _. Inr []), li_parse_report = (\<lambda>_. Inr (1, OutReceived))\<rparr>"

definition sample_inbox_fax :: received_fax where
  "sample_inbox_fax =
     \<lparr>rf_id = lit ''7'', rf_profile = None, rf_profile_name = lit ''Line'', rf_caller = lit ''1'', rf_destination = lit ''2'',
      rf_peer = lit ''3'', rf_tiff_path = None, rf_arrived = 0, rf_stem = lit ''fax'', rf_finished = Some 9,
      rf_options = \<lparr>rs_profile = None, rs_listener = None, rs_manual = False, rs_folder = Some (lit ''in''),
        rs_mode = FAuto, rs_ecm = True, rs_notifications = False\<rparr>,
      rf_confirmed = 1, rf_recovered = 1, rf_transport = None, rf_outcome = OutReceived, rf_result = None,
      rf_recovery = None, rf_export = XPending, rf_partial_available = False\<rparr>"

text \<open>An environment in which the journal fails at the ticks of \<open>js\<close>.\<close>

definition sample_env :: "nat list \<Rightarrow> disk_env" where
  "sample_env js = \<lparr>de_fault = (\<lambda>_. None), de_blind = (\<lambda>_. False), de_temp = (\<lambda>_. lit ''.tmp''), de_block = (\<lambda>_. 2),
     de_journal = (\<lambda>n. if n \<in> set js then Some (EIo (lit ''lost'')) else None)\<rparr>"

definition sample_disk :: "nat list \<Rightarrow> disk" where
  "sample_disk js = \<lparr>dk_files = (\<lambda>_. None)(spool_pdf (lit ''s'') := Some [1, 2, 3], lit ''in/fax.pdf'' := Some [9]),
     dk_dirs = [lit ''in'', lit ''s''], dk_env = sample_env js, dk_ticks = 0,
     dk_fax = sample_inbox_fax, dk_saved = sample_inbox_fax\<rparr>"

definition sample_spool :: path where "sample_spool = lit ''s''"

lemma sample_env_ready:
  assumes "dk_env d = sample_env js"
  shows "ready sample_spool sample_inbox_fax d"
proof -
  have tmp: "dir @ lit ''/'' @ lit ''.tmp'' \<noteq> x @ lit ''.pdf''" for dir x :: utext
  proof
    assume "dir @ lit ''/'' @ lit ''.tmp'' = x @ lit ''.pdf''"
    then have "last (dir @ lit ''/'' @ lit ''.tmp'') = last (x @ lit ''.pdf'')" by simp
    then show False by (simp add: lit_def)
  qed
  have "\<exists>x. p = x @ lit ''.pdf''" if "p \<in> insert (spool_pdf sample_spool) (names sample_inbox_fax \<union> stagings sample_inbox_fax)" for p
    using that
    by (auto simp: names_def stagings_def spool_pdf_def destination_path_def staging_path_def join_path_def lit_def
        sample_inbox_fax_def)
  with tmp assms show ?thesis
    by (fastforce simp: ready_def sighted_def temps_off_def sample_env_def)
qed

lemma sample_well_placed: "well_placed sample_spool sample_inbox_fax"
  by (auto simp: well_placed_def names_def stagings_def sample_inbox_fax_def sample_spool_def spool_pdf_def
      spool_report_def destination_path_def staging_path_def join_path_def lit_def)

section \<open>Properties\<close>

text \<open>C18: over any number of attempts, which may crash or fail at any operation but for two failures, at most
  one name of the receive folder gains a file, no existing file there changes, and the new file is the
  rendered PDF of the reception. The two failures that \<open>exported\<close> leaves out are defects of the code, with
  which a second copy does appear: an attempt whose journal write of \<open>Published\<close> is lost and which is then
  recorded as \<open>Failed\<close> (the loss without that record, by a crash, is included; see
  \<open>lost_journal_publishes_twice\<close>), and a check for an existing path whose metadata cannot be read, so that
  the path looks absent. Temporary files get names of their own.\<close>

theorem fax_published_once:
  assumes "exported lib spool start d" "rf_export (dk_fax start) = XPending" "dk_saved start = dk_fax start"
    "well_placed spool (dk_fax start)"
  shows "\<forall>p \<in> names (dk_fax start). \<forall>q \<in> names (dk_fax start).
    dk_files d p \<noteq> dk_files start p \<and> dk_files d q \<noteq> dk_files start q \<longrightarrow>
    p = q \<and> dk_files start p = None \<and> dk_files d p = dk_files d (spool_pdf spool)"
proof -
  have s: "sound spool (dk_fax start) (dk_files start) d" by (rule exported_sound [OF assms])
  have one: "p = q" if "mentions x p" "mentions x q" for x p q using that by (cases x) auto
  show ?thesis using s one unfolding sound_def by blast
qed

lemma fax_published_once_witness:
  "\<exists>p. {q \<in> names sample_inbox_fax.
     dk_files (snd (export sample_library sample_spool (next_attempt (sample_env [18]) (sample_disk [])))) q \<noteq> dk_files (sample_disk []) q} \<subseteq> {p}"
proof -
  let ?d = "next_attempt (sample_env [18]) (sample_disk [])"
  have fax: "dk_fax (sample_disk []) = sample_inbox_fax" by (simp add: sample_disk_def)
  have "ready sample_spool (dk_fax (sample_disk [])) ?d"
    unfolding fax by (rule sample_env_ready) (simp add: next_attempt_def)
  then have e: "exported sample_library sample_spool (sample_disk []) (snd (export sample_library sample_spool ?d))"
    by (rule exported_attempt [OF exported_start]) (rule prod.collapse [symmetric])
  have "rf_export (dk_fax (sample_disk [])) = XPending" "dk_saved (sample_disk []) = dk_fax (sample_disk [])"
    by (simp_all add: sample_disk_def sample_inbox_fax_def)
  from fax_published_once [OF e this] show ?thesis using sample_well_placed unfolding fax by blast
qed

text \<open>C19: whatever operations fail, an export changes no existing file except the PDF and report of its
  own spool and the staging files of its own reception.\<close>

theorem export_overwrites_nothing:
  assumes "export lib spool d = (r, e)" "dk_files d p = Some c" "p \<notin> own_files spool (dk_fax d)"
  shows "dk_files e p = Some c"
  using keeps_export [of spool d lib] assms by (simp add: keeps_def)

lemma export_overwrites_nothing_witness:
  "dk_files (snd (export sample_library sample_spool (sample_disk [18]))) (lit ''in/fax.pdf'') = Some [9]"
proof (rule export_overwrites_nothing [OF prod.collapse [symmetric]])
  show "dk_files (sample_disk [18]) (lit ''in/fax.pdf'') = Some [9]" by (simp add: sample_disk_def)
  show "lit ''in/fax.pdf'' \<notin> own_files sample_spool (dk_fax (sample_disk [18]))"
    by (simp add: own_files_def sample_disk_def sample_inbox_fax_def sample_spool_def spool_pdf_def spool_report_def
        staging_path_def join_path_def lit_def)
qed

text \<open>without faults a rendered fax is published under the first free name of its folder, complete,
  with the journal saying so and no other file changed.\<close>

theorem publish_takes_first_free_name:
  assumes "calm d" "dk_files d pdf = Some c"
    "rs_folder (rf_options (dk_fax d)) = Some folder" "folder \<in> set (dk_dirs d)"
    "dk_files d (staging_path folder (rf_id (dk_fax d))) = None" "staging_path folder (rf_id (dk_fax d)) \<notin> set (dk_dirs d)"
    "\<And>n. dk_files d (folder @ lit ''/'' @ de_temp (dk_env d) n) = None \<and>
      folder @ lit ''/'' @ de_temp (dk_env d) n \<noteq> staging_path folder (rf_id (dk_fax d))"
    "1 \<le> k" "k \<le> 100000"
    "\<And>i. 1 \<le> i \<Longrightarrow> i < k \<Longrightarrow> dk_files d (destination_path folder (rf_stem (dk_fax d)) i) \<noteq> None \<or>
      destination_path folder (rf_stem (dk_fax d)) i \<in> set (dk_dirs d)"
    "dk_files d (destination_path folder (rf_stem (dk_fax d)) k) = None"
    "destination_path folder (rf_stem (dk_fax d)) k \<notin> set (dk_dirs d)"
    "destination_path folder (rf_stem (dk_fax d)) k \<noteq> staging_path folder (rf_id (dk_fax d))"
  shows "\<exists>e. publish_file pdf d = (Inr (), e) \<and>
    dk_files e = (dk_files d)(destination_path folder (rf_stem (dk_fax d)) k := Some c) \<and>
    dk_fax e = (dk_fax d)\<lparr>rf_export := XPublished (destination_path folder (rf_stem (dk_fax d)) k)\<rparr> \<and>
    dk_saved e = dk_fax e"
  by (rule publish_calm [OF assms(1-4) refl assms(5-9) refl assms(10-13)])

lemma publish_takes_first_free_name_witness:
  "\<exists>e. publish_file (spool_pdf (lit ''s'')) (sample_disk []) = (Inr (), e) \<and>
    dk_files e = (dk_files (sample_disk []))(destination_path (lit ''in'') (rf_stem (dk_fax (sample_disk []))) 2 := Some [1, 2, 3]) \<and>
    dk_fax e = (dk_fax (sample_disk []))\<lparr>rf_export := XPublished (destination_path (lit ''in'') (rf_stem (dk_fax (sample_disk []))) 2)\<rparr> \<and>
    dk_saved e = dk_fax e"
proof (rule publish_takes_first_free_name)
  note d = sample_disk_def sample_env_def sample_inbox_fax_def destination_path_def staging_path_def join_path_def
    spool_pdf_def lit_def
  show "dk_files (sample_disk []) (destination_path (lit ''in'') (rf_stem (dk_fax (sample_disk []))) i) \<noteq> None \<or>
      destination_path (lit ''in'') (rf_stem (dk_fax (sample_disk []))) i \<in> set (dk_dirs (sample_disk []))"
    if "1 \<le> i" "i < 2" for i :: nat
  proof -
    have "i = 1" using that by simp
    then show ?thesis by (simp add: d)
  qed
  show "destination_path (lit ''in'') (rf_stem (dk_fax (sample_disk []))) 2 \<noteq> staging_path (lit ''in'') (rf_id (dk_fax (sample_disk [])))"
    "dk_files (sample_disk []) (destination_path (lit ''in'') (rf_stem (dk_fax (sample_disk []))) 2) = None"
    "destination_path (lit ''in'') (rf_stem (dk_fax (sample_disk []))) 2 \<notin> set (dk_dirs (sample_disk []))"
    by code_simp+
qed (simp_all add: calm_def sample_disk_def sample_env_def sample_inbox_fax_def staging_path_def join_path_def
    spool_pdf_def lit_def)

text \<open>an export that finds the destination it journalled holding its own PDF, as after a crash
  between the link and the journal, ends with that publication and links nothing again.\<close>

theorem interrupted_publication_recognised:
  assumes "calm d" "rf_export (dk_fax d) = XPublishing q s n x" "\<not> outcome_is_active (rf_outcome (dk_fax d))"
    "dk_files d (spool_pdf spool) = Some c" "dk_files d q = Some c" "dk_files d (spool_report spool) = None"
  shows "\<exists>e. export lib spool d = (Inr (), e) \<and> dk_files e = (dk_files d)(s := None) \<and>
    dk_fax e = (dk_fax d)\<lparr>rf_export := XPublished q\<rparr> \<and> dk_saved e = dk_fax e"
  by (rule recovered_calm [OF assms(1,2,4,5,6,3)])

definition sample_linked :: disk where
  "sample_linked = (sample_disk [])\<lparr>dk_files := (dk_files (sample_disk []))(lit ''in/fax-2.pdf'' := Some [1, 2, 3]),
     dk_fax := sample_inbox_fax\<lparr>rf_export := XPublishing (lit ''in/fax-2.pdf'') (lit ''in/.faxe-7.pdf'') 3 None\<rparr>\<rparr>"

lemma interrupted_publication_recognised_witness:
  "\<exists>e. export sample_library sample_spool sample_linked = (Inr (), e) \<and>
    dk_files e = (dk_files sample_linked)(lit ''in/.faxe-7.pdf'' := None) \<and>
    dk_fax e = (dk_fax sample_linked)\<lparr>rf_export := XPublished (lit ''in/fax-2.pdf'')\<rparr> \<and> dk_saved e = dk_fax e"
  by (rule interrupted_publication_recognised [where n = 3 and x = None and c = "[1, 2, 3]"])
    (simp_all add: calm_def sample_linked_def sample_disk_def sample_env_def sample_inbox_fax_def sample_spool_def
      spool_pdf_def spool_report_def join_path_def lit_def)

text \<open>C20: without faults the comparison in blocks returns, and it is equality of the contents, whatever
  the reads return; an absent file compares different.\<close>

theorem file_comparison_is_equality:
  assumes "calm d" "dk_files d a = Some x" "b \<notin> set (dk_dirs d)"
  shows "fst (same_file_content a b d) = Inr (dk_files d b = Some x)"
  by (rule same_file_calm [OF assms])

lemma file_comparison_is_equality_witness:
  "fst (same_file_content (spool_pdf (lit ''s'')) (lit ''in/fax.pdf'') (sample_disk [])) =
     Inr (dk_files (sample_disk []) (lit ''in/fax.pdf'') = Some [1, 2, 3])"
  by (rule file_comparison_is_equality)
    (simp_all add: calm_def sample_disk_def sample_env_def spool_pdf_def join_path_def lit_def)

text \<open>C21: a normalised TIFF has the length of the original, and exactly the bytes of the validated
  strips are reversed, each once; no strip lies outside the file.\<close>

theorem normalization_reverses_strips_once:
  assumes "li_directories lib bytes = Inr ts" "normalize lib bytes = Inr (out, pages, damage)"
  shows "length out = length bytes \<and> pages \<le> 250 \<and>
    (\<forall>i < length bytes. out ! i =
       (if \<exists>r \<in> set (fst (scan_directories (length bytes) 250 ts [] 0)). in_range i r
        then word_reverse (bytes ! i) else bytes ! i)) \<and>
    (\<forall>(start, stop) \<in> set (fst (scan_directories (length bytes) 250 ts [] 0)). start \<le> stop \<and> stop \<le> length bytes)"
proof -
  obtain rs k dm where s: "scan_directories (length bytes) 250 ts [] 0 = (rs, k, dm)" using prod_cases3 by blast
  have b: "(\<forall>(a, b) \<in> set rs. a \<le> b \<and> b \<le> length bytes) \<and> k \<le> 250" using scan_bounds [OF s] by simp
  have r: "reverse_ranges 0 (sort_key fst rs) bytes = Inr out" "pages = k"
    using assms s by (auto simp: normalize_def res_bind_Inr_iff)
  have "\<forall>(start, stop) \<in> set (sort_key fst rs). start \<le> stop \<and> stop \<le> length bytes" using b by simp
  from reverse_ranges_spec [OF r(1) this] r(2) b s show ?thesis by simp
qed

lemma normalization_reverses_strips_once_witness:
  "([1, 128] :: byte list) ! 1 =
     (if \<exists>r \<in> set (fst (scan_directories (length ([1, 1] :: byte list)) 250 [sample_strip] [] 0)). in_range 1 r
      then word_reverse (([1, 1] :: byte list) ! 1) else [1, 1] ! 1)"
proof -
  have l: "li_directories sample_library [1, 1] = Inr [sample_strip]" by (simp add: sample_library_def)
  have n: "normalize sample_library [1, 1] = Inr ([1, 128], 1, None)" by code_simp
  have "(1 :: nat) < length ([1, 1] :: byte list)" by simp
  with normalization_reverses_strips_once [OF l n] show ?thesis by blast
qed

text \<open>A finding: the runtime records an export whose last journal failed as failed, although the
  fax is published, and the next attempt publishes it a second time.\<close>

definition second_publication :: "byte list option \<times> byte list option" where
  "second_publication =
     (case export sample_library sample_spool (sample_disk [18]) of (_, d) \<Rightarrow>
      case export sample_library sample_spool
             (d\<lparr>dk_env := sample_env [], dk_fax := export_failed (EIo (lit ''lost'')) (dk_fax d)\<rparr>) of (_, e) \<Rightarrow>
        (dk_files e (lit ''in/fax-2.pdf''), dk_files e (lit ''in/fax-3.pdf'')))"

theorem lost_journal_publishes_twice: "second_publication = (Some [1, 2, 3], Some [1, 2, 3])"
  by code_simp

end
