(* ===== verification/FaxSession.thy ===== *)
theory FaxSession
  imports Receive Network
begin

text \<open>
  The fax sessions around SpanDSP (\<open>fax.rs\<close>, \<open>fax/progress.rs\<close>): the storage its callbacks write, the
  events drained from it, the queue of T.38 packets, and the page progress decoded from the frames
  that finished transmission. SpanDSP itself is the parameter \<open>dsp\<close>: an operation of it yields its new
  state and the callbacks it made, in order, and is told how many packets the queue still takes.
\<close>

section \<open>SpanDSP\<close>

record t30_stats =
  tt_pages_tx :: int
  tt_pages_rx :: int
  tt_length :: int
  tt_bit_rate :: int
  tt_ecm :: int
  tt_width :: int
  tt_x_resolution :: int
  tt_y_resolution :: int
  tt_image_length :: int
  tt_image_y_resolution :: int
  tt_compression :: int

datatype t38_field = T4NonEcmData | T4NonEcmSigEnd | OtherField int

text \<open>\<open>CbFrame\<close> and \<open>CbPacket\<close> carry the transfer statistics at the time of the call.\<close>

datatype callback =
    CbPhaseB
  | CbPhaseD
  | CbPhaseE int
  | CbFrame t30_stats bool "byte list"
  | CbPacket t30_stats "byte list" int

datatype modems = ModemsDefault | ModemsV27V29 | ModemsV27

text \<open>\<open>ds_decoder\<close>: the image decoder for a page, if it can be set up; \<open>ds_monitor\<close>: the T.38 core that
  watches the transmitted packets and the fields it reports.\<close>

record ('m, 'd, 'k) dsp =
  ds_audio :: "bool \<Rightarrow> native_error + 'm"
  ds_packet :: "bool \<Rightarrow> native_error + 'm"
  ds_configure :: "bool \<Rightarrow> path \<Rightarrow> utext \<Rightarrow> 'm \<Rightarrow> native_error + 'm"
  ds_set_ecm :: "bool \<Rightarrow> 'm \<Rightarrow> native_error + 'm"
  ds_set_modems :: "modems \<Rightarrow> 'm \<Rightarrow> native_error + 'm"
  ds_rx :: "i16 list \<Rightarrow> 'm \<Rightarrow> callback list \<times> 'm"
  ds_tx :: "'m \<Rightarrow> i16 list \<times> callback list \<times> 'm"
  ds_rx_ifp :: "nat \<Rightarrow> byte list \<Rightarrow> u16 \<Rightarrow> 'm \<Rightarrow> (native_error + unit) \<times> callback list \<times> 'm"
  ds_timeout :: "nat \<Rightarrow> 'm \<Rightarrow> callback list \<times> 'm"
  ds_terminate :: "nat \<Rightarrow> 'm \<Rightarrow> callback list \<times> 'm"
  ds_finalize :: "'m \<Rightarrow> receive_report \<times> 'm"
  ds_stats :: "'m \<Rightarrow> t30_stats"
  ds_reason :: "int \<Rightarrow> utext"
  ds_decoder :: "t30_stats \<Rightarrow> 'd option"
  ds_put :: "byte list \<Rightarrow> 'd \<Rightarrow> 'd"
  ds_rows :: "'d \<Rightarrow> int"
  ds_monitor :: "native_error + 'k"
  ds_monitor_rx :: "byte list \<Rightarrow> u16 \<Rightarrow> 'k \<Rightarrow> (t38_field \<times> byte list) list \<times> 'k"

section \<open>Stages as text\<close>

fun show_stage :: "fax_stage \<Rightarrow> utext" where
  "show_stage SConnecting = lit ''Setting up connection''"
| "show_stage SSecuring = lit ''Securing connection with TLS''"
| "show_stage SRegistering = lit ''Registering with SIP server''"
| "show_stage SCalling = lit ''Calling destination''"
| "show_stage SRinging = lit ''Waiting for answer''"
| "show_stage SConnected = lit ''Call answered '' @ [183] @ lit '' setting up media''"
| "show_stage SOfferingT38 = lit ''Negotiating T.38''"
| "show_stage SFallingBack = lit ''Switching to G.711''"
| "show_stage SNegotiating = lit ''Negotiating fax capabilities''"
| "show_stage SSendingT38 = lit ''Sending over T.38''"
| "show_stage SSendingG711 = lit ''Sending over G.711''"
| "show_stage SConfirming = lit ''Confirming delivery''"

section \<open>Page progress (fax/progress.rs)\<close>

record ('d) page_decoder =
  pd_state :: 'd
  pd_page :: nat
  pd_total :: nat

record ('d) progress_state =
  pg_decoder :: "'d page_decoder option"
  pg_pending :: "byte list option"
  pg_seen :: "byte \<Rightarrow> bool"
  pg_awaiting_ack :: bool
  pg_reported :: "(nat \<times> nat) option"
  pg_image_ready :: bool

definition progress_default :: "'d progress_state" where
  "progress_default = \<lparr>pg_decoder = None, pg_pending = None, pg_seen = (\<lambda>_. False), pg_awaiting_ack = False,
     pg_reported = None, pg_image_ready = False\<rparr>"

definition to_u32 :: "int \<Rightarrow> nat" where
  "to_u32 n = nat (max n 0)"

definition decoder_new :: "('m, 'd, 'k) dsp \<Rightarrow> t30_stats \<Rightarrow> 'd page_decoder option" where
  "decoder_new lib s =
     (if tt_image_length s \<le> 0 \<or> tt_image_y_resolution s \<le> 0 \<or> tt_y_resolution s \<le> 0 then None
      else let rows = nat (tt_image_length s) * nat (tt_y_resolution s) div nat (tt_image_y_resolution s)
           in map_option (\<lambda>d. \<lparr>pd_state = d, pd_page = to_u32 (tt_pages_tx s), pd_total = min (max rows 1) (2 ^ 32 - 1)\<rparr>)
                (ds_decoder lib s))"

text \<open>Feed bytes to the decoder of the current page, if there is one.\<close>

definition feed :: "('m, 'd, 'k) dsp \<Rightarrow> byte list \<Rightarrow> 'd progress_state \<Rightarrow> 'd progress_state" where
  "feed lib bytes p = p\<lparr>pg_decoder := map_option (\<lambda>d. d\<lparr>pd_state := ds_put lib bytes (pd_state d)\<rparr>) (pg_decoder p)\<rparr>"

definition credit :: "('m, 'd, 'k) dsp \<Rightarrow> 'd progress_state \<Rightarrow> 'd progress_state" where
  "credit lib p = (case pg_pending p of None \<Rightarrow> p | Some bytes \<Rightarrow> (feed lib bytes p)\<lparr>pg_pending := None\<rparr>)"

definition decodes :: "nat \<Rightarrow> 'd progress_state \<Rightarrow> bool" where
  "decodes page p = (case pg_decoder p of None \<Rightarrow> False | Some d \<Rightarrow> pd_page d = page)"

definition image_frame :: "('m, 'd, 'k) dsp \<Rightarrow> t30_stats \<Rightarrow> byte list \<Rightarrow> 'd progress_state \<Rightarrow> 'd progress_state" where
  "image_frame lib s frame p =
     (let p = (if decodes (to_u32 (tt_pages_tx s)) p then p
               else p\<lparr>pg_decoder := decoder_new lib s, pg_seen := (\<lambda>_. False)\<rparr>);
          sequence = frame ! 3
      in if \<not> pg_seen p sequence \<and> pg_decoder p \<noteq> None
         then p\<lparr>pg_seen := (pg_seen p)(sequence := True), pg_pending := Some (drop 4 frame)\<rparr> else p)"

definition progress_frame ::
  "('m, 'd, 'k) dsp \<Rightarrow> t30_stats \<Rightarrow> bool \<Rightarrow> byte list \<Rightarrow> 'd progress_state \<Rightarrow> 'd progress_state" where
  "progress_frame lib s incoming frame p =
     (if length frame < 3 then p
      else let kind = frame ! 2 AND 0xFE
      in if tt_ecm s = 0
         then if incoming \<and> kind = 0x84 then p\<lparr>pg_image_ready := True, pg_decoder := None\<rparr>
              else if incoming \<and> kind = 0x44 then p\<lparr>pg_image_ready := False\<rparr> else p
         else if incoming
         then if kind = 0x8C \<and> pg_awaiting_ack p then p\<lparr>pg_seen := (\<lambda>_. False), pg_awaiting_ack := False\<rparr> else p
         else let p = credit lib p;
                  p = (if kind = 0xBE then p\<lparr>pg_awaiting_ack := True\<rparr> else p)
              in if kind \<noteq> 0x06 \<or> length frame < 5 then p else image_frame lib s frame p)"

definition progress_non_ecm :: "('m, 'd, 'k) dsp \<Rightarrow> t30_stats \<Rightarrow> byte list \<Rightarrow> 'd progress_state \<Rightarrow> 'd progress_state" where
  "progress_non_ecm lib s bytes p =
     (if tt_ecm s \<noteq> 0 \<or> \<not> pg_image_ready p then p
      else feed lib bytes (if decodes (to_u32 (tt_pages_tx s)) p then p else p\<lparr>pg_decoder := decoder_new lib s\<rparr>))"

definition progress_update ::
  "('m, 'd, 'k) dsp \<Rightarrow> 'd progress_state \<Rightarrow> page_progress option \<times> 'd progress_state" where
  "progress_update lib p =
     (case pg_decoder p of
        None \<Rightarrow> (None, p)
      | Some d \<Rightarrow>
          let rows = min (to_u32 (ds_rows lib (pd_state d))) (pd_total d);
              key = (pd_page d, rows * 100 div pd_total d)
          in if pg_reported p = Some key then (None, p)
             else (Some \<lparr>pp_page = pd_page d, pp_rows = rows, pp_total = pd_total d\<rparr>, p\<lparr>pg_reported := Some key\<rparr>))"

section \<open>Callback storage (fax.rs)\<close>

record ifp_packet =
  ifp_payload :: "byte list"
  ifp_repetitions :: nat

record ('d, 'k) callbacks =
  cb_negotiated :: bool
  cb_page :: bool
  cb_completion :: "int option"
  cb_packets :: "ifp_packet list"
  cb_progress :: "'d progress_state"
  cb_frames :: bool
  cb_monitor :: "'k option"
  cb_monitor_sequence :: u16

definition callbacks_default :: "('d, 'k) callbacks" where
  "callbacks_default = \<lparr>cb_negotiated = False, cb_page = False, cb_completion = None, cb_packets = [],
     cb_progress = progress_default, cb_frames = False, cb_monitor = None, cb_monitor_sequence = 0\<rparr>"

definition statistics :: "t30_stats \<Rightarrow> transfer_stats" where
  "statistics s = \<lparr>ts_sent_pages = to_u32 (tt_pages_tx s), ts_received_pages = to_u32 (tt_pages_rx s),
     ts_received_rows = to_u32 (tt_length s), ts_bit_rate = to_u32 (tt_bit_rate s), ts_ecm = (tt_ecm s \<noteq> 0)\<rparr>"

definition completed :: "('m, 'd, 'k) dsp \<Rightarrow> t30_stats \<Rightarrow> int \<Rightarrow> fax_event" where
  "completed lib s code =
     EvCompleted (if code = 0 then Inr (statistics s)
                  else Inl \<lparr>failure_code = code, failure_reason = ds_reason lib code, failure_stats = statistics s\<rparr>)"

definition callback_events ::
  "('m, 'd, 'k) dsp \<Rightarrow> t30_stats \<Rightarrow> ('d, 'k) callbacks \<Rightarrow> fax_event list \<times> ('d, 'k) callbacks" where
  "callback_events lib s c =
     (case progress_update lib (cb_progress c) of (progress, g) \<Rightarrow>
        ((case progress of Some x \<Rightarrow> [EvPageProgress x] | None \<Rightarrow> []) @
         (if cb_negotiated c then [EvNegotiated] else []) @
         (if cb_page c then [EvPageAcknowledged (statistics s)] else []) @
         (case cb_completion c of Some code \<Rightarrow> [completed lib s code] | None \<Rightarrow> []),
         c\<lparr>cb_progress := g, cb_negotiated := False, cb_page := False, cb_completion := None\<rparr>))"

definition monitor_data ::
  "('m, 'd, 'k) dsp \<Rightarrow> t30_stats \<Rightarrow> t38_field \<times> byte list \<Rightarrow> ('d, 'k) callbacks \<Rightarrow> ('d, 'k) callbacks" where
  "monitor_data lib s = (\<lambda>(field, bytes) c.
     if field \<notin> {T4NonEcmData, T4NonEcmSigEnd} \<or> bytes = [] then c
     else c\<lparr>cb_progress := progress_non_ecm lib s (map word_reverse bytes) (cb_progress c)\<rparr>)"

definition packet_room :: nat where "packet_room = 1024"

definition tx_packet ::
  "('m, 'd, 'k) dsp \<Rightarrow> t30_stats \<Rightarrow> byte list \<Rightarrow> int \<Rightarrow> ('d, 'k) callbacks \<Rightarrow> int \<times> ('d, 'k) callbacks" where
  "tx_packet lib s bytes repetitions c =
     (if bytes = [] \<or> repetitions \<le> 0 then (0, c)
      else if length (cb_packets c) \<ge> packet_room \<or> length bytes > 65535 then (-1, c)
      else let c = c\<lparr>cb_packets := cb_packets c @ [\<lparr>ifp_payload = bytes, ifp_repetitions = nat repetitions\<rparr>]\<rparr>
           in case cb_monitor c of
                None \<Rightarrow> (0, c)
              | Some k \<Rightarrow>
                  (case ds_monitor_rx lib bytes (cb_monitor_sequence c) k of (reported, k) \<Rightarrow>
                     (0, fold (monitor_data lib s) reported
                           (c\<lparr>cb_monitor := Some k, cb_monitor_sequence := cb_monitor_sequence c + 1\<rparr>))))"

definition transmit_frame ::
  "('m, 'd, 'k) dsp \<Rightarrow> t30_stats \<Rightarrow> bool \<Rightarrow> byte list \<Rightarrow> ('d, 'k) callbacks \<Rightarrow> ('d, 'k) callbacks" where
  "transmit_frame lib s incoming bytes c =
     (if length bytes < 3 then c else c\<lparr>cb_progress := progress_frame lib s incoming bytes (cb_progress c)\<rparr>)"

fun run_callback :: "('m, 'd, 'k) dsp \<Rightarrow> callback \<Rightarrow> ('d, 'k) callbacks \<Rightarrow> ('d, 'k) callbacks" where
  "run_callback lib CbPhaseB c = c\<lparr>cb_negotiated := True\<rparr>"
| "run_callback lib CbPhaseD c = c\<lparr>cb_page := True\<rparr>"
| "run_callback lib (CbPhaseE code) c = c\<lparr>cb_completion := Some code\<rparr>"
| "run_callback lib (CbFrame s incoming bytes) c = (if cb_frames c then transmit_frame lib s incoming bytes c else c)"
| "run_callback lib (CbPacket s bytes repetitions) c = snd (tx_packet lib s bytes repetitions c)"

section \<open>Sessions\<close>

record ('m, 'd, 'k) fax_session =
  fs_state :: 'm
  fs_callbacks :: "('d, 'k) callbacks"

definition ran :: "('m, 'd, 'k) dsp \<Rightarrow> callback list \<times> 'm \<Rightarrow> ('m, 'd, 'k) fax_session \<Rightarrow> ('m, 'd, 'k) fax_session" where
  "ran lib r f = \<lparr>fs_state = snd r, fs_callbacks = fold (run_callback lib) (fst r) (fs_callbacks f)\<rparr>"

definition room :: "('m, 'd, 'k) fax_session \<Rightarrow> nat" where
  "room f = packet_room - length (cb_packets (fs_callbacks f))"

definition station_ok :: "utext \<Rightarrow> bool" where
  "station_ok station \<longleftrightarrow> length station \<le> 20 \<and> list_all (\<lambda>c. c < 128 \<and> \<not> is_control c) station"

definition configure ::
  "('m, 'd, 'k) dsp \<Rightarrow> bool \<Rightarrow> path \<Rightarrow> utext \<Rightarrow> ('m, 'd, 'k) fax_session \<Rightarrow> native_error + ('m, 'd, 'k) fax_session" where
  "configure lib transmitting file station f =
     (if \<not> station_ok station
      then Inl (NInvalid (lit ''Station ID must be at most 20 printable ASCII characters''))
      else res_bind (ds_configure lib transmitting file station (fs_state f)) (\<lambda>m.
        Inr (f\<lparr>fs_state := m, fs_callbacks := (fs_callbacks f)\<lparr>cb_frames := transmitting\<rparr>\<rparr>)))"

definition audio_fax ::
  "('m, 'd, 'k) dsp \<Rightarrow> bool \<Rightarrow> path \<Rightarrow> utext \<Rightarrow> native_error + ('m, 'd, 'k) fax_session" where
  "audio_fax lib transmitting file station =
     res_bind (ds_audio lib transmitting) (\<lambda>m.
     configure lib transmitting file station \<lparr>fs_state = m, fs_callbacks = callbacks_default\<rparr>)"

definition packet_fax ::
  "('m, 'd, 'k) dsp \<Rightarrow> bool \<Rightarrow> path \<Rightarrow> utext \<Rightarrow> native_error + ('m, 'd, 'k) fax_session" where
  "packet_fax lib transmitting file station =
     res_bind (if transmitting then res_bind (ds_monitor lib) (\<lambda>k. Inr (Some k)) else Inr None) (\<lambda>monitor.
     res_bind (ds_packet lib transmitting) (\<lambda>m.
     configure lib transmitting file station
       \<lparr>fs_state = m, fs_callbacks = callbacks_default\<lparr>cb_monitor := monitor\<rparr>\<rparr>))"

definition with_ecm ::
  "('m, 'd, 'k) dsp \<Rightarrow> bool \<Rightarrow> native_error + ('m, 'd, 'k) fax_session \<Rightarrow> native_error + ('m, 'd, 'k) fax_session" where
  "with_ecm lib ecm r =
     res_bind r (\<lambda>f. res_bind (ds_set_ecm lib ecm (fs_state f)) (\<lambda>m. Inr (f\<lparr>fs_state := m\<rparr>)))"

definition modems_for :: "nat \<Rightarrow> modems" where
  "modems_for bit_rate = (if bit_rate \<ge> 14400 then ModemsDefault else if bit_rate \<ge> 9600 then ModemsV27V29 else ModemsV27)"

definition limit_bit_rate ::
  "('m, 'd, 'k) dsp \<Rightarrow> nat \<Rightarrow> ('m, 'd, 'k) fax_session \<Rightarrow> native_error + ('m, 'd, 'k) fax_session" where
  "limit_bit_rate lib bit_rate f =
     res_bind (ds_set_modems lib (modems_for bit_rate) (fs_state f)) (\<lambda>m. Inr (f\<lparr>fs_state := m\<rparr>))"

definition hear :: "('m, 'd, 'k) dsp \<Rightarrow> i16 list \<Rightarrow> ('m, 'd, 'k) fax_session \<Rightarrow> ('m, 'd, 'k) fax_session" where
  "hear lib frame f = ran lib (ds_rx lib frame (fs_state f)) f"

definition speak :: "('m, 'd, 'k) dsp \<Rightarrow> ('m, 'd, 'k) fax_session \<Rightarrow> i16 list \<times> ('m, 'd, 'k) fax_session" where
  "speak lib f = (case ds_tx lib (fs_state f) of (samples, r) \<Rightarrow> (samples, ran lib r f))"

definition take_packet ::
  "('m, 'd, 'k) dsp \<Rightarrow> u16 \<Rightarrow> byte list \<Rightarrow> ('m, 'd, 'k) fax_session \<Rightarrow> (native_error + unit) \<times> ('m, 'd, 'k) fax_session" where
  "take_packet lib sequence payload f =
     (if length payload > 65535 then (Inl (NInvalid (lit ''IFP payload exceeds a UDP datagram'')), f)
      else case ds_rx_ifp lib (room f) payload sequence (fs_state f) of (r, s) \<Rightarrow> (r, ran lib s f))"

definition tick_fax :: "('m, 'd, 'k) dsp \<Rightarrow> ('m, 'd, 'k) fax_session \<Rightarrow> ('m, 'd, 'k) fax_session" where
  "tick_fax lib f = ran lib (ds_timeout lib (room f) (fs_state f)) f"

definition drain_packets :: "('m, 'd, 'k) fax_session \<Rightarrow> ifp_packet list \<times> ('m, 'd, 'k) fax_session" where
  "drain_packets f = (cb_packets (fs_callbacks f), f\<lparr>fs_callbacks := (fs_callbacks f)\<lparr>cb_packets := []\<rparr>\<rparr>)"

text \<open>The code fetches the T.30 state of the session first, with an error when the session has none. A session
  that was configured (\<open>configure\<close> fetched it) has one as long as it lives, so there is no error here.\<close>

definition fax_events :: "('m, 'd, 'k) dsp \<Rightarrow> ('m, 'd, 'k) fax_session \<Rightarrow> fax_event list \<times> ('m, 'd, 'k) fax_session" where
  "fax_events lib f =
     (case callback_events lib (ds_stats lib (fs_state f)) (fs_callbacks f) of (es, c) \<Rightarrow> (es, f\<lparr>fs_callbacks := c\<rparr>))"

definition end_fax :: "('m, 'd, 'k) dsp \<Rightarrow> ('m, 'd, 'k) fax_session \<Rightarrow> fax_event list \<times> ('m, 'd, 'k) fax_session" where
  "end_fax lib f = fax_events lib (ran lib (ds_terminate lib (room f) (fs_state f)) f)"

definition finalize_fax :: "('m, 'd, 'k) dsp \<Rightarrow> ('m, 'd, 'k) fax_session \<Rightarrow> receive_report \<times> ('m, 'd, 'k) fax_session" where
  "finalize_fax lib f = (case ds_finalize lib (fs_state f) of (report, m) \<Rightarrow> (report, f\<lparr>fs_state := m\<rparr>))"

end
