(* ===== verification/Sockets.thy ===== *)
theory Sockets
  imports Network
begin

text \<open>
  The sockets of a call (\<open>network.rs\<close>): the search for an RTP/RTCP port pair and the STUN mappings of
  the two media sockets, which the networks of the call share.
\<close>

record sockets =
  sk_audio_port :: nat
  sk_rtcp_port :: nat
  sk_fax_port :: nat
  sk_automatic :: bool
  sk_audio_mapping :: "stun_mapping option"
  sk_fax_mapping :: "stun_mapping option"

section \<open>Binding\<close>

text \<open>One round of the search: the port or error of the audio socket, whether the port after it could be
  bound, the port or error of the fax socket, and an error of switching to non-blocking use.\<close>

record bind_round =
  br_audio :: "native_error + nat"
  br_rtcp :: bool
  br_fax :: "native_error + nat"
  br_setup :: "native_error option"

definition bound :: "nat \<Rightarrow> nat \<Rightarrow> sockets" where
  "bound audio fax = \<lparr>sk_audio_port = audio, sk_rtcp_port = audio + 1, sk_fax_port = fax, sk_automatic = False,
     sk_audio_mapping = None, sk_fax_mapping = None\<rparr>"

function bind_rounds :: "nat \<Rightarrow> (nat \<Rightarrow> bind_round) \<Rightarrow> native_error + sockets" where
  "bind_rounds n rounds =
     (if n \<ge> 100 then Inl (NSip (lit ''Could not allocate an RTP/RTCP port pair''))
      else res_bind (br_audio (rounds n)) (\<lambda>port.
        if port mod 2 \<noteq> 0 \<or> \<not> br_rtcp (rounds n) then bind_rounds (Suc n) rounds
        else res_bind (br_fax (rounds n)) (\<lambda>fax.
          case br_setup (rounds n) of Some e \<Rightarrow> Inl e | None \<Rightarrow> Inr (bound port fax))))"
  by pat_completeness auto
termination by (relation "measure (\<lambda>(n, _). 100 - n)") auto

declare bind_rounds.simps [simp del]

definition bind_sockets :: "(nat \<Rightarrow> bind_round) \<Rightarrow> native_error + sockets" where
  "bind_sockets rounds = bind_rounds 0 rounds"

section \<open>Mappings\<close>

text \<open>What one poll of a mapping sees: the clock before and after sending, a fresh transaction, the
  socket's error, and the readable datagrams with the error of taking each.\<close>

record poll_input =
  pi_now :: instant
  pi_later :: instant
  pi_fresh :: "byte list"
  pi_failure :: "native_error option"
  pi_readable :: "(sock_addr \<times> byte list \<times> native_error option) list"

fun drain_stun ::
  "nat \<Rightarrow> (sock_addr \<times> byte list \<times> native_error option) list \<Rightarrow> stun_mapping \<Rightarrow>
   (native_error + unit) \<times> stun_mapping" where
  "drain_stun n [] m = (Inr (), m)"
| "drain_stun n ((source, bytes, failure) # rest) m =
     (if n = 0 \<or> source \<noteq> sm_server m \<or> \<not> is_stun bytes then (Inr (), m)
      else case failure of
        Some e \<Rightarrow> (Inl e, m)
      | None \<Rightarrow> drain_stun (n - 1) rest (snd (mapping_receive source bytes m)))"

definition poll_mapping :: "poll_input \<Rightarrow> stun_mapping option \<Rightarrow> (native_error + unit) \<times> stun_mapping option" where
  "poll_mapping i m =
     (case m of
        None \<Rightarrow> (Inr (), None)
      | Some m \<Rightarrow>
          (case mapping_tick (pi_now i) (pi_later i) (pi_fresh i) (pi_failure i) m of
             (Inl e, m, _) \<Rightarrow> (Inl e, Some m)
           | (Inr _, m, _) \<Rightarrow> (case drain_stun 16 (pi_readable i) m of (r, m) \<Rightarrow> (r, Some m))))"

definition poll_mappings :: "poll_input \<Rightarrow> poll_input \<Rightarrow> sockets \<Rightarrow> (native_error + unit) \<times> sockets" where
  "poll_mappings audio fax s =
     (case poll_mapping audio (sk_audio_mapping s) of
        (Inl e, m) \<Rightarrow> (Inl e, s\<lparr>sk_audio_mapping := m\<rparr>)
      | (Inr _, m) \<Rightarrow>
          (case poll_mapping fax (sk_fax_mapping s) of
             (r, k) \<Rightarrow> (r, s\<lparr>sk_audio_mapping := m, sk_fax_mapping := k\<rparr>)))"

text \<open>\<open>fresh\<close> and \<open>nows\<close>: the transactions and clocks of the two new mappings.\<close>

definition configure_nat ::
  "bool \<Rightarrow> sock_addr option \<Rightarrow> byte list \<times> byte list \<Rightarrow> (instant \<times> instant) \<times> (instant \<times> instant) \<Rightarrow>
   poll_input \<Rightarrow> poll_input \<Rightarrow> sockets \<Rightarrow> (native_error + unit) \<times> sockets" where
  "configure_nat automatic server fresh nows audio fax s =
     (let s = s\<lparr>sk_automatic := automatic\<rparr>
      in case server of
           None \<Rightarrow> (Inr (), s)
         | Some address \<Rightarrow>
             if \<not> automatic then (Inr (), s)
             else poll_mappings audio fax
                    (s\<lparr>sk_audio_mapping := Some (mapping_new address (fst fresh) (fst (fst nows)) (snd (fst nows))),
                       sk_fax_mapping := Some (mapping_new address (snd fresh) (fst (snd nows)) (snd (snd nows)))\<rparr>))"

definition mappings :: "sockets \<Rightarrow> stun_mapping list" where
  "mappings s = (case sk_audio_mapping s of Some m \<Rightarrow> [m] | None \<Rightarrow> []) @ (case sk_fax_mapping s of Some m \<Rightarrow> [m] | None \<Rightarrow> [])"

definition sockets_deadline :: "instant \<Rightarrow> sockets \<Rightarrow> instant option" where
  "sockets_deadline now s =
     (case map (mapping_deadline now) (mappings s) of [] \<Rightarrow> None | t # ts \<Rightarrow> Some (fold min ts t))"

definition sockets_pending :: "instant \<Rightarrow> sockets \<Rightarrow> bool" where
  "sockets_pending now s = list_ex (mapping_pending now) (mappings s)"

definition mapped_local :: "sockets \<Rightarrow> local_media \<Rightarrow> local_media" where
  "mapped_local s l =
     (case (Option.bind (sk_audio_mapping s) sm_address, Option.bind (sk_fax_mapping s) sm_address) of
        (Some audio, Some fax) \<Rightarrow>
          if fst audio = fst fax
          then l\<lparr>lm_ip := fst audio, lm_audio_port := snd audio, lm_fax_port := snd fax\<rparr> else l
      | _ \<Rightarrow> l)"

text \<open>A successful search yields a pair of an even port and the next one.\<close>

lemma bind_rounds_pair:
  "bind_rounds n rounds = Inr s \<Longrightarrow> even (sk_audio_port s) \<and> sk_rtcp_port s = sk_audio_port s + 1"
proof (induction n rounds rule: bind_rounds.induct)
  case (1 n rounds)
  obtain port where n: "\<not> n \<ge> 100" and a: "br_audio (rounds n) = Inr port"
    using 1(2) by (subst (asm) bind_rounds.simps) (auto simp: res_bind_Inr_iff split: if_splits)
  show ?case
  proof (cases "port mod 2 \<noteq> 0 \<or> \<not> br_rtcp (rounds n)")
    case True
    then have "bind_rounds (Suc n) rounds = Inr s" using 1(2) n a by (subst (asm) bind_rounds.simps) simp
    with 1(1) [OF n True] show ?thesis by simp
  next
    case False
    then have "\<exists>fax. s = bound port fax"
      using 1(2) n a by (subst (asm) bind_rounds.simps) (auto simp: res_bind_Inr_iff split: option.splits)
    with False show ?thesis by (auto simp: bound_def even_iff_mod_2_eq_zero)
  qed
qed

end
