(* ===== verification/CallPump.thy ===== *)
theory CallPump
  imports FaxSession Sockets
begin

text \<open>
  The pump of one call (\<open>CallPump\<close> in \<open>sip.rs\<close>): it consumes the events of the SIP callbacks, negotiates
  T.38 or G.711 by re-INVITEs, starts the fax once the transport is settled, and exchanges one media
  frame every 20 ms. Every reading of the clock, the cancellation, the sockets and the SIP stack is an
  answer of the environment at the current tick; every command to SIP, the media sent and the progress
  reported are outputs.
\<close>

section \<open>State\<close>

datatype call_event =
    CeRinging
  | CeConnected
  | CeDisconnected int utext
  | CePeerHangup utext
  | CeMedia utext
  | CeMediaError utext
  | CeInviteStarted int
  | CeInviteFinal int int
  | CeRegistered int utext
  | CeFlow

datatype ('m, 'd, 'k) fax_media = FmAudio "('m, 'd, 'k) fax_session" | FmPackets "('m, 'd, 'k) fax_session"

text \<open>\<open>Waiting kind cseq since cancelling ready\<close>.\<close>

datatype attempt =
    NotStarted
  | Backoff instant
  | Waiting media_kind int instant bool bool
  | Accepted
  | Refused

datatype call_output =
    OutProgress fax_event
  | OutInvite media_kind
  | OutReleaseInvite
  | OutReinvite media_kind
  | OutCancelReinvite int
  | OutSwitch bool
  | OutAudio "byte list" sock_addr
  | OutPacket "byte list"

text \<open>\<open>ce_recover\<close> is the redundancy receiver of the \<open>udptl\<close> crate, whose packets carry their sequence.\<close>

record ('m, 'd, 'k, 'r) call_env =
  ce_dsp :: "('m, 'd, 'k) dsp"
  ce_decode :: "g711 \<Rightarrow> byte \<Rightarrow> i16"
  ce_encode :: "g711 \<Rightarrow> i16 list \<Rightarrow> byte list"
  ce_udptl :: udptl_encode
  ce_parse_udptl :: "byte list \<Rightarrow> (u16 \<times> byte list) option"
  ce_recover :: "'r \<Rightarrow> byte list \<Rightarrow> (u16 \<times> byte list) list \<times> 'r"
  ce_no_recovery :: 'r
  ce_tone :: "nat \<Rightarrow> i16"
  ce_cancelled :: "nat \<Rightarrow> bool"
  ce_clock :: "nat \<Rightarrow> instant"
  ce_poll :: "nat \<Rightarrow> poll_input \<times> poll_input"
  ce_events :: "nat \<Rightarrow> call_event list"
  ce_invite :: "nat \<Rightarrow> native_error option"
  ce_reinvite :: "nat \<Rightarrow> native_error + int"
  ce_cancel :: "nat \<Rightarrow> native_error option"
  ce_datagrams :: "nat \<Rightarrow> (instant \<times> received) list"
  ce_send :: "nat \<Rightarrow> nat \<Rightarrow> native_error option"
  ce_random :: "nat \<Rightarrow> byte list"

record send_request =
  rq_call_mode :: call_mode
  rq_file :: path
  rq_station :: utext
  rq_delay :: nat

record ('m, 'd, 'k, 'r) pump =
  pu_env :: "('m, 'd, 'k, 'r) call_env"
  pu_ticks :: nat
  pu_out :: "call_output list"
  pu_request :: send_request
  pu_sockets :: sockets
  pu_started :: instant
  pu_connected :: "instant option"
  pu_remote :: "remote_media option"
  pu_audio :: "audio_network option"
  pu_packets :: "(packet_network \<times> 'r) option"
  pu_fax :: "('m, 'd, 'k) fax_media option"
  pu_attempt :: attempt
  pu_glare :: nat
  pu_direct_retry :: bool
  pu_next_frame :: instant
  pu_cng :: nat
  pu_last_report :: instant
  pu_reported :: nat
  pu_receiving :: bool
  pu_ecm :: bool

type_synonym ('a, 'm, 'd, 'k, 'r) pumped = "(native_error + 'a) \<times> ('m, 'd, 'k, 'r) pump"

definition pump_new ::
  "('m, 'd, 'k, 'r) call_env \<Rightarrow> send_request \<Rightarrow> sockets \<Rightarrow> bool \<Rightarrow> bool \<Rightarrow> ('m, 'd, 'k, 'r) pump" where
  "pump_new env rq s receiving ecm =
     \<lparr>pu_env = env, pu_ticks = 3, pu_out = [], pu_request = rq, pu_sockets = s, pu_started = ce_clock env 0,
      pu_connected = None, pu_remote = None, pu_audio = None, pu_packets = None, pu_fax = None,
      pu_attempt = NotStarted, pu_glare = 0, pu_direct_retry = False, pu_next_frame = ce_clock env 1,
      pu_cng = 0, pu_last_report = ce_clock env 2, pu_reported = 0, pu_receiving = receiving, pu_ecm = ecm\<rparr>"

section \<open>Effects\<close>

definition tock :: "('m, 'd, 'k, 'r) pump \<Rightarrow> ('m, 'd, 'k, 'r) pump" where
  "tock c = c\<lparr>pu_ticks := Suc (pu_ticks c)\<rparr>"

definition put_out :: "call_output \<Rightarrow> ('m, 'd, 'k, 'r) pump \<Rightarrow> ('m, 'd, 'k, 'r) pump" where
  "put_out x c = c\<lparr>pu_out := pu_out c @ [x]\<rparr>"

definition report :: "fax_event \<Rightarrow> ('m, 'd, 'k, 'r) pump \<Rightarrow> ('m, 'd, 'k, 'r) pump" where
  "report e = put_out (OutProgress e)"

text \<open>One reading of the clock.\<close>

definition clock :: "('m, 'd, 'k, 'r) pump \<Rightarrow> instant" where
  "clock c = ce_clock (pu_env c) (pu_ticks c)"

definition dsp_of :: "('m, 'd, 'k, 'r) pump \<Rightarrow> ('m, 'd, 'k) dsp" where
  "dsp_of c = ce_dsp (pu_env c)"

definition sip_invite :: "media_kind \<Rightarrow> ('m, 'd, 'k, 'r) pump \<Rightarrow> (unit, 'm, 'd, 'k, 'r) pumped" where
  "sip_invite kind c =
     (case ce_invite (pu_env c) (pu_ticks c) of
        Some e \<Rightarrow> (Inl e, tock c) | None \<Rightarrow> (Inr (), put_out (OutInvite kind) (tock c)))"

definition sip_reinvite :: "media_kind \<Rightarrow> ('m, 'd, 'k, 'r) pump \<Rightarrow> (int, 'm, 'd, 'k, 'r) pumped" where
  "sip_reinvite kind c =
     (case ce_reinvite (pu_env c) (pu_ticks c) of
        Inl e \<Rightarrow> (Inl e, tock c) | Inr cseq \<Rightarrow> (Inr cseq, put_out (OutReinvite kind) (tock c)))"

definition sip_cancel :: "int \<Rightarrow> ('m, 'd, 'k, 'r) pump \<Rightarrow> (unit, 'm, 'd, 'k, 'r) pumped" where
  "sip_cancel cseq c =
     (case ce_cancel (pu_env c) (pu_ticks c) of
        Some e \<Rightarrow> (Inl e, tock c) | None \<Rightarrow> (Inr (), put_out (OutCancelReinvite cseq) (tock c)))"

text \<open>A re-INVITE that leaves the pump waiting for its final response. The clock is read afterwards.\<close>

definition offer_media :: "media_kind \<Rightarrow> ('m, 'd, 'k, 'r) pump \<Rightarrow> (unit, 'm, 'd, 'k, 'r) pumped" where
  "offer_media kind c =
     and_then (sip_reinvite kind c) (\<lambda>cseq c.
       (Inr (), tock (c\<lparr>pu_attempt := Waiting kind cseq (clock c) False False\<rparr>)))"

section \<open>Media\<close>

text \<open>The mapping of a network is the one of its socket.\<close>

definition audio_hears :: "('m, 'd, 'k, 'r) pump \<Rightarrow> audio_network \<Rightarrow> (i16 list option, 'm, 'd, 'k, 'r) pumped" where
  "audio_hears c n =
     (let n = n\<lparr>an_mapping := sk_audio_mapping (pu_sockets c)\<rparr>
      in case audio_receive (ce_decode (pu_env c)) (ce_datagrams (pu_env c) (pu_ticks c)) (clock c) n of
           (r, n) \<Rightarrow>
             (r, tock (c\<lparr>pu_audio := Some n, pu_sockets := (pu_sockets c)\<lparr>sk_audio_mapping := an_mapping n\<rparr>\<rparr>)))"

definition audio_sends :: "i16 list \<Rightarrow> ('m, 'd, 'k, 'r) pump \<Rightarrow> audio_network \<Rightarrow> (unit, 'm, 'd, 'k, 'r) pumped" where
  "audio_sends samples c n =
     (case audio_send (ce_encode (pu_env c)) samples (ce_send (pu_env c) (pu_ticks c) 0) n of
        (Inl e, n) \<Rightarrow> (Inl e, tock (c\<lparr>pu_audio := Some n\<rparr>))
      | (Inr (packet, address), n) \<Rightarrow> (Inr (), put_out (OutAudio packet address) (tock (c\<lparr>pu_audio := Some n\<rparr>))))"

definition packets_hear ::
  "('m, 'd, 'k, 'r) pump \<Rightarrow> packet_network \<times> 'r \<Rightarrow> ((u16 \<times> byte list) list, 'm, 'd, 'k, 'r) pumped" where
  "packets_hear c s =
     (let s = ((fst s)\<lparr>pn_mapping := sk_fax_mapping (pu_sockets c)\<rparr>, snd s)
      in case packet_receive (ce_parse_udptl (pu_env c)) (ce_recover (pu_env c)) 64
                (ce_datagrams (pu_env c) (pu_ticks c)) s of
           (r, s) \<Rightarrow>
             (r, tock (c\<lparr>pu_packets := Some s, pu_sockets := (pu_sockets c)\<lparr>sk_fax_mapping := pn_mapping (fst s)\<rparr>\<rparr>)))"

definition packets_send ::
  "ifp_packet \<Rightarrow> ('m, 'd, 'k, 'r) pump \<Rightarrow> packet_network \<times> 'r \<Rightarrow> (unit, 'm, 'd, 'k, 'r) pumped" where
  "packets_send p c s =
     (case packet_send (ce_udptl (pu_env c)) (ce_send (pu_env c) (pu_ticks c)) (clock c) (ifp_repetitions p) (ifp_payload p) (fst s) of
        (Inl e, n) \<Rightarrow> (Inl e, tock (c\<lparr>pu_packets := Some (n, snd s)\<rparr>))
      | (Inr datagram, n) \<Rightarrow> (Inr (), put_out (OutPacket datagram) (tock (c\<lparr>pu_packets := Some (n, snd s)\<rparr>))))"

text \<open>The loop that lets the modem consume due samples, at most 64 frames.\<close>

definition with_audio ::
  "(('m, 'd, 'k, 'r) pump \<Rightarrow> audio_network \<Rightarrow> ('a, 'm, 'd, 'k, 'r) pumped) \<Rightarrow> 'a \<Rightarrow>
   ('m, 'd, 'k, 'r) pump \<Rightarrow> ('a, 'm, 'd, 'k, 'r) pumped" where
  "with_audio k x c = (case pu_audio c of None \<Rightarrow> (Inr x, c) | Some n \<Rightarrow> k c n)"

definition with_packets ::
  "(('m, 'd, 'k, 'r) pump \<Rightarrow> packet_network \<times> 'r \<Rightarrow> ('a, 'm, 'd, 'k, 'r) pumped) \<Rightarrow> 'a \<Rightarrow>
   ('m, 'd, 'k, 'r) pump \<Rightarrow> ('a, 'm, 'd, 'k, 'r) pumped" where
  "with_packets k x c = (case pu_packets c of None \<Rightarrow> (Inr x, c) | Some n \<Rightarrow> k c n)"

definition set_modem :: "('m, 'd, 'k) fax_session \<Rightarrow> ('m, 'd, 'k, 'r) pump \<Rightarrow> ('m, 'd, 'k, 'r) pump" where
  "set_modem f c =
     c\<lparr>pu_fax := (case pu_fax c of Some (FmPackets _) \<Rightarrow> Some (FmPackets f) | _ \<Rightarrow> Some (FmAudio f))\<rparr>"

definition modem :: "('m, 'd, 'k) fax_media \<Rightarrow> ('m, 'd, 'k) fax_session" where
  "modem m = (case m of FmAudio f \<Rightarrow> f | FmPackets f \<Rightarrow> f)"

text \<open>Apply an operation of the session that is running.\<close>

definition on_modem :: "(('m, 'd, 'k) fax_session \<Rightarrow> 'a \<times> ('m, 'd, 'k) fax_session) \<Rightarrow> 'a \<Rightarrow>
  ('m, 'd, 'k, 'r) pump \<Rightarrow> 'a \<times> ('m, 'd, 'k, 'r) pump" where
  "on_modem op x c =
     (case pu_fax c of None \<Rightarrow> (x, c) | Some m \<Rightarrow> (case op (modem m) of (y, f) \<Rightarrow> (y, set_modem f c)))"

definition modem_hears :: "i16 list \<Rightarrow> ('m, 'd, 'k, 'r) pump \<Rightarrow> ('m, 'd, 'k, 'r) pump" where
  "modem_hears frame c = snd (on_modem (\<lambda>f. ((), hear (dsp_of c) frame f)) () c)"

fun hear_frames :: "nat \<Rightarrow> ('m, 'd, 'k, 'r) pump \<Rightarrow> (unit, 'm, 'd, 'k, 'r) pumped" where
  "hear_frames n c =
     (if n = 0 then (Inr (), c)
      else and_then (with_audio audio_hears None c) (\<lambda>frame c.
        case frame of None \<Rightarrow> (Inr (), c) | Some f \<Rightarrow> hear_frames (n - 1) (modem_hears f c)))"

declare hear_frames.simps [simp del]

fun skip_frames :: "nat \<Rightarrow> ('m, 'd, 'k, 'r) pump \<Rightarrow> (unit, 'm, 'd, 'k, 'r) pumped" where
  "skip_frames n c =
     (if n = 0 then (Inr (), c)
      else and_then (with_audio audio_hears None c) (\<lambda>frame c.
        case frame of None \<Rightarrow> (Inr (), c) | Some f \<Rightarrow> skip_frames (n - 1) c))"

declare skip_frames.simps [simp del]

definition modem_events :: "('m, 'd, 'k, 'r) pump \<Rightarrow> fax_event list \<times> ('m, 'd, 'k, 'r) pump" where
  "modem_events c = on_modem (fax_events (dsp_of c)) [] c"

definition modem_ends :: "('m, 'd, 'k, 'r) pump \<Rightarrow> fax_event list \<times> ('m, 'd, 'k, 'r) pump" where
  "modem_ends c = on_modem (end_fax (dsp_of c)) [] c"

fun take_packets :: "(u16 \<times> byte list) list \<Rightarrow> ('m, 'd, 'k, 'r) pump \<Rightarrow> (unit, 'm, 'd, 'k, 'r) pumped" where
  "take_packets [] c = (Inr (), c)"
| "take_packets ((sequence, payload) # ps) c =
     and_then (on_modem (take_packet (dsp_of c) sequence payload) (Inr ()) c) (\<lambda>_. take_packets ps)"

fun send_packets :: "ifp_packet list \<Rightarrow> ('m, 'd, 'k, 'r) pump \<Rightarrow> (unit, 'm, 'd, 'k, 'r) pumped" where
  "send_packets [] c = (Inr (), c)"
| "send_packets (p # ps) c = and_then (with_packets (packets_send p) () c) (\<lambda>_. send_packets ps)"

text \<open>The 20 ms of each kind of call: audio fax, T.38 fax, and audio before the fax starts.\<close>

definition audio_turn :: "('m, 'd, 'k, 'r) pump \<Rightarrow> (fax_event list, 'm, 'd, 'k, 'r) pumped" where
  "audio_turn c =
     and_then (hear_frames 64 c) (\<lambda>_ c.
     case on_modem (speak (dsp_of c)) [] c of (samples, c) \<Rightarrow>
     and_then (with_audio (audio_sends samples) () c) (\<lambda>_ c.
     case pu_audio c of
       Some n \<Rightarrow>
         if clock c - an_last_received n > secs 30
         then (Inl (NSip (lit ''No incoming RTP for 30 seconds'')), tock c)
         else (case modem_events (tock c) of (es, c) \<Rightarrow> (Inr es, c))
     | None \<Rightarrow> (Inr [], c)))"

definition report_activity :: "instant \<Rightarrow> ('m, 'd, 'k, 'r) pump \<Rightarrow> ('m, 'd, 'k, 'r) pump" where
  "report_activity now c =
     (case pu_packets c of
        Some (n, _) \<Rightarrow>
          if \<not> pu_receiving c \<and> pn_transmitted n \<noteq> pu_reported c
          then if clock c - pu_last_report c \<ge> millis 250
               then report (EvT38Activity (pn_transmitted n))
                      (tock (c\<lparr>pu_reported := pn_transmitted n, pu_last_report := now\<rparr>))
               else tock c
          else c
      | None \<Rightarrow> c)"

definition packet_turn :: "instant \<Rightarrow> ('m, 'd, 'k, 'r) pump \<Rightarrow> (fax_event list, 'm, 'd, 'k, 'r) pumped" where
  "packet_turn now c =
     and_then (with_packets packets_hear [] c) (\<lambda>ps c.
     and_then (take_packets ps c) (\<lambda>_ c.
     case on_modem (\<lambda>f. drain_packets (tick_fax (dsp_of c) f)) [] c of (out, c) \<Rightarrow>
     and_then (send_packets out c) (\<lambda>_ c.
     let c = report_activity now c
     in case pu_packets c of
          Some (n, _) \<Rightarrow>
            if clock c - pn_last_activity n > secs 30
            then (Inl (NSip (lit ''No T.38 media activity for 30 seconds'')), tock c)
            else (case modem_events (tock c) of (es, c) \<Rightarrow> (Inr es, c))
        | None \<Rightarrow> (Inr [], c))))"

definition tone_frame :: "('m, 'd, 'k, 'r) pump \<Rightarrow> i16 list" where
  "tone_frame c =
     map (\<lambda>i. let index = pu_cng c + i
              in if \<not> pu_receiving c \<and> index mod 28000 < 4000 then ce_tone (pu_env c) index else 0) [0..<160]"

definition tone_turn :: "('m, 'd, 'k, 'r) pump \<Rightarrow> (fax_event list, 'm, 'd, 'k, 'r) pumped" where
  "tone_turn c =
     and_then (skip_frames 64 c) (\<lambda>_ c.
     let frame = tone_frame c
     in and_then (with_audio (audio_sends frame) () (c\<lparr>pu_cng := pu_cng c + 160\<rparr>)) (\<lambda>_ c. (Inr [], c)))"

definition media_turn :: "instant \<Rightarrow> ('m, 'd, 'k, 'r) pump \<Rightarrow> (fax_event list, 'm, 'd, 'k, 'r) pumped" where
  "media_turn now c =
     (case pu_fax c of
        Some (FmAudio _) \<Rightarrow> if pu_audio c \<noteq> None then audio_turn c else (Inr [], c)
      | Some (FmPackets _) \<Rightarrow> if pu_packets c \<noteq> None then packet_turn now c else (Inr [], c)
      | None \<Rightarrow> if pu_audio c \<noteq> None then tone_turn c else (Inr [], c))"

section \<open>The end of a call\<close>

definition audio_drains :: "('m, 'd, 'k, 'r) pump \<Rightarrow> audio_network \<Rightarrow> (i16 list list, 'm, 'd, 'k, 'r) pumped" where
  "audio_drains c n =
     (let n = n\<lparr>an_mapping := sk_audio_mapping (pu_sockets c)\<rparr>
      in case audio_drain (ce_decode (pu_env c)) (ce_datagrams (pu_env c) (pu_ticks c)) n of
           (r, n) \<Rightarrow>
             (r, tock (c\<lparr>pu_audio := Some n, pu_sockets := (pu_sockets c)\<lparr>sk_audio_mapping := an_mapping n\<rparr>\<rparr>)))"

definition is_audio_fax :: "('m, 'd, 'k, 'r) pump \<Rightarrow> bool" where
  "is_audio_fax c = (case pu_fax c of Some (FmAudio _) \<Rightarrow> True | _ \<Rightarrow> False)"

definition is_packet_fax :: "('m, 'd, 'k, 'r) pump \<Rightarrow> bool" where
  "is_packet_fax c = (case pu_fax c of Some (FmPackets _) \<Rightarrow> True | _ \<Rightarrow> False)"

definition pump_drain_audio :: "('m, 'd, 'k, 'r) pump \<Rightarrow> (unit, 'm, 'd, 'k, 'r) pumped" where
  "pump_drain_audio c =
     (if \<not> is_audio_fax c then (Inr (), c)
      else and_then (with_audio audio_drains [] c) (\<lambda>frames c. (Inr (), fold modem_hears frames c)))"

definition last_events :: "('m, 'd, 'k, 'r) pump \<Rightarrow> (fax_event list, 'm, 'd, 'k, 'r) pumped" where
  "last_events c =
     (if is_audio_fax c \<and> pu_audio c \<noteq> None
      then (case (if pu_receiving c then modem_events c else modem_ends c) of (es, c) \<Rightarrow> (Inr es, c))
      else if is_packet_fax c \<and> pu_packets c \<noteq> None \<and> \<not> pu_receiving c
      then and_then (with_packets packets_hear [] c) (\<lambda>ps c.
           and_then (take_packets ps c) (\<lambda>_ c. case modem_ends c of (es, c) \<Rightarrow> (Inr es, c)))
      else (Inr [], c))"

fun end_events :: "utext \<Rightarrow> fax_event list \<Rightarrow> ('m, 'd, 'k, 'r) pump \<Rightarrow> (transfer_stats option, 'm, 'd, 'k, 'r) pumped" where
  "end_events reason [] c = (Inl (NSip reason), c)"
| "end_events reason (e # es) c =
     (case e of
        EvCompleted (Inr stats) \<Rightarrow> (Inr (Some stats), report e c)
      | EvCompleted (Inl f) \<Rightarrow> (Inl (NSip (reason @ lit ''; '' @ show_failure f)), report e c)
      | _ \<Rightarrow> end_events reason es (report e c))"

definition disconnected :: "utext \<Rightarrow> ('m, 'd, 'k, 'r) pump \<Rightarrow> (transfer_stats option, 'm, 'd, 'k, 'r) pumped" where
  "disconnected reason c =
     and_then (pump_drain_audio c) (\<lambda>_ c. and_then (last_events c) (\<lambda>es. end_events reason es))"

section \<open>Events of the SIP callbacks\<close>

definition media_ready_if :: "(media_kind \<Rightarrow> bool) \<Rightarrow> attempt \<Rightarrow> attempt" where
  "media_ready_if p a = (case a of Waiting kind cseq since cancelling _ \<Rightarrow> Waiting kind cseq since cancelling (p kind) | _ \<Rightarrow> a)"

definition set_attempt :: "attempt \<Rightarrow> ('m, 'd, 'k, 'r) pump \<Rightarrow> ('m, 'd, 'k, 'r) pump" where
  "set_attempt a c = c\<lparr>pu_attempt := a\<rparr>"

text \<open>New networks for new media; the remote is recorded once they exist.\<close>

definition connect_media :: "remote_media \<Rightarrow> ('m, 'd, 'k, 'r) pump \<Rightarrow> (unit, 'm, 'd, 'k, 'r) pumped" where
  "connect_media remote c =
     (case remote of
        RAudio address codec \<Rightarrow>
          (case audio_new (ce_random (pu_env c) (pu_ticks c)) (clock c) address codec (sk_automatic (pu_sockets c))
                  (sk_audio_mapping (pu_sockets c)) (rq_delay (pu_request c)) of
             Inl e \<Rightarrow> (Inl e, tock c)
           | Inr n \<Rightarrow> (Inr (), tock (c\<lparr>pu_audio := Some n, pu_remote := Some remote\<rparr>)))
      | RT38 address max_datagram _ \<Rightarrow>
          (Inr (), tock (c\<lparr>pu_packets := Some (packet_new (clock c) address max_datagram (sk_automatic (pu_sockets c))
                                         (sk_fax_mapping (pu_sockets c)), ce_no_recovery (pu_env c)),
                           pu_remote := Some remote\<rparr>)))"

definition on_media :: "utext \<Rightarrow> ('m, 'd, 'k, 'r) pump \<Rightarrow> (unit, 'm, 'd, 'k, 'r) pumped" where
  "on_media description c =
     (case sdp_remote description of
        Inl e \<Rightarrow> (Inl e, c)
      | Inr remote \<Rightarrow>
          let c = c\<lparr>pu_attempt := media_ready_if (\<lambda>kind. remote_kind remote = kind) (pu_attempt c)\<rparr>
          in if pu_remote c = Some remote then (Inr (), c)
             else (case (pu_audio c, remote) of
                     (Some n, RAudio address codec) \<Rightarrow>
                       if is_packet_fax c
                       then (Inl (NSip (lit ''Peer changed media after fax transmission started'')), c)
                       else (Inr (), tock (c\<lparr>pu_audio := Some (audio_update_remote address codec (clock c) n),
                                             pu_remote := Some remote\<rparr>))
                   | _ \<Rightarrow>
                       if pu_fax c \<noteq> None
                       then (Inl (NSip (lit ''Peer changed media after fax transmission started'')), c)
                       else connect_media remote c))"

definition glare_delay :: "bool \<Rightarrow> nat \<Rightarrow> duration" where
  "glare_delay receiving random = millis ((if receiving then random mod 201 else 210 + random mod 191) * 10)"

definition random_number :: "byte list \<Rightarrow> nat" where
  "random_number bytes = foldl (\<lambda>n b. n * 256 + unat b) 0 bytes"

definition back_off :: "('m, 'd, 'k, 'r) pump \<Rightarrow> ('m, 'd, 'k, 'r) pump" where
  "back_off c =
     tock (c\<lparr>pu_glare := pu_glare c + 1,
             pu_attempt := Backoff (clock c + glare_delay (pu_receiving c) (random_number (ce_random (pu_env c) (pu_ticks c))))\<rparr>)"

definition audio_remote :: "('m, 'd, 'k, 'r) pump \<Rightarrow> bool" where
  "audio_remote c = (case pu_remote c of Some (RAudio _ _) \<Rightarrow> True | _ \<Rightarrow> False)"

text \<open>The final response to the offer of \<open>kind\<close> that is waited for.\<close>

definition offer_answered :: "media_kind \<Rightarrow> bool \<Rightarrow> int \<Rightarrow> ('m, 'd, 'k, 'r) pump \<Rightarrow> (unit, 'm, 'd, 'k, 'r) pumped" where
  "offer_answered kind ready code c =
     (if kind = KT38 \<and> code = 491 \<and> pu_glare c < 2 then (Inr (), back_off c)
      else if kind = KT38 \<and> code \<ge> 300 \<and> audio_remote c then (Inr (), set_attempt Refused c)
      else if code < 300 \<and> ready then (Inr (), set_attempt (if kind = KT38 then Accepted else Refused) c)
      else if kind = KT38 then offer_media KAudio (report (EvStage SFallingBack) c)
      else (Inl (NSip (lit ''Could not restore G.711 after T.38 negotiation failed (SIP '' @ signed_decimal code @ lit '')'')), c))"

definition on_invite_final :: "int \<Rightarrow> int \<Rightarrow> ('m, 'd, 'k, 'r) pump \<Rightarrow> (unit, 'm, 'd, 'k, 'r) pumped" where
  "on_invite_final cseq code c =
     (case pu_attempt c of
        Waiting kind expected _ _ ready \<Rightarrow>
          if expected = cseq \<and> code \<ge> 200 \<and> code \<noteq> 401 \<and> code \<noteq> 407
          then offer_answered kind ready code c else (Inr (), c)
      | _ \<Rightarrow> (Inr (), c))"

definition retries_directly :: "int \<Rightarrow> ('m, 'd, 'k, 'r) pump \<Rightarrow> bool" where
  "retries_directly code c \<longleftrightarrow>
     rq_call_mode (pu_request c) = MAuto \<and> \<not> pu_receiving c \<and> pu_connected c = None \<and> code = 488 \<and> \<not> pu_direct_retry c"

definition retry_directly :: "('m, 'd, 'k, 'r) pump \<Rightarrow> (unit, 'm, 'd, 'k, 'r) pumped" where
  "retry_directly c =
     sip_invite KT38 (put_out OutReleaseInvite
       (c\<lparr>pu_direct_retry := True, pu_remote := None, pu_audio := None, pu_packets := None\<rparr>))"

definition on_connected :: "('m, 'd, 'k, 'r) pump \<Rightarrow> ('m, 'd, 'k, 'r) pump" where
  "on_connected c =
     (if pu_connected c = None then tock (c\<lparr>pu_connected := Some (clock c), pu_next_frame := clock c\<rparr>) else c)"

text \<open>\<open>None\<close>: go on with the next event.\<close>

definition going_on :: "(unit, 'm, 'd, 'k, 'r) pumped \<Rightarrow> (transfer_stats option, 'm, 'd, 'k, 'r) pumped" where
  "going_on r = and_then r (\<lambda>_ c. (Inr None, c))"

fun on_event :: "call_event \<Rightarrow> ('m, 'd, 'k, 'r) pump \<Rightarrow> (transfer_stats option, 'm, 'd, 'k, 'r) pumped" where
  "on_event CeConnected c = (Inr None, on_connected (report (EvStage SConnected) c))"
| "on_event (CeDisconnected code reason) c =
     (if retries_directly code c then going_on (retry_directly c)
      else disconnected (lit ''Call ended before T.30 completion: '' @ signed_decimal code @ lit '' '' @ reason) c)"
| "on_event (CePeerHangup reason) c = disconnected (lit ''Peer ended call before T.30 completion: '' @ reason) c"
| "on_event (CeMedia description) c = going_on (on_media description c)"
| "on_event (CeInviteStarted cseq) c =
     (Inr None, c\<lparr>pu_attempt := (case pu_attempt c of
        Waiting kind _ since cancelling ready \<Rightarrow> Waiting kind cseq since cancelling ready | a \<Rightarrow> a)\<rparr>)"
| "on_event (CeInviteFinal cseq code) c = going_on (on_invite_final cseq code c)"
| "on_event (CeMediaError reason) c =
     (case pu_attempt c of
        Waiting _ _ _ _ _ \<Rightarrow> (Inr None, c\<lparr>pu_attempt := media_ready_if (\<lambda>_. False) (pu_attempt c)\<rparr>)
      | _ \<Rightarrow> (Inl (NSip reason), c))"
| "on_event (CeRegistered code reason) c = (Inr None, c)"
| "on_event CeFlow c = (Inr None, c)"
| "on_event CeRinging c = (Inr None, report (EvStage SRinging) c)"

fun on_events :: "call_event list \<Rightarrow> ('m, 'd, 'k, 'r) pump \<Rightarrow> (transfer_stats option, 'm, 'd, 'k, 'r) pumped" where
  "on_events [] c = (Inr None, c)"
| "on_events (e # es) c =
     and_then (on_event e c) (\<lambda>done c. case done of Some s \<Rightarrow> (Inr (Some s), c) | None \<Rightarrow> on_events es c)"

section \<open>Starting the fax\<close>

definition new_audio :: "('m, 'd, 'k, 'r) pump \<Rightarrow> native_error + ('m, 'd, 'k) fax_session" where
  "new_audio c =
     (if pu_receiving c
      then with_ecm (dsp_of c) (pu_ecm c) (audio_fax (dsp_of c) False (rq_file (pu_request c)) (rq_station (pu_request c)))
      else audio_fax (dsp_of c) True (rq_file (pu_request c)) (rq_station (pu_request c)))"

definition new_packets :: "('m, 'd, 'k, 'r) pump \<Rightarrow> native_error + ('m, 'd, 'k) fax_session" where
  "new_packets c =
     (if pu_receiving c
      then with_ecm (dsp_of c) (pu_ecm c) (packet_fax (dsp_of c) False (rq_file (pu_request c)) (rq_station (pu_request c)))
      else packet_fax (dsp_of c) True (rq_file (pu_request c)) (rq_station (pu_request c)))"

definition start_audio :: "('m, 'd, 'k, 'r) pump \<Rightarrow> (unit, 'm, 'd, 'k, 'r) pumped" where
  "start_audio c =
     (case new_audio c of
        Inl e \<Rightarrow> (Inl e, c)
      | Inr f \<Rightarrow> (Inr (), report (EvStage SNegotiating) (put_out (OutSwitch False) (c\<lparr>pu_fax := Some (FmAudio f)\<rparr>))))"

definition start_packets :: "nat \<Rightarrow> ('m, 'd, 'k, 'r) pump \<Rightarrow> (unit, 'm, 'd, 'k, 'r) pumped" where
  "start_packets bit_rate c =
     (case res_bind (new_packets c) (limit_bit_rate (dsp_of c) bit_rate) of
        Inl e \<Rightarrow> (Inl e, c)
      | Inr f \<Rightarrow> (Inr (), put_out (OutSwitch False) (report (EvStage SNegotiating) (c\<lparr>pu_fax := Some (FmPackets f)\<rparr>))))"

text \<open>Audio in automatic mode: when to offer T.38, and when to give up on it.\<close>

definition offer_due :: "instant \<Rightarrow> ('m, 'd, 'k, 'r) pump \<Rightarrow> bool" where
  "offer_due since_answer c =
     (case pu_attempt c of
        NotStarted \<Rightarrow> pu_receiving c \<or> clock c - since_answer \<ge> millis 3500
      | Backoff retry_at \<Rightarrow> clock c \<ge> retry_at
      | _ \<Rightarrow> False)"

definition negotiate_audio :: "instant \<Rightarrow> ('m, 'd, 'k, 'r) pump \<Rightarrow> (unit, 'm, 'd, 'k, 'r) pumped" where
  "negotiate_audio since_answer c =
     (if offer_due since_answer c then offer_media KT38 (report (EvStage SOfferingT38) (tock c))
      else if pu_attempt c = Refused then start_audio (report (EvStage SFallingBack) c)
      else (Inr (), tock c))"

definition is_waiting :: "attempt \<Rightarrow> bool" where
  "is_waiting a = (case a of Waiting _ _ _ _ _ \<Rightarrow> True | _ \<Rightarrow> False)"

definition start_fax :: "instant \<Rightarrow> ('m, 'd, 'k, 'r) pump \<Rightarrow> (unit, 'm, 'd, 'k, 'r) pumped" where
  "start_fax since_answer c =
     (if pu_fax c \<noteq> None then (Inr (), c)
      else case pu_remote c of
        Some (RT38 _ _ bit_rate) \<Rightarrow> if is_waiting (pu_attempt c) then (Inr (), c) else start_packets bit_rate c
      | Some (RAudio _ _) \<Rightarrow>
          (case rq_call_mode (pu_request c) of
             MT38 \<Rightarrow> (Inl (NSip (lit ''Peer did not accept T.38'')), c)
           | MG711 \<Rightarrow> start_audio c
           | MAuto \<Rightarrow> negotiate_audio since_answer c)
      | None \<Rightarrow>
          if clock c - since_answer > secs 5 then (Inl (NSip (lit ''Call connected without usable media'')), tock c)
          else (Inr (), tock c))"

text \<open>An offer without a final response is cancelled after 5 seconds and given up after 38.\<close>

definition watch_offer :: "('m, 'd, 'k, 'r) pump \<Rightarrow> (unit, 'm, 'd, 'k, 'r) pumped" where
  "watch_offer c =
     (case pu_attempt c of
        Waiting kind cseq since cancelling ready \<Rightarrow>
          if clock c - since \<ge> secs 5 \<and> \<not> cancelling
          then and_then (sip_cancel cseq (tock c)) (\<lambda>_ c. (Inr (), set_attempt (Waiting kind cseq since True ready) c))
          else let c = tock c in
            if clock c - since > secs 38
            then (Inl (NSip (lit ''Media re-INVITE did not settle; refusing an ambiguous audio fallback'')), tock c)
            else (Inr (), tock c)
      | _ \<Rightarrow> (Inr (), c))"

section \<open>One step\<close>

fun pump_events :: "fax_event list \<Rightarrow> ('m, 'd, 'k, 'r) pump \<Rightarrow> (transfer_stats option, 'm, 'd, 'k, 'r) pumped" where
  "pump_events [] c = (Inr None, c)"
| "pump_events (e # es) c =
     (let c = (if e = EvNegotiated
               then report (EvStage (if is_packet_fax c then SSendingT38 else SSendingG711)) c else c)
      in case e of
           EvCompleted (Inr stats) \<Rightarrow> (Inr (Some stats), report e c)
         | EvCompleted (Inl f) \<Rightarrow> (Inl (NFax f), report e c)
         | _ \<Rightarrow> pump_events es (report e c))"

text \<open>The frame that is due at \<open>now\<close>; a media clock more than 250 ms behind restarts at \<open>now\<close>.\<close>

definition frame_turn :: "('m, 'd, 'k, 'r) pump \<Rightarrow> (transfer_stats option, 'm, 'd, 'k, 'r) pumped" where
  "frame_turn c =
     (let now = clock c; c = tock c
      in if now < pu_next_frame c then (Inr None, c)
         else let next = (if now - pu_next_frame c > millis 250 then now else pu_next_frame c)
              in and_then (media_turn now (c\<lparr>pu_next_frame := next + millis 20\<rparr>)) pump_events)"

definition answered_turn :: "instant \<Rightarrow> ('m, 'd, 'k, 'r) pump \<Rightarrow> (transfer_stats option, 'm, 'd, 'k, 'r) pumped" where
  "answered_turn since_answer c =
     and_then (watch_offer c) (\<lambda>_ c. and_then (start_fax since_answer c) (\<lambda>_. frame_turn))"

text \<open>The limits of the call: cancellation, 30 minutes, 60 seconds without an answer.\<close>

definition check_limits :: "('m, 'd, 'k, 'r) pump \<Rightarrow> (unit, 'm, 'd, 'k, 'r) pumped" where
  "check_limits c =
     (if ce_cancelled (pu_env c) (pu_ticks c) then (Inl NCancelled, tock c)
      else let c = tock c in
        if clock c - pu_started c > secs (30 * 60)
        then (Inl (NSip (lit ''Fax exceeded the 30-minute call limit'')), tock c)
        else let c = tock c in
          if pu_connected c = None \<and> clock c - pu_started c > secs 60
          then (Inl (NSip (lit ''SIP call was not answered within 60 seconds'')), tock c)
          else (Inr (), tock c))"

definition poll_sockets :: "('m, 'd, 'k, 'r) pump \<Rightarrow> (unit, 'm, 'd, 'k, 'r) pumped" where
  "poll_sockets c =
     (case ce_poll (pu_env c) (pu_ticks c) of (audio, fax) \<Rightarrow>
        (case poll_mappings audio fax (pu_sockets c) of (r, s) \<Rightarrow> (r, tock (c\<lparr>pu_sockets := s\<rparr>))))"

definition pump_step :: "('m, 'd, 'k, 'r) pump \<Rightarrow> (transfer_stats option, 'm, 'd, 'k, 'r) pumped" where
  "pump_step c =
     and_then (check_limits c) (\<lambda>_ c.
     and_then (poll_sockets c) (\<lambda>_ c.
     and_then (on_events (ce_events (pu_env c) (pu_ticks c)) (tock c)) (\<lambda>done c.
     case done of
       Some s \<Rightarrow> (Inr (Some s), c)
     | None \<Rightarrow> (case pu_connected c of None \<Rightarrow> (Inr None, c) | Some since_answer \<Rightarrow> answered_turn since_answer c))))"

text \<open>\<open>run_call\<close>: one step after each poll of the SIP stack; \<open>None\<close> after \<open>n\<close> steps without an end.\<close>

fun run_call :: "nat \<Rightarrow> (nat \<Rightarrow> native_error option) \<Rightarrow> ('m, 'd, 'k, 'r) pump \<Rightarrow>
  (transfer_stats option, 'm, 'd, 'k, 'r) pumped" where
  "run_call 0 polls c = (Inr None, c)"
| "run_call (Suc n) polls c =
     (case polls (pu_ticks c) of
        Some e \<Rightarrow> (Inl e, tock c)
      | None \<Rightarrow> and_then (pump_step (tock c)) (\<lambda>done c. case done of
          Some s \<Rightarrow> (Inr (Some s), c) | None \<Rightarrow> run_call n polls c))"

end
