(* ===== verification/SipTarget.thy ===== *)
theory SipTarget
  imports NativeTypes
begin

text \<open>
  The addresses a SIP account talks to (\<open>sip.rs\<close>): the peer of a TLS connection, the route of a
  request and the target of a call. A TLS account never routes over another transport.
\<close>

definition tls_default_port :: u16 where
  "tls_default_port = 5061"

text \<open>A part of a URI that names a transport other than TLS.\<close>

definition other_transport :: "utext \<Rightarrow> bool" where
  "other_transport part \<longleftrightarrow> starts_with (lit ''transport='') part \<and> part \<noteq> lit ''transport=tls''"

definition proxy_authority :: "utext list \<Rightarrow> utext" where
  "proxy_authority parts = last (split_on 64 (case parts of [] \<Rightarrow> [] | p # _ \<Rightarrow> p))"

definition tls_peer :: "service_account \<Rightarrow> native_error + utext \<times> u16" where
  "tls_peer a =
     (case sa_outbound_proxy a of
        None \<Rightarrow> Inr (sa_server a, sa_port a)
      | Some proxy \<Rightarrow>
          (case (case strip_prefix (lit ''sips:'') proxy of Some u \<Rightarrow> Some u | None \<Rightarrow> strip_prefix (lit ''sip:'') proxy) of
             None \<Rightarrow> Inl (NSip (lit ''Invalid TLS proxy URI''))
           | Some uri \<Rightarrow>
               let parts = split_on 59 uri; authority = proxy_authority parts
               in if list_ex other_transport (drop 1 parts)
                  then Inl (NSip (lit ''TLS profiles require a TLS outbound proxy''))
                  else case rsplit_once 58 authority of
                    Some (host, port) \<Rightarrow>
                      (case parse_uint 65535 port of
                         Some n \<Rightarrow> Inr (host, word_of_nat n)
                       | None \<Rightarrow> Inl (NSip (lit ''Invalid TLS proxy port'')))
                  | None \<Rightarrow> Inr (authority, tls_default_port)))"

definition route_uri :: "service_account \<Rightarrow> utext \<Rightarrow> native_error + utext" where
  "route_uri a uri =
     (if sa_transport a \<noteq> SigTls then Inr uri
      else if list_ex other_transport (split_on 59 uri)
      then Inl (NSip (lit ''TLS profiles cannot use a plaintext SIP route''))
      else if starts_with (lit ''sips:'') uri \<or> contains (lit '';transport=tls'') uri then Inr uri
      else Inr (uri @ lit '';transport=tls''))"

definition transport_parameter :: "signaling_transport \<Rightarrow> utext" where
  "transport_parameter t = (case t of SigUdp \<Rightarrow> lit ''udp'' | SigTcp \<Rightarrow> lit ''tcp'' | SigTls \<Rightarrow> lit ''tls'')"

text \<open>\<open>str::replace('#', "%23")\<close>.\<close>

definition escape_hash :: "utext \<Rightarrow> utext" where
  "escape_hash s = concat (map (\<lambda>c. if c = 35 then lit ''%23'' else [c]) s)"

definition call_target :: "service_account \<Rightarrow> utext \<Rightarrow> native_error + utext" where
  "call_target a destination =
     route_uri a
       (if starts_with (lit ''sip:'') destination \<or> starts_with (lit ''sips:'') destination then destination
        else lit ''sip:'' @ escape_hash destination @ lit ''@'' @ sa_server a @ lit '':'' @
             to_decimal (unat (sa_port a)) @ lit '';transport='' @ transport_parameter (sa_transport a))"

section \<open>TLS routes\<close>

lemma contains_decomp: "contains p s \<Longrightarrow> \<exists>a b. s = a @ p @ b"
proof (induction p s rule: contains.induct)
  case (2 p c s)
  then consider "starts_with p (c # s)" | "contains p s" by auto
  then show ?case
  proof cases
    case 1
    then show ?thesis by (metis append_Nil append_take_drop_id starts_with_def)
  next
    case 2
    then obtain a b where "s = a @ p @ b" using "2.IH" by blast
    then have "c # s = (c # a) @ p @ b" by simp
    then show ?thesis by blast
  qed
qed simp

text \<open>A separator inside a text starts a new piece.\<close>

lemma split_on_join:
  "split_on d (a @ d # s) = split_on d a @ split_on d s"
  by (induction a) (auto split: list.splits)

lemma head_split_on_prefix:
  "d \<notin> set w \<Longrightarrow> \<exists>rest ps. split_on d (w @ s) = (w @ rest) # ps"
proof (induction w)
  case Nil
  have "split_on d s \<noteq> []" by (cases s) (auto split: list.splits)
  then show ?case by (cases "split_on d s") auto
qed auto

lemma transport_tls_piece:
  "contains (lit '';transport=tls'') u \<Longrightarrow> \<forall>part \<in> set (split_on 59 u). \<not> other_transport part \<Longrightarrow>
    lit ''transport=tls'' \<in> set (split_on 59 u)"
proof -
  assume u: "contains (lit '';transport=tls'') u" and good: "\<forall>part \<in> set (split_on 59 u). \<not> other_transport part"
  have sep: "lit '';transport=tls'' = 59 # lit ''transport=tls''" by (simp add: lit_def)
  have no: "(59::nat) \<notin> set (lit ''transport=tls'')" by (simp add: lit_def)
  obtain x y where "u = x @ 59 # (lit ''transport=tls'' @ y)" using contains_decomp [OF u] sep by auto
  then have f: "split_on 59 u = split_on 59 x @ split_on 59 (lit ''transport=tls'' @ y)" by (simp only: split_on_join)
  obtain rest ps where h: "split_on 59 (lit ''transport=tls'' @ y) = (lit ''transport=tls'' @ rest) # ps"
    using head_split_on_prefix [OF no] by blast
  have "starts_with (lit ''transport='') (lit ''transport=tls'' @ rest)" by (simp add: starts_with_def lit_def)
  moreover have "lit ''transport=tls'' @ rest \<in> set (split_on 59 u)" using f h by simp
  then have "\<not> other_transport (lit ''transport=tls'' @ rest)" using good by blast
  ultimately have "lit ''transport=tls'' @ rest = lit ''transport=tls''"
    unfolding other_transport_def by blast
  then show ?thesis using f h by simp
qed

lemma tls_route_pieces:
  assumes "sa_transport a = SigTls" "route_uri a uri = Inr r"
  shows "(starts_with (lit ''sips:'') r \<or> lit ''transport=tls'' \<in> set (split_on 59 r)) \<and>
    (\<forall>part \<in> set (split_on 59 r). \<not> other_transport part)"
proof -
  have parts: "\<forall>part \<in> set (split_on 59 uri). \<not> other_transport part"
    using assms by (auto simp: route_uri_def list_ex_iff split: if_splits)
  have sep: "lit '';transport=tls'' = 59 # lit ''transport=tls''" by (simp add: lit_def)
  consider "r = uri" "starts_with (lit ''sips:'') uri" | "r = uri" "contains (lit '';transport=tls'') uri"
    | "r = uri @ 59 # lit ''transport=tls''"
    using assms sep by (auto simp: route_uri_def split: if_splits)
  then show ?thesis
  proof cases
    case 3
    have "split_on 59 (lit ''transport=tls'') = [lit ''transport=tls'']" by (simp add: lit_def)
    then have "split_on 59 r = split_on 59 uri @ [lit ''transport=tls'']" using 3 by (simp only: split_on_join)
    then show ?thesis using parts by (auto simp: other_transport_def)
  qed (use parts transport_tls_piece in auto)
qed

end
