(* ===== verification/Service.thy ===== *)
theory Service
  imports Sender CallPump SipTarget
begin

text \<open>
  The SIP service (\<open>sip/service.rs\<close>): one thread owns every connection, call and admission and serves the
  commands of the engine. The thread-local tables of the callbacks are part of the state. Calls into
  PJSIP and the operating system are answered by an environment, one tick per answer; a \<open>HashMap\<close> is an
  association list in order of insertion. What the service sends on its channels and to SIP is a log.
\<close>

section \<open>State\<close>

text \<open>A \<open>Sip\<close> handle; \<open>sp_local\<close> is the local media its callbacks answer with.\<close>

record sip =
  sp_id :: nat
  sp_inv :: bool
  sp_registered :: bool
  sp_tls :: bool
  sp_contact :: utext
  sp_local :: local_media

record prepared_connection =
  pc_route_peer :: sock_addr
  pc_local_ip :: ip_addr
  pc_stun :: "sock_addr option"

record connection =
  cn_listener :: "listener_config option"
  cn_route_peer :: sock_addr
  cn_route_check :: instant
  cn_local_ip :: ip_addr
  cn_stun :: "sock_addr option"
  cn_sip :: sip
  cn_account :: service_account
  cn_ready :: bool
  cn_deadline :: instant
  cn_keepalive :: instant
  cn_flow :: bool
  cn_registration_peer :: bool

text \<open>\<open>cl_reply\<close> names the update channel of an outgoing call.\<close>

record ('m, 'd, 'k, 'r) active_call =
  cl_sip :: sip
  cl_request :: service_send
  cl_pump :: "('m, 'd, 'k, 'r) pump"
  cl_cancelled :: bool
  cl_reply :: "nat option"
  cl_incoming :: "uuid option"

record ('m, 'd, 'k, 'r) pending_admission =
  pa_call :: "('m, 'd, 'k, 'r) active_call"
  pa_deadline :: instant

record incoming_slot =
  sl_direct :: bool
  sl_timeout :: duration
  sl_sip :: sip
  sl_sockets :: sockets
  sl_config :: receive_config

record pending_send =
  ps_fax :: service_send
  ps_reply :: nat
  ps_media :: "(sockets \<times> local_media) option"

record admission_request =
  ar_id :: uuid
  ar_caller :: utext
  ar_destination :: utext
  ar_peer :: utext
  ar_arrived :: instant

datatype service_output =
    SoEvent receive_event
  | SoUpdate nat send_update
  | SoOffer admission_request
  | SoRespond utext int
  | SoAnswer nat int
  | SoInvite nat media_kind
  | SoEndSession nat
  | SoUnregister nat
  | SoSleep nat

text \<open>A new INVITE as PJSIP parsed it: an URI or header that does not print is empty.\<close>

record invite =
  iv_call_id :: utext
  iv_uri :: utext
  iv_sdp :: "(native_error + utext) option"
  iv_from :: utext
  iv_peer :: utext

datatype registration_event = RvFlow "(utext \<times> nat) option" | RvRegistered int utext | RvOther

text \<open>What the thread that prepares a connection meets: the addresses of the server, the local address
  of a route to it, the STUN server, whether it was told to stop, and the TLS handshake.\<close>

record connect_answers =
  ca_addresses :: "native_error + sock_addr list"
  ca_route :: "native_error + ip_addr"
  ca_resolve :: "utext \<Rightarrow> utext + sock_addr list"
  ca_stopped :: bool
  ca_tls :: "utext \<times> u16 \<Rightarrow> native_error option"

datatype connector_result = CrEmpty | CrStopped | CrResult connect_answers

record ('m, 'd, 'k, 'r) service_env =
  se_clock :: "nat \<Rightarrow> instant"
  se_uuid :: "nat \<Rightarrow> uuid"
  se_session :: "nat \<Rightarrow> nat"
  se_fails :: "nat \<Rightarrow> native_error option"
  se_disconnected :: "nat \<Rightarrow> bool"
  se_cancelled :: "nat \<Rightarrow> nat \<Rightarrow> bool"
  se_call :: "nat \<Rightarrow> ('m, 'd, 'k, 'r) call_env"
  se_port :: "nat \<Rightarrow> native_error + nat"
  se_local_ip :: "nat \<Rightarrow> native_error + ip_addr"
  se_registration :: "nat \<Rightarrow> registration_event list"
  se_flow_closed :: "nat \<Rightarrow> bool"
  se_worker_done :: "nat \<Rightarrow> bool"
  se_connector :: "nat \<Rightarrow> connector_result"
  se_bind :: "nat \<Rightarrow> nat \<Rightarrow> bind_round"
  se_fresh :: "nat \<Rightarrow> (byte list \<times> byte list) \<times> ((instant \<times> instant) \<times> (instant \<times> instant))"
  se_poll :: "nat \<Rightarrow> poll_input \<times> poll_input"
  se_tls_deadline :: "nat \<Rightarrow> nat \<Rightarrow> instant"
  se_invites :: "nat \<Rightarrow> invite list"

record service_options =
  so_limits :: call_limits
  so_timeout :: duration

record ('m, 'd, 'k, 'r) service =
  sv_env :: "('m, 'd, 'k, 'r) service_env"
  sv_ticks :: nat
  sv_log :: "service_output list"
  sv_options :: service_options
  sv_queue :: "(nat \<times> command) list"
  sv_connections :: "(uuid \<times> connection) list"
  sv_connectors :: "(uuid \<times> service_account) list"
  sv_workers :: nat
  sv_desired :: "receive_config option"
  sv_listener :: "listener_config option"
  sv_calls :: "(uuid \<times> ('m, 'd, 'k, 'r) active_call) list"
  sv_pending :: "pending_send list"
  sv_retired :: "(instant \<times> sip) list"
  sv_retry_at :: instant
  sv_backoff :: nat
  sv_last_status :: "(uuid option \<times> receive_state) option"
  sv_stopping :: bool
  sv_last_tick :: instant
  sv_reconnect :: bool
  sv_idle :: bool
  sv_ended :: bool
  sv_available :: "incoming_slot list"
  sv_admission :: "(uuid \<times> ('m, 'd, 'k, 'r) pending_admission) list"
  sv_waiting :: "(uuid \<times> bool) list"
  sv_call_ids :: "(uuid \<times> utext) list"
  sv_next_id :: nat

type_synonym ('a, 'm, 'd, 'k, 'r) served = "(native_error + 'a) \<times> ('m, 'd, 'k, 'r) service"

section \<open>Effects\<close>

definition pass :: "('m, 'd, 'k, 'r) service \<Rightarrow> ('m, 'd, 'k, 'r) service" where
  "pass s = s\<lparr>sv_ticks := Suc (sv_ticks s)\<rparr>"

definition time :: "('m, 'd, 'k, 'r) service \<Rightarrow> instant" where
  "time s = se_clock (sv_env s) (sv_ticks s)"

definition emit :: "service_output \<Rightarrow> ('m, 'd, 'k, 'r) service \<Rightarrow> ('m, 'd, 'k, 'r) service" where
  "emit x s = s\<lparr>sv_log := sv_log s @ [x]\<rparr>"

text \<open>A call into PJSIP or the operating system that may fail.\<close>

definition native :: "('m, 'd, 'k, 'r) service \<Rightarrow> (unit, 'm, 'd, 'k, 'r) served" where
  "native s = (case se_fails (sv_env s) (sv_ticks s) of Some e \<Rightarrow> (Inl e, pass s) | None \<Rightarrow> (Inr (), pass s))"

text \<open>Several calls in a row.\<close>

fun natives :: "nat \<Rightarrow> ('m, 'd, 'k, 'r) service \<Rightarrow> (unit, 'm, 'd, 'k, 'r) served" where
  "natives n s = (if n = 0 then (Inr (), s) else and_then (native s) (\<lambda>_. natives (n - 1)))"

declare natives.simps [simp del]

definition disconnected_now :: "('m, 'd, 'k, 'r) service \<Rightarrow> bool \<times> ('m, 'd, 'k, 'r) service" where
  "disconnected_now s = (se_disconnected (sv_env s) (sv_ticks s), pass s)"

definition retire :: "instant \<Rightarrow> sip \<Rightarrow> ('m, 'd, 'k, 'r) service \<Rightarrow> ('m, 'd, 'k, 'r) service" where
  "retire at p s = s\<lparr>sv_retired := sv_retired s @ [(at, p)]\<rparr>"

definition retire_now :: "sip \<Rightarrow> ('m, 'd, 'k, 'r) service \<Rightarrow> ('m, 'd, 'k, 'r) service" where
  "retire_now p s = retire (time s) p (pass s)"

definition forget_incoming :: "uuid \<Rightarrow> ('m, 'd, 'k, 'r) service \<Rightarrow> ('m, 'd, 'k, 'r) service" where
  "forget_incoming i s = s\<lparr>sv_call_ids := AList.delete i (sv_call_ids s)\<rparr>"

definition invalidate :: "uuid \<Rightarrow> ('m, 'd, 'k, 'r) service \<Rightarrow> ('m, 'd, 'k, 'r) service" where
  "invalidate i s = s\<lparr>sv_waiting := AList.update i False (sv_waiting s)\<rparr>"

text \<open>\<open>Sip::end_call\<close>, \<open>reject_admission\<close> and \<open>Sip::unregister\<close>: nothing is sent on a session that is gone.\<close>

definition end_session :: "sip \<Rightarrow> ('m, 'd, 'k, 'r) service \<Rightarrow> ('m, 'd, 'k, 'r) service" where
  "end_session p s =
     (if \<not> sp_inv p then s
      else case disconnected_now s of (gone, s) \<Rightarrow> if gone then s else emit (SoEndSession (sp_id p)) s)"

definition reject_admission :: "int \<Rightarrow> sip \<Rightarrow> ('m, 'd, 'k, 'r) service \<Rightarrow> ('m, 'd, 'k, 'r) service" where
  "reject_admission code p s =
     (if \<not> sp_inv p then s
      else case disconnected_now s of (gone, s) \<Rightarrow> if gone then s else emit (SoAnswer (sp_id p) code) s)"

definition unregister :: "sip \<Rightarrow> ('m, 'd, 'k, 'r) service \<Rightarrow> ('m, 'd, 'k, 'r) service" where
  "unregister p s = (if sp_registered p then emit (SoUnregister (sp_id p)) s else s)"

section \<open>One call\<close>

definition pump_request :: "service_send \<Rightarrow> send_request" where
  "pump_request f =
     \<lparr>rq_call_mode = ss_mode f, rq_file = ss_file f, rq_station = ss_station_id f,
      rq_delay = sa_playout_delay (ss_account f)\<rparr>"

definition reported :: "('m, 'd, 'k, 'r) active_call \<Rightarrow> call_output \<Rightarrow> service_output list" where
  "reported c x =
     (case x of
        OutProgress e \<Rightarrow>
          (case cl_incoming c of
             Some i \<Rightarrow> [SoEvent (ReProgress i e)]
           | None \<Rightarrow> (case cl_reply c of Some r \<Rightarrow> [SoUpdate r (SuProgress e)] | None \<Rightarrow> []))
      | _ \<Rightarrow> [])"

text \<open>The request and the cancellation flag as the closure of \<open>tick\<close> reads them.\<close>

definition armed :: "('m, 'd, 'k, 'r) active_call \<Rightarrow> ('m, 'd, 'k, 'r) pump" where
  "armed c =
     (let p = cl_pump c
      in p\<lparr>pu_request := pump_request (cl_request c),
           pu_env := (pu_env p)\<lparr>ce_cancelled :=
             (\<lambda>n. cl_cancelled c \<or> (cl_incoming c = None \<and> ce_cancelled (pu_env p) n))\<rparr>\<rparr>)"

definition call_tick ::
  "('m, 'd, 'k, 'r) active_call \<Rightarrow> ('m, 'd, 'k, 'r) service \<Rightarrow>
   (native_error + transfer_stats option) \<times> ('m, 'd, 'k, 'r) active_call \<times> ('m, 'd, 'k, 'r) service" where
  "call_tick c s =
     (case pump_step (armed c) of (r, p) \<Rightarrow>
        (r, c\<lparr>cl_pump := p\<rparr>,
         fold emit (concat (map (reported c) (drop (length (pu_out (cl_pump c))) (pu_out p)))) s))"

definition call_transport :: "('m, 'd, 'k, 'r) active_call \<Rightarrow> call_mode option" where
  "call_transport c = map_option (\<lambda>r. if remote_kind r = KT38 then MT38 else MG711) (pu_remote (cl_pump c))"

text \<open>\<open>ActiveCall::finish\<close>: buffered audio is drained, the reception finalized, the session ended, and the
  outcome reported.\<close>

definition call_recovery :: "('m, 'd, 'k, 'r) active_call \<Rightarrow> receive_report option" where
  "call_recovery c =
     (let p = snd (pump_drain_audio (cl_pump c))
      in case cl_incoming c of
           None \<Rightarrow> None
         | Some _ \<Rightarrow> map_option (\<lambda>m. fst (finalize_fax (dsp_of p) (modem m))) (pu_fax p))"

definition finish_call ::
  "native_error + transfer_stats \<Rightarrow> ('m, 'd, 'k, 'r) active_call \<Rightarrow> ('m, 'd, 'k, 'r) service \<Rightarrow>
   ('m, 'd, 'k, 'r) service" where
  "finish_call outcome c s =
     (let s = end_session (cl_sip c) s
      in case cl_incoming c of
           Some i \<Rightarrow> emit (SoEvent (ReFinished i outcome (call_transport c) (call_recovery c))) s
         | None \<Rightarrow> (case cl_reply c of Some r \<Rightarrow> emit (SoUpdate r (SuFinished outcome)) s | None \<Rightarrow> s))"

text \<open>Finishing a call that was in the table; the handle is kept for two seconds.\<close>

definition close_call ::
  "native_error + transfer_stats \<Rightarrow> ('m, 'd, 'k, 'r) active_call \<Rightarrow> ('m, 'd, 'k, 'r) service \<Rightarrow>
   ('m, 'd, 'k, 'r) service" where
  "close_call outcome c s = retire (time s) (cl_sip c) (finish_call outcome c (pass s))"

text \<open>An admission taken out of the table is answered with a final code.\<close>

definition drop_admission ::
  "int \<Rightarrow> uuid \<Rightarrow> ('m, 'd, 'k, 'r) pending_admission \<Rightarrow> ('m, 'd, 'k, 'r) service \<Rightarrow> ('m, 'd, 'k, 'r) service" where
  "drop_admission code i a s =
     (let s = reject_admission code (cl_sip (pa_call a)) (invalidate i (s\<lparr>sv_admission := AList.delete i (sv_admission s)\<rparr>))
      in retire_now (cl_sip (pa_call a)) (forget_incoming i s))"

definition drop_by_id :: "int \<Rightarrow> uuid \<Rightarrow> ('m, 'd, 'k, 'r) service \<Rightarrow> ('m, 'd, 'k, 'r) service" where
  "drop_by_id code i s =
     (case map_of (sv_admission s) i of Some a \<Rightarrow> drop_admission code i a s | None \<Rightarrow> s)"

definition finish_send :: "native_error \<Rightarrow> pending_send \<Rightarrow> ('m, 'd, 'k, 'r) service \<Rightarrow> ('m, 'd, 'k, 'r) service" where
  "finish_send e p s = emit (SoUpdate (ps_reply p) (SuFinished (Inl e))) s"

section \<open>A new INVITE\<close>

definition respond :: "invite \<Rightarrow> int \<Rightarrow> ('m, 'd, 'k, 'r) service \<Rightarrow> ('m, 'd, 'k, 'r) service" where
  "respond v code = emit (SoRespond (iv_call_id v) code)"

definition uri_user :: "utext \<Rightarrow> utext option" where
  "uri_user uri =
     (case split_once 58 uri of None \<Rightarrow> None | Some (_, value) \<Rightarrow> map_option fst (split_once 64 value))"

definition caller_text :: "utext \<Rightarrow> utext" where
  "caller_text from =
     (if from = [] then lit ''Unknown caller'' else filter (\<lambda>ch. \<not> is_control ch) (trim from))"

definition first_kind :: "call_mode \<Rightarrow> media_kind" where
  "first_kind m = (if m = MT38 then KT38 else KAudio)"

text \<open>The local answer or offer, and the sequence of calls that creates the session with it: its SDP, the
  verification, the dialog, its transport, the credentials if there is a password, the session.\<close>

definition incoming_sdp :: "incoming_slot \<Rightarrow> invite \<Rightarrow> native_error + utext" where
  "incoming_sdp sl v =
     (let mode = rc_mode (sl_config sl); local = sp_local (sl_sip sl)
      in case iv_sdp v of
           Some (Inl e) \<Rightarrow> Inl e
         | Some (Inr offer) \<Rightarrow> sdp_answer local offer (mode \<noteq> MT38) (mode \<noteq> MG711)
         | None \<Rightarrow> Inr (sdp_offer local (first_kind mode)))"

definition create_session :: "incoming_slot \<Rightarrow> invite \<Rightarrow> ('m, 'd, 'k, 'r) service \<Rightarrow> (unit, 'm, 'd, 'k, 'r) served" where
  "create_session sl v s =
     (case incoming_sdp sl v of
        Inl e \<Rightarrow> (Inl e, s)
      | Inr _ \<Rightarrow>
          and_then (natives 4 s) (\<lambda>_ s.
          and_then (if sa_password (rc_account (sl_config sl)) = None then (Inr (), s) else native s) (\<lambda>_ s.
          natives 2 s)))"

text \<open>The provisional answer; its failure is an event of the call, which is an answer of the call's
  environment.\<close>

definition answer_provisionally :: "sip \<Rightarrow> ('m, 'd, 'k, 'r) service \<Rightarrow> ('m, 'd, 'k, 'r) service" where
  "answer_provisionally p s =
     (case natives 2 s of (Inr _, s) \<Rightarrow> emit (SoAnswer (sp_id p) 100) s | (Inl _, s) \<Rightarrow> s)"

definition incoming_call ::
  "incoming_slot \<Rightarrow> uuid \<Rightarrow> ('m, 'd, 'k, 'r) call_env \<Rightarrow> ('m, 'd, 'k, 'r) active_call" where
  "incoming_call sl i env =
     (let cfg = sl_config sl;
          fax = \<lparr>ss_account = rc_account cfg, ss_destination = [], ss_file = [], ss_station_id = rc_station_id cfg,
                 ss_mode = rc_mode cfg\<rparr>
      in \<lparr>cl_sip = (sl_sip sl)\<lparr>sp_inv := True\<rparr>, cl_request = fax,
          cl_pump = pump_new env (pump_request fax) (sl_sockets sl) True (rc_ecm cfg), cl_cancelled = False,
          cl_reply = None, cl_incoming = Some i\<rparr>)"

text \<open>A session was created: the admission is recorded and offered to the engine.\<close>

definition offer_admission :: "incoming_slot \<Rightarrow> invite \<Rightarrow> ('m, 'd, 'k, 'r) service \<Rightarrow> ('m, 'd, 'k, 'r) service" where
  "offer_admission sl v s =
     (let i = se_uuid (sv_env s) (sv_ticks s); s = pass s;
          request = \<lparr>ar_id = i, ar_caller = caller_text (iv_from v), ar_destination = iv_uri v, ar_peer = iv_peer v,
                     ar_arrived = time s\<rparr>; s = pass s;
          s = answer_provisionally (sl_sip sl) s;
          call = incoming_call sl i (se_call (sv_env s) (sv_ticks s)); s = pass s;
          s = s\<lparr>sv_call_ids := AList.update i (iv_call_id v) (sv_call_ids s)\<rparr>;
          s = s\<lparr>sv_admission := AList.update i \<lparr>pa_call = call, pa_deadline = time s + sl_timeout sl\<rparr> (sv_admission s),
                sv_waiting := AList.update i True (sv_waiting s)\<rparr>
      in emit (SoOffer request) (pass s))"

definition on_incoming :: "invite \<Rightarrow> ('m, 'd, 'k, 'r) service \<Rightarrow> ('m, 'd, 'k, 'r) service" where
  "on_incoming v s =
     (if iv_call_id v \<in> set (map snd (sv_call_ids s)) then s
      else if length (sv_call_ids s) \<ge> lim_incoming (so_limits (sv_options s)) then respond v 486 s
      else case sv_available s of
        [] \<Rightarrow> respond v 480 s
      | sl # slots \<Rightarrow>
          if \<not> sl_direct sl \<and> uri_user (iv_uri v) \<noteq> Some (sa_username (rc_account (sl_config sl)))
          then respond v 404 s
          else if sockets_pending (time s) (sl_sockets sl) then respond v 480 (pass s)
          else (case create_session sl v (pass (s\<lparr>sv_available := slots\<rparr>)) of
                  (Inl _, s) \<Rightarrow> respond v 488 s
                | (Inr _, s) \<Rightarrow> offer_admission sl v s))"

section \<open>Commands\<close>

text \<open>An admitted call is answered unless its deadline passed or its session is gone.\<close>

definition admit ::
  "native_error + path \<Rightarrow> ('m, 'd, 'k, 'r) pending_admission \<Rightarrow> ('m, 'd, 'k, 'r) service \<Rightarrow>
   (native_error + unit) \<times> ('m, 'd, 'k, 'r) active_call \<times> ('m, 'd, 'k, 'r) service" where
  "admit result a s =
     (case result of
        Inl e \<Rightarrow> (Inl e, pa_call a, s)
      | Inr file \<Rightarrow>
          if time s \<ge> pa_deadline a then (Inl NCancelled, pa_call a, pass s)
          else (case disconnected_now (pass s) of (gone, s) \<Rightarrow>
            if gone then (Inl NCancelled, pa_call a, s)
            else let c = (pa_call a)\<lparr>cl_request := (cl_request (pa_call a))\<lparr>ss_file := file\<rparr>\<rparr>
                 in (case natives 2 s of
                       (Inl e, s) \<Rightarrow> (Inl e, c, s)
                     | (Inr _, s) \<Rightarrow> (Inr (), c, emit (SoAnswer (sp_id (cl_sip c)) 200) s))))"

definition on_admit :: "uuid \<Rightarrow> native_error + path \<Rightarrow> ('m, 'd, 'k, 'r) service \<Rightarrow> ('m, 'd, 'k, 'r) service" where
  "on_admit i result s =
     (case map_of (sv_admission s) i of
        Some a \<Rightarrow>
          (case admit result a (invalidate i (s\<lparr>sv_admission := AList.delete i (sv_admission s)\<rparr>)) of
             (Inr _, c, s) \<Rightarrow> s\<lparr>sv_calls := AList.update i c (sv_calls s)\<rparr>
           | (Inl e, c, s) \<Rightarrow>
               let s = reject_admission 500 (cl_sip c) s;
                   s = (if is_ok result then finish_call (Inl e) c s else s)
               in retire_now (cl_sip c) (forget_incoming i s))
      | None \<Rightarrow>
          if is_ok result then emit (SoEvent (ReFinished i (Inl NCancelled) None None)) s else s)"

definition outgoing_count :: "('m, 'd, 'k, 'r) service \<Rightarrow> nat" where
  "outgoing_count s =
     length (filter (\<lambda>(i, c). cl_incoming c = None) (sv_calls s)) + length (sv_pending s)"

definition on_send :: "nat \<Rightarrow> service_send \<Rightarrow> ('m, 'd, 'k, 'r) service \<Rightarrow> ('m, 'd, 'k, 'r) service" where
  "on_send reply fax s =
     (if outgoing_count s \<ge> lim_outgoing (so_limits (sv_options s))
      then emit (SoUpdate reply (SuFinished (Inl (NSip (lit ''Outgoing call capacity reached''))))) s
      else s\<lparr>sv_pending := sv_pending s @ [\<lparr>ps_fax = fax, ps_reply = reply, ps_media = None\<rparr>]\<rparr>)"

fun on_command :: "nat \<times> command \<Rightarrow> ('m, 'd, 'k, 'r) service \<Rightarrow> ('m, 'd, 'k, 'r) service" where
  "on_command (_, CmConfigure config direct) s =
     pass (s\<lparr>sv_desired := config, sv_listener := direct, sv_available := [], sv_retry_at := time s, sv_backoff := 1\<rparr>)"
| "on_command (_, CmCancelIncoming i) s =
     (case map_of (sv_calls s) i of
        Some c \<Rightarrow> s\<lparr>sv_calls := AList.update i (c\<lparr>cl_cancelled := True\<rparr>) (sv_calls s)\<rparr> | None \<Rightarrow> s)"
| "on_command (_, CmReject i) s = drop_by_id 603 i s"
| "on_command (_, CmAdmit i result) s = on_admit i result s"
| "on_command (_, CmReconnect) s = s\<lparr>sv_reconnect := True\<rparr>"
| "on_command (_, CmStop) s = s\<lparr>sv_stopping := True\<rparr>"
| "on_command (reply, CmSend fax) s = on_send reply fax s"

text \<open>A burst of commands leaves time for media: at most 64 per iteration.\<close>

definition serve_commands :: "('m, 'd, 'k, 'r) service \<Rightarrow> ('m, 'd, 'k, 'r) service" where
  "serve_commands s =
     fold on_command (take 64 (sv_queue s)) (s\<lparr>sv_queue := drop 64 (sv_queue s)\<rparr>)"

end
