(* ===== verification/ServiceLoop.thy ===== *)
theory ServiceLoop
  imports Service
begin

text \<open>
  The loop of the SIP service: connections and the threads that prepare them, outgoing calls, the
  receiver's idle slots, expiry, media, status, the time to sleep, and the end. One iteration is
  \<open>iteration\<close>, over the commands that arrived since the last.
\<close>

definition option_list :: "'a option \<Rightarrow> 'a list" where
  "option_list x = (case x of None \<Rightarrow> [] | Some y \<Rightarrow> [y])"

section \<open>Connections\<close>

text \<open>\<open>Sip::new_bound\<close>: the pool, the address, the transport with its port, and for UDP a reference on it.\<close>

definition sip_contact :: "service_account \<Rightarrow> ip_addr \<Rightarrow> nat \<Rightarrow> utext" where
  "sip_contact a ip port =
     lit ''<sip:'' @ sa_username a @ lit ''@'' @ show_ip ip @ lit '':'' @ to_decimal port @ lit '';transport='' @
     transport_parameter (sa_transport a) @ lit ''>''"

definition start_transport :: "service_account \<Rightarrow> ('m, 'd, 'k, 'r) service \<Rightarrow> (nat, 'm, 'd, 'k, 'r) served" where
  "start_transport a s =
     (case (if sa_transport a = SigTls then map_sum id (\<lambda>_. ()) (tls_peer a) else Inr ()) of
        Inl e \<Rightarrow> (Inl e, s)
      | Inr _ \<Rightarrow> (se_port (sv_env s) (sv_ticks s), pass s))"

definition new_sip :: "service_account \<Rightarrow> local_media \<Rightarrow> ('m, 'd, 'k, 'r) service \<Rightarrow> (sip, 'm, 'd, 'k, 'r) served" where
  "new_sip a local s =
     (let i = sv_next_id s
      in and_then (natives 2 (s\<lparr>sv_next_id := i + 1\<rparr>)) (\<lambda>_ s.
         and_then (start_transport a s) (\<lambda>port s.
         and_then (if sa_transport a = SigUdp then native s else (Inr (), s)) (\<lambda>_ s.
           (Inr \<lparr>sp_id = i, sp_inv = False, sp_registered = False, sp_tls = (sa_transport a = SigTls),
                 sp_contact = sip_contact a (lm_ip local) port, sp_local = local\<rparr>, s)))))"

text \<open>\<open>Sip::child\<close>: a handle for one call on the transport of the connection.\<close>

definition child :: "sip \<Rightarrow> local_media \<Rightarrow> ('m, 'd, 'k, 'r) service \<Rightarrow> (sip, 'm, 'd, 'k, 'r) served" where
  "child p local s =
     (let i = sv_next_id s
      in and_then (native (s\<lparr>sv_next_id := i + 1\<rparr>)) (\<lambda>_ s.
           (Inr (p\<lparr>sp_id := i, sp_inv := False, sp_registered := False, sp_local := local\<rparr>), s)))"

definition fresh_local :: "ip_addr \<Rightarrow> nat \<Rightarrow> local_media" where
  "fresh_local ip session =
     \<lparr>lm_ip = ip, lm_audio_port = 0, lm_fax_port = 0, lm_session = session, lm_version = 1\<rparr>"

definition connection_listening ::
  "service_account \<Rightarrow> listener_config \<Rightarrow> ('m, 'd, 'k, 'r) service \<Rightarrow> (connection, 'm, 'd, 'k, 'r) served" where
  "connection_listening a l s =
     (case listener_validate l of
        Inl e \<Rightarrow> (Inl e, s)
      | Inr _ \<Rightarrow>
          and_then (new_sip a (fresh_local (listener_ip l) 1) s) (\<lambda>p s.
          let checked = time s; s = pass s; deadline = time s; s = pass s; keepalive = time s
          in (Inr \<lparr>cn_listener = Some l, cn_route_peer = lc_bind l, cn_route_check = checked,
                   cn_local_ip = listener_ip l, cn_stun = None, cn_sip = p, cn_account = a, cn_ready = True,
                   cn_deadline = deadline, cn_keepalive = keepalive, cn_flow = False,
                   cn_registration_peer = False\<rparr>, pass s)))"

definition with_credentials :: "service_account \<Rightarrow> ('m, 'd, 'k, 'r) service \<Rightarrow> (unit, 'm, 'd, 'k, 'r) served" where
  "with_credentials a s = (if sa_password a = None then (Inr (), s) else native s)"

definition with_route :: "service_account \<Rightarrow> ('m, 'd, 'k, 'r) service \<Rightarrow> (unit, 'm, 'd, 'k, 'r) served" where
  "with_route a s =
     (case sa_outbound_proxy a of
        None \<Rightarrow> (Inr (), s)
      | Some proxy \<Rightarrow> (case route_uri a proxy of Inl e \<Rightarrow> (Inl e, s) | Inr _ \<Rightarrow> natives 2 s))"

definition start_registration :: "service_account \<Rightarrow> ('m, 'd, 'k, 'r) service \<Rightarrow> (unit, 'm, 'd, 'k, 'r) served" where
  "start_registration a s =
     and_then (natives 3 s) (\<lambda>_ s. and_then (with_credentials a s) (\<lambda>_ s. and_then (with_route a s) (\<lambda>_. natives 2)))"

definition session_number :: "nat \<Rightarrow> nat" where
  "session_number n = n mod 2 ^ 31"

definition connection_new ::
  "service_account \<Rightarrow> prepared_connection \<Rightarrow> ('m, 'd, 'k, 'r) service \<Rightarrow> (connection, 'm, 'd, 'k, 'r) served" where
  "connection_new a prepared s =
     (let local = fresh_local (pc_local_ip prepared) (session_number (se_session (sv_env s) (sv_ticks s)))
      in and_then (new_sip a local (pass s)) (\<lambda>p s.
         and_then (if sa_register a then start_registration a s else (Inr (), s)) (\<lambda>_ s.
         let checked = time s; s = pass s; deadline = time s + secs 25; s = pass s; keepalive = time s
         in (Inr \<lparr>cn_listener = None, cn_route_peer = pc_route_peer prepared, cn_route_check = checked,
                  cn_local_ip = pc_local_ip prepared, cn_stun = pc_stun prepared, cn_sip = p, cn_account = a,
                  cn_ready = (\<not> sa_register a), cn_deadline = deadline, cn_keepalive = keepalive,
                  cn_flow = False, cn_registration_peer = False\<rparr>, pass s))))"

definition keeps_alive :: "connection \<Rightarrow> bool" where
  "keeps_alive c \<longleftrightarrow>
     sa_automatic_nat (cn_account c) \<and> sa_transport (cn_account c) = SigUdp \<and> cn_registration_peer c"

text \<open>\<open>tls\<close>: the deadline of the TLS transport.\<close>

definition connection_deadline :: "instant \<Rightarrow> instant \<Rightarrow> connection \<Rightarrow> instant" where
  "connection_deadline now tls c =
     (let next = (if cn_listener c \<noteq> None then now + secs 86400 else cn_route_check c + secs 5);
          next = (if \<not> cn_ready c then min next (cn_deadline c) else next);
          next = (if keeps_alive c then min next (cn_keepalive c + secs 15) else next)
      in if sp_tls (cn_sip c) then min next tls else next)"

section \<open>Polling a connection\<close>

type_synonym ('m, 'd, 'k, 'r) polled =
  "(native_error + unit) \<times> connection \<times> ('m, 'd, 'k, 'r) service"

definition on_connection ::
  "('a, 'm, 'd, 'k, 'r) served \<Rightarrow> connection \<Rightarrow> (native_error + 'a) \<times> connection \<times> ('m, 'd, 'k, 'r) service" where
  "on_connection r c = (fst r, c, snd r)"

definition check_route :: "connection \<Rightarrow> ('m, 'd, 'k, 'r) service \<Rightarrow> ('m, 'd, 'k, 'r) polled" where
  "check_route c s =
     (if cn_listener c \<noteq> None then (Inr (), c, s)
      else if time s - cn_route_check c < secs 5 then (Inr (), c, pass s)
      else and_then (on_connection (natives 2 (pass s)) c) (\<lambda>_ (c, s).
        case se_local_ip (sv_env s) (sv_ticks s) of
          Inl e \<Rightarrow> (Inl e, c, pass s)
        | Inr ip \<Rightarrow>
            let s = pass s
            in if ip \<noteq> cn_local_ip c then (Inl (NSip (lit ''Local network address changed'')), c, s)
               else (Inr (), c\<lparr>cn_route_check := time s\<rparr>, pass s)))"

definition public_contact :: "connection \<Rightarrow> utext \<times> nat \<Rightarrow> utext" where
  "public_contact c observed =
     lit ''<sip:'' @ sa_username (cn_account c) @ lit ''@'' @ fst observed @ lit '':'' @ to_decimal (snd observed) @
     lit '';transport=udp>''"

text \<open>A new flow, and a public address the registrar saw, which is registered instead of the local one.\<close>

definition on_flow ::
  "(utext \<times> nat) option \<Rightarrow> connection \<Rightarrow> ('m, 'd, 'k, 'r) service \<Rightarrow> ('m, 'd, 'k, 'r) polled" where
  "on_flow observed c s =
     and_then (on_connection (native s) c) (\<lambda>_ (c, s).
       let c = c\<lparr>cn_flow := True, cn_registration_peer := True\<rparr>
       in case observed of
            None \<Rightarrow> (Inr (), c, s)
          | Some o' \<Rightarrow>
              if \<not> keeps_alive c \<or> public_contact c o' = sp_contact (cn_sip c) then (Inr (), c, s)
              else on_connection (natives 3 s) (c\<lparr>cn_sip := (cn_sip c)\<lparr>sp_contact := public_contact c o'\<rparr>\<rparr>))"

fun on_registration ::
  "registration_event list \<Rightarrow> connection \<Rightarrow> ('m, 'd, 'k, 'r) service \<Rightarrow> ('m, 'd, 'k, 'r) polled" where
  "on_registration [] c s = (Inr (), c, s)"
| "on_registration (RvFlow observed # es) c s =
     and_then (on_flow observed c s) (\<lambda>_ (c, s). on_registration es c s)"
| "on_registration (RvRegistered code reason # es) c s =
     (if 200 \<le> code \<and> code < 300
      then on_registration es (c\<lparr>cn_ready := True, cn_sip := (cn_sip c)\<lparr>sp_registered := True\<rparr>\<rparr>) s
      else (Inl (NSip (lit ''Registration failed: '' @ signed_decimal code @ lit '' '' @ reason)), c, s))"
| "on_registration (RvOther # es) c s = on_registration es c s"

definition check_flow :: "connection \<Rightarrow> ('m, 'd, 'k, 'r) service \<Rightarrow> ('m, 'd, 'k, 'r) polled" where
  "check_flow c s =
     (if \<not> cn_flow c then (Inr (), c, s)
      else if se_flow_closed (sv_env s) (sv_ticks s)
      then (Inl (NSip (lit ''Registered SIP flow closed'')), c, pass s)
      else let s = pass s
        in if \<not> keeps_alive c then (Inr (), c, s)
           else if time s - cn_keepalive c < secs 15 then (Inr (), c, pass s)
           else and_then (on_connection (native (pass s)) c) (\<lambda>_ (c, s).
             (Inr (), c\<lparr>cn_keepalive := time s\<rparr>, pass s)))"

definition check_registered :: "connection \<Rightarrow> ('m, 'd, 'k, 'r) service \<Rightarrow> ('m, 'd, 'k, 'r) polled" where
  "check_registered c s =
     (if cn_ready c then (Inr (), c, s)
      else if time s > cn_deadline c then (Inl (NSip (lit ''Registration timed out'')), c, pass s)
      else (Inr (), c, pass s))"

definition connection_poll :: "connection \<Rightarrow> ('m, 'd, 'k, 'r) service \<Rightarrow> ('m, 'd, 'k, 'r) polled" where
  "connection_poll c s =
     and_then (check_route c s) (\<lambda>_ (c, s).
     and_then (on_connection (if sp_tls (cn_sip c) then native s else (Inr (), s)) c) (\<lambda>_ (c, s).
     and_then (on_registration (se_registration (sv_env s) (sv_ticks s)) c (pass s)) (\<lambda>_ (c, s).
     and_then (check_flow c s) (\<lambda>_ (c, s). check_registered c s))))"

text \<open>All connections; the failures with their messages.\<close>

fun poll_all ::
  "(uuid \<times> connection) list \<Rightarrow> ('m, 'd, 'k, 'r) service \<Rightarrow>
   (uuid \<times> connection) list \<times> (uuid \<times> utext) list \<times> ('m, 'd, 'k, 'r) service" where
  "poll_all [] s = ([], [], s)"
| "poll_all ((i, c) # cs) s =
     (case connection_poll c s of (r, c, s) \<Rightarrow>
        (case poll_all cs s of (cs, failures, s) \<Rightarrow>
           ((i, c) # cs, (case r of Inl e \<Rightarrow> (i, show_native_error e) # failures | Inr _ \<Rightarrow> failures), s)))"

section \<open>Preparing connections\<close>

text \<open>The thread of a connector.\<close>

definition connect_worker :: "service_account \<Rightarrow> connect_answers \<Rightarrow> native_error + prepared_connection" where
  "connect_worker a ans =
     res_bind (ca_addresses ans) (\<lambda>addresses.
       case find (\<lambda>x. is_ipv4 (fst x)) addresses of
         None \<Rightarrow> Inl (NSip (lit ''No IPv4 SIP server address''))
       | Some peer \<Rightarrow>
           res_bind (ca_route ans) (\<lambda>ip.
           res_bind (case sa_stun_server a of
                       Some v \<Rightarrow> if sa_automatic_nat a then map_sum id Some (stun_server (ca_resolve ans) v) else Inr None
                     | None \<Rightarrow> Inr None) (\<lambda>stun.
           if ca_stopped ans then Inl NCancelled
           else res_bind (if sa_transport a = SigTls
                          then res_bind (tls_peer a) (\<lambda>p. case ca_tls ans p of Some e \<Rightarrow> Inl e | None \<Rightarrow> Inr ())
                          else Inr ()) (\<lambda>_.
             Inr \<lparr>pc_route_peer = peer, pc_local_ip = ip, pc_stun = stun\<rparr>))))"

fun reap_workers :: "nat \<Rightarrow> ('m, 'd, 'k, 'r) service \<Rightarrow> ('m, 'd, 'k, 'r) service" where
  "reap_workers n s =
     (if n = 0 then s
      else let finished = se_worker_done (sv_env s) (sv_ticks s); s = pass s
           in reap_workers (n - 1) (if finished then s\<lparr>sv_workers := sv_workers s - 1\<rparr> else s))"

declare reap_workers.simps [simp del]

text \<open>At most two connector threads; a connector of an account that changed is replaced.\<close>

definition spawn_connector :: "service_account \<Rightarrow> ('m, 'd, 'k, 'r) service \<Rightarrow> (unit, 'm, 'd, 'k, 'r) served" where
  "spawn_connector a s =
     (if map_of (sv_connectors s) (sa_id a) \<noteq> None then (Inr (), s)
      else and_then (native s) (\<lambda>_ s.
        (Inr (), s\<lparr>sv_workers := sv_workers s + 1, sv_connectors := AList.update (sa_id a) a (sv_connectors s)\<rparr>)))"

definition drop_connector :: "uuid \<Rightarrow> ('m, 'd, 'k, 'r) service \<Rightarrow> ('m, 'd, 'k, 'r) service" where
  "drop_connector i s = s\<lparr>sv_connectors := AList.delete i (sv_connectors s)\<rparr>"

definition take_connector :: "service_account \<Rightarrow> ('m, 'd, 'k, 'r) service \<Rightarrow> (unit, 'm, 'd, 'k, 'r) served" where
  "take_connector a s =
     (case se_connector (sv_env s) (sv_ticks s) of
        CrEmpty \<Rightarrow> (Inr (), pass s)
      | CrStopped \<Rightarrow> (Inl (NSip (lit ''Connection setup stopped'')), drop_connector (sa_id a) (pass s))
      | CrResult ans \<Rightarrow>
          let s = drop_connector (sa_id a) (pass s)
          in (case connect_worker a ans of
                Inl e \<Rightarrow> (Inl e, s)
              | Inr prepared \<Rightarrow>
                  and_then (connection_new a prepared s) (\<lambda>c s.
                    (Inr (), s\<lparr>sv_connections := AList.update (sa_id a) c (sv_connections s)\<rparr>))))"

definition ensure_connection :: "service_account \<Rightarrow> ('m, 'd, 'k, 'r) service \<Rightarrow> (unit, 'm, 'd, 'k, 'r) served" where
  "ensure_connection a s =
     (let s = reap_workers (sv_workers s) s
      in if map_of (sv_connections s) (sa_id a) \<noteq> None then (Inr (), s)
         else let s = (case map_of (sv_connectors s) (sa_id a) of
                         Some b \<Rightarrow> if b \<noteq> a then drop_connector (sa_id a) s else s
                       | None \<Rightarrow> s)
           in if map_of (sv_connectors s) (sa_id a) = None \<and> sv_workers s \<ge> 2 then (Inr (), s)
              else and_then (spawn_connector a s) (\<lambda>_. take_connector a))"

section \<open>Outgoing calls\<close>

text \<open>\<open>media\<close>: sockets for one call, with their STUN mappings.\<close>

definition new_media ::
  "service_account \<Rightarrow> ip_addr \<Rightarrow> sock_addr option \<Rightarrow> ('m, 'd, 'k, 'r) service \<Rightarrow>
   (sockets \<times> local_media, 'm, 'd, 'k, 'r) served" where
  "new_media a ip stun s =
     (let env = sv_env s; n = sv_ticks s; s = pass s
      in case bind_sockets (se_bind env n) of
           Inl e \<Rightarrow> (Inl e, s)
         | Inr sk \<Rightarrow>
             (case configure_nat (sa_automatic_nat a) stun (fst (se_fresh env n)) (snd (se_fresh env n))
                     (fst (se_poll env n)) (snd (se_poll env n)) sk of
                (Inl e, _) \<Rightarrow> (Inl e, s)
              | (Inr _, sk) \<Rightarrow>
                  (Inr (sk, \<lparr>lm_ip = ip, lm_audio_port = word_of_nat (sk_audio_port sk),
                             lm_fax_port = word_of_nat (sk_fax_port sk),
                             lm_session = session_number (se_session env n), lm_version = 1\<rparr>), s)))"

definition send_invite ::
  "service_send \<Rightarrow> sip \<Rightarrow> ('m, 'd, 'k, 'r) service \<Rightarrow> (sip, 'm, 'd, 'k, 'r) served" where
  "send_invite fax p s =
     (let a = ss_account fax; kind = first_kind (ss_mode fax)
      in case call_target a (ss_destination fax) of
           Inl e \<Rightarrow> (Inl e, s)
         | Inr _ \<Rightarrow>
             and_then (natives 2 s) (\<lambda>_ s.
             and_then (with_credentials a s) (\<lambda>_ s.
             and_then (with_route a s) (\<lambda>_ s.
             and_then (natives 5 s) (\<lambda>_ s.
               (Inr (p\<lparr>sp_inv := True, sp_local := (sp_local p)\<lparr>lm_version := lm_version (sp_local p) + 1\<rparr>\<rparr>),
                emit (SoInvite (sp_id p) kind) s))))))"

definition place_call ::
  "connection \<Rightarrow> pending_send \<Rightarrow> sockets \<times> local_media \<Rightarrow> ('m, 'd, 'k, 'r) service \<Rightarrow>
   (('m, 'd, 'k, 'r) active_call, 'm, 'd, 'k, 'r) served" where
  "place_call cn ps m s =
     and_then (child (cn_sip cn) (mapped_local (fst m) (snd m)) s) (\<lambda>p s.
     and_then (send_invite (ps_fax ps) p s) (\<lambda>p s.
       (Inr \<lparr>cl_sip = p, cl_request = ps_fax ps,
             cl_pump = pump_new (se_call (sv_env s) (sv_ticks s)) (pump_request (ps_fax ps)) (fst m) False True,
             cl_cancelled = False, cl_reply = Some (ps_reply ps), cl_incoming = None\<rparr>, pass s)))"

text \<open>The call once its sockets are mapped; until then the send keeps its sockets.\<close>

definition media_ready ::
  "connection \<Rightarrow> pending_send \<Rightarrow> sockets \<times> local_media \<Rightarrow> ('m, 'd, 'k, 'r) service \<Rightarrow>
   (native_error + ('m, 'd, 'k, 'r) active_call option) \<times> pending_send \<times> ('m, 'd, 'k, 'r) service" where
  "media_ready cn ps m s =
     (case poll_mappings (fst (se_poll (sv_env s) (sv_ticks s))) (snd (se_poll (sv_env s) (sv_ticks s))) (fst m) of
        (Inl e, _) \<Rightarrow> (Inl e, ps, pass s)
      | (Inr _, sk) \<Rightarrow>
          let s = pass s
          in if sockets_pending (time s) sk then (Inr None, ps\<lparr>ps_media := Some (sk, snd m)\<rparr>, pass s)
             else (case place_call cn (ps\<lparr>ps_media := None\<rparr>) (sk, snd m) (pass s) of
                     (r, s) \<Rightarrow> (map_sum id Some r, ps\<lparr>ps_media := None\<rparr>, s)))"

definition prepare_media ::
  "connection \<Rightarrow> pending_send \<Rightarrow> ('m, 'd, 'k, 'r) service \<Rightarrow> (sockets \<times> local_media, 'm, 'd, 'k, 'r) served" where
  "prepare_media cn ps s =
     (case ps_media ps of
        Some m \<Rightarrow> (Inr m, s)
      | None \<Rightarrow> new_media (ss_account (ps_fax ps)) (cn_local_ip cn) (cn_stun cn) s)"

definition account_differs :: native_error where
  "account_differs =
     NSip (lit ''Queued profile differs from the active account; requeue with the current profile'')"

definition prepare_send ::
  "pending_send \<Rightarrow> ('m, 'd, 'k, 'r) service \<Rightarrow>
   (native_error + ('m, 'd, 'k, 'r) active_call option) \<times> pending_send \<times> ('m, 'd, 'k, 'r) service" where
  "prepare_send ps s =
     (if se_cancelled (sv_env s) (ps_reply ps) (sv_ticks s) then (Inl NCancelled, ps, pass s)
      else case ensure_connection (ss_account (ps_fax ps)) (pass s) of
        (Inl e, s) \<Rightarrow> (Inl e, ps, s)
      | (Inr _, s) \<Rightarrow>
          (case map_of (sv_connections s) (sa_id (ss_account (ps_fax ps))) of
             None \<Rightarrow> (Inr None, ps, s)
           | Some cn \<Rightarrow>
               if cn_account cn \<noteq> ss_account (ps_fax ps) then (Inl account_differs, ps, s)
               else if \<not> cn_ready cn then (Inr None, ps, s)
               else (case prepare_media cn ps s of
                       (Inl e, s) \<Rightarrow> (Inl e, ps, s)
                     | (Inr m, s) \<Rightarrow> media_ready cn ps m s)))"

text \<open>Every pending send is tried once; those that still wait stay, in order.\<close>

definition launch :: "pending_send \<Rightarrow> ('m, 'd, 'k, 'r) service \<Rightarrow> ('m, 'd, 'k, 'r) service" where
  "launch ps s =
     (case prepare_send ps s of
        (Inr (Some c), _, s) \<Rightarrow>
          pass (s\<lparr>sv_calls := AList.update (se_uuid (sv_env s) (sv_ticks s)) c (sv_calls s)\<rparr>)
      | (Inr None, ps, s) \<Rightarrow> s\<lparr>sv_pending := sv_pending s @ [ps]\<rparr>
      | (Inl e, ps, s) \<Rightarrow> finish_send e ps s)"

definition launch_all :: "('m, 'd, 'k, 'r) service \<Rightarrow> ('m, 'd, 'k, 'r) service" where
  "launch_all s = fold launch (sv_pending s) (s\<lparr>sv_pending := []\<rparr>)"

section \<open>Calls that end together\<close>

definition close_by_id :: "native_error + transfer_stats \<Rightarrow> uuid \<Rightarrow> ('m, 'd, 'k, 'r) service \<Rightarrow> ('m, 'd, 'k, 'r) service" where
  "close_by_id outcome i s =
     (case map_of (sv_calls s) i of
        Some c \<Rightarrow> close_call outcome c (forget_incoming i (s\<lparr>sv_calls := AList.delete i (sv_calls s)\<rparr>))
      | None \<Rightarrow> s)"

text \<open>The computer slept: no call and no admission survives.\<close>

definition asleep :: native_error where
  "asleep = NSip (lit ''Transfer interrupted while the computer was asleep'')"

definition after_sleep :: "('m, 'd, 'k, 'r) service \<Rightarrow> ('m, 'd, 'k, 'r) service" where
  "after_sleep s =
     (let s = fold (close_by_id (Inl asleep)) (map fst (sv_calls s)) s
      in fold (drop_by_id 480) (map fst (sv_admission s)) s)"

definition check_sleep :: "('m, 'd, 'k, 'r) service \<Rightarrow> ('m, 'd, 'k, 'r) service" where
  "check_sleep s =
     (let woke = time s - sv_last_tick s > secs 30; s = pass s;
          s = (if woke then (after_sleep s)\<lparr>sv_reconnect := True\<rparr> else s)
      in pass (s\<lparr>sv_last_tick := time s\<rparr>))"

section \<open>Reconnecting and failing\<close>

definition retire_connection :: "connection \<Rightarrow> ('m, 'd, 'k, 'r) service \<Rightarrow> ('m, 'd, 'k, 'r) service" where
  "retire_connection c s = retire_now (cn_sip c) (unregister (cn_sip c) s)"

definition reconnect_all :: "('m, 'd, 'k, 'r) service \<Rightarrow> ('m, 'd, 'k, 'r) service" where
  "reconnect_all s =
     (if sv_reconnect s \<and> sv_calls s = [] \<and> sv_admission s = []
      then let s = fold retire_connection (map snd (sv_connections s))
                     (s\<lparr>sv_reconnect := False, sv_connectors := [], sv_available := [], sv_connections := []\<rparr>)
           in pass (s\<lparr>sv_retry_at := time s, sv_backoff := 1\<rparr>)
      else s)"

definition call_account :: "('m, 'd, 'k, 'r) active_call \<Rightarrow> uuid" where
  "call_account c = sa_id (ss_account (cl_request c))"

definition set_status ::
  "uuid option \<Rightarrow> receive_state \<Rightarrow> ('m, 'd, 'k, 'r) service \<Rightarrow> ('m, 'd, 'k, 'r) service" where
  "set_status profile state s =
     emit (SoEvent (ReStatus profile state)) (s\<lparr>sv_last_status := Some (profile, state)\<rparr>)"

text \<open>The receiver failed: a status, and a pause that doubles up to a minute, or a day when trying again
  cannot help.\<close>

definition receiver_failed ::
  "uuid \<Rightarrow> utext \<Rightarrow> bool \<Rightarrow> ('m, 'd, 'k, 'r) service \<Rightarrow> ('m, 'd, 'k, 'r) service" where
  "receiver_failed acct error hopeless s =
     set_status (if sv_listener s \<noteq> None then None else Some acct) (RsError error)
       (pass (s\<lparr>sv_retry_at := time s + secs (if hopeless then 86400 else sv_backoff s),
               sv_backoff := min (sv_backoff s * 2) 60\<rparr>))"

definition fail_pending :: "uuid \<Rightarrow> utext \<Rightarrow> ('m, 'd, 'k, 'r) service \<Rightarrow> ('m, 'd, 'k, 'r) service" where
  "fail_pending acct error s =
     fold (finish_send (NSip error)) (filter (\<lambda>p. sa_id (ss_account (ps_fax p)) = acct) (sv_pending s))
       (s\<lparr>sv_pending := filter (\<lambda>p. sa_id (ss_account (ps_fax p)) \<noteq> acct) (sv_pending s)\<rparr>)"

definition fail_connection :: "uuid \<times> utext \<Rightarrow> ('m, 'd, 'k, 'r) service \<Rightarrow> ('m, 'd, 'k, 'r) service" where
  "fail_connection failure s =
     (case failure of (acct, error) \<Rightarrow>
        let s = fail_pending acct error s;
            s = fold (close_by_id (Inl (NSip error)))
                  (map fst (filter (\<lambda>(i, c). call_account c = acct) (sv_calls s))) s;
            s = fold (drop_by_id 480)
                  (map fst (filter (\<lambda>(i, a). call_account (pa_call a) = acct) (sv_admission s))) s;
            s = (case map_of (sv_connections s) acct of
                   Some c \<Rightarrow> retire_now (cn_sip c) (s\<lparr>sv_connections := AList.delete acct (sv_connections s)\<rparr>)
                 | None \<Rightarrow> s)
        in if map_option (\<lambda>cfg. sa_id (rc_account cfg)) (sv_desired s) = Some acct
           then receiver_failed acct error
                  (contains (lit ''401'') error \<or> contains (lit ''403'') error \<or> contains (lit ''certificate'') error)
                  (s\<lparr>sv_available := []\<rparr>)
           else s)"

definition poll_connections :: "('m, 'd, 'k, 'r) service \<Rightarrow> ('m, 'd, 'k, 'r) service" where
  "poll_connections s =
     (case poll_all (sv_connections s) s of (cs, failures, s) \<Rightarrow>
        fold fail_connection failures (s\<lparr>sv_connections := cs\<rparr>))"

section \<open>The receiver\<close>

definition any_call :: "(('m, 'd, 'k, 'r) active_call \<Rightarrow> bool) \<Rightarrow> ('m, 'd, 'k, 'r) service \<Rightarrow> bool" where
  "any_call P s = list_ex (\<lambda>(i, c). P c) (sv_calls s)"

definition any_admission :: "(('m, 'd, 'k, 'r) active_call \<Rightarrow> bool) \<Rightarrow> ('m, 'd, 'k, 'r) service \<Rightarrow> bool" where
  "any_admission P s = list_ex (\<lambda>(i, a). P (pa_call a)) (sv_admission s)"

text \<open>A changed configuration takes over once no incoming call of another account is left, and replaces a
  connection of its own account once no call uses it.\<close>

definition foreign_reception :: "uuid \<Rightarrow> ('m, 'd, 'k, 'r) service \<Rightarrow> bool" where
  "foreign_reception acct s \<longleftrightarrow>
     any_call (\<lambda>c. cl_incoming c \<noteq> None \<and> call_account c \<noteq> acct) s \<or> any_admission (\<lambda>c. call_account c \<noteq> acct) s"

definition account_in_use :: "uuid \<Rightarrow> ('m, 'd, 'k, 'r) service \<Rightarrow> bool" where
  "account_in_use acct s \<longleftrightarrow>
     any_call (\<lambda>c. call_account c = acct) s \<or> any_admission (\<lambda>c. call_account c = acct) s"

definition connection_changed :: "receive_config \<Rightarrow> ('m, 'd, 'k, 'r) service \<Rightarrow> bool" where
  "connection_changed cfg s =
     (case map_of (sv_connections s) (sa_id (rc_account cfg)) of
        None \<Rightarrow> False | Some c \<Rightarrow> cn_account c \<noteq> rc_account cfg \<or> cn_listener c \<noteq> sv_listener s)"

definition replace_connection :: "receive_config \<Rightarrow> ('m, 'd, 'k, 'r) service \<Rightarrow> ('m, 'd, 'k, 'r) service" where
  "replace_connection cfg s =
     (case map_of (sv_connections s) (sa_id (rc_account cfg)) of
        None \<Rightarrow> s
      | Some c \<Rightarrow> retire_connection c
          (s\<lparr>sv_available := [], sv_connections := AList.delete (sa_id (rc_account cfg)) (sv_connections s)\<rparr>))"

definition open_listener ::
  "receive_config \<Rightarrow> listener_config \<Rightarrow> ('m, 'd, 'k, 'r) service \<Rightarrow> (unit, 'm, 'd, 'k, 'r) served" where
  "open_listener cfg l s =
     (if map_of (sv_connections s) (sa_id (rc_account cfg)) \<noteq> None then (Inr (), s)
      else and_then (connection_listening (rc_account cfg) l s) (\<lambda>c s.
        (Inr (), s\<lparr>sv_connections := AList.update (sa_id (rc_account cfg)) c (sv_connections s)\<rparr>)))"

definition connect_receiver :: "receive_config \<Rightarrow> ('m, 'd, 'k, 'r) service \<Rightarrow> (unit, 'm, 'd, 'k, 'r) served" where
  "connect_receiver cfg s =
     (if connection_changed cfg s \<and> account_in_use (sa_id (rc_account cfg)) s then (Inr (), s)
      else let s = (if connection_changed cfg s then replace_connection cfg s else s)
        in case sv_listener s of
             Some l \<Rightarrow> open_listener cfg l s
           | None \<Rightarrow> ensure_connection (rc_account cfg) s)"

text \<open>Idle slots up to the limit of incoming calls. A failure here ends the service.\<close>

definition add_slot :: "receive_config \<Rightarrow> connection \<Rightarrow> ('m, 'd, 'k, 'r) service \<Rightarrow> (unit, 'm, 'd, 'k, 'r) served" where
  "add_slot cfg cn s =
     (let bind_ip = (case sv_listener s of Some l \<Rightarrow> fst (lc_bind l) | None \<Rightarrow> cn_local_ip cn)
      in and_then (new_media (rc_account cfg) bind_ip (cn_stun cn) s) (\<lambda>m s.
         and_then (child (cn_sip cn) ((snd m)\<lparr>lm_ip := cn_local_ip cn\<rparr>) s) (\<lambda>p s.
         (Inr (), s\<lparr>sv_available := sv_available s @
            [\<lparr>sl_direct = (sv_listener s \<noteq> None), sl_timeout = so_timeout (sv_options s), sl_sip = p,
              sl_sockets = fst m, sl_config = cfg\<rparr>]\<rparr>))))"

fun add_slots :: "nat \<Rightarrow> receive_config \<Rightarrow> connection \<Rightarrow> ('m, 'd, 'k, 'r) service \<Rightarrow> (unit, 'm, 'd, 'k, 'r) served" where
  "add_slots n cfg cn s =
     (if n = 0 then (Inr (), s) else and_then (add_slot cfg cn s) (\<lambda>_. add_slots (n - 1) cfg cn))"

declare add_slots.simps [simp del]

definition receiving_on :: "receive_config \<Rightarrow> connection \<Rightarrow> ('m, 'd, 'k, 'r) service \<Rightarrow> bool" where
  "receiving_on cfg cn s \<longleftrightarrow> cn_ready cn \<and> cn_account cn = rc_account cfg \<and> cn_listener cn = sv_listener s"

definition refill_slots :: "receive_config \<Rightarrow> ('m, 'd, 'k, 'r) service \<Rightarrow> (unit, 'm, 'd, 'k, 'r) served" where
  "refill_slots cfg s =
     (case map_of (sv_connections s) (sa_id (rc_account cfg)) of
        None \<Rightarrow> (Inr (), s)
      | Some cn \<Rightarrow>
          if \<not> receiving_on cfg cn s then (Inr (), s)
          else and_then (add_slots (lim_incoming (so_limits (sv_options s)) - (length (sv_call_ids s) + length (sv_available s)))
                           cfg cn s) (\<lambda>_ s. (Inr (), s\<lparr>sv_backoff := 1\<rparr>)))"

definition maintain_receiver :: "('m, 'd, 'k, 'r) service \<Rightarrow> (unit, 'm, 'd, 'k, 'r) served" where
  "maintain_receiver s =
     (case sv_desired s of
        None \<Rightarrow> (Inr (), s)
      | Some cfg \<Rightarrow>
          if time s < sv_retry_at s \<or> foreign_reception (sa_id (rc_account cfg)) s then (Inr (), pass s)
          else (case connect_receiver cfg (pass s) of
                  (Inr _, s) \<Rightarrow> refill_slots cfg s
                | (Inl e, s) \<Rightarrow> refill_slots cfg (receiver_failed (sa_id (rc_account cfg)) (show_native_error e)
                    (contains (lit ''certificate'') (show_native_error e)) s)))"

text \<open>The mappings of the idle slots; their callbacks answer with the mapped addresses.\<close>

fun poll_slots ::
  "incoming_slot list \<Rightarrow> ('m, 'd, 'k, 'r) service \<Rightarrow> (incoming_slot list, 'm, 'd, 'k, 'r) served" where
  "poll_slots [] s = (Inr [], s)"
| "poll_slots (sl # sls) s =
     (case poll_mappings (fst (se_poll (sv_env s) (sv_ticks s))) (snd (se_poll (sv_env s) (sv_ticks s))) (sl_sockets sl) of
        (Inl e, _) \<Rightarrow> (Inl e, pass s)
      | (Inr _, sk) \<Rightarrow>
          let p = (sl_sip sl)\<lparr>sp_local := mapped_local sk (sp_local (sl_sip sl))\<rparr>
          in and_then (poll_slots sls (pass s)) (\<lambda>sls s. (Inr (sl\<lparr>sl_sockets := sk, sl_sip := p\<rparr> # sls), s)))"

definition poll_available :: "('m, 'd, 'k, 'r) service \<Rightarrow> (unit, 'm, 'd, 'k, 'r) served" where
  "poll_available s =
     and_then (poll_slots (sv_available s) s) (\<lambda>sls s. (Inr (), s\<lparr>sv_available := sls\<rparr>))"

section \<open>Expiry and media\<close>

fun expired ::
  "(uuid \<times> ('m, 'd, 'k, 'r) pending_admission) list \<Rightarrow> ('m, 'd, 'k, 'r) service \<Rightarrow>
   uuid list \<times> ('m, 'd, 'k, 'r) service" where
  "expired [] s = ([], s)"
| "expired ((i, a) # rest) s =
     (case (if time s \<ge> pa_deadline a then (True, pass s) else disconnected_now (pass s)) of (gone, s) \<Rightarrow>
        (case expired rest s of (ids, s) \<Rightarrow> (if gone then i # ids else ids, s)))"

definition expire_admissions :: "('m, 'd, 'k, 'r) service \<Rightarrow> ('m, 'd, 'k, 'r) service" where
  "expire_admissions s = (case expired (sv_admission s) s of (ids, s) \<Rightarrow> fold (drop_by_id 480) ids s)"

text \<open>One step of every call; those that ended, with their results.\<close>

fun tick_calls ::
  "(uuid \<times> ('m, 'd, 'k, 'r) active_call) list \<Rightarrow> ('m, 'd, 'k, 'r) service \<Rightarrow>
   (uuid \<times> ('m, 'd, 'k, 'r) active_call) list \<times> (uuid \<times> (native_error + transfer_stats)) list \<times>
   ('m, 'd, 'k, 'r) service" where
  "tick_calls [] s = ([], [], s)"
| "tick_calls ((i, c) # cs) s =
     (case call_tick c s of (r, c, s) \<Rightarrow>
        (case tick_calls cs s of (cs, finished, s) \<Rightarrow>
           ((i, c) # cs,
            (case r of Inr None \<Rightarrow> finished | Inr (Some stats) \<Rightarrow> (i, Inr stats) # finished | Inl e \<Rightarrow> (i, Inl e) # finished),
            s)))"

definition run_calls :: "('m, 'd, 'k, 'r) service \<Rightarrow> ('m, 'd, 'k, 'r) service" where
  "run_calls s =
     (case tick_calls (sv_calls s) s of (cs, finished, s) \<Rightarrow>
        fold (\<lambda>(i, r). close_by_id r i) finished (s\<lparr>sv_calls := cs\<rparr>))"

section \<open>Status\<close>

definition desired_account :: "('m, 'd, 'k, 'r) service \<Rightarrow> uuid option" where
  "desired_account s = map_option (\<lambda>cfg. sa_id (rc_account cfg)) (sv_desired s)"

definition nil_uuid :: uuid where
  "nil_uuid = lit ''00000000-0000-0000-0000-000000000000''"

definition active_account :: "('m, 'd, 'k, 'r) service \<Rightarrow> uuid option" where
  "active_account s =
     (case filter (\<lambda>(i, c). cl_incoming c \<noteq> None) (sv_calls s) of
        (i, c) # _ \<Rightarrow> Some (call_account c)
      | [] \<Rightarrow> (case sv_admission s of (i, a) # _ \<Rightarrow> Some (call_account (pa_call a)) | [] \<Rightarrow> None))"

definition status_profile :: "('m, 'd, 'k, 'r) service \<Rightarrow> uuid option" where
  "status_profile s =
     (let i = (case active_account s of Some i \<Rightarrow> Some i | None \<Rightarrow> desired_account s)
      in if i = Some nil_uuid then None else i)"

text \<open>\<open>now\<close> stands for the readings of one computation of the status.\<close>

definition receiver_status :: "instant \<Rightarrow> ('m, 'd, 'k, 'r) service \<Rightarrow> receive_state" where
  "receiver_status now s =
     (if sv_call_ids s \<noteq> [] then RsReceiving
      else if sv_desired s = None then RsOff
      else if now < sv_retry_at s
      then (case sv_last_status s of Some (_, state) \<Rightarrow> state | None \<Rightarrow> RsRegistering)
      else if list_ex (\<lambda>sl. \<not> sockets_pending now (sl_sockets sl)) (sv_available s) then RsReady
      else RsRegistering)"

definition update_status :: "('m, 'd, 'k, 'r) service \<Rightarrow> ('m, 'd, 'k, 'r) service" where
  "update_status s =
     (let profile = status_profile s; state = receiver_status (time s) s; s = pass s
      in if sv_last_status s = Some (profile, state) then s else set_status profile state s)"

section \<open>What is no longer used\<close>

definition unused_connection :: "('m, 'd, 'k, 'r) service \<Rightarrow> uuid \<Rightarrow> bool" where
  "unused_connection s i \<longleftrightarrow>
     desired_account s \<noteq> Some i \<and> \<not> any_call (\<lambda>c. call_account c = i) s \<and>
     \<not> list_ex (\<lambda>p. sa_id (ss_account (ps_fax p)) = i) (sv_pending s) \<and> \<not> any_admission (\<lambda>c. call_account c = i) s"

definition drop_unused_connection :: "uuid \<Rightarrow> ('m, 'd, 'k, 'r) service \<Rightarrow> ('m, 'd, 'k, 'r) service" where
  "drop_unused_connection i s =
     (case map_of (sv_connections s) i of
        Some c \<Rightarrow> retire_connection c (s\<lparr>sv_connections := AList.delete i (sv_connections s)\<rparr>)
      | None \<Rightarrow> s)"

definition wanted_connector :: "('m, 'd, 'k, 'r) service \<Rightarrow> uuid \<Rightarrow> bool" where
  "wanted_connector s i \<longleftrightarrow>
     desired_account s = Some i \<or> list_ex (\<lambda>p. sa_id (ss_account (ps_fax p)) = i) (sv_pending s)"

text \<open>Retired handles live for two seconds; one reading of the clock stands for those of the list.\<close>

definition release_unused :: "('m, 'd, 'k, 'r) service \<Rightarrow> ('m, 'd, 'k, 'r) service" where
  "release_unused s =
     (let s = s\<lparr>sv_connectors := filter (\<lambda>(i, a). wanted_connector s i) (sv_connectors s)\<rparr>;
          s = fold drop_unused_connection (filter (unused_connection s) (map fst (sv_connections s))) s
      in pass (s\<lparr>sv_retired := filter (\<lambda>(at, p). time s - at < secs 2) (sv_retired s)\<rparr>))"

section \<open>Sleeping\<close>

definition nothing_to_do :: "('m, 'd, 'k, 'r) service \<Rightarrow> bool" where
  "nothing_to_do s \<longleftrightarrow>
     sv_desired s = None \<and> sv_pending s = [] \<and> sv_calls s = [] \<and> sv_connections s = [] \<and>
     sv_connectors s = [] \<and> sv_retired s = [] \<and> sv_admission s = []"

definition slot_due :: "instant \<Rightarrow> ('m, 'd, 'k, 'r) service \<Rightarrow> bool" where
  "slot_due now s =
     (case sv_desired s of
        None \<Rightarrow> False
      | Some cfg \<Rightarrow>
          now \<ge> sv_retry_at s \<and>
          (case map_of (sv_connections s) (sa_id (rc_account cfg)) of None \<Rightarrow> False | Some cn \<Rightarrow> receiving_on cfg cn s) \<and>
          length (sv_call_ids s) + length (sv_available s) < lim_incoming (so_limits (sv_options s)))"

text \<open>Every instant at which something has to be done. One reading of the clock stands for all.\<close>

definition tls_due :: "('m, 'd, 'k, 'r) service \<Rightarrow> sip \<Rightarrow> instant" where
  "tls_due s p = se_tls_deadline (sv_env s) (sv_ticks s) (sp_id p)"

definition due_times :: "instant \<Rightarrow> ('m, 'd, 'k, 'r) service \<Rightarrow> instant list" where
  "due_times now s =
     map (\<lambda>(i, c). connection_deadline now (tls_due s (cn_sip c)) c) (sv_connections s) @
     concat (map (\<lambda>(i, c). pu_next_frame (cl_pump c) # option_list (sockets_deadline now (pu_sockets (cl_pump c)))) (sv_calls s)) @
     concat (map (\<lambda>p. case ps_media p of None \<Rightarrow> [] | Some m \<Rightarrow> option_list (sockets_deadline now (fst m))) (sv_pending s)) @
     concat (map (\<lambda>sl. option_list (sockets_deadline now (sl_sockets sl))) (sv_available s)) @
     map (\<lambda>(i, a). pa_deadline a) (sv_admission s) @
     concat (map (\<lambda>(at, p). (at + secs 2) # (if sp_tls p then [tls_due s p] else [])) (sv_retired s)) @
     (if sv_desired s \<noteq> None \<and> sv_retry_at s > now then [sv_retry_at s] else []) @
     (if slot_due now s then [now] else []) @
     (if sv_queue s \<noteq> [] then [now] else [])"

definition sleep_millis :: "('m, 'd, 'k, 'r) service \<Rightarrow> nat" where
  "sleep_millis s =
     (case due_times (time s) s of
        [] \<Rightarrow> 86400000
      | t # ts \<Rightarrow> (fold min ts t - time s) div 1000000 + 1)"

section \<open>One iteration\<close>

text \<open>PJSIP runs the callbacks of new INVITEs while it waits for events.\<close>

definition handle_events :: "('m, 'd, 'k, 'r) service \<Rightarrow> (unit, 'm, 'd, 'k, 'r) served" where
  "handle_events s =
     (let s = pass (emit (SoSleep (sleep_millis s)) s)
      in native (fold on_incoming (se_invites (sv_env s) (sv_ticks s)) (pass s)))"

text \<open>\<open>True\<close>: the loop ends.\<close>

definition loop_body :: "('m, 'd, 'k, 'r) service \<Rightarrow> (bool, 'm, 'd, 'k, 'r) served" where
  "loop_body s =
     (let s = serve_commands (check_sleep s)
      in if sv_stopping s then (Inr True, s)
         else and_then (maintain_receiver (poll_connections (reconnect_all s))) (\<lambda>_ s.
              and_then (poll_available (launch_all s)) (\<lambda>_ s.
              let s = release_unused (update_status (run_calls (expire_admissions s)))
              in if nothing_to_do s then (Inr False, s\<lparr>sv_idle := True\<rparr>)
                 else and_then (handle_events s) (\<lambda>_ s. (Inr False, s)))))"

section \<open>The end\<close>

definition end_admission :: "uuid \<times> ('m, 'd, 'k, 'r) pending_admission \<Rightarrow> ('m, 'd, 'k, 'r) service \<Rightarrow> ('m, 'd, 'k, 'r) service" where
  "end_admission entry s =
     (case entry of (i, a) \<Rightarrow> retire_now (cl_sip (pa_call a)) (reject_admission 480 (cl_sip (pa_call a)) (invalidate i s)))"

definition abandon_command :: "nat \<times> command \<Rightarrow> ('m, 'd, 'k, 'r) service \<Rightarrow> ('m, 'd, 'k, 'r) service" where
  "abandon_command entry s =
     (case entry of
        (reply, CmSend fax) \<Rightarrow> emit (SoUpdate reply (SuFinished (Inl NCancelled))) s
      | _ \<Rightarrow> s)"

definition end_error :: "native_error + unit \<Rightarrow> native_error" where
  "end_error outcome = (case outcome of Inr _ \<Rightarrow> NCancelled | Inl e \<Rightarrow> NSip (show_native_error e))"

text \<open>Everything in flight ends; an error of the loop is the receiver's last status. The two seconds in
  which retired handles are still polled are not visible.\<close>

definition wind_down :: "native_error + unit \<Rightarrow> ('m, 'd, 'k, 'r) service \<Rightarrow> ('m, 'd, 'k, 'r) service" where
  "wind_down outcome s =
     (let s = fold end_admission (sv_admission s) (s\<lparr>sv_connectors := [], sv_admission := []\<rparr>);
          s = fold (\<lambda>(i, c). close_call (Inl (end_error outcome)) c) (sv_calls s) (s\<lparr>sv_available := [], sv_calls := []\<rparr>);
          s = fold (finish_send NCancelled) (sv_pending s) (s\<lparr>sv_pending := []\<rparr>);
          s = fold abandon_command (sv_queue s) (s\<lparr>sv_queue := []\<rparr>);
          s = fold retire_connection (map snd (sv_connections s)) (s\<lparr>sv_connections := []\<rparr>);
          s = s\<lparr>sv_retired := [], sv_call_ids := [], sv_workers := 0, sv_ended := True\<rparr>
      in case outcome of
           Inl e \<Rightarrow> emit (SoEvent (ReStatus None (RsError (show_native_error e)))) s
         | Inr _ \<Rightarrow> s)"

section \<open>The machine\<close>

text \<open>The commands that arrived, then one iteration; with nothing to do the loop waits for a command. A
  service that ended takes no commands.\<close>

definition iterate :: "('m, 'd, 'k, 'r) service \<Rightarrow> ('m, 'd, 'k, 'r) service" where
  "iterate s =
     (case loop_body s of
        (Inl e, s) \<Rightarrow> wind_down (Inl e) s
      | (Inr True, s) \<Rightarrow> wind_down (Inr ()) s
      | (Inr False, s) \<Rightarrow> s)"

definition service_step :: "(nat \<times> command) list \<Rightarrow> ('m, 'd, 'k, 'r) service \<Rightarrow> ('m, 'd, 'k, 'r) service" where
  "service_step arrivals s =
     (if sv_ended s then s
      else let s = s\<lparr>sv_queue := sv_queue s @ arrivals\<rparr>
        in if sv_idle s
           then (if sv_queue s = [] then s else iterate (pass (s\<lparr>sv_idle := False, sv_last_tick := time s\<rparr>)))
           else iterate s)"

text \<open>The start: the checks of \<open>start_with_options\<close>, the owner of the endpoint, the endpoint and its wake-up
  socket, then the empty state of the loop.\<close>

definition service_new :: "('m, 'd, 'k, 'r) service_env \<Rightarrow> service_options \<Rightarrow> ('m, 'd, 'k, 'r) service" where
  "service_new env opts =
     \<lparr>sv_env = env, sv_ticks = 2, sv_log = [], sv_options = opts, sv_queue = [], sv_connections = [],
      sv_connectors = [], sv_workers = 0, sv_desired = None, sv_listener = None, sv_calls = [], sv_pending = [],
      sv_retired = [], sv_retry_at = se_clock env 0, sv_backoff = 1, sv_last_status = None, sv_stopping = False,
      sv_last_tick = se_clock env 1, sv_reconnect = False, sv_idle = False, sv_ended = False, sv_available = [],
      sv_admission = [], sv_waiting = [], sv_call_ids = [], sv_next_id = 1\<rparr>"

definition service_start ::
  "('m, 'd, 'k, 'r) service_env \<Rightarrow> service_options \<Rightarrow> native_error option \<Rightarrow> bool \<Rightarrow> utext option \<Rightarrow>
   native_error + ('m, 'd, 'k, 'r) service" where
  "service_start env opts setup owned endpoint =
     res_bind (limits_validate (so_limits opts)) (\<lambda>_.
       if so_timeout opts = 0 then Inl (NInvalid (lit ''Admission timeout must be positive''))
       else case setup of
         Some e \<Rightarrow> Inl e
       | None \<Rightarrow>
           if owned then Inl (NSip (lit ''A native SIP engine is already running in this process''))
           else case endpoint of Some e \<Rightarrow> Inl (NSip e) | None \<Rightarrow> Inr (service_new env opts))"

end
