(* ===== verification/ServiceInv.thy ===== *)
theory ServiceInv
  imports ServiceLoop "HOL-Library.Multiset"
begin

text \<open>
  The ledger of the SIP service: what every send, admission and call still owes, and the operations that
  leave it alone. Most of the service is \<open>plain\<close>: it touches connections, clocks, statuses and the SIP
  stack, but neither the tables of calls nor what was reported about them.
\<close>

section \<open>The ledger\<close>

type_synonym role = "uuid \<times> uuid option \<times> nat option"

definition call_role :: "uuid \<times> ('m, 'd, 'k, 'r) active_call \<Rightarrow> role" where
  "call_role = (\<lambda>(i, c). (i, cl_incoming c, cl_reply c))"

definition call_roles :: "('m, 'd, 'k, 'r) service \<Rightarrow> role list" where
  "call_roles s = map call_role (sv_calls s)"

definition admission_roles :: "('m, 'd, 'k, 'r) service \<Rightarrow> role list" where
  "admission_roles s = map (\<lambda>(i, a). call_role (i, pa_call a)) (sv_admission s)"

definition waiting_replies :: "('m, 'd, 'k, 'r) service \<Rightarrow> nat list" where
  "waiting_replies s = map ps_reply (sv_pending s)"

text \<open>The final reports about a send and about a reception.\<close>

fun answers :: "nat \<Rightarrow> service_output \<Rightarrow> bool" where
  "answers r (SoUpdate q (SuFinished _)) = (q = r)"
| "answers r _ = False"

fun closes :: "uuid \<Rightarrow> service_output \<Rightarrow> bool" where
  "closes i (SoEvent (ReFinished j _ _ _)) = (j = i)"
| "closes i _ = False"

definition answered :: "nat \<Rightarrow> ('m, 'd, 'k, 'r) service \<Rightarrow> nat" where
  "answered r s = length (filter (answers r) (sv_log s))"

definition closed :: "uuid \<Rightarrow> ('m, 'd, 'k, 'r) service \<Rightarrow> nat" where
  "closed i s = length (filter (closes i) (sv_log s))"

definition quiet_output :: "service_output \<Rightarrow> bool" where
  "quiet_output x \<longleftrightarrow> (\<forall>r. \<not> answers r x) \<and> (\<forall>i. \<not> closes i x)"

lemma quiet_outputs [simp]:
  "quiet_output (SoEvent (ReStatus p st))" "quiet_output (SoEvent (ReProgress i e))"
  "quiet_output (SoUpdate r (SuProgress e))" "quiet_output (SoOffer q)" "quiet_output (SoRespond v n)"
  "quiet_output (SoAnswer k n)" "quiet_output (SoInvite k m)" "quiet_output (SoEndSession k)"
  "quiet_output (SoUnregister k)" "quiet_output (SoSleep k)"
  by (simp_all add: quiet_output_def)

section \<open>Plain operations\<close>

definition plain :: "('m, 'd, 'k, 'r) service \<Rightarrow> ('m, 'd, 'k, 'r) service \<Rightarrow> bool" where
  "plain s t \<longleftrightarrow>
     sv_env t = sv_env s \<and> sv_options t = sv_options s \<and> sv_ended t = sv_ended s \<and> sv_ticks s \<le> sv_ticks t \<and>
     call_roles t = call_roles s \<and> admission_roles t = admission_roles s \<and> sv_admission t = sv_admission s \<and>
     waiting_replies t = waiting_replies s \<and> sv_queue t = sv_queue s \<and> sv_waiting t = sv_waiting s \<and>
     sv_call_ids t = sv_call_ids s \<and> length (sv_available t) \<le> length (sv_available s) \<and>
     (\<forall>r. answered r t = answered r s) \<and> (\<forall>i. closed i t = closed i s)"

named_theorems plain_intros "operations that leave the ledger alone"

lemma plain_refl [simp]: "plain s s"
  by (simp add: plain_def)

lemma plain_trans: "plain s t \<Longrightarrow> plain t u \<Longrightarrow> plain s u"
  by (auto simp: plain_def)

text \<open>The rules are relative to the state a handler started in, so that they chain by introduction.\<close>

lemma plain_and_then [plain_intros]:
  "plain s (snd r) \<Longrightarrow> (\<And>x t. plain s t \<Longrightarrow> plain s (snd (k x t))) \<Longrightarrow> plain s (snd (and_then r k))"
  by (rule and_then_keeps)

lemma plain_polled [plain_intros]:
  "plain s (snd (snd r)) \<Longrightarrow> (\<And>x c t. plain s t \<Longrightarrow> plain s (snd (snd (k x (c, t))))) \<Longrightarrow>
    plain s (snd (snd (and_then r k)))"
  by (rule and_then_keeps [where P = "\<lambda>p. plain s (snd p)"]) (auto split: prod.splits)

lemma plain_update [plain_intros]:
  "plain s t \<Longrightarrow> plain s (t\<lparr>sv_connections := a\<rparr>)" "plain s t \<Longrightarrow> plain s (t\<lparr>sv_connectors := b\<rparr>)"
  "plain s t \<Longrightarrow> plain s (t\<lparr>sv_workers := n\<rparr>)" "plain s t \<Longrightarrow> plain s (t\<lparr>sv_desired := d\<rparr>)"
  "plain s t \<Longrightarrow> plain s (t\<lparr>sv_listener := l\<rparr>)" "plain s t \<Longrightarrow> plain s (t\<lparr>sv_retired := e\<rparr>)"
  "plain s t \<Longrightarrow> plain s (t\<lparr>sv_retry_at := x\<rparr>)" "plain s t \<Longrightarrow> plain s (t\<lparr>sv_backoff := n\<rparr>)"
  "plain s t \<Longrightarrow> plain s (t\<lparr>sv_last_status := f\<rparr>)" "plain s t \<Longrightarrow> plain s (t\<lparr>sv_stopping := p\<rparr>)"
  "plain s t \<Longrightarrow> plain s (t\<lparr>sv_last_tick := x\<rparr>)" "plain s t \<Longrightarrow> plain s (t\<lparr>sv_reconnect := p\<rparr>)"
  "plain s t \<Longrightarrow> plain s (t\<lparr>sv_idle := p\<rparr>)" "plain s t \<Longrightarrow> plain s (t\<lparr>sv_next_id := n\<rparr>)"
  "plain s t \<Longrightarrow> plain s (t\<lparr>sv_available := []\<rparr>)"
  by (simp_all add: plain_def call_roles_def admission_roles_def waiting_replies_def answered_def closed_def)

lemma plain_pass [plain_intros]: "plain s t \<Longrightarrow> plain s (pass t)"
  by (simp add: plain_def pass_def call_roles_def admission_roles_def waiting_replies_def answered_def closed_def)

lemma plain_emit [plain_intros]: "plain s t \<Longrightarrow> quiet_output x \<Longrightarrow> plain s (emit x t)"
  by (simp add: plain_def emit_def call_roles_def admission_roles_def waiting_replies_def answered_def closed_def
      quiet_output_def)

lemma plain_fold:
  "plain s t \<Longrightarrow> (\<And>x u. x \<in> set xs \<Longrightarrow> plain s u \<Longrightarrow> plain s (f x u)) \<Longrightarrow> plain s (fold f xs t)"
  by (induction xs arbitrary: t) auto

lemma plain_native [plain_intros]: "plain s t \<Longrightarrow> plain s (snd (native t))"
  by (auto simp: native_def intro!: plain_intros split: option.splits)

lemma plain_natives [plain_intros]: "plain s t \<Longrightarrow> plain s (snd (natives n t))"
proof (induction n arbitrary: t)
  case (Suc n)
  then show ?case by (subst natives.simps) (auto intro!: plain_intros)
qed (simp add: natives.simps)

lemma plain_case_pair:
  "plain s (snd r) \<Longrightarrow> (\<And>x t. plain s t \<Longrightarrow> plain s (f x t)) \<Longrightarrow> plain s (case r of (x, t) \<Rightarrow> f x t)"
  by (cases r) auto

lemma plain_disconnected [plain_intros]: "plain s t \<Longrightarrow> plain s (snd (disconnected_now t))"
  by (simp add: disconnected_now_def plain_pass)

lemma plain_retire [plain_intros]: "plain s t \<Longrightarrow> plain s (retire at p t)" "plain s t \<Longrightarrow> plain s (retire_now p t)"
  unfolding retire_now_def retire_def by (intro plain_intros; assumption)+

lemma plain_unregister [plain_intros]: "plain s t \<Longrightarrow> plain s (unregister p t)"
  by (auto simp: unregister_def intro!: plain_intros)

lemma plain_session [plain_intros]:
  "plain s t \<Longrightarrow> plain s (end_session p t)" "plain s t \<Longrightarrow> plain s (reject_admission code p t)"
  by (auto simp: end_session_def reject_admission_def intro!: plain_case_pair plain_intros)

lemma plain_retire_connection [plain_intros]: "plain s t \<Longrightarrow> plain s (retire_connection c t)"
  unfolding retire_connection_def by (intro plain_intros)

section \<open>Connections\<close>

lemma plain_start_transport [plain_intros]: "plain s t \<Longrightarrow> plain s (snd (start_transport a t))"
  by (auto simp: start_transport_def intro!: plain_intros split: sum.splits)

lemma plain_sip [plain_intros]:
  "plain s t \<Longrightarrow> plain s (snd (new_sip a local t))" "plain s t \<Longrightarrow> plain s (snd (child p local t))"
  by (auto simp: new_sip_def child_def Let_def intro!: plain_intros split: sum.splits)

lemma plain_connection_listening [plain_intros]: "plain s t \<Longrightarrow> plain s (snd (connection_listening a l t))"
  by (auto simp: connection_listening_def Let_def intro!: plain_intros split: sum.splits)

lemma plain_optional [plain_intros]:
  "plain s t \<Longrightarrow> plain s (snd (with_credentials a t))" "plain s t \<Longrightarrow> plain s (snd (with_route a t))"
  by (auto simp: with_credentials_def with_route_def intro!: plain_intros split: option.splits sum.splits)

lemma plain_start_registration [plain_intros]: "plain s t \<Longrightarrow> plain s (snd (start_registration a t))"
  unfolding start_registration_def by (intro plain_intros)

lemma plain_connection_new [plain_intros]: "plain s t \<Longrightarrow> plain s (snd (connection_new a prepared t))"
  by (auto simp: connection_new_def Let_def intro!: plain_intros)

lemma plain_reap [plain_intros]: "plain s t \<Longrightarrow> plain s (reap_workers n t)"
proof (induction n arbitrary: t)
  case (Suc n)
  then show ?case by (subst reap_workers.simps) (auto simp: Let_def intro!: Suc.IH plain_intros)
qed (simp add: reap_workers.simps)

lemma plain_connector [plain_intros]:
  "plain s t \<Longrightarrow> plain s (snd (spawn_connector a t))" "plain s t \<Longrightarrow> plain s (drop_connector i t)"
  by (auto simp: spawn_connector_def drop_connector_def intro!: plain_intros)

lemma plain_take_connector [plain_intros]: "plain s t \<Longrightarrow> plain s (snd (take_connector a t))"
  by (auto simp: take_connector_def Let_def intro!: plain_intros split: connector_result.splits sum.splits)

lemma plain_ensure [plain_intros]: "plain s t \<Longrightarrow> plain s (snd (ensure_connection a t))"
  by (auto simp: ensure_connection_def Let_def intro!: plain_intros split: option.splits)

section \<open>Polling\<close>

lemma plain_on_connection [plain_intros]: "plain s (snd r) \<Longrightarrow> plain s (snd (snd (on_connection r c)))"
  by (simp add: on_connection_def)

lemma plain_check_route [plain_intros]: "plain s t \<Longrightarrow> plain s (snd (snd (check_route c t)))"
  by (auto simp: check_route_def Let_def intro!: plain_intros split: sum.splits)

lemma plain_on_flow [plain_intros]: "plain s t \<Longrightarrow> plain s (snd (snd (on_flow observed c t)))"
  by (auto simp: on_flow_def Let_def intro!: plain_intros split: option.splits)

lemma plain_on_registration [plain_intros]: "plain s t \<Longrightarrow> plain s (snd (snd (on_registration es c t)))"
  by (induction es c t rule: on_registration.induct) (auto intro!: plain_intros)

lemma plain_checks [plain_intros]:
  "plain s t \<Longrightarrow> plain s (snd (snd (check_flow c t)))" "plain s t \<Longrightarrow> plain s (snd (snd (check_registered c t)))"
  by (auto simp: check_flow_def check_registered_def Let_def intro!: plain_intros)

lemma plain_connection_poll [plain_intros]: "plain s t \<Longrightarrow> plain s (snd (snd (connection_poll c t)))"
  by (auto simp: connection_poll_def intro!: plain_intros)

lemma plain_poll_all: "plain s t \<Longrightarrow> plain s (snd (snd (poll_all cs t)))"
proof (induction cs t rule: poll_all.induct)
  case (2 i c cs t)
  obtain r c' u where p: "connection_poll c t = (r, c', u)" using prod_cases3 by blast
  have u: "plain s u" using plain_connection_poll [OF 2(2), of c] p by simp
  from 2(1) [OF p [symmetric] refl u] p show ?case by (auto split: prod.splits)
qed simp

section \<open>Media and outgoing calls\<close>

lemma plain_new_media [plain_intros]: "plain s t \<Longrightarrow> plain s (snd (new_media a ip stun t))"
  by (auto simp: new_media_def Let_def intro!: plain_intros split: sum.splits prod.splits)

lemma plain_send_invite [plain_intros]: "plain s t \<Longrightarrow> plain s (snd (send_invite fax p t))"
  by (auto simp: send_invite_def Let_def intro!: plain_intros split: sum.splits)

lemma plain_place_call [plain_intros]: "plain s t \<Longrightarrow> plain s (snd (place_call cn ps m t))"
  by (auto simp: place_call_def intro!: plain_intros)

lemma plain_prepare_media [plain_intros]: "plain s t \<Longrightarrow> plain s (snd (prepare_media cn ps t))"
  by (auto simp: prepare_media_def intro!: plain_intros split: option.splits)

lemma plain_create_session [plain_intros]: "plain s t \<Longrightarrow> plain s (snd (create_session sl v t))"
  by (auto simp: create_session_def intro!: plain_intros split: sum.splits)

lemma plain_answer_provisionally [plain_intros]: "plain s t \<Longrightarrow> plain s (answer_provisionally p t)"
proof -
  assume "plain s t"
  then have "plain s (snd (natives 2 t))" by (rule plain_natives)
  then show ?thesis by (auto simp: answer_provisionally_def intro!: plain_emit split: prod.splits sum.splits)
qed

section \<open>Statuses\<close>

lemma plain_set_status [plain_intros]: "plain s t \<Longrightarrow> plain s (set_status p st t)"
  unfolding set_status_def by (intro plain_intros) simp_all

lemma plain_receiver_failed [plain_intros]: "plain s t \<Longrightarrow> plain s (receiver_failed i e h t)"
  unfolding receiver_failed_def by (intro plain_intros)

lemma plain_update_status [plain_intros]: "plain s t \<Longrightarrow> plain s (update_status t)"
  by (auto simp: update_status_def Let_def intro!: plain_intros)

lemma plain_replace [plain_intros]: "plain s t \<Longrightarrow> plain s (replace_connection cfg t)"
  unfolding replace_connection_def
  by (auto split: option.splits intro!: plain_retire_connection plain_update)

lemma plain_open_listener [plain_intros]: "plain s t \<Longrightarrow> plain s (snd (open_listener cfg l t))"
  by (auto simp: open_listener_def intro!: plain_intros)

lemma plain_connect_receiver [plain_intros]: "plain s t \<Longrightarrow> plain s (snd (connect_receiver cfg t))"
  by (auto simp: connect_receiver_def Let_def intro!: plain_intros split: option.splits)

lemma plain_drop_unused [plain_intros]: "plain s t \<Longrightarrow> plain s (drop_unused_connection i t)"
  unfolding drop_unused_connection_def by (auto split: option.splits intro!: plain_retire_connection plain_update)

lemma plain_release_unused [plain_intros]: "plain s t \<Longrightarrow> plain s (release_unused t)"
  unfolding release_unused_def Let_def by (intro plain_intros plain_fold)

lemma plain_reconnect_all [plain_intros]: "plain s t \<Longrightarrow> plain s (reconnect_all t)"
proof -
  assume t: "plain s t"
  have "plain s (t\<lparr>sv_reconnect := False, sv_connectors := [], sv_available := [], sv_connections := []\<rparr>)"
    using t by (intro plain_update)
  then have "plain s (fold retire_connection cs
      (t\<lparr>sv_reconnect := False, sv_connectors := [], sv_available := [], sv_connections := []\<rparr>))" for cs
    by (rule plain_fold) (rule plain_intros)
  with t show ?thesis unfolding reconnect_all_def Let_def by (auto intro!: plain_pass plain_update)
qed

end
