(* ===== verification/ServiceBooks.thy ===== *)
theory ServiceBooks
  imports ServiceInv
begin

text \<open>
  The books of the SIP service. Every send that was taken is answered exactly once, every persisted
  admission is closed exactly once, an incoming call counts against its limit exactly while it is an
  admission or a call, and no limit is exceeded; whatever the peers, the connections and the engine do.
\<close>

section \<open>The books\<close>

definition is_send :: "nat \<Rightarrow> nat \<times> command \<Rightarrow> bool" where
  "is_send r x = (case x of (q, CmSend _) \<Rightarrow> q = r | _ \<Rightarrow> False)"

definition is_admit :: "uuid \<Rightarrow> nat \<times> command \<Rightarrow> bool" where
  "is_admit i x = (case x of (_, CmAdmit j (Inr _)) \<Rightarrow> j = i | _ \<Rightarrow> False)"

text \<open>The sends and receptions the service still owes a final report.\<close>

definition obliged :: "nat \<Rightarrow> ('m, 'd, 'k, 'r) service \<Rightarrow> nat" where
  "obliged r s =
     length (filter (\<lambda>q. q = r) (waiting_replies s)) +
     length (filter (\<lambda>(i, inc, rep). inc = None \<and> rep = Some r) (call_roles s))"

definition held :: "uuid \<Rightarrow> ('m, 'd, 'k, 'r) service \<Rightarrow> nat" where
  "held i s = length (filter (\<lambda>(j, inc, rep). inc = Some i) (call_roles s))"

definition owed :: "nat \<Rightarrow> ('m, 'd, 'k, 'r) service \<Rightarrow> nat" where
  "owed r s = obliged r s + length (filter (is_send r) (sv_queue s))"

definition receptions :: "uuid \<Rightarrow> ('m, 'd, 'k, 'r) service \<Rightarrow> nat" where
  "receptions i s = held i s + length (filter (is_admit i) (sv_queue s))"

definition drawn_before :: "('m, 'd, 'k, 'r) service \<Rightarrow> uuid set" where
  "drawn_before s = {se_uuid (sv_env s) n | n. n < sv_ticks s}"

definition outgoing_roles :: "('m, 'd, 'k, 'r) service \<Rightarrow> nat" where
  "outgoing_roles s =
     length (filter (\<lambda>(i, inc, rep). inc = None) (call_roles s)) + length (waiting_replies s)"

text \<open>The tables as pure data: calls, admissions, the ids of incoming calls, the flags the engine reads, and
  the uuids drawn so far.\<close>

definition live :: "role list \<Rightarrow> role list \<Rightarrow> uuid set" where
  "live cs as = fst ` {x \<in> set cs. fst (snd x) \<noteq> None} \<union> fst ` set as"

definition tables :: "role list \<Rightarrow> role list \<Rightarrow> (uuid \<times> utext) list \<Rightarrow> (uuid \<times> bool) list \<Rightarrow> uuid set \<Rightarrow> bool" where
  "tables cs as ids ws D \<longleftrightarrow>
     distinct (map fst cs) \<and> distinct (map fst as) \<and> fst ` set cs \<inter> fst ` set as = {} \<and>
     (\<forall>x \<in> set cs. fst (snd x) = None \<or> fst (snd x) = Some (fst x)) \<and>
     (\<forall>x \<in> set as. snd x = (Some (fst x), None)) \<and>
     fst ` set cs \<subseteq> D \<and> fst ` set as \<subseteq> D \<and> fst ` set ws \<subseteq> D \<and> distinct (map fst ids) \<and>
     fst ` set ids = live cs as \<and>
     (\<forall>i. map_of ws i = Some True \<longleftrightarrow> i \<in> fst ` set as)"

definition tables_ok :: "('m, 'd, 'k, 'r) service \<Rightarrow> bool" where
  "tables_ok s \<longleftrightarrow> tables (call_roles s) (admission_roles s) (sv_call_ids s) (sv_waiting s) (drawn_before s)"

definition limits_ok :: "('m, 'd, 'k, 'r) service \<Rightarrow> bool" where
  "limits_ok s \<longleftrightarrow>
     outgoing_roles s \<le> lim_outgoing (so_limits (sv_options s)) \<and>
     length (sv_call_ids s) + length (sv_available s) \<le> lim_incoming (so_limits (sv_options s))"

definition good :: "('m, 'd, 'k, 'r) service \<Rightarrow> bool" where
  "good s \<longleftrightarrow> inj (se_uuid (sv_env s)) \<and> tables_ok s \<and> limits_ok s"

text \<open>What an operation of the loop does to the books.\<close>

definition serves :: "('m, 'd, 'k, 'r) service \<Rightarrow> ('m, 'd, 'k, 'r) service \<Rightarrow> bool" where
  "serves s t \<longleftrightarrow>
     sv_env t = sv_env s \<and> sv_options t = sv_options s \<and> sv_ended t = sv_ended s \<and>
     (good s \<longrightarrow> good t \<and> (\<forall>r. answered r t + owed r t = answered r s + owed r s) \<and>
       (\<forall>i. closed i t + receptions i t = closed i s + receptions i s))"

lemma serves_refl [simp]: "serves s s"
  by (simp add: serves_def)

lemma serves_trans [trans]: "serves s t \<Longrightarrow> serves t u \<Longrightarrow> serves s u"
  by (simp add: serves_def)

lemma drawn_before_mono:
  "sv_env t = sv_env s \<Longrightarrow> sv_ticks s \<le> sv_ticks t \<Longrightarrow> drawn_before s \<subseteq> drawn_before t"
  by (force simp: drawn_before_def)

lemma plain_serves: "plain s t \<Longrightarrow> serves s t"
proof -
  assume p: "plain s t"
  then have "drawn_before s \<subseteq> drawn_before t" by (simp add: plain_def drawn_before_mono)
  then have "tables cs as ids ws (drawn_before s) \<Longrightarrow> tables cs as ids ws (drawn_before t)" for cs as ids ws
    by (auto simp: tables_def)
  then show ?thesis using p
    by (auto simp: serves_def plain_def good_def tables_ok_def limits_ok_def outgoing_roles_def owed_def receptions_def
        obliged_def held_def)
qed

lemma serves_fold:
  "(\<And>x u. x \<in> set xs \<Longrightarrow> serves u (f x u)) \<Longrightarrow> serves s (fold f xs s)"
proof (induction xs arbitrary: s)
  case (Cons x xs)
  have "serves s (f x s)" "serves (f x s) (fold f xs (f x s))" using Cons by simp_all
  then show ?case by (auto intro: serves_trans)
qed simp

section \<open>Operations that report\<close>

text \<open>Plain, but for \<open>A r\<close> answers to send \<open>r\<close>, \<open>C i\<close> reports that reception \<open>i\<close> is closed, and \<open>n\<close> new
  idle slots.\<close>

definition effect :: "(nat \<Rightarrow> nat) \<Rightarrow> (uuid \<Rightarrow> nat) \<Rightarrow> nat \<Rightarrow> ('m, 'd, 'k, 'r) service \<Rightarrow> ('m, 'd, 'k, 'r) service \<Rightarrow> bool" where
  "effect A C n s t \<longleftrightarrow>
     sv_env t = sv_env s \<and> sv_options t = sv_options s \<and> sv_ended t = sv_ended s \<and> sv_ticks s \<le> sv_ticks t \<and>
     call_roles t = call_roles s \<and> admission_roles t = admission_roles s \<and> sv_admission t = sv_admission s \<and>
     waiting_replies t = waiting_replies s \<and> sv_queue t = sv_queue s \<and> sv_waiting t = sv_waiting s \<and>
     sv_call_ids t = sv_call_ids s \<and> length (sv_available t) \<le> length (sv_available s) + n \<and>
     (\<forall>r. answered r t = answered r s + A r) \<and> (\<forall>i. closed i t = closed i s + C i)"

lemma plain_effect: "plain s t \<longleftrightarrow> effect (\<lambda>_. 0) (\<lambda>_. 0) 0 s t"
  by (simp add: plain_def effect_def)

lemma effect_trans:
  "effect A C n s t \<Longrightarrow> effect B D m t u \<Longrightarrow> effect (\<lambda>r. A r + B r) (\<lambda>i. C i + D i) (n + m) s u"
  by (auto simp: effect_def)

lemma effect_plain: "effect A C n s t \<Longrightarrow> plain t u \<Longrightarrow> effect A C n s u"
  using effect_trans [of A C n s t "\<lambda>_. 0" "\<lambda>_. 0" 0 u] by (simp add: plain_effect)

lemma plain_effect_trans: "plain s t \<Longrightarrow> effect A C n t u \<Longrightarrow> effect A C n s u"
  using effect_trans [of "\<lambda>_. 0" "\<lambda>_. 0" 0 s t A C n u] by (simp add: plain_effect)

lemma finish_call_effect:
  "effect (\<lambda>r. of_bool (cl_incoming c = None \<and> cl_reply c = Some r)) (\<lambda>i. of_bool (cl_incoming c = Some i)) 0
     s (finish_call outcome c s)"
proof -
  have "plain s (end_session (cl_sip c) s)" by (rule plain_session) simp
  then show ?thesis
    by (auto simp: finish_call_def Let_def plain_def effect_def emit_def answered_def closed_def call_roles_def
        admission_roles_def waiting_replies_def split: option.splits)
qed

lemma close_call_effect:
  "effect (\<lambda>r. of_bool (cl_incoming c = None \<and> cl_reply c = Some r)) (\<lambda>i. of_bool (cl_incoming c = Some i)) 0
     s (close_call outcome c s)"
proof -
  have "plain s (pass s)" by (rule plain_pass) simp
  moreover have "plain (finish_call outcome c (pass s)) (close_call outcome c s)"
    unfolding close_call_def by (rule plain_retire) simp
  ultimately show ?thesis by (rule effect_plain [OF plain_effect_trans [OF _ finish_call_effect]])
qed

lemma finish_send_effect: "effect (\<lambda>r. of_bool (ps_reply p = r)) (\<lambda>_. 0) 0 s (finish_send e p s)"
  by (auto simp: finish_send_def effect_def emit_def answered_def closed_def call_roles_def admission_roles_def
      waiting_replies_def)

lemma finish_sends_effect:
  "effect (\<lambda>r. length (filter (\<lambda>p. ps_reply p = r) ps)) (\<lambda>_. 0) 0 s (fold (finish_send e) ps s)"
proof (induction ps arbitrary: s)
  case (Cons p ps)
  from effect_trans [OF finish_send_effect [of p s e] Cons [of "finish_send e p s"]] show ?case
    by (auto simp: effect_def)
qed (simp add: effect_def)

section \<open>Removing entries\<close>

lemma length_filter_remove:
  "distinct (map fst xs) \<Longrightarrow> x \<in> set xs \<Longrightarrow>
    length (filter P xs) = length (filter P (filter (\<lambda>y. fst y \<noteq> fst x) xs)) + of_bool (P x)"
proof (induction xs)
  case (Cons a xs)
  show ?case
  proof (cases "x = a")
    case True
    then have "filter (\<lambda>y. fst y \<noteq> fst x) xs = xs" using Cons.prems(1) by (intro filter_True) (auto simp: image_iff)
    with True show ?thesis by simp
  next
    case False
    with Cons show ?thesis by (auto simp: image_iff)
  qed
qed simp

lemma roles_delete:
  "map call_role (AList.delete i xs) = filter (\<lambda>y. fst y \<noteq> i) (map call_role xs)"
  by (auto simp: AList.delete_eq filter_map call_role_def comp_def case_prod_beta intro!: arg_cong [of _ _ "map _"] filter_cong)

lemma admission_delete:
  "map (\<lambda>(i, a). call_role (i, pa_call a)) (AList.delete i xs) =
     filter (\<lambda>y. fst y \<noteq> i) (map (\<lambda>(i, a). call_role (i, pa_call a)) xs)"
  by (auto simp: AList.delete_eq filter_map call_role_def comp_def case_prod_beta intro!: arg_cong [of _ _ "map _"] filter_cong)

lemma map_of_role: "map_of xs i = Some c \<Longrightarrow> (i, cl_incoming c, cl_reply c) \<in> set (map call_role xs)"
  by (force simp: call_role_def dest: map_of_SomeD)

lemma roles_update_new:
  "i \<notin> fst ` set xs \<Longrightarrow> map call_role (AList.update i c xs) = map call_role xs @ [(i, cl_incoming c, cl_reply c)]"
  by (induction xs) (auto simp: call_role_def)

lemma roles_update_same:
  "map_of xs i = Some c \<Longrightarrow> cl_incoming d = cl_incoming c \<Longrightarrow> cl_reply d = cl_reply c \<Longrightarrow>
    map call_role (AList.update i d xs) = map call_role xs"
  by (induction xs) (auto simp: call_role_def split: if_splits)

lemma fst_roles [simp]: "fst ` set (map call_role xs) = fst ` set xs" "map fst (map call_role xs) = map fst xs"
  by (force simp: call_role_def)+

lemma fst_admission_roles: "fst ` set (admission_roles s) = fst ` set (sv_admission s)"
  by (force simp: admission_roles_def call_role_def)

section \<open>Ending calls and admissions\<close>

lemma fst_filter: "fst ` set (filter (\<lambda>y. fst y \<noteq> i) xs) = fst ` set xs - {i}"
  by auto

lemma live_iff: "j \<in> live cs as \<longleftrightarrow> (\<exists>x \<in> set cs. fst x = j \<and> fst (snd x) \<noteq> None) \<or> (\<exists>x \<in> set as. fst x = j)"
  unfolding live_def by blast

lemma live_simps:
  "i \<notin> fst ` set as \<Longrightarrow> live (filter (\<lambda>y. fst y \<noteq> i) cs) as = live cs as - {i}"
  "i \<notin> fst ` set cs \<Longrightarrow> live cs (filter (\<lambda>y. fst y \<noteq> i) as) = live cs as - {i}"
  "i \<in> fst ` set as \<Longrightarrow> live (cs @ [(i, Some i, rep)]) (filter (\<lambda>y. fst y \<noteq> i) as) = live cs as"
  "live cs (as @ [(i, x)]) = insert i (live cs as)" "live (cs @ [(i, None, rep)]) as = live cs as"
  unfolding set_eq_iff Diff_iff insert_iff live_iff by (auto simp only: set_filter set_append mem_Collect_eq) auto

lemma tablesD:
  assumes "tables cs as ids ws D"
  shows "distinct (map fst cs)" "distinct (map fst as)" "fst ` set cs \<inter> fst ` set as = {}"
    "\<forall>x \<in> set cs. fst (snd x) = None \<or> fst (snd x) = Some (fst x)" "\<forall>x \<in> set as. snd x = (Some (fst x), None)"
    "fst ` set cs \<subseteq> D" "fst ` set as \<subseteq> D" "fst ` set ws \<subseteq> D" "distinct (map fst ids)"
    "fst ` set ids = live cs as" "\<forall>i. map_of ws i = Some True \<longleftrightarrow> i \<in> fst ` set as"
  using assms unfolding tables_def by - (elim conjE, assumption)+

lemma tables_mono: "tables cs as ids ws D \<Longrightarrow> D \<subseteq> D' \<Longrightarrow> tables cs as ids ws D'"
  by (simp only: tables_def) (meson subset_trans)

lemma map_of_invalidate: "map_of (AList.update i b ws) j = (if j = i then Some b else map_of ws j)"
  by (simp add: update_conv')

lemma tables_remove_call:
  assumes "tables cs as ids ws D" "i \<notin> fst ` set as"
  shows "tables (filter (\<lambda>y. fst y \<noteq> i) cs) as (AList.delete i ids) ws D"
proof -
  note p = tablesD [OF assms(1)]
  show ?thesis unfolding tables_def
  proof (intro conjI)
    show "fst ` set (AList.delete i ids) = live (filter (\<lambda>y. fst y \<noteq> i) cs) as"
      by (simp only: keys_delete p(10) live_simps(1) [OF assms(2)])
    show "fst ` set (filter (\<lambda>y. fst y \<noteq> i) cs) \<inter> fst ` set as = {}" using p(3) unfolding fst_filter by blast
    show "fst ` set (filter (\<lambda>y. fst y \<noteq> i) cs) \<subseteq> D" using p(6) unfolding fst_filter by blast
    show "\<forall>j. map_of ws j = Some True \<longleftrightarrow> j \<in> fst ` set as" by (rule p(11))
  qed (use p(1) p(2) p(4) p(5) p(7) p(8) p(9) in \<open>simp_all only: distinct_map_filter distinct_delete\<close>, simp)
qed

lemma tables_remove_admission:
  assumes "tables cs as ids ws D" "i \<in> fst ` set as"
  shows "tables cs (filter (\<lambda>y. fst y \<noteq> i) as) (AList.delete i ids) (AList.update i False ws) D"
proof -
  note p = tablesD [OF assms(1)]
  have i: "i \<notin> fst ` set cs" using p(3) assms(2) by blast
  show ?thesis unfolding tables_def
  proof (intro conjI)
    show "fst ` set (AList.delete i ids) = live cs (filter (\<lambda>y. fst y \<noteq> i) as)"
      by (simp only: keys_delete p(10) live_simps(2) [OF i])
    show "fst ` set cs \<inter> fst ` set (filter (\<lambda>y. fst y \<noteq> i) as) = {}" using p(3) unfolding fst_filter by blast
    show "fst ` set (filter (\<lambda>y. fst y \<noteq> i) as) \<subseteq> D" using p(7) unfolding fst_filter by blast
    show "fst ` set (AList.update i False ws) \<subseteq> D" using p(7) p(8) assms(2) unfolding keys_update by blast
    show "\<forall>j. map_of (AList.update i False ws) j = Some True \<longleftrightarrow> j \<in> fst ` set (filter (\<lambda>y. fst y \<noteq> i) as)"
      using p(11) unfolding map_of_invalidate fst_filter by simp
  qed (use p(1) p(2) p(4) p(5) p(6) p(9) in \<open>simp_all only: distinct_map_filter distinct_delete\<close>, simp)
qed

lemma tables_admit:
  assumes "tables cs as ids ws D" "i \<in> fst ` set as"
  shows "tables (cs @ [(i, Some i, rep)]) (filter (\<lambda>y. fst y \<noteq> i) as) ids (AList.update i False ws) D"
proof -
  note p = tablesD [OF assms(1)]
  have i: "i \<notin> fst ` set cs" using p(3) assms(2) by blast
  have keys: "fst ` set (cs @ [(i, Some i, rep)]) = insert i (fst ` set cs)" by simp
  show ?thesis unfolding tables_def
  proof (intro conjI)
    show "fst ` set ids = live (cs @ [(i, Some i, rep)]) (filter (\<lambda>y. fst y \<noteq> i) as)"
      by (simp only: p(10) live_simps(3) [OF assms(2)])
    show "fst ` set (cs @ [(i, Some i, rep)]) \<inter> fst ` set (filter (\<lambda>y. fst y \<noteq> i) as) = {}"
      using p(3) unfolding keys fst_filter by blast
    show "fst ` set (cs @ [(i, Some i, rep)]) \<subseteq> D" using p(6) p(7) assms(2) unfolding keys by blast
    show "fst ` set (filter (\<lambda>y. fst y \<noteq> i) as) \<subseteq> D" using p(7) unfolding fst_filter by blast
    show "fst ` set (AList.update i False ws) \<subseteq> D" using p(7) p(8) assms(2) unfolding keys_update by blast
    show "\<forall>j. map_of (AList.update i False ws) j = Some True \<longleftrightarrow> j \<in> fst ` set (filter (\<lambda>y. fst y \<noteq> i) as)"
      using p(11) unfolding map_of_invalidate fst_filter by simp
    show "distinct (map fst (cs @ [(i, Some i, rep)]))" using p(1) i by simp
    show "\<forall>x \<in> set (cs @ [(i, Some i, rep)]). fst (snd x) = None \<or> fst (snd x) = Some (fst x)" using p(4) by simp
  qed (use p(2) p(5) p(9) in \<open>simp_all only: distinct_map_filter\<close>, simp)
qed

lemma tables_new_admission:
  assumes "tables cs as ids ws D" "i \<notin> D" "insert i D \<subseteq> D'"
  shows "tables cs (as @ [(i, Some i, None)]) (AList.update i v ids) (AList.update i True ws) D'"
proof -
  note p = tablesD [OF assms(1)]
  have i: "i \<notin> fst ` set cs" "i \<notin> fst ` set as" using p(6) p(7) assms(2) by blast+
  have keys: "fst ` set (as @ [(i, Some i, None)]) = insert i (fst ` set as)" by simp
  show ?thesis unfolding tables_def
  proof (intro conjI)
    show "fst ` set (AList.update i v ids) = live cs (as @ [(i, Some i, None)])"
      by (simp only: keys_update p(10) live_simps(4))
    show "fst ` set cs \<inter> fst ` set (as @ [(i, Some i, None)]) = {}" using p(3) i unfolding keys by blast
    show "fst ` set cs \<subseteq> D'" "fst ` set (as @ [(i, Some i, None)]) \<subseteq> D'" "fst ` set (AList.update i True ws) \<subseteq> D'"
      using p(6) p(7) p(8) assms(3) unfolding keys keys_update by blast+
    show "\<forall>j. map_of (AList.update i True ws) j = Some True \<longleftrightarrow> j \<in> fst ` set (as @ [(i, Some i, None)])"
      using p(11) unfolding map_of_invalidate keys by simp
    show "distinct (map fst (as @ [(i, Some i, None)]))" using p(2) i by simp
    show "\<forall>x \<in> set (as @ [(i, Some i, None)]). snd x = (Some (fst x), None)" using p(5) by simp
  qed (use p(1) p(4) p(9) in \<open>simp_all only: distinct_update\<close>)
qed

lemma tables_new_call:
  assumes "tables cs as ids ws D" "i \<notin> D" "insert i D \<subseteq> D'"
  shows "tables (cs @ [(i, None, rep)]) as ids ws D'"
proof -
  note p = tablesD [OF assms(1)]
  have i: "i \<notin> fst ` set cs" "i \<notin> fst ` set as" using p(6) p(7) assms(2) by blast+
  have keys: "fst ` set (cs @ [(i, None, rep)]) = insert i (fst ` set cs)" by simp
  show ?thesis unfolding tables_def
  proof (intro conjI)
    show "fst ` set (cs @ [(i, None, rep)]) \<inter> fst ` set as = {}" using p(3) i unfolding keys by blast
    show "fst ` set (cs @ [(i, None, rep)]) \<subseteq> D'" "fst ` set as \<subseteq> D'" "fst ` set ws \<subseteq> D'"
      using p(6) p(7) p(8) assms(3) unfolding keys by blast+
    show "distinct (map fst (cs @ [(i, None, rep)]))" using p(1) i by simp
    show "\<forall>x \<in> set (cs @ [(i, None, rep)]). fst (snd x) = None \<or> fst (snd x) = Some (fst x)" using p(4) by simp
    show "\<forall>j. map_of ws j = Some True \<longleftrightarrow> j \<in> fst ` set as" by (rule p(11))
  qed (use p(2) p(5) p(9) p(10) in \<open>simp_all only: live_simps(5)\<close>)
qed

text \<open>A step that leaves the queue alone and takes on \<open>A r\<close> answers and \<open>C i\<close> receptions.\<close>

definition shifts :: "(nat \<Rightarrow> nat) \<Rightarrow> (uuid \<Rightarrow> nat) \<Rightarrow> ('m, 'd, 'k, 'r) service \<Rightarrow> ('m, 'd, 'k, 'r) service \<Rightarrow> bool" where
  "shifts A C s t \<longleftrightarrow>
     sv_env t = sv_env s \<and> sv_options t = sv_options s \<and> sv_ended t = sv_ended s \<and> sv_queue t = sv_queue s \<and>
     (good s \<longrightarrow> good t \<and> (\<forall>r. answered r t + obliged r t = answered r s + obliged r s + A r) \<and>
       (\<forall>i. closed i t + held i t = closed i s + held i s + C i))"

lemma shifts_serves: "shifts (\<lambda>_. 0) (\<lambda>_. 0) s t \<Longrightarrow> serves s t"
  by (auto simp: shifts_def serves_def owed_def receptions_def)

lemma ledger_queue [simp]:
  "call_roles (s\<lparr>sv_queue := q\<rparr>) = call_roles s" "admission_roles (s\<lparr>sv_queue := q\<rparr>) = admission_roles s"
  "waiting_replies (s\<lparr>sv_queue := q\<rparr>) = waiting_replies s" "answered r (s\<lparr>sv_queue := q\<rparr>) = answered r s"
  "closed i (s\<lparr>sv_queue := q\<rparr>) = closed i s" "obliged r (s\<lparr>sv_queue := q\<rparr>) = obliged r s"
  "held i (s\<lparr>sv_queue := q\<rparr>) = held i s" "good (s\<lparr>sv_queue := q\<rparr>) = good s"
  by (simp_all add: call_roles_def admission_roles_def waiting_replies_def answered_def closed_def obliged_def held_def
      good_def tables_ok_def limits_ok_def outgoing_roles_def drawn_before_def)

lemma shifts_dequeue:
  "shifts (\<lambda>r. of_bool (is_send r x)) (\<lambda>i. of_bool (is_admit i x)) s t \<Longrightarrow>
    serves (s\<lparr>sv_queue := x # q\<rparr>) (t\<lparr>sv_queue := q\<rparr>)"
  by (auto simp: shifts_def serves_def owed_def receptions_def)

lemma shifts_effect:
  assumes "effect A C n t u"
    and "sv_env t = sv_env s" "sv_options t = sv_options s" "sv_ended t = sv_ended s" "sv_queue t = sv_queue s"
    and "good s \<Longrightarrow> tables_ok t" "good s \<Longrightarrow> limits_ok u"
    and "\<And>r. good s \<Longrightarrow> answered r t + A r + obliged r t = answered r s + obliged r s + A' r"
    and "\<And>i. good s \<Longrightarrow> closed i t + C i + held i t = closed i s + held i s + C' i"
  shows "shifts A' C' s u"
proof -
  have drawn: "drawn_before t \<subseteq> drawn_before u" using assms(1) by (simp add: effect_def drawn_before_mono)
  have "tables_ok u" if "tables_ok t"
    using tables_mono [OF that [unfolded tables_ok_def] drawn] assms(1) by (simp add: tables_ok_def effect_def)
  moreover have "obliged r u = obliged r t" "held i u = held i t" for r i
    using assms(1) by (simp_all add: effect_def obliged_def held_def)
  ultimately show ?thesis using assms by (auto simp: shifts_def good_def effect_def)
qed

lemma close_by_id_shifts: "shifts (\<lambda>_. 0) (\<lambda>_. 0) s (close_by_id outcome i s)"
proof (cases "map_of (sv_calls s) i")
  case None
  then show ?thesis by (simp add: close_by_id_def shifts_def)
next
  case (Some c)
  let ?t = "forget_incoming i (s\<lparr>sv_calls := AList.delete i (sv_calls s)\<rparr>)"
  have u: "close_by_id outcome i s = close_call outcome c ?t" using Some by (simp add: close_by_id_def)
  have roles: "call_roles ?t = filter (\<lambda>y. fst y \<noteq> i) (call_roles s)" "admission_roles ?t = admission_roles s"
    by (simp_all add: call_roles_def admission_roles_def forget_incoming_def roles_delete)
  have fields: "sv_env ?t = sv_env s" "sv_options ?t = sv_options s" "sv_ended ?t = sv_ended s" "sv_ticks ?t = sv_ticks s"
    "waiting_replies ?t = waiting_replies s" "sv_queue ?t = sv_queue s" "sv_waiting ?t = sv_waiting s"
    "sv_call_ids ?t = AList.delete i (sv_call_ids s)" "sv_available ?t = sv_available s"
    "answered r ?t = answered r s" "closed j ?t = closed j s" for r j
    by (simp_all add: forget_incoming_def waiting_replies_def answered_def closed_def)
  have e: "effect (\<lambda>r. of_bool (cl_incoming c = None \<and> cl_reply c = Some r)) (\<lambda>j. of_bool (cl_incoming c = Some j)) 0
      ?t (close_by_id outcome i s)" unfolding u by (rule close_call_effect)
  have role: "(i, cl_incoming c, cl_reply c) \<in> set (call_roles s)"
    using map_of_role [OF Some] by (simp add: call_roles_def)
  show ?thesis
  proof (rule shifts_effect [OF e])
    assume g: "good s"
    then have t: "tables_ok s" "limits_ok s" by (simp_all add: good_def)
    have d: "distinct (map fst (call_roles s))" "i \<notin> fst ` set (admission_roles s)"
      using tablesD(1) [OF t(1) [unfolded tables_ok_def]] tablesD(3) [OF t(1) [unfolded tables_ok_def]]
        imageI [OF role, of fst, unfolded fst_conv] by blast+
    note count = length_filter_remove [OF d(1) role, unfolded fst_conv]
    have drawn: "drawn_before ?t = drawn_before s" by (simp add: drawn_before_def fields)
    show "tables_ok ?t" unfolding tables_ok_def roles fields drawn
      by (rule tables_remove_call [OF t(1) [unfolded tables_ok_def] d(2)])
    have "length (sv_call_ids ?t) \<le> length (sv_call_ids s)" by (simp add: fields length_delete_le)
    moreover have "outgoing_roles ?t \<le> outgoing_roles s"
      using count [of "\<lambda>(i, inc, rep). inc = None"] by (simp add: outgoing_roles_def roles fields)
    ultimately show "limits_ok (close_by_id outcome i s)"
      using t(2) e fields by (auto simp: limits_ok_def effect_def outgoing_roles_def)
    show "answered r ?t + of_bool (cl_incoming c = None \<and> cl_reply c = Some r) + obliged r ?t =
        answered r s + obliged r s + 0" for r
      using count [of "\<lambda>(i, inc, rep). inc = None \<and> rep = Some r"] by (simp add: obliged_def roles fields)
    show "closed j ?t + of_bool (cl_incoming c = Some j) + held j ?t = closed j s + held j s + 0" for j
      using count [of "\<lambda>(k, inc, rep). inc = Some j"] by (simp add: held_def roles fields)
  qed (simp_all add: fields)
qed

lemma plain_forget: "plain s t \<Longrightarrow> plain (forget_incoming i s) (forget_incoming i t)"
  by (simp add: plain_def forget_incoming_def call_roles_def admission_roles_def waiting_replies_def answered_def closed_def)

text \<open>The state with one admission taken out of the table.\<close>

definition without_admission :: "uuid \<Rightarrow> ('m, 'd, 'k, 'r) service \<Rightarrow> ('m, 'd, 'k, 'r) service" where
  "without_admission i s = invalidate i (s\<lparr>sv_admission := AList.delete i (sv_admission s)\<rparr>)"

lemma without_admission_fields [simp]:
  "call_roles (without_admission i s) = call_roles s"
  "admission_roles (without_admission i s) = filter (\<lambda>y. fst y \<noteq> i) (admission_roles s)"
  "waiting_replies (without_admission i s) = waiting_replies s" "sv_queue (without_admission i s) = sv_queue s"
  "sv_waiting (without_admission i s) = AList.update i False (sv_waiting s)"
  "sv_call_ids (without_admission i s) = sv_call_ids s" "sv_available (without_admission i s) = sv_available s"
  "sv_env (without_admission i s) = sv_env s" "sv_options (without_admission i s) = sv_options s"
  "sv_ended (without_admission i s) = sv_ended s" "sv_ticks (without_admission i s) = sv_ticks s"
  "sv_calls (without_admission i s) = sv_calls s"
  "answered r (without_admission i s) = answered r s" "closed j (without_admission i s) = closed j s"
  by (simp_all add: without_admission_def invalidate_def call_roles_def admission_roles_def admission_delete
      waiting_replies_def answered_def closed_def)

lemma forget_fields [simp]:
  "call_roles (forget_incoming i s) = call_roles s" "admission_roles (forget_incoming i s) = admission_roles s"
  "waiting_replies (forget_incoming i s) = waiting_replies s" "sv_queue (forget_incoming i s) = sv_queue s"
  "sv_waiting (forget_incoming i s) = sv_waiting s" "sv_call_ids (forget_incoming i s) = AList.delete i (sv_call_ids s)"
  "sv_available (forget_incoming i s) = sv_available s" "sv_env (forget_incoming i s) = sv_env s"
  "sv_options (forget_incoming i s) = sv_options s" "sv_ended (forget_incoming i s) = sv_ended s"
  "sv_ticks (forget_incoming i s) = sv_ticks s" "answered r (forget_incoming i s) = answered r s"
  "closed j (forget_incoming i s) = closed j s" "sv_admission (forget_incoming i s) = sv_admission s"
  by (simp_all add: forget_incoming_def call_roles_def admission_roles_def waiting_replies_def answered_def closed_def)

lemma admission_key: "map_of (sv_admission s) i = Some a \<Longrightarrow> i \<in> fst ` set (admission_roles s)"
  by (force simp: fst_admission_roles dest: map_of_SomeD)

lemma dropped_shifts:
  assumes "map_of (sv_admission s) i = Some a" "effect A C n (forget_incoming i (without_admission i s)) u" "n = 0"
  shows "shifts A C s u"
proof (rule shifts_effect [OF assms(2)])
  assume g: "good s"
  show "tables_ok (forget_incoming i (without_admission i s))"
    using tables_remove_admission [OF _ admission_key [OF assms(1)], of "call_roles s" "sv_call_ids s" "sv_waiting s" "drawn_before s"] g
    by (simp add: good_def tables_ok_def drawn_before_def)
  show "limits_ok u"
    using assms(2,3) g length_delete_le [of i "sv_call_ids s"] by (auto simp: effect_def good_def limits_ok_def outgoing_roles_def)
qed (simp_all add: obliged_def held_def)

lemma drop_by_id_shifts: "shifts (\<lambda>_. 0) (\<lambda>_. 0) s (drop_by_id code i s)"
proof (cases "map_of (sv_admission s) i")
  case None
  then show ?thesis by (simp add: drop_by_id_def shifts_def)
next
  case (Some a)
  let ?x = "without_admission i s"
  have "plain ?x (reject_admission code (cl_sip (pa_call a)) ?x)" by (rule plain_session) simp
  then have "plain (forget_incoming i ?x) (drop_by_id code i s)"
    using Some by (simp add: drop_by_id_def drop_admission_def without_admission_def [symmetric] plain_forget plain_retire)
  from dropped_shifts [OF Some this [unfolded plain_effect]] show ?thesis by simp
qed

section \<open>Admissions and sends\<close>

lemma calls_fields [simp]:
  "admission_roles (s\<lparr>sv_calls := cs\<rparr>) = admission_roles s" "waiting_replies (s\<lparr>sv_calls := cs\<rparr>) = waiting_replies s"
  "call_roles (s\<lparr>sv_calls := cs\<rparr>) = map call_role cs" "answered r (s\<lparr>sv_calls := cs\<rparr>) = answered r s"
  "closed i (s\<lparr>sv_calls := cs\<rparr>) = closed i s" "drawn_before (s\<lparr>sv_calls := cs\<rparr>) = drawn_before s"
  by (simp_all add: call_roles_def admission_roles_def waiting_replies_def answered_def closed_def drawn_before_def)

lemma admit_effect:
  assumes "admit result a t = (r, c, u)"
  shows "plain t u \<and> cl_incoming c = cl_incoming (pa_call a) \<and> cl_reply c = cl_reply (pa_call a) \<and>
    (r = Inr () \<longrightarrow> is_ok result)"
proof (cases result)
  case (Inl e)
  with assms show ?thesis by (auto simp: admit_def)
next
  case (Inr tiff)
  have p: "plain t (pass t)" "plain t (snd (disconnected_now (pass t)))"
    "plain t (snd (natives 2 (snd (disconnected_now (pass t)))))"
    by (intro plain_intros plain_refl)+
  obtain gone v where v: "disconnected_now (pass t) = (gone, v)" by fastforce
  obtain rn w where w: "natives 2 v = (rn, w)" by fastforce
  have "plain t v" "plain t w" using p v w by simp_all
  with assms Inr v w p(1) show ?thesis
    by (auto simp: admit_def Let_def is_ok_def split: if_splits sum.splits intro!: plain_emit)
qed

lemma on_admit_shifts:
  "shifts (\<lambda>_. 0) (\<lambda>j. of_bool (is_ok result \<and> j = i)) s (on_admit i result s)"
proof (cases "map_of (sv_admission s) i")
  case None
  have "effect (\<lambda>_. 0) (\<lambda>j. of_bool (is_ok result \<and> j = i)) 0 s (on_admit i result s)"
    using None by (auto simp: on_admit_def effect_def emit_def answered_def closed_def call_roles_def admission_roles_def
        waiting_replies_def)
  then show ?thesis by (rule shifts_effect) (auto simp: good_def effect_def limits_ok_def outgoing_roles_def
        on_admit_def None emit_def waiting_replies_def call_roles_def)
next
  case (Some a)
  obtain r c u where adm: "admit result a (without_admission i s) = (r, c, u)" using prod_cases3 by blast
  note e = admit_effect [OF adm]
  have role: "(i, cl_incoming c, cl_reply c) \<in> set (admission_roles s)"
    using Some e by (force simp: admission_roles_def call_role_def dest: map_of_SomeD)
  have inc: "good s \<Longrightarrow> cl_incoming c = Some i \<and> cl_reply c = None"
    using role tablesD(5) by (fastforce simp: good_def tables_ok_def)
  show ?thesis
  proof (cases r)
    case (Inl err)
    let ?v = "reject_admission 500 (cl_sip c) u"
    let ?w = "if is_ok result then finish_call (Inl err) c ?v else ?v"
    have v: "plain (without_admission i s) ?v" using e by (intro plain_session) simp
    have w: "effect (\<lambda>r. of_bool (is_ok result \<and> cl_incoming c = None \<and> cl_reply c = Some r))
        (\<lambda>j. of_bool (is_ok result \<and> cl_incoming c = Some j)) 0 (without_admission i s) ?w"
      using plain_effect_trans [OF v finish_call_effect] v by (auto simp: plain_effect)
    have res: "on_admit i result s = retire_now (cl_sip c) (forget_incoming i ?w)"
      using Some adm Inl by (simp add: on_admit_def without_admission_def Let_def)
    have forget: "effect (\<lambda>r. of_bool (is_ok result \<and> cl_incoming c = None \<and> cl_reply c = Some r))
        (\<lambda>j. of_bool (is_ok result \<and> cl_incoming c = Some j)) 0 (forget_incoming i (without_admission i s)) (forget_incoming i ?w)"
      using w by (auto simp: effect_def)
    have "plain (forget_incoming i ?w) (on_admit i result s)" unfolding res by (rule plain_retire) simp
    from dropped_shifts [OF Some effect_plain [OF forget this]] show ?thesis
      using inc by (auto simp: shifts_def)
  next
    case (Inr x)
    let ?t = "u\<lparr>sv_calls := AList.update i c (sv_calls u)\<rparr>"
    have res: "on_admit i result s = ?t" using Some adm Inr by (simp add: on_admit_def without_admission_def)
    have ok: "is_ok result" using e Inr by (cases x) simp
    have p: "plain (without_admission i s) u" using e by simp
    show ?thesis
    proof (cases "good s")
      case False
      then show ?thesis using p by (simp add: shifts_def res plain_def)
    next
      case True
      then have t: "tables (call_roles s) (admission_roles s) (sv_call_ids s) (sv_waiting s) (drawn_before s)"
        by (simp add: good_def tables_ok_def)
      have key: "i \<in> fst ` set (admission_roles s)" by (rule admission_key [OF Some])
      then have "i \<notin> fst ` set (sv_calls u)"
        using tablesD(3) [OF t] p by (auto simp: plain_def call_roles_def simp flip: fst_roles(1))
      then have roles: "map call_role (AList.update i c (sv_calls u)) = call_roles s @ [(i, Some i, None)]"
        using p inc [OF True] by (simp add: roles_update_new plain_def call_roles_def)
      have drawn: "drawn_before s \<subseteq> drawn_before ?t" using p by (auto simp: plain_def drawn_before_def)
      have "tables_ok ?t"
        using tables_mono [OF tables_admit [OF t key, of None] drawn] p by (simp add: tables_ok_def roles plain_def)
      moreover have "limits_ok ?t"
        using p True by (auto simp: limits_ok_def good_def outgoing_roles_def roles plain_def)
      ultimately show ?thesis
        using p True ok by (auto simp: shifts_def res good_def plain_def obliged_def held_def roles)
    qed
  qed
qed

lemma on_send_shifts: "shifts (\<lambda>q. of_bool (q = r)) (\<lambda>_. 0) s (on_send r fax s)"
proof (cases "outgoing_count s \<ge> lim_outgoing (so_limits (sv_options s))")
  case True
  have "effect (\<lambda>q. of_bool (q = r)) (\<lambda>_. 0) 0 s (on_send r fax s)"
    using True by (auto simp: on_send_def effect_def emit_def answered_def closed_def call_roles_def admission_roles_def
        waiting_replies_def)
  then show ?thesis by (rule shifts_effect) (auto simp: good_def effect_def limits_ok_def outgoing_roles_def
        on_send_def True emit_def waiting_replies_def call_roles_def)
next
  case False
  have "outgoing_count s = outgoing_roles s"
    by (simp add: outgoing_count_def outgoing_roles_def call_roles_def waiting_replies_def filter_map call_role_def
        comp_def split_def)
  with False show ?thesis
    by (simp add: on_send_def shifts_def good_def tables_ok_def limits_ok_def outgoing_roles_def obliged_def held_def
        answered_def closed_def call_roles_def admission_roles_def waiting_replies_def drawn_before_def)
qed

lemma plain_shifts: "plain s t \<Longrightarrow> shifts (\<lambda>_. 0) (\<lambda>_. 0) s t"
  using plain_serves [of s t] by (auto simp: plain_def serves_def shifts_def owed_def receptions_def)

lemma on_command_shifts:
  "shifts (\<lambda>r. of_bool (is_send r x)) (\<lambda>i. of_bool (is_admit i x)) s (on_command x s)"
proof (cases "(x, s)" rule: on_command.cases)
  case (1 q config direct t)
  then have "plain s (on_command x s)" by (auto intro!: plain_pass plain_update)
  with 1 show ?thesis using plain_shifts by (simp add: is_send_def is_admit_def)
next
  case (2 q i t)
  have "plain s (on_command x s)"
    using 2 by (auto simp: plain_def roles_update_same call_roles_def admission_roles_def waiting_replies_def answered_def
        closed_def split: option.splits)
  then show ?thesis using 2 plain_shifts by (simp add: is_send_def is_admit_def)
next
  case (3 q i t)
  then show ?thesis using drop_by_id_shifts by (simp add: is_send_def is_admit_def)
next
  case (4 q i result t)
  have "(\<lambda>j. of_bool (is_ok result \<and> j = i) :: nat) = (\<lambda>j. of_bool (is_admit j (q, CmAdmit i result)))"
    by (cases result) (auto simp: is_admit_def fun_eq_iff)
  then show ?thesis using 4 on_admit_shifts [of result i s] by (simp add: is_send_def)
next
  case (5 q t)
  then have "plain s (on_command x s)" by (auto intro!: plain_update)
  with 5 show ?thesis using plain_shifts by (simp add: is_send_def is_admit_def)
next
  case (6 q t)
  then have "plain s (on_command x s)" by (auto intro!: plain_update)
  with 6 show ?thesis using plain_shifts by (simp add: is_send_def is_admit_def)
next
  case (7 r fax t)
  have "(\<lambda>q. of_bool (q = r) :: nat) = (\<lambda>q. of_bool (is_send q (r, CmSend fax)))"
    by (auto simp: is_send_def fun_eq_iff)
  then show ?thesis using 7 on_send_shifts [of r s fax] by (simp add: is_admit_def)
qed

lemma commands_serve:
  "serves (s\<lparr>sv_queue := xs @ q\<rparr>) ((fold on_command xs s)\<lparr>sv_queue := q\<rparr>)"
proof (induction xs arbitrary: s)
  case (Cons x xs)
  have "serves (s\<lparr>sv_queue := x # (xs @ q)\<rparr>) ((on_command x s)\<lparr>sv_queue := xs @ q\<rparr>)"
    by (rule shifts_dequeue) (rule on_command_shifts)
  with Cons [of "on_command x s"] show ?case by (auto intro: serves_trans)
qed simp

lemma commands_queue: "sv_queue (fold on_command xs s) = sv_queue s"
proof (induction xs arbitrary: s)
  case (Cons x xs)
  have "sv_queue (on_command x s) = sv_queue s" using on_command_shifts [of x s] by (simp add: shifts_def)
  with Cons show ?case by simp
qed simp

lemma serve_commands_serves: "serves s (serve_commands s)"
proof -
  let ?s = "s\<lparr>sv_queue := drop 64 (sv_queue s)\<rparr>"
  have "serves (?s\<lparr>sv_queue := take 64 (sv_queue s) @ drop 64 (sv_queue s)\<rparr>)
      ((fold on_command (take 64 (sv_queue s)) ?s)\<lparr>sv_queue := drop 64 (sv_queue s)\<rparr>)"
    by (rule commands_serve)
  moreover have "(fold on_command (take 64 (sv_queue s)) ?s)\<lparr>sv_queue := drop 64 (sv_queue s)\<rparr> = serve_commands s"
    using commands_queue [of "take 64 (sv_queue s)" ?s] by (simp add: serve_commands_def)
  ultimately show ?thesis by simp
qed

end
