(* ===== verification/ServiceSteps.thy ===== *)
theory ServiceSteps
  imports ServiceBooks
begin

text \<open>
  Every iteration of the service keeps the books: new INVITEs, outgoing calls, failing connections,
  expiring admissions, calls that end, and the end of the service, which settles everything.
\<close>

section \<open>Launching sends\<close>

lemma pending_fields [simp]:
  "admission_roles (s\<lparr>sv_pending := q\<rparr>) = admission_roles s" "call_roles (s\<lparr>sv_pending := q\<rparr>) = call_roles s"
  "waiting_replies (s\<lparr>sv_pending := q\<rparr>) = map ps_reply q" "answered r (s\<lparr>sv_pending := q\<rparr>) = answered r s"
  "closed i (s\<lparr>sv_pending := q\<rparr>) = closed i s" "drawn_before (s\<lparr>sv_pending := q\<rparr>) = drawn_before s"
  by (simp_all add: call_roles_def admission_roles_def waiting_replies_def answered_def closed_def drawn_before_def)

lemma place_call_role:
  "place_call cn ps m s = (Inr c, t) \<Longrightarrow> cl_incoming c = None \<and> cl_reply c = Some (ps_reply ps)"
  unfolding place_call_def by (elim and_then_okE) auto

lemma media_ready_effect:
  assumes "media_ready cn p m s = (r, q, t)"
  shows "plain s t \<and> ps_reply q = ps_reply p \<and>
    (\<forall>c. r = Inr (Some c) \<longrightarrow> cl_incoming c = None \<and> cl_reply c = Some (ps_reply p))"
proof -
  let ?poll = "poll_mappings (fst (se_poll (sv_env s) (sv_ticks s))) (snd (se_poll (sv_env s) (sv_ticks s))) (fst m)"
  let ?p = "p\<lparr>ps_media := None\<rparr>"
  obtain x sk where poll: "?poll = (x, sk)" by fastforce
  obtain y v where call: "place_call cn ?p (sk, snd m) (pass (pass s)) = (y, v)" by fastforce
  have "plain s (snd (place_call cn ?p (sk, snd m) (pass (pass s))))" by (intro plain_intros plain_refl)
  then have "plain s (pass s)" "plain s (pass (pass s))" "plain s v" using call by (simp_all add: plain_pass)
  moreover have "y = Inr c \<Longrightarrow> cl_incoming c = None \<and> cl_reply c = Some (ps_reply p)" for c
    using place_call_role [of cn ?p] call by simp
  ultimately show ?thesis using assms poll call
    by (auto simp: media_ready_def Let_def split: sum.splits if_splits) (cases y; auto)+
qed

lemma prepare_send_effect:
  assumes "prepare_send p s = (r, q, t)"
  shows "plain s t \<and> ps_reply q = ps_reply p \<and>
    (\<forall>c. r = Inr (Some c) \<longrightarrow> cl_incoming c = None \<and> cl_reply c = Some (ps_reply p))"
proof (cases "se_cancelled (sv_env s) (ps_reply p) (sv_ticks s)")
  case True
  have "plain s (pass s)" by (intro plain_pass plain_refl)
  with True assms show ?thesis by (auto simp: prepare_send_def)
next
  case False
  obtain x u where u: "ensure_connection (ss_account (ps_fax p)) (pass s) = (x, u)" by fastforce
  have "plain s (snd (ensure_connection (ss_account (ps_fax p)) (pass s)))" by (intro plain_intros plain_refl)
  then have pu: "plain s u" by (simp add: u)
  show ?thesis
  proof (cases "\<exists>cn m v. x = Inr () \<and> prepare_media cn p u = (Inr m, v) \<and> media_ready cn p m v = (r, q, t)")
    case True
    then obtain cn m v where m: "prepare_media cn p u = (Inr m, v)" "media_ready cn p m v = (r, q, t)" by blast
    have "plain s (snd (prepare_media cn p u))" using pu by (rule plain_prepare_media)
    with media_ready_effect [OF m(2)] m(1) show ?thesis by (auto intro: plain_trans)
  next
    case other: False
    have "plain s (snd (prepare_media cn p' u))" for cn p' using pu by (rule plain_prepare_media)
    then have pm: "prepare_media cn p' u = (y, v) \<Longrightarrow> plain s v" for cn p' y v by (metis snd_conv)
    from assms False u pu other show ?thesis
      by (auto simp: prepare_send_def split: sum.splits option.splits if_splits prod.splits dest: pm)
  qed
qed

lemma new_call_tables:
  assumes "tables_ok s" "inj (se_uuid (sv_env s))" "plain s t" "i = se_uuid (sv_env t) (sv_ticks t)"
    and "cl_incoming c = None"
  shows "call_roles (pass (t\<lparr>sv_calls := AList.update i c (sv_calls t)\<rparr>)) = call_roles s @ [(i, None, cl_reply c)]"
    and "tables_ok (pass (t\<lparr>sv_calls := AList.update i c (sv_calls t)\<rparr>))"
proof -
  note p = assms(3) [unfolded plain_def]
  have fresh: "i \<notin> drawn_before s" using assms p by (auto simp: drawn_before_def dest: injD)
  have tab: "tables (call_roles s) (admission_roles s) (sv_call_ids s) (sv_waiting s) (drawn_before s)"
    using assms(1) by (simp add: tables_ok_def)
  have "i \<notin> fst ` set (call_roles t)" using fresh tablesD(6) [OF tab] p by auto
  then have "i \<notin> fst ` set (sv_calls t)" by (simp only: call_roles_def fst_roles not_False_eq_True)
  then show roles: "call_roles (pass (t\<lparr>sv_calls := AList.update i c (sv_calls t)\<rparr>)) = call_roles s @ [(i, None, cl_reply c)]"
    using assms(5) p by (simp add: pass_def call_roles_def roles_update_new)
  have drawn: "insert i (drawn_before s) \<subseteq> drawn_before (pass (t\<lparr>sv_calls := AList.update i c (sv_calls t)\<rparr>))"
    using assms(4) p by (auto simp: drawn_before_def pass_def)
  have "sv_call_ids t = sv_call_ids s" "sv_waiting t = sv_waiting s" "admission_roles t = admission_roles s" using p by simp_all
  then show "tables_ok (pass (t\<lparr>sv_calls := AList.update i c (sv_calls t)\<rparr>))"
    using tables_new_call [OF tab fresh drawn, of "cl_reply c"] unfolding tables_ok_def roles
    by (simp add: pass_def admission_roles_def)
qed

lemma launch_serves:
  "shifts (\<lambda>_. 0) (\<lambda>_. 0) (s\<lparr>sv_pending := sv_pending s @ p # ps\<rparr>)
     ((launch p s)\<lparr>sv_pending := sv_pending (launch p s) @ ps\<rparr>)"
proof -
  obtain r q t where prep: "prepare_send p s = (r, q, t)" using prod_cases3 by blast
  note e = prepare_send_effect [OF prep]
  have pl: "plain s t" using e by blast
  have w: "map ps_reply (sv_pending t) = map ps_reply (sv_pending s)" using pl by (simp add: plain_def waiting_replies_def)
  have drawn: "drawn_before s \<subseteq> drawn_before t" using pl by (simp add: plain_def drawn_before_mono)
  consider (fail) err where "r = Inl err" | (wait) "r = Inr None" | (call) c where "r = Inr (Some c)"
    by (metis option.exhaust sum.exhaust)
  then show ?thesis
  proof cases
    case fail
    then have l: "launch p s = emit (SoUpdate (ps_reply q) (SuFinished (Inl err))) t"
      using prep by (simp add: launch_def finish_send_def)
    show ?thesis using pl e w tables_mono [OF _ drawn] unfolding l
      by (auto simp: shifts_def plain_def emit_def good_def tables_ok_def limits_ok_def outgoing_roles_def obliged_def held_def
          answered_def closed_def call_roles_def admission_roles_def drawn_before_def)
  next
    case wait
    then have l: "launch p s = t\<lparr>sv_pending := sv_pending t @ [q]\<rparr>" using prep by (simp add: launch_def)
    show ?thesis using pl e w tables_mono [OF _ drawn] unfolding l
      by (auto simp: shifts_def plain_def good_def tables_ok_def limits_ok_def outgoing_roles_def obliged_def held_def)
  next
    case call
    let ?i = "se_uuid (sv_env t) (sv_ticks t)"
    have l: "launch p s = pass (t\<lparr>sv_calls := AList.update ?i c (sv_calls t)\<rparr>)" using prep call by (simp add: launch_def)
    have c: "cl_incoming c = None" "cl_reply c = Some (ps_reply p)" using e call by simp_all
    have same: "sv_env (launch p s) = sv_env s" "sv_options (launch p s) = sv_options s" "sv_ended (launch p s) = sv_ended s"
      "sv_queue (launch p s) = sv_queue s" "map ps_reply (sv_pending (launch p s)) = map ps_reply (sv_pending s)"
      "answered k (launch p s) = answered k s" "closed j (launch p s) = closed j s" "sv_call_ids (launch p s) = sv_call_ids s"
      "length (sv_available (launch p s)) \<le> length (sv_available s)" for k j
      using pl w unfolding l by (simp_all add: plain_def pass_def answered_def closed_def)
    show ?thesis
    proof (cases "good (s\<lparr>sv_pending := sv_pending s @ p # ps\<rparr>)")
      case True
      then have g: "tables_ok s" "inj (se_uuid (sv_env s))" by (simp_all add: good_def tables_ok_def)
      note n = new_call_tables [OF g pl refl c(1), folded l]
      from True n same show ?thesis
        by (auto simp: shifts_def good_def tables_ok_def limits_ok_def outgoing_roles_def obliged_def held_def c)
    next
      case False
      then show ?thesis using same by (simp add: shifts_def)
    qed
  qed
qed

lemma launch_fold:
  "serves (s\<lparr>sv_pending := sv_pending s @ ps\<rparr>) (fold launch ps s)"
proof (induction ps arbitrary: s)
  case (Cons p ps)
  from shifts_serves [OF launch_serves [of s p ps]] Cons [of "launch p s"] show ?case
    by (auto intro: serves_trans)
qed simp

lemma launch_all_serves: "serves s (launch_all s)"
  using launch_fold [of "s\<lparr>sv_pending := []\<rparr>" "sv_pending s"] by (simp add: launch_all_def)

section \<open>New INVITEs\<close>

lemma offer_admission_form:
  "\<exists>t q a x. plain s t \<and> sv_ticks s < sv_ticks t \<and> cl_incoming (pa_call a) = Some (se_uuid (sv_env s) (sv_ticks s)) \<and>
     cl_reply (pa_call a) = None \<and>
     offer_admission sl v s = emit (SoOffer q) (pass
       (t\<lparr>sv_call_ids := AList.update (se_uuid (sv_env s) (sv_ticks s)) x (sv_call_ids t),
          sv_admission := AList.update (se_uuid (sv_env s) (sv_ticks s)) a (sv_admission t),
          sv_waiting := AList.update (se_uuid (sv_env s) (sv_ticks s)) True (sv_waiting t)\<rparr>))"
proof -
  let ?i = "se_uuid (sv_env s) (sv_ticks s)"
  let ?u = "answer_provisionally (sl_sip sl) (pass (pass s))"
  let ?c = "incoming_call sl ?i (se_call (sv_env ?u) (sv_ticks ?u))"
  let ?a = "\<lparr>pa_call = ?c, pa_deadline =
     time ((pass ?u)\<lparr>sv_call_ids := AList.update ?i (iv_call_id v) (sv_call_ids (pass ?u))\<rparr>) + sl_timeout sl\<rparr>"
  have u: "plain (pass (pass s)) ?u" by (intro plain_intros plain_refl)
  have "plain s (pass ?u)" by (intro plain_intros plain_refl)
  moreover have "sv_ticks s < sv_ticks (pass ?u)" using u by (simp add: plain_def pass_def)
  moreover have "cl_incoming (pa_call ?a) = Some ?i" "cl_reply (pa_call ?a) = None" by (simp_all add: incoming_call_def Let_def)
  moreover have "offer_admission sl v s = emit (SoOffer \<lparr>ar_id = ?i, ar_caller = caller_text (iv_from v),
      ar_destination = iv_uri v, ar_peer = iv_peer v, ar_arrived = time (pass s)\<rparr>) (pass
       ((pass ?u)\<lparr>sv_call_ids := AList.update ?i (iv_call_id v) (sv_call_ids (pass ?u)),
          sv_admission := AList.update ?i ?a (sv_admission (pass ?u)),
          sv_waiting := AList.update ?i True (sv_waiting (pass ?u))\<rparr>))"
    by (simp add: offer_admission_def Let_def)
  ultimately show ?thesis by blast
qed

lemma admission_update_new:
  "i \<notin> fst ` set xs \<Longrightarrow>
    map (\<lambda>(i, a). call_role (i, pa_call a)) (AList.update i a xs) =
    map (\<lambda>(i, a). call_role (i, pa_call a)) xs @ [(i, cl_incoming (pa_call a), cl_reply (pa_call a))]"
  by (induction xs) (auto simp: call_role_def)

lemma offer_admission_serves:
  assumes "good s" "length (sv_call_ids s) + length (sv_available s) < lim_incoming (so_limits (sv_options s))"
  shows "shifts (\<lambda>_. 0) (\<lambda>_. 0) s (offer_admission sl v s)"
proof -
  let ?i = "se_uuid (sv_env s) (sv_ticks s)"
  obtain t q a x where t: "plain s t" "sv_ticks s < sv_ticks t" "cl_incoming (pa_call a) = Some ?i" "cl_reply (pa_call a) = None"
    and o': "offer_admission sl v s = emit (SoOffer q) (pass
       (t\<lparr>sv_call_ids := AList.update ?i x (sv_call_ids t), sv_admission := AList.update ?i a (sv_admission t),
          sv_waiting := AList.update ?i True (sv_waiting t)\<rparr>))" (is "_ = ?u")
    using offer_admission_form by blast
  have tab: "tables (call_roles s) (admission_roles s) (sv_call_ids s) (sv_waiting s) (drawn_before s)"
    using assms(1) by (simp add: good_def tables_ok_def)
  have fresh: "?i \<notin> drawn_before s" using assms(1) by (auto simp: good_def drawn_before_def dest: injD)
  have "?i \<notin> fst ` set (admission_roles t)" using fresh tablesD(7) [OF tab] t(1) by (auto simp: plain_def)
  then have new: "?i \<notin> fst ` set (sv_admission t)" by (simp only: fst_admission_roles not_False_eq_True)
  have fields: "sv_env ?u = sv_env s" "sv_options ?u = sv_options s" "sv_ended ?u = sv_ended s" "sv_queue ?u = sv_queue s"
    "call_roles ?u = call_roles s" "admission_roles ?u = admission_roles s @ [(?i, Some ?i, None)]"
    "sv_call_ids ?u = AList.update ?i x (sv_call_ids s)" "sv_waiting ?u = AList.update ?i True (sv_waiting s)"
    "waiting_replies ?u = waiting_replies s" "answered r ?u = answered r s" "closed j ?u = closed j s"
    "length (sv_available ?u) \<le> length (sv_available s)" for r j
    using t new by (simp_all add: plain_def pass_def emit_def call_roles_def admission_roles_def waiting_replies_def
        answered_def closed_def admission_update_new)
  have "insert ?i (drawn_before s) \<subseteq> drawn_before ?u"
    using t(1,2) by (auto simp: drawn_before_def pass_def emit_def plain_def)
  then have "tables_ok ?u" unfolding tables_ok_def fields by (rule tables_new_admission [OF tab fresh])
  moreover have "length (AList.update ?i x (sv_call_ids s)) \<le> Suc (length (sv_call_ids s))"
    by (cases "?i \<in> fst ` set (sv_call_ids s)") (simp_all add: length_update_new length_update_old)
  then have "limits_ok ?u" using assms fields(12) unfolding limits_ok_def good_def outgoing_roles_def fields by auto
  ultimately show ?thesis unfolding o' using assms(1) by (auto simp: shifts_def good_def fields obliged_def held_def)
qed

lemma on_incoming_shifts: "shifts (\<lambda>_. 0) (\<lambda>_. 0) s (on_incoming v s)"
proof -
  have plain: "plain s (respond v code s)" "plain s (respond v code (pass s))" for code
    unfolding respond_def by (intro plain_intros plain_refl; simp)+
  show ?thesis
  proof (cases "\<exists>sl sls t. sv_available s = sl # sls \<and> create_session sl v (pass (s\<lparr>sv_available := sls\<rparr>)) = (Inr (), t) \<and>
      on_incoming v s = offer_admission sl v t")
    case True
    then obtain sl sls t where t: "sv_available s = sl # sls"
      "create_session sl v (pass (s\<lparr>sv_available := sls\<rparr>)) = (Inr (), t)" "on_incoming v s = offer_admission sl v t" by blast
    let ?s = "s\<lparr>sv_available := sls\<rparr>"
    have "plain ?s (snd (create_session sl v (pass ?s)))" by (intro plain_intros plain_refl)
    then have p: "plain ?s t" by (simp add: t(2))
    have pop: "plain s ?s" using t(1) by (simp add: plain_def call_roles_def admission_roles_def waiting_replies_def
          answered_def closed_def)
    from p pop have "plain s t" by (rule plain_trans [rotated])
    then have sh: "shifts (\<lambda>_. 0) (\<lambda>_. 0) s t" by (rule plain_shifts)
    have "length (sv_available t) < length (sv_available s)" using p t(1) by (simp add: plain_def)
    then have "good s \<Longrightarrow> length (sv_call_ids t) + length (sv_available t) < lim_incoming (so_limits (sv_options t))"
      using \<open>plain s t\<close> by (simp add: good_def limits_ok_def plain_def)
    then have "good s \<Longrightarrow> shifts (\<lambda>_. 0) (\<lambda>_. 0) t (offer_admission sl v t)"
      using sh by (intro offer_admission_serves) (simp_all add: shifts_def)
    moreover have "sv_env (offer_admission sl v t) = sv_env t \<and> sv_options (offer_admission sl v t) = sv_options t \<and>
        sv_ended (offer_admission sl v t) = sv_ended t \<and> sv_queue (offer_admission sl v t) = sv_queue t"
      using offer_admission_form [of t sl v] by (auto simp: plain_def emit_def pass_def)
    ultimately show ?thesis using sh unfolding t(3) by (auto simp: shifts_def)
  next
    case False
    have "plain s (on_incoming v s)"
    proof (cases "sv_available s")
      case Nil
      then show ?thesis using plain by (auto simp: on_incoming_def)
    next
      case (Cons sl sls)
      let ?s = "s\<lparr>sv_available := sls\<rparr>"
      have pop: "plain s ?s" using Cons by (simp add: plain_def call_roles_def admission_roles_def waiting_replies_def
            answered_def closed_def)
      then have "plain s (snd (create_session sl v (pass ?s)))" by (intro plain_intros)
      then have "create_session sl v (pass ?s) = (Inl e, t) \<Longrightarrow> plain s (respond v 488 t)" for e t
        unfolding respond_def by (intro plain_emit) simp_all
      then show ?thesis using False Cons plain
        by (auto simp: on_incoming_def split: prod.splits sum.splits)
    qed
    then show ?thesis by (rule plain_shifts)
  qed
qed

section \<open>The receiver\<close>

lemma serves_and_then:
  "serves s (snd r) \<Longrightarrow> (\<And>x t. serves s t \<Longrightarrow> serves s (snd (k x t))) \<Longrightarrow> serves s (snd (and_then r k))"
  by (rule and_then_keeps)

lemma add_slot_effect: "effect (\<lambda>_. 0) (\<lambda>_. 0) 1 s (snd (add_slot cfg cn s))"
proof -
  obtain x t where m: "new_media (rc_account cfg) (case sv_listener s of Some l \<Rightarrow> fst (lc_bind l) | None \<Rightarrow> cn_local_ip cn)
      (cn_stun cn) s = (x, t)" by fastforce
  have "plain s (snd (new_media a ip stun s))" for a ip stun by (intro plain_intros plain_refl)
  then have t: "plain s t" using m by (metis snd_conv)
  have "plain s (snd (child p l t))" for p l using t by (rule plain_sip)
  then have c: "child p l t = (y, u) \<Longrightarrow> plain s u" for p l y u by (metis snd_conv)
  show ?thesis
  proof (cases x)
    case (Inl e)
    then show ?thesis using t m by (simp add: add_slot_def Let_def plain_effect effect_def)
  next
    case (Inr d)
    obtain y u where u: "child (cn_sip cn) ((snd d)\<lparr>lm_ip := cn_local_ip cn\<rparr>) t = (y, u)" by fastforce
    with c have "plain s u" by blast
    with m Inr u show ?thesis
      by (cases y) (auto simp: add_slot_def Let_def plain_def effect_def call_roles_def admission_roles_def
          waiting_replies_def answered_def closed_def)
  qed
qed

lemma add_slots_effect: "effect (\<lambda>_. 0) (\<lambda>_. 0) n s (snd (add_slots n cfg cn s))"
proof (induction n arbitrary: s)
  case (Suc n)
  obtain x t where x: "add_slot cfg cn s = (x, t)" by fastforce
  have e: "effect (\<lambda>_. 0) (\<lambda>_. 0) 1 s t" using add_slot_effect [of s cfg cn] by (simp add: x)
  show ?case
  proof (cases x)
    case (Inl err)
    then show ?thesis using e x by (subst add_slots.simps) (simp add: effect_def)
  next
    case (Inr u)
    from effect_trans [OF e Suc [of t]] Inr x show ?thesis by (subst add_slots.simps) simp
  qed
qed (simp add: add_slots.simps effect_def)

lemma refill_shifts: "shifts (\<lambda>_. 0) (\<lambda>_. 0) s (snd (refill_slots cfg s))"
proof (cases "map_of (sv_connections s) (sa_id (rc_account cfg))")
  case (Some cn)
  let ?n = "lim_incoming (so_limits (sv_options s)) - (length (sv_call_ids s) + length (sv_available s))"
  let ?r = "add_slots ?n cfg cn s"
  show ?thesis
  proof (cases "receiving_on cfg cn s")
    case True
    have e: "effect (\<lambda>_. 0) (\<lambda>_. 0) ?n s (snd (refill_slots cfg s))"
      using add_slots_effect [of ?n s cfg cn] Some True
      by (cases ?r; cases "fst ?r") (auto simp: refill_slots_def effect_def call_roles_def admission_roles_def
          waiting_replies_def answered_def closed_def)
    have "good s \<Longrightarrow> limits_ok (snd (refill_slots cfg s))"
      using e by (auto simp: good_def limits_ok_def effect_def outgoing_roles_def)
    then show ?thesis by (intro shifts_effect [OF e]) (simp_all add: good_def)
  next
    case False
    with Some show ?thesis by (simp add: refill_slots_def shifts_def)
  qed
qed (simp add: refill_slots_def shifts_def)

lemma maintain_serves: "serves s (snd (maintain_receiver s))"
proof (cases "sv_desired s")
  case (Some cfg)
  have "plain s (pass s)" by (intro plain_pass plain_refl)
  then have c: "plain s (snd (connect_receiver cfg (pass s)))" by (rule plain_connect_receiver)
  have after: "serves s (snd (refill_slots cfg u))" if "plain s u" for u
    using plain_serves [OF that] shifts_serves [OF refill_shifts] by (rule serves_trans)
  obtain x t where x: "connect_receiver cfg (pass s) = (x, t)" by fastforce
  with c have "plain s t" by simp
  then have "serves s (snd (refill_slots cfg t))" "serves s (snd (refill_slots cfg (receiver_failed i e h t)))" for i e h
    by (intro after plain_receiver_failed; assumption)+
  with Some x \<open>plain s (pass s)\<close> show ?thesis
    by (auto simp: maintain_receiver_def plain_serves split: sum.splits)
qed (simp add: maintain_receiver_def)

lemma poll_slots_plain:
  "poll_slots sls t = (r, u) \<Longrightarrow> plain s t \<Longrightarrow> plain s u \<and> (\<forall>ys. r = Inr ys \<longrightarrow> length ys = length sls)"
proof (induction sls t arbitrary: r u rule: poll_slots.induct)
  case (2 sl sls t)
  let ?poll = "poll_mappings (fst (se_poll (sv_env t) (sv_ticks t))) (snd (se_poll (sv_env t) (sv_ticks t))) (sl_sockets sl)"
  obtain x sk where x: "?poll = (x, sk)" by fastforce
  have p: "plain s (pass t)" using 2 by (intro plain_pass)
  obtain y v where y: "poll_slots sls (pass t) = (y, v)" by fastforce
  show ?case
  proof (cases x)
    case (Inr z)
    from 2(1) [OF x [symmetric] Inr refl y p] 2(2) x y Inr show ?thesis by (cases y) (auto simp: Let_def)
  qed (use 2 x p in auto)
qed auto

lemma poll_available_serves: "serves s (snd (poll_available s))"
proof -
  obtain r u where r: "poll_slots (sv_available s) s = (r, u)" by fastforce
  note p = poll_slots_plain [OF r plain_refl]
  have "plain s (snd (poll_available s))"
    using p r by (cases r) (auto simp: poll_available_def plain_def call_roles_def admission_roles_def waiting_replies_def
        answered_def closed_def)
  then show ?thesis by (rule plain_serves)
qed

section \<open>Expiry and media\<close>

lemma drops_serve: "serves s (fold (drop_by_id code) ids s)"
  by (rule serves_fold) (rule shifts_serves [OF drop_by_id_shifts])

lemma closes_serve: "serves s (fold (close_by_id outcome) ids s)"
  by (rule serves_fold) (rule shifts_serves [OF close_by_id_shifts])

lemma expired_plain: "expired as t = (ids, u) \<Longrightarrow> plain s t \<Longrightarrow> plain s u"
proof (induction as t arbitrary: ids u rule: expired.induct)
  case (2 i a rest t)
  let ?g = "if time t \<ge> pa_deadline a then (True, pass t) else disconnected_now (pass t)"
  obtain gone v where g: "?g = (gone, v)" by fastforce
  have "plain s (pass t)" using 2 by (intro plain_pass)
  then have "plain s (snd ?g)" by (auto intro!: plain_intros)
  then have v: "plain s v" by (simp add: g)
  obtain js w where w: "expired rest v = (js, w)" by fastforce
  from 2(1) [OF g [symmetric] w v] 2(2) g w show ?case by simp
qed simp

lemma expire_serves: "serves s (expire_admissions s)"
proof -
  obtain ids u where e: "expired (sv_admission s) s = (ids, u)" by fastforce
  have "serves s u" by (rule plain_serves [OF expired_plain [OF e plain_refl]])
  then show ?thesis using e drops_serve by (auto simp: expire_admissions_def intro: serves_trans)
qed

lemma plain_emits: "plain s t \<Longrightarrow> \<forall>x \<in> set xs. quiet_output x \<Longrightarrow> plain s (fold emit xs t)"
  by (induction xs arbitrary: t) (auto intro: plain_emit)

lemma call_tick_effect:
  "call_tick c s = (r, d, t) \<Longrightarrow> plain u s \<Longrightarrow> plain u t \<and> cl_incoming d = cl_incoming c \<and> cl_reply d = cl_reply c"
  by (auto simp: call_tick_def reported_def split: prod.splits call_output.splits option.splits intro!: plain_emits)

lemma tick_calls_effect:
  "tick_calls cs t = (ds, fin, u) \<Longrightarrow> plain s t \<Longrightarrow> plain s u \<and> map call_role ds = map call_role cs"
proof (induction cs t arbitrary: ds fin u rule: tick_calls.induct)
  case (2 i c cs t)
  obtain r d v where c: "call_tick c t = (r, d, v)" using prod_cases3 by blast
  obtain es fs w where w: "tick_calls cs v = (es, fs, w)" using prod_cases3 by blast
  note e = call_tick_effect [OF c 2(3)]
  have "ds = (i, d) # es" "u = w" using 2(2) c w by auto
  with 2(1) [OF c [symmetric] refl w] e show ?case by (simp add: call_role_def)
qed simp

lemma run_calls_serves:
  fixes s :: "('m, 'd, 'k, 'r) service"
  shows "serves s (run_calls s)"
proof -
  obtain ds fin u where t: "tick_calls (sv_calls s) s = (ds, fin, u)" using prod_cases3 by blast
  note e = tick_calls_effect [OF t plain_refl]
  have "plain s (u\<lparr>sv_calls := ds\<rparr>)"
    using e by (simp add: plain_def) (simp add: call_roles_def)
  then have "serves s (u\<lparr>sv_calls := ds\<rparr>)" by (rule plain_serves)
  moreover have "serves v (fold (\<lambda>(i, r). close_by_id r i) fin v)" for v :: "('m, 'd, 'k, 'r) service"
    by (rule serves_fold) (auto intro: shifts_serves close_by_id_shifts)
  ultimately show ?thesis using t by (auto simp: run_calls_def intro: serves_trans)
qed

section \<open>Failing connections and sleep\<close>

lemma length_filter_split: "length (filter P xs) = length (filter P (filter Q xs)) + length (filter P (filter (\<lambda>x. \<not> Q x) xs))"
  by (induction xs) auto

lemma fail_pending_shifts: "shifts (\<lambda>_. 0) (\<lambda>_. 0) s (fail_pending acct error s)"
proof -
  let ?mine = "\<lambda>p. sa_id (ss_account (ps_fax p)) = acct"
  let ?t = "s\<lparr>sv_pending := filter (\<lambda>p. \<not> ?mine p) (sv_pending s)\<rparr>"
  have e: "effect (\<lambda>r. length (filter (\<lambda>p. ps_reply p = r) (filter ?mine (sv_pending s)))) (\<lambda>_. 0) 0 ?t (fail_pending acct error s)"
    unfolding fail_pending_def by (rule finish_sends_effect)
  have count: "length (filter (\<lambda>q. q = r) (map ps_reply xs)) = length (filter (\<lambda>p. ps_reply p = r) xs)" for r xs
    by (simp add: filter_map comp_def)
  show ?thesis
  proof (rule shifts_effect [OF e])
    assume g: "good s"
    then show "tables_ok ?t" by (simp add: good_def tables_ok_def)
    show "limits_ok (fail_pending acct error s)"
      using e g le_trans [OF add_left_mono [OF length_filter_le]]
      by (auto simp: good_def limits_ok_def effect_def outgoing_roles_def waiting_replies_def)
    show "answered r ?t + length (filter (\<lambda>p. ps_reply p = r) (filter ?mine (sv_pending s))) + obliged r ?t =
        answered r s + obliged r s + 0" for r
      using length_filter_split [of "\<lambda>p. ps_reply p = r" "sv_pending s" ?mine]
      by (simp add: obliged_def waiting_replies_def count filter_map comp_def)
  qed (simp_all add: held_def)
qed

lemma fail_connection_serves: "serves s (fail_connection failure s)"
proof -
  obtain acct error where f: "failure = (acct, error)" by fastforce
  define s1 where "s1 = fail_pending acct error s"
  define s2 where "s2 = fold (close_by_id (Inl (NSip error))) (map fst (filter (\<lambda>(i, c). call_account c = acct) (sv_calls s1))) s1"
  define s3 where "s3 = fold (drop_by_id 480) (map fst (filter (\<lambda>(i, a). call_account (pa_call a) = acct) (sv_admission s2))) s2"
  have "serves s s1" unfolding s1_def by (rule shifts_serves [OF fail_pending_shifts])
  also have "serves s1 s2" unfolding s2_def by (rule closes_serve)
  also have "serves s2 s3" unfolding s3_def by (rule drops_serve)
  finally have base: "serves s s3" .
  have rest: "plain s3 (retire_now p (s3\<lparr>sv_connections := cs\<rparr>))" for p cs by (intro plain_intros plain_refl)
  have "plain s3 (receiver_failed acct error h (u\<lparr>sv_available := []\<rparr>))" if "plain s3 u" for h u
    using that by (intro plain_intros)
  with rest have "plain s3 (fail_connection failure s)"
    by (auto simp: fail_connection_def f s1_def s2_def s3_def Let_def split: option.splits)
  then show ?thesis using base by (blast intro: serves_trans plain_serves)
qed

lemma poll_connections_serves:
  fixes s :: "('m, 'd, 'k, 'r) service"
  shows "serves s (poll_connections s)"
proof -
  obtain cs fs u where p: "poll_all (sv_connections s) s = (cs, fs, u)" using prod_cases3 by blast
  have "plain s (snd (snd (poll_all (sv_connections s) s)))" by (rule plain_poll_all) simp
  then have "plain s u" by (simp add: p)
  then have "serves s (u\<lparr>sv_connections := cs\<rparr>)" by (intro plain_serves plain_update)
  moreover have "serves v (fold fail_connection fs v)" for v :: "('m, 'd, 'k, 'r) service" by (rule serves_fold) (rule fail_connection_serves)
  ultimately show ?thesis using p by (auto simp: poll_connections_def intro: serves_trans)
qed

lemma check_sleep_serves:
  fixes s :: "('m, 'd, 'k, 'r) service"
  shows "serves s (check_sleep s)"
proof -
  have "serves (pass s) (after_sleep (pass s))"
    unfolding after_sleep_def Let_def by (rule serves_trans [OF closes_serve drops_serve])
  moreover have "plain s (pass s)" by (intro plain_intros plain_refl)
  moreover have "plain u (pass (u\<lparr>sv_last_tick := time u\<rparr>))"
    "plain u (pass ((u\<lparr>sv_reconnect := True\<rparr>)\<lparr>sv_last_tick := time (u\<lparr>sv_reconnect := True\<rparr>)\<rparr>))" for u :: "('m, 'd, 'k, 'r) service"
    by (intro plain_intros plain_refl)+
  ultimately have "serves s (pass ((if b then (after_sleep (pass s))\<lparr>sv_reconnect := True\<rparr> else pass s)
      \<lparr>sv_last_tick := time (if b then (after_sleep (pass s))\<lparr>sv_reconnect := True\<rparr> else pass s)\<rparr>))" for b
    by (cases b) (simp_all, (meson plain_serves serves_trans)+)
  then show ?thesis unfolding check_sleep_def Let_def by blast
qed

section \<open>The loop\<close>

lemma handle_events_serves:
  fixes s :: "('m, 'd, 'k, 'r) service"
  shows "serves s (snd (handle_events s))"
proof -
  let ?s = "pass (pass (emit (SoSleep (sleep_millis s)) s))"
  have "plain s ?s" by (intro plain_intros plain_refl) simp
  moreover have "serves u (fold on_incoming vs u)" for u :: "('m, 'd, 'k, 'r) service" and vs
    by (rule serves_fold) (rule shifts_serves [OF on_incoming_shifts])
  moreover have "plain u (snd (native u))" for u :: "('m, 'd, 'k, 'r) service" by (intro plain_intros plain_refl)
  ultimately show ?thesis unfolding handle_events_def Let_def
    by (blast intro: serves_trans plain_serves)
qed

lemma tail_serves:
  fixes s :: "('m, 'd, 'k, 'r) service"
  shows "serves s (release_unused (update_status (run_calls (expire_admissions s))))"
proof -
  have "plain u (release_unused (update_status u))" for u :: "('m, 'd, 'k, 'r) service" by (intro plain_intros plain_refl)
  then show ?thesis using expire_serves run_calls_serves by (blast intro: serves_trans plain_serves)
qed

lemma loop_body_serves:
  fixes s :: "('m, 'd, 'k, 'r) service"
  shows "serves s (snd (loop_body s))"
proof -
  have start: "serves s (serve_commands (check_sleep s))"
    using check_sleep_serves serve_commands_serves by (rule serves_trans)
  have "plain u (reconnect_all u)" for u :: "('m, 'd, 'k, 'r) service" by (intro plain_intros plain_refl)
  then have front: "serves u (snd (maintain_receiver (poll_connections (reconnect_all u))))" for u :: "('m, 'd, 'k, 'r) service"
    using poll_connections_serves maintain_serves by (blast intro: serves_trans plain_serves)
  have middle: "serves u (snd (poll_available (launch_all u)))" for u :: "('m, 'd, 'k, 'r) service"
    using launch_all_serves poll_available_serves by (blast intro: serves_trans)
  let ?tail = "\<lambda>u. release_unused (update_status (run_calls (expire_admissions u)))"
  have idle: "serves u ((?tail u)\<lparr>sv_idle := True\<rparr>)" for u :: "('m, 'd, 'k, 'r) service"
    using tail_serves [of u] plain_serves [OF plain_update(13) [OF plain_refl]] by (rule serves_trans)
  have sleep: "serves u (snd (and_then (handle_events (?tail u)) (\<lambda>_ s. (Inr False, s))))" for u :: "('m, 'd, 'k, 'r) service"
    using serves_trans [OF tail_serves handle_events_serves] by (rule serves_and_then) simp
  show ?thesis unfolding loop_body_def Let_def
    using start front middle idle sleep
    by (auto intro!: serves_and_then intro: serves_trans)
qed

end
