(* ===== verification/CallNegotiation.thy ===== *)
theory CallNegotiation
  imports CallPump
begin

text \<open>
  The negotiation of a call as an abstract machine, and the refinement: every step of the pump is a
  sequence of steps of that machine. The machine knows the phase of the negotiation, whether the direct
  retry was used, and the commands sent to the SIP stack. Beside it, a step keeps the transport of a fax
  that runs, and the completions that SpanDSP reported and that were not read yet stay true of its state.
\<close>

section \<open>The abstract machine\<close>

text \<open>\<open>Dialling\<close>: not answered yet; \<open>Quiet\<close>: answered, nothing offered yet. \<open>Offering n\<close> and \<open>Pausing n\<close>: the \<open>n\<close>-th offer of T.38 is out, or collided.\<close>

datatype phase = Dialling | Quiet | Offering nat | Pausing nat | Restoring | Agreed | Declined | Faxing media_kind

type_synonym negotiation = "phase \<times> bool \<times> call_output list"

inductive negotiates :: "call_mode \<Rightarrow> negotiation \<Rightarrow> negotiation \<Rightarrow> bool" for mode where
  neg_answer: "negotiates mode (Dialling, b, ss) (Quiet, b, ss)"
| neg_offer: "mode = MAuto \<Longrightarrow> negotiates mode (Quiet, b, ss) (Offering 1, b, ss @ [OutReinvite KT38])"
| neg_collide: "n \<le> 2 \<Longrightarrow> negotiates mode (Offering n, b, ss) (Pausing n, b, ss)"
| neg_again: "mode = MAuto \<Longrightarrow> negotiates mode (Pausing n, b, ss) (Offering (Suc n), b, ss @ [OutReinvite KT38])"
| neg_accept: "negotiates mode (Offering n, b, ss) (Agreed, b, ss)"
| neg_refuse: "negotiates mode (Offering n, b, ss) (Declined, b, ss)"
| neg_restore: "negotiates mode (Offering n, b, ss) (Restoring, b, ss @ [OutReinvite KAudio])"
| neg_restored: "negotiates mode (Restoring, b, ss) (Declined, b, ss)"
| neg_cancel_offer: "negotiates mode (Offering n, b, ss) (Offering n, b, ss @ [OutCancelReinvite q])"
| neg_cancel_restore: "negotiates mode (Restoring, b, ss) (Restoring, b, ss @ [OutCancelReinvite q])"
| neg_packets: "p \<in> {Quiet, Agreed, Declined} \<union> range Pausing \<Longrightarrow>
    negotiates mode (p, b, ss) (Faxing KT38, b, ss @ [OutSwitch False])"
| neg_audio: "p = Declined \<and> mode = MAuto \<or> p = Quiet \<and> mode = MG711 \<Longrightarrow>
    negotiates mode (p, b, ss) (Faxing KAudio, b, ss @ [OutSwitch False])"
| neg_retry: "mode = MAuto \<Longrightarrow> x \<in> {[OutReleaseInvite], [OutReleaseInvite, OutInvite KT38]} \<Longrightarrow>
    negotiates mode (Dialling, False, ss) (Dialling, True, ss @ x)"

text \<open>A running fax ends the negotiation: the machine has no step from there.\<close>

inductive_cases faxing_negotiates: "negotiates mode (Faxing k, b, ss) s"

section \<open>Abstraction\<close>

definition is_signal :: "call_output \<Rightarrow> bool" where
  "is_signal x = (case x of OutProgress _ \<Rightarrow> False | OutAudio _ _ \<Rightarrow> False | OutPacket _ \<Rightarrow> False | _ \<Rightarrow> True)"

definition signals :: "('m, 'd, 'k, 'r) pump \<Rightarrow> call_output list" where
  "signals c = filter is_signal (pu_out c)"

definition fax_kind :: "('m, 'd, 'k, 'r) pump \<Rightarrow> media_kind option" where
  "fax_kind c = map_option (\<lambda>m. case m of FmAudio _ \<Rightarrow> KAudio | FmPackets _ \<Rightarrow> KT38) (pu_fax c)"

definition phase :: "bool \<Rightarrow> attempt \<Rightarrow> nat \<Rightarrow> media_kind option \<Rightarrow> phase" where
  "phase picked_up a glare kind =
     (case kind of Some k \<Rightarrow> Faxing k
      | None \<Rightarrow> (case a of
          NotStarted \<Rightarrow> if picked_up then Quiet else Dialling
        | Backoff _ \<Rightarrow> Pausing glare
        | Waiting KT38 _ _ _ _ \<Rightarrow> Offering (Suc glare)
        | Waiting KAudio _ _ _ _ \<Rightarrow> Restoring
        | Accepted \<Rightarrow> Agreed
        | Refused \<Rightarrow> Declined))"

definition negotiation :: "('m, 'd, 'k, 'r) pump \<Rightarrow> negotiation" where
  "negotiation c = (phase (pu_connected c \<noteq> None) (pu_attempt c) (pu_glare c) (fax_kind c), pu_direct_retry c, signals c)"

definition call_mode_of :: "('m, 'd, 'k, 'r) pump \<Rightarrow> call_mode" where
  "call_mode_of c = rq_call_mode (pu_request c)"

text \<open>What never changes during a call.\<close>

definition same_call :: "('m, 'd, 'k, 'r) pump \<Rightarrow> ('m, 'd, 'k, 'r) pump \<Rightarrow> bool" where
  "same_call c d \<longleftrightarrow> pu_env d = pu_env c \<and> pu_started d = pu_started c \<and> pu_request d = pu_request c \<and>
     pu_receiving d = pu_receiving c \<and> pu_ticks c \<le> pu_ticks d"

text \<open>The media of a call: the remote description, whether there is an RTP network, and what fixes the
  UDPTL network, the peer's host and the largest datagram. (The peer's port may be learned from traffic.)\<close>

definition wire :: "packet_network \<times> 'r \<Rightarrow> nat \<times> ip_addr" where
  "wire s = (pn_max_datagram (fst s), fst (pe_address (pn_peer (fst s))))"

definition networks :: "('m, 'd, 'k, 'r) pump \<Rightarrow> bool \<times> (nat \<times> ip_addr) option" where
  "networks c = (pu_audio c \<noteq> None, map_option wire (pu_packets c))"

text \<open>While a fax runs the networks stay; the peer may move an audio fax to another RTP address or codec,
  a T.38 fax keeps its remote description.\<close>

definition same_transport :: "media_kind \<Rightarrow> ('m, 'd, 'k, 'r) pump \<Rightarrow> ('m, 'd, 'k, 'r) pump \<Rightarrow> bool" where
  "same_transport kind c d \<longleftrightarrow> networks d = networks c \<and>
     (pu_remote d = pu_remote c \<or> kind = KAudio \<and> audio_remote d)"

text \<open>Completion: \<open>Z\<close> is anything SpanDSP's state satisfies from the moment it reports phase E with code 0,
  for instance that its log has this report. A session is sound when a success it has not read yet is
  true of its state.\<close>

definition closes :: "('m \<Rightarrow> bool) \<Rightarrow> 'm \<Rightarrow> callback list \<times> 'm \<Rightarrow> bool" where
  "closes Z m r \<longleftrightarrow> (Z m \<or> CbPhaseE 0 \<in> set (fst r) \<longrightarrow> Z (snd r))"

definition completion_closed :: "('m, 'd, 'k) dsp \<Rightarrow> ('m \<Rightarrow> bool) \<Rightarrow> bool" where
  "completion_closed lib Z \<longleftrightarrow>
     (\<forall>m frame. closes Z m (ds_rx lib frame m)) \<and> (\<forall>m. closes Z m (snd (ds_tx lib m))) \<and>
     (\<forall>n p q m. closes Z m (snd (ds_rx_ifp lib n p q m))) \<and>
     (\<forall>n m. closes Z m (ds_timeout lib n m)) \<and> (\<forall>n m. closes Z m (ds_terminate lib n m))"

definition sound_session :: "('m \<Rightarrow> bool) \<Rightarrow> ('m, 'd, 'k) fax_session \<Rightarrow> bool" where
  "sound_session Z f \<longleftrightarrow> (cb_completion (fs_callbacks f) = Some 0 \<longrightarrow> Z (fs_state f))"

definition sound :: "('m \<Rightarrow> bool) \<Rightarrow> ('m, 'd, 'k, 'r) pump \<Rightarrow> bool" where
  "sound Z c \<longleftrightarrow> completion_closed (dsp_of c) Z \<and> (\<forall>m. pu_fax c = Some m \<longrightarrow> sound_session Z (modem m))"

text \<open>A step that leaves the negotiation and the media alone.\<close>

definition neutral :: "('m, 'd, 'k, 'r) pump \<Rightarrow> ('m, 'd, 'k, 'r) pump \<Rightarrow> bool" where
  "neutral c d \<longleftrightarrow> same_call c d \<and> pu_attempt d = pu_attempt c \<and> pu_glare d = pu_glare c \<and>
     pu_direct_retry d = pu_direct_retry c \<and> fax_kind d = fax_kind c \<and> signals d = signals c \<and>
     pu_connected d = pu_connected c \<and> pu_remote d = pu_remote c \<and> networks d = networks c \<and>
     (\<forall>Z. sound Z c \<longrightarrow> sound Z d)"

text \<open>A fax and offers come after the answer; a fax runs only while no offer of media is out, no offer collided before the first one, and only
  automatic calls make offers.\<close>

definition settled :: "('m, 'd, 'k, 'r) pump \<Rightarrow> bool" where
  "settled c \<longleftrightarrow> (pu_fax c \<noteq> None \<longrightarrow> \<not> is_waiting (pu_attempt c)) \<and>
     (pu_attempt c = NotStarted \<longrightarrow> pu_glare c = 0) \<and> (call_mode_of c \<noteq> MAuto \<longrightarrow> pu_attempt c = NotStarted) \<and>
     (pu_connected c = None \<longrightarrow> pu_fax c = None \<and> pu_attempt c = NotStarted)"

definition keeps_transport :: "('m, 'd, 'k, 'r) pump \<Rightarrow> ('m, 'd, 'k, 'r) pump \<Rightarrow> bool" where
  "keeps_transport c d \<longleftrightarrow> (\<forall>k. fax_kind c = Some k \<longrightarrow> same_transport k c d)"

definition evolves :: "('m, 'd, 'k, 'r) pump \<Rightarrow> ('m, 'd, 'k, 'r) pump \<Rightarrow> bool" where
  "evolves c d \<longleftrightarrow> (settled c \<longrightarrow> same_call c d \<and> settled d \<and>
     (negotiates (call_mode_of c))\<^sup>*\<^sup>* (negotiation c) (negotiation d) \<and> keeps_transport c d \<and>
     (\<forall>Z. sound Z c \<longrightarrow> sound Z d))"

lemma negotiates_faxing: "(negotiates mode)\<^sup>*\<^sup>* s t \<Longrightarrow> fst s = Faxing k \<Longrightarrow> t = s"
proof (induction rule: rtranclp_induct)
  case (step t u)
  obtain b ss where "t = (Faxing k, b, ss)" using step by (cases t) auto
  with step(2) show ?case by (auto elim: faxing_negotiates)
qed simp

lemma phase_fax: "fst (negotiation c) = Faxing k \<longleftrightarrow> fax_kind c = Some k"
  by (auto simp: negotiation_def phase_def split: option.split attempt.split media_kind.split)

lemma same_transport_refl [simp]: "same_transport k c c"
  by (simp add: same_transport_def)

lemma same_transport_trans: "same_transport k c d \<Longrightarrow> same_transport k d e \<Longrightarrow> same_transport k c e"
  by (auto simp: same_transport_def audio_remote_def)

lemma keeps_transport_refl [simp]: "keeps_transport c c"
  by (simp add: keeps_transport_def)

named_theorems call_frames "what the operations of the pump leave alone"

lemma same_call_refl [simp]: "same_call c c"
  by (simp add: same_call_def)

lemma same_call_trans: "same_call c d \<Longrightarrow> same_call d e \<Longrightarrow> same_call c e"
  by (simp add: same_call_def)

lemma neutral_refl [simp]: "neutral c c"
  by (simp add: neutral_def)

lemma neutral_trans: "neutral c d \<Longrightarrow> neutral d e \<Longrightarrow> neutral c e"
  by (auto simp: neutral_def intro: same_call_trans)

lemma neutral_evolves: "neutral c d \<Longrightarrow> evolves c d"
  by (auto simp: neutral_def evolves_def negotiation_def settled_def fax_kind_def call_mode_of_def same_call_def
      keeps_transport_def same_transport_def)

lemma evolves_refl [simp]: "evolves c c"
  by (simp add: evolves_def)

lemma evolves_trans:
  assumes "evolves c d" "evolves d e"
  shows "evolves c e"
proof -
  have kept: "keeps_transport c e"
    if "keeps_transport c d" "keeps_transport d e" "(negotiates mode)\<^sup>*\<^sup>* (negotiation c) (negotiation d)" for mode
    unfolding keeps_transport_def
  proof (intro allI impI)
    fix k assume k: "fax_kind c = Some k"
    then have "negotiation d = negotiation c" using negotiates_faxing [OF that(3)] by (simp add: phase_fax)
    then have "fax_kind d = Some k" using k by (metis phase_fax)
    with k that(1,2) show "same_transport k c e"
      unfolding keeps_transport_def by (blast intro: same_transport_trans)
  qed
  show ?thesis using assms kept
    unfolding evolves_def call_mode_of_def same_call_def by (metis (no_types, lifting) order_trans rtranclp_trans)
qed

lemma neutral_and_then:
  "neutral c (snd r) \<Longrightarrow> (\<And>x d. r = (Inr x, d) \<Longrightarrow> neutral c d \<Longrightarrow> neutral d (snd (k x d))) \<Longrightarrow> neutral c (snd (and_then r k))"
  by (cases r; cases "fst r") (auto intro: neutral_trans)

lemma evolvesI: "(settled c \<Longrightarrow> evolves c d) \<Longrightarrow> evolves c d"
  by (simp add: evolves_def)

lemma evolves_and_then:
  "evolves c (snd r) \<Longrightarrow> (\<And>x d. r = (Inr x, d) \<Longrightarrow> evolves c d \<Longrightarrow> evolves d (snd (k x d))) \<Longrightarrow> evolves c (snd (and_then r k))"
  by (cases r; cases "fst r") (auto intro: evolves_trans)

lemma signals_put_out [simp]: "signals (put_out x c) = signals c @ (if is_signal x then [x] else [])"
  by (simp add: signals_def put_out_def)

lemma neutral_update:
  assumes "neutral c d" "same_call d e" "pu_attempt e = pu_attempt d" "pu_glare e = pu_glare d"
    "pu_direct_retry e = pu_direct_retry d" "pu_fax e = pu_fax d" "signals e = signals d"
    "pu_connected e = pu_connected d" "pu_remote e = pu_remote d" "networks e = networks d"
  shows "neutral c e"
proof (rule neutral_trans [OF assms(1)])
  have "sound Z e" if "sound Z d" for Z using that assms(2,6) by (simp add: sound_def same_call_def dsp_of_def)
  then show "neutral d e" using assms(2-) by (simp add: neutral_def fax_kind_def)
qed

lemma neutral_updates [simp]:
  "neutral c d \<Longrightarrow> neutral c (tock d)"
  "neutral c d \<Longrightarrow> \<not> is_signal x \<Longrightarrow> neutral c (put_out x d)"
  "neutral c d \<Longrightarrow> neutral c (report e d)"
  "neutral c d \<Longrightarrow> pu_audio d \<noteq> None \<Longrightarrow> neutral c (d\<lparr>pu_audio := Some n\<rparr>)"
  "neutral c d \<Longrightarrow> pu_packets d = Some t \<Longrightarrow> wire s = wire t \<Longrightarrow> neutral c (d\<lparr>pu_packets := Some s\<rparr>)"
  "neutral c d \<Longrightarrow> neutral c (d\<lparr>pu_sockets := ss\<rparr>)"
  "neutral c d \<Longrightarrow> neutral c (d\<lparr>pu_cng := k\<rparr>)"
  "neutral c d \<Longrightarrow> neutral c (d\<lparr>pu_next_frame := i\<rparr>)"
  "neutral c d \<Longrightarrow> neutral c (d\<lparr>pu_reported := k, pu_last_report := i\<rparr>)"
  by (erule neutral_update; simp add: same_call_def tock_def put_out_def report_def signals_def is_signal_def networks_def)+

text \<open>Setting two fields is setting one after the other.\<close>

lemma neutral_two_updates [simp]:
  "neutral c d \<Longrightarrow> pu_audio d \<noteq> None \<Longrightarrow> neutral c (d\<lparr>pu_audio := Some n, pu_sockets := ss\<rparr>)"
  "neutral c d \<Longrightarrow> pu_packets d = Some t \<Longrightarrow> wire s = wire t \<Longrightarrow> neutral c (d\<lparr>pu_packets := Some s, pu_sockets := ss\<rparr>)"
  using neutral_updates(6) [of c "d\<lparr>pu_audio := Some n\<rparr>" ss] neutral_updates(6) [of c "d\<lparr>pu_packets := Some s\<rparr>" ss]
  by simp_all

lemma neutral_sound: "neutral c d \<Longrightarrow> sound Z c \<Longrightarrow> sound Z d"
  by (simp add: neutral_def)

section \<open>Completions stay true of the session\<close>

definition keeps_sound :: "('m, 'd, 'k) dsp \<Rightarrow> (('m, 'd, 'k) fax_session \<Rightarrow> 'a \<times> ('m, 'd, 'k) fax_session) \<Rightarrow> bool" where
  "keeps_sound lib op \<longleftrightarrow> (\<forall>Z f. completion_closed lib Z \<and> sound_session Z f \<longrightarrow> sound_session Z (snd (op f)))"

lemma completion_callback:
  "cb_completion (run_callback lib x b) = (case x of CbPhaseE code \<Rightarrow> Some code | _ \<Rightarrow> cb_completion b)"
proof -
  have watched: "cb_completion (fold (monitor_data lib s) reported e) = cb_completion e" for s reported e
    by (induction reported arbitrary: e) (auto simp: monitor_data_def)
  have "cb_completion (snd (tx_packet lib s bytes n e)) = cb_completion e" for s bytes n e
    by (auto simp: tx_packet_def Let_def watched split: option.split prod.split)
  then show ?thesis by (cases x) (simp_all add: transmit_frame_def)
qed

lemma completion_callbacks:
  "cb_completion (fold (run_callback lib) xs b) = Some 0 \<Longrightarrow> cb_completion b = Some 0 \<or> CbPhaseE 0 \<in> set xs"
  by (induction xs arbitrary: b) (fastforce simp: completion_callback split: callback.splits)+

lemma sound_ran:
  assumes "closes Z (fs_state f) r" "sound_session Z f"
  shows "sound_session Z (ran lib r f)"
  using assms by (auto simp: sound_session_def ran_def closes_def dest: completion_callbacks)

lemma closed_ops:
  assumes "completion_closed lib Z"
  shows "closes Z m (ds_rx lib frame m)" "closes Z m (snd (ds_tx lib m))" "closes Z m (snd (ds_rx_ifp lib n p q m))"
    "closes Z m (ds_timeout lib n m)" "closes Z m (ds_terminate lib n m)"
  using assms by (simp_all add: completion_closed_def)

lemma fax_events_state: "fs_state (snd (fax_events lib f)) = fs_state f" "cb_completion (fs_callbacks (snd (fax_events lib f))) = None"
  by (simp_all add: fax_events_def callback_events_def split: prod.split)

lemma keeps_sound_ops:
  "keeps_sound lib (\<lambda>f. ((), hear lib frame f))" "keeps_sound lib (speak lib)" "keeps_sound lib (take_packet lib sequence payload)"
  "keeps_sound lib (\<lambda>f. drain_packets (tick_fax lib f))" "keeps_sound lib (fax_events lib)" "keeps_sound lib (end_fax lib)"
proof -
  show "keeps_sound lib (\<lambda>f. ((), hear lib frame f))"
    by (simp add: keeps_sound_def hear_def sound_ran closed_ops)
  show "keeps_sound lib (speak lib)"
    unfolding keeps_sound_def speak_def
    by (auto split: prod.split) (metis closed_ops(2) snd_conv sound_ran)
  show "keeps_sound lib (take_packet lib sequence payload)"
    unfolding keeps_sound_def take_packet_def
    by (auto split: prod.split) (metis closed_ops(3) snd_conv sound_ran)
  have "sound_session Z (snd (drain_packets f)) = sound_session Z f" for Z and f :: "('a, 'b, 'c) fax_session"
    by (simp add: sound_session_def drain_packets_def)
  then show "keeps_sound lib (\<lambda>f. drain_packets (tick_fax lib f))"
    by (simp add: keeps_sound_def tick_fax_def sound_ran closed_ops)
  show "keeps_sound lib (fax_events lib)" "keeps_sound lib (end_fax lib)"
    by (simp_all add: keeps_sound_def end_fax_def sound_session_def fax_events_state)
qed

section \<open>Media leave the negotiation alone\<close>

lemma modem_set_modem: "pu_fax c = Some m \<Longrightarrow> pu_fax (set_modem f c) = Some (case m of FmAudio _ \<Rightarrow> FmAudio f | FmPackets _ \<Rightarrow> FmPackets f)"
  by (simp add: set_modem_def split: fax_media.split)

lemma neutral_set_modem:
  assumes "pu_fax c = Some m" "\<And>Z. completion_closed (dsp_of c) Z \<Longrightarrow> sound_session Z (modem m) \<Longrightarrow> sound_session Z f"
  shows "neutral c (set_modem f c)"
proof -
  have "sound Z (set_modem f c)" if "sound Z c" for Z
    using that assms unfolding sound_def modem_set_modem [OF assms(1)]
    by (auto simp: modem_def set_modem_def dsp_of_def split: fax_media.split)
  then show ?thesis using assms(1)
    by (auto simp: neutral_def same_call_def set_modem_def fax_kind_def signals_def networks_def split: fax_media.split)
qed

lemma neutral_on_modem: "keeps_sound (dsp_of c) op \<Longrightarrow> neutral c (snd (on_modem op x c))"
proof (cases "pu_fax c")
  case (Some m)
  assume "keeps_sound (dsp_of c) op"
  then have "neutral c (set_modem (snd (op (modem m))) c)"
    by (intro neutral_set_modem [OF Some]) (simp add: keeps_sound_def)
  then show ?thesis by (cases "op (modem m)") (simp add: on_modem_def Some)
qed (simp add: on_modem_def)

lemma wire_receive_one [simp]: "wire (snd (packet_receive_one decode recover now source bytes s)) = wire s"
  by (auto simp: packet_receive_one_def wire_def Let_def peer_accept_def split: prod.split option.split)

lemma wire_receive: "wire (snd (packet_receive decode recover n inputs s)) = wire s"
proof (induction decode recover n inputs s rule: packet_receive.induct)
  case (5 decode recover k now source bytes rest s)
  obtain xs t where t: "packet_receive_one decode recover now source bytes s = (xs, t)" by (meson surj_pair)
  then have "wire t = wire s" using wire_receive_one by (metis snd_conv)
  with 5 t show ?case
    by (cases "packet_receive decode recover k rest t") (auto split: sum.split)
qed simp_all

lemma wire_send: "wire (snd (packet_send encode failures now k payload n), r) = wire (n, r)"
proof -
  have "wire (snd (send_repeated j fs len n), r) = wire (n, r)" for j fs len n
    by (induction j fs len n rule: send_repeated.induct) (auto simp: wire_def split: option.split)
  then show ?thesis
    by (auto simp: packet_send_def and_then_def wire_def Let_def split: option.split prod.split sum.split) (metis fst_conv snd_conv prod.inject)+
qed

lemma neutral_network [call_frames]:
  "pu_audio c = Some n \<Longrightarrow> neutral c (snd (audio_hears c n))"
  "pu_audio c = Some n \<Longrightarrow> neutral c (snd (audio_drains c n))"
  "pu_audio c = Some n \<Longrightarrow> neutral c (snd (audio_sends samples c n))"
  by (simp_all add: audio_hears_def audio_drains_def audio_sends_def Let_def is_signal_def split: prod.split sum.split)

lemma neutral_packets [call_frames]:
  assumes "pu_packets c = Some s"
  shows "neutral c (snd (packets_hear c s))" "neutral c (snd (packets_send p c s))"
proof -
  have "wire ((fst s)\<lparr>pn_mapping := m\<rparr>, snd s) = wire s" for m by (simp add: wire_def)
  note kept = this
  obtain r t where t: "packet_receive (ce_parse_udptl (pu_env c)) (ce_recover (pu_env c)) 64
      (ce_datagrams (pu_env c) (pu_ticks c)) ((fst s)\<lparr>pn_mapping := sk_fax_mapping (pu_sockets c)\<rparr>, snd s) = (r, t)" by (meson surj_pair)
  then have "wire t = wire s" using wire_receive kept by (metis snd_conv)
  then show "neutral c (snd (packets_hear c s))"
    using assms by (simp add: packets_hear_def Let_def t)
  obtain r n where n: "packet_send (ce_udptl (pu_env c)) (ce_send (pu_env c) (pu_ticks c)) (clock c) (ifp_repetitions p)
      (ifp_payload p) (fst s) = (r, n)" by (meson surj_pair)
  then have "wire (n, snd s) = wire s" using wire_send by (metis prod.collapse snd_conv)
  then show "neutral c (snd (packets_send p c s))"
    using assms by (simp add: packets_send_def n is_signal_def split: sum.split prod.split)
qed

lemma neutral_with [call_frames]:
  "(\<And>n. pu_audio c = Some n \<Longrightarrow> neutral c (snd (k c n))) \<Longrightarrow> neutral c (snd (with_audio k x c))"
  "(\<And>n. pu_packets c = Some n \<Longrightarrow> neutral c (snd (l c n))) \<Longrightarrow> neutral c (snd (with_packets l x c))"
  by (simp_all add: with_audio_def with_packets_def split: option.split)

lemma neutral_modem_ops [call_frames]:
  "neutral c (modem_hears f c)" "neutral c (snd (modem_events c))" "neutral c (snd (modem_ends c))"
  by (simp_all add: modem_hears_def modem_events_def modem_ends_def neutral_on_modem keeps_sound_ops)

lemma neutral_pure [simp]: "neutral c (snd (x, c))"
  by simp

lemma neutral_hear_frames [call_frames]: "neutral c (snd (hear_frames n c))"
proof (induction n c rule: hear_frames.induct)
  case (1 n c)
  show ?case
  proof (cases "n = 0")
    case False
    have "neutral d (snd (case frame of None \<Rightarrow> (Inr (), d) | Some f \<Rightarrow> hear_frames (n - 1) (modem_hears f d)))"
      if "with_audio audio_hears None c = (Inr frame, d)" for frame d
      using 1 [OF False refl] by (auto intro: neutral_trans [OF neutral_modem_ops(1)] split: option.split)
    then show ?thesis using False
      by (subst hear_frames.simps) (simp add: neutral_and_then neutral_with neutral_network)
  qed (simp add: hear_frames.simps)
qed

lemma neutral_skip_frames [call_frames]: "neutral c (snd (skip_frames n c))"
proof (induction n c rule: skip_frames.induct)
  case (1 n c)
  show ?case
  proof (cases "n = 0")
    case False
    have "neutral d (snd (case frame of None \<Rightarrow> (Inr (), d) | Some f \<Rightarrow> skip_frames (n - 1) d))"
      if "with_audio audio_hears None c = (Inr frame, d)" for frame d
      using 1 [OF False] by (auto split: option.split)
    then show ?thesis using False
      by (subst skip_frames.simps) (simp add: neutral_and_then neutral_with neutral_network)
  qed (simp add: skip_frames.simps)
qed

lemma neutral_take_packets [call_frames]: "neutral c (snd (take_packets ps c))"
  by (induction ps arbitrary: c) (auto intro!: neutral_and_then neutral_on_modem keeps_sound_ops)

lemma neutral_send_packets [call_frames]: "neutral c (snd (send_packets ps c))"
  by (induction ps arbitrary: c) (auto intro!: neutral_and_then neutral_with neutral_packets)

lemma neutral_case: "neutral c (snd r) \<Longrightarrow> (\<And>x d. r = (x, d) \<Longrightarrow> neutral d (snd (k x d))) \<Longrightarrow> neutral c (snd (case r of (x, d) \<Rightarrow> k x d))"
  by (cases r) (auto intro: neutral_trans)

lemma neutral_report_activity [call_frames]: "neutral c (report_activity now c)"
  by (simp add: report_activity_def split: option.split)

lemma neutral_turns [call_frames]:
  "neutral c (snd (audio_turn c))" "neutral c (snd (packet_turn now c))" "neutral c (snd (tone_turn c))"
proof -
  have events: "neutral d (snd (case modem_events (tock d) of (es, c) \<Rightarrow> (Inr es, c)))" for d :: "('a, 'b, 'c, 'd) pump"
    by (rule neutral_trans [OF _ neutral_case [OF neutral_modem_ops(2)]]) simp_all
  show "neutral c (snd (audio_turn c))"
    unfolding audio_turn_def
    by (intro neutral_and_then neutral_case neutral_on_modem keeps_sound_ops call_frames) (auto simp: events split: option.split)
  show "neutral c (snd (tone_turn c))"
    unfolding tone_turn_def Let_def
    by (intro neutral_and_then call_frames)
       (auto intro!: neutral_and_then neutral_trans [OF _ neutral_with(1) [OF neutral_network(3)]])
  have last: "neutral d (snd (let e = report_activity now d in case pu_packets e of
      Some (n, _) \<Rightarrow> if clock e - pn_last_activity n > secs 30
        then (Inl (NSip (lit ''No T.38 media activity for 30 seconds'')), tock e)
        else (case modem_events (tock e) of (es, c) \<Rightarrow> (Inr es, c))
      | None \<Rightarrow> (Inr [], e)))" for d :: "('a, 'b, 'c, 'd) pump"
    by (rule neutral_trans [OF neutral_report_activity [of d now]]) (auto simp: Let_def events split: option.split)
  show "neutral c (snd (packet_turn now c))"
    unfolding packet_turn_def
    by (intro neutral_and_then neutral_case neutral_on_modem keeps_sound_ops call_frames last)
qed

lemma neutral_media_turn [call_frames]: "neutral c (snd (media_turn now c))"
  by (simp add: media_turn_def neutral_turns split: option.split fax_media.split)

lemma neutral_pump_events [call_frames]: "neutral c (snd (pump_events es c))"
proof (induction es arbitrary: c)
  case (Cons e es)
  have "neutral c (snd (pump_events es (report e (report x c))))" "neutral c (snd (pump_events es (report e c)))" for x
    by (rule neutral_trans [OF _ Cons.IH]; simp)+
  then show ?case by (auto simp: Let_def split: fax_event.split sum.split)
qed simp

lemma neutral_end_events [call_frames]: "neutral c (snd (end_events reason es c))"
proof (induction es arbitrary: c)
  case (Cons e es)
  have "neutral c (snd (end_events reason es (report e c)))"
    by (rule neutral_trans [OF _ Cons.IH]) simp
  then show ?case by (auto split: fax_event.split sum.split)
qed simp

lemma neutral_frame_turn [call_frames]: "neutral c (snd (frame_turn c))"
proof -
  have "neutral c (snd (and_then (media_turn now (d\<lparr>pu_next_frame := i\<rparr>)) pump_events))" if "neutral c d" for now i d
    by (rule neutral_trans [OF _ neutral_and_then [OF neutral_media_turn neutral_pump_events]]) (simp add: that)
  then show ?thesis by (simp add: frame_turn_def Let_def)
qed

lemma neutral_drain [call_frames]: "neutral c (snd (pump_drain_audio c))"
proof -
  have "neutral d (fold modem_hears frames d)" for frames and d :: "('a, 'b, 'c, 'd) pump"
    by (induction frames arbitrary: d) (auto intro: neutral_trans neutral_modem_ops)
  then show ?thesis
    by (auto simp: pump_drain_audio_def intro!: neutral_and_then neutral_with neutral_network)
qed

lemma neutral_last_events [call_frames]: "neutral c (snd (last_events c))"
  unfolding last_events_def
  by (auto intro!: neutral_and_then neutral_case neutral_with neutral_network neutral_packets neutral_take_packets neutral_modem_ops)

lemma neutral_disconnected [call_frames]: "neutral c (snd (disconnected reason c))"
  unfolding disconnected_def by (intro neutral_and_then call_frames)

section \<open>Every step refines the machine\<close>

lemma keeps_transport_idle: "pu_fax c = None \<Longrightarrow> keeps_transport c d"
  by (simp add: keeps_transport_def fax_kind_def)

lemma sound_step:
  "same_call c d \<Longrightarrow> (\<And>m. pu_fax d = Some m \<Longrightarrow> pu_fax c = Some m \<or> cb_completion (fs_callbacks (modem m)) = None) \<Longrightarrow>
   sound Z c \<Longrightarrow> sound Z d"
  by (fastforce simp: sound_def same_call_def dsp_of_def sound_session_def)

text \<open>The machine moves only while no fax runs; a fax that starts has completed nothing.\<close>

lemma evolves_step:
  "same_call c d \<Longrightarrow> (settled c \<Longrightarrow> settled d) \<Longrightarrow> (settled c \<Longrightarrow> pu_fax c = None) \<Longrightarrow>
   (\<And>m. pu_fax d = Some m \<Longrightarrow> pu_fax c = Some m \<or> cb_completion (fs_callbacks (modem m)) = None) \<Longrightarrow>
   (settled c \<Longrightarrow> negotiates (call_mode_of c) (negotiation c) (negotiation d)) \<Longrightarrow> evolves c d"
  by (simp add: evolves_def r_into_rtranclp keeps_transport_idle) (metis sound_step)

lemma evolves_same:
  "same_call c d \<Longrightarrow> (settled c \<Longrightarrow> settled d) \<Longrightarrow> negotiation d = negotiation c \<Longrightarrow> keeps_transport c d \<Longrightarrow>
   pu_fax d = pu_fax c \<Longrightarrow> evolves c d"
  unfolding evolves_def by (auto intro: sound_step)

lemma same_call_mode: "same_call c d \<Longrightarrow> call_mode_of d = call_mode_of c"
  by (simp add: same_call_def call_mode_of_def)

lemma evolves_stutter: "neutral c d \<Longrightarrow> evolves d e \<Longrightarrow> evolves c e"
  by (blast intro: evolves_trans neutral_evolves)

lemma negotiation_neutral: "neutral c d \<Longrightarrow> negotiation d = negotiation c"
  by (simp add: neutral_def negotiation_def)

lemmas pump_updates = set_attempt_def put_out_def tock_def fax_kind_def signals_def is_signal_def

text \<open>An offer changes the phase as the machine does, or fails and changes nothing.\<close>

definition offered :: "media_kind \<Rightarrow> ('m, 'd, 'k, 'r) pump \<Rightarrow> negotiation" where
  "offered kind c =
     (case kind of KT38 \<Rightarrow> Offering (Suc (pu_glare c)) | KAudio \<Rightarrow> Restoring, pu_direct_retry c, signals c @ [OutReinvite kind])"

lemma evolves_offer:
  assumes "pu_fax c = None" "negotiates (call_mode_of c) (negotiation c) (offered kind c)" "call_mode_of c = MAuto"
    "pu_connected c \<noteq> None"
  shows "evolves c (snd (offer_media kind c))"
proof (cases "ce_reinvite (pu_env c) (pu_ticks c)")
  case (Inl e)
  then show ?thesis by (simp add: offer_media_def sip_reinvite_def neutral_evolves)
next
  case (Inr q)
  let ?d = "snd (offer_media kind c)"
  let ?o = "put_out (OutReinvite kind) (tock c)"
  have d: "?d = tock (?o\<lparr>pu_attempt := Waiting kind q (clock ?o) False False\<rparr>)"
    using Inr by (simp add: offer_media_def sip_reinvite_def)
  show ?thesis
  proof (rule evolves_step)
    show "same_call c ?d" by (simp add: d same_call_def tock_def put_out_def)
    show "settled ?d" using assms(1,3,4) by (simp add: d settled_def tock_def put_out_def call_mode_of_def)
    show "pu_fax c = None" by (fact assms(1))
    show "pu_fax c = Some m \<or> cb_completion (fs_callbacks (modem m)) = None" if "pu_fax ?d = Some m" for m
      using that by (simp add: d tock_def put_out_def)
    have "negotiation ?d = offered kind c"
      using assms(1) by (simp add: d negotiation_def offered_def phase_def pump_updates split: media_kind.split)
    then show "negotiates (call_mode_of c) (negotiation c) (negotiation ?d)" using assms(2) by simp
  qed
qed

lemma waiting_negotiation:
  assumes "pu_attempt c = Waiting kind q since cancelling ready" "settled c"
  shows "pu_fax c = None" "pu_connected c \<noteq> None"
    "negotiation c = (case kind of KT38 \<Rightarrow> Offering (Suc (pu_glare c)) | KAudio \<Rightarrow> Restoring, pu_direct_retry c, signals c)"
  using assms by (auto simp: settled_def is_waiting_def negotiation_def phase_def fax_kind_def split: media_kind.split)

lemma evolves_watch: "evolves c (snd (watch_offer c))"
proof (cases "pu_attempt c")
  case (Waiting kind q since cancelling ready)
  show ?thesis
  proof (cases "clock c - since \<ge> secs 5 \<and> \<not> cancelling")
    case False
    then show ?thesis using Waiting by (auto simp: watch_offer_def Let_def intro: neutral_evolves)
  next
    case True
    show ?thesis
    proof (cases "ce_cancel (pu_env (tock c)) (pu_ticks (tock c))")
      case (Some e)
      then show ?thesis using Waiting True by (simp add: watch_offer_def sip_cancel_def neutral_evolves)
    next
      case None
      let ?d = "snd (watch_offer c)"
      have d: "?d = set_attempt (Waiting kind q since True ready) (put_out (OutCancelReinvite q) (tock (tock c)))"
        using Waiting True None by (simp add: watch_offer_def sip_cancel_def)
      show ?thesis
      proof (rule evolves_step)
        show "same_call c ?d" by (simp add: d same_call_def set_attempt_def put_out_def tock_def)
        assume s: "settled c"
        note w = waiting_negotiation [OF Waiting s]
        show "pu_fax c = None" by (fact w(1))
        show "settled ?d" using w(1,2) s Waiting
          by (simp add: d settled_def set_attempt_def put_out_def tock_def call_mode_of_def)
        have n: "negotiation ?d = (fst (negotiation c), pu_direct_retry c, signals c @ [OutCancelReinvite q])"
          using w by (simp add: d negotiation_def phase_def pump_updates split: media_kind.split)
        show "negotiates (call_mode_of c) (negotiation c) (negotiation ?d)"
          unfolding n unfolding w(3) by (cases kind) (auto intro: negotiates.intros)
      qed (simp add: d set_attempt_def put_out_def tock_def)
    qed
  qed
qed (simp_all add: watch_offer_def)

lemma evolves_start:
  assumes "pu_fax c = None" "pu_fax d = Some m" "same_call c d" "\<not> is_waiting (pu_attempt c)"
    "cb_completion (fs_callbacks (modem m)) = None" "pu_connected c \<noteq> None" "pu_connected d = pu_connected c"
    "pu_attempt d = pu_attempt c" "pu_glare d = pu_glare c"
    "pu_direct_retry d = pu_direct_retry c" "signals d = signals c @ [OutSwitch False]"
    "negotiates (call_mode_of c) (negotiation c) (Faxing (case m of FmAudio _ \<Rightarrow> KAudio | FmPackets _ \<Rightarrow> KT38), pu_direct_retry c, signals c @ [OutSwitch False])"
  shows "evolves c d"
proof (rule evolves_step [OF assms(3)])
  assume "settled c"
  then show "settled d" using assms same_call_mode [OF assms(3)] by (simp add: settled_def)
  show "pu_fax c = None" by (fact assms(1))
  have "negotiation d = (Faxing (case m of FmAudio _ \<Rightarrow> KAudio | FmPackets _ \<Rightarrow> KT38), pu_direct_retry c, signals c @ [OutSwitch False])"
    using assms by (simp add: negotiation_def phase_def fax_kind_def)
  then show "negotiates (call_mode_of c) (negotiation c) (negotiation d)" using assms by simp
qed (use assms in simp)

lemma new_session_completion:
  "new_audio c = Inr f \<Longrightarrow> cb_completion (fs_callbacks f) = None"
  "res_bind (new_packets c) (limit_bit_rate (dsp_of c) bit_rate) = Inr f \<Longrightarrow> cb_completion (fs_callbacks f) = None"
  by (auto simp: new_audio_def new_packets_def with_ecm_def audio_fax_def packet_fax_def configure_def limit_bit_rate_def
      callbacks_default_def res_bind_def split: if_splits sum.splits)

lemma evolves_start_audio:
  assumes "pu_fax c = None" "\<not> is_waiting (pu_attempt c)" "pu_connected c \<noteq> None"
    "call_mode_of c = MG711 \<and> pu_attempt c = NotStarted \<or> call_mode_of c = MAuto \<and> pu_attempt c = Refused"
  shows "evolves c (snd (start_audio c))"
proof (cases "new_audio c")
  case (Inr f)
  let ?d = "snd (start_audio c)"
  have d: "?d = report (EvStage SNegotiating) (put_out (OutSwitch False) (c\<lparr>pu_fax := Some (FmAudio f)\<rparr>))"
    using Inr by (simp add: start_audio_def)
  show ?thesis
  proof (rule evolves_start [where m = "FmAudio f"])
    show "negotiates (call_mode_of c) (negotiation c)
        (Faxing (case FmAudio f of FmAudio _ \<Rightarrow> KAudio | FmPackets _ \<Rightarrow> KT38), pu_direct_retry c, signals c @ [OutSwitch False])"
      using assms unfolding negotiation_def fax_media.case
      by (intro neg_audio) (auto simp: phase_def fax_kind_def split: attempt.split media_kind.split)
  qed (use assms new_session_completion(1) [OF Inr] in \<open>simp_all add: d same_call_def report_def pump_updates modem_def\<close>)
qed (simp add: start_audio_def)

lemma evolves_start_packets:
  assumes "pu_fax c = None" "\<not> is_waiting (pu_attempt c)" "pu_connected c \<noteq> None"
  shows "evolves c (snd (start_packets bit_rate c))"
proof (cases "res_bind (new_packets c) (limit_bit_rate (dsp_of c) bit_rate)")
  case (Inr f)
  let ?d = "snd (start_packets bit_rate c)"
  have d: "?d = put_out (OutSwitch False) (report (EvStage SNegotiating) (c\<lparr>pu_fax := Some (FmPackets f)\<rparr>))"
    using Inr by (simp add: start_packets_def)
  show ?thesis
  proof (rule evolves_start [where m = "FmPackets f"])
    show "negotiates (call_mode_of c) (negotiation c)
        (Faxing (case FmPackets f of FmAudio _ \<Rightarrow> KAudio | FmPackets _ \<Rightarrow> KT38), pu_direct_retry c, signals c @ [OutSwitch False])"
      using assms unfolding negotiation_def fax_media.case
      by (intro neg_packets) (auto simp: phase_def fax_kind_def is_waiting_def split: attempt.split)
  qed (use assms new_session_completion(2) [OF Inr] in \<open>simp_all add: d same_call_def report_def pump_updates modem_def\<close>)
qed (simp add: start_packets_def)

lemma evolves_negotiate_audio:
  assumes "pu_fax c = None" "call_mode_of c = MAuto" "settled c" "pu_connected c \<noteq> None"
  shows "evolves c (snd (negotiate_audio since_answer c))"
proof (cases "offer_due since_answer c")
  case True
  let ?c = "report (EvStage SOfferingT38) (tock c)"
  have n: "neutral c ?c" by simp
  have same: "pu_fax ?c = None" "pu_glare ?c = pu_glare c" "pu_direct_retry ?c = pu_direct_retry c" "signals ?c = signals c"
    "call_mode_of ?c = MAuto" "pu_connected ?c \<noteq> None"
    using assms by (simp_all add: report_def put_out_def tock_def signals_def is_signal_def call_mode_of_def)
  have "negotiates (call_mode_of ?c) (negotiation ?c) (offered KT38 ?c)"
  proof (cases "pu_attempt c")
    case NotStarted
    then have "pu_glare c = 0" using assms(3) by (simp add: settled_def)
    then show ?thesis
      unfolding negotiation_neutral [OF n] offered_def same using NotStarted assms(1,4)
      by (simp add: negotiation_def phase_def fax_kind_def) (metis One_nat_def neg_offer)
  next
    case Backoff
    then show ?thesis
      unfolding negotiation_neutral [OF n] offered_def same using assms(1)
      by (simp add: negotiation_def phase_def fax_kind_def neg_again)
  qed (use True in \<open>simp_all add: offer_due_def\<close>)
  then have "evolves ?c (snd (offer_media KT38 ?c))" using same(1,5,6) by (intro evolves_offer)
  with n have "evolves c (snd (offer_media KT38 ?c))" by (rule evolves_stutter)
  then show ?thesis using True by (simp add: negotiate_audio_def)
next
  case False
  show ?thesis
  proof (cases "pu_attempt c = Refused")
    case True
    let ?c = "report (EvStage SFallingBack) c"
    have "evolves ?c (snd (start_audio ?c))"
      by (rule evolves_start_audio) (use assms True in \<open>simp_all add: report_def put_out_def is_waiting_def call_mode_of_def\<close>)
    then have "evolves c (snd (start_audio ?c))" by (rule evolves_stutter [rotated]) simp
    then show ?thesis using False True by (simp add: negotiate_audio_def)
  qed (use False in \<open>simp add: negotiate_audio_def neutral_evolves\<close>)
qed

lemma evolves_start_fax:
  assumes "pu_connected c \<noteq> None"
  shows "evolves c (snd (start_fax since_answer c))"
proof (cases "pu_fax c")
  case None
  show ?thesis
  proof (rule evolvesI)
    assume s: "settled c"
    have auto: "evolves c (snd (negotiate_audio since_answer c))" if "call_mode_of c = MAuto"
      by (rule evolves_negotiate_audio [OF None that s assms])
    have g711: "evolves c (snd (start_audio c))" if "call_mode_of c = MG711"
      using None that s assms by (intro evolves_start_audio) (auto simp: settled_def is_waiting_def)
    show ?thesis
      using None auto g711 evolves_start_packets [OF None _ assms]
      by (simp add: start_fax_def call_mode_of_def neutral_evolves split: option.split remote_media.split call_mode.split)
  qed
qed (simp add: start_fax_def)

section \<open>Events\<close>

lemma evolves_ready: "evolves c (c\<lparr>pu_attempt := media_ready_if p (pu_attempt c)\<rparr>)"
  by (rule evolves_same)
     (auto simp: same_call_def settled_def call_mode_of_def negotiation_def fax_kind_def signals_def phase_def
        keeps_transport_def same_transport_def networks_def media_ready_if_def is_waiting_def split: attempt.split media_kind.split option.split)

lemma evolves_connected: "evolves c (on_connected c)"
proof (cases "pu_connected c")
  case None
  show ?thesis
  proof (rule evolves_step)
    assume s: "settled c"
    then show fax: "pu_fax c = None" using None by (simp add: settled_def)
    show "settled (on_connected c)" using s by (auto simp: on_connected_def settled_def tock_def call_mode_of_def)
    have "pu_attempt c = NotStarted" using s None by (simp add: settled_def)
    then show "negotiates (call_mode_of c) (negotiation c) (negotiation (on_connected c))"
      using fax None by (simp add: on_connected_def negotiation_def phase_def fax_kind_def signals_def tock_def neg_answer)
  qed (auto simp: on_connected_def same_call_def tock_def split: if_splits)
qed (simp add: on_connected_def)

lemma evolves_set_attempt:
  assumes "settled c" "pu_attempt c = Waiting kind q since cancelling ready" "\<not> is_waiting a" "a \<noteq> NotStarted"
    "negotiates (call_mode_of c) (negotiation c) (phase True a (pu_glare c) None, pu_direct_retry c, signals c)"
  shows "evolves c (set_attempt a c)"
proof (rule evolves_step)
  note w = waiting_negotiation [OF assms(2,1)]
  show "pu_fax c = None" by (fact w(1))
  show "settled (set_attempt a c)" using assms w(1,2) by (simp add: settled_def set_attempt_def call_mode_of_def)
  have "negotiation (set_attempt a c) = (phase True a (pu_glare c) None, pu_direct_retry c, signals c)"
    using w(1,2) by (simp add: negotiation_def pump_updates)
  with assms(5) show "negotiates (call_mode_of c) (negotiation c) (negotiation (set_attempt a c))" by simp
qed (simp_all add: same_call_def set_attempt_def)

lemma evolves_back_off:
  assumes "settled c" "pu_attempt c = Waiting KT38 q since cancelling ready" "pu_glare c < 2"
  shows "evolves c (back_off c)"
proof (rule evolves_step)
  note w = waiting_negotiation [OF assms(2,1)]
  show "pu_fax c = None" by (fact w(1))
  show "settled (back_off c)" using assms w(1,2) by (simp add: settled_def back_off_def tock_def is_waiting_def call_mode_of_def)
  have "negotiation (back_off c) = (Pausing (Suc (pu_glare c)), pu_direct_retry c, signals c)"
    using w(1) by (simp add: negotiation_def back_off_def pump_updates phase_def)
  then show "negotiates (call_mode_of c) (negotiation c) (negotiation (back_off c))"
    unfolding w(3) using assms(3) by (simp add: neg_collide)
qed (simp_all add: same_call_def back_off_def tock_def)

lemma evolves_offer_answered:
  assumes "settled c" "pu_attempt c = Waiting kind q since cancelling ready"
  shows "evolves c (snd (offer_answered kind ready code c))"
proof -
  note w = waiting_negotiation [OF assms(2,1)]
  have mode: "call_mode_of c = MAuto" using assms by (auto simp: settled_def)
  have refused: "evolves c (set_attempt Refused c)"
    using assms by (rule evolves_set_attempt) (cases kind; simp add: is_waiting_def w phase_def neg_refuse neg_restored)+
  have accepted: "evolves c (set_attempt Accepted c)" if "kind = KT38"
    using assms by (rule evolves_set_attempt) (simp_all add: that is_waiting_def w phase_def neg_accept)
  have restore: "evolves c (snd (offer_media KAudio (report (EvStage SFallingBack) c)))" if "kind = KT38"
  proof (rule evolves_stutter)
    let ?c = "report (EvStage SFallingBack) c"
    show n: "neutral c ?c" by simp
    show "evolves ?c (snd (offer_media KAudio ?c))"
    proof (rule evolves_offer)
      show "pu_fax ?c = None" "call_mode_of ?c = MAuto" "pu_connected ?c \<noteq> None" using w(1,2) mode by (simp_all add: report_def put_out_def call_mode_of_def)
      have "negotiates (call_mode_of c) (negotiation c) (offered KAudio c)"
        unfolding w(3) offered_def using that by (simp add: neg_restore)
      then show "negotiates (call_mode_of ?c) (negotiation ?c) (offered KAudio ?c)"
        using negotiation_neutral [OF n] by (simp add: offered_def report_def put_out_def signals_def is_signal_def call_mode_of_def)
    qed
  qed
  show ?thesis
    using assms refused accepted restore evolves_back_off by (auto simp: offer_answered_def)
qed

lemma evolves_invite_final: "evolves c (snd (on_invite_final q code c))"
proof (rule evolvesI)
  assume "settled c"
  then show ?thesis by (auto simp: on_invite_final_def evolves_offer_answered split: attempt.split)
qed

text \<open>New media: any while no fax runs, a change of the RTP address or codec while an audio fax runs, or
  nothing.\<close>

lemma evolves_media:
  assumes "same_call c d" "pu_attempt d = pu_attempt c" "pu_glare d = pu_glare c" "pu_direct_retry d = pu_direct_retry c"
    "pu_fax d = pu_fax c" "signals d = signals c" "pu_connected d = pu_connected c" "keeps_transport c d"
  shows "evolves c d"
  by (rule evolves_same) (use assms same_call_mode [OF assms(1)] in \<open>simp_all add: settled_def negotiation_def fax_kind_def\<close>)

lemma evolves_connect_media: "pu_fax c = None \<Longrightarrow> evolves c (snd (connect_media remote c))"
  by (rule evolves_media)
     (auto simp: connect_media_def same_call_def signals_def tock_def keeps_transport_idle split: remote_media.split sum.split)

lemma evolves_moved_audio:
  assumes "pu_audio c = Some n" "\<not> is_packet_fax c"
  shows "evolves c (tock (c\<lparr>pu_audio := Some m, pu_remote := Some (RAudio address codec)\<rparr>))"
proof (rule evolves_media)
  have "k = KAudio" if "fax_kind c = Some k" for k
    using that assms(2) by (auto simp: fax_kind_def is_packet_fax_def split: option.splits fax_media.splits)
  then show "keeps_transport c (tock (c\<lparr>pu_audio := Some m, pu_remote := Some (RAudio address codec)\<rparr>))"
    using assms(1) by (simp add: keeps_transport_def same_transport_def networks_def audio_remote_def tock_def)
qed (simp_all add: same_call_def signals_def tock_def)

lemma evolves_on_media: "evolves c (snd (on_media description c))"
proof (cases "sdp_remote description")
  case (Inr remote)
  let ?d = "c\<lparr>pu_attempt := media_ready_if (\<lambda>kind. remote_kind remote = kind) (pu_attempt c)\<rparr>"
  define d where "d = ?d"
  have same: "pu_remote d = pu_remote c" "pu_audio d = pu_audio c" "pu_fax d = pu_fax c" by (simp_all add: d_def)
  have "on_media description c = (if pu_remote d = Some remote then (Inr (), d)
             else (case (pu_audio d, remote) of
                     (Some n, RAudio address codec) \<Rightarrow>
                       if is_packet_fax d
                       then (Inl (NSip (lit ''Peer changed media after fax transmission started'')), d)
                       else (Inr (), tock (d\<lparr>pu_audio := Some (audio_update_remote address codec (clock d) n),
                                             pu_remote := Some remote\<rparr>))
                   | _ \<Rightarrow>
                       if pu_fax d \<noteq> None
                       then (Inl (NSip (lit ''Peer changed media after fax transmission started'')), d)
                       else connect_media remote d))"
    unfolding on_media_def Inr sum.case Let_def d_def by (rule refl)
  then have "evolves d (snd (on_media description c))"
    by (auto simp: evolves_connect_media intro: evolves_moved_audio split: option.split remote_media.split)
  then have "evolves ?d (snd (on_media description c))" by (simp add: d_def)
  then show ?thesis by (blast intro: evolves_trans evolves_ready)
qed (simp add: on_media_def)

lemma evolves_going_on [simp]: "evolves c (snd (going_on r)) = evolves c (snd r)"
  by (cases r; cases "fst r") (simp_all add: going_on_def)

lemma evolves_retry:
  assumes "retries_directly code c"
  shows "evolves c (snd (retry_directly c))"
proof (rule evolves_step)
  let ?d = "snd (retry_directly c)"
  have d: "pu_attempt ?d = pu_attempt c" "pu_glare ?d = pu_glare c" "pu_fax ?d = pu_fax c" "call_mode_of ?d = call_mode_of c"
    "pu_direct_retry ?d" "pu_env ?d = pu_env c" "pu_started ?d = pu_started c" "pu_request ?d = pu_request c"
    "pu_receiving ?d = pu_receiving c" "pu_ticks c \<le> pu_ticks ?d"
    "pu_connected ?d = pu_connected c"
    "\<exists>x \<in> {[OutReleaseInvite], [OutReleaseInvite, OutInvite KT38]}. signals ?d = signals c @ x"
    by (auto simp: retry_directly_def sip_invite_def call_mode_of_def pump_updates split: option.split)
  show "same_call c ?d" using d by (simp add: same_call_def)
  assume s: "settled c"
  then show "settled ?d" using d by (simp add: settled_def)
  show "pu_fax c = None" using s assms by (simp add: settled_def retries_directly_def)
  have "negotiation c = (Dialling, False, signals c)" "call_mode_of c = MAuto"
    using s assms by (simp_all add: negotiation_def retries_directly_def call_mode_of_def settled_def phase_def fax_kind_def)
  moreover from this obtain x where "x \<in> {[OutReleaseInvite], [OutReleaseInvite, OutInvite KT38]}"
    "negotiation ?d = (Dialling, True, signals c @ x)"
    using d by (auto simp: negotiation_def fax_kind_def)
  ultimately show "negotiates (call_mode_of c) (negotiation c) (negotiation ?d)" by (metis neg_retry)
qed (auto simp: retry_directly_def sip_invite_def pump_updates split: option.splits)

lemma evolves_on_event: "evolves c (snd (on_event e c))"
proof (cases e)
  case CeConnected
  have "evolves c (on_connected (report (EvStage SConnected) c))"
    by (rule evolves_stutter [OF _ evolves_connected]) simp
  with CeConnected show ?thesis by simp
next
  case (CeInviteStarted q)
  show ?thesis unfolding CeInviteStarted
    by (rule evolves_same)
       (auto simp: same_call_def settled_def call_mode_of_def negotiation_def fax_kind_def signals_def phase_def is_waiting_def
          keeps_transport_def same_transport_def networks_def
          split: attempt.split media_kind.split option.split)
next
  case (CeDisconnected code reason)
  then show ?thesis by (simp add: evolves_retry neutral_evolves neutral_disconnected)
next
  case (CePeerHangup reason)
  then show ?thesis by (simp add: neutral_evolves neutral_disconnected)
next
  case (CeMediaError reason)
  then show ?thesis by (cases "pu_attempt c") (use evolves_ready [of c "\<lambda>_. False"] in auto)
qed (auto simp: evolves_on_media evolves_invite_final neutral_evolves)

lemma evolves_on_events: "evolves c (snd (on_events es c))"
  by (induction es arbitrary: c) (auto intro!: evolves_and_then evolves_on_event split: option.split)

lemma neutral_limits: "neutral c (snd (check_limits c))" "neutral c (snd (poll_sockets c))"
  by (auto simp: check_limits_def poll_sockets_def Let_def split: prod.split)

lemma watch_offer_connected: "pu_connected (snd (watch_offer c)) = pu_connected c"
  by (auto simp: watch_offer_def sip_cancel_def Let_def and_then_def pump_updates split: attempt.split option.split)

lemma evolves_answered_turn: "pu_connected c \<noteq> None \<Longrightarrow> evolves c (snd (answered_turn since_answer c))"
  unfolding answered_turn_def
proof (rule evolves_and_then [OF evolves_watch])
  fix x d
  assume "pu_connected c \<noteq> None" "watch_offer c = (Inr x, d)"
  then have "pu_connected d \<noteq> None" using watch_offer_connected [of c] by simp
  then show "evolves d (snd (and_then (start_fax since_answer d) (\<lambda>_. frame_turn)))"
    by (intro evolves_and_then evolves_start_fax neutral_evolves neutral_frame_turn)
qed

lemma evolves_pump_step: "evolves c (snd (pump_step c))"
proof -
  have events: "evolves d (snd (on_events es (tock d)))" for es and d :: "('a, 'b, 'c, 'd) pump"
    by (rule evolves_stutter [OF _ evolves_on_events]) simp
  show ?thesis
    unfolding pump_step_def
    by (intro evolves_and_then neutral_evolves [OF neutral_limits(1)] neutral_evolves [OF neutral_limits(2)] events)
       (auto simp: evolves_answered_turn split: option.split)
qed

end
