(* ===== verification/CallProps.thy ===== *)
theory CallProps
  imports CallNegotiation
begin

text \<open>
  What the pump of a call promises: every run is a run of the abstract negotiation, the commands to the
  SIP stack are bounded, a started fax keeps its transport and ends the negotiation, success means that
  SpanDSP completed with code 0, and every call ends once time passes.
\<close>

section \<open>Runs of the abstract machine\<close>

definition commands :: "call_output \<Rightarrow> call_output list \<Rightarrow> nat" where
  "commands x ss = count_list ss x"

definition t38_offers :: "phase \<Rightarrow> nat \<Rightarrow> bool" where
  "t38_offers p n \<longleftrightarrow>
     (case p of Dialling \<Rightarrow> n = 0 | Quiet \<Rightarrow> n = 0 | Offering m \<Rightarrow> n = m \<and> m \<le> 3 | Pausing m \<Rightarrow> n = m \<and> m \<le> 2 | _ \<Rightarrow> n \<le> 3)"

definition audio_offers :: "phase \<Rightarrow> nat \<Rightarrow> bool" where
  "audio_offers p n \<longleftrightarrow>
     (case p of Dialling \<Rightarrow> n = 0 | Quiet \<Rightarrow> n = 0 | Offering _ \<Rightarrow> n = 0 | Pausing _ \<Rightarrow> n = 0 | Agreed \<Rightarrow> n = 0 | _ \<Rightarrow> n \<le> 1)"

definition within_mode :: "call_mode \<Rightarrow> phase \<Rightarrow> call_output list \<Rightarrow> bool" where
  "within_mode mode p ss \<longleftrightarrow>
     (mode \<noteq> MAuto \<longrightarrow> (p = Dialling \<or> p = Quiet \<or> (\<exists>k. p = Faxing k)) \<and> commands (OutReinvite KT38) ss = 0 \<and> commands (OutReinvite KAudio) ss = 0) \<and>
     (mode = MAuto \<and> (p = Faxing KAudio \<or> p = Declined \<or> p = Restoring \<or> p \<in> range Pausing \<or> p \<in> range Offering) \<longrightarrow>
        commands (OutReinvite KT38) ss \<ge> 1) \<and>
     (mode = MT38 \<longrightarrow> p \<noteq> Faxing KAudio)"

fun negotiation_ok :: "call_mode \<Rightarrow> negotiation \<Rightarrow> bool" where
  "negotiation_ok mode (p, retried, ss) \<longleftrightarrow>
     t38_offers p (commands (OutReinvite KT38) ss) \<and> audio_offers p (commands (OutReinvite KAudio) ss) \<and>
     commands (OutInvite KT38) ss \<le> of_bool retried \<and> commands (OutInvite KAudio) ss = 0 \<and>
     commands (OutSwitch False) ss = of_bool (\<exists>k. p = Faxing k) \<and> within_mode mode p ss \<and>
     ((\<exists>k. p = Faxing k) \<longrightarrow> ss \<noteq> [] \<and> last ss = OutSwitch False)"

lemma commands_append [simp]: "commands x (ss @ ts) = commands x ss + commands x ts"
  and commands_Cons [simp]: "commands x (y # ss) = of_bool (y = x) + commands x ss"
  and commands_Nil [simp]: "commands x [] = 0"
  by (simp_all add: commands_def)

lemma negotiates_ok: "negotiates mode s t \<Longrightarrow> negotiation_ok mode s \<Longrightarrow> negotiation_ok mode t"
  by (induction rule: negotiates.induct)
     (auto simp: t38_offers_def audio_offers_def within_mode_def split: phase.splits)

lemma negotiates_run_ok: "(negotiates mode)\<^sup>*\<^sup>* s t \<Longrightarrow> negotiation_ok mode s \<Longrightarrow> negotiation_ok mode t"
  by (induction rule: rtranclp_induct) (auto intro: negotiates_ok)

section \<open>Runs of the pump\<close>

lemma evolves_run: "evolves c (snd (run_call n polls c))"
proof (induction n polls c rule: run_call.induct)
  case (2 n polls c)
  have tock: "evolves c (tock c)" by (simp add: neutral_evolves)
  then show ?case
    using 2 by (auto intro!: evolves_and_then evolves_trans [OF tock] evolves_pump_step split: option.split)
qed simp

lemma settled_new: "settled (pump_new env rq s receiving ecm)"
  and negotiation_new: "negotiation (pump_new env rq s receiving ecm) = (Dialling, False, [])"
  and mode_new: "call_mode_of (pump_new env rq s receiving ecm) = rq_call_mode rq"
  by (simp_all add: pump_new_def settled_def negotiation_def phase_def fax_kind_def signals_def call_mode_of_def)

lemma negotiation_run:
  "(negotiates (rq_call_mode rq))\<^sup>*\<^sup>* (Dialling, False, [])
     (negotiation (snd (run_call n polls (pump_new env rq s receiving ecm))))"
  "settled (snd (run_call n polls (pump_new env rq s receiving ecm)))"
  using evolves_run [of "pump_new env rq s receiving ecm" n polls]
  by (simp_all add: evolves_def settled_new negotiation_new mode_new)

lemma negotiation_run_ok:
  "negotiation_ok (rq_call_mode rq) (negotiation (snd (run_call n polls (pump_new env rq s receiving ecm))))"
  by (rule negotiates_run_ok [OF negotiation_run(1)]) (auto simp: t38_offers_def audio_offers_def within_mode_def)

section \<open>Success comes from the modem\<close>

text \<open>A success: the session runs, \<open>Z\<close> holds of SpanDSP's state, and the statistics are its own.\<close>

definition proven :: "('a \<Rightarrow> bool) \<Rightarrow> ('a, 'b, 'c, 'd) pump \<Rightarrow> transfer_stats \<Rightarrow> bool" where
  "proven Z c stats \<longleftrightarrow>
     (\<exists>m. pu_fax c = Some m \<and> Z (fs_state (modem m)) \<and> stats = statistics (ds_stats (dsp_of c) (fs_state (modem m))))"

definition confirms :: "('a \<Rightarrow> bool) \<Rightarrow> fax_event list \<Rightarrow> ('a, 'b, 'c, 'd) pump \<Rightarrow> bool" where
  "confirms Z es c \<longleftrightarrow> (\<forall>stats. EvCompleted (Inr stats) \<in> set es \<longrightarrow> proven Z c stats)"

definition ends_well :: "('a \<Rightarrow> bool) \<Rightarrow> ('a, 'b, 'c, 'd) pump \<Rightarrow> transfer_stats option \<Rightarrow> bool" where
  "ends_well Z c r \<longleftrightarrow>
     (\<forall>s. r = Some s \<longrightarrow> pu_out c \<noteq> [] \<and> last (pu_out c) = OutProgress (EvCompleted (Inr s)) \<and> proven Z c s)"

lemma ends_well_None [simp]: "ends_well Z c None"
  by (simp add: ends_well_def)

lemma confirms_Nil [simp]: "confirms Z [] c"
  by (simp add: confirms_def)

lemma proven_report [simp]: "proven Z (report e c) = proven Z c" "confirms Z es (report e c) = confirms Z es c"
  by (simp_all add: fun_eq_iff confirms_def proven_def report_def put_out_def dsp_of_def)

lemma ends_well_report: "proven Z c s \<Longrightarrow> ends_well Z (report (EvCompleted (Inr s)) c) (Some s)"
  by (auto simp: ends_well_def) (simp_all add: report_def put_out_def)

lemma confirms_Cons: "confirms Z (e # es) c \<Longrightarrow> confirms Z es c" "confirms Z (EvCompleted (Inr s) # es) c \<Longrightarrow> proven Z c s"
  by (simp_all add: confirms_def)

lemma end_events_well: "end_events reason es c = (Inr r, d) \<Longrightarrow> confirms Z es c \<Longrightarrow> ends_well Z d r"
proof (induction es arbitrary: c)
  case (Cons e es)
  note rest = confirms_Cons(1) [OF Cons.prems(2)]
  show ?case using Cons.prems Cons.IH rest
    by (cases e) (auto intro: ends_well_report dest: confirms_Cons(2) split: sum.splits)
qed simp

lemma pump_events_well: "pump_events es c = (Inr r, d) \<Longrightarrow> confirms Z es c \<Longrightarrow> ends_well Z d r"
proof (induction es arbitrary: c)
  case (Cons e es)
  note rest = confirms_Cons(1) [OF Cons.prems(2)]
  show ?case using Cons.prems Cons.IH rest
    by (cases e) (auto intro: ends_well_report dest: confirms_Cons(2) split: sum.splits if_splits)
qed simp

text \<open>The events of the session: only code 0 is a success, and it was reported before.\<close>

lemma fax_events_proven:
  assumes "fax_events lib f = (es, g)" "EvCompleted (Inr stats) \<in> set es" "sound_session Z f"
  shows "Z (fs_state g) \<and> stats = statistics (ds_stats lib (fs_state g))"
  using assms
  by (auto simp: fax_events_def callback_events_def completed_def sound_session_def split: prod.splits option.splits if_splits)

lemma end_fax_proven:
  assumes "end_fax lib f = (es, g)" "EvCompleted (Inr stats) \<in> set es" "sound_session Z f" "completion_closed lib Z"
  shows "Z (fs_state g) \<and> stats = statistics (ds_stats lib (fs_state g))"
  using assms(1,2) unfolding end_fax_def
  by (rule fax_events_proven) (intro sound_ran closed_ops assms)

lemma on_modem_confirms:
  assumes "on_modem op [] c = (es, d)" "sound Z c"
    "\<And>f es g stats. op f = (es, g) \<Longrightarrow> EvCompleted (Inr stats) \<in> set es \<Longrightarrow> sound_session Z f \<Longrightarrow>
       Z (fs_state g) \<and> stats = statistics (ds_stats (dsp_of c) (fs_state g))"
  shows "confirms Z es d"
proof (cases "pu_fax c")
  case (Some m)
  obtain g where g: "op (modem m) = (es, g)" "d = set_modem g c"
    using assms(1) by (auto simp: on_modem_def Some split: prod.splits)
  obtain x where x: "pu_fax d = Some x" "modem x = g"
    using modem_set_modem [OF Some, of g] g(2) by (cases m) (auto simp: modem_def)
  have "dsp_of d = dsp_of c" by (simp add: g(2) set_modem_def dsp_of_def)
  with x assms(2) assms(3) [OF g(1)] Some show ?thesis by (auto simp: confirms_def proven_def sound_def)
qed (use assms(1) in \<open>simp add: on_modem_def\<close>)

lemma modem_confirms:
  "modem_events c = (es, d) \<Longrightarrow> sound Z c \<Longrightarrow> confirms Z es d"
  "modem_ends c = (es, d) \<Longrightarrow> sound Z c \<Longrightarrow> confirms Z es d"
  unfolding modem_events_def modem_ends_def
  by (erule on_modem_confirms; auto dest: fax_events_proven end_fax_proven simp: sound_def)+

text \<open>Soundness goes through every step that leaves the negotiation alone.\<close>

lemma sound_after: "neutral c (snd r) \<Longrightarrow> r = (x, d) \<Longrightarrow> sound Z c \<Longrightarrow> sound Z d"
  by (auto dest: neutral_sound)

lemma sound_tock [simp]: "sound Z c \<Longrightarrow> sound Z (tock c)"
  by (simp add: sound_def tock_def dsp_of_def)

lemma events_now_confirm: "modem_events (tock c) = (es, d) \<Longrightarrow> sound Z c \<Longrightarrow> confirms Z es d"
  by (erule modem_confirms(1)) simp

lemma audio_turn_confirms:
  assumes "audio_turn c = (Inr es, d)" "sound Z c"
  shows "confirms Z es d"
proof -
  obtain x e samples f y g where e: "hear_frames 64 c = (Inr x, e)" "on_modem (speak (dsp_of e)) [] e = (samples, f)"
    "with_audio (audio_sends samples) () f = (Inr y, g)"
    and last: "(case pu_audio g of Some n \<Rightarrow> if clock g - an_last_received n > secs 30
         then (Inl (NSip (lit ''No incoming RTP for 30 seconds'')), tock g)
         else (case modem_events (tock g) of (es, c) \<Rightarrow> (Inr es, c)) | None \<Rightarrow> (Inr [], g)) = (Inr es, d)"
    using assms(1) unfolding audio_turn_def by (auto elim!: and_then_okE split: prod.splits)
  have "sound Z e" by (rule sound_after [OF neutral_hear_frames e(1) assms(2)])
  then have "sound Z f" by (rule sound_after [OF neutral_on_modem [OF keeps_sound_ops(2)] e(2)])
  then have "sound Z g"
    by (rule sound_after [OF neutral_with(1) [OF neutral_network(3)] e(3), rotated])
  with last show ?thesis by (auto split: option.splits if_splits prod.splits dest: events_now_confirm)
qed

lemma packet_turn_confirms:
  assumes "packet_turn now c = (Inr es, d)" "sound Z c"
  shows "confirms Z es d"
proof -
  obtain ps e x f out g y h where e: "with_packets packets_hear [] c = (Inr ps, e)" "take_packets ps e = (Inr x, f)"
    "on_modem (\<lambda>s. drain_packets (tick_fax (dsp_of f) s)) [] f = (out, g)" "send_packets out g = (Inr y, h)"
    and last: "(let c = report_activity now h in case pu_packets c of
          Some (n, _) \<Rightarrow> if clock c - pn_last_activity n > secs 30
            then (Inl (NSip (lit ''No T.38 media activity for 30 seconds'')), tock c)
            else (case modem_events (tock c) of (es, c) \<Rightarrow> (Inr es, c))
        | None \<Rightarrow> (Inr [], c)) = (Inr es, d)"
    using assms(1) unfolding packet_turn_def by (auto elim!: and_then_okE split: prod.splits)
  have "sound Z e"
    by (rule sound_after [OF neutral_with(2) [OF neutral_packets(1)] e(1) assms(2)])
  then have "sound Z f" by (rule sound_after [OF neutral_take_packets e(2)])
  then have "sound Z g" by (rule sound_after [OF neutral_on_modem [OF keeps_sound_ops(4)] e(3)])
  then have "sound Z h" by (rule sound_after [OF neutral_send_packets e(4)])
  then have "sound Z (report_activity now h)" by (rule neutral_sound [OF neutral_report_activity])
  with last show ?thesis by (auto simp: Let_def split: option.splits if_splits prod.splits dest: events_now_confirm)
qed

lemma tone_turn_events: "tone_turn c = (Inr es, d) \<Longrightarrow> es = []"
  unfolding tone_turn_def Let_def by (auto elim!: and_then_okE)

lemma media_turn_confirms: "media_turn now c = (Inr es, d) \<Longrightarrow> sound Z c \<Longrightarrow> confirms Z es d"
  by (auto simp: media_turn_def split: option.splits fax_media.splits if_splits
      dest: audio_turn_confirms packet_turn_confirms tone_turn_events)

lemma last_events_confirm:
  assumes "last_events c = (Inr es, d)" "sound Z c"
  shows "confirms Z es d"
proof -
  have "confirms Z es d"
    if heard: "and_then (with_packets packets_hear [] c) (\<lambda>ps c. and_then (take_packets ps c)
          (\<lambda>_ c. case modem_ends c of (es, c) \<Rightarrow> (Inr es, c))) = (Inr es, d)"
  proof -
    obtain ps e x f where e: "with_packets packets_hear [] c = (Inr ps, e)" "take_packets ps e = (Inr x, f)" "modem_ends f = (es, d)"
      using heard by (auto elim!: and_then_okE split: prod.splits)
    have "sound Z e"
      by (rule sound_after [OF neutral_with(2) [OF neutral_packets(1)] e(1) assms(2)])
    then have "sound Z f" by (rule sound_after [OF neutral_take_packets e(2)])
    with e(3) show ?thesis by (rule modem_confirms(2))
  qed
  then show ?thesis using assms
    by (auto simp: last_events_def split: if_splits prod.splits dest: modem_confirms)
qed

lemma disconnected_well:
  assumes "disconnected reason c = (Inr r, d)" "sound Z c"
  shows "ends_well Z d r"
proof -
  obtain x e es f where e: "pump_drain_audio c = (Inr x, e)" "last_events e = (Inr es, f)" "end_events reason es f = (Inr r, d)"
    using assms(1) unfolding disconnected_def by (auto elim!: and_then_okE)
  have "sound Z e" by (rule sound_after [OF neutral_drain e(1) assms(2)])
  with e(2) have "confirms Z es f" by (rule last_events_confirm)
  with e(3) show ?thesis by (rule end_events_well)
qed

lemma on_event_well:
  assumes "on_event e c = (Inr r, d)" "sound Z c"
  shows "ends_well Z d r"
proof -
  have going: "x = None" if "going_on q = (Inr x, y)" for q :: "(unit, 'a, 'b, 'c, 'd) pumped" and x y
    using that by (auto simp: going_on_def elim!: and_then_okE)
  show ?thesis using assms
    by (cases e) (auto split: if_splits attempt.splits dest: disconnected_well going)
qed

text \<open>What a step of the pump preserves.\<close>

definition ready :: "('a \<Rightarrow> bool) \<Rightarrow> ('a, 'b, 'c, 'd) pump \<Rightarrow> bool" where
  "ready Z c \<longleftrightarrow> settled c \<and> sound Z c"

lemma ready_after: "evolves c (snd r) \<Longrightarrow> r = (x, d) \<Longrightarrow> ready Z c \<Longrightarrow> ready Z d"
  by (auto simp: ready_def evolves_def)

lemma on_events_well: "on_events es c = (Inr r, d) \<Longrightarrow> ready Z c \<Longrightarrow> ends_well Z d r"
proof (induction es arbitrary: c)
  case (Cons e es)
  then obtain x s where x: "on_event e c = (Inr x, s)"
    "(case x of Some s' \<Rightarrow> (Inr (Some s'), s) | None \<Rightarrow> on_events es s) = (Inr r, d)"
    by (auto elim!: and_then_okE)
  have "ends_well Z s x" using on_event_well [OF x(1)] Cons.prems(2) by (simp add: ready_def)
  with x Cons.IH ready_after [OF evolves_on_event x(1) Cons.prems(2)] show ?case by (cases x) auto
qed simp

lemma frame_turn_well:
  assumes "frame_turn c = (Inr r, d)" "sound Z c"
  shows "ends_well Z d r"
proof (cases "clock c < pu_next_frame c")
  case True
  then show ?thesis using assms(1) by (simp add: frame_turn_def Let_def tock_def)
next
  case False
  then obtain i es e where e: "media_turn (clock c) ((tock c)\<lparr>pu_next_frame := i\<rparr>) = (Inr es, e)" "pump_events es e = (Inr r, d)"
    using assms(1) by (auto simp: frame_turn_def Let_def tock_def elim!: and_then_okE)
  have "sound Z ((tock c)\<lparr>pu_next_frame := i\<rparr>)" using assms(2) by (simp add: sound_def tock_def dsp_of_def)
  with e(1) have "confirms Z es e" by (rule media_turn_confirms)
  with e(2) show ?thesis by (rule pump_events_well)
qed

lemma answered_turn_well:
  assumes "answered_turn a c = (Inr r, d)" "ready Z c" "pu_connected c \<noteq> None"
  shows "ends_well Z d r"
proof -
  obtain x e y f where e: "watch_offer c = (Inr x, e)" "start_fax a e = (Inr y, f)" "frame_turn f = (Inr r, d)"
    using assms(1) unfolding answered_turn_def by (auto elim!: and_then_okE)
  have "ready Z e" by (rule ready_after [OF evolves_watch e(1) assms(2)])
  moreover have "pu_connected e \<noteq> None" using watch_offer_connected [of c] e(1) assms(3) by simp
  ultimately have "ready Z f" using ready_after [OF evolves_start_fax e(2)] by blast
  with e(3) show ?thesis by (auto simp: ready_def intro: frame_turn_well)
qed

lemma pump_step_well:
  assumes "pump_step c = (Inr r, d)" "ready Z c"
  shows "ends_well Z d r"
proof -
  obtain u b v e x f where x: "check_limits c = (Inr u, b)" "poll_sockets b = (Inr v, e)"
    "on_events (ce_events (pu_env e) (pu_ticks e)) (tock e) = (Inr x, f)"
    "(case x of Some s \<Rightarrow> (Inr (Some s), f)
      | None \<Rightarrow> (case pu_connected f of None \<Rightarrow> (Inr None, f) | Some a \<Rightarrow> answered_turn a f)) = (Inr r, d)"
    using assms(1) unfolding pump_step_def by (elim and_then_okE) blast
  have "ready Z b" by (rule ready_after [OF neutral_evolves [OF neutral_limits(1)] x(1) assms(2)])
  then have "ready Z e" by (rule ready_after [OF neutral_evolves [OF neutral_limits(2)] x(2)])
  then have e: "ready Z (tock e)" by (auto simp: ready_def settled_def tock_def call_mode_of_def sound_def dsp_of_def)
  then have f: "ready Z f" by (rule ready_after [OF evolves_on_events x(3)])
  have "ends_well Z f x" using x(3) e by (rule on_events_well)
  with x(4) f show ?thesis by (auto split: option.splits dest: answered_turn_well)
qed

lemma run_call_well: "run_call n polls c = (Inr r, d) \<Longrightarrow> ready Z c \<Longrightarrow> ends_well Z d r"
proof (induction n arbitrary: c)
  case (Suc n)
  then obtain x e where x: "pump_step (tock c) = (Inr x, e)"
    "(case x of Some s \<Rightarrow> (Inr (Some s), e) | None \<Rightarrow> run_call n polls e) = (Inr r, d)"
    by (auto elim!: and_then_okE split: option.splits)
  have c: "ready Z (tock c)" using Suc.prems(2) by (auto simp: ready_def settled_def tock_def call_mode_of_def sound_def dsp_of_def)
  then have "ready Z e" by (rule ready_after [OF evolves_pump_step x(1)])
  moreover have "ends_well Z e x" using x(1) c by (rule pump_step_well)
  ultimately show ?case using x(2) Suc.IH by (cases x) auto
qed simp

section \<open>Time runs out\<close>

lemma pump_step_ticks:
  assumes "settled c"
  shows "settled (snd (pump_step c))" "pu_ticks c \<le> pu_ticks (snd (pump_step c))"
    "pu_env (snd (pump_step c)) = pu_env c" "pu_started (snd (pump_step c)) = pu_started c"
  using evolves_pump_step [of c] assms by (auto simp: evolves_def same_call_def)

lemma pump_step_late:
  assumes "\<And>t. t \<ge> pu_ticks c \<Longrightarrow> ce_clock (pu_env c) t > pu_started c + secs (30 * 60)"
  shows "\<exists>e. fst (pump_step c) = Inl e"
proof -
  have "clock (tock c) - pu_started (tock c) > secs (30 * 60)"
    using assms [of "Suc (pu_ticks c)"] by (simp add: clock_def tock_def)
  then have "\<exists>e d. check_limits c = (Inl e, d)" by (simp add: check_limits_def Let_def)
  then show ?thesis by (auto simp: pump_step_def)
qed

lemma run_late:
  assumes "settled c" "n > limit - pu_ticks c"
    "\<And>t. t \<ge> limit \<Longrightarrow> ce_clock (pu_env c) t > pu_started c + secs (30 * 60)"
  shows "fst (run_call n polls c) \<noteq> Inr None"
  using assms
proof (induction n arbitrary: c)
  case (Suc n)
  let ?c = "tock c"
  have c: "settled ?c" "pu_ticks ?c = Suc (pu_ticks c)" "pu_env ?c = pu_env c" "pu_started ?c = pu_started c"
    using Suc.prems(1) by (simp_all add: settled_def tock_def call_mode_of_def)
  note step = pump_step_ticks [OF c(1)]
  show ?case
  proof (cases "polls (pu_ticks c)")
    case None
    obtain r d where r: "pump_step ?c = (r, d)" by fastforce
    show ?thesis
    proof (cases "r = Inr None")
      case True
      have "\<not> pu_ticks ?c \<ge> limit"
        using pump_step_late [of ?c] Suc.prems(3) c r True by fastforce
      then have n: "n > limit - pu_ticks d" using Suc.prems(2) step(2) r c(2) by simp
      have "fst (run_call n polls d) \<noteq> Inr None"
        by (rule Suc.IH) (use step r c n Suc.prems(3) in auto)
      then show ?thesis using None r True by simp
    next
      case False
      then show ?thesis using None r by (cases r) (auto split: option.split)
    qed
  qed simp
qed simp

section \<open>Samples\<close>

definition no_stats :: t30_stats where
  "no_stats = \<lparr>tt_pages_tx = 1, tt_pages_rx = 0, tt_length = 0, tt_bit_rate = 14400, tt_ecm = 1, tt_width = 0,
     tt_x_resolution = 0, tt_y_resolution = 0, tt_image_length = 0, tt_image_y_resolution = 0, tt_compression = 0\<rparr>"

text \<open>A modem whose state is the log of its completions; it completes at the first tick.\<close>

definition sample_dsp :: "(int list, unit, unit) dsp" where
  "sample_dsp = \<lparr>ds_audio = (\<lambda>_. Inr []), ds_packet = (\<lambda>_. Inr []), ds_configure = (\<lambda>_ _ _. Inr),
     ds_set_ecm = (\<lambda>_. Inr), ds_set_modems = (\<lambda>_. Inr), ds_rx = (\<lambda>_ m. ([], m)),
     ds_tx = (\<lambda>m. ([], [], m)), ds_rx_ifp = (\<lambda>_ _ _ m. (Inr (), [], m)), ds_timeout = (\<lambda>_ m. ([CbPhaseE 0], m @ [0])),
     ds_terminate = (\<lambda>_ m. ([], m)), ds_finalize = (\<lambda>m. (\<lparr>rr_completion = RCompleted 0, rr_confirmed = 0,
       rr_pages = [], rr_output_closed = True, rr_output_errors = [], rr_missing_tail = False,
       rr_unsupported_codec = False\<rparr>, m)),
     ds_stats = (\<lambda>_. no_stats), ds_reason = (\<lambda>_. []), ds_decoder = (\<lambda>_. None), ds_put = (\<lambda>_ _. ()),
     ds_rows = (\<lambda>_. 0), ds_monitor = Inr (), ds_monitor_rx = (\<lambda>_ _ _. ([], ()))\<rparr>"

definition sample_call_env :: "(int list, unit, unit, unit) call_env" where
  "sample_call_env = \<lparr>ce_dsp = sample_dsp, ce_decode = (\<lambda>_ _. 0), ce_encode = (\<lambda>_ _. []), ce_udptl = (\<lambda>_ p _. p),
     ce_parse_udptl = (\<lambda>_. None), ce_recover = (\<lambda>_ _. ([], ())), ce_no_recovery = (), ce_tone = (\<lambda>_. 0),
     ce_cancelled = (\<lambda>_. False), ce_clock = (\<lambda>t. secs t),
     ce_poll = (\<lambda>_. let i = \<lparr>pi_now = 0, pi_later = 0, pi_fresh = [], pi_failure = None, pi_readable = []\<rparr> in (i, i)),
     ce_events = (\<lambda>_. []), ce_invite = (\<lambda>_. None), ce_reinvite = (\<lambda>_. Inr 1), ce_cancel = (\<lambda>_. None),
     ce_datagrams = (\<lambda>_. []), ce_send = (\<lambda>_ _. None), ce_random = (\<lambda>_. [])\<rparr>"

definition sample_call_request :: send_request where
  "sample_call_request = \<lparr>rq_call_mode = MAuto, rq_file = lit ''f'', rq_station = lit ''s'', rq_delay = 200\<rparr>"

definition sample_session :: "(int list, unit, unit) fax_session" where
  "sample_session = \<lparr>fs_state = [], fs_callbacks = callbacks_default\<rparr>"

text \<open>A call that sends its fax over T.38.\<close>

definition sample_pump :: "(int list, unit, unit, unit) pump" where
  "sample_pump = (pump_new sample_call_env sample_call_request (bound 4000 4002) False True)
     \<lparr>pu_connected := Some 0, pu_packets := Some (packet_new 0 (V4 192 0 2 9, 4000) 400 True None, ()),
      pu_fax := Some (FmPackets sample_session)\<rparr>"

text \<open>Equations for evaluation, by cases on the bound instead of patterns.\<close>

lemma packet_receive_code [code]:
  "packet_receive decode recover n inputs s =
     (if n = 0 then (Inr [], s)
      else case inputs of
        (now, Datagram source bytes) # rest \<Rightarrow>
          (case packet_receive_one decode recover now source bytes s of (recovered, s) \<Rightarrow>
             (case packet_receive decode recover (n - 1) rest s of
                (Inr later, s) \<Rightarrow> (Inr (recovered @ later), s) | (Inl e, s) \<Rightarrow> (Inl e, s)))
      | (now, RecvFailed e) # rest \<Rightarrow> (Inl (NIo e), s)
      | _ \<Rightarrow> (Inr [], s))"
  by (cases n; cases inputs rule: list.exhaust) (auto split: received.split sum.split prod.split)

lemma receive_packets_code [code]:
  "receive_packets decode k inputs n =
     (if k = 0 then (Inr (), n)
      else case inputs of
        (now, Datagram source bytes) # rest \<Rightarrow> receive_packets decode (k - 1) rest (receive_datagram decode now source bytes n)
      | (now, RecvFailed e) # rest \<Rightarrow> (Inl (NIo e), n)
      | _ \<Rightarrow> (Inr (), n))"
  by (cases k; cases inputs rule: list.exhaust) (auto split: received.split prod.split)

lemma send_repeated_code [code]:
  "send_repeated k failures len n =
     (if k = 0 then (Inr (), n)
      else case failures 0 of
        Some e \<Rightarrow> (Inl e, n)
      | None \<Rightarrow> send_repeated (k - 1) (\<lambda>i. failures (Suc i)) len (n\<lparr>pn_transmitted := pn_transmitted n + len\<rparr>))"
  by (cases k) (auto split: option.split)

section \<open>Properties\<close>

text \<open>C9: every run of the pump from a new call is a run of the abstract negotiation. It retries the call
  directly only before the answer, offers media only between the answer and the fax, T.38 at most three
  times and audio after T.38, and once a fax runs it has no step left: the last command to the SIP stack
  is the lock of the media.\<close>

theorem pump_refines_negotiation:
  "(negotiates (rq_call_mode rq))\<^sup>*\<^sup>* (Dialling, False, []) (negotiation (snd (run_call n polls (pump_new env rq s receiving ecm)))) \<and>
   settled (snd (run_call n polls (pump_new env rq s receiving ecm))) \<and>
   (fax_kind (snd (run_call n polls (pump_new env rq s receiving ecm))) = None \<or>
    last (signals (snd (run_call n polls (pump_new env rq s receiving ecm)))) = OutSwitch False)"
proof -
  let ?c = "snd (run_call n polls (pump_new env rq s receiving ecm))"
  obtain p b where p: "negotiation ?c = (p, b, signals ?c)" by (simp add: negotiation_def)
  have "last (signals ?c) = OutSwitch False" if "fax_kind ?c = Some k" for k
    using negotiation_run_ok [where rq = rq and n = n and polls = polls and env = env and s = s and receiving = receiving and ecm = ecm] that phase_fax [of ?c k] p by simp
  then show ?thesis using negotiation_run [where rq = rq and n = n and polls = polls and env = env and s = s and receiving = receiving and ecm = ecm] by (cases "fax_kind ?c") auto
qed

text \<open>C11: over a whole call at most three re-INVITEs offer T.38, at most one restores audio, at most one
  direct retry is made, media switching is locked exactly when the fax runs, calls in a fixed mode make
  no offers, and an automatic call that faxes over audio offered T.38 before.\<close>

theorem call_commands_bounded:
  "let c = snd (run_call n polls (pump_new env rq s receiving ecm)); ss = signals c; mode = rq_call_mode rq
   in commands (OutReinvite KT38) ss \<le> 3 \<and> commands (OutReinvite KAudio) ss \<le> 1 \<and>
      commands (OutInvite KT38) ss \<le> 1 \<and> commands (OutInvite KAudio) ss = 0 \<and>
      commands (OutSwitch False) ss = of_bool (fax_kind c \<noteq> None) \<and>
      (mode = MAuto \<or> commands (OutReinvite KT38) ss + commands (OutReinvite KAudio) ss = 0) \<and>
      (mode \<noteq> MAuto \<or> fax_kind c \<noteq> Some KAudio \<or> commands (OutReinvite KT38) ss \<ge> 1) \<and>
      (mode \<noteq> MT38 \<or> fax_kind c \<noteq> Some KAudio)"
proof -
  let ?c = "snd (run_call n polls (pump_new env rq s receiving ecm))"
  have ok: "negotiation_ok (rq_call_mode rq) (negotiation ?c)" by (rule negotiation_run_ok)
  obtain p b where p: "negotiation ?c = (p, b, signals ?c)" by (simp add: negotiation_def)
  have fax: "p = Faxing k \<longleftrightarrow> fax_kind ?c = Some k" for k using phase_fax [of ?c k] p by simp
  then have locked: "(\<exists>k. p = Faxing k) \<longleftrightarrow> fax_kind ?c \<noteq> None" by auto
  have "t38_offers p n \<Longrightarrow> n \<le> 3" "audio_offers p n \<Longrightarrow> n \<le> 1" for n
    by (auto simp: t38_offers_def audio_offers_def split: phase.splits)
  with ok fax locked show ?thesis
    unfolding p Let_def negotiation_ok.simps within_mode_def by (cases b) auto
qed

text \<open>A call in audio mode offers nothing.\<close>

lemma call_commands_bounded_witness:
  "commands (OutReinvite KT38) (signals (snd (run_call 5 (\<lambda>_. None)
     (pump_new sample_call_env \<lparr>rq_call_mode = MG711, rq_file = lit ''f'', rq_station = lit ''s'', rq_delay = 200\<rparr>
        (bound 4000 4002) False True)))) = 0"
  using call_commands_bounded [of 5 "\<lambda>_. None" sample_call_env
      "\<lparr>rq_call_mode = MG711, rq_file = lit ''f'', rq_station = lit ''s'', rq_delay = 200\<rparr>" "bound 4000 4002" False True]
  by (simp add: Let_def)

text \<open>C12: once a fax runs, its transport is final. Whatever events, answers to offers and media the rest
  of the call brings, the kind of the fax stays, no command goes to the SIP stack any more, no network
  appears or goes, the UDPTL network keeps the peer's host and its largest datagram, and the remote
  description stays, but for an audio fax that the peer moves to another RTP address or codec.\<close>

theorem fax_transport_is_final:
  assumes "settled c" "fax_kind c = Some k"
  shows "let d = snd (run_call n polls c)
         in fax_kind d = Some k \<and> signals d = signals c \<and> (pu_audio d = None) = (pu_audio c = None) \<and>
            map_option wire (pu_packets d) = map_option wire (pu_packets c) \<and>
            (pu_remote d = pu_remote c \<or> k = KAudio \<and> audio_remote d)"
proof -
  let ?d = "snd (run_call n polls c)"
  have run: "(negotiates (call_mode_of c))\<^sup>*\<^sup>* (negotiation c) (negotiation ?d)" "keeps_transport c ?d"
    using evolves_run [of c n polls] assms(1) by (simp_all add: evolves_def)
  have same: "negotiation ?d = negotiation c" by (rule negotiates_faxing [OF run(1)]) (simp add: phase_fax assms(2))
  then have "fax_kind ?d = Some k" using assms(2) by (metis phase_fax)
  moreover have "signals ?d = signals c" using same by (simp add: negotiation_def)
  ultimately show ?thesis
    using run(2) assms(2) by (auto simp: keeps_transport_def same_transport_def networks_def)
qed

lemma fax_transport_is_final_witness:
  "fax_kind (snd (run_call 2 (\<lambda>_. None) sample_pump)) = Some KT38 \<and>
   pu_remote (snd (run_call 2 (\<lambda>_. None) sample_pump)) = None \<and>
   map_option wire (pu_packets (snd (run_call 2 (\<lambda>_. None) sample_pump))) = Some (400, V4 192 0 2 9)"
proof -
  have "settled sample_pump" "fax_kind sample_pump = Some KT38" "pu_remote sample_pump = None"
    "map_option wire (pu_packets sample_pump) = Some (400, V4 192 0 2 9)"
    by (simp_all add: settled_def sample_pump_def pump_new_def is_waiting_def call_mode_of_def sample_call_request_def
        fax_kind_def wire_def packet_new_def peer_new_def)
  then show ?thesis
    using fax_transport_is_final [of sample_pump KT38 2 "\<lambda>_. None"] by (simp only: Let_def media_kind.simps) simp
qed

text \<open>The completion code of a running fax that has not been reported yet.\<close>

definition completion_pending :: "('m, 'd, 'k, 'r) pump \<Rightarrow> int option" where
  "completion_pending c = (case pu_fax c of None \<Rightarrow> None | Some m \<Rightarrow> cb_completion (fs_callbacks (modem m)))"

text \<open>C13: a call reports a sent fax only after SpanDSP reported phase E with code 0. For a run from a
  call whose fax has not completed (a new call, in particular) and anything \<open>Z\<close> that SpanDSP's state
  satisfies from the report of code 0 on: when the run returns statistics, \<open>Z\<close> holds of the state, the
  statistics are the ones SpanDSP has there, and the last thing reported is the completion with them.\<close>

theorem success_only_on_completion:
  assumes "settled c" "completion_pending c = None" "completion_closed (ce_dsp (pu_env c)) Z"
    "run_call n polls c = (Inr (Some stats), d)"
  shows "pu_out d \<noteq> [] \<and> last (pu_out d) = OutProgress (EvCompleted (Inr stats)) \<and>
         (\<exists>m. pu_fax d = Some m \<and> Z (fs_state (modem m)) \<and>
              stats = statistics (ds_stats (ce_dsp (pu_env c)) (fs_state (modem m))))"
proof -
  have "sound Z c"
    using assms(2,3) by (auto simp: sound_def sound_session_def completion_pending_def dsp_of_def)
  then have well: "ends_well Z d (Some stats)" using assms(1,4) by (auto simp: ready_def intro: run_call_well)
  have "pu_env d = pu_env c"
    using evolves_run [of c n polls] assms(1,4) by (simp add: evolves_def same_call_def)
  with well show ?thesis by (auto simp: ends_well_def proven_def dsp_of_def)
qed

text \<open>The modem of the sample keeps a log; the report of success finds code 0 in it.\<close>

lemma success_only_on_completion_witness:
  "\<exists>m. pu_fax (snd (run_call 1 (\<lambda>_. None) sample_pump)) = Some m \<and> 0 \<in> set (fs_state (modem m))"
proof -
  have returns: "fst (run_call 1 (\<lambda>_. None) sample_pump) = Inr (Some (statistics no_stats))" by code_simp
  have start: "settled sample_pump" "completion_pending sample_pump = None"
    by (simp_all add: settled_def sample_pump_def pump_new_def is_waiting_def call_mode_of_def sample_call_request_def
        completion_pending_def modem_def sample_session_def callbacks_default_def)
  have "completion_closed (ce_dsp (pu_env sample_pump)) (\<lambda>log. 0 \<in> set log)"
    by (simp add: sample_pump_def pump_new_def sample_call_env_def sample_dsp_def completion_closed_def closes_def)
  then show ?thesis
    using success_only_on_completion [OF start, of "\<lambda>log. 0 \<in> set log" 1 "\<lambda>_. None" "statistics no_stats"
        "snd (run_call 1 (\<lambda>_. None) sample_pump)"] returns
    by (metis prod.collapse)
qed

text \<open>C10: every call ends: when the clock passes every bound, some number of steps suffices whatever the
  peer, the sockets and the modem do.\<close>

theorem call_ends:
  assumes "\<And>b. \<exists>t. \<forall>t' \<ge> t. ce_clock env t' > b"
  shows "\<exists>n. \<forall>polls. fst (run_call n polls (pump_new env rq s receiving ecm)) \<noteq> Inr None"
proof -
  let ?c = "pump_new env rq s receiving ecm"
  obtain t where t: "\<forall>t' \<ge> t. ce_clock env t' > pu_started ?c + secs (30 * 60)" using assms by blast
  have "fst (run_call (Suc t) polls ?c) \<noteq> Inr None" for polls
    by (rule run_late [OF settled_new, where limit = t]) (use t in \<open>simp_all add: pump_new_def\<close>)
  then show ?thesis by blast
qed

lemma call_ends_witness:
  "\<exists>n. \<forall>polls. fst (run_call n polls (pump_new sample_call_env sample_call_request (bound 4000 4002) False True)) \<noteq> Inr None"
proof (rule call_ends)
  fix b :: nat
  have "ce_clock sample_call_env t' > b" if "t' \<ge> Suc b" for t'
    using that by (simp add: sample_call_env_def secs_def)
  then show "\<exists>t. \<forall>t' \<ge> t. ce_clock sample_call_env t' > b" by blast
qed

end
