(* ===== verification/ServiceProps.thy ===== *)
theory ServiceProps
  imports ServiceSteps CallProps
begin

text \<open>
  What the SIP service promises: every send is answered exactly once, every persisted admission is closed
  at most once and exactly once while the service runs, capacities hold, an admission reads as pending
  exactly while its answer is accepted, and no admission outlives its deadline.
\<close>

section \<open>The end\<close>

text \<open>Reports made, calls, sends and queue unchanged.\<close>

definition tells :: "(nat \<Rightarrow> nat) \<Rightarrow> (uuid \<Rightarrow> nat) \<Rightarrow> ('m, 'd, 'k, 'r) service \<Rightarrow> ('m, 'd, 'k, 'r) service \<Rightarrow> bool" where
  "tells A C s t \<longleftrightarrow>
     sv_env t = sv_env s \<and> sv_options t = sv_options s \<and> sv_ticks s \<le> sv_ticks t \<and>
     call_roles t = call_roles s \<and> sv_admission t = sv_admission s \<and> waiting_replies t = waiting_replies s \<and>
     sv_queue t = sv_queue s \<and> length (sv_available t) \<le> length (sv_available s) \<and>
     (\<forall>r. answered r t = answered r s + A r) \<and> (\<forall>i. closed i t = closed i s + C i)"

lemma effect_tells: "effect A C 0 s t \<Longrightarrow> tells A C s t \<and> sv_waiting t = sv_waiting s"
  by (simp add: effect_def tells_def)

lemma plain_tells: "plain s t \<Longrightarrow> tells (\<lambda>_. 0) (\<lambda>_. 0) s t \<and> sv_waiting t = sv_waiting s"
  by (simp add: plain_effect effect_tells)

lemma tells_trans: "tells A C s t \<Longrightarrow> tells B D t u \<Longrightarrow> tells (\<lambda>r. A r + B r) (\<lambda>i. C i + D i) s u"
  by (auto simp: tells_def)

lemma end_admission_tells:
  "tells (\<lambda>_. 0) (\<lambda>_. 0) s (end_admission (j, a) s) \<and>
   sv_waiting (end_admission (j, a) s) = AList.update j False (sv_waiting s)"
proof -
  have "plain (invalidate j s) (end_admission (j, a) s)"
    unfolding end_admission_def prod.case by (intro plain_intros plain_refl)
  then show ?thesis
    by (simp add: plain_def tells_def invalidate_def call_roles_def waiting_replies_def answered_def closed_def)
qed

lemma end_admissions_tell:
  "tells (\<lambda>_. 0) (\<lambda>_. 0) s (fold end_admission as s) \<and>
   (\<forall>i. map_of (sv_waiting (fold end_admission as s)) i = (if i \<in> fst ` set as then Some False else map_of (sv_waiting s) i)) \<and>
   fst ` set (sv_waiting (fold end_admission as s)) = fst ` set as \<union> fst ` set (sv_waiting s)"
proof (induction as arbitrary: s)
  case (Cons x as)
  obtain j a where x: "x = (j, a)" by fastforce
  let ?t = "end_admission (j, a) s"
  note t = end_admission_tells [of s j a] and ih = Cons [of ?t]
  have "tells (\<lambda>_. 0) (\<lambda>_. 0) s (fold end_admission as ?t)"
    using tells_trans [OF conjunct1 [OF t] conjunct1 [OF ih]] by simp
  moreover have "map_of (sv_waiting (fold end_admission as ?t)) i =
      (if i \<in> fst ` set ((j, a) # as) then Some False else map_of (sv_waiting s) i)" for i
    using t ih by (simp add: map_of_invalidate)
  moreover have "fst ` set (sv_waiting (fold end_admission as ?t)) = fst ` set ((j, a) # as) \<union> fst ` set (sv_waiting s)"
    using t ih by simp
  ultimately show ?case by (simp add: x)
qed (simp add: tells_def)

lemma end_calls_tell:
  "tells (\<lambda>r. length (filter (\<lambda>(i, inc, rep). inc = None \<and> rep = Some r) (map call_role cs)))
     (\<lambda>i. length (filter (\<lambda>(j, inc, rep). inc = Some i) (map call_role cs))) s
     (fold (\<lambda>(i, c). close_call outcome c) cs s) \<and>
   sv_waiting (fold (\<lambda>(i, c). close_call outcome c) cs s) = sv_waiting s"
proof (induction cs arbitrary: s)
  case (Cons x cs)
  obtain i c where x: "x = (i, c)" by fastforce
  note e = effect_tells [OF close_call_effect [of c s outcome]]
  from tells_trans [OF conjunct1 [OF e] conjunct1 [OF Cons [of "close_call outcome c s"]]] Cons [of "close_call outcome c s"] e
  show ?case by (auto simp: x tells_def call_role_def)
qed (simp add: tells_def)

lemma abandon_tells:
  "tells (\<lambda>r. length (filter (is_send r) q)) (\<lambda>_. 0) s (fold abandon_command q s) \<and>
   sv_waiting (fold abandon_command q s) = sv_waiting s"
proof (induction q arbitrary: s)
  case (Cons x q)
  have "tells (\<lambda>r. of_bool (is_send r x)) (\<lambda>_. 0) s (abandon_command x s) \<and> sv_waiting (abandon_command x s) = sv_waiting s"
    by (cases x; cases "snd x") (auto simp: abandon_command_def tells_def is_send_def emit_def call_roles_def
        waiting_replies_def answered_def closed_def)
  from tells_trans [OF conjunct1 [OF this] conjunct1 [OF Cons [of "abandon_command x s"]]] Cons [of "abandon_command x s"] this
  show ?case by (auto simp: tells_def)
qed (simp add: tells_def)

lemma wind_down_settles:
  fixes s :: "('m, 'd, 'k, 'r) service"
  assumes "good s"
  shows "good (wind_down outcome s) \<and> sv_ended (wind_down outcome s) \<and> sv_env (wind_down outcome s) = sv_env s \<and>
    sv_calls (wind_down outcome s) = [] \<and> sv_pending (wind_down outcome s) = [] \<and> sv_queue (wind_down outcome s) = [] \<and>
    sv_admission (wind_down outcome s) = [] \<and> sv_options (wind_down outcome s) = sv_options s \<and>
    (\<forall>r. answered r (wind_down outcome s) = answered r s + owed r s) \<and>
    (\<forall>i. closed i (wind_down outcome s) = closed i s + held i s)"
proof -
  let ?a = "s\<lparr>sv_connectors := [], sv_admission := []\<rparr>"
  define b where "b = fold end_admission (sv_admission s) ?a"
  define c where "c = fold (\<lambda>(i, c). close_call (Inl (end_error outcome)) c) (sv_calls b) (b\<lparr>sv_available := [], sv_calls := []\<rparr>)"
  define d where "d = fold (finish_send NCancelled) (sv_pending c) (c\<lparr>sv_pending := []\<rparr>)"
  define e where "e = fold abandon_command (sv_queue d) (d\<lparr>sv_queue := []\<rparr>)"
  define f where "f = fold retire_connection (map snd (sv_connections e)) (e\<lparr>sv_connections := []\<rparr>)"
  define g where "g = f\<lparr>sv_retired := [], sv_call_ids := [], sv_workers := 0, sv_ended := True\<rparr>"
  have w: "wind_down outcome s = (case outcome of Inl e \<Rightarrow> emit (SoEvent (ReStatus None (RsError (show_native_error e)))) g | Inr _ \<Rightarrow> g)"
    by (simp only: wind_down_def Let_def b_def c_def d_def e_def f_def g_def)
  have tb: "tells (\<lambda>_. 0) (\<lambda>_. 0) ?a b" using end_admissions_tell [of ?a "sv_admission s"] by (simp add: b_def)
  have tc: "tells (\<lambda>r. length (filter (\<lambda>(i, inc, rep). inc = None \<and> rep = Some r) (call_roles b)))
      (\<lambda>i. held i b) (b\<lparr>sv_available := [], sv_calls := []\<rparr>) c" "sv_waiting c = sv_waiting b"
    using end_calls_tell [of "sv_calls b" "b\<lparr>sv_available := [], sv_calls := []\<rparr>" "Inl (end_error outcome)"]
    by (simp_all add: c_def held_def call_roles_def)
  have td: "tells (\<lambda>r. length (filter (\<lambda>p. ps_reply p = r) (sv_pending c))) (\<lambda>_. 0) (c\<lparr>sv_pending := []\<rparr>) d" "sv_waiting d = sv_waiting c"
    using effect_tells [OF finish_sends_effect [of "sv_pending c" "c\<lparr>sv_pending := []\<rparr>" NCancelled]] by (simp_all add: d_def)
  have te: "tells (\<lambda>r. length (filter (is_send r) (sv_queue d))) (\<lambda>_. 0) (d\<lparr>sv_queue := []\<rparr>) e" "sv_waiting e = sv_waiting d"
    using abandon_tells [of "sv_queue d" "d\<lparr>sv_queue := []\<rparr>"] by (simp_all add: e_def)
  have "plain (e\<lparr>sv_connections := []\<rparr>) f" unfolding f_def by (rule plain_fold) (simp_all add: plain_retire_connection)
  then have tf: "tells (\<lambda>_. 0) (\<lambda>_. 0) e f" "sv_waiting f = sv_waiting e"
    using plain_tells [of "e\<lparr>sv_connections := []\<rparr>" f]
    by (simp_all add: tells_def call_roles_def waiting_replies_def answered_def closed_def)
  have count: "length (filter (\<lambda>p. ps_reply p = r) (sv_pending t)) = length (filter (\<lambda>q. q = r) (waiting_replies t))"
    for r and t :: "('m, 'd, 'k, 'r) service" by (simp add: waiting_replies_def filter_map comp_def)
  have sums: "answered r g = answered r s + owed r s" "closed i g = closed i s + held i s" for r i
    using tb tc td te tf
    by (simp_all add: tells_def g_def owed_def obliged_def held_def count answered_def closed_def call_roles_def waiting_replies_def)
  have empty: "call_roles g = []" "waiting_replies g = []" "sv_queue g = []" "sv_admission g = []" "sv_env g = sv_env s"
    "sv_options g = sv_options s" "sv_call_ids g = []" "sv_available g = []" "sv_ended g" "sv_ticks s \<le> sv_ticks g"
    "sv_waiting g = sv_waiting b"
    using tb tc td te tf by (simp_all add: tells_def g_def call_roles_def waiting_replies_def)
  have k: "tables (call_roles s) (admission_roles s) (sv_call_ids s) (sv_waiting s) (drawn_before s)"
    using assms by (simp add: good_def tables_ok_def)
  have ws: "map_of (sv_waiting b) i = (if i \<in> fst ` set (sv_admission s) then Some False else map_of (sv_waiting s) i)"
    "fst ` set (sv_waiting b) = fst ` set (sv_admission s) \<union> fst ` set (sv_waiting s)" for i
    using end_admissions_tell [of ?a "sv_admission s"] by (simp_all add: b_def)
  have drawn: "drawn_before s \<subseteq> drawn_before g" using empty by (simp add: drawn_before_mono)
  have flags: "map_of (sv_waiting b) i \<noteq> Some True" for i
    using tablesD(11) [OF k] by (simp add: ws fst_admission_roles)
  have "fst ` set (sv_waiting b) \<subseteq> drawn_before g"
    using tablesD(7,8) [OF k] drawn unfolding ws fst_admission_roles by blast
  then have tab: "tables_ok g"
    by (simp add: tables_ok_def tables_def empty live_def admission_roles_def flags)
  have "good g" using tab assms by (simp add: good_def limits_ok_def outgoing_roles_def empty)
  then have goal: "good g \<and> sv_ended g \<and> sv_env g = sv_env s \<and> sv_calls g = [] \<and> sv_pending g = [] \<and> sv_queue g = [] \<and>
      sv_admission g = [] \<and> sv_options g = sv_options s \<and> (\<forall>r. answered r g = answered r s + owed r s) \<and>
      (\<forall>i. closed i g = closed i s + held i s)"
    using empty sums by (simp add: call_roles_def waiting_replies_def)
  show ?thesis
  proof (cases outcome)
    case (Inl err)
    have "good (emit (SoEvent (ReStatus p st)) g) = good g" for p st
      by (simp add: good_def tables_ok_def limits_ok_def outgoing_roles_def drawn_before_def emit_def call_roles_def
          admission_roles_def waiting_replies_def)
    with goal Inl show ?thesis unfolding w by (simp add: emit_def answered_def closed_def)
  next
    case (Inr u)
    with goal show ?thesis unfolding w by simp
  qed
qed

section \<open>The machine\<close>

definition service_sound :: "('m, 'd, 'k, 'r) service \<Rightarrow> bool" where
  "service_sound s \<longleftrightarrow>
     good s \<and> (sv_ended s \<longrightarrow> sv_calls s = [] \<and> sv_pending s = [] \<and> sv_queue s = [] \<and> sv_admission s = [])"

text \<open>The commands of one kind that the service took.\<close>

primrec accepted ::
  "(nat \<times> command \<Rightarrow> bool) \<Rightarrow> (nat \<times> command) list list \<Rightarrow> ('m, 'd, 'k, 'r) service \<Rightarrow> nat" where
  "accepted P [] s = 0"
| "accepted P (b # bs) s =
     (if sv_ended s then 0 else length (filter P b)) + accepted P bs (service_step b s)"

lemma serves_ended: "serves s t \<Longrightarrow> sv_ended t = sv_ended s"
  by (simp add: serves_def)

lemma iterate_cases:
  assumes "good s" "\<not> sv_ended s"
  obtains (goes) "good (iterate s)" "\<not> sv_ended (iterate s)" "sv_env (iterate s) = sv_env s"
      "sv_options (iterate s) = sv_options s"
      "\<forall>r. answered r (iterate s) + owed r (iterate s) = answered r s + owed r s"
      "\<forall>i. closed i (iterate s) + receptions i (iterate s) = closed i s + receptions i s"
    | (ends) u outcome where "iterate s = wind_down outcome u" "good u" "sv_env u = sv_env s" "sv_options u = sv_options s"
      "\<forall>r. answered r u + owed r u = answered r s + owed r s"
      "\<forall>i. closed i u + receptions i u = closed i s + receptions i s"
proof -
  obtain r u where l: "loop_body s = (r, u)" by fastforce
  have sv: "serves s u" using loop_body_serves [of s] by (simp add: l)
  consider (Error) e where "r = Inl e" | (Stop) "r = Inr True" | (Go) "r = Inr False"
    by (metis (full_types) sum.exhaust)
  then show ?thesis
  proof cases
    case Go
    then have "iterate s = u" using l by (simp add: iterate_def)
    with sv assms goes show ?thesis by (simp add: serves_def)
  next
    case Stop
    then have "iterate s = wind_down (Inr ()) u" using l by (simp add: iterate_def)
    with sv assms ends show ?thesis by (simp add: serves_def)
  next
    case (Error e)
    then have "iterate s = wind_down (Inl e) u" using l by (simp add: iterate_def)
    with sv assms ends show ?thesis by (simp add: serves_def)
  qed
qed

lemma iterate_books:
  assumes "good s" "\<not> sv_ended s"
  shows "service_sound (iterate s) \<and> sv_env (iterate s) = sv_env s \<and> sv_options (iterate s) = sv_options s \<and>
    (\<forall>r. answered r (iterate s) + owed r (iterate s) = answered r s + owed r s) \<and>
    (\<forall>i. closed i (iterate s) + receptions i (iterate s) \<le> closed i s + receptions i s) \<and>
    (\<not> sv_ended (iterate s) \<longrightarrow>
      (\<forall>i. closed i (iterate s) + receptions i (iterate s) = closed i s + receptions i s))"
  using assms
proof (cases rule: iterate_cases)
  case goes
  then show ?thesis by (simp add: service_sound_def)
next
  case (ends u outcome)
  note w = wind_down_settles [OF ends(2), of outcome, folded ends(1)]
  then have "owed r (iterate s) = 0" "receptions i (iterate s) = 0" for r i
    by (simp_all add: owed_def obliged_def receptions_def held_def call_roles_def waiting_replies_def)
  moreover have "closed i u + held i u \<le> closed i s + receptions i s" for i
    using ends(6) by (metis add_le_cancel_left le_add1 receptions_def)
  ultimately show ?thesis using w ends by (simp add: service_sound_def)
qed

lemma enqueue_fields:
  "good (s\<lparr>sv_queue := sv_queue s @ b\<rparr>) = good s"
  "owed r (s\<lparr>sv_queue := sv_queue s @ b\<rparr>) = owed r s + length (filter (is_send r) b)"
  "receptions i (s\<lparr>sv_queue := sv_queue s @ b\<rparr>) = receptions i s + length (filter (is_admit i) b)"
  by (simp_all add: owed_def receptions_def)

lemma step_books:
  assumes "service_sound s" "\<not> sv_ended s" and t_def: "t = service_step b s"
  shows "service_sound t \<and> sv_env t = sv_env s \<and> sv_options t = sv_options s \<and>
    (\<forall>r. answered r t + owed r t = answered r s + owed r s + length (filter (is_send r) b)) \<and>
    (\<forall>i. closed i t + receptions i t \<le> closed i s + receptions i s + length (filter (is_admit i) b)) \<and>
    (\<not> sv_ended t \<longrightarrow>
      (\<forall>i. closed i t + receptions i t = closed i s + receptions i s + length (filter (is_admit i) b)))"
proof -
  let ?q = "s\<lparr>sv_queue := sv_queue s @ b\<rparr>"
  have q: "good ?q" "\<not> sv_ended ?q" using assms by (simp_all add: service_sound_def enqueue_fields)
  let ?w = "pass (?q\<lparr>sv_idle := False, sv_last_tick := time ?q\<rparr>)"
  have "plain ?q ?w" by (intro plain_intros plain_refl)
  then have w: "serves ?q ?w" by (rule plain_serves)
  then have gw: "good ?w" "\<not> sv_ended ?w" using q by (simp_all add: serves_def)
  have eq: "answered r ?w + owed r ?w = answered r s + owed r s + length (filter (is_send r) b)"
    "closed i ?w + receptions i ?w = closed i s + receptions i s + length (filter (is_admit i) b)" for r i
    using w q(1) unfolding serves_def enqueue_fields by simp_all
  consider (wait) "sv_queue ?q = []" "t = ?q" | (wake) "t = iterate ?w" | (run) "t = iterate ?q"
    using assms(2) unfolding t_def service_step_def Let_def
    by (cases "sv_idle s"; cases "sv_queue s @ b = []") auto
  then show ?thesis
  proof cases
    case wait
    then have "t = s" "b = []" by (cases s; simp)+
    then show ?thesis using assms(1,2) by simp
  next
    case wake
    from iterate_books [OF gw, folded wake] w show ?thesis unfolding eq by (simp add: serves_def)
  next
    case run
    from iterate_books [OF q, folded run] show ?thesis by (simp add: enqueue_fields add.assoc)
  qed
qed

lemma ended_step: "sv_ended s \<Longrightarrow> service_step b s = s"
  by (simp add: service_step_def)

interpretation sip_service: labelled_system service_step service_sound "\<lambda>_ _. True"
proof unfold_locales
  show "service_sound s \<Longrightarrow> service_sound (service_step b s)" for s b
    using step_books [of s "service_step b s" b] ended_step [of s b] by (cases "sv_ended s") simp_all
qed

lemma service_ended_run: "sv_ended s \<Longrightarrow> run service_step bs s = s \<and> accepted P bs s = 0"
  by (induction bs) (simp_all add: ended_step)

lemma run_books:
  "service_sound s \<Longrightarrow>
    answered r (run service_step bs s) + owed r (run service_step bs s) = answered r s + owed r s + accepted (is_send r) bs s \<and>
    closed i (run service_step bs s) + receptions i (run service_step bs s) \<le>
      closed i s + receptions i s + accepted (is_admit i) bs s \<and>
    (\<not> sv_ended (run service_step bs s) \<longrightarrow>
      closed i (run service_step bs s) + receptions i (run service_step bs s) =
      closed i s + receptions i s + accepted (is_admit i) bs s)"
proof (induction bs arbitrary: s)
  case (Cons b bs)
  show ?case
  proof (cases "sv_ended s")
    case True
    then show ?thesis using service_ended_run [OF True] by (simp add: ended_step)
  next
    case False
    from step_books [OF Cons.prems False refl, of b] Cons.IH [of "service_step b s"] service_ended_run [of "service_step b s" bs] False
    show ?thesis by (cases "sv_ended (service_step b s)") (auto dest: spec [of _ r] spec [of _ i])
  qed
qed simp

lemma sound_new: "inj (se_uuid env) \<Longrightarrow> service_sound (service_new env opts)"
  by (simp add: service_sound_def good_def tables_ok_def tables_def limits_ok_def outgoing_roles_def service_new_def
      call_roles_def admission_roles_def waiting_replies_def live_def)

lemma new_fields [simp]:
  "answered r (service_new env opts) = 0" "closed i (service_new env opts) = 0" "owed r (service_new env opts) = 0"
  "receptions i (service_new env opts) = 0"
  by (simp_all add: service_new_def answered_def closed_def owed_def obliged_def receptions_def held_def call_roles_def
      waiting_replies_def)

section \<open>A sample service\<close>

definition sample_account :: service_account where
  "sample_account =
     \<lparr>sa_id = lit ''a'', sa_server = lit ''host'', sa_port = 5060, sa_transport = SigUdp, sa_username = lit ''me'',
      sa_auth_username = None, sa_password = None, sa_register = False, sa_outbound_proxy = None,
      sa_playout_delay = 200, sa_automatic_nat = False, sa_stun_server = None\<rparr>"

definition sample_service_env :: "(int list, unit, unit, unit) service_env" where
  "sample_service_env =
     \<lparr>se_clock = (\<lambda>n. n), se_uuid = (\<lambda>n. [n]), se_session = (\<lambda>_. 1), se_fails = (\<lambda>_. None),
      se_disconnected = (\<lambda>_. False), se_cancelled = (\<lambda>_ _. False), se_call = (\<lambda>_. sample_call_env),
      se_port = (\<lambda>_. Inr 5060), se_local_ip = (\<lambda>_. Inr (V4 192 0 2 1)), se_registration = (\<lambda>_. []),
      se_flow_closed = (\<lambda>_. False), se_worker_done = (\<lambda>_. False), se_connector = (\<lambda>_. CrEmpty),
      se_bind = (\<lambda>_ _. \<lparr>br_audio = Inr 4000, br_rtcp = True, br_fax = Inr 4002, br_setup = None\<rparr>),
      se_fresh = (\<lambda>_. (([], []), ((0, 0), (0, 0)))),
      se_poll = (\<lambda>_. let i = \<lparr>pi_now = 0, pi_later = 0, pi_fresh = [], pi_failure = None, pi_readable = []\<rparr> in (i, i)),
      se_tls_deadline = (\<lambda>_ _. 0), se_invites = (\<lambda>_. [])\<rparr>"

definition sample_options :: service_options where
  "sample_options = \<lparr>so_limits = default_limits, so_timeout = secs 30\<rparr>"

definition sample_fax :: service_send where
  "sample_fax =
     \<lparr>ss_account = sample_account, ss_destination = lit ''1'', ss_file = lit ''f'', ss_station_id = lit ''s'', ss_mode = MAuto\<rparr>"

text \<open>Two sends, of which the limit of one admits the first, an admission that is not known, and the end.\<close>

definition sample_arrivals :: "(nat \<times> command) list list" where
  "sample_arrivals = [[(7, CmSend sample_fax), (8, CmSend sample_fax), (0, CmAdmit [5] (Inr (lit ''f''))), (0, CmStop)]]"

lemma sample_inj: "inj (se_uuid sample_service_env)"
  by (simp add: inj_def sample_service_env_def)

section \<open>Reachable services\<close>

lemma sound_run:
  "inj (se_uuid env) \<Longrightarrow> service_sound (run service_step arrivals (service_new env opts))"
  by (rule sip_service.inv_run_always) (simp_all add: sound_new)

lemma env_run:
  "sv_env (run service_step bs s) = sv_env s \<and> sv_options (run service_step bs s) = sv_options s"
  if "service_sound s" for s :: "('m, 'd, 'k, 'r) service"
  using that
proof (induction bs arbitrary: s)
  case (Cons b bs)
  have "sv_env (service_step b s) = sv_env s \<and> sv_options (service_step b s) = sv_options s"
    using step_books [OF Cons.prems _ refl, of b] ended_step [of s b] by (cases "sv_ended s") simp_all
  with Cons.IH [of "service_step b s"] sip_service.inv_step [OF Cons.prems] show ?case by simp
qed simp

lemma options_run:
  "inj (se_uuid env) \<Longrightarrow> sv_options (run service_step bs (service_new env opts)) = opts"
  using env_run [OF sound_new, of env bs opts] by (simp add: service_new_def)

lemma outgoing_count_roles: "outgoing_count s = outgoing_roles s"
  by (simp add: outgoing_count_def outgoing_roles_def call_roles_def waiting_replies_def call_role_def filter_map
      comp_def case_prod_unfold)

text \<open>The ids of incoming calls are those of admissions and of admitted calls.\<close>

lemma incoming_ids:
  assumes "good s"
  shows "length (sv_call_ids s) = length (filter (\<lambda>(i, c). cl_incoming c \<noteq> None) (sv_calls s)) + length (sv_admission s)"
proof -
  have k: "tables (call_roles s) (admission_roles s) (sv_call_ids s) (sv_waiting s) (drawn_before s)"
    using assms by (simp add: good_def tables_ok_def)
  let ?cs = "filter (\<lambda>x. fst (snd x) \<noteq> None) (call_roles s)"
  have count: "length xs = card (fst ` set xs)" if "distinct (map fst xs)" for xs :: "(uuid \<times> 'z) list"
    using distinct_card [OF that] by simp
  have "fst ` set (sv_call_ids s) = fst ` set ?cs \<union> fst ` set (admission_roles s)"
    using tablesD(10) [OF k] by (simp add: live_def)
  moreover have "fst ` set ?cs \<inter> fst ` set (admission_roles s) = {}" using tablesD(3) [OF k] by auto
  moreover have "distinct (map fst ?cs)" using tablesD(1) [OF k] by (simp add: distinct_map_filter)
  ultimately have "length (sv_call_ids s) = length ?cs + length (admission_roles s)"
    using count [OF tablesD(9) [OF k]] count [of ?cs] count [OF tablesD(2) [OF k]] by (simp add: card_Un_disjoint)
  then show ?thesis
    by (simp add: call_roles_def admission_roles_def call_role_def filter_map comp_def case_prod_unfold)
qed

section \<open>Properties\<close>

text \<open>C5: every send the service takes is answered with exactly one final report. After any arrivals of
  commands, whatever the peers, the connections and the clock do, the final reports made on a reply
  channel and the sends that still wait for one are together exactly the sends taken with that channel,
  and once the service has ended none waits.\<close>

theorem sends_answered_once:
  assumes "inj (se_uuid env)"
  shows "let s = run service_step arrivals (service_new env opts)
    in answered r s + owed r s = accepted (is_send r) arrivals (service_new env opts) \<and> (sv_ended s \<longrightarrow> owed r s = 0)"
proof -
  let ?s = "run service_step arrivals (service_new env opts)"
  have "sv_ended ?s \<Longrightarrow> owed r ?s = 0" using sound_run [OF assms, of arrivals opts]
    by (simp add: service_sound_def owed_def obliged_def call_roles_def waiting_replies_def)
  with run_books [OF sound_new [OF assms], of r arrivals opts] show ?thesis by (simp add: Let_def)
qed

text \<open>Two sends compete for one line when the service is stopped: each is answered once.\<close>

lemma sends_answered_once_witness:
  "answered 7 (run service_step sample_arrivals (service_new sample_service_env sample_options)) = 1 \<and>
   answered 8 (run service_step sample_arrivals (service_new sample_service_env sample_options)) = 1"
proof -
  let ?s = "run service_step sample_arrivals (service_new sample_service_env sample_options)"
  have "sv_ended ?s" by code_simp
  moreover have "accepted (is_send 7) sample_arrivals (service_new sample_service_env sample_options) = 1"
    "accepted (is_send 8) sample_arrivals (service_new sample_service_env sample_options) = 1" by code_simp+
  ultimately show ?thesis
    using sends_answered_once [OF sample_inj, of sample_arrivals sample_options 7]
      sends_answered_once [OF sample_inj, of sample_arrivals sample_options 8] by (simp add: Let_def)
qed

text \<open>C6: a reception the engine persisted is closed at most once per admission, and exactly once while the
  service runs: the final reports about it and the receptions still held are the admissions taken. Once
  the service has ended no reception is held.\<close>

theorem receptions_closed_once:
  assumes "inj (se_uuid env)"
  shows "let s = run service_step arrivals (service_new env opts);
      n = accepted (is_admit i) arrivals (service_new env opts)
    in closed i s + receptions i s \<le> n \<and> (\<not> sv_ended s \<longrightarrow> closed i s + receptions i s = n) \<and>
       (sv_ended s \<longrightarrow> receptions i s = 0)"
proof -
  let ?s = "run service_step arrivals (service_new env opts)"
  have "sv_ended ?s \<Longrightarrow> receptions i ?s = 0" using sound_run [OF assms, of arrivals opts]
    by (simp add: service_sound_def receptions_def held_def call_roles_def)
  with run_books [OF sound_new [OF assms], of _ arrivals opts i] show ?thesis by (simp add: Let_def)
qed

text \<open>An admission that is not known any more is closed as cancelled.\<close>

lemma receptions_closed_once_witness:
  "closed [5] (run service_step sample_arrivals (service_new sample_service_env sample_options)) \<le> 1"
proof -
  have "accepted (is_admit [5]) sample_arrivals (service_new sample_service_env sample_options) = 1" by code_simp
  then show ?thesis using receptions_closed_once [OF sample_inj, of sample_arrivals sample_options "[5]"]
    by (simp add: Let_def)
qed

text \<open>C7: the limits on calls hold in every reachable state: outgoing calls and waiting sends within the
  outgoing limit; an incoming call counts exactly while it is an admission or an admitted call, and with
  the idle slots stays within the incoming limit.\<close>

theorem service_capacity:
  assumes "inj (se_uuid env)"
  shows "let s = run service_step arrivals (service_new env opts);
      incoming = length (filter (\<lambda>(i, c). cl_incoming c \<noteq> None) (sv_calls s)) + length (sv_admission s)
    in outgoing_count s \<le> lim_outgoing (so_limits opts) \<and> length (sv_call_ids s) = incoming \<and>
       incoming + length (sv_available s) \<le> lim_incoming (so_limits opts)"
proof -
  have g: "good (run service_step arrivals (service_new env opts))"
    using sound_run [OF assms] by (simp add: service_sound_def)
  then have "limits_ok (run service_step arrivals (service_new env opts))" by (simp add: good_def)
  then show ?thesis using incoming_ids [OF g]
    by (simp add: Let_def limits_ok_def outgoing_count_roles options_run [OF assms])
qed

lemma service_capacity_witness:
  "outgoing_count (run service_step sample_arrivals (service_new sample_service_env sample_options)) \<le> 1"
  using service_capacity [OF sample_inj, of sample_arrivals sample_options]
  by (simp add: Let_def sample_options_def default_limits_def)

text \<open>C8: the flag the engine reads to see whether an offered call still waits for its answer is set
  exactly while the admission is in the table; no admission is a call, and every id belongs to one call.\<close>

theorem admission_pending_iff:
  assumes "inj (se_uuid env)"
  shows "let s = run service_step arrivals (service_new env opts)
    in (map_of (sv_waiting s) i = Some True \<longleftrightarrow> i \<in> fst ` set (sv_admission s)) \<and>
       fst ` set (sv_calls s) \<inter> fst ` set (sv_admission s) = {} \<and>
       distinct (map fst (sv_calls s)) \<and> distinct (map fst (sv_admission s))"
proof -
  let ?s = "run service_step arrivals (service_new env opts)"
  have "good ?s" using sound_run [OF assms] by (simp add: service_sound_def)
  then have k: "tables (call_roles ?s) (admission_roles ?s) (sv_call_ids ?s) (sv_waiting ?s) (drawn_before ?s)"
    by (simp add: good_def tables_ok_def)
  have "distinct (map fst (sv_admission ?s))" using tablesD(2) [OF k]
    by (simp add: admission_roles_def call_role_def comp_def case_prod_unfold)
  moreover have "fst ` set (call_roles ?s) = fst ` set (sv_calls ?s)" "map fst (call_roles ?s) = map fst (sv_calls ?s)"
    by (simp_all only: call_roles_def fst_roles)
  ultimately show ?thesis using tablesD(1,3,11) [OF k] by (simp add: Let_def fst_admission_roles)
qed

lemma admission_pending_iff_witness:
  "map_of (sv_waiting (run service_step sample_arrivals (service_new sample_service_env sample_options))) [5] \<noteq> Some True"
proof -
  have "sv_admission (run service_step sample_arrivals (service_new sample_service_env sample_options)) = []" by code_simp
  then show ?thesis using admission_pending_iff [OF sample_inj, of sample_arrivals sample_options "[5]"]
    by (simp add: Let_def)
qed

text \<open>a TLS account never routes over another transport: whatever route is given, the result is secured
  by its scheme or its transport parameter, and names no transport but TLS.\<close>

theorem tls_never_downgraded:
  assumes "sa_transport a = SigTls" "call_target a destination = Inr r"
  shows "(starts_with (lit ''sips:'') r \<or> lit ''transport=tls'' \<in> set (split_on 59 r)) \<and>
    (\<forall>part \<in> set (split_on 59 r). \<not> other_transport part)"
  using tls_route_pieces [OF assms(1)] assms(2) by (simp add: call_target_def)

lemma tls_never_downgraded_witness:
  "lit ''transport=tls'' \<in> set (split_on 59 (projr (call_target (sample_account\<lparr>sa_transport := SigTls\<rparr>) (lit ''12''))))"
proof -
  let ?a = "sample_account\<lparr>sa_transport := SigTls\<rparr>"
  have "isl (call_target ?a (lit ''12'')) = False" "\<not> starts_with (lit ''sips:'') (projr (call_target ?a (lit ''12'')))"
    by code_simp+
  then show ?thesis using tls_never_downgraded [of ?a "lit ''12''" "projr (call_target ?a (lit ''12''))"]
    by (cases "call_target ?a (lit ''12'')") (simp_all add: sample_account_def)
qed

end
