(* ===== verification/Desktop.thy ===== *)
theory Desktop
  imports ActorState Complex_Main
begin

text \<open>
  The desktop application (\<open>desktop.rs\<close>): its state, its messages and \<open>App::update\<close>, the one function
  that changes the state. What \<open>update\<close> returns is the list of tasks the runtime runs; their results come
  back as messages. A page source and an image are abstract, as is the window system; the animation's
  \<open>f32\<close> is a rational number. The picker and the tray of Windows packages are left out.
\<close>

section \<open>State\<close>

datatype tab = TabCompose | TabHistory | TabInbox | TabSettings

record profile_editor =
  ed_id :: uuid
  ed_name :: utext
  ed_server :: utext
  ed_port :: utext
  ed_transport :: sip_transport
  ed_username :: utext
  ed_auth_username :: utext
  ed_password :: utext
  ed_register :: bool
  ed_proxy :: utext
  ed_station :: utext
  ed_automatic_nat :: bool
  ed_stun :: utext
  ed_delay :: utext
  ed_mode :: fax_mode

definition default_editor :: "uuid \<Rightarrow> profile_editor" where
  "default_editor i =
     \<lparr>ed_id = i, ed_name = [], ed_server = [], ed_port = lit ''5060'', ed_transport = TUdp, ed_username = [],
      ed_auth_username = [], ed_password = [], ed_register = True, ed_proxy = [], ed_station = lit ''Faxe'',
      ed_automatic_nat = True, ed_stun = [], ed_delay = lit ''200'', ed_mode = FAuto\<rparr>"

definition text_of :: "utext option \<Rightarrow> utext" where
  "text_of v = (case v of Some t \<Rightarrow> t | None \<Rightarrow> [])"

definition editor_of :: "sip_profile \<Rightarrow> profile_editor" where
  "editor_of p =
     \<lparr>ed_id = prof_id p, ed_name = prof_name p, ed_server = prof_server p,
      ed_port = to_decimal (unat (prof_port p)), ed_transport = prof_transport p, ed_username = prof_username p,
      ed_auth_username = text_of (prof_auth_username p), ed_password = [], ed_register = prof_register p,
      ed_proxy = text_of (prof_outbound_proxy p), ed_station = prof_station_id p,
      ed_automatic_nat = prof_automatic_nat p, ed_stun = text_of (prof_stun_server p),
      ed_delay = to_decimal (prof_playout_delay p), ed_mode = prof_sending_mode p\<rparr>"

definition nonempty_text :: "utext \<Rightarrow> utext option" where
  "nonempty_text v = (if trim v = [] then None else Some (trim v))"

definition editor_profile :: "profile_editor \<Rightarrow> utext + sip_profile" where
  "editor_profile e =
     (case parse_uint 65535 (ed_port e) of
        None \<Rightarrow> Inl (lit ''Enter a valid SIP port'')
      | Some port \<Rightarrow>
          (case parse_uint 65535 (ed_delay e) of
             None \<Rightarrow> Inl (lit ''Enter an audio receive delay from 40 to 1000 ms'')
           | Some delay \<Rightarrow>
               let p = \<lparr>prof_id = ed_id e, prof_name = trim (ed_name e), prof_server = trim (ed_server e),
                        prof_port = word_of_nat port, prof_transport = ed_transport e,
                        prof_username = trim (ed_username e), prof_auth_username = nonempty_text (ed_auth_username e),
                        prof_register = ed_register e, prof_outbound_proxy = nonempty_text (ed_proxy e),
                        prof_station_id = ed_station e, prof_sending_mode = ed_mode e,
                        prof_automatic_nat = ed_automatic_nat e, prof_stun_server = nonempty_text (ed_stun e),
                        prof_playout_delay = delay\<rparr>
               in (case profile_validate p of Inl err \<Rightarrow> Inl (show_error err) | Inr _ \<Rightarrow> Inr p)))"

text \<open>\<open>ap_runtime\<close> and \<open>ap_engine\<close>: the application owns the engine's runtime, and holds a handle of it.
  \<open>ap_preparing\<close> is the cancellation flag of the preparation that runs.\<close>

record ('p, 'i) app =
  ap_runtime :: bool
  ap_starting :: bool
  ap_closing :: bool
  ap_operation :: nat
  ap_profile_revision :: nat
  ap_image :: "'i option"
  ap_source :: "'p option"
  ap_revision :: nat
  ap_displayed :: nat
  ap_rendering :: bool
  ap_contrast_change :: "(instant \<times> nat) option"
  ap_apply_pending :: bool
  ap_engine :: bool
  ap_view :: engine_view
  ap_window :: "nat option"
  ap_tray :: bool
  ap_tab :: tab
  ap_paths :: "path list"
  ap_profile :: "sip_profile option"
  ap_destination :: utext
  ap_destination_name :: utext
  ap_naming :: bool
  ap_managing :: bool
  ap_saving_destination :: bool
  ap_options :: document_options
  ap_prepared :: "prepared_document option"
  ap_preparing :: "bool option"
  ap_preview :: nat
  ap_editor :: profile_editor
  ap_saving_profile :: bool
  ap_notice :: "utext option"
  ap_confirm_clear :: bool
  ap_expanded :: "uuid option"
  ap_progress_job :: "job option"
  ap_progress_visible :: bool
  ap_reveal :: rat
  ap_animation_time :: instant
  ap_finished_at :: "instant option"

text \<open>The tasks of the runtime. \<open>DkPrepare\<close> names the document it adjusts, if any; \<open>DkRender\<close> carries the
  document, page and revision it answers for, the source, and the tone.\<close>

datatype 'p desk_task =
    DkOpenWindow
  | DkStart
  | DkTrayEvents
  | DkViews
  | DkEffects
  | DkInstallTray nat
  | DkGainFocus nat
  | DkCloseWindow nat
  | DkFocusName
  | DkShutdown
  | DkExit
  | DkClearQueue
  | DkNotify utext nat
  | DkPickFiles
  | DkPickFolder
  | DkSaveSettings settings
  | DkSaveDestination destination
  | DkRemoveDestination uuid
  | DkPrepare nat "uuid option" document_input
  | DkSource uuid nat
  | DkRender uuid nat nat 'p binarization int
  | DkEnqueue fax_request
  | DkCancel uuid
  | DkRetry uuid
  | DkConfigure receive_settings
  | DkCancelReception uuid
  | DkRetryExport uuid
  | DkOpen path bool
  | DkAcknowledgments
  | DkSaveProfile nat sip_profile "utext option"

text \<open>What the start-up yields: the settings, if they could be read, and the engine's view.\<close>

record startup =
  st_settings :: "utext + settings"
  st_view :: engine_view

datatype tray_action = TaShow | TaQuit

text \<open>The messages, grouped by what they are about; the source has one enumeration.\<close>

datatype window_message =
    MsOpened nat
  | MsTrayInstalled "utext + unit"
  | MsFileDropped path
  | MsCloseRequested
  | MsOtherEvent
  | MsTray tray_action
  | MsTick
  | MsAnimate instant
  | MsTab tab
  | MsDismissProgress
  | MsDetails uuid
  | MsOpenReceived path bool
  | MsAcknowledgments
  | MsActionFinished "utext + unit"
  | MsHide
  | MsQuit

datatype engine_message =
    MsStarted "utext + startup option"
  | MsEngineChanged engine_view
  | MsEffect engine_effect
  | MsQueueChanged "utext + job"
  | MsQueueCleared "utext + nat"
  | MsClearQueue
  | MsConfirmClear
  | MsKeepQueue
  | MsCancel uuid
  | MsRetry uuid
  | MsProfile sip_profile
  | MsSaveProfile
  | MsProfileSaved nat "utext + unit"
  | MsStopped "utext + unit"

datatype ('p, 'i) document_message =
    MsBrowse
  | MsFiles "path list"
  | MsRemove nat
  | MsMove nat int
  | MsPaper paper_size
  | MsResolution resolution
  | MsBinarization binarization
  | MsContrast int
  | MsContrastSettled nat
  | MsApplyContrast
  | MsPrepare
  | MsPrepared nat "utext + prepared_document"
  | MsCancelPreparation
  | MsPreview nat
  | MsSourceLoaded uuid nat "utext + 'p"
  | MsToneLoaded uuid nat nat "utext + 'i"
  | MsEnqueue

datatype destination_message =
    MsDestination utext
  | MsDestinationName utext
  | MsNameDestination bool
  | MsManageDestinations bool
  | MsSaveDestination
  | MsDestinationSaved "utext + unit"
  | MsUseDestination uuid
  | MsRemoveDestination uuid
  | MsDestinationRemoved "utext + unit"

datatype receive_message =
    MsEnableReceive uuid bool
  | MsReceiveFolder
  | MsFolderSelected "path option"
  | MsReceiveEcm bool
  | MsReceiveMode fax_mode
  | MsReceiveNotifications bool
  | MsCancelReception uuid
  | MsRetryExport uuid

datatype profile_message =
    MsNewProfile
  | MsEditProfile sip_profile
  | MsName utext
  | MsServer utext
  | MsPort utext
  | MsTransport sip_transport
  | MsUsername utext
  | MsAuthUsername utext
  | MsPassword utext
  | MsRegister bool
  | MsProxy utext
  | MsStation utext
  | MsAutomaticNat bool
  | MsStun utext
  | MsPlayoutDelay utext
  | MsSendingMode fax_mode

datatype ('p, 'i) message =
    MWindow window_message
  | MEngine engine_message
  | MDocument "('p, 'i) document_message"
  | MDestination destination_message
  | MReceive receive_message
  | MEdit profile_message

type_synonym ('p, 'i) updated = "'p desk_task list \<times> ('p, 'i) app"

definition app_boot :: "instant \<Rightarrow> uuid \<Rightarrow> ('p, 'i) updated" where
  "app_boot now i =
     ([DkOpenWindow, DkStart, DkTrayEvents],
      \<lparr>ap_runtime = False, ap_starting = True, ap_closing = False, ap_operation = 0, ap_profile_revision = 0,
       ap_image = None, ap_source = None, ap_revision = 0, ap_displayed = 0, ap_rendering = False,
       ap_contrast_change = None, ap_apply_pending = False, ap_engine = False, ap_view = default_view,
       ap_window = None, ap_tray = False, ap_tab = TabCompose, ap_paths = [], ap_profile = None, ap_destination = [],
       ap_destination_name = [], ap_naming = False, ap_managing = False, ap_saving_destination = False,
       ap_options = default_document_options, ap_prepared = None, ap_preparing = None, ap_preview = 1,
       ap_editor = default_editor i, ap_saving_profile = False, ap_notice = None, ap_confirm_clear = False,
       ap_expanded = None, ap_progress_job = None, ap_progress_visible = False, ap_reveal = 0,
       ap_animation_time = now, ap_finished_at = None\<rparr>)"

section \<open>Helpers\<close>

text \<open>A task that needs the engine's handle.\<close>

definition with_engine :: "'p desk_task \<Rightarrow> ('p, 'i) app \<Rightarrow> ('p, 'i) updated" where
  "with_engine t a = (if ap_engine a then [t] else [], a)"

definition notify_result :: "utext \<Rightarrow> utext + 'a \<Rightarrow> utext option" where
  "notify_result ok r = Some (case r of Inl e \<Rightarrow> e | Inr _ \<Rightarrow> ok)"

definition show_progress :: "instant \<Rightarrow> job \<Rightarrow> ('p, 'i) app \<Rightarrow> ('p, 'i) app" where
  "show_progress now j a =
     a\<lparr>ap_progress_job := Some j, ap_progress_visible := True, ap_finished_at := None, ap_animation_time := now\<rparr>"

definition hide_progress :: "instant \<Rightarrow> ('p, 'i) app \<Rightarrow> ('p, 'i) app" where
  "hide_progress now a = a\<lparr>ap_progress_visible := False, ap_animation_time := now\<rparr>"

definition first_option :: "'a list \<Rightarrow> 'a option" where
  "first_option xs = (case xs of [] \<Rightarrow> None | x # _ \<Rightarrow> Some x)"

definition saved_destination :: "('p, 'i) app \<Rightarrow> destination option" where
  "saved_destination a =
     (case ap_profile a of
        None \<Rightarrow> None
      | Some p \<Rightarrow> find (\<lambda>d. dest_profile d = prof_id p \<and> dest_address d = trim (ap_destination a))
                     (ev_destinations (ap_view a)))"

definition can_save_destination :: "('p, 'i) app \<Rightarrow> bool" where
  "can_save_destination a \<longleftrightarrow>
     ap_engine a \<and> ap_profile a \<noteq> None \<and> trim (ap_destination a) \<noteq> [] \<and> trim (ap_destination_name a) \<noteq> [] \<and>
     saved_destination a = None \<and> \<not> ap_saving_destination a"

definition app_save_settings :: "('p, 'i) app \<Rightarrow> ('p, 'i) updated" where
  "app_save_settings a =
     with_engine (DkSaveSettings \<lparr>set_document_options = ap_options a,
       set_default_profile = map_option prof_id (ap_profile a)\<rparr>) a"

definition receiver_label :: "('p, 'i) app \<Rightarrow> utext" where
  "receiver_label a =
     (let status = ev_status (ap_view a);
          label = (case rst_state status of RError _ \<Rightarrow> lit ''Error'' | st \<Rightarrow> show_receiver_state st)
      in case find (\<lambda>p. Some (prof_id p) = rst_profile status) (ev_profiles (ap_view a)) of
           Some p \<Rightarrow> label @ lit '' '' @ [183] @ lit '' '' @ prof_name p
         | None \<Rightarrow> label)"

section \<open>The engine's view\<close>

definition follow_jobs :: "instant \<Rightarrow> ('p, 'i) app \<Rightarrow> ('p, 'i) app" where
  "follow_jobs now a =
     (case find (\<lambda>j. job_is_active (job_state j)) (ev_jobs (ap_view a)) of
        Some j \<Rightarrow>
          if map_option job_id (ap_progress_job a) \<noteq> Some (job_id j) then show_progress now j a
          else a\<lparr>ap_progress_job := Some j\<rparr>
      | None \<Rightarrow>
          (case ap_progress_job a of
             None \<Rightarrow> a
           | Some previous \<Rightarrow>
               (case find_by job_id (job_id previous) (ev_jobs (ap_view a)) of
                  None \<Rightarrow> a
                | Some j \<Rightarrow>
                    a\<lparr>ap_finished_at := (if job_is_finished (job_state j) \<and> ap_finished_at a = None then Some now
                                         else ap_finished_at a),
                      ap_progress_job := Some j\<rparr>)))"

definition apply_view :: "instant \<Rightarrow> engine_view \<Rightarrow> ('p, 'i) app \<Rightarrow> ('p, 'i) app" where
  "apply_view now v a =
     (let selected = (case ap_profile a of Some p \<Rightarrow> find_by prof_id (prof_id p) (ev_profiles v) | None \<Rightarrow> None);
          a = a\<lparr>ap_view := v, ap_managing := (ap_managing a \<and> ev_destinations v \<noteq> []),
                ap_profile := (if selected = None then first_option (ev_profiles v) else selected),
                ap_tab := (if rs_profile (ev_settings v) = None \<and> ap_tab a = TabInbox then TabCompose else ap_tab a)\<rparr>
      in follow_jobs now a)"

section \<open>The preview\<close>

definition render_preview :: "('p, 'i) app \<Rightarrow> ('p, 'i) updated" where
  "render_preview a =
     (if ap_rendering a then ([], a)
      else case (ap_prepared a, ap_source a) of
        (Some d, Some src) \<Rightarrow>
          ([DkRender (doc_id d) (ap_preview a) (ap_revision a) src (do_binarization (ap_options a))
              (do_contrast (ap_options a))], a\<lparr>ap_rendering := True\<rparr>)
      | _ \<Rightarrow> ([], a))"

definition refresh_preview :: "('p, 'i) app \<Rightarrow> ('p, 'i) updated" where
  "refresh_preview a = render_preview (a\<lparr>ap_revision := ap_revision a + 1\<rparr>)"

definition clear_preview :: "('p, 'i) app \<Rightarrow> ('p, 'i) app" where
  "clear_preview a =
     a\<lparr>ap_image := None, ap_source := None, ap_revision := ap_revision a + 1, ap_displayed := ap_revision a + 1\<rparr>"

definition load_preview :: "('p, 'i) app \<Rightarrow> ('p, 'i) updated" where
  "load_preview a =
     (let a = clear_preview a
      in case ap_prepared a of
           Some d \<Rightarrow> with_engine (DkSource (doc_id d) (ap_preview a)) a
         | None \<Rightarrow> ([], a))"

definition invalidate_document :: "('p, 'i) app \<Rightarrow> ('p, 'i) app" where
  "invalidate_document a =
     (clear_preview a)\<lparr>ap_prepared := None, ap_contrast_change := None, ap_apply_pending := False\<rparr>"

definition current_page :: "uuid \<Rightarrow> nat \<Rightarrow> ('p, 'i) app \<Rightarrow> bool" where
  "current_page i page a \<longleftrightarrow> map_option doc_id (ap_prepared a) = Some i \<and> ap_preview a = page"

definition on_source_loaded :: "uuid \<Rightarrow> nat \<Rightarrow> utext + 'p \<Rightarrow> ('p, 'i) app \<Rightarrow> ('p, 'i) updated" where
  "on_source_loaded i page r a =
     (if \<not> current_page i page a then ([], a)
      else case r of
        Inr src \<Rightarrow> refresh_preview (a\<lparr>ap_source := Some src\<rparr>)
      | Inl e \<Rightarrow> ([], a\<lparr>ap_notice := Some e\<rparr>))"

text \<open>Every newer frame is shown, and rendering goes on until the newest revision is reached.\<close>

definition on_tone_loaded :: "uuid \<Rightarrow> nat \<Rightarrow> nat \<Rightarrow> utext + 'i \<Rightarrow> ('p, 'i) app \<Rightarrow> ('p, 'i) updated" where
  "on_tone_loaded i page revision r a =
     (let current = current_page i page a; a = a\<lparr>ap_rendering := False\<rparr>;
          a = (if current \<and> revision > ap_displayed a
               then (case r of
                       Inr frame \<Rightarrow> a\<lparr>ap_image := Some frame, ap_displayed := revision\<rparr>
                     | Inl e \<Rightarrow> if revision = ap_revision a then a\<lparr>ap_notice := Some e\<rparr> else a)
               else a)
      in if \<not> current \<or> revision \<noteq> ap_revision a then render_preview a else ([], a))"

section \<open>Documents\<close>

definition edit_paths :: "(path list \<Rightarrow> path list) \<Rightarrow> ('p, 'i) app \<Rightarrow> ('p, 'i) app" where
  "edit_paths f a = invalidate_document (a\<lparr>ap_paths := f (ap_paths a)\<rparr>)"

definition on_files :: "path list \<Rightarrow> ('p, 'i) app \<Rightarrow> ('p, 'i) updated" where
  "on_files paths a =
     ([], if ap_preparing a = None \<and> paths \<noteq> [] then edit_paths (\<lambda>ps. ps @ paths) a else a)"

definition on_remove :: "nat \<Rightarrow> ('p, 'i) app \<Rightarrow> ('p, 'i) updated" where
  "on_remove n a =
     ([], if ap_preparing a = None \<and> n < length (ap_paths a)
          then edit_paths (\<lambda>ps. take n ps @ drop (Suc n) ps) a else a)"

definition swap_paths :: "nat \<Rightarrow> nat \<Rightarrow> path list \<Rightarrow> path list" where
  "swap_paths n m ps = ps[n := ps ! m, m := ps ! n]"

definition on_move :: "nat \<Rightarrow> int \<Rightarrow> ('p, 'i) app \<Rightarrow> ('p, 'i) updated" where
  "on_move n offset a =
     (let target = int n + offset
      in ([], if 0 \<le> target \<and> ap_preparing a = None \<and> n < length (ap_paths a) \<and> nat target < length (ap_paths a)
              then edit_paths (swap_paths n (nat target)) a else a))"

text \<open>A changed paper size or resolution needs a new preparation.\<close>

definition change_layout :: "(document_options \<Rightarrow> document_options) \<Rightarrow> ('p, 'i) app \<Rightarrow> ('p, 'i) updated" where
  "change_layout f a =
     (if ap_preparing a = None
      then app_save_settings (invalidate_document (a\<lparr>ap_options := f (ap_options a)\<rparr>)) else ([], a))"

definition on_prepare :: "('p, 'i) app \<Rightarrow> ('p, 'i) updated" where
  "on_prepare a =
     (if ap_preparing a = None \<and> ap_engine a
      then let a = a\<lparr>ap_operation := ap_operation a + 1, ap_preparing := Some False, ap_notice := None\<rparr>
        in ([DkPrepare (ap_operation a) (map_option doc_id (ap_prepared a))
              \<lparr>di_paths = ap_paths a, di_options = ap_options a\<rparr>], a)
      else ([], a))"

definition then_update ::
  "('p, 'i) updated \<Rightarrow> (('p, 'i) app \<Rightarrow> ('p, 'i) updated) \<Rightarrow> ('p, 'i) updated" where
  "then_update r f = (case r of (ts, a) \<Rightarrow> (case f a of (us, a) \<Rightarrow> (ts @ us, a)))"

definition on_apply_contrast :: "('p, 'i) app \<Rightarrow> ('p, 'i) updated" where
  "on_apply_contrast a =
     (let a = a\<lparr>ap_contrast_change := None\<rparr>
      in then_update (app_save_settings a) (\<lambda>a.
        if ap_preparing a \<noteq> None \<and> ap_prepared a \<noteq> None then ([], a\<lparr>ap_apply_pending := True\<rparr>)
        else case ap_prepared a of
          Some d \<Rightarrow> if doc_options d \<noteq> ap_options a then on_prepare a else ([], a)
        | None \<Rightarrow> ([], a)))"

definition tone_editable :: "('p, 'i) app \<Rightarrow> bool" where
  "tone_editable a \<longleftrightarrow> ap_preparing a = None \<or> ap_prepared a \<noteq> None"

definition on_binarization :: "binarization \<Rightarrow> ('p, 'i) app \<Rightarrow> ('p, 'i) updated" where
  "on_binarization v a =
     (if tone_editable a
      then then_update (refresh_preview (a\<lparr>ap_options := (ap_options a)\<lparr>do_binarization := v\<rparr>\<rparr>)) on_apply_contrast
      else ([], a))"

definition clamp_contrast :: "int \<Rightarrow> int" where
  "clamp_contrast v = max (- 100) (min 100 v)"

definition on_contrast :: "instant \<Rightarrow> int \<Rightarrow> ('p, 'i) app \<Rightarrow> ('p, 'i) updated" where
  "on_contrast now v a =
     (if tone_editable a
      then then_update (refresh_preview (a\<lparr>ap_options := (ap_options a)\<lparr>do_contrast := clamp_contrast v\<rparr>\<rparr>))
             (\<lambda>a. ([], a\<lparr>ap_contrast_change := Some (now, ap_revision a)\<rparr>))
      else ([], a))"

definition on_contrast_settled :: "nat \<Rightarrow> ('p, 'i) app \<Rightarrow> ('p, 'i) updated" where
  "on_contrast_settled revision a =
     (if map_option snd (ap_contrast_change a) = Some revision then on_apply_contrast a else ([], a))"

text \<open>The result of a preparation that is not the current one is dropped.\<close>

definition on_prepared :: "nat \<Rightarrow> utext + prepared_document \<Rightarrow> ('p, 'i) app \<Rightarrow> ('p, 'i) updated" where
  "on_prepared operation r a =
     (if operation \<noteq> ap_operation a then ([], a)
      else let apply = ap_apply_pending a; a = a\<lparr>ap_preparing := None, ap_apply_pending := False\<rparr>
        in case r of
             Inl e \<Rightarrow> ([], a\<lparr>ap_notice := Some e\<rparr>)
           | Inr d \<Rightarrow>
               let adjusting = (ap_prepared a \<noteq> None); a = a\<lparr>ap_prepared := Some d\<rparr>
               in then_update
                    (if adjusting \<and> ap_source a \<noteq> None then refresh_preview a
                     else load_preview (if adjusting then a else a\<lparr>ap_preview := 1\<rparr>))
                    (\<lambda>a. if apply then on_apply_contrast a else ([], a)))"

definition on_cancel_preparation :: "('p, 'i) app \<Rightarrow> ('p, 'i) updated" where
  "on_cancel_preparation a =
     ([], a\<lparr>ap_apply_pending := False, ap_contrast_change := None,
            ap_preparing := map_option (\<lambda>_. True) (ap_preparing a)\<rparr>)"

definition on_enqueue :: "('p, 'i) app \<Rightarrow> ('p, 'i) updated" where
  "on_enqueue a =
     (case (ap_profile a, ap_prepared a) of
        (Some p, Some d) \<Rightarrow>
          if ap_engine a \<and> ap_preparing a = None \<and> doc_options d = ap_options a
          then ([DkEnqueue \<lparr>rq_profile = prof_id p, rq_destination = trim (ap_destination a),
                   rq_mode = prof_sending_mode p, rq_document = d\<rparr>], a)
          else ([], a)
      | _ \<Rightarrow> ([], a))"

section \<open>Destinations and profiles\<close>

definition on_save_destination :: "uuid \<Rightarrow> ('p, 'i) app \<Rightarrow> ('p, 'i) updated" where
  "on_save_destination i a =
     (case ap_profile a of
        Some p \<Rightarrow>
          if can_save_destination a
          then ([DkSaveDestination \<lparr>dest_id = i, dest_name = trim (ap_destination_name a),
                   dest_address = trim (ap_destination a), dest_profile = prof_id p\<rparr>],
                a\<lparr>ap_saving_destination := True\<rparr>)
          else ([], a)
      | None \<Rightarrow> ([], a))"

definition on_use_destination :: "uuid \<Rightarrow> ('p, 'i) app \<Rightarrow> ('p, 'i) updated" where
  "on_use_destination i a =
     (case find_by dest_id i (ev_destinations (ap_view a)) of
        None \<Rightarrow> ([], a)
      | Some d \<Rightarrow>
          let a = a\<lparr>ap_managing := False\<rparr>;
              a = (if ap_saving_destination a then a else a\<lparr>ap_naming := False, ap_destination_name := []\<rparr>)
          in app_save_settings (a\<lparr>ap_destination := dest_address d,
               ap_profile := find_by prof_id (dest_profile d) (ev_profiles (ap_view a))\<rparr>))"

definition on_name_destination :: "bool \<Rightarrow> ('p, 'i) app \<Rightarrow> ('p, 'i) updated" where
  "on_name_destination naming a =
     (if ap_saving_destination a then ([], a)
      else let a = a\<lparr>ap_naming := naming, ap_destination_name := []\<rparr>
        in if naming then ([DkFocusName], a\<lparr>ap_managing := False\<rparr>) else ([], a))"

definition edit_profile :: "(profile_editor \<Rightarrow> profile_editor) \<Rightarrow> ('p, 'i) app \<Rightarrow> ('p, 'i) updated" where
  "edit_profile f a = ([], a\<lparr>ap_editor := f (ap_editor a)\<rparr>)"

definition on_transport :: "sip_transport \<Rightarrow> profile_editor \<Rightarrow> profile_editor" where
  "on_transport v e =
     (let e = (if ed_port e = to_decimal (unat (default_port (ed_transport e)))
               then e\<lparr>ed_port := to_decimal (unat (default_port v))\<rparr> else e)
      in e\<lparr>ed_transport := v\<rparr>)"

definition on_save_profile :: "('p, 'i) app \<Rightarrow> ('p, 'i) updated" where
  "on_save_profile a =
     (if ap_saving_profile a then ([], a)
      else case editor_profile (ap_editor a) of
        Inl e \<Rightarrow> ([], a\<lparr>ap_notice := Some e\<rparr>)
      | Inr p \<Rightarrow>
          if ap_engine a
          then ([DkSaveProfile (ap_profile_revision a) p
                  (if ed_password (ap_editor a) = [] then None else Some (ed_password (ap_editor a)))],
                a\<lparr>ap_saving_profile := True\<rparr>)
          else ([], a))"

definition on_profile_saved :: "nat \<Rightarrow> utext + unit \<Rightarrow> ('p, 'i) app \<Rightarrow> ('p, 'i) updated" where
  "on_profile_saved revision r a =
     app_save_settings
       (a\<lparr>ap_saving_profile := False,
          ap_editor := (if revision = ap_profile_revision a \<and> is_ok r then (ap_editor a)\<lparr>ed_password := []\<rparr>
                        else ap_editor a),
          ap_notice := notify_result (lit ''SIP profile saved.'') r,
          ap_profile := (if ap_profile a = None then first_option (ev_profiles (ap_view a)) else ap_profile a)\<rparr>)"

definition configure_receive :: "(receive_settings \<Rightarrow> receive_settings) \<Rightarrow> ('p, 'i) app \<Rightarrow> ('p, 'i) updated" where
  "configure_receive f a = with_engine (DkConfigure (f (ev_settings (ap_view a)))) a"

section \<open>Start and end\<close>

definition on_started :: "instant \<Rightarrow> utext + startup option \<Rightarrow> ('p, 'i) app \<Rightarrow> ('p, 'i) updated" where
  "on_started now r a =
     (let a = a\<lparr>ap_starting := False\<rparr>
      in case r of
           Inl e \<Rightarrow> if ap_closing a then ([DkExit], a) else ([], a\<lparr>ap_notice := Some e\<rparr>)
         | Inr None \<Rightarrow> ([], a)
         | Inr (Some st) \<Rightarrow>
             if ap_closing a then ([DkShutdown], a)
             else let a = apply_view now (st_view st) a;
                      a = (case st_settings st of
                             Inl e \<Rightarrow> a\<lparr>ap_notice := Some e\<rparr>
                           | Inr s \<Rightarrow>
                               a\<lparr>ap_options := set_document_options s,
                                 ap_profile :=
                                   (case find (\<lambda>p. Some (prof_id p) = set_default_profile s) (ev_profiles (ap_view a)) of
                                      Some p \<Rightarrow> Some p | None \<Rightarrow> first_option (ev_profiles (ap_view a)))\<rparr>);
                      a = (case ap_profile a of Some p \<Rightarrow> a\<lparr>ap_editor := editor_of p\<rparr> | None \<Rightarrow> a)
               in ([DkViews, DkEffects], a\<lparr>ap_engine := True, ap_runtime := True\<rparr>))"

definition on_quit :: "('p, 'i) app \<Rightarrow> ('p, 'i) updated" where
  "on_quit a =
     (if ap_closing a then ([], a)
      else let owner = ap_runtime a;
               a = a\<lparr>ap_closing := True, ap_operation := ap_operation a + 1,
                     ap_preparing := map_option (\<lambda>_. True) (ap_preparing a), ap_engine := False, ap_runtime := False\<rparr>
        in (if owner then [DkShutdown] else if \<not> ap_starting a then [DkExit] else [], a))"

definition on_hide :: "('p, 'i) app \<Rightarrow> ('p, 'i) updated" where
  "on_hide a =
     (let window = ap_window a; a = a\<lparr>ap_window := None\<rparr>
      in if ap_tray a then (case window of Some w \<Rightarrow> ([DkCloseWindow w], a) | None \<Rightarrow> ([], a)) else on_quit a)"

definition on_effect :: "engine_effect \<Rightarrow> ('p, 'i) app \<Rightarrow> ('p, 'i) updated" where
  "on_effect x a =
     (case x of
        XfError e \<Rightarrow> ([], a\<lparr>ap_notice := Some e\<rparr>)
      | XfPdfReady _ p \<Rightarrow> ([DkOpen p False], a)
      | XfReceptionFinished _ caller pages \<Rightarrow> ([DkNotify caller pages], a))"

definition on_queue_changed :: "instant \<Rightarrow> utext + job \<Rightarrow> ('p, 'i) app \<Rightarrow> ('p, 'i) updated" where
  "on_queue_changed now r a =
     (case r of
        Inr j \<Rightarrow> ([], (show_progress now j a)\<lparr>ap_notice := None\<rparr>)
      | Inl e \<Rightarrow> ([], a\<lparr>ap_notice := Some e\<rparr>))"

definition on_queue_cleared :: "instant \<Rightarrow> utext + nat \<Rightarrow> ('p, 'i) app \<Rightarrow> ('p, 'i) updated" where
  "on_queue_cleared now r a =
     ([], hide_progress now (a\<lparr>ap_notice := Some (case r of
            Inr n \<Rightarrow> lit ''Cleared '' @ to_decimal n @ lit '' queue/history entries. Spool files remain recoverable.''
          | Inl e \<Rightarrow> e)\<rparr>))"

definition on_tick :: "instant \<Rightarrow> ('p, 'i) app \<Rightarrow> ('p, 'i) updated" where
  "on_tick now a =
     ([], case ap_finished_at a of
            Some since \<Rightarrow> if ap_progress_visible a \<and> now - since \<ge> secs 8 then hide_progress now a else a
          | None \<Rightarrow> a)"

definition on_animate :: "instant \<Rightarrow> ('p, 'i) app \<Rightarrow> ('p, 'i) updated" where
  "on_animate now a =
     (let movement = of_nat (now - ap_animation_time a) / of_nat (millis 260)
      in ([], a\<lparr>ap_animation_time := now,
                ap_reveal := (if ap_progress_visible a then min (ap_reveal a + movement) 1
                              else max (ap_reveal a - movement) 0)\<rparr>))"

definition on_opened :: "nat \<Rightarrow> ('p, 'i) app \<Rightarrow> ('p, 'i) updated" where
  "on_opened w a = (if ap_tray a then [] else [DkInstallTray w], a\<lparr>ap_window := Some w\<rparr>)"

definition on_tray :: "tray_action \<Rightarrow> ('p, 'i) app \<Rightarrow> ('p, 'i) updated" where
  "on_tray x a =
     (case x of
        TaShow \<Rightarrow> (case ap_window a of Some w \<Rightarrow> ([DkGainFocus w], a) | None \<Rightarrow> ([DkOpenWindow], a))
      | TaQuit \<Rightarrow> on_quit a)"

definition on_action_finished :: "utext + unit \<Rightarrow> ('p, 'i) app \<Rightarrow> ('p, 'i) updated" where
  "on_action_finished r a = ([], case r of Inl e \<Rightarrow> a\<lparr>ap_notice := Some e\<rparr> | Inr _ \<Rightarrow> a)"

definition on_destination_saved :: "utext + unit \<Rightarrow> ('p, 'i) app \<Rightarrow> ('p, 'i) updated" where
  "on_destination_saved r a =
     (let a = a\<lparr>ap_saving_destination := False, ap_notice := notify_result (lit ''Destination saved.'') r\<rparr>
      in ([], if is_ok r then a\<lparr>ap_naming := False, ap_destination_name := []\<rparr> else a))"

section \<open>Dispatch\<close>

text \<open>The messages that edit a profile count as revisions of it.\<close>

definition edits_profile :: "('p, 'i) message \<Rightarrow> bool" where
  "edits_profile m = (case m of MEdit _ \<Rightarrow> True | _ \<Rightarrow> False)"

fun on_window :: "instant \<Rightarrow> window_message \<Rightarrow> ('p, 'i) app \<Rightarrow> ('p, 'i) updated" where
  "on_window _ (MsOpened w) a = on_opened w a"
| "on_window _ (MsTrayInstalled r) a = ([], if is_ok r then a\<lparr>ap_tray := True\<rparr> else a)"
| "on_window _ (MsFileDropped p) a = on_files [p] a"
| "on_window _ MsCloseRequested a = on_hide a"
| "on_window _ MsOtherEvent a = ([], a)"
| "on_window _ (MsTray x) a = on_tray x a"
| "on_window now MsTick a = on_tick now a"
| "on_window _ (MsAnimate frame) a = on_animate frame a"
| "on_window _ (MsTab t) a = ([], a\<lparr>ap_tab := t\<rparr>)"
| "on_window now MsDismissProgress a = ([], hide_progress now a)"
| "on_window _ (MsDetails j) a = ([], a\<lparr>ap_expanded := (if ap_expanded a = Some j then None else Some j)\<rparr>)"
| "on_window _ (MsOpenReceived p reveal) a = ([DkOpen p reveal], a)"
| "on_window _ MsAcknowledgments a = ([DkAcknowledgments], a)"
| "on_window _ (MsActionFinished r) a = on_action_finished r a"
| "on_window _ MsHide a = on_hide a"
| "on_window _ MsQuit a = on_quit a"

fun on_engine :: "instant \<Rightarrow> engine_message \<Rightarrow> ('p, 'i) app \<Rightarrow> ('p, 'i) updated" where
  "on_engine now (MsStarted r) a = on_started now r a"
| "on_engine now (MsEngineChanged v) a = ([], apply_view now v a)"
| "on_engine _ (MsEffect x) a = on_effect x a"
| "on_engine now (MsQueueChanged r) a = on_queue_changed now r a"
| "on_engine now (MsQueueCleared r) a = on_queue_cleared now r a"
| "on_engine _ MsClearQueue a = ([], a\<lparr>ap_confirm_clear := True\<rparr>)"
| "on_engine _ MsConfirmClear a = with_engine DkClearQueue (a\<lparr>ap_confirm_clear := False\<rparr>)"
| "on_engine _ MsKeepQueue a = ([], a\<lparr>ap_confirm_clear := False\<rparr>)"
| "on_engine _ (MsCancel j) a = with_engine (DkCancel j) a"
| "on_engine _ (MsRetry j) a = with_engine (DkRetry j) a"
| "on_engine _ (MsProfile p) a = app_save_settings (a\<lparr>ap_profile := Some p\<rparr>)"
| "on_engine _ MsSaveProfile a = on_save_profile a"
| "on_engine _ (MsProfileSaved revision r) a = on_profile_saved revision r a"
| "on_engine _ (MsStopped r) a = ([DkExit], a)"

fun on_document :: "instant \<Rightarrow> ('p, 'i) document_message \<Rightarrow> ('p, 'i) app \<Rightarrow> ('p, 'i) updated" where
  "on_document _ MsBrowse a = ([DkPickFiles], a)"
| "on_document _ (MsFiles ps) a = on_files ps a"
| "on_document _ (MsRemove n) a = on_remove n a"
| "on_document _ (MsMove n offset) a = on_move n offset a"
| "on_document _ (MsPaper v) a = change_layout (\<lambda>o'. o'\<lparr>do_paper := v\<rparr>) a"
| "on_document _ (MsResolution v) a = change_layout (\<lambda>o'. o'\<lparr>do_resolution := v\<rparr>) a"
| "on_document _ (MsBinarization v) a = on_binarization v a"
| "on_document now (MsContrast v) a = on_contrast now v a"
| "on_document _ (MsContrastSettled revision) a = on_contrast_settled revision a"
| "on_document _ MsApplyContrast a = on_apply_contrast a"
| "on_document _ MsPrepare a = on_prepare a"
| "on_document _ (MsPrepared operation r) a = on_prepared operation r a"
| "on_document _ MsCancelPreparation a = on_cancel_preparation a"
| "on_document _ (MsPreview page) a = load_preview (a\<lparr>ap_preview := page\<rparr>)"
| "on_document _ (MsSourceLoaded d page r) a = on_source_loaded d page r a"
| "on_document _ (MsToneLoaded d page revision r) a = on_tone_loaded d page revision r a"
| "on_document _ MsEnqueue a = on_enqueue a"

fun on_destination :: "uuid \<Rightarrow> destination_message \<Rightarrow> ('p, 'i) app \<Rightarrow> ('p, 'i) updated" where
  "on_destination _ (MsDestination v) a = ([], a\<lparr>ap_destination := v\<rparr>)"
| "on_destination _ (MsDestinationName v) a = ([], a\<lparr>ap_destination_name := v\<rparr>)"
| "on_destination _ (MsNameDestination naming) a = on_name_destination naming a"
| "on_destination _ (MsManageDestinations managing) a =
     ([], a\<lparr>ap_managing := managing,
            ap_naming := (if managing \<and> \<not> ap_saving_destination a then False else ap_naming a)\<rparr>)"
| "on_destination i MsSaveDestination a = on_save_destination i a"
| "on_destination _ (MsDestinationSaved r) a = on_destination_saved r a"
| "on_destination _ (MsUseDestination d) a = on_use_destination d a"
| "on_destination _ (MsRemoveDestination d) a = with_engine (DkRemoveDestination d) a"
| "on_destination _ (MsDestinationRemoved r) a =
     ([], a\<lparr>ap_notice := notify_result (lit ''Saved destination removed.'') r\<rparr>)"

fun on_receive :: "receive_message \<Rightarrow> ('p, 'i) app \<Rightarrow> ('p, 'i) updated" where
  "on_receive (MsEnableReceive p enabled) a =
     configure_receive (\<lambda>s. s\<lparr>rs_profile := (if enabled then Some p else None)\<rparr>) a"
| "on_receive MsReceiveFolder a = ([DkPickFolder], a)"
| "on_receive (MsFolderSelected folder) a =
     (if folder = None then ([], a) else configure_receive (\<lambda>s. s\<lparr>rs_folder := folder\<rparr>) a)"
| "on_receive (MsReceiveEcm v) a = configure_receive (\<lambda>s. s\<lparr>rs_ecm := v\<rparr>) a"
| "on_receive (MsReceiveMode v) a = configure_receive (\<lambda>s. s\<lparr>rs_mode := v\<rparr>) a"
| "on_receive (MsReceiveNotifications v) a = configure_receive (\<lambda>s. s\<lparr>rs_notifications := v\<rparr>) a"
| "on_receive (MsCancelReception r) a = with_engine (DkCancelReception r) a"
| "on_receive (MsRetryExport r) a = with_engine (DkRetryExport r) a"

fun on_edit :: "uuid \<Rightarrow> profile_message \<Rightarrow> ('p, 'i) app \<Rightarrow> ('p, 'i) updated" where
  "on_edit i MsNewProfile a = ([], a\<lparr>ap_editor := default_editor i\<rparr>)"
| "on_edit _ (MsEditProfile p) a = ([], a\<lparr>ap_editor := editor_of p\<rparr>)"
| "on_edit _ (MsName v) a = edit_profile (\<lambda>e. e\<lparr>ed_name := v\<rparr>) a"
| "on_edit _ (MsServer v) a = edit_profile (\<lambda>e. e\<lparr>ed_server := v\<rparr>) a"
| "on_edit _ (MsPort v) a = edit_profile (\<lambda>e. e\<lparr>ed_port := v\<rparr>) a"
| "on_edit _ (MsTransport v) a = edit_profile (on_transport v) a"
| "on_edit _ (MsUsername v) a = edit_profile (\<lambda>e. e\<lparr>ed_username := v\<rparr>) a"
| "on_edit _ (MsAuthUsername v) a = edit_profile (\<lambda>e. e\<lparr>ed_auth_username := v\<rparr>) a"
| "on_edit _ (MsPassword v) a = edit_profile (\<lambda>e. e\<lparr>ed_password := v\<rparr>) a"
| "on_edit _ (MsRegister v) a = edit_profile (\<lambda>e. e\<lparr>ed_register := v\<rparr>) a"
| "on_edit _ (MsProxy v) a = edit_profile (\<lambda>e. e\<lparr>ed_proxy := v\<rparr>) a"
| "on_edit _ (MsStation v) a = edit_profile (\<lambda>e. e\<lparr>ed_station := v\<rparr>) a"
| "on_edit _ (MsAutomaticNat v) a = edit_profile (\<lambda>e. e\<lparr>ed_automatic_nat := v\<rparr>) a"
| "on_edit _ (MsStun v) a = edit_profile (\<lambda>e. e\<lparr>ed_stun := v\<rparr>) a"
| "on_edit _ (MsPlayoutDelay v) a = edit_profile (\<lambda>e. e\<lparr>ed_delay := v\<rparr>) a"
| "on_edit _ (MsSendingMode v) a = edit_profile (\<lambda>e. e\<lparr>ed_mode := v\<rparr>) a"

fun dispatch :: "instant \<Rightarrow> uuid \<Rightarrow> ('p, 'i) message \<Rightarrow> ('p, 'i) app \<Rightarrow> ('p, 'i) updated" where
  "dispatch now i (MWindow m) a = on_window now m a"
| "dispatch now i (MEngine m) a = on_engine now m a"
| "dispatch now i (MDocument m) a = on_document now m a"
| "dispatch now i (MDestination m) a = on_destination i m a"
| "dispatch now i (MReceive m) a = on_receive m a"
| "dispatch now i (MEdit m) a = on_edit i m a"

text \<open>A closing application waits for the results of its start and of the shutdown only.\<close>

definition ends_life :: "('p, 'i) message \<Rightarrow> bool" where
  "ends_life m = (case m of MEngine (MsStarted _) \<Rightarrow> True | MEngine (MsStopped _) \<Rightarrow> True | _ \<Rightarrow> False)"

definition app_update :: "instant \<Rightarrow> uuid \<Rightarrow> ('p, 'i) message \<Rightarrow> ('p, 'i) app \<Rightarrow> ('p, 'i) updated" where
  "app_update now i m a =
     (if ap_closing a \<and> \<not> ends_life m then ([], a)
      else dispatch now i m
        (if edits_profile m then a\<lparr>ap_profile_revision := ap_profile_revision a + 1\<rparr> else a))"

text \<open>The timers the application subscribes to, besides the window's events.\<close>

datatype timer = TmSettle instant nat | TmHide instant | TmFrame duration

definition subscriptions :: "('p, 'i) app \<Rightarrow> timer list" where
  "subscriptions a =
     (case ap_contrast_change a of Some (since, revision) \<Rightarrow> [TmSettle (since + millis 350) revision] | None \<Rightarrow> []) @
     (case ap_finished_at a of Some since \<Rightarrow> if ap_progress_visible a then [TmHide (since + secs 8)] else [] | None \<Rightarrow> []) @
     (if ap_window a \<noteq> None \<and> (if ap_progress_visible a then ap_reveal a < 1 else ap_reveal a > 0)
      then [TmFrame (millis 16)] else [])"

end
