(* ===== verification/DesktopInv.thy ===== *)
theory DesktopInv
  imports Desktop Systems
begin

text \<open>
  The desktop application together with the tasks it started: a machine whose inputs are messages of the
  user and the engine, in any order, and the results of running tasks. The invariant says who owns the
  engine, that the preview shows what the settings say, and where a prepared document comes from.
\<close>

section \<open>The machine\<close>

text \<open>\<open>dk_names\<close> is the file name of a path and \<open>dk_render\<close> the rendering of a page in a tone, both parts of
  the document component; \<open>dk_spool\<close> are the documents it published. \<open>dk_failed\<close> collects the revisions
  whose rendering failed.\<close>

record ('p, 'i) desktop =
  dk_names :: "path \<Rightarrow> utext"
  dk_render :: "'p \<Rightarrow> binarization \<Rightarrow> int \<Rightarrow> utext + 'i"
  dk_app :: "('p, 'i) app"
  dk_tasks :: "'p desk_task list"
  dk_spool :: "(uuid \<times> prepared_document) list"
  dk_failed :: "nat list"

definition layout :: "document_options \<Rightarrow> paper_size \<times> resolution" where
  "layout o' = (do_paper o', do_resolution o')"

definition tone :: "document_options \<Rightarrow> binarization \<times> int" where
  "tone o' = (do_binarization o', do_contrast o')"

text \<open>What \<open>Documents::prepare\<close> and \<open>Documents::adjust\<close> promise of the document they publish.\<close>

definition publishes :: "('p, 'i) desktop \<Rightarrow> uuid option \<Rightarrow> document_input \<Rightarrow> prepared_document \<Rightarrow> bool" where
  "publishes s original input d \<longleftrightarrow>
     map_of (dk_spool s) (doc_id d) = None \<and> doc_options d = di_options input \<and>
     (case original of
        None \<Rightarrow> doc_sources d = map (dk_names s) (di_paths input)
      | Some i \<Rightarrow>
          (case map_of (dk_spool s) i of
             None \<Rightarrow> False
           | Some d0 \<Rightarrow> doc_sources d = doc_sources d0 \<and> layout (doc_options d0) = layout (di_options input)))"

text \<open>The messages that are results of tasks, and the results a task may have.\<close>

definition is_result :: "('p, 'i) message \<Rightarrow> bool" where
  "is_result m =
     (case m of
        MEngine (MsStarted _) \<Rightarrow> True | MEngine (MsStopped _) \<Rightarrow> True | MEngine (MsProfileSaved _ _) \<Rightarrow> True
      | MDocument (MsPrepared _ _) \<Rightarrow> True | MDocument (MsSourceLoaded _ _ _) \<Rightarrow> True
      | MDocument (MsToneLoaded _ _ _ _) \<Rightarrow> True | _ \<Rightarrow> False)"

definition completes :: "('p, 'i) desktop \<Rightarrow> 'p desk_task \<Rightarrow> ('p, 'i) message \<Rightarrow> bool" where
  "completes s t m =
     (case m of
        MEngine (MsStarted r) \<Rightarrow> t = DkStart \<and> r \<noteq> Inr None
      | MEngine (MsStopped _) \<Rightarrow> t = DkShutdown
      | MEngine (MsProfileSaved revision _) \<Rightarrow>
          (case t of DkSaveProfile n _ _ \<Rightarrow> n = revision | _ \<Rightarrow> False)
      | MDocument (MsPrepared operation r) \<Rightarrow>
          (case t of
             DkPrepare n original input \<Rightarrow>
               n = operation \<and> (case r of Inl _ \<Rightarrow> True | Inr d \<Rightarrow> publishes s original input d)
           | _ \<Rightarrow> False)
      | MDocument (MsSourceLoaded i page _) \<Rightarrow> t = DkSource i page
      | MDocument (MsToneLoaded i page revision r) \<Rightarrow>
          (case t of
             DkRender i' page' revision' src b c \<Rightarrow>
               i' = i \<and> page' = page \<and> revision' = revision \<and>
               (case r of Inl _ \<Rightarrow> True | Inr x \<Rightarrow> dk_render s src b c = Inr x)
           | _ \<Rightarrow> False)
      | _ \<Rightarrow> False)"

datatype ('p, 'i) desk_input =
    DiMessage instant uuid "('p, 'i) message"
  | DiResult instant uuid "'p desk_task" "('p, 'i) message"

definition desk_allowed :: "('p, 'i) desktop \<Rightarrow> ('p, 'i) desk_input \<Rightarrow> bool" where
  "desk_allowed s x =
     (case x of
        DiMessage _ _ m \<Rightarrow> \<not> is_result m
      | DiResult _ _ t m \<Rightarrow> t \<in> set (dk_tasks s) \<and> completes s t m)"

definition deliver :: "instant \<Rightarrow> uuid \<Rightarrow> ('p, 'i) message \<Rightarrow> ('p, 'i) desktop \<Rightarrow> ('p, 'i) desktop" where
  "deliver now i m s =
     (case app_update now i m (dk_app s) of (ts, a) \<Rightarrow> s\<lparr>dk_app := a, dk_tasks := dk_tasks s @ ts\<rparr>)"

definition record_result :: "('p, 'i) message \<Rightarrow> ('p, 'i) desktop \<Rightarrow> ('p, 'i) desktop" where
  "record_result m s =
     (case m of
        MDocument (MsPrepared _ (Inr d)) \<Rightarrow> s\<lparr>dk_spool := (doc_id d, d) # dk_spool s\<rparr>
      | MDocument (MsToneLoaded _ _ revision (Inl _)) \<Rightarrow> s\<lparr>dk_failed := revision # dk_failed s\<rparr>
      | _ \<Rightarrow> s)"

definition desk_step :: "('p, 'i) desk_input \<Rightarrow> ('p, 'i) desktop \<Rightarrow> ('p, 'i) desktop" where
  "desk_step x s =
     (case x of
        DiMessage now i m \<Rightarrow> deliver now i m s
      | DiResult now i t m \<Rightarrow> deliver now i m (record_result m (s\<lparr>dk_tasks := remove1 t (dk_tasks s)\<rparr>)))"

definition desk_boot ::
  "(path \<Rightarrow> utext) \<Rightarrow> ('p \<Rightarrow> binarization \<Rightarrow> int \<Rightarrow> utext + 'i) \<Rightarrow> instant \<Rightarrow> uuid \<Rightarrow> ('p, 'i) desktop" where
  "desk_boot names render now i =
     \<lparr>dk_names = names, dk_render = render, dk_app = snd (app_boot now i), dk_tasks = fst (app_boot now i :: ('p, 'i) updated),
      dk_spool = [], dk_failed = []\<rparr>"

section \<open>The invariant\<close>

definition is_life :: "'p desk_task \<Rightarrow> bool" where
  "is_life t = (case t of DkStart \<Rightarrow> True | DkShutdown \<Rightarrow> True | DkExit \<Rightarrow> True | _ \<Rightarrow> False)"

definition is_render :: "'p desk_task \<Rightarrow> bool" where
  "is_render t = (case t of DkRender _ _ _ _ _ _ \<Rightarrow> True | _ \<Rightarrow> False)"

definition is_prepare :: "'p desk_task \<Rightarrow> bool" where
  "is_prepare t = (case t of DkPrepare _ _ _ \<Rightarrow> True | _ \<Rightarrow> False)"

definition is_save :: "'p desk_task \<Rightarrow> bool" where
  "is_save t = (case t of DkSaveProfile _ _ _ \<Rightarrow> True | _ \<Rightarrow> False)"

text \<open>Who owns the engine: the start, the application, the shutdown, or nobody any more.\<close>

definition life_ok :: "bool \<Rightarrow> bool \<Rightarrow> bool \<Rightarrow> bool \<Rightarrow> 'p desk_task list \<Rightarrow> bool" where
  "life_ok starting closing runtime engine ts \<longleftrightarrow>
     starting \<and> \<not> runtime \<and> \<not> engine \<and> ts = [DkStart] \<or>
     \<not> starting \<and> runtime \<and> engine \<and> \<not> closing \<and> ts = [] \<or>
     \<not> starting \<and> \<not> runtime \<and> \<not> engine \<and> \<not> closing \<and> ts = [] \<or>
     \<not> starting \<and> \<not> runtime \<and> \<not> engine \<and> closing \<and> (ts = [DkShutdown] \<or> ts = [DkExit])"

text \<open>The preview: frames in flight, and the frame displayed at the newest revision.\<close>

definition preview_ok ::
  "('p, 'i) desktop \<Rightarrow> 'i option \<Rightarrow> 'p option \<Rightarrow> nat \<Rightarrow> nat \<Rightarrow> bool \<Rightarrow> uuid option \<Rightarrow> nat \<Rightarrow> binarization \<times> int \<Rightarrow>
   'p desk_task list \<Rightarrow> bool" where
  "preview_ok s shown src revision displayed rendering doc page v ts \<longleftrightarrow>
     displayed \<le> revision \<and> length ts = of_bool rendering \<and> (src \<noteq> None \<longrightarrow> doc \<noteq> None) \<and>
     (\<forall>i n r x b c. DkRender i n r x b c \<in> set ts \<longrightarrow>
        r \<le> revision \<and> (r = revision \<and> doc = Some i \<and> page = n \<longrightarrow> src = Some x \<and> v = (b, c))) \<and>
     (\<forall>x. src = Some x \<and> displayed = revision \<longrightarrow>
        (\<exists>y. shown = Some y \<and> dk_render s x (fst v) (snd v) = Inr y))"

definition settled :: "('p, 'i) desktop \<Rightarrow> ('p, 'i) app \<Rightarrow> bool" where
  "settled s a \<longleftrightarrow>
     (\<not> ap_closing a \<and> \<not> ap_rendering a \<and> ap_source a \<noteq> None \<and> ap_displayed a < ap_revision a \<longrightarrow>
        ap_revision a \<in> set (dk_failed s))"

text \<open>The documents: what is prepared was made from the listed files in the chosen layout, and the running
  preparation, if any, is the one whose result counts.\<close>

definition prepared_ok ::
  "('p, 'i) desktop \<Rightarrow> prepared_document option \<Rightarrow> path list \<Rightarrow> paper_size \<times> resolution \<Rightarrow> bool" where
  "prepared_ok s doc paths l \<longleftrightarrow>
     (\<forall>d. doc = Some d \<longrightarrow>
        map_of (dk_spool s) (doc_id d) = Some d \<and> doc_sources d = map (dk_names s) paths \<and> layout (doc_options d) = l)"

definition preparing_ok ::
  "nat \<Rightarrow> bool \<Rightarrow> uuid option \<Rightarrow> path list \<Rightarrow> paper_size \<times> resolution \<Rightarrow> 'p desk_task list \<Rightarrow> bool" where
  "preparing_ok operation preparing doc paths l ts \<longleftrightarrow>
     length ts = of_bool preparing \<and>
     (\<forall>n original input. DkPrepare n original input \<in> set ts \<longrightarrow>
        n = operation \<and> original = doc \<and> di_paths input = paths \<and> layout (di_options input) = l)"

text \<open>A save of the edited profile whose revision is still current stores the password in the editor.\<close>

definition saving_ok :: "nat \<Rightarrow> bool \<Rightarrow> utext \<Rightarrow> 'p desk_task list \<Rightarrow> bool" where
  "saving_ok revision saving password ts \<longleftrightarrow>
     length ts = of_bool saving \<and>
     (\<forall>n p v. DkSaveProfile n p v \<in> set ts \<longrightarrow>
        n \<le> revision \<and> (n = revision \<longrightarrow> v = (if password = [] then None else Some password)))"

definition early_ok :: "('p, 'i) app \<Rightarrow> bool" where
  "early_ok a \<longleftrightarrow>
     (ap_starting a \<longrightarrow> \<not> ap_rendering a \<and> ap_prepared a = None \<and> ap_source a = None \<and> ap_preparing a = None \<and>
        \<not> ap_saving_profile a)"

definition desk_base :: "('p, 'i) desktop \<Rightarrow> ('p, 'i) app \<Rightarrow> 'p desk_task list \<Rightarrow> bool" where
  "desk_base s a ts \<longleftrightarrow>
     life_ok (ap_starting a) (ap_closing a) (ap_runtime a) (ap_engine a) (filter is_life ts) \<and>
     (\<not> ap_closing a \<longrightarrow>
        early_ok a \<and>
        preview_ok s (ap_image a) (ap_source a) (ap_revision a) (ap_displayed a) (ap_rendering a)
          (map_option doc_id (ap_prepared a)) (ap_preview a) (tone (ap_options a)) (filter is_render ts) \<and>
        prepared_ok s (ap_prepared a) (ap_paths a) (layout (ap_options a)) \<and>
        preparing_ok (ap_operation a) (ap_preparing a \<noteq> None) (map_option doc_id (ap_prepared a)) (ap_paths a)
          (layout (ap_options a)) (filter is_prepare ts) \<and>
        saving_ok (ap_profile_revision a) (ap_saving_profile a) (ed_password (ap_editor a)) (filter is_save ts))"

definition desk_good :: "('p, 'i) desktop \<Rightarrow> ('p, 'i) app \<Rightarrow> 'p desk_task list \<Rightarrow> bool" where
  "desk_good s a ts \<longleftrightarrow> desk_base s a ts \<and> settled s a"

definition desk_ok :: "('p, 'i) desktop \<Rightarrow> bool" where
  "desk_ok s = desk_good s (dk_app s) (dk_tasks s)"

end
