(* ===== verification/DesktopSteps.thy ===== *)
theory DesktopSteps
  imports DesktopInv
begin

text \<open>
  Every operation of the desktop application keeps the invariant of \<open>DesktopInv\<close>: one lemma per group of
  messages, then the machine.
\<close>

definition keeps :: "('p, 'i) desktop \<Rightarrow> 'p desk_task list \<Rightarrow> ('p, 'i) updated \<Rightarrow> bool" where
  "keeps s ts r \<longleftrightarrow> desk_good s (snd r) (ts @ fst r)"

named_theorems keeps_rules "operations of the application that keep the invariant"

lemmas desk_task_kinds = is_life_def is_render_def is_prepare_def is_save_def

section \<open>Operations that do not matter\<close>

text \<open>The fields the invariant reads, and the tasks it counts.\<close>

definition still :: "('p, 'i) app \<Rightarrow> ('p, 'i) app \<Rightarrow> bool" where
  "still a b \<longleftrightarrow>
     ap_starting b = ap_starting a \<and> ap_closing b = ap_closing a \<and> ap_runtime b = ap_runtime a \<and>
     ap_engine b = ap_engine a \<and> ap_image b = ap_image a \<and> ap_source b = ap_source a \<and>
     ap_revision b = ap_revision a \<and> ap_displayed b = ap_displayed a \<and> ap_rendering b = ap_rendering a \<and>
     ap_prepared b = ap_prepared a \<and> ap_preview b = ap_preview a \<and> ap_options b = ap_options a \<and>
     ap_paths b = ap_paths a \<and> ap_operation b = ap_operation a \<and>
     (ap_preparing b = None \<longleftrightarrow> ap_preparing a = None) \<and> ap_profile_revision b = ap_profile_revision a \<and>
     ap_saving_profile b = ap_saving_profile a \<and> ed_password (ap_editor b) = ed_password (ap_editor a)"

definition idle_task :: "'p desk_task \<Rightarrow> bool" where
  "idle_task t \<longleftrightarrow> \<not> is_life t \<and> \<not> is_render t \<and> \<not> is_prepare t \<and> \<not> is_save t"

lemma still_refl [simp]: "still a a"
  by (simp add: still_def)

lemma still_good: "desk_good s a ts \<Longrightarrow> still a b \<Longrightarrow> list_all idle_task us \<Longrightarrow> desk_good s b (ts @ us)"
proof -
  assume "list_all idle_task us"
  then have "filter is_life us = []" "filter is_render us = []" "filter is_prepare us = []" "filter is_save us = []"
    by (simp_all add: filter_empty_conv list_all_iff idle_task_def)
  moreover assume "desk_good s a ts" "still a b"
  ultimately show ?thesis by (simp add: desk_good_def desk_base_def still_def settled_def early_ok_def)
qed

lemma still_keeps: "desk_good s a ts \<Longrightarrow> still a (snd r) \<Longrightarrow> list_all idle_task (fst r) \<Longrightarrow> keeps s ts r"
  unfolding keeps_def by (rule still_good)

lemma keeps_same [keeps_rules]: "desk_good s a ts \<Longrightarrow> keeps s ts ([], a)"
  by (simp add: keeps_def)

lemma keeps_then [keeps_rules]:
  "keeps s ts r \<Longrightarrow> (\<And>b us. desk_good s b us \<Longrightarrow> keeps s us (f b)) \<Longrightarrow> keeps s ts (then_update r f)"
proof -
  assume r: "keeps s ts r" and f: "\<And>b us. desk_good s b us \<Longrightarrow> keeps s us (f b)"
  obtain us b vs c where "r = (us, b)" "f b = (vs, c)" by (metis surj_pair)
  then show ?thesis using r f [of b "ts @ us"] by (simp add: keeps_def then_update_def)
qed

text \<open>An update of fields the invariant does not read.\<close>

lemma good_quiet: "desk_good s a ts \<Longrightarrow> still a b \<Longrightarrow> desk_good s b ts"
  using still_good [of s a ts b "[]"] by simp

lemma keeps_save_settings [keeps_rules]: "desk_good s a ts \<Longrightarrow> keeps s ts (app_save_settings a)"
  by (erule still_keeps) (simp_all add: app_save_settings_def with_engine_def idle_task_def desk_task_kinds)

lemmas quiet_defs =
  on_opened_def on_effect_def on_queue_changed_def on_queue_cleared_def on_tick_def on_animate_def on_action_finished_def
  on_destination_saved_def on_save_destination_def on_name_destination_def with_engine_def show_progress_def
  hide_progress_def configure_receive_def edit_profile_def on_cancel_preparation_def Let_def

lemma still_view [simp]: "still a (apply_view now v a)"
  by (auto simp: still_def apply_view_def follow_jobs_def show_progress_def Let_def split: option.splits)

lemma keeps_destination [keeps_rules]: "desk_good s a ts \<Longrightarrow> keeps s ts (on_destination i m a)"
proof (cases m)
  case (MsUseDestination d)
  assume good: "desk_good s a ts"
  show ?thesis
  proof (cases "find_by dest_id d (ev_destinations (ap_view a))")
    case None
    then show ?thesis using good MsUseDestination by (simp add: on_use_destination_def keeps_same)
  next
    case (Some x)
    show ?thesis using good unfolding MsUseDestination on_destination.simps on_use_destination_def Some Let_def option.case
      by (intro keeps_rules) (auto intro: good_quiet simp: still_def)
  qed
qed (erule still_keeps; simp add: quiet_defs still_def idle_task_def desk_task_kinds split: option.splits)+

lemma keeps_receive [keeps_rules]: "desk_good s a ts \<Longrightarrow> keeps s ts (on_receive m a)"
  by (cases m; erule still_keeps; simp add: quiet_defs still_def idle_task_def desk_task_kinds)

section \<open>The preview\<close>

lemma keeps_rendering [keeps_rules]:
  "desk_base s a ts \<Longrightarrow> \<not> ap_closing a \<Longrightarrow> keeps s ts (render_preview a)"
proof (cases "ap_rendering a")
  case True
  assume "desk_base s a ts" "\<not> ap_closing a"
  then show ?thesis using True by (simp add: keeps_def render_preview_def desk_good_def settled_def)
next
  case idle: False
  assume base: "desk_base s a ts" and open': "\<not> ap_closing a"
  show ?thesis
  proof (cases "ap_source a")
    case None
    then have "render_preview a = ([], a)" using idle by (auto simp: render_preview_def split: option.splits)
    then show ?thesis using base None by (simp add: keeps_def desk_good_def settled_def)
  next
    case (Some src)
    then obtain d where d: "ap_prepared a = Some d" using base open' by (auto simp: desk_base_def preview_ok_def)
    then have r: "render_preview a =
      ([DkRender (doc_id d) (ap_preview a) (ap_revision a) src (do_binarization (ap_options a))
          (do_contrast (ap_options a))], a\<lparr>ap_rendering := True\<rparr>)" using Some idle by (simp add: render_preview_def)
    have "\<not> ap_starting a" using base open' d by (simp add: desk_base_def early_ok_def)
    then show ?thesis using base open' idle Some d
      by (simp add: keeps_def r desk_good_def desk_base_def settled_def desk_task_kinds preview_ok_def early_ok_def tone_def)
  qed
qed

text \<open>A new revision may change the source and the tone.\<close>

lemma preview_bump:
  assumes "preview_ok s shown src revision displayed rendering doc page v ts" "src' \<noteq> None \<longrightarrow> doc' \<noteq> None"
  shows "preview_ok s shown src' (Suc revision) displayed rendering doc' page' v' ts"
    and "preview_ok s None None (Suc revision) (Suc revision) rendering doc' page' v' ts"
proof -
  have "r \<le> revision" if "DkRender i n r x b c \<in> set ts" for i n r x b c
    using assms(1) that unfolding preview_ok_def by blast
  then have "r \<le> Suc revision \<and> r \<noteq> Suc revision" if "DkRender i n r x b c \<in> set ts" for i n r x b c
    using that by (simp add: le_SucI) (metis Suc_n_not_le_n)
  moreover have "displayed \<le> revision" "length ts = of_bool rendering"
    using assms(1) unfolding preview_ok_def by blast+
  ultimately show "preview_ok s shown src' (Suc revision) displayed rendering doc' page' v' ts"
    "preview_ok s None None (Suc revision) (Suc revision) rendering doc' page' v' ts"
    using assms(2) unfolding preview_ok_def by (intro conjI allI impI; fastforce)+
qed

lemma base_revision:
  assumes "desk_base s a ts" "\<not> ap_closing a" "src \<noteq> None \<longrightarrow> ap_prepared a \<noteq> None"
    "layout v = layout (ap_options a)"
  shows "desk_base s (a\<lparr>ap_source := src, ap_options := v, ap_revision := ap_revision a + 1\<rparr>) ts"
  using assms by (auto simp: desk_base_def early_ok_def intro: preview_bump(1))

lemma keeps_refresh:
  assumes "desk_base s a ts" "\<not> ap_closing a" "src \<noteq> None \<longrightarrow> ap_prepared a \<noteq> None"
    "layout v = layout (ap_options a)"
  shows "keeps s ts (refresh_preview (a\<lparr>ap_source := src, ap_options := v\<rparr>))"
  using keeps_rendering [OF base_revision [OF assms]] assms(2) by (simp add: refresh_preview_def)

lemma good_base: "desk_good s a ts \<Longrightarrow> desk_base s a ts"
  by (simp add: desk_good_def)

lemma base_cleared:
  assumes "desk_base s a ts" "\<not> ap_closing a"
  shows "desk_good s (clear_preview a) ts" "desk_good s ((clear_preview a)\<lparr>ap_preview := n\<rparr>) ts"
  using assms by (auto simp: desk_good_def desk_base_def early_ok_def settled_def clear_preview_def
      intro: preview_bump(2) [where src' = None])

lemma keeps_load:
  assumes "desk_base s a ts" "\<not> ap_closing a"
  shows "keeps s ts (load_preview (a\<lparr>ap_preview := n\<rparr>))"
proof (rule still_keeps)
  show "desk_good s ((clear_preview a)\<lparr>ap_preview := n\<rparr>) ts" by (rule base_cleared [OF assms])
qed (simp_all add: load_preview_def clear_preview_def with_engine_def Let_def still_def idle_task_def desk_task_kinds
    split: option.splits)

lemma keeps_source_loaded [keeps_rules]:
  assumes "desk_good s a ts" "\<not> ap_closing a"
  shows "keeps s ts (on_source_loaded i page r a)"
proof (cases "current_page i page a")
  case True
  then have "ap_prepared a \<noteq> None" by (auto simp: current_page_def)
  then have "keeps s ts (refresh_preview (a\<lparr>ap_source := Some x\<rparr>))" for x
    using keeps_refresh [OF good_base [OF assms(1)] assms(2), of "Some x" "ap_options a"] by simp
  moreover have "keeps s ts ([], a\<lparr>ap_notice := Some e\<rparr>)" for e
    by (rule still_keeps [OF assms(1)]) (simp_all add: still_def)
  ultimately show ?thesis using True by (simp add: on_source_loaded_def split: sum.split)
qed (use assms in \<open>simp add: on_source_loaded_def keeps_same\<close>)

text \<open>A frame has arrived: its task is gone, its revision may have been recorded as failed.\<close>

lemma keeps_tone_loaded:
  assumes good: "desk_good s a ts" and live: "\<not> ap_closing a" and t: "DkRender i page revision x b c \<in> set ts"
    and r: "\<And>y. r = Inr y \<Longrightarrow> dk_render s x b c = Inr y"
    and failed: "\<And>e. r = Inl e \<Longrightarrow> revision \<in> set (dk_failed s)"
  shows "keeps s (remove1 (DkRender i page revision x b c) ts) (on_tone_loaded i page revision r a)"
proof -
  let ?t = "DkRender i page revision x b c"
  let ?us = "remove1 ?t ts"
  have p: "preview_ok s (ap_image a) (ap_source a) (ap_revision a) (ap_displayed a) (ap_rendering a)
      (map_option doc_id (ap_prepared a)) (ap_preview a) (tone (ap_options a)) (filter is_render ts)"
    using good live by (simp add: desk_good_def desk_base_def)
  have mem: "?t \<in> set (filter is_render ts)" using t by (simp add: is_render_def)
  then have one: "filter is_render ts = [?t]"
    using p by (cases "filter is_render ts"; cases "ap_rendering a") (auto simp: preview_ok_def)
  have lists: "filter is_render ?us = []" "filter is_life ?us = filter is_life ts"
    "filter is_prepare ?us = filter is_prepare ts" "filter is_save ?us = filter is_save ts"
    by (simp_all add: filter_remove1 one) (simp_all add: desk_task_kinds remove1_idem)
  have at_rev: "revision \<le> ap_revision a"
    "revision = ap_revision a \<Longrightarrow> current_page i page a \<Longrightarrow> ap_source a = Some x \<and> tone (ap_options a) = (b, c)"
    using p one by (auto simp: preview_ok_def current_page_def)
  have base: "desk_base s (a\<lparr>ap_rendering := False, ap_image := u, ap_displayed := n\<rparr>) ?us"
    if "n \<le> ap_revision a" "n = ap_revision a \<Longrightarrow> ap_source a \<noteq> None \<Longrightarrow>
       (\<exists>y. u = Some y \<and> dk_render s (the (ap_source a)) (fst (tone (ap_options a))) (snd (tone (ap_options a))) = Inr y)"
    for u n
    using good live that by (auto simp: desk_good_def desk_base_def lists preview_ok_def early_ok_def)
  note defs = on_tone_loaded_def Let_def
  have same: "a\<lparr>ap_rendering := False, ap_image := ap_image a, ap_displayed := ap_displayed a\<rparr> = a\<lparr>ap_rendering := False\<rparr>"
    by simp
  have d: "ap_displayed a \<le> ap_revision a" using p by (simp add: preview_ok_def)
  have kept: "desk_base s (a\<lparr>ap_rendering := False\<rparr>) ?us"
    using base [of "ap_displayed a" "ap_image a"] p d unfolding same by (auto simp: preview_ok_def)
  show ?thesis
  proof (cases "current_page i page a \<and> revision > ap_displayed a")
    case newer: True
    show ?thesis
    proof (cases r)
      case (Inr y)
      have shown: "desk_base s (a\<lparr>ap_rendering := False, ap_image := Some y, ap_displayed := revision\<rparr>) ?us"
        using at_rev newer r [OF Inr] by (intro base) auto
      show ?thesis
      proof (cases "revision = ap_revision a")
        case True
        then show ?thesis using newer Inr shown
          by (simp add: defs keeps_def desk_good_def settled_def)
      next
        case False
        with newer Inr have "on_tone_loaded i page revision r a =
            render_preview (a\<lparr>ap_rendering := False, ap_image := Some y, ap_displayed := revision\<rparr>)" by (simp add: defs)
        then show ?thesis using keeps_rendering [OF shown] live by simp
      qed
    next
      case (Inl e)
      show ?thesis
      proof (cases "revision = ap_revision a")
        case True
        have "desk_good s (a\<lparr>ap_rendering := False\<rparr>) ?us"
          using kept failed [OF Inl] True by (simp add: desk_good_def settled_def)
        then show ?thesis using newer Inl True
          by (simp add: defs keeps_def) (erule good_quiet, simp add: still_def)
      next
        case False
        with newer Inl have "on_tone_loaded i page revision r a = render_preview (a\<lparr>ap_rendering := False\<rparr>)"
          by (simp add: defs)
        then show ?thesis using keeps_rendering [OF kept] live by simp
      qed
    qed
  next
    case stale: False
    show ?thesis
    proof (cases "current_page i page a \<and> revision = ap_revision a")
      case True
      with stale have "desk_good s (a\<lparr>ap_rendering := False\<rparr>) ?us" using kept d
        by (simp add: desk_good_def settled_def)
      with stale True show ?thesis by (simp add: defs keeps_def)
    next
      case False
      with stale have "on_tone_loaded i page revision r a = render_preview (a\<lparr>ap_rendering := False\<rparr>)"
        by (auto simp: defs)
      then show ?thesis using keeps_rendering [OF kept] live by simp
    qed
  qed
qed

section \<open>Documents\<close>

lemma good_invalidate:
  assumes "desk_good s a ts" "\<not> ap_closing a" "ap_preparing a = None"
  shows "desk_good s (invalidate_document (a\<lparr>ap_paths := paths, ap_options := v\<rparr>)) ts"
  using assms by (auto simp: desk_good_def desk_base_def early_ok_def settled_def invalidate_document_def clear_preview_def
      prepared_ok_def preparing_ok_def intro: preview_bump(2) [where src' = None])

lemma keeps_edit_paths:
  assumes "desk_good s a ts" "\<not> ap_closing a" "ap_preparing a = None"
  shows "keeps s ts ([], edit_paths f a)"
  using good_invalidate [OF assms, where paths = "f (ap_paths a)" and v = "ap_options a"] by (simp add: keeps_def edit_paths_def)

lemma keeps_paths [keeps_rules]:
  assumes "desk_good s a ts" "\<not> ap_closing a"
  shows "keeps s ts (on_files ps a)" "keeps s ts (on_remove n a)" "keeps s ts (on_move n offset a)"
  using keeps_edit_paths [OF assms] keeps_same [OF assms(1)]
  by (simp_all add: on_files_def on_remove_def on_move_def Let_def)

lemma keeps_layout [keeps_rules]:
  assumes "desk_good s a ts" "\<not> ap_closing a"
  shows "keeps s ts (change_layout f a)"
  using keeps_save_settings [OF good_invalidate [OF assms, where paths = "ap_paths a" and v = "f (ap_options a)"]] keeps_same [OF assms(1)]
  by (simp add: change_layout_def)

lemma engine_open: "desk_good s a ts \<Longrightarrow> ap_engine a \<Longrightarrow> \<not> ap_closing a \<and> \<not> ap_starting a"
  by (auto simp: desk_good_def desk_base_def life_ok_def)

lemma keeps_preparing [keeps_rules]: "desk_good s a ts \<Longrightarrow> keeps s ts (on_prepare a)"
proof (cases "ap_preparing a = None \<and> ap_engine a")
  case True
  assume good: "desk_good s a ts"
  then have "\<not> ap_closing a \<and> \<not> ap_starting a" using engine_open True by blast
  with good True show ?thesis
    by (simp add: on_prepare_def Let_def keeps_def desk_good_def desk_base_def desk_task_kinds preparing_ok_def early_ok_def
        settled_def)
qed (auto simp: on_prepare_def keeps_same)

lemma keeps_apply_contrast [keeps_rules]: "desk_good s a ts \<Longrightarrow> keeps s ts (on_apply_contrast a)"
proof -
  assume good: "desk_good s a ts"
  have "keeps s us (if ap_preparing b \<noteq> None \<and> ap_prepared b \<noteq> None then ([], b\<lparr>ap_apply_pending := True\<rparr>)
      else case ap_prepared b of
          Some d \<Rightarrow> if doc_options d \<noteq> ap_options b then on_prepare b else ([], b)
        | None \<Rightarrow> ([], b))" if b: "desk_good s b us" for b us
  proof -
    have "keeps s us ([], b\<lparr>ap_apply_pending := True\<rparr>)" using b by (rule still_keeps) (simp_all add: still_def)
    with keeps_same [OF b] keeps_preparing [OF b] show ?thesis by (simp split: option.split)
  qed
  moreover have "desk_good s (a\<lparr>ap_contrast_change := None\<rparr>) ts" using good by (rule good_quiet) (simp add: still_def)
  ultimately show ?thesis unfolding on_apply_contrast_def Let_def by (intro keeps_then keeps_save_settings)
qed

lemma keeps_tone [keeps_rules]:
  assumes "desk_good s a ts" "\<not> ap_closing a"
  shows "keeps s ts (on_binarization v a)" "keeps s ts (on_contrast now c a)"
proof -
  have src: "ap_source a \<noteq> None \<longrightarrow> ap_prepared a \<noteq> None"
    using assms by (simp add: desk_good_def desk_base_def preview_ok_def)
  have r: "keeps s ts (refresh_preview (a\<lparr>ap_options := o'\<rparr>))" if "layout o' = layout (ap_options a)" for o'
    using keeps_refresh [OF good_base [OF assms(1)] assms(2) src that] by simp
  show "keeps s ts (on_binarization v a)"
    using keeps_then [OF r keeps_apply_contrast] keeps_same [OF assms(1)] by (simp add: on_binarization_def layout_def)
  have "keeps s us ([], b\<lparr>ap_contrast_change := x\<rparr>)" if "desk_good s b us" for b us x
    using that by (rule still_keeps) (simp_all add: still_def)
  then show "keeps s ts (on_contrast now c a)"
    using keeps_then [OF r] keeps_same [OF assms(1)] by (simp add: on_contrast_def layout_def)
qed

lemma keeps_settled [keeps_rules]: "desk_good s a ts \<Longrightarrow> keeps s ts (on_contrast_settled n a)"
  by (simp add: on_contrast_settled_def keeps_apply_contrast keeps_same)

lemma keeps_enqueue [keeps_rules]: "desk_good s a ts \<Longrightarrow> keeps s ts (on_enqueue a)"
  by (erule still_keeps) (simp_all add: on_enqueue_def idle_task_def desk_task_kinds split: option.splits)

text \<open>The running preparation ends.\<close>

lemma prepare_only:
  assumes "desk_good s a ts" "\<not> ap_closing a" "DkPrepare n original input \<in> set ts"
  shows "filter is_prepare ts = [DkPrepare n original input]" "n = ap_operation a" "ap_preparing a \<noteq> None"
    "original = map_option doc_id (ap_prepared a)" "di_paths input = ap_paths a"
    "layout (di_options input) = layout (ap_options a)"
proof -
  have p: "preparing_ok (ap_operation a) (ap_preparing a \<noteq> None) (map_option doc_id (ap_prepared a)) (ap_paths a)
      (layout (ap_options a)) (filter is_prepare ts)" using assms(1,2) by (simp add: desk_good_def desk_base_def)
  have m: "DkPrepare n original input \<in> set (filter is_prepare ts)" using assms(3) by (simp add: is_prepare_def)
  then show "filter is_prepare ts = [DkPrepare n original input]" "ap_preparing a \<noteq> None" using p
    by (cases "filter is_prepare ts"; cases "ap_preparing a"; auto simp: preparing_ok_def)+
  show "n = ap_operation a" "original = map_option doc_id (ap_prepared a)" "di_paths input = ap_paths a"
    "layout (di_options input) = layout (ap_options a)" using p m unfolding preparing_ok_def by blast+
qed

lemma prepare_removed:
  assumes "desk_good s a ts" "\<not> ap_closing a" "DkPrepare n original input \<in> set ts"
  shows "filter is_prepare (remove1 (DkPrepare n original input) ts) = []"
    "filter is_life (remove1 (DkPrepare n original input) ts) = filter is_life ts"
    "filter is_render (remove1 (DkPrepare n original input) ts) = filter is_render ts"
    "filter is_save (remove1 (DkPrepare n original input) ts) = filter is_save ts"
  by (simp_all add: filter_remove1 prepare_only(1) [OF assms]) (simp_all add: desk_task_kinds remove1_idem)

lemma keeps_prepared:
  assumes good: "desk_good s a ts" and live: "\<not> ap_closing a" and t: "DkPrepare n original input \<in> set ts"
    and r: "\<And>d. r = Inr d \<Longrightarrow> prepared_ok s (Some d) (ap_paths a) (layout (ap_options a))"
  shows "keeps s (remove1 (DkPrepare n original input) ts) (on_prepared n r a)"
proof -
  let ?us = "remove1 (DkPrepare n original input) ts"
  let ?a = "a\<lparr>ap_preparing := None, ap_apply_pending := False\<rparr>"
  note lists = prepare_removed [OF good live t]
  have started: "\<not> ap_starting a" using good live prepare_only(3) [OF good live t]
    by (auto simp: desk_good_def desk_base_def early_ok_def)
  have good': "desk_good s ?a ?us" using good live
    by (simp add: desk_good_def desk_base_def lists preparing_ok_def early_ok_def settled_def)
  have quiet: "desk_good s (b\<lparr>ap_notice := x\<rparr>) us" if "desk_good s b us" for b us x
    using that by (rule good_quiet) (simp add: still_def)
  show ?thesis
  proof (cases r)
    case (Inl e)
    then show ?thesis using quiet [OF good'] prepare_only(2) [OF good live t]
      by (simp add: on_prepared_def Let_def keeps_def)
  next
    case (Inr d)
    let ?b = "\<lambda>src m. ?a\<lparr>ap_prepared := Some d, ap_preview := m, ap_source := src\<rparr>"
    have live': "desk_base s (?b src m\<lparr>ap_revision := Suc (ap_revision a)\<rparr>) ?us" for src m
      using good live started r [OF Inr]
      by (auto simp: desk_good_def desk_base_def lists preparing_ok_def early_ok_def intro: preview_bump(1))
    have "desk_good s (clear_preview (?b None m)) ?us" for m
      using good live started r [OF Inr]
      by (auto simp: desk_good_def desk_base_def lists preparing_ok_def early_ok_def clear_preview_def settled_def
          intro: preview_bump(2) [where src' = None])
    then have load: "keeps s ?us (load_preview (?b src m))" for src m
      by (rule still_keeps)
        (simp_all add: load_preview_def clear_preview_def with_engine_def Let_def still_def idle_task_def desk_task_kinds)
    have refresh: "keeps s ?us (refresh_preview (?b src m))" for src m
      using keeps_rendering [OF live' [of src m]] live by (simp add: refresh_preview_def)
    have rest: "keeps s us (if x then on_apply_contrast b else ([], b))" if "desk_good s b us" for x b us
      using keeps_apply_contrast [OF that] keeps_same [OF that] by simp
    have fields: "?b (ap_source a) (ap_preview a) = ?a\<lparr>ap_prepared := Some d\<rparr>"
      "?b (ap_source a) 1 = ?a\<lparr>ap_prepared := Some d, ap_preview := 1\<rparr>" by simp_all
    have "keeps s ?us (if ap_prepared a \<noteq> None \<and> ap_source a \<noteq> None then refresh_preview (?a\<lparr>ap_prepared := Some d\<rparr>)
        else load_preview (if ap_prepared a \<noteq> None then ?a\<lparr>ap_prepared := Some d\<rparr>
          else ?a\<lparr>ap_prepared := Some d, ap_preview := 1\<rparr>))"
      using load [of "ap_source a" "ap_preview a"] load [of "ap_source a" 1] refresh [of "ap_source a" "ap_preview a"]
      unfolding fields by simp
    then have "keeps s ?us (then_update
        (if ap_prepared a \<noteq> None \<and> ap_source a \<noteq> None then refresh_preview (?a\<lparr>ap_prepared := Some d\<rparr>)
         else load_preview (if ap_prepared a \<noteq> None then ?a\<lparr>ap_prepared := Some d\<rparr>
           else ?a\<lparr>ap_prepared := Some d, ap_preview := 1\<rparr>))
        (\<lambda>b. if ap_apply_pending a then on_apply_contrast b else ([], b)))"
      by (rule keeps_then) (rule rest)
    then show ?thesis
      using Inr prepare_only(2) [OF good live t]
      by (cases "ap_prepared a"; cases "ap_source a") (simp_all add: on_prepared_def Let_def)
  qed
qed

section \<open>Profiles\<close>

text \<open>An edit is a new revision, whatever it does to the editor.\<close>

lemma edit_is_editor: "\<exists>e. on_edit i m a = ([], a\<lparr>ap_editor := e\<rparr>)"
  by (cases m) (auto simp: edit_profile_def)

lemma saving_bump: "saving_ok n saving pw us \<Longrightarrow> saving_ok (Suc n) saving pw' us"
  unfolding saving_ok_def by (intro conjI allI impI; fastforce)

lemma good_edit:
  "desk_good s a ts \<Longrightarrow> desk_good s (a\<lparr>ap_profile_revision := ap_profile_revision a + 1, ap_editor := e\<rparr>) ts"
  by (auto simp: desk_good_def desk_base_def early_ok_def settled_def intro: saving_bump)

lemma keeps_edit:
  "desk_good s a ts \<Longrightarrow> keeps s ts (on_edit i m (a\<lparr>ap_profile_revision := ap_profile_revision a + 1\<rparr>))"
proof -
  let ?b = "a\<lparr>ap_profile_revision := ap_profile_revision a + 1\<rparr>"
  assume "desk_good s a ts"
  moreover obtain e where "on_edit i m ?b = ([], ?b\<lparr>ap_editor := e\<rparr>)" using edit_is_editor by blast
  ultimately show ?thesis unfolding keeps_def by (simp only: fst_conv snd_conv append_Nil2 good_edit)
qed

lemma keeps_save_profile [keeps_rules]: "desk_good s a ts \<Longrightarrow> keeps s ts (on_save_profile a)"
proof -
  assume good: "desk_good s a ts"
  have quiet: "keeps s ts ([], a\<lparr>ap_notice := Some e\<rparr>)" for e
    using good by (rule still_keeps) (simp_all add: still_def)
  have "keeps s ts ([DkSaveProfile (ap_profile_revision a) p
      (if ed_password (ap_editor a) = [] then None else Some (ed_password (ap_editor a)))], a\<lparr>ap_saving_profile := True\<rparr>)"
    if "\<not> ap_saving_profile a" "ap_engine a" for p
    using good that engine_open [OF good]
    by (simp add: keeps_def desk_good_def desk_base_def desk_task_kinds saving_ok_def early_ok_def settled_def)
  with quiet keeps_same [OF good] show ?thesis
    by (cases "ap_saving_profile a"; cases "ap_engine a"; cases "editor_profile (ap_editor a)") (simp_all add: on_save_profile_def)
qed

lemma keeps_profile_saved:
  assumes good: "desk_good s a ts" and live: "\<not> ap_closing a" and t: "DkSaveProfile n p v \<in> set ts"
  shows "keeps s (remove1 (DkSaveProfile n p v) ts) (on_profile_saved n r a)"
proof -
  let ?us = "remove1 (DkSaveProfile n p v) ts"
  have q: "saving_ok (ap_profile_revision a) (ap_saving_profile a) (ed_password (ap_editor a)) (filter is_save ts)"
    using good live by (simp add: desk_good_def desk_base_def)
  have "DkSaveProfile n p v \<in> set (filter is_save ts)" using t by (simp add: is_save_def)
  with q have one: "filter is_save ts = [DkSaveProfile n p v]"
    by (cases "filter is_save ts"; cases "ap_saving_profile a") (auto simp: saving_ok_def)
  then have "filter is_save ?us = []" by (simp add: filter_remove1)
  moreover have "filter is_life ?us = filter is_life ts" "filter is_render ?us = filter is_render ts"
    "filter is_prepare ?us = filter is_prepare ts"
    by (simp_all add: filter_remove1) (simp_all add: desk_task_kinds remove1_idem)
  ultimately show ?thesis unfolding on_profile_saved_def using good
    by (intro keeps_save_settings) (simp add: desk_good_def desk_base_def early_ok_def settled_def saving_ok_def)
qed

section \<open>Start and end\<close>

lemma keeps_quit [keeps_rules]: "desk_good s a ts \<Longrightarrow> keeps s ts (on_quit a)"
  by (auto simp: keeps_def on_quit_def Let_def desk_good_def desk_base_def settled_def life_ok_def desk_task_kinds)

lemma keeps_hide [keeps_rules]: "desk_good s a ts \<Longrightarrow> keeps s ts (on_hide a)"
proof -
  assume good: "desk_good s a ts"
  then have g: "desk_good s (a\<lparr>ap_window := None\<rparr>) ts" by (rule good_quiet) (simp add: still_def)
  have "keeps s ts ([DkCloseWindow w], a\<lparr>ap_window := None\<rparr>)" for w
    by (rule still_keeps [OF g]) (simp_all add: still_def idle_task_def desk_task_kinds)
  with keeps_same [OF g] keeps_quit [OF g] show ?thesis by (simp add: on_hide_def Let_def split: option.split)
qed

lemma keeps_window:
  assumes "desk_good s a ts" "\<not> ap_closing a"
  shows "keeps s ts (on_window now m a)"
proof (cases m)
  case (MsTray x)
  have "keeps s ts ([DkOpenWindow], a)" "keeps s ts ([DkGainFocus w], a)" for w
    by (rule still_keeps [OF assms(1)]; simp add: idle_task_def desk_task_kinds)+
  then show ?thesis using MsTray keeps_quit [OF assms(1)] by (simp add: on_tray_def split: tray_action.split option.split)
next
  case (MsFileDropped x)
  then show ?thesis using keeps_paths(1) [OF assms] by simp
next
  case MsCloseRequested
  then show ?thesis using keeps_hide [OF assms(1)] by simp
next
  case MsHide
  then show ?thesis using keeps_hide [OF assms(1)] by simp
next
  case MsQuit
  then show ?thesis using keeps_quit [OF assms(1)] by simp
qed (rule still_keeps [OF assms(1)];
    simp add: quiet_defs still_def idle_task_def desk_task_kinds split: option.split sum.split)+

lemma keeps_engine:
  assumes "desk_good s a ts" "\<not> is_result (MEngine m :: ('p, 'i) message)"
  shows "keeps s ts (on_engine now m a)"
proof (cases m)
  case (MsEngineChanged v)
  show ?thesis unfolding MsEngineChanged by (rule still_keeps [OF assms(1)]) simp_all
next
  case MsSaveProfile
  then show ?thesis using keeps_save_profile [OF assms(1)] by simp
next
  case (MsProfile p)
  have "desk_good s (a\<lparr>ap_profile := Some p\<rparr>) ts" using assms(1) by (rule good_quiet) (simp add: still_def)
  then show ?thesis using MsProfile keeps_save_settings by simp
next
  case (MsEffect x)
  show ?thesis unfolding MsEffect
    by (rule still_keeps [OF assms(1)]; cases x; simp add: on_effect_def still_def idle_task_def desk_task_kinds)
next
  case (MsProfileSaved n r)
  then show ?thesis using assms(2) by (simp add: is_result_def)
next
  case (MsStopped r)
  then show ?thesis using assms(2) by (simp add: is_result_def)
next
  case (MsStarted r)
  then show ?thesis using assms(2) by (simp add: is_result_def)
qed (rule still_keeps [OF assms(1)]; simp add: quiet_defs still_def idle_task_def desk_task_kinds split: sum.split)+

lemma keeps_document:
  assumes "desk_good s a ts" "\<not> ap_closing a" "\<not> is_result (MDocument m)"
  shows "keeps s ts (on_document now m a)"
proof (cases m)
  case (MsPreview n)
  then show ?thesis using keeps_load [OF good_base [OF assms(1)] assms(2)] by simp
next
  case MsCancelPreparation
  show ?thesis unfolding MsCancelPreparation by (rule still_keeps [OF assms(1)]) (simp_all add: on_cancel_preparation_def still_def)
next
  case MsBrowse
  show ?thesis unfolding MsBrowse by (rule still_keeps [OF assms(1)]) (simp_all add: idle_task_def desk_task_kinds)
qed (use assms(3) keeps_paths [OF assms(1,2)] keeps_layout [OF assms(1,2)] keeps_tone [OF assms(1,2)]
    keeps_settled [OF assms(1)] keeps_apply_contrast [OF assms(1)] keeps_preparing [OF assms(1)] keeps_enqueue [OF assms(1)]
    in \<open>simp_all add: is_result_def\<close>)

lemma started_frame:
  assumes "desk_good s a ts" "ap_starting a" "\<not> ap_closing a"
    "ap_starting b = False" "ap_closing b = False" "ap_runtime b = ap_engine b" "ap_image b = ap_image a" "ap_source b = ap_source a"
    "ap_revision b = ap_revision a" "ap_displayed b = ap_displayed a" "ap_rendering b = ap_rendering a"
    "ap_prepared b = ap_prepared a" "ap_paths b = ap_paths a" "ap_operation b = ap_operation a"
    "ap_preparing b = ap_preparing a" "ap_profile_revision b = ap_profile_revision a"
    "ap_saving_profile b = ap_saving_profile a" "list_all idle_task us"
  shows "desk_good s b (remove1 DkStart ts @ us)"
proof -
  have idle: "filter is_life us = []" "filter is_render us = []" "filter is_prepare us = []" "filter is_save us = []"
    using assms(18) by (simp_all add: filter_empty_conv list_all_iff idle_task_def)
  have "filter is_life ts = [DkStart]" using assms(1,2) by (auto simp: desk_good_def desk_base_def life_ok_def)
  then have lists: "filter is_life (remove1 DkStart ts) = []" "filter is_render (remove1 DkStart ts) = filter is_render ts"
    "filter is_prepare (remove1 DkStart ts) = filter is_prepare ts" "filter is_save (remove1 DkStart ts) = filter is_save ts"
    by (simp_all add: filter_remove1) (simp_all add: desk_task_kinds remove1_idem)
  note inv = assms(1)[unfolded desk_good_def desk_base_def early_ok_def]
  have early: "\<not> ap_rendering a" "ap_prepared a = None" "ap_source a = None" "ap_preparing a = None"
    "\<not> ap_saving_profile a" using inv assms(2,3) by simp_all
  then have "filter is_render ts = []" "filter is_prepare ts = []" "filter is_save ts = []" "ap_displayed a \<le> ap_revision a"
    using inv assms(3) by (simp_all add: preview_ok_def preparing_ok_def saving_ok_def)
  then show ?thesis using early
    by (simp add: desk_good_def desk_base_def settled_def early_ok_def idle lists assms(4-17) life_ok_def preview_ok_def
        prepared_ok_def preparing_ok_def saving_ok_def)
qed

lemma life_task:
  "life_ok starting closing runtime engine ts \<Longrightarrow> DkStart \<in> set ts \<Longrightarrow>
    ts = [DkStart] \<and> starting \<and> \<not> runtime \<and> \<not> engine"
  "life_ok starting closing runtime engine ts \<Longrightarrow> DkShutdown \<in> set ts \<Longrightarrow>
    ts = [DkShutdown] \<and> \<not> starting \<and> closing \<and> \<not> runtime \<and> \<not> engine"
  by (auto simp: life_ok_def)

lemma good_life: "desk_good s a ts \<Longrightarrow> life_ok (ap_starting a) (ap_closing a) (ap_runtime a) (ap_engine a) (filter is_life ts)"
  by (simp add: desk_good_def desk_base_def)

lemma keeps_started:
  assumes good: "desk_good s a ts" and t: "DkStart \<in> set ts" and r: "r \<noteq> Inr None"
  shows "keeps s (remove1 DkStart ts) (on_started now r a)"
proof -
  have "DkStart \<in> set (filter is_life ts)" using t by (simp add: is_life_def)
  then have life: "filter is_life ts = [DkStart]" "ap_starting a" "\<not> ap_runtime a" "\<not> ap_engine a"
    using life_task(1) [OF good_life [OF good]] by blast+
  show ?thesis
  proof (cases "ap_closing a")
    case True
    have "filter is_life (remove1 DkStart ts) = []" using life by (simp add: filter_remove1)
    with True life good r show ?thesis
      by (auto simp: on_started_def Let_def keeps_def desk_good_def desk_base_def life_ok_def settled_def is_life_def
          split: sum.splits option.splits)
  next
    case False
    have still: "ap_image (apply_view now v b) = ap_image b" "ap_source (apply_view now v b) = ap_source b"
      "ap_revision (apply_view now v b) = ap_revision b" "ap_displayed (apply_view now v b) = ap_displayed b"
      "ap_rendering (apply_view now v b) = ap_rendering b" "ap_prepared (apply_view now v b) = ap_prepared b"
      "ap_paths (apply_view now v b) = ap_paths b" "ap_operation (apply_view now v b) = ap_operation b"
      "ap_preparing (apply_view now v b) = ap_preparing b" "ap_profile_revision (apply_view now v b) = ap_profile_revision b"
      "ap_saving_profile (apply_view now v b) = ap_saving_profile b" "ap_starting (apply_view now v b) = ap_starting b"
      "ap_closing (apply_view now v b) = ap_closing b" for v and b :: "('a, 'b) app"
      by (auto simp: apply_view_def follow_jobs_def show_progress_def Let_def split: option.splits)
    show ?thesis using False r life unfolding keeps_def
      by (auto simp: on_started_def Let_def still idle_task_def desk_task_kinds
          intro!: started_frame [OF good life(2) False] started_frame [OF good life(2) False, where us = "[]", simplified]
          split: sum.split option.split)
  qed
qed

lemma keeps_stopped:
  assumes "desk_good s a ts" "DkShutdown \<in> set ts"
  shows "keeps s (remove1 DkShutdown ts) ([DkExit], a)"
proof -
  have "DkShutdown \<in> set (filter is_life ts)" using assms(2) by (simp add: is_life_def)
  then have "filter is_life ts = [DkShutdown]" "\<not> ap_starting a" "\<not> ap_runtime a" "\<not> ap_engine a" "ap_closing a"
    using life_task(2) [OF good_life [OF assms(1)]] by blast+
  then show ?thesis
    by (simp add: keeps_def desk_good_def desk_base_def life_ok_def settled_def filter_remove1 is_life_def)
qed

section \<open>The machine\<close>

lemma good_mono:
  assumes "desk_good s a ts" "dk_names s' = dk_names s" "dk_render s' = dk_render s"
    "set (dk_failed s) \<subseteq> set (dk_failed s')"
    "\<And>i d. map_of (dk_spool s) i = Some d \<Longrightarrow> map_of (dk_spool s') i = Some d"
  shows "desk_good s' a ts"
  using assms by (auto simp: desk_good_def desk_base_def settled_def preview_ok_def prepared_ok_def)

lemma closed_tasks: "desk_good s a ts \<Longrightarrow> ap_closing a \<Longrightarrow> filter is_life us = filter is_life ts \<Longrightarrow> desk_good s a us"
  by (simp add: desk_good_def desk_base_def settled_def)

lemma update_keeps:
  assumes good: "desk_good s a ts" and m: "\<not> is_result m"
  shows "keeps s ts (app_update now i m a)"
proof (cases "ap_closing a")
  case True
  have "\<not> ends_life m" using m by (auto simp: is_result_def ends_life_def split: message.splits engine_message.splits)
  with True show ?thesis using keeps_same [OF good] by (simp add: app_update_def)
next
  case False
  show ?thesis
  proof (cases m)
    case (MWindow x)
    then show ?thesis using keeps_window [OF good False] False by (simp add: app_update_def edits_profile_def)
  next
    case (MEngine x)
    then show ?thesis using keeps_engine [OF good] m False by (simp add: app_update_def edits_profile_def is_result_def)
  next
    case (MDocument x)
    then show ?thesis using keeps_document [OF good False] m False by (simp add: app_update_def edits_profile_def)
  next
    case (MDestination x)
    then show ?thesis using keeps_destination [OF good] False by (simp add: app_update_def edits_profile_def)
  next
    case (MReceive x)
    then show ?thesis using keeps_receive [OF good] False by (simp add: app_update_def edits_profile_def)
  next
    case (MEdit x)
    then show ?thesis using keeps_edit [OF good] False by (simp add: app_update_def edits_profile_def)
  qed
qed

text \<open>The document a preparation publishes was made from what is listed.\<close>

lemma published_ok:
  assumes good: "desk_good s a ts" and live: "\<not> ap_closing a" and t: "DkPrepare n original input \<in> set ts"
    and d: "publishes s original input d" and s': "dk_names s' = dk_names s" "dk_spool s' = (doc_id d, d) # dk_spool s"
  shows "prepared_ok s' (Some d) (ap_paths a) (layout (ap_options a))"
proof -
  note p = prepare_only [OF good live t]
  have "prepared_ok s (ap_prepared a) (ap_paths a) (layout (ap_options a))"
    using good live by (simp add: desk_good_def desk_base_def)
  then have "doc_sources d = map (dk_names s) (ap_paths a)"
    using d p by (cases "ap_prepared a") (auto simp: publishes_def prepared_ok_def)
  with d p s' show ?thesis by (simp add: prepared_ok_def publishes_def)
qed

lemma result_keeps:
  assumes good: "desk_good s a ts" and t: "t \<in> set ts" and c: "completes s t m"
    and s': "s' = record_result m s"
  shows "keeps s' (remove1 t ts) (app_update now i m a)"
proof -
  have mono: "desk_good s' a ts" using good
  proof (rule good_mono)
    show "map_of (dk_spool s) j = Some d \<Longrightarrow> map_of (dk_spool s') j = Some d" for j d using c
      by (auto simp: s' record_result_def completes_def publishes_def
          split: message.splits document_message.splits sum.splits desk_task.splits)
  qed (auto simp: s' record_result_def split: message.splits document_message.splits sum.splits)
  show ?thesis
  proof (cases "ap_closing a \<and> \<not> ends_life m")
    case True
    then have "\<not> is_life t" using c by (auto simp: completes_def ends_life_def is_life_def
        split: message.splits document_message.splits engine_message.splits desk_task.splits)
    then have "filter is_life (remove1 t ts) = filter is_life ts" by (simp add: filter_remove1 remove1_idem)
    with True mono show ?thesis by (simp add: app_update_def keeps_def closed_tasks)
  next
    case open': False
    consider (start) r where "m = MEngine (MsStarted r)" "t = DkStart" "r \<noteq> Inr None"
      | (stop) r where "m = MEngine (MsStopped r)" "t = DkShutdown"
      | (save) n p v r where "m = MEngine (MsProfileSaved n r)" "t = DkSaveProfile n p v"
      | (prepare) n original input r where "m = MDocument (MsPrepared n r)" "t = DkPrepare n original input"
          "\<forall>d. r = Inr d \<longrightarrow> publishes s original input d"
      | (source) j page r where "m = MDocument (MsSourceLoaded j page r)" "t = DkSource j page"
      | (frame) j page n x b v r where "m = MDocument (MsToneLoaded j page n r)" "t = DkRender j page n x b v"
          "\<forall>y. r = Inr y \<longrightarrow> dk_render s x b v = Inr y"
      using c by (auto simp: completes_def
          split: message.splits document_message.splits engine_message.splits desk_task.splits sum.splits)
    then show ?thesis
    proof cases
      case start
      then show ?thesis using keeps_started [OF mono] t by (simp add: app_update_def ends_life_def edits_profile_def)
    next
      case stop
      then show ?thesis using keeps_stopped [OF mono] t by (simp add: app_update_def ends_life_def edits_profile_def)
    next
      case save
      then show ?thesis using keeps_profile_saved [OF mono] t open' by (auto simp: app_update_def ends_life_def edits_profile_def)
    next
      case prepare
      have live: "\<not> ap_closing a" using open' prepare(1) by (simp add: ends_life_def)
      have "prepared_ok s' (Some d) (ap_paths a) (layout (ap_options a))" if "r = Inr d" for d
        using published_ok [OF good live, of n original input d s'] prepare t that by (simp add: s' record_result_def)
      then show ?thesis using keeps_prepared [OF mono live, of n original input r] t prepare live
        by (simp add: app_update_def edits_profile_def)
    next
      case source
      have live: "\<not> ap_closing a" using open' source(1) by (simp add: ends_life_def)
      have "\<not> is_life t \<and> \<not> is_render t \<and> \<not> is_prepare t \<and> \<not> is_save t" using source by (simp add: desk_task_kinds)
      then have "desk_good s' a (remove1 t ts)" using mono
        by (simp add: desk_good_def desk_base_def filter_remove1 remove1_idem)
      then show ?thesis using keeps_source_loaded live source by (simp add: app_update_def edits_profile_def)
    next
      case frame
      have live: "\<not> ap_closing a" using open' frame(1) by (simp add: ends_life_def)
      have "r = Inr y \<Longrightarrow> dk_render s' x b v = Inr y" "r = Inl e \<Longrightarrow> n \<in> set (dk_failed s')" for y e
        using frame by (auto simp: s' record_result_def split: sum.splits)
      then show ?thesis using keeps_tone_loaded [OF mono live, of j page n x b v r] t frame live
        by (simp add: app_update_def edits_profile_def)
    qed
  qed
qed

lemma deliver_ok:
  assumes "keeps s (dk_tasks s) (app_update now i m (dk_app s))"
  shows "desk_ok (deliver now i m s)"
proof -
  obtain ts a where "app_update now i m (dk_app s) = (ts, a)" by fastforce
  with assms show ?thesis by (auto simp: deliver_def desk_ok_def keeps_def intro: good_mono)
qed

theorem desk_step_ok: "desk_ok s \<Longrightarrow> desk_allowed s x \<Longrightarrow> desk_ok (desk_step x s)"
proof (cases x)
  case (DiMessage now i m)
  assume "desk_ok s" "desk_allowed s x"
  then have "keeps s (dk_tasks s) (app_update now i m (dk_app s))"
    using DiMessage by (intro update_keeps) (simp_all add: desk_allowed_def desk_ok_def)
  then show ?thesis using DiMessage by (simp add: desk_step_def deliver_ok)
next
  case (DiResult now i t m)
  assume ok: "desk_ok s" "desk_allowed s x"
  let ?s = "record_result m (s\<lparr>dk_tasks := remove1 t (dk_tasks s)\<rparr>)"
  have s: "?s = (record_result m s)\<lparr>dk_tasks := remove1 t (dk_tasks s)\<rparr>"
    by (simp add: record_result_def split: message.split document_message.split sum.split)
  have f: "dk_tasks ?s = remove1 t (dk_tasks s)" "dk_app ?s = dk_app s"
    by (simp_all add: record_result_def split: message.split document_message.split sum.split)
  have "keeps (record_result m s) (remove1 t (dk_tasks s)) (app_update now i m (dk_app s))"
    using ok DiResult by (intro result_keeps) (simp_all add: desk_allowed_def desk_ok_def)
  then have "keeps ?s (dk_tasks ?s) (app_update now i m (dk_app ?s))" unfolding f keeps_def
    by (rule good_mono) (simp_all add: s)
  then show ?thesis using DiResult by (simp add: desk_step_def deliver_ok)
qed

lemma boot_ok: "desk_ok (desk_boot names render now i)"
  by (simp add: desk_ok_def desk_boot_def app_boot_def desk_good_def desk_base_def settled_def early_ok_def life_ok_def
      preview_ok_def prepared_ok_def preparing_ok_def saving_ok_def desk_task_kinds)

interpretation desktop: labelled_system desk_step desk_ok desk_allowed
  by unfold_locales (rule desk_step_ok)

end
