(* ===== verification/DesktopProps.thy ===== *)
theory DesktopProps
  imports DesktopSteps
begin

text \<open>
  What the desktop application promises: quitting shuts every engine down that was opened and leads to the
  exit, the preview shows the current settings, a fax is the listed files in the chosen settings, and a typed
  password stays in the editor until it is replaced or was stored.
\<close>

section \<open>Runs\<close>

lemmas reached_ok = desktop.inv_run [OF boot_ok]

lemma deliver_fields [simp]:
  "dk_names (deliver now i m s) = dk_names s" "dk_render (deliver now i m s) = dk_render s"
  by (simp_all add: deliver_def split: prod.split)

lemma record_result_fields [simp]:
  "dk_names (record_result m s) = dk_names s" "dk_render (record_result m s) = dk_render s"
  "dk_app (record_result m s) = dk_app s" "dk_tasks (record_result m s) = dk_tasks s"
  by (simp_all add: record_result_def split: message.split document_message.split sum.split)

lemma step_fields [simp]: "dk_names (desk_step x s) = dk_names s" "dk_render (desk_step x s) = dk_render s"
  by (simp_all add: desk_step_def split: desk_input.split)

lemma run_fields [simp]: "dk_names (run desk_step xs s) = dk_names s" "dk_render (run desk_step xs s) = dk_render s"
  by (induction xs arbitrary: s) simp_all

lemma boot_fields [simp]:
  "dk_names (desk_boot names render now i) = names" "dk_render (desk_boot names render now i) = render"
  by (simp_all add: desk_boot_def)

text \<open>A session: the engine starts with one profile, a file is listed, prepared, previewed and its profile
  edited.\<close>

definition sample_desk_profile :: sip_profile where
  "sample_desk_profile =
     \<lparr>prof_id = [1], prof_name = lit ''Office'', prof_server = lit ''sip.example.org'', prof_port = 5060, prof_transport = TUdp,
      prof_username = lit ''fax'', prof_auth_username = None, prof_register = True, prof_outbound_proxy = None,
      prof_station_id = lit ''Faxe'', prof_sending_mode = FAuto, prof_automatic_nat = True, prof_stun_server = None,
      prof_playout_delay = 200\<rparr>"

definition sample_desk_document :: prepared_document where
  "sample_desk_document = \<lparr>doc_id = [9], doc_pages = 1, doc_sources = [[5]], doc_options = default_document_options\<rparr>"

definition sample_boot :: "(nat, nat) desktop" where
  "sample_boot = desk_boot (\<lambda>p. p) (\<lambda>x b c. Inr (x + 1)) 0 [0]"

definition sample_session :: "(nat, nat) desk_input list" where
  "sample_session =
     [DiResult 1 [0] DkStart (MEngine (MsStarted (Inr (Some \<lparr>st_settings = Inl [], st_view = default_view\<lparr>ev_profiles := [sample_desk_profile]\<rparr>\<rparr>)))),
      DiMessage 2 [0] (MDocument (MsFiles [[5]])),
      DiMessage 3 [0] (MDocument MsPrepare),
      DiResult 4 [0] (DkPrepare 1 None \<lparr>di_paths = [[5]], di_options = default_document_options\<rparr>) (MDocument (MsPrepared 1 (Inr sample_desk_document))),
      DiResult 5 [0] (DkSource [9] 1) (MDocument (MsSourceLoaded [9] 1 (Inr 7))),
      DiResult 6 [0] (DkRender [9] 1 3 7 Photo 0) (MDocument (MsToneLoaded [9] 1 3 (Inr 8))),
      DiMessage 7 [0] (MEdit (MsPassword [6])),
      DiMessage 8 [0] (MEngine MsSaveProfile)]"

definition sample_desktop :: "(nat, nat) desktop" where
  "sample_desktop = run desk_step sample_session sample_boot"

lemma sample_allowed: "desktop.allowed_run sample_session sample_boot"
  unfolding sample_session_def desktop.allowed_run.simps by code_simp

lemma sample_state:
  "ap_closing (dk_app sample_desktop) = False" "ap_rendering (dk_app sample_desktop) = False"
  "ap_source (dk_app sample_desktop) = Some 7"
  by code_simp+

section \<open>The engine and the password\<close>

text \<open>Who owns the engine's runtime, and the password of the editor; most messages touch neither.\<close>

definition own :: "('p, 'i) app \<Rightarrow> bool \<times> utext" where
  "own a = (ap_runtime a, ed_password (ap_editor a))"

definition inert :: "('p, 'i) app \<Rightarrow> ('p, 'i) updated \<Rightarrow> bool" where
  "inert a r \<longleftrightarrow> own (snd r) = own a \<and> DkShutdown \<notin> set (fst r)"

lemma inert_from: "inert b r \<Longrightarrow> own b = own a \<Longrightarrow> inert a r"
  by (simp add: inert_def)

lemma inert_then: "inert a r \<Longrightarrow> (\<And>b. inert b (f b)) \<Longrightarrow> inert a (then_update r f)"
proof -
  assume r: "inert a r" and f: "\<And>b. inert b (f b)"
  obtain ts b us c where "r = (ts, b)" "f b = (us, c)" by (metis surj_pair)
  then show ?thesis using r f [of b] by (simp add: inert_def then_update_def)
qed

lemma own_view [simp]: "own (apply_view now v a) = own a"
  using still_view [of a now v] by (auto simp: own_def apply_view_def follow_jobs_def show_progress_def Let_def split: option.splits)

lemma inert_basic [simp]:
  "inert a ([], a)" "inert a (app_save_settings a)" "inert a (render_preview a)" "inert a (refresh_preview a)"
  "inert a (load_preview a)" "inert a (on_prepare a)" "inert a (on_enqueue a)"
  by (auto simp: inert_def own_def app_save_settings_def with_engine_def refresh_preview_def render_preview_def load_preview_def
      clear_preview_def on_prepare_def on_enqueue_def Let_def split: option.splits)

lemma inert_apply [simp]: "inert a (on_apply_contrast a)"
proof -
  let ?b = "a\<lparr>ap_contrast_change := None\<rparr>"
  have "inert ?b (on_apply_contrast a)"
    unfolding on_apply_contrast_def Let_def
    by (intro inert_then) (auto simp: inert_def [of _ "([], _)"] own_def split: option.splits)
  then show ?thesis by (rule inert_from) (simp add: own_def)
qed

lemma own_paths [simp]: "own (edit_paths g a) = own a" "own (invalidate_document a) = own a"
  by (simp_all add: own_def edit_paths_def invalidate_document_def clear_preview_def)

lemma inert_refresh [simp]:
  "own b = own a \<Longrightarrow> inert a (refresh_preview b)" "own b = own a \<Longrightarrow> inert a (render_preview b)"
  "own b = own a \<Longrightarrow> inert a (load_preview b)" "own b = own a \<Longrightarrow> inert a (app_save_settings b)"
  "own b = own a \<Longrightarrow> inert a ([], b)"
  by (rule inert_basic [THEN inert_from], assumption)+

lemma own_fields [simp]:
  "own (a\<lparr>ap_source := x\<rparr>) = own a" "own (a\<lparr>ap_options := o'\<rparr>) = own a" "own (a\<lparr>ap_preview := n\<rparr>) = own a"
  "own (a\<lparr>ap_notice := e\<rparr>) = own a" "own (a\<lparr>ap_rendering := b\<rparr>) = own a" "own (a\<lparr>ap_prepared := d\<rparr>) = own a"
  "own (a\<lparr>ap_preparing := q\<rparr>) = own a" "own (a\<lparr>ap_apply_pending := p\<rparr>) = own a" "own (a\<lparr>ap_contrast_change := c\<rparr>) = own a"
  "own (a\<lparr>ap_image := i\<rparr>) = own a" "own (a\<lparr>ap_displayed := n\<rparr>) = own a" "own (a\<lparr>ap_profile := pr\<rparr>) = own a"
  by (simp_all add: own_def)

lemma inert_document: "inert a (on_document now m a)"
proof (cases m)
  case (MsSourceLoaded i page r)
  then show ?thesis by (auto simp: on_source_loaded_def split: sum.split)
next
  case (MsToneLoaded i page n r)
  then show ?thesis by (auto simp: on_tone_loaded_def Let_def split: sum.split)
next
  case (MsPrepared n r)
  then show ?thesis by (auto simp: on_prepared_def Let_def intro!: inert_then split: sum.split)
qed (auto simp: on_files_def on_remove_def on_move_def change_layout_def on_binarization_def on_contrast_def
    on_contrast_settled_def on_cancel_preparation_def Let_def inert_def [of _ "([DkPickFiles], _)"] intro!: inert_then)

lemma inert_destination: "inert a (on_destination i d a)"
  by (cases d) (auto simp: on_name_destination_def on_save_destination_def on_destination_saved_def on_use_destination_def
      with_engine_def app_save_settings_def Let_def inert_def own_def split: option.split)

lemma inert_receive: "inert a (on_receive r a)"
  by (cases r) (auto simp: configure_receive_def with_engine_def inert_def own_def)

text \<open>Quitting, the only other way to a shutdown than a start that ends while the application closes.\<close>

lemma window_quits: "inert a (on_window now m a) \<or> (\<exists>b. own b = own a \<and> ap_closing b = ap_closing a \<and> on_window now m a = on_quit b)"
proof -
  have hide: "inert a (on_hide a) \<or> (\<exists>b. own b = own a \<and> ap_closing b = ap_closing a \<and> on_hide a = on_quit b)"
  proof (cases "ap_tray a")
    case True
    then show ?thesis by (auto simp: on_hide_def inert_def own_def Let_def split: option.split)
  next
    case False
    then have "on_hide a = on_quit (a\<lparr>ap_window := None\<rparr>)" by (simp add: on_hide_def Let_def)
    then show ?thesis by (intro disjI2 exI [of _ "a\<lparr>ap_window := None\<rparr>"]) (simp add: own_def)
  qed
  show ?thesis
  proof (cases m)
    case (MsTray x)
    then show ?thesis by (cases x) (auto simp: on_tray_def inert_def split: option.split)
  qed (use hide in \<open>auto simp: on_opened_def on_files_def on_tick_def on_animate_def on_action_finished_def hide_progress_def
      Let_def inert_def own_def edit_paths_def invalidate_document_def clear_preview_def split: option.split sum.split\<close>)
qed

lemma engine_inert:
  assumes "\<And>r. m \<noteq> MsStarted r" "\<And>n r. m \<noteq> MsProfileSaved n r"
  shows "inert a (on_engine now m a)"
  using assms
  by (cases m) (auto simp: on_effect_def on_queue_changed_def on_queue_cleared_def with_engine_def app_save_settings_def
      on_save_profile_def show_progress_def hide_progress_def Let_def inert_def split: sum.split option.split engine_effect.split,
      simp_all add: own_def)

text \<open>The messages that put another password into the editor.\<close>

definition types_password :: "('p, 'i) message \<Rightarrow> bool" where
  "types_password m =
     (case m of MEdit (MsPassword _) \<Rightarrow> True | MEdit MsNewProfile \<Rightarrow> True | MEdit (MsEditProfile _) \<Rightarrow> True | _ \<Rightarrow> False)"

lemma edit_own:
  "ap_runtime (snd (on_edit i e a)) = ap_runtime a" "fst (on_edit i e a) = []"
  "\<not> types_password (MEdit e) \<Longrightarrow> ed_password (ap_editor (snd (on_edit i e a))) = ed_password (ap_editor a)"
  by (cases e; simp add: edit_profile_def on_transport_def Let_def types_password_def)+

section \<open>Leaving\<close>

definition life_result :: "('p, 'i) desk_input \<Rightarrow> bool" where
  "life_result x = (case x of DiMessage _ _ _ \<Rightarrow> False | DiResult _ _ t _ \<Rightarrow> is_life t)"

definition life_tasks :: "('p, 'i) desktop \<Rightarrow> 'p desk_task list" where
  "life_tasks s = filter is_life (dk_tasks s)"

definition life_rank :: "('p, 'i) desktop \<Rightarrow> nat" where
  "life_rank s = (if DkStart \<in> set (life_tasks s) then 2 else if DkShutdown \<in> set (life_tasks s) then 1 else 0)"

lemma life_members:
  "DkStart \<in> set (dk_tasks s) \<longleftrightarrow> DkStart \<in> set (life_tasks s)"
  "DkShutdown \<in> set (dk_tasks s) \<longleftrightarrow> DkShutdown \<in> set (life_tasks s)"
  "DkExit \<in> set (dk_tasks s) \<longleftrightarrow> DkExit \<in> set (life_tasks s)"
  by (auto simp: life_tasks_def is_life_def)

lemma ok_life:
  "desk_ok s \<Longrightarrow> life_ok (ap_starting (dk_app s)) (ap_closing (dk_app s)) (ap_runtime (dk_app s)) (ap_engine (dk_app s)) (life_tasks s)"
  by (simp add: desk_ok_def desk_good_def desk_base_def life_tasks_def)

lemma closing_ignores:
  "ap_closing a \<Longrightarrow> \<not> ends_life m \<Longrightarrow> app_update now i m a = ([], a)"
  by (simp add: app_update_def)

text \<open>A step of a closing application: results of the start and the shutdown advance it, nothing else does.\<close>

lemma closing_step:
  assumes ok: "desk_ok s" and x: "desk_allowed s x" and closing: "ap_closing (dk_app s)"
  shows "ap_closing (dk_app (desk_step x s)) \<and> life_rank (desk_step x s) + of_bool (life_result x) \<le> life_rank s"
proof (cases x)
  case (DiMessage now i m)
  then have "\<not> ends_life m" using x by (auto simp: desk_allowed_def is_result_def ends_life_def split: message.splits engine_message.splits)
  with DiMessage closing show ?thesis by (simp add: desk_step_def deliver_def closing_ignores life_result_def)
next
  case (DiResult now i t m)
  let ?s = "record_result m (s\<lparr>dk_tasks := remove1 t (dk_tasks s)\<rparr>)"
  have t: "t \<in> set (dk_tasks s)" "completes s t m" using x DiResult by (simp_all add: desk_allowed_def)
  show ?thesis
  proof (cases "ends_life m")
    case False
    then have "\<not> is_life t" using t(2)
      by (auto simp: completes_def ends_life_def is_life_def split: message.splits engine_message.splits document_message.splits desk_task.splits)
    then have "life_tasks (desk_step x s) = life_tasks s" "dk_app (desk_step x s) = dk_app s"
      using closing_ignores [OF closing False, of now i] DiResult
      by (simp_all add: life_tasks_def desk_step_def deliver_def filter_remove1 remove1_idem)
    with closing DiResult \<open>\<not> is_life t\<close> show ?thesis by (simp add: life_rank_def life_members life_result_def)
  next
    case True
    then obtain r q where "t = DkStart \<and> m = MEngine (MsStarted r) \<and> r \<noteq> Inr None \<or> t = DkShutdown \<and> m = MEngine (MsStopped q)"
      using t(2) by (auto simp: completes_def ends_life_def split: message.splits engine_message.splits)
    then consider (start) "t = DkStart" "m = MEngine (MsStarted r)" "r \<noteq> Inr None" | (stop) "t = DkShutdown" "m = MEngine (MsStopped q)"
      by blast
    then show ?thesis
    proof cases
      case start
      then have ts: "life_tasks s = [DkStart]" using ok_life [OF ok] t(1) life_members [of s] by (auto simp: life_ok_def)
      obtain us where us: "app_update now i m (dk_app s) = (us, (dk_app s)\<lparr>ap_starting := False\<rparr>)" "us = [DkExit] \<or> us = [DkShutdown]"
        using start closing by (cases r) (auto simp: app_update_def edits_profile_def on_started_def ends_life_def split: option.splits)
      have "life_tasks (desk_step x s) = us"
        using us ts DiResult start(1) by (auto simp: life_tasks_def desk_step_def deliver_def filter_remove1 is_life_def)
      moreover have "ap_closing (dk_app (desk_step x s))" using us closing DiResult by (simp add: desk_step_def deliver_def)
      ultimately show ?thesis using us(2) DiResult start(1) ts by (auto simp: life_rank_def life_result_def is_life_def)
    next
      case stop
      then have ts: "life_tasks s = [DkShutdown]" using ok_life [OF ok] t(1) life_members [of s] by (auto simp: life_ok_def)
      have us: "app_update now i m (dk_app s) = ([DkExit], dk_app s)"
        using stop by (simp add: app_update_def edits_profile_def ends_life_def)
      have "life_tasks (desk_step x s) = [DkExit]"
        using us ts DiResult stop(1) by (simp add: life_tasks_def desk_step_def deliver_def filter_remove1 is_life_def)
      moreover have "ap_closing (dk_app (desk_step x s))" using us closing DiResult by (simp add: desk_step_def deliver_def)
      ultimately show ?thesis using DiResult stop(1) ts by (simp add: life_rank_def life_result_def is_life_def)
    qed
  qed
qed

lemma desk_closing_run:
  assumes "desk_ok s" "desktop.allowed_run ys s" "ap_closing (dk_app s)"
  shows "ap_closing (dk_app (run desk_step ys s)) \<and> life_rank (run desk_step ys s) + length (filter life_result ys) \<le> life_rank s"
  using assms
proof (induction ys arbitrary: s)
  case (Cons y ys)
  then have y: "desk_ok s" "desk_allowed s y" "desktop.allowed_run ys (desk_step y s)" "ap_closing (dk_app s)" by simp_all
  note one = closing_step [OF y(1,2,4)]
  with Cons.IH [OF desk_step_ok [OF y(1,2)] y(3)] show ?case by (cases "life_result y") simp_all
qed simp

text \<open>The engines opened, those whose shutdown has ended, and those still held: by the application, or by a
  running shutdown.\<close>

definition opens_engine :: "('p, 'i) desk_input \<Rightarrow> bool" where
  "opens_engine x = (case x of DiResult _ _ DkStart (MEngine (MsStarted (Inr (Some _)))) \<Rightarrow> True | _ \<Rightarrow> False)"

definition ends_shutdown :: "('p, 'i) desk_input \<Rightarrow> bool" where
  "ends_shutdown x = (case x of DiResult _ _ DkShutdown _ \<Rightarrow> True | _ \<Rightarrow> False)"

definition held :: "('p, 'i) desktop \<Rightarrow> nat" where
  "held s = of_bool (ap_runtime (dk_app s)) + count_list (dk_tasks s) DkShutdown"

definition hands_over :: "('p, 'i) app \<Rightarrow> ('p, 'i) updated \<Rightarrow> bool" where
  "hands_over a r \<longleftrightarrow> of_bool (ap_runtime (snd r)) + count_list (fst r) DkShutdown = (of_bool (ap_runtime a) :: nat)"

lemma inert_hands_over: "inert a r \<Longrightarrow> hands_over a r"
  by (simp add: inert_def own_def hands_over_def count_notin)

lemma quit_hands_over: "ap_closing b \<Longrightarrow> hands_over b (on_quit b)" "\<not> ap_closing b \<Longrightarrow> hands_over b (on_quit b)"
  by (simp_all add: hands_over_def on_quit_def Let_def)

lemma update_hands_over: "\<not> ends_life m \<Longrightarrow> hands_over a (app_update now i m a)"
proof (cases "ap_closing a")
  case False
  assume m: "\<not> ends_life m"
  let ?b = "if edits_profile m then a\<lparr>ap_profile_revision := ap_profile_revision a + 1\<rparr> else a"
  have "hands_over ?b (dispatch now i m ?b)"
  proof (cases m)
    case (MWindow x)
    then show ?thesis
      using window_quits [of a now x] quit_hands_over by (fastforce simp: edits_profile_def hands_over_def own_def dest: inert_hands_over)
  next
    case (MEngine x)
    show ?thesis
    proof (cases "\<exists>n r. x = MsProfileSaved n r")
      case True
      then show ?thesis using MEngine
        by (auto simp: hands_over_def on_profile_saved_def app_save_settings_def with_engine_def edits_profile_def)
    next
      case False
      then show ?thesis using MEngine m by (auto simp: ends_life_def edits_profile_def intro!: inert_hands_over engine_inert)
    qed
  next
    case (MEdit x)
    then show ?thesis by (simp add: hands_over_def edit_own)
  qed (simp_all add: inert_hands_over inert_document inert_destination inert_receive edits_profile_def)
  then show ?thesis using False m by (simp add: app_update_def hands_over_def split: if_splits)
qed (simp add: app_update_def hands_over_def)

lemma count_remove1: "x \<in> set xs \<Longrightarrow> count_list (remove1 y xs) x = count_list xs x - of_bool (y = x)"
  by (induction xs) (auto simp: count_notin)

lemma shutdown_tasks: "count_list (dk_tasks s) DkShutdown = count_list (life_tasks s) DkShutdown"
proof -
  have "count_list ts DkShutdown = count_list (filter is_life ts) DkShutdown" for ts :: "'a desk_task list"
    by (induction ts) (auto simp: is_life_def)
  then show ?thesis by (simp add: life_tasks_def)
qed

lemma count_remove_other: "y \<noteq> x \<Longrightarrow> count_list (remove1 y xs) x = count_list xs x"
  by (induction xs) auto

lemma held_deliver:
  assumes "\<not> ends_life m"
  shows "held (deliver now i m s) = held s"
proof -
  obtain ts a where u: "app_update now i m (dk_app s) = (ts, a)" by fastforce
  have "hands_over (dk_app s) (ts, a)" using update_hands_over [OF assms] u by metis
  then show ?thesis by (simp add: held_def deliver_def u hands_over_def)
qed

lemma started_owner:
  assumes "r \<noteq> Inr None" "\<not> ap_runtime a"
  shows "of_bool (ap_runtime (snd (on_started now r a))) + count_list (fst (on_started now r a)) DkShutdown =
    (of_bool (is_ok r) :: nat)"
proof (cases r)
  case (Inl e)
  then show ?thesis using assms(2) by (simp add: on_started_def is_ok_def Let_def)
next
  case (Inr q)
  then obtain startup where q: "r = Inr (Some startup)" using assms(1) by (cases q) auto
  show ?thesis
  proof (cases "ap_closing a")
    case True
    then show ?thesis using assms(2) by (simp add: q on_started_def is_ok_def Let_def)
  next
    case False
    then show ?thesis by (simp add: q on_started_def is_ok_def Let_def)
  qed
qed

lemma step_held:
  assumes ok: "desk_ok s" and x: "desk_allowed s x"
  shows "held s + of_bool (opens_engine x) = held (desk_step x s) + of_bool (ends_shutdown x)"
proof (cases x)
  case (DiMessage now i m)
  then have "\<not> ends_life m" using x by (auto simp: desk_allowed_def is_result_def ends_life_def split: message.splits engine_message.splits)
  with DiMessage show ?thesis by (simp add: desk_step_def held_deliver opens_engine_def ends_shutdown_def)
next
  case (DiResult now i t m)
  have t: "t \<in> set (dk_tasks s)" "completes s t m" using x DiResult by (simp_all add: desk_allowed_def)
  let ?s = "record_result m (s\<lparr>dk_tasks := remove1 t (dk_tasks s)\<rparr>)"
  show ?thesis
  proof (cases "ends_life m")
    case False
    have other: "t \<noteq> DkShutdown" "t \<noteq> DkStart"
      using t(2) False by (auto simp: completes_def ends_life_def split: message.splits engine_message.splits document_message.splits)
    then have "held ?s = held s" by (simp add: held_def count_remove_other)
    with False other DiResult show ?thesis
      by (cases t) (simp_all add: desk_step_def held_deliver opens_engine_def ends_shutdown_def)
  next
    case True
    then obtain r q where "t = DkStart \<and> m = MEngine (MsStarted r) \<and> r \<noteq> Inr None \<or> t = DkShutdown \<and> m = MEngine (MsStopped q)"
      using t(2) by (auto simp: completes_def ends_life_def split: message.splits engine_message.splits)
    then consider (start) "t = DkStart" "m = MEngine (MsStarted r)" "r \<noteq> Inr None" | (stop) "t = DkShutdown" "m = MEngine (MsStopped q)"
      by blast
    then show ?thesis
    proof cases
      case start
      then have life: "life_tasks s = [DkStart]" "\<not> ap_runtime (dk_app s)"
        using ok_life [OF ok] t(1) life_members [of s] by (auto simp: life_ok_def)
      then have "DkShutdown \<notin> set (dk_tasks s)" using life_members(2) [of s] by auto
      then have none: "count_list (remove1 DkStart (dk_tasks s)) DkShutdown = 0" "count_list (dk_tasks s) DkShutdown = 0"
        by (auto simp: count_list_0_iff dest: notin_set_remove1)
      obtain us a where u: "app_update now i m (dk_app s) = (us, a)" by fastforce
      have "of_bool (ap_runtime a) + count_list us DkShutdown = (of_bool (opens_engine x) :: nat)"
        using started_owner [of r "dk_app s" now] u start life(2) DiResult
        by (cases r) (auto simp: app_update_def ends_life_def edits_profile_def opens_engine_def)
      then show ?thesis using DiResult start(1) none life(2) u
        by (simp add: desk_step_def deliver_def held_def ends_shutdown_def)
    next
      case stop
      then have life: "life_tasks s = [DkShutdown]" "\<not> ap_runtime (dk_app s)"
        using ok_life [OF ok] t(1) life_members [of s] by (auto simp: life_ok_def)
      then have one: "count_list (dk_tasks s) DkShutdown = 1" using shutdown_tasks [of s] by simp
      have "count_list (remove1 DkShutdown (dk_tasks s)) DkShutdown = 0"
        using count_remove1 [of DkShutdown "dk_tasks s" DkShutdown] t(1) stop(1) one by simp
      then show ?thesis using DiResult stop one life(2)
        by (simp add: desk_step_def deliver_def held_def ends_shutdown_def opens_engine_def app_update_def ends_life_def edits_profile_def)
    qed
  qed
qed

lemma run_held:
  assumes "desk_ok s" "desktop.allowed_run xs s"
  shows "held s + length (filter opens_engine xs) = held (run desk_step xs s) + length (filter ends_shutdown xs)"
  using assms
proof (induction xs arbitrary: s)
  case (Cons x xs)
  then have x: "desk_ok s" "desk_allowed s x" "desktop.allowed_run xs (desk_step x s)" by simp_all
  note one = step_held [OF x(1,2)]
  with Cons.IH [OF desk_step_ok [OF x(1,2)] x(3)] show ?case by (cases "opens_engine x"; cases "ends_shutdown x") simp_all
qed simp

text \<open>C24: Quitting the desktop application leads to its exit, and every engine that was opened is shut down
  before. Once it is closing (\<open>Message::Quit\<close>), whatever messages and results follow, the runtime is no longer
  owned; either the exit is requested, and the shutdowns that have ended are as many as the engines opened
  since the boot, or exactly one of the start and the shutdown of the engine runs, the latter for the one
  opened engine whose shutdown has not ended; and two of their results bring the exit.\<close>

theorem quit_hands_engine_back:
  assumes "desktop.allowed_run xs (desk_boot names render now i)"
    and "desktop.allowed_run ys (run desk_step xs (desk_boot names render now i))"
    and "ap_closing (dk_app (run desk_step xs (desk_boot names render now i)))"
  shows "let s = run desk_step ys (run desk_step xs (desk_boot names render now i))
         in \<not> ap_runtime (dk_app s) \<and> \<not> ap_engine (dk_app s) \<and>
            (life_tasks s = [DkExit] \<or>
             length (filter life_result ys) < 2 \<and> (life_tasks s = [DkStart] \<or> life_tasks s = [DkShutdown])) \<and>
            length (filter opens_engine (xs @ ys)) =
              length (filter ends_shutdown (xs @ ys)) + of_bool (life_tasks s = [DkShutdown])"
proof -
  let ?s = "run desk_step xs (desk_boot names render now i)" and ?t = "run desk_step ys (run desk_step xs (desk_boot names render now i))"
  have ok: "desk_ok ?s" "desk_ok ?t" using assms reached_ok desktop.inv_run by blast+
  have c: "ap_closing (dk_app ?t)" "life_rank ?t + length (filter life_result ys) \<le> life_rank ?s"
    using desk_closing_run [OF ok(1) assms(2,3)] by auto
  have "life_rank ?s \<le> 2" by (simp add: life_rank_def)
  note life = ok_life [OF ok(2)]
  note shutdowns = shutdown_tasks [of ?t]
  have "length (filter opens_engine (xs @ ys)) = held ?t + length (filter ends_shutdown (xs @ ys))"
    using run_held [OF boot_ok, of "xs @ ys" names render now i] assms(1,2)
    by (simp add: run_append desktop.allowed_run_append) (simp add: held_def desk_boot_def app_boot_def)
  moreover have "held ?t = of_bool (life_tasks ?t = [DkShutdown])"
    using life c(1) shutdowns by (auto simp: life_ok_def held_def)
  ultimately show ?thesis using life c \<open>life_rank ?s \<le> 2\<close>
    by (auto simp: life_ok_def life_rank_def life_members)
qed

lemma quit_hands_engine_back_witness:
  "life_tasks (run desk_step [DiMessage 9 [0] (MWindow MsQuit), DiResult 10 [0] DkShutdown (MEngine (MsStopped (Inr ())))]
     sample_desktop) = [DkExit] \<and> length (filter opens_engine sample_session) = 1"
proof -
  let ?q = "DiMessage 9 [0] (MWindow MsQuit) :: (nat, nat) desk_input"
  let ?r = "DiResult 10 [0] DkShutdown (MEngine (MsStopped (Inr ()))) :: (nat, nat) desk_input"
  let ?s = "run desk_step [?q, ?r] sample_desktop"
  have "desk_allowed sample_desktop ?q" "desk_allowed (desk_step ?q sample_desktop) ?r"
    "ap_closing (dk_app (desk_step ?q sample_desktop))" by code_simp+
  then have "(life_tasks ?s = [DkExit] \<or> life_tasks ?s = [DkStart] \<or> life_tasks ?s = [DkShutdown]) \<and>
      length (filter opens_engine ((sample_session @ [?q]) @ [?r])) =
      length (filter ends_shutdown ((sample_session @ [?q]) @ [?r])) + of_bool (life_tasks ?s = [DkShutdown])"
    using sample_allowed quit_hands_engine_back [of "sample_session @ [?q]" "\<lambda>p. p" "\<lambda>x b c. Inr (x + 1)" 0 "[0]" "[?r]",
    folded sample_boot_def] by (auto simp: run_append desktop.allowed_run_append sample_desktop_def Let_def)
  moreover have "length (filter opens_engine sample_session) = 1" "length (filter ends_shutdown sample_session) = 0"
    by (simp_all add: sample_session_def opens_engine_def ends_shutdown_def)
  moreover have "DkStart \<notin> set (life_tasks ?s)" by code_simp
  ultimately show ?thesis by (auto simp: opens_engine_def ends_shutdown_def)
qed

section \<open>The preview\<close>

lemma reached_good:
  assumes "desktop.allowed_run xs (desk_boot names render now i)"
  defines "s \<equiv> run desk_step xs (desk_boot names render now i)"
  shows "desk_good s (dk_app s) (dk_tasks s)"
  using reached_ok [OF assms(1)] by (simp add: s_def desk_ok_def)

text \<open>C25: The preview shows what the settings say. In every state reached by any messages and results, an open
  application that has a page's source and renders nothing either displays that source rendered with the
  current binarization and contrast, at the newest revision, or the rendering of the newest revision
  failed.\<close>

theorem preview_shows_settings:
  assumes "desktop.allowed_run xs (desk_boot names render now i)"
  defines "s \<equiv> run desk_step xs (desk_boot names render now i)"
  defines "a \<equiv> dk_app s"
  assumes "\<not> ap_closing a" "\<not> ap_rendering a" "ap_source a = Some x"
  shows "ap_displayed a = ap_revision a \<and>
      (\<exists>y. ap_image a = Some y \<and> render x (do_binarization (ap_options a)) (do_contrast (ap_options a)) = Inr y) \<or>
    ap_revision a \<in> set (dk_failed s)"
proof -
  have good: "desk_good s a (dk_tasks s)" using reached_good [OF assms(1)] by (simp add: s_def a_def)
  have "dk_render s = render" by (simp add: s_def)
  with good assms(4-6) show ?thesis
    by (cases "ap_displayed a = ap_revision a") (auto simp: desk_good_def desk_base_def preview_ok_def settled_def tone_def)
qed

lemma preview_shows_settings_witness:
  "ap_displayed (dk_app sample_desktop) = ap_revision (dk_app sample_desktop) \<and>
     (\<exists>y. ap_image (dk_app sample_desktop) = Some y \<and> Inr (7 + 1) = (Inr y :: utext + nat)) \<or>
   ap_revision (dk_app sample_desktop) \<in> set (dk_failed sample_desktop)"
  using preview_shows_settings [of sample_session "\<lambda>p. p" "\<lambda>x b c. Inr (x + 1)" 0 "[0]", folded sample_boot_def, folded sample_desktop_def,
    OF sample_allowed] sample_state by simp

section \<open>Enqueuing\<close>

definition no_enqueue :: "('p, 'i) updated \<Rightarrow> bool" where
  "no_enqueue r \<longleftrightarrow> (\<forall>rq. DkEnqueue rq \<notin> set (fst r))"

lemma no_enqueue_then: "no_enqueue r \<Longrightarrow> (\<And>b. no_enqueue (f b)) \<Longrightarrow> no_enqueue (then_update r f)"
proof -
  assume r: "no_enqueue r" and f: "\<And>b. no_enqueue (f b)"
  obtain ts b us c where "r = (ts, b)" "f b = (us, c)" by (metis surj_pair)
  then show ?thesis using r f [of b] by (simp add: no_enqueue_def then_update_def)
qed

lemma no_enqueue_basic [simp]:
  "no_enqueue ([], a)" "no_enqueue (app_save_settings a)" "no_enqueue (render_preview a)" "no_enqueue (refresh_preview a)"
  "no_enqueue (load_preview a)" "no_enqueue (on_prepare a)" "no_enqueue (on_quit a)" "no_enqueue (on_hide a)"
  by (auto simp: no_enqueue_def app_save_settings_def with_engine_def refresh_preview_def render_preview_def load_preview_def
      on_prepare_def on_quit_def on_hide_def Let_def split: option.splits)

lemma no_enqueue_apply [simp]: "no_enqueue (on_apply_contrast a)"
  by (auto simp: on_apply_contrast_def Let_def intro!: no_enqueue_then split: option.splits)

lemma no_enqueue_document:
  assumes "m \<noteq> MsEnqueue"
  shows "no_enqueue (on_document now m a)"
proof (cases m)
  case (MsSourceLoaded i page r)
  then show ?thesis by (auto simp: on_source_loaded_def split: sum.split)
next
  case (MsToneLoaded i page n r)
  then show ?thesis by (simp add: on_tone_loaded_def Let_def)
next
  case (MsPrepared n r)
  then show ?thesis by (auto simp: on_prepared_def Let_def intro!: no_enqueue_then split: sum.split)
next
  case MsEnqueue
  then show ?thesis using assms by simp
qed (auto simp: on_files_def on_remove_def on_move_def change_layout_def on_binarization_def on_contrast_def
    on_contrast_settled_def on_cancel_preparation_def Let_def no_enqueue_def [of "([DkPickFiles], _)"] intro!: no_enqueue_then)

lemma no_enqueue_window: "no_enqueue (on_window now m a)"
  by (cases m) (auto simp: on_opened_def on_files_def on_tray_def on_tick_def on_animate_def on_action_finished_def Let_def
      no_enqueue_def [of "(_ # _, _)"] no_enqueue_def [of "(if _ then _ else _, _)"] split: tray_action.split option.split)

lemma no_enqueue_engine: "no_enqueue (on_engine now m a)"
  by (cases m) (auto simp: on_started_def on_effect_def on_queue_changed_def on_queue_cleared_def with_engine_def
      on_save_profile_def on_profile_saved_def Let_def no_enqueue_def [of "(_ # _, _)"]
      split: sum.split option.split engine_effect.split)

lemma no_enqueue_others:
  "no_enqueue (on_destination i d a)" "no_enqueue (on_receive r a)" "no_enqueue (on_edit i e a)"
  subgoal by (cases d) (auto simp: on_name_destination_def on_save_destination_def on_destination_saved_def on_use_destination_def
      with_engine_def Let_def no_enqueue_def [of "(_ # _, _)"] split: option.split)
  subgoal by (cases r) (auto simp: configure_receive_def with_engine_def no_enqueue_def [of "(_ # _, _)"])
  subgoal by (cases e) (auto simp: edit_profile_def)
  done

lemma only_enqueue_enqueues:
  assumes "DkEnqueue rq \<in> set (fst (app_update now i m a))"
  shows "m = MDocument MsEnqueue \<and> \<not> ap_closing a"
proof -
  have "no_enqueue (dispatch now i m b)" if "m \<noteq> MDocument MsEnqueue" for b
    using that by (cases m) (auto simp: no_enqueue_document no_enqueue_window no_enqueue_engine no_enqueue_others)
  moreover have "m \<noteq> MDocument MsEnqueue" if "ends_life m" using that by (auto simp: ends_life_def)
  ultimately show ?thesis using assms by (auto simp: app_update_def no_enqueue_def split: if_splits)
qed

text \<open>C26: A fax is what the compose tab lists. Whatever message makes the application enqueue a fax in a reached
  state, the document it carries is one the document component published, made from exactly the listed files in
  their order and with exactly the current document options, no preparation is running, the profile is the
  selected one and the destination the trimmed input.\<close>

theorem fax_is_what_is_listed:
  assumes "desktop.allowed_run xs (desk_boot names render now i)"
  defines "s \<equiv> run desk_step xs (desk_boot names render now i)"
  defines "a \<equiv> dk_app s"
  assumes "DkEnqueue rq \<in> set (fst (app_update later j m a))"
  shows "map_of (dk_spool s) (doc_id (rq_document rq)) = Some (rq_document rq) \<and>
    doc_sources (rq_document rq) = map names (ap_paths a) \<and> doc_options (rq_document rq) = ap_options a \<and>
    ap_preparing a = None \<and> map_option prof_id (ap_profile a) = Some (rq_profile rq) \<and>
    rq_destination rq = trim (ap_destination a)"
proof -
  have good: "desk_good s a (dk_tasks s)" using reached_good [OF assms(1)] by (simp add: s_def a_def)
  have names: "dk_names s = names" by (simp add: s_def)
  from only_enqueue_enqueues [OF assms(4)] have m: "m = MDocument MsEnqueue" "\<not> ap_closing a" by auto
  then obtain p d where "ap_profile a = Some p" "ap_prepared a = Some d" "ap_preparing a = None" "doc_options d = ap_options a"
    "rq = \<lparr>rq_profile = prof_id p, rq_destination = trim (ap_destination a), rq_mode = prof_sending_mode p, rq_document = d\<rparr>"
    using assms(4) by (auto simp: app_update_def edits_profile_def on_enqueue_def split: option.splits if_splits)
  with good m(2) names show ?thesis by (simp add: desk_good_def desk_base_def prepared_ok_def)
qed

lemma fax_is_what_is_listed_witness:
  "map_of (dk_spool sample_desktop) [9] = Some sample_desk_document \<and> doc_sources sample_desk_document = ap_paths (dk_app sample_desktop)"
proof -
  have "DkEnqueue \<lparr>rq_profile = [1], rq_destination = [], rq_mode = FAuto, rq_document = sample_desk_document\<rparr>
      \<in> set (fst (app_update 9 [0] (MDocument MsEnqueue) (dk_app sample_desktop)))" by code_simp
  from fax_is_what_is_listed [of sample_session "\<lambda>p. p" "\<lambda>x b c. Inr (x + 1)" 0 "[0]", folded sample_boot_def,
      folded sample_desktop_def, OF sample_allowed this]
  show ?thesis by (simp add: sample_desk_document_def)
qed

section \<open>The password\<close>

lemma update_password:
  assumes "\<not> types_password m" "\<And>r. m \<noteq> MEngine (MsStarted r)" "\<And>n r. m \<noteq> MEngine (MsProfileSaved n r)"
  shows "ed_password (ap_editor (snd (app_update now i m a))) = ed_password (ap_editor a)"
proof -
  let ?b = "if edits_profile m then a\<lparr>ap_profile_revision := ap_profile_revision a + 1\<rparr> else a"
  have quit: "own b = own a \<Longrightarrow> ed_password (ap_editor (snd (on_quit b))) = ed_password (ap_editor a)" for b
    by (auto simp: on_quit_def own_def Let_def)
  have "ed_password (ap_editor (snd (dispatch now i m ?b))) = ed_password (ap_editor ?b)"
  proof (cases m)
    case (MWindow x)
    have "ed_password (ap_editor (snd (on_window now x a))) = ed_password (ap_editor a)"
    proof (cases "inert a (on_window now x a)")
      case False
      then obtain b where "own b = own a" "on_window now x a = on_quit b" using window_quits [of a now x] by blast
      with quit show ?thesis by simp
    qed (simp add: inert_def own_def)
    with MWindow show ?thesis by (simp add: edits_profile_def)
  next
    case (MEngine x)
    then show ?thesis using engine_inert [of x a now] assms(2,3) by (auto simp: edits_profile_def inert_def own_def)
  next
    case (MEdit x)
    have "ed_password (ap_editor (snd (on_edit i x b))) = ed_password (ap_editor b)" for b
      using assms(1) edit_own(3) [of x i b] MEdit by simp
    then show ?thesis unfolding MEdit dispatch.simps .
  next
    case (MDocument x)
    then show ?thesis using inert_document [of a now x] by (simp add: edits_profile_def inert_def own_def)
  next
    case (MDestination x)
    then show ?thesis using inert_destination [of a i x] by (simp add: edits_profile_def inert_def own_def)
  next
    case (MReceive x)
    then show ?thesis using inert_receive [of a x] by (simp add: edits_profile_def inert_def own_def)
  qed
  then show ?thesis by (simp add: app_update_def split: if_splits)
qed

text \<open>C27: A typed password stays in the editor until it is replaced or was stored. Whatever the next message or
  result in a reached state is, it leaves the editor's password as it is, unless it is one of the edits that put
  in another one (typing a password, a new profile, opening another profile), the end of the application's
  start, which loads the first profile, or the end of a save that succeeded with exactly this password. The end
  of a save, whatever its result, lets another save start and changes the editor in no other way.\<close>

theorem unsaved_password_kept:
  fixes x
  assumes "desktop.allowed_run xs (desk_boot names render now i)"
  defines "s \<equiv> run desk_step xs (desk_boot names render now i)"
  assumes "desk_allowed s x"
  defines "t \<equiv> desk_step x s"
  shows "(ed_password (ap_editor (dk_app t)) = ed_password (ap_editor (dk_app s)) \<or>
      (\<exists>later j m. x = DiMessage later j m \<and> types_password m) \<or>
      (\<exists>later j startup. x = DiResult later j DkStart (MEngine (MsStarted (Inr (Some startup))))) \<or>
      (\<exists>later j p. x = DiResult later j (DkSaveProfile (ap_profile_revision (dk_app s)) p
          (Some (ed_password (ap_editor (dk_app s))))) (MEngine (MsProfileSaved (ap_profile_revision (dk_app s)) (Inr ()))))) \<and>
    (\<forall>later j n p v r. x = DiResult later j (DkSaveProfile n p v) (MEngine (MsProfileSaved n r)) \<and> \<not> ap_closing (dk_app s) \<longrightarrow>
       \<not> ap_saving_profile (dk_app t) \<and>
       ap_editor (dk_app t) = (if r = Inr () \<and> n = ap_profile_revision (dk_app s) then (ap_editor (dk_app s))\<lparr>ed_password := []\<rparr>
                               else ap_editor (dk_app s)))"
proof -
  have good: "desk_good s (dk_app s) (dk_tasks s)" using reached_good [OF assms(1)] by (simp add: s_def)
  have ok: "is_ok r \<longleftrightarrow> r = Inr ()" for r :: "utext + unit" by (cases r) (auto simp: is_ok_def)
  have after: "dk_app t = snd (app_update later j m (dk_app s))"
    if "x = DiMessage later j m \<or> (\<exists>k. x = DiResult later j k m)" for later j m
    using that by (auto simp: t_def desk_step_def deliver_def split: prod.split)
  have saved: "app_update later j (MEngine (MsProfileSaved n r)) (dk_app s) = on_profile_saved n r (dk_app s)"
    if "\<not> ap_closing (dk_app s)" for later j n r
    using that by (simp add: app_update_def edits_profile_def ends_life_def)
  have editor: "\<not> ap_saving_profile (dk_app t) \<and>
       ap_editor (dk_app t) = (if r = Inr () \<and> n = ap_profile_revision (dk_app s) then (ap_editor (dk_app s))\<lparr>ed_password := []\<rparr>
                               else ap_editor (dk_app s))"
    if "x = DiResult later j k (MEngine (MsProfileSaved n r))" "\<not> ap_closing (dk_app s)" for later j k n r
    using after [of later j "MEngine (MsProfileSaved n r)"] that saved [OF that(2)]
    by (auto simp: on_profile_saved_def app_save_settings_def with_engine_def ok)
  have closed: "dk_app t = dk_app s" if "x = DiResult later j k (MEngine (MsProfileSaved n r))" "ap_closing (dk_app s)" for later j k n r
    using after [of later j "MEngine (MsProfileSaved n r)"] that by (simp add: app_update_def ends_life_def)
  have stored: "v = Some (ed_password (ap_editor (dk_app s)))"
    if "DkSaveProfile (ap_profile_revision (dk_app s)) p v \<in> set (dk_tasks s)" "\<not> ap_closing (dk_app s)"
      "ed_password (ap_editor (dk_app s)) \<noteq> []" for p v
  proof -
    have "DkSaveProfile (ap_profile_revision (dk_app s)) p v \<in> set (filter is_save (dk_tasks s))" using that(1) by (simp add: is_save_def)
    with good that(2,3) show ?thesis unfolding desk_good_def desk_base_def saving_ok_def by auto
  qed
  have kept: "ed_password (ap_editor (dk_app t)) = ed_password (ap_editor (dk_app s))"
    if "x = DiMessage later j m \<or> (\<exists>k. x = DiResult later j k m)" "\<not> types_password m"
      "\<And>r. m \<noteq> MEngine (MsStarted r)" "\<And>n r. m \<noteq> MEngine (MsProfileSaved n r)" for later j m
    using after [OF that(1)] update_password [OF that(2-4)] by simp
  show ?thesis
  proof (cases x)
    case (DiMessage later j m)
    then have "\<not> is_result m" using assms(3) by (simp add: desk_allowed_def)
    then have "m \<noteq> MEngine (MsStarted r)" "m \<noteq> MEngine (MsProfileSaved n r')" for r n r' by (auto simp: is_result_def)
    then show ?thesis using kept [of later j m] DiMessage by (cases "types_password m") auto
  next
    case (DiResult later j k m)
    then have k: "k \<in> set (dk_tasks s)" "completes s k m" using assms(3) by (simp_all add: desk_allowed_def)
    consider (saved) n r where "m = MEngine (MsProfileSaved n r)" | (started) r where "m = MEngine (MsStarted r)"
      | (other) "\<And>r. m \<noteq> MEngine (MsStarted r)" "\<And>n r. m \<noteq> MEngine (MsProfileSaved n r)" by blast
    then show ?thesis
    proof cases
      case saved
      then obtain p v where task: "k = DkSaveProfile n p v" using k(2) by (auto simp: completes_def split: desk_task.splits)
      show ?thesis
      proof (cases "ap_closing (dk_app s)")
        case True
        then show ?thesis using closed [of later j k n r] DiResult saved by simp
      next
        case False
        note e = editor [OF DiResult [unfolded saved] False]
        show ?thesis
        proof (cases "r = Inr () \<and> n = ap_profile_revision (dk_app s) \<and> ed_password (ap_editor (dk_app s)) \<noteq> []")
          case True
          then show ?thesis using stored [of p v] k(1) False e DiResult saved task by auto
        next
          case same: False
          then have "ed_password (ap_editor (dk_app t)) = ed_password (ap_editor (dk_app s))" using e by auto
          then show ?thesis using e DiResult saved task by auto
        qed
      qed
    next
      case started
      have "k = DkStart" "r \<noteq> Inr None" using k(2) started by (simp_all add: completes_def)
      moreover have "ed_password (ap_editor (dk_app t)) = ed_password (ap_editor (dk_app s))" if "r = Inl e" for e
        using after [of later j m] DiResult started that
        by (simp add: app_update_def ends_life_def edits_profile_def on_started_def Let_def)
      ultimately show ?thesis using DiResult started by (cases r) auto
    next
      case other
      have "\<not> types_password m" using k(2) by (auto simp: completes_def types_password_def split: message.splits)
      then show ?thesis using kept [of later j m] other DiResult by auto
    qed
  qed
qed

text \<open>A save that failed: the password is still there.\<close>

lemma unsaved_password_kept_witness:
  "ed_password (ap_editor (dk_app (desk_step (DiResult 9 [0] (DkSaveProfile 1 sample_desk_profile (Some [6]))
     (MEngine (MsProfileSaved 1 (Inl [])))) sample_desktop))) = [6]"
proof -
  let ?x = "DiResult 9 [0] (DkSaveProfile 1 sample_desk_profile (Some [6])) (MEngine (MsProfileSaved 1 (Inl []))) :: (nat, nat) desk_input"
  have "desk_allowed sample_desktop ?x" by code_simp
  from unsaved_password_kept [of sample_session "\<lambda>p. p" "\<lambda>x b c. Inr (x + 1)" 0 "[0]", folded sample_boot_def,
      folded sample_desktop_def, OF sample_allowed this]
  have "ed_password (ap_editor (dk_app (desk_step ?x sample_desktop))) = ed_password (ap_editor (dk_app sample_desktop))" by simp
  moreover have "ed_password (ap_editor (dk_app sample_desktop)) = [6]" by code_simp
  ultimately show ?thesis by simp
qed

end
