(* ===== verification/Documents.thy ===== *)
theory Documents
  imports Export Complex_Main
begin

text \<open>
  Prepared documents (\<open>document.rs\<close>): the pages of the listed files are rasterised to fax geometry, toned,
  packed into a TIFF and published by renaming a complete staging directory. Reading PDF and image files,
  resampling, dithering and the PNG, TIFF and JSON formats are the parameters of \<open>doc_env\<close>; \<open>f64\<close> values are
  rational, or real for the contrast curve.
\<close>

section \<open>Images\<close>

record gray_image =
  gi_width :: nat
  gi_height :: nat
  gi_pixels :: "byte list"

text \<open>A decoded image with the raw samples of its format; any other format by its conversion to RGBA.\<close>

datatype dynamic_image =
    ImLuma8 nat nat "byte list"
  | ImLumaA8 nat nat "byte list"
  | ImRgb8 nat nat "byte list"
  | ImRgba8 nat nat "byte list"
  | ImOther nat nat "byte list"

definition luma :: "byte \<Rightarrow> byte \<Rightarrow> byte \<Rightarrow> nat" where
  "luma r g b = (unat r * 299 + unat g * 587 + unat b * 114 + 500) div 1000"

definition composite :: "nat \<Rightarrow> byte \<Rightarrow> byte" where
  "composite gray alpha = of_nat ((gray * unat alpha + 255 * (255 - unat alpha) + 127) div 255)"

text \<open>Whole groups of samples; a rest is dropped, as \<open>as_chunks\<close> does here.\<close>

fun chunks2 :: "byte list \<Rightarrow> (byte \<times> byte) list" where
  "chunks2 (a # b # xs) = (a, b) # chunks2 xs"
| "chunks2 _ = []"

fun chunks3 :: "byte list \<Rightarrow> (byte \<times> byte \<times> byte) list" where
  "chunks3 (a # b # c # xs) = (a, b, c) # chunks3 xs"
| "chunks3 _ = []"

fun chunks4 :: "byte list \<Rightarrow> (byte \<times> byte \<times> byte \<times> byte) list" where
  "chunks4 (a # b # c # d # xs) = (a, b, c, d) # chunks4 xs"
| "chunks4 _ = []"

fun grayscale_on_white :: "dynamic_image \<Rightarrow> gray_image" where
  "grayscale_on_white (ImLuma8 w h px) = \<lparr>gi_width = w, gi_height = h, gi_pixels = px\<rparr>"
| "grayscale_on_white (ImLumaA8 w h px) =
     \<lparr>gi_width = w, gi_height = h, gi_pixels = map (\<lambda>(g, a). composite (unat g) a) (chunks2 px)\<rparr>"
| "grayscale_on_white (ImRgb8 w h px) =
     \<lparr>gi_width = w, gi_height = h, gi_pixels = map (\<lambda>(r, g, b). of_nat (luma r g b)) (chunks3 px)\<rparr>"
| "grayscale_on_white (ImRgba8 w h px) =
     \<lparr>gi_width = w, gi_height = h, gi_pixels = map (\<lambda>(r, g, b, a). composite (luma r g b) a) (chunks4 px)\<rparr>"
| "grayscale_on_white (ImOther w h px) =
     \<lparr>gi_width = w, gi_height = h, gi_pixels = map (\<lambda>(r, g, b, a). composite (luma r g b) a) (chunks4 px)\<rparr>"

section \<open>The environment\<close>

datatype resize_filter = Bilinear | Lanczos3

text \<open>The tags of a page and its packed rows, as given to the TIFF encoder; a resolution is over 1.\<close>

datatype tiff_tag =
    TgImageWidth | TgImageLength | TgBitsPerSample | TgCompression | TgPhotometric | TgFillOrder
  | TgSamplesPerPixel | TgRowsPerStrip | TgStripOffsets | TgStripByteCounts | TgXResolution | TgYResolution
  | TgResolutionUnit

record written_page =
  wp_data :: "byte list"
  wp_tags :: "(tiff_tag \<times> nat) list"

text \<open>\<open>pv_pdf\<close> loads a PDF and renders its pages, \<open>pv_decode\<close> reads an oriented image, \<open>pv_luma\<close> is
  \<open>into_luma8\<close>, \<open>pv_offset\<close> where the encoder writes the data of the next page; \<open>pv_cancelled\<close> and \<open>pv_uuid\<close> are
  readings of the cancellation flag and random ids.\<close>

record doc_env =
  pv_pdfium :: "engine_error + unit"
  pv_pdf :: "byte list \<Rightarrow> engine_error + (engine_error + dynamic_image) list"
  pv_decode :: "byte list \<Rightarrow> engine_error + dynamic_image"
  pv_luma :: "dynamic_image \<Rightarrow> gray_image"
  pv_resize :: "gray_image \<Rightarrow> nat \<Rightarrow> nat \<Rightarrow> resize_filter \<Rightarrow> utext + gray_image"
  pv_dither :: "gray_image \<Rightarrow> gray_image"
  pv_png :: "gray_image \<Rightarrow> engine_error + byte list"
  pv_offset :: "written_page list \<Rightarrow> nat"
  pv_tiff :: "written_page list \<Rightarrow> engine_error + byte list"
  pv_show :: "prepared_document \<Rightarrow> engine_error + byte list"
  pv_parse :: "byte list \<Rightarrow> engine_error + prepared_document"
  pv_cancelled :: "nat \<Rightarrow> bool"
  pv_uuid :: "nat \<Rightarrow> uuid"

section \<open>Geometry and tone\<close>

definition fax_width :: nat where
  "fax_width = 1728"

fun height_inches :: "paper_size \<Rightarrow> rat" where
  "height_inches A4 = 2970 / 254"
| "height_inches Letter = 11"

definition round_nat :: "rat \<Rightarrow> nat" where
  "round_nat x = nat (round x)"

definition resize_gray :: "doc_env \<Rightarrow> gray_image \<Rightarrow> nat \<Rightarrow> nat \<Rightarrow> resize_filter \<Rightarrow> engine_error + gray_image" where
  "resize_gray env g w h f = map_err (\<lambda>e. EInvalid (lit ''Could not resize page: '' @ e)) (pv_resize env g w h f)"

definition preview_gray :: "doc_env \<Rightarrow> gray_image \<Rightarrow> document_options \<Rightarrow> engine_error + gray_image" where
  "preview_gray env page opts =
     resize_gray env page 500
       (round_nat (500 * height_inches (do_paper opts) / (of_nat fax_width / 204))) Bilinear"

definition page_height :: "document_options \<Rightarrow> nat" where
  "page_height opts = round_nat (height_inches (do_paper opts) * of_nat (vertical_dpi (do_resolution opts)))"

text \<open>The scale of an image; an image without extent scales by infinity in that direction (\<open>None\<close>).\<close>

definition min_scale :: "rat option \<Rightarrow> rat option \<Rightarrow> rat option" where
  "min_scale a b = (case (a, b) of (Some x, Some y) \<Rightarrow> Some (min x y) | (Some x, None) \<Rightarrow> Some x | (None, y) \<Rightarrow> y)"

definition scale_to :: "rat \<Rightarrow> nat \<Rightarrow> rat option" where
  "scale_to limit n = (if n = 0 then None else Some (limit / of_nat n))"

text \<open>Width and height of the image on the page. Infinity times nothing is no number, and \<open>max\<close> takes 1.\<close>

definition fit :: "document_options \<Rightarrow> nat \<Rightarrow> nat \<Rightarrow> nat \<times> nat" where
  "fit opts w h =
     (let ydpi = vertical_dpi (do_resolution opts);
          max_width = fax_width - 2 * 41;
          max_height = page_height opts - 2 * (ydpi div 5)
      in case min_scale (scale_to (of_nat max_width) w) (scale_to (of_nat max_height * 204 / of_nat ydpi) h) of
           None \<Rightarrow> (1, 1)
         | Some scale \<Rightarrow>
             (max 1 (round_nat (of_nat w * scale)), max 1 (round_nat (of_nat h * scale * of_nat ydpi / 204))))"

text \<open>A white page with an image pasted at an offset.\<close>

definition paste :: "nat \<Rightarrow> nat \<Rightarrow> gray_image \<Rightarrow> nat \<Rightarrow> nat \<Rightarrow> gray_image" where
  "paste w h im x0 y0 =
     \<lparr>gi_width = w, gi_height = h,
      gi_pixels = map (\<lambda>k. let x = k mod w; y = k div w
        in if x0 \<le> x \<and> x < x0 + gi_width im \<and> y0 \<le> y \<and> y < y0 + gi_height im
           then gi_pixels im ! ((y - y0) * gi_width im + (x - x0)) else 255) [0..<w * h]\<rparr>"

definition rasterize :: "doc_env \<Rightarrow> dynamic_image \<Rightarrow> document_options \<Rightarrow> engine_error + gray_image" where
  "rasterize env source opts =
     (let gray = grayscale_on_white source; height = page_height opts
      in case fit opts (gi_width gray) (gi_height gray) of (width, image_height) \<Rightarrow>
         res_bind (resize_gray env gray width image_height Lanczos3) (\<lambda>resized.
           Inr (paste fax_width height resized ((fax_width - width) div 2) ((height - image_height) div 2))))"

definition contrast_curve :: "int \<Rightarrow> nat \<Rightarrow> nat" where
  "contrast_curve contrast v =
     (if contrast = 0 then v
      else let exponent = 2 powr (real_of_int (max (- 100) (min 100 contrast)) / 50);
               level = real v / 255;
               mapped = (if level < 1 / 2 then 1 / 2 * (2 * level) powr exponent
                         else 1 - 1 / 2 * (2 * (1 - level)) powr exponent)
        in nat (round (mapped * 255)))"

definition tone_of :: "document_options \<Rightarrow> byte \<Rightarrow> byte" where
  "tone_of opts v =
     (let adjusted = contrast_curve (do_contrast opts) (unat v)
      in case do_binarization opts of BText \<Rightarrow> if adjusted < 180 then 0 else 255 | Photo \<Rightarrow> of_nat adjusted)"

definition binarize :: "doc_env \<Rightarrow> gray_image \<Rightarrow> document_options \<Rightarrow> gray_image" where
  "binarize env page opts =
     (let page = (if do_binarization opts = BText \<or> do_contrast opts \<noteq> 0
                  then page\<lparr>gi_pixels := map (tone_of opts) (gi_pixels page)\<rparr> else page)
      in if do_binarization opts = Photo then pv_dither env page else page)"

section \<open>The TIFF\<close>

definition stride_of :: "nat \<Rightarrow> nat" where
  "stride_of w = (w + 7) div 8"

definition pack_pixel :: "gray_image \<Rightarrow> byte list \<Rightarrow> nat \<Rightarrow> byte list" where
  "pack_pixel g packed k =
     (let x = k mod gi_width g; y = k div gi_width g; at' = y * stride_of (gi_width g) + x div 8
      in if gi_pixels g ! k = 0 then packed[at' := Bit_Operations.or (packed ! at') (drop_bit (x mod 8) 128)] else packed)"

definition pack_page :: "gray_image \<Rightarrow> byte list" where
  "pack_page g = foldl (pack_pixel g) (replicate (stride_of (gi_width g) * gi_height g) 0) [0..<gi_width g * gi_height g]"

definition write_page ::
  "doc_env \<Rightarrow> written_page list \<Rightarrow> gray_image \<Rightarrow> nat \<Rightarrow> engine_error + written_page list" where
  "write_page env written g ydpi =
     (let packed = pack_page g; offset = pv_offset env written
      in if offset \<ge> 2 ^ 32 then Inl (EInvalid (lit ''Prepared TIFF exceeds 4 GiB''))
         else Inr (written @
           [\<lparr>wp_data = packed,
             wp_tags = [(TgImageWidth, gi_width g), (TgImageLength, gi_height g), (TgBitsPerSample, 1), (TgCompression, 1),
               (TgPhotometric, 0), (TgFillOrder, 1), (TgSamplesPerPixel, 1), (TgRowsPerStrip, gi_height g),
               (TgStripOffsets, offset), (TgStripByteCounts, length packed mod 2 ^ 32), (TgXResolution, 204),
               (TgYResolution, ydpi), (TgResolutionUnit, 2)]\<rparr>]))"

section \<open>Files\<close>

definition dir_prefix :: "path \<Rightarrow> path" where
  "dir_prefix p = join_path p []"

text \<open>Directories by their path, up to a trailing separator; the files directly in one.\<close>

definition has_dir :: "path \<Rightarrow> disk \<Rightarrow> bool" where
  "has_dir p d = list_ex (\<lambda>x. dir_prefix x = dir_prefix p) (dk_dirs d)"

definition in_dir :: "path \<Rightarrow> path \<Rightarrow> bool" where
  "in_dir p q \<longleftrightarrow> starts_with (dir_prefix p) q \<and> 47 \<notin> set (drop (length (dir_prefix p)) q)"

definition create_temp_dir :: "path \<Rightarrow> disk \<Rightarrow> path on_disk" where
  "create_temp_dir base = io (\<lambda>d.
     let p = join_path base (lit ''preparing-'' @ de_temp (dk_env d) (dk_ticks d))
     in if has_dir p d then (Inl (EIo (lit ''too many temporary files exist'')), d)
        else (Inr p, d\<lparr>dk_dirs := p # dk_dirs d\<rparr>))"

definition drop_temp_dir :: "path \<Rightarrow> disk \<Rightarrow> disk" where
  "drop_temp_dir p d =
     snd (io (\<lambda>d. (Inr (), d\<lparr>dk_files := (\<lambda>q. if in_dir p q then None else dk_files d q),
                            dk_dirs := filter (\<lambda>x. dir_prefix x \<noteq> dir_prefix p) (dk_dirs d)\<rparr>)) d)"

text \<open>\<open>fs::rename\<close> of a directory onto a name in use is an error here. (On Unix it would replace an empty
  directory; the name is a fresh uuid, so only a repeated one could find it in use.)\<close>

definition rename_dir :: "path \<Rightarrow> path \<Rightarrow> disk \<Rightarrow> unit on_disk" where
  "rename_dir p target = io (\<lambda>d.
     if has_dir target d then (Inl (EIo (lit ''Directory not empty'')), d)
     else (Inr (), d\<lparr>dk_files := (\<lambda>q.
               if in_dir target q then dk_files d (join_path p (drop (length (dir_prefix target)) q))
               else if in_dir p q then None else dk_files d q),
             dk_dirs := target # filter (\<lambda>x. dir_prefix x \<noteq> dir_prefix p) (dk_dirs d)\<rparr>))"

definition create_file :: "path \<Rightarrow> disk \<Rightarrow> unit on_disk" where
  "create_file p = write_temp p []"

text \<open>\<open>fs::copy\<close>, and \<open>fs::metadata\<close>: whether the path is a regular file, and its length.\<close>

definition copy_file :: "path \<Rightarrow> path \<Rightarrow> disk \<Rightarrow> unit on_disk" where
  "copy_file p target = io (\<lambda>d.
     case dk_files d p of
       None \<Rightarrow> (Inl not_found, d)
     | Some c \<Rightarrow> (Inr (), d\<lparr>dk_files := (dk_files d)(target := Some c)\<rparr>))"

definition file_metadata :: "path \<Rightarrow> disk \<Rightarrow> (bool \<times> nat) on_disk" where
  "file_metadata p = io (\<lambda>d.
     case dk_files d p of
       Some c \<Rightarrow> (Inr (True, length c), d)
     | None \<Rightarrow> (if has_dir p d then Inr (False, 0) else Inl not_found, d))"

text \<open>\<open>Path::file_name\<close> and \<open>Path::extension\<close>.\<close>

definition path_file_name :: "path \<Rightarrow> utext option" where
  "path_file_name p =
     (case rev (filter (\<lambda>c. c \<noteq> [] \<and> c \<noteq> lit ''.'') (split_on 47 p)) of
        [] \<Rightarrow> None
      | c # _ \<Rightarrow> if c = lit ''..'' then None else Some c)"

definition path_extension :: "path \<Rightarrow> utext option" where
  "path_extension p =
     (case path_file_name p of
        None \<Rightarrow> None
      | Some n \<Rightarrow> (case rsplit_once 46 n of None \<Rightarrow> None | Some (stem, e) \<Rightarrow> if stem = [] then None else Some e))"

definition source_name :: "path \<Rightarrow> utext" where
  "source_name p = (case path_file_name p of Some n \<Rightarrow> n | None \<Rightarrow> [])"

definition document_json :: "path \<Rightarrow> path" where
  "document_json dir = join_path dir (lit ''document.json'')"

definition gray_name :: "nat \<Rightarrow> utext" where
  "gray_name page = lit ''gray-'' @ padded page @ lit ''.png''"

definition page_name :: "nat \<Rightarrow> utext" where
  "page_name page = lit ''page-'' @ padded page @ lit ''.png''"

definition grayscale_path :: "path \<Rightarrow> uuid \<Rightarrow> nat \<Rightarrow> path" where
  "grayscale_path base i page = join_path (join_path base i) (gray_name page)"

section \<open>Cancellation\<close>

text \<open>The flag and the callback of a worker that waits elsewhere; \<open>cancel\<close> and \<open>set_wake\<close> yield what they
  wake. Whichever comes first, the callback runs once both have happened (\<open>wake_not_lost\<close>).\<close>

record cancellation =
  cn_flag :: bool
  cn_wake :: "nat option"

datatype cancel_effect = CeNotifyWaiters | CeWake nat

definition cancel :: "cancellation \<Rightarrow> cancel_effect list \<times> cancellation" where
  "cancel c = (CeNotifyWaiters # (case cn_wake c of Some w \<Rightarrow> [CeWake w] | None \<Rightarrow> []), c\<lparr>cn_flag := True\<rparr>)"

definition set_wake :: "nat option \<Rightarrow> cancellation \<Rightarrow> cancel_effect list \<times> cancellation" where
  "set_wake w c =
     (case (cn_flag c, w) of (True, Some x) \<Rightarrow> [CeWake x] | _ \<Rightarrow> [], c\<lparr>cn_wake := w\<rparr>)"

lemma wake_not_lost:
  "CeWake w \<in> set (fst (cancel (snd (set_wake (Some w) c))))"
  "CeWake w \<in> set (fst (set_wake (Some w) (snd (cancel c))))"
  by (simp_all add: cancel_def set_wake_def)


definition check_cancelled :: "doc_env \<Rightarrow> disk \<Rightarrow> unit on_disk" where
  "check_cancelled env d = (if pv_cancelled env (dk_ticks d) then Inl ECancelled else Inr (), later d)"

section \<open>Reading\<close>

definition documents_new :: "path \<Rightarrow> disk \<Rightarrow> path on_disk" where
  "documents_new base d =
     and_then (io (\<lambda>d. (Inr (), if has_dir base d then d else d\<lparr>dk_dirs := base # dk_dirs d\<rparr>)) d) (\<lambda>_ d.
     and_then (io (\<lambda>d. (Inr (), d)) d) (\<lambda>_ d. (Inr base, d)))"

definition load_document :: "doc_env \<Rightarrow> path \<Rightarrow> uuid \<Rightarrow> disk \<Rightarrow> prepared_document on_disk" where
  "load_document env base i d =
     and_then (read_file (document_json (join_path base i)) d) (\<lambda>bytes d.
     and_then (pv_parse env bytes, d) (\<lambda>doc d.
     let incomplete = Inl (EInvalid (lit ''Prepared document is incomplete''))
     in if doc_id doc \<noteq> i \<or> doc_pages doc = 0 then (incomplete, d)
        else case path_is_file (fax_path base i) d of (found, d) \<Rightarrow> (if found then Inr doc else incomplete, d)))"

record preview_source =
  ps_gray :: gray_image
  ps_options :: document_options

definition load_preview_source :: "doc_env \<Rightarrow> path \<Rightarrow> uuid \<Rightarrow> nat \<Rightarrow> disk \<Rightarrow> preview_source on_disk" where
  "load_preview_source env base i page d =
     and_then (load_document env base i d) (\<lambda>doc d.
     if page = 0 \<or> page > doc_pages doc then (Inl (EInvalid (lit ''Preview page is out of range'')), d)
     else and_then (read_file (grayscale_path base i page) d) (\<lambda>bytes d.
          and_then (pv_decode env bytes, d) (\<lambda>im d.
          (Inr \<lparr>ps_gray = pv_luma env im, ps_options = doc_options doc\<rparr>, d))))"

definition gray_rgba :: "gray_image \<Rightarrow> byte list" where
  "gray_rgba g = concat (map (\<lambda>v. [v, v, v, 255]) (gi_pixels g))"

definition render_source :: "doc_env \<Rightarrow> preview_source \<Rightarrow> binarization \<Rightarrow> int \<Rightarrow> engine_error + pixels" where
  "render_source env src b contrast =
     (let opts = (ps_options src)\<lparr>do_binarization := b, do_contrast := contrast\<rparr>
      in res_bind (preview_gray env (binarize env (ps_gray src) opts) opts) (\<lambda>p.
           Inr (gi_width p, gi_height p, gray_rgba p)))"

section \<open>Preparing\<close>

type_synonym progress = "nat \<times> written_page list"

text \<open>The gray page of the staging directory: linked or copied from the original, or written.\<close>

definition keep_gray ::
  "doc_env \<Rightarrow> path \<Rightarrow> prepared_document option \<Rightarrow> nat \<Rightarrow> gray_image \<Rightarrow> path \<Rightarrow> disk \<Rightarrow> unit on_disk" where
  "keep_gray env base original page g target d =
     (case original of
        Some doc \<Rightarrow>
          let source = grayscale_path base (doc_id doc) page
          in (case hard_link source target d of
                (Linked, d) \<Rightarrow> (Inr (), d)
              | (_, d) \<Rightarrow> copy_file source target d)
      | None \<Rightarrow> and_then (pv_png env g, d) (\<lambda>bytes d. write_temp target bytes d))"

text \<open>The closure that appends one page; reporting its number changes nothing.\<close>

definition append_page ::
  "doc_env \<Rightarrow> path \<Rightarrow> prepared_document option \<Rightarrow> document_options \<Rightarrow> path \<Rightarrow> dynamic_image \<Rightarrow> progress \<Rightarrow> disk \<Rightarrow>
   progress on_disk" where
  "append_page env base original opts staging im st d =
     (case st of (pages, written) \<Rightarrow>
        and_then (check_cancelled env d) (\<lambda>_ d.
        if pages \<ge> 250 then (Inl (EInvalid (lit ''A fax may contain at most 250 pages'')), d)
        else and_then ((case original of Some _ \<Rightarrow> Inr (pv_luma env im) | None \<Rightarrow> rasterize env im opts), d) (\<lambda>page d.
        and_then (check_cancelled env d) (\<lambda>_ d.
        and_then (keep_gray env base original (pages + 1) page (join_path staging (gray_name (pages + 1))) d) (\<lambda>_ d.
        let page = binarize env page opts
        in and_then (write_page env written page (vertical_dpi (do_resolution opts)), d) (\<lambda>written d.
        and_then (pv_tiff env written, d) (\<lambda>bytes d.
        and_then (write_temp (join_path staging (lit ''fax.tiff'')) bytes d) (\<lambda>_ d.
        and_then (preview_gray env page opts, d) (\<lambda>preview d.
        and_then (pv_png env preview, d) (\<lambda>bytes d.
        and_then (write_temp (join_path staging (page_name (pages + 1))) bytes d) (\<lambda>_ d.
        (Inr (pages + 1, written), d))))))))))))"

fun append_pages ::
  "doc_env \<Rightarrow> path \<Rightarrow> prepared_document option \<Rightarrow> document_options \<Rightarrow> path \<Rightarrow> (engine_error + dynamic_image) list \<Rightarrow>
   progress \<Rightarrow> disk \<Rightarrow> progress on_disk" where
  "append_pages env base original opts staging [] st d = (Inr st, d)"
| "append_pages env base original opts staging (p # ps) st d =
     and_then (check_cancelled env d) (\<lambda>_ d.
     and_then (p, d) (\<lambda>im d.
     and_then (append_page env base original opts staging im st d) (\<lambda>st d.
     append_pages env base original opts staging ps st d)))"

definition append_file ::
  "doc_env \<Rightarrow> path \<Rightarrow> prepared_document option \<Rightarrow> document_options \<Rightarrow> path \<Rightarrow> path \<Rightarrow> progress \<Rightarrow> disk \<Rightarrow>
   progress on_disk" where
  "append_file env base original opts staging p st d =
     and_then (check_cancelled env d) (\<lambda>_ d.
     and_then (file_metadata p d) (\<lambda>(regular, size) d.
     if \<not> regular then (Inl (EInvalid (lit ''Not a regular file: '' @ p)), d)
     else if size > 128 * 1024 * 1024 then (Inl (EInvalid (p @ lit '' exceeds the 128 MiB source limit'')), d)
     else let ext = to_ascii_lowercase (case path_extension p of Some e \<Rightarrow> e | None \<Rightarrow> [])
     in if ext = lit ''pdf''
        then and_then (pv_pdfium env, d) (\<lambda>_ d.
             and_then (read_file p d) (\<lambda>bytes d.
             and_then (pv_pdf env bytes, d) (\<lambda>pages d.
             if pages = [] then (Inl (EInvalid (p @ lit '' has no pages'')), d)
             else append_pages env base original opts staging pages st d)))
        else if ext = lit ''jpg'' \<or> ext = lit ''jpeg'' \<or> ext = lit ''png''
        then and_then (read_file p d) (\<lambda>bytes d.
             and_then (pv_decode env bytes, d) (\<lambda>im d.
             append_page env base original opts staging im st d))
        else (Inl (EInvalid (lit ''Unsupported document: '' @ p)), d)))"

fun append_files ::
  "doc_env \<Rightarrow> path \<Rightarrow> prepared_document option \<Rightarrow> document_options \<Rightarrow> path \<Rightarrow> path list \<Rightarrow> progress \<Rightarrow> disk \<Rightarrow>
   progress on_disk" where
  "append_files env base original opts staging [] st d = (Inr st, d)"
| "append_files env base original opts staging (p # ps) st d =
     and_then (append_file env base original opts staging p st d) (\<lambda>st d.
     append_files env base original opts staging ps st d)"

text \<open>The metadata and the renaming that publishes the directory.\<close>

definition publish_document ::
  "doc_env \<Rightarrow> path \<Rightarrow> prepared_document option \<Rightarrow> document_input \<Rightarrow> path \<Rightarrow> nat \<Rightarrow> disk \<Rightarrow> prepared_document on_disk" where
  "publish_document env base original input staging pages d =
     and_then (io (\<lambda>d. (Inr (), d)) d) (\<lambda>_ d.
     and_then (sync d) (\<lambda>_ d.
     and_then (check_cancelled env d) (\<lambda>_ d.
     let doc = \<lparr>doc_id = pv_uuid env (dk_ticks d), doc_pages = pages,
                doc_sources = (case original of Some o' \<Rightarrow> doc_sources o' | None \<Rightarrow> map source_name (di_paths input)),
                doc_options = di_options input\<rparr>
     in and_then (create_file (document_json staging) d) (\<lambda>_ d.
        and_then (pv_show env doc, d) (\<lambda>bytes d.
        and_then (write_temp (document_json staging) bytes d) (\<lambda>_ d.
        and_then (sync d) (\<lambda>_ d.
        and_then (rename_dir staging (join_path base (doc_id doc)) d) (\<lambda>_ d.
        (Inr doc, d)))))))))"

definition fill_staging ::
  "doc_env \<Rightarrow> path \<Rightarrow> prepared_document option \<Rightarrow> document_input \<Rightarrow> path \<Rightarrow> disk \<Rightarrow> prepared_document on_disk" where
  "fill_staging env base original input staging d =
     and_then (create_file (join_path staging (lit ''fax.tiff'')) d) (\<lambda>_ d.
     and_then (pv_tiff env [], d) (\<lambda>bytes d.
     and_then (write_temp (join_path staging (lit ''fax.tiff'')) bytes d) (\<lambda>_ d.
     and_then (append_files env base original (di_options input) staging (di_paths input) (0, []) d) (\<lambda>(pages, _) d.
     publish_document env base original input staging pages d))))"

text \<open>The staging directory is dropped at the end in any case; a renamed one is no longer there.\<close>

definition prepare_impl ::
  "doc_env \<Rightarrow> path \<Rightarrow> document_input \<Rightarrow> prepared_document option \<Rightarrow> disk \<Rightarrow> prepared_document on_disk" where
  "prepare_impl env base input original d =
     (if di_paths input = [] then (Inl (EInvalid (lit ''Add at least one PDF, JPEG, or PNG'')), d)
      else and_then (create_temp_dir base d) (\<lambda>staging d.
           case fill_staging env base original input staging d of (r, d) \<Rightarrow> (r, drop_temp_dir staging d)))"

definition prepare_document :: "doc_env \<Rightarrow> path \<Rightarrow> document_input \<Rightarrow> disk \<Rightarrow> prepared_document on_disk" where
  "prepare_document env base input d = prepare_impl env base input None d"

definition adjust_document :: "doc_env \<Rightarrow> path \<Rightarrow> uuid \<Rightarrow> document_options \<Rightarrow> disk \<Rightarrow> prepared_document on_disk" where
  "adjust_document env base i opts d =
     and_then (load_document env base i d) (\<lambda>doc d.
     if do_paper opts \<noteq> do_paper (doc_options doc) \<or> do_resolution opts \<noteq> do_resolution (doc_options doc)
     then (Inl (EInvalid (lit ''Prepare the document again after changing paper or resolution'')), d)
     else prepare_impl env base
            \<lparr>di_paths = map (grayscale_path base i) [1..<Suc (doc_pages doc)], di_options = opts\<rparr> (Some doc) d)"

end
