(* ===== verification/DocumentsInv.thy ===== *)
theory DocumentsInv
  imports Documents ExportInv
begin

text \<open>
  What preparing a document does to the disk: until it is published it writes only into its own staging
  directory, publishing moves that directory to a name that is no directory yet, and every other
  directory keeps its files, whatever fails.
\<close>

section \<open>Paths\<close>

lemma join_prefix: "join_path p n = dir_prefix p @ n"
  by (simp add: join_path_def dir_prefix_def)

lemma prefix_ends: "dir_prefix p = [] \<or> (\<exists>u. dir_prefix p = u @ [47])"
  by (cases p rule: rev_cases) (auto simp: dir_prefix_def join_path_def lit_def)

lemma in_dir_iff: "in_dir p q \<longleftrightarrow> (\<exists>n. q = dir_prefix p @ n \<and> 47 \<notin> set n)"
  using starts_with_decomp by (auto simp: in_dir_def)

lemma in_dir_join [simp]: "in_dir p (join_path p n) \<longleftrightarrow> 47 \<notin> set n"
  by (auto simp: in_dir_iff join_prefix)

lemma last_part: "47 \<notin> set n \<Longrightarrow> takeWhile (\<lambda>c. c \<noteq> 47) (rev (dir_prefix p @ n)) = rev n"
  using prefix_ends [of p] by (auto simp: takeWhile_append)

lemma in_dir_unique: "in_dir p q \<Longrightarrow> in_dir p' q \<Longrightarrow> dir_prefix p = dir_prefix p'"
  by (metis append_same_eq in_dir_iff last_part rev_rev_ident)

lemma has_dir_cong: "dir_prefix x = dir_prefix y \<Longrightarrow> has_dir x d = has_dir y d"
  by (simp add: has_dir_def)

lemma has_dir_later [simp]: "has_dir x (later d) = has_dir x d"
  by (simp add: has_dir_def)

lemma plain_names [simp]:
  "47 \<notin> set (gray_name k)" "47 \<notin> set (page_name k)" "47 \<notin> set (lit ''fax.tiff'')" "47 \<notin> set (lit ''document.json'')"
  using to_decimal_digits [of k] by (auto simp: gray_name_def page_name_def padded_def lit_def list_all_iff is_ascii_digit_def)

section \<open>Filling the staging directory\<close>

definition fills :: "path \<Rightarrow> disk \<Rightarrow> disk \<Rightarrow> bool" where
  "fills st d e \<longleftrightarrow>
     dk_env e = dk_env d \<and> dk_dirs e = dk_dirs d \<and> (\<forall>q. \<not> in_dir st q \<longrightarrow> dk_files e q = dk_files d q) \<and>
     (\<forall>q. dk_files d q \<noteq> None \<longrightarrow> dk_files e q \<noteq> None)"

named_theorems fills_intros "operations that only add to the staging directory"

lemma fills_refl [fills_intros]: "fills st d d"
  by (simp add: fills_def)

lemma fills_trans: "fills st d e \<Longrightarrow> fills st e f \<Longrightarrow> fills st d f"
  by (simp add: fills_def)

lemma fills_later [simp]: "fills st d (later e) = fills st d e" "fills st (later d) e = fills st d e"
  by (simp_all add: fills_def)

lemma fills_quiet: "quiet d e \<Longrightarrow> fills st d e"
  by (simp add: quiet_def fills_def)

lemma fills_and_then [fills_intros]:
  "fills st d (snd r) \<Longrightarrow> (\<And>x e. r = (Inr x, e) \<Longrightarrow> fills st e (snd (k x e))) \<Longrightarrow> fills st d (snd (and_then r k))"
  by (cases r; cases "fst r") (auto intro: fills_trans)

lemma fills_io: "(\<And>d. fills st d (snd (f d))) \<Longrightarrow> fills st d (snd (io f d))"
proof -
  assume "\<And>d. fills st d (snd (f d))"
  from this [of "later d"] show ?thesis by (simp add: io_def fills_refl split: option.split)
qed

lemma fills_reads [fills_intros]:
  "fills st d (snd (read_file p d))" "fills st d (snd (sync d))" "fills st d (snd (io (\<lambda>d. (Inr (), d)) d))"
  "fills st d (snd (check_cancelled env d))" "fills st d (snd (r, d))" "fills st d (snd (file_metadata p d))"
  subgoal by (simp add: fills_quiet)
  subgoal by (simp add: fills_quiet)
  subgoal by (rule fills_io) (simp add: fills_refl)
  subgoal by (simp add: check_cancelled_def fills_refl)
  subgoal by (simp add: fills_refl)
  subgoal unfolding file_metadata_def by (rule fills_io) (simp add: fills_refl split: option.split)
  done

lemma fills_write [fills_intros]: "in_dir st p \<Longrightarrow> fills st d (snd (write_temp p bytes d))"
  unfolding write_temp_def by (rule fills_io) (auto simp: fills_def)

lemma fills_create [fills_intros]: "in_dir st p \<Longrightarrow> fills st d (snd (create_file p d))"
  unfolding create_file_def by (rule fills_write)

lemma fills_copy: "in_dir st p \<Longrightarrow> fills st d (snd (copy_file source p d))"
  unfolding copy_file_def by (rule fills_io) (auto simp: fills_def split: option.split)

lemma fills_link: "in_dir st p \<Longrightarrow> fills st d (snd (hard_link source p d))"
  by (auto simp: hard_link_def io_def fills_def split: option.splits)

lemma fills_keep_gray [fills_intros]:
  "in_dir st p \<Longrightarrow> fills st d (snd (keep_gray env base original page g p d))"
proof (cases original)
  case (Some doc)
  assume "in_dir st p"
  obtain r e where r: "hard_link (grayscale_path base (doc_id doc) page) p d = (r, e)" by fastforce
  with fills_link [OF \<open>in_dir st p\<close>] have "fills st d e" by (metis snd_conv)
  with r Some fills_copy [OF \<open>in_dir st p\<close>, of e] show ?thesis
    by (auto simp: keep_gray_def Let_def intro: fills_trans split: linked.split)
qed (auto simp: keep_gray_def intro!: fills_intros)

lemma fills_append_page [fills_intros]: "fills st d (snd (append_page env base original opts st im s d))"
  by (cases s) (auto simp: append_page_def Let_def intro!: fills_intros)

lemma fills_append_pages [fills_intros]: "fills st d (snd (append_pages env base original opts st ps s d))"
  by (induction ps arbitrary: s d) (auto intro!: fills_intros)

lemma fills_append_file [fills_intros]: "fills st d (snd (append_file env base original opts st p s d))"
  by (auto simp: append_file_def Let_def intro!: fills_intros split: prod.split)

lemma fills_append_files [fills_intros]: "fills st d (snd (append_files env base original opts st ps s d))"
  by (induction ps arbitrary: s d) (auto intro!: fills_intros)

section \<open>What is in the staging directory\<close>

definition written :: "path \<Rightarrow> nat \<Rightarrow> disk \<Rightarrow> bool" where
  "written st n d \<longleftrightarrow>
     (\<forall>k. 1 \<le> k \<and> k \<le> n \<longrightarrow>
        dk_files d (join_path st (gray_name k)) \<noteq> None \<and> dk_files d (join_path st (page_name k)) \<noteq> None)"

lemma written_fills: "written st n d \<Longrightarrow> fills st d e \<Longrightarrow> written st n e"
  by (simp add: written_def fills_def)

lemma write_there: "write_temp p bytes d = (Inr x, e) \<Longrightarrow> dk_files e p = Some bytes"
  by (auto simp: write_temp_def io_def split: option.splits)

lemma copy_there: "copy_file source p d = (Inr x, e) \<Longrightarrow> dk_files e p \<noteq> None"
  by (auto simp: copy_file_def io_def split: option.splits)

lemma link_there: "hard_link source p d = (Linked, e) \<Longrightarrow> dk_files e p \<noteq> None"
  by (auto simp: hard_link_def split: prod.splits sum.splits option.splits if_splits)

lemma gray_there: "keep_gray env base original page g p d = (Inr x, e) \<Longrightarrow> dk_files e p \<noteq> None"
  by (auto simp: keep_gray_def Let_def elim!: and_then_okE dest: write_there copy_there link_there
      split: option.splits prod.splits linked.splits)

lemma present: "fills st d e \<Longrightarrow> dk_files d p \<noteq> None \<Longrightarrow> dk_files e p \<noteq> None"
  by (simp add: fills_def)

lemma fills_ok: "fills st d (snd r) \<Longrightarrow> r = (x, e) \<Longrightarrow> fills st d e"
  by simp

lemma append_page_done:
  assumes "append_page env base original opts st im (n, ws) d = (Inr (m, vs), e)" "written st n d"
  shows "m = Suc n \<and> n < 250 \<and> written st (Suc n) e"
proof -
  from assms(1) obtain page d3 d5 bytes preview where steps:
      "n < 250" "m = Suc n"
      "keep_gray env base original (Suc n) page (join_path st (gray_name (Suc n))) (later (later d)) = (Inr (), d3)"
      "write_temp (join_path st (lit ''fax.tiff'')) bytes d3 = (Inr (), d5)"
      "write_temp (join_path st (page_name (Suc n))) preview d5 = (Inr (), e)"
    by (auto simp: append_page_def Let_def check_cancelled_def elim!: and_then_okE split: if_splits)
  have f3: "fills st d d3" using fills_ok [OF fills_keep_gray steps(3)] by simp
  have f5: "fills st d3 d5" using fills_ok [OF fills_write steps(4)] by simp
  have fe: "fills st d5 e" using fills_ok [OF fills_write steps(5)] by simp
  have "dk_files e (join_path st (gray_name (Suc n))) \<noteq> None"
    using present [OF fe] present [OF f5] gray_there [OF steps(3)] by simp
  moreover have "dk_files e (join_path st (page_name (Suc n))) \<noteq> None" using write_there [OF steps(5)] by simp
  moreover have "written st n e" using assms(2) f3 f5 fe by (metis written_fills)
  ultimately show ?thesis using steps by (auto simp: written_def le_Suc_eq)
qed

lemma append_pages_done:
  "append_pages env base original opts st ps (n, ws) d = (Inr (m, vs), e) \<Longrightarrow> written st n d \<Longrightarrow> n \<le> 250 \<Longrightarrow>
   m = n + length ps \<and> m \<le> 250 \<and> written st m e"
proof (induction ps arbitrary: n ws d)
  case (Cons p ps)
  from Cons.prems(1) obtain im n1 ws1 d2 where steps:
      "append_page env base original opts st im (n, ws) (later d) = (Inr (n1, ws1), d2)"
      "append_pages env base original opts st ps (n1, ws1) d2 = (Inr (m, vs), e)"
    by (auto simp: check_cancelled_def elim!: and_then_okE split: if_splits)
  have "written st n (later d)" using Cons.prems(2) by (simp add: written_def)
  with append_page_done [OF steps(1)] Cons.IH [OF steps(2)] show ?case by auto
qed simp

lemma metadata_fills: "file_metadata p d = (r, e) \<Longrightarrow> fills st d e"
  using fills_ok [OF fills_reads(6)] by blast

lemma read_fills: "read_file p d = (r, e) \<Longrightarrow> fills st d e"
  using fills_ok [OF fills_reads(1)] by blast

lemma append_file_done:
  assumes "append_file env base original opts st p (n, ws) d = (Inr (m, vs), e)" "written st n d" "n \<le> 250"
  shows "n < m \<and> m \<le> 250 \<and> written st m e"
proof -
  from assms(1) obtain size d1 where meta: "file_metadata p (later d) = (Inr (True, size), d1)"
    by (auto simp: append_file_def Let_def check_cancelled_def elim!: and_then_okE split: if_splits prod.splits)
  then have d1: "written st n d1" using assms(2) written_fills [OF assms(2)] metadata_fills [OF meta, of st] by simp
  from assms(1) meta obtain bytes d2 where "read_file p d1 = (Inr bytes, d2)" and last:
      "(\<exists>ps. ps \<noteq> [] \<and> append_pages env base original opts st ps (n, ws) d2 = (Inr (m, vs), e)) \<or>
       (\<exists>im. append_page env base original opts st im (n, ws) d2 = (Inr (m, vs), e))"
    by (auto simp: append_file_def Let_def check_cancelled_def elim!: and_then_okE split: if_splits) blast
  then have d2: "written st n d2" using written_fills [OF d1] read_fills [of p d1 _ d2 st] by simp
  from last show ?thesis
  proof (elim disjE exE conjE)
    fix ps assume "ps \<noteq> []" "append_pages env base original opts st ps (n, ws) d2 = (Inr (m, vs), e)"
    with append_pages_done [OF this(2) d2 assms(3)] show ?thesis by (cases ps) auto
  next
    fix im assume "append_page env base original opts st im (n, ws) d2 = (Inr (m, vs), e)"
    from append_page_done [OF this d2] show ?thesis by simp
  qed
qed

lemma append_files_done:
  "append_files env base original opts st ps (n, ws) d = (Inr (m, vs), e) \<Longrightarrow> written st n d \<Longrightarrow> n \<le> 250 \<Longrightarrow>
   n + length ps \<le> m \<and> m \<le> 250 \<and> written st m e"
proof (induction ps arbitrary: n ws d)
  case (Cons p ps)
  from Cons.prems(1) obtain n1 ws1 d1 where steps: "append_file env base original opts st p (n, ws) d = (Inr (n1, ws1), d1)"
      "append_files env base original opts st ps (n1, ws1) d1 = (Inr (m, vs), e)"
    by (auto elim!: and_then_okE)
  with append_file_done [OF steps(1) Cons.prems(2,3)] Cons.IH [OF steps(2)] show ?case by auto
qed simp

section \<open>Publishing\<close>

text \<open>The directory of a published document: its metadata, its TIFF and the two files of every page.\<close>

definition published :: "doc_env \<Rightarrow> path \<Rightarrow> prepared_document \<Rightarrow> disk \<Rightarrow> bool" where
  "published env base doc d \<longleftrightarrow>
     (let dir = join_path base (doc_id doc)
      in has_dir dir d \<and> doc_pages doc > 0 \<and> dk_files d (fax_path base (doc_id doc)) \<noteq> None \<and>
         written dir (doc_pages doc) d \<and>
         (\<exists>bytes. dk_files d (document_json dir) = Some bytes \<and> pv_show env doc = Inr bytes))"

text \<open>Every directory but one that is given keeps its files and stays.\<close>

definition others_kept :: "path \<Rightarrow> disk \<Rightarrow> disk \<Rightarrow> bool" where
  "others_kept st d e \<longleftrightarrow>
     dk_env e = dk_env d \<and>
     (\<forall>x. has_dir x d \<and> dir_prefix x \<noteq> dir_prefix st \<longrightarrow>
        has_dir x e \<and> (\<forall>q. in_dir x q \<longrightarrow> dk_files e q = dk_files d q))"

lemma others_refl: "others_kept st d d"
  by (simp add: others_kept_def)

lemma others_trans: "others_kept st d e \<Longrightarrow> others_kept st e f \<Longrightarrow> others_kept st d f"
  unfolding others_kept_def by metis

lemma others_later [simp]: "others_kept st (later d) e = others_kept st d e" "others_kept st d (later e) = others_kept st d e"
  by (simp_all add: others_kept_def)

lemma fills_others: "fills st d e \<Longrightarrow> others_kept st d e"
  by (auto simp: fills_def others_kept_def has_dir_def dest: in_dir_unique)

lemma others_and_then:
  "others_kept st d (snd r) \<Longrightarrow> (\<And>x e. r = (Inr x, e) \<Longrightarrow> others_kept st e (snd (k x e))) \<Longrightarrow>
   others_kept st d (snd (and_then r k))"
  by (cases r; cases "fst r") (auto intro: others_trans)

definition moved :: "path \<Rightarrow> path \<Rightarrow> disk \<Rightarrow> disk" where
  "moved p target d =
     d\<lparr>dk_files := (\<lambda>q. if in_dir target q then dk_files d (join_path p (drop (length (dir_prefix target)) q))
                       else if in_dir p q then None else dk_files d q),
       dk_dirs := target # filter (\<lambda>x. dir_prefix x \<noteq> dir_prefix p) (dk_dirs d)\<rparr>"

lemma rename_cases:
  "rename_dir p target d = (r, e) \<Longrightarrow>
     (\<exists>x. r = Inl x) \<and> e = later d \<or> r = Inr () \<and> \<not> has_dir target d \<and> e = moved p target (later d)"
  by (auto simp: rename_dir_def moved_def io_def split: option.splits if_splits)

lemma moved_others:
  assumes "\<not> has_dir target d"
  shows "others_kept st d (moved st target d)"
proof -
  have "has_dir x (moved st target d) \<and> (\<forall>q. in_dir x q \<longrightarrow> dk_files (moved st target d) q = dk_files d q)"
    if x: "has_dir x d" "dir_prefix x \<noteq> dir_prefix st" for x
  proof -
    from x have "dir_prefix x \<noteq> dir_prefix target" using assms has_dir_cong by blast
    with x show ?thesis by (auto simp: moved_def has_dir_def list_ex_iff dest: in_dir_unique)
  qed
  moreover have "dk_env (moved st target d) = dk_env d" by (simp add: moved_def)
  ultimately show ?thesis unfolding others_kept_def by blast
qed

lemma moved_files: "47 \<notin> set n \<Longrightarrow> dk_files (moved p target d) (join_path target n) = dk_files d (join_path p n)"
  by (simp add: moved_def) (simp add: join_prefix)

lemma moved_published:
  assumes "written st (doc_pages doc) d" "doc_pages doc > 0" "dk_files d (join_path st (lit ''fax.tiff'')) \<noteq> None"
    "dk_files d (document_json st) = Some bytes" "pv_show env doc = Inr bytes"
  shows "published env base doc (moved st (join_path base (doc_id doc)) d)"
  using assms by (simp add: published_def Let_def written_def moved_files fax_path_def document_json_def)
    (simp add: moved_def has_dir_def)

lemma drop_dir_cases:
  "drop_temp_dir p d = later d \<or>
   drop_temp_dir p d = (later d)\<lparr>dk_files := (\<lambda>q. if in_dir p q then None else dk_files d q),
                                dk_dirs := filter (\<lambda>x. dir_prefix x \<noteq> dir_prefix p) (dk_dirs d)\<rparr>"
  by (simp add: drop_temp_dir_def io_def split: option.split cong: if_cong)

lemma drop_dir_keeps:
  assumes "dir_prefix x \<noteq> dir_prefix p"
  shows "has_dir x (drop_temp_dir p d) = has_dir x d"
    and "in_dir x q \<Longrightarrow> dk_files (drop_temp_dir p d) q = dk_files d q"
  using drop_dir_cases [of p d] assms by (auto simp: has_dir_def list_ex_iff dest: in_dir_unique)

lemma drop_dir_others: "others_kept p d (drop_temp_dir p d)"
proof -
  have "dk_env (drop_temp_dir p d) = dk_env d" using drop_dir_cases [of p d] by auto
  then show ?thesis by (auto simp: others_kept_def drop_dir_keeps)
qed

lemma drop_dir_published:
  assumes "published env base doc d" "dir_prefix (join_path base (doc_id doc)) \<noteq> dir_prefix p"
  shows "published env base doc (drop_temp_dir p d)"
  using assms by (simp add: published_def Let_def written_def drop_dir_keeps fax_path_def document_json_def)

text \<open>How filling and publishing end: with an error that added to the staging directory only, or with a
  document that \<open>C\<close> relates to the disk before and after the renaming.\<close>

definition ends :: "path \<Rightarrow> (prepared_document \<Rightarrow> disk \<Rightarrow> disk \<Rightarrow> bool) \<Rightarrow> disk \<Rightarrow> prepared_document on_disk \<Rightarrow> bool" where
  "ends st C d r \<longleftrightarrow>
     (case fst r of Inl _ \<Rightarrow> fills st d (snd r) | Inr doc \<Rightarrow> (\<exists>d1. fills st d d1 \<and> C doc d1 (snd r)))"

lemma ends_and_then:
  "fills st d (snd r) \<Longrightarrow> (\<And>x s. r = (Inr x, s) \<Longrightarrow> ends st C s (k x s)) \<Longrightarrow> ends st C d (and_then r k)"
  by (cases r; cases "fst r") (auto simp: ends_def intro: fills_trans split: sum.splits)

lemma ends_mono:
  "ends st C d r \<Longrightarrow> (\<And>doc d1 e. fills st d d1 \<Longrightarrow> C doc d1 e \<Longrightarrow> C' doc d1 e) \<Longrightarrow> ends st C' d r"
  by (auto simp: ends_def split: sum.splits)

definition publishes_as ::
  "doc_env \<Rightarrow> path \<Rightarrow> prepared_document option \<Rightarrow> document_input \<Rightarrow> path \<Rightarrow> nat \<Rightarrow> prepared_document \<Rightarrow> disk \<Rightarrow> disk \<Rightarrow> bool"
where
  "publishes_as env base original input st pages doc d e \<longleftrightarrow>
     \<not> has_dir (join_path base (doc_id doc)) d \<and> e = moved st (join_path base (doc_id doc)) d \<and>
     doc_pages doc = pages \<and> doc_options doc = di_options input \<and>
     doc_sources doc = (case original of Some o' \<Rightarrow> doc_sources o' | None \<Rightarrow> map source_name (di_paths input)) \<and>
     (\<exists>bytes. dk_files d (document_json st) = Some bytes \<and> pv_show env doc = Inr bytes)"

lemma in_dir_json [simp]: "in_dir st (document_json st)"
  by (simp add: document_json_def)

lemma sync_same: "sync d = (r, e) \<Longrightarrow> dk_files e = dk_files d"
  by (auto simp: sync_def io_def split: option.splits)

lemma publish_ends:
  "ends st (publishes_as env base original input st pages) d (publish_document env base original input st pages d)"
proof -
  have last: "ends st (publishes_as env base original input st pages) s
      (and_then (rename_dir st (join_path base (doc_id doc)) s) (\<lambda>_ d. (Inr doc, d)))"
    if "dk_files s (document_json st) = Some bytes" "pv_show env doc = Inr bytes" "doc_pages doc = pages"
      "doc_options doc = di_options input"
      "doc_sources doc = (case original of Some o' \<Rightarrow> doc_sources o' | None \<Rightarrow> map source_name (di_paths input))"
    for doc s bytes
  proof -
    obtain r e where r: "rename_dir st (join_path base (doc_id doc)) s = (r, e)" by fastforce
    have "fills st s (later s)" by (simp add: fills_refl)
    with rename_cases [OF r] that r show ?thesis by (auto simp: ends_def publishes_as_def fills_refl intro!: exI [where x = "later s"])
  qed
  show ?thesis unfolding publish_document_def Let_def
    by (intro last ends_and_then fills_intros in_dir_json) (auto dest!: write_there sync_same)
qed

lemma fill_ends:
  assumes "di_paths input \<noteq> []"
  shows "ends st (\<lambda>doc d1 e. publishes_as env base original input st (doc_pages doc) doc d1 e \<and> written st (doc_pages doc) d1 \<and>
      0 < doc_pages doc \<and> doc_pages doc \<le> 250 \<and> dk_files d1 (join_path st (lit ''fax.tiff'')) \<noteq> None) d
    (fill_staging env base original input st d)"
    (is "ends st ?C d _")
proof -
  have last: "ends st ?C s (publish_document env base original input st n s)"
    if "written st n s" "0 < n" "n \<le> 250" "dk_files s (join_path st (lit ''fax.tiff'')) \<noteq> None" for n s
  proof (rule ends_mono [OF publish_ends])
    fix doc d1 e assume "fills st s d1" "publishes_as env base original input st n doc d1 e"
    with that written_fills [OF that(1)] present [OF _ that(4)] show "?C doc d1 e" by (simp add: publishes_as_def)
  qed
  show ?thesis unfolding fill_staging_def
  proof (intro ends_and_then fills_intros; (simp only: prod.case_eq_if)?)
    fix x s1 bytes s2 y s3 r s4
    assume w: "write_temp (join_path st (lit ''fax.tiff'')) bytes s2 = (Inr y, s3)"
      and a: "append_files env base original (di_options input) st (di_paths input) (0, []) s3 = (Inr r, s4)"
    obtain n ws where r: "r = (n, ws)" by fastforce
    have "written st n s4 \<and> length (di_paths input) \<le> n \<and> n \<le> 250"
      using append_files_done [OF a [unfolded r]] by (auto simp: written_def)
    moreover have "dk_files s4 (join_path st (lit ''fax.tiff'')) \<noteq> None"
      using present [OF fills_ok [OF fills_append_files a]] write_there [OF w] by simp
    ultimately show "ends st ?C s4 (publish_document env base original input st (fst r) s4)"
      using assms by (intro last) (cases "di_paths input"; auto simp: r)+
  qed simp_all
qed

end
