(* ===== verification/DocumentPages.thy ===== *)
theory DocumentPages
  imports Documents
begin

text \<open>
  The pages of a prepared document: their geometry, the tone curve, and the packing of their pixels.
\<close>

section \<open>Geometry\<close>

lemma round_nat_le: "x \<le> of_nat n \<Longrightarrow> round_nat x \<le> n"
  using round_mono [of x "of_nat n"] by (simp add: round_nat_def)

lemma page_height_big: "1000 < page_height opts"
proof -
  have "1000 < page_height \<lparr>do_paper = p, do_resolution = r, do_binarization = Photo, do_contrast = 0\<rparr>" for p r
    by (cases p; cases r; hypsubst; code_simp)
  from this [of "do_paper opts" "do_resolution opts"] show ?thesis by (simp add: page_height_def)
qed

lemma dpi_values: "vertical_dpi r = 98 \<or> vertical_dpi r = 196"
  by (cases r) simp_all

definition max_height :: "document_options \<Rightarrow> nat" where
  "max_height opts = page_height opts - 2 * (vertical_dpi (do_resolution opts) div 5)"

lemma max_height_pos: "1 \<le> max_height opts"
  using page_height_big [of opts] dpi_values [of "do_resolution opts"] by (auto simp: max_height_def)

lemma min_scale_bound:
  "min_scale (scale_to a w) (scale_to b h) = Some x \<Longrightarrow> (0 < w \<longrightarrow> of_nat w * x \<le> a) \<and> (0 < h \<longrightarrow> of_nat h * x \<le> b)"
  by (auto simp: min_scale_def scale_to_def min_def field_simps split: if_splits)

lemma fit_bounds: "case fit opts w h of (x, y) \<Rightarrow> 1 \<le> x \<and> x \<le> 1646 \<and> 1 \<le> y \<and> y \<le> max_height opts"
proof -
  let ?dpi = "vertical_dpi (do_resolution opts)"
  have dpi: "(0::rat) < of_nat ?dpi" using dpi_values [of "do_resolution opts"] by auto
  let ?m = "min_scale (scale_to (of_nat (fax_width - 2 * 41)) w) (scale_to (of_nat (max_height opts) * 204 / of_nat ?dpi) h)"
  show ?thesis
  proof (cases ?m)
    case None
    then show ?thesis using max_height_pos [of opts] by (simp add: fit_def Let_def max_height_def)
  next
    case (Some s)
    have bound: "0 < w \<longrightarrow> of_nat w * s \<le> 1646" "0 < h \<longrightarrow> of_nat h * s \<le> of_nat (max_height opts) * 204 / of_nat ?dpi"
      using min_scale_bound [OF Some] by (simp_all add: fax_width_def)
    have "round_nat (of_nat w * s) \<le> 1646" using bound(1) by (cases "w = 0") (auto intro!: round_nat_le)
    moreover have "of_nat h * s * of_nat ?dpi / 204 \<le> of_nat (max_height opts)"
      using bound(2) dpi by (cases "h = 0") (simp_all add: field_simps)
    then have "round_nat (of_nat h * s * of_nat ?dpi / 204) \<le> max_height opts" by (rule round_nat_le)
    moreover have "fit opts w h = (max 1 (round_nat (of_nat w * s)), max 1 (round_nat (of_nat h * s * of_nat ?dpi / 204)))"
      using Some by (simp add: fit_def Let_def max_height_def)
    ultimately show ?thesis using max_height_pos [of opts] by simp
  qed
qed

lemma paste_size: "gi_width (paste w h im x0 y0) = w" "gi_height (paste w h im x0 y0) = h"
  "length (gi_pixels (paste w h im x0 y0)) = w * h"
  by (simp_all add: paste_def)

lemma paste_outside:
  "k < w * h \<Longrightarrow> k mod w < x0 \<or> x0 + gi_width im \<le> k mod w \<or> k div w < y0 \<or> y0 + gi_height im \<le> k div w \<Longrightarrow>
   gi_pixels (paste w h im x0 y0) ! k = 255"
  by (auto simp: paste_def Let_def)

lemma centred: "y + 2 * m \<le> h \<Longrightarrow> m \<le> (h - y) div 2 \<and> (h - y) div 2 + y \<le> h - m" for y m h :: nat
  by linarith

text \<open>C31: A rasterised page has the fax geometry. Given that the resampler returns the size it was asked for, a
  rasterised page is 1728 pixels wide and as high as paper and resolution say, the scaled image is at least one
  pixel and fits between the margins of 41 pixels and a fifth of an inch (so no subtraction of the layout
  underflows), and every pixel of the margins is white, whatever the size of the source.\<close>

theorem rasterized_page_fits:
  assumes "rasterize env source opts = Inr page"
    and "\<And>g w h f r. pv_resize env g w h f = Inr r \<Longrightarrow> gi_width r = w \<and> gi_height r = h"
  shows "gi_width page = 1728 \<and> gi_height page = page_height opts \<and> length (gi_pixels page) = 1728 * page_height opts \<and>
    (case fit opts (gi_width (grayscale_on_white source)) (gi_height (grayscale_on_white source)) of
       (x, y) \<Rightarrow> 1 \<le> x \<and> x + 2 * 41 \<le> 1728 \<and> 1 \<le> y \<and> y + 2 * (vertical_dpi (do_resolution opts) div 5) \<le> page_height opts) \<and>
    (\<forall>k < length (gi_pixels page).
       k mod 1728 < 41 \<or> 1728 - 41 \<le> k mod 1728 \<or> k div 1728 < vertical_dpi (do_resolution opts) div 5 \<or>
       page_height opts - vertical_dpi (do_resolution opts) div 5 \<le> k div 1728 \<longrightarrow> gi_pixels page ! k = 255)"
proof -
  let ?dpi = "vertical_dpi (do_resolution opts)"
  obtain x y where xy: "fit opts (gi_width (grayscale_on_white source)) (gi_height (grayscale_on_white source)) = (x, y)" by fastforce
  with fit_bounds [of opts "gi_width (grayscale_on_white source)" "gi_height (grayscale_on_white source)"]
  have b: "1 \<le> x" "x \<le> 1646" "1 \<le> y" "y \<le> max_height opts" by simp_all
  have h: "max_height opts + 2 * (?dpi div 5) = page_height opts"
    using page_height_big [of opts] dpi_values [of "do_resolution opts"] by (auto simp: max_height_def)
  obtain r where res: "pv_resize env (grayscale_on_white source) x y Lanczos3 = Inr r"
      "page = paste fax_width (page_height opts) r ((fax_width - x) div 2) ((page_height opts - y) div 2)"
    using assms(1) xy by (auto simp: rasterize_def Let_def resize_gray_def res_bind_Inr_iff map_err_Inr_iff)
  note r = assms(2) [OF res(1), THEN conjunct1] assms(2) [OF res(1), THEN conjunct2] res(2)
  have "gi_pixels page ! k = 255" if "k < 1728 * page_height opts"
    "k mod 1728 < 41 \<or> 1728 - 41 \<le> k mod 1728 \<or> k div 1728 < ?dpi div 5 \<or> page_height opts - ?dpi div 5 \<le> k div 1728" for k
    unfolding r(3) using that centred [of x 41 1728] centred [of y "?dpi div 5" "page_height opts"] b h
    by (intro paste_outside) (auto simp: r fax_width_def)
  then show ?thesis using b h xy r(3) by (simp add: paste_size fax_width_def)
qed

text \<open>An environment whose resampler yields blank images of the size asked for, for the witnesses; two documents
  have a metadata file.\<close>

definition sample_paper :: prepared_document where
  "sample_paper = \<lparr>doc_id = [97], doc_pages = 1, doc_sources = [[5]], doc_options = default_document_options\<rparr>"

definition sample_copy :: prepared_document where
  "sample_copy = sample_paper\<lparr>doc_id := [98], doc_options := default_document_options\<lparr>do_contrast := 20\<rparr>\<rparr>"

definition sample_doc_env :: doc_env where
  "sample_doc_env =
     \<lparr>pv_pdfium = Inr (), pv_pdf = \<lambda>_. Inr [], pv_decode = \<lambda>_. Inr (ImLuma8 1 1 [7]),
      pv_luma = \<lambda>_. \<lparr>gi_width = 1, gi_height = 1, gi_pixels = [7]\<rparr>,
      pv_resize = \<lambda>g w h f. Inr \<lparr>gi_width = w, gi_height = h, gi_pixels = []\<rparr>,
      pv_dither = \<lambda>_. \<lparr>gi_width = 1, gi_height = 1, gi_pixels = [0]\<rparr>, pv_png = \<lambda>g. Inr (gi_pixels g), pv_offset = \<lambda>_. 8,
      pv_tiff = \<lambda>ws. Inr (concat (map wp_data ws)),
      pv_show = \<lambda>d. if d = sample_paper then Inr [1] else if d = sample_copy then Inr [2] else Inl (EJson []),
      pv_parse = \<lambda>b. if b = [1] then Inr sample_paper else if b = [2] then Inr sample_copy else Inl (EJson []),
      pv_cancelled = \<lambda>_. False, pv_uuid = \<lambda>_. [98]\<rparr>"

lemma rasterized_page_fits_witness:
  "\<exists>page. rasterize sample_doc_env (ImLuma8 1 1 [7]) default_document_options = Inr page \<and>
     gi_width page = 1728 \<and> gi_pixels page ! 0 = 255"
proof -
  obtain page where page: "rasterize sample_doc_env (ImLuma8 1 1 [7]) default_document_options = Inr page"
    by (cases "fit default_document_options 1 1") (simp add: rasterize_def sample_doc_env_def resize_gray_def Let_def)
  have law: "gi_width r = w \<and> gi_height r = h" if "pv_resize sample_doc_env g w h f = Inr r" for g w h f r
    using that by (auto simp: sample_doc_env_def)
  have "0 < page_height default_document_options" using page_height_big [of default_document_options] by simp
  with rasterized_page_fits [OF page law] have "gi_width page = 1728" "gi_pixels page ! 0 = 255" by auto
  with page show ?thesis by blast
qed

section \<open>Tone\<close>

lemma curve_extremes: "contrast_curve c 0 = 0" "contrast_curve c 255 = 255"
  by (simp_all add: contrast_curve_def Let_def)

definition curve :: "real \<Rightarrow> real \<Rightarrow> real" where
  "curve e l = (if l < 1 / 2 then 1 / 2 * (2 * l) powr e else 1 - 1 / 2 * (2 * (1 - l)) powr e)"

lemma curve_mono: "0 < e \<Longrightarrow> 0 \<le> l \<Longrightarrow> l \<le> m \<Longrightarrow> m \<le> 1 \<Longrightarrow> curve e l \<le> curve e m"
proof -
  assume a: "0 < e" "0 \<le> l" "l \<le> m" "m \<le> 1"
  have low: "(2 * t) powr e \<le> 1" if "0 \<le> t" "t \<le> 1 / 2" for t
    using powr_mono2 [of e "2 * t" 1] a(1) that by simp
  have "(2 * l) powr e \<le> (2 * m) powr e" using a by (intro powr_mono2) auto
  moreover have "(2 * (1 - m)) powr e \<le> (2 * (1 - l)) powr e" using a by (intro powr_mono2) auto
  moreover have "(2 * l) powr e + (2 * (1 - m)) powr e \<le> 2" if "l < 1 / 2" "\<not> m < 1 / 2"
    using low [of l] low [of "1 - m"] a that by simp
  ultimately show ?thesis using a by (auto simp: curve_def)
qed

lemma contrast_curve_alt:
  "contrast_curve c v = (if c = 0 then v else nat (round (curve (2 powr (real_of_int (max (- 100) (min 100 c)) / 50)) (real v / 255) * 255)))"
  by (simp add: contrast_curve_def curve_def Let_def)

lemma contrast_curve_mono: "v \<le> w \<Longrightarrow> w \<le> 255 \<Longrightarrow> contrast_curve c v \<le> contrast_curve c w"
  unfolding contrast_curve_alt by (auto intro!: nat_mono round_mono mult_right_mono curve_mono divide_right_mono)

lemma contrast_curve_bound: "v \<le> 255 \<Longrightarrow> contrast_curve c v \<le> 255"
  using contrast_curve_mono [of v 255 c] by (simp add: curve_extremes)

text \<open>Tones keep black black and white white, and never turn the lighter of two pixels darker.\<close>

theorem tone_keeps_order:
  "tone_of opts 0 = 0 \<and> tone_of opts 255 = 255 \<and> (unat v \<le> unat w \<longrightarrow> unat (tone_of opts v) \<le> unat (tone_of opts w))"
proof -
  have b: "unat x \<le> 255" for x :: byte
  proof -
    have "unat x < 2 ^ LENGTH(8)" by (rule unsigned_less)
    then show ?thesis by simp
  qed
  have "unat (of_nat (contrast_curve c (unat x)) :: byte) = contrast_curve c (unat x)" for c and x :: byte
    using contrast_curve_bound [OF b, of c x] by (simp add: unat_of_nat)
  moreover have "unat (255 :: byte) = 255" by simp
  ultimately show ?thesis
    using contrast_curve_mono [of "unat v" "unat w" "do_contrast opts"] b [of w]
    by (auto simp: tone_of_def Let_def curve_extremes split: binarization.split)
qed

section \<open>Packing\<close>

lemma single_bit: "m < 8 \<Longrightarrow> drop_bit m (128 :: byte) = 2 ^ (7 - m)"
proof -
  assume "m < 8"
  then consider "m = 0" | "m = 1" | "m = 2" | "m = 3" | "m = 4" | "m = 5" | "m = 6" | "m = 7" by linarith
  then show ?thesis by cases (simp_all add: drop_bit_eq_div)
qed

lemma test_bit_128: "Bit_Operations.and b (drop_bit (x mod 8) (128 :: byte)) \<noteq> 0 \<longleftrightarrow> bit b (7 - x mod 8)"
  by (simp add: single_bit and_exp_eq_0_iff_not_bit)

lemma set_bit_128: "j < 8 \<Longrightarrow> bit (Bit_Operations.or b (drop_bit (x mod 8) (128 :: byte))) j \<longleftrightarrow> bit b j \<or> j = 7 - x mod 8"
  by (auto simp: single_bit bit_or_iff bit_exp_iff)

lemma place_unique:
  fixes s :: nat
  assumes "u < s" "u' < s"
  shows "y * s + u = y' * s + u' \<longleftrightarrow> y = y' \<and> u = u'"
proof
  assume eq: "y * s + u = y' * s + u'"
  have "y = (y * s + u) div s" "y' = (y' * s + u') div s" using assms by simp_all
  with eq show "y = y' \<and> u = u'" by simp
qed simp

lemma cell_unique:
  assumes "x < w" "x' < w"
  shows "y * stride_of w + x div 8 = y' * stride_of w + x' div 8 \<longleftrightarrow> y = y' \<and> x div 8 = x' div 8"
  using assms by (intro place_unique) (auto simp: stride_of_def)

definition packed_upto :: "gray_image \<Rightarrow> nat \<Rightarrow> byte list \<Rightarrow> bool" where
  "packed_upto g n packed \<longleftrightarrow>
     length packed = stride_of (gi_width g) * gi_height g \<and>
     (\<forall>x y. x < gi_width g \<and> y < gi_height g \<longrightarrow>
        (bit (packed ! (y * stride_of (gi_width g) + x div 8)) (7 - x mod 8) \<longleftrightarrow>
         y * gi_width g + x < n \<and> gi_pixels g ! (y * gi_width g + x) = 0))"

lemma pack_step:
  assumes P: "packed_upto g n packed" and n: "n < gi_width g * gi_height g"
  shows "packed_upto g (Suc n) (pack_pixel g packed n)"
proof -
  let ?w = "gi_width g" and ?s = "stride_of (gi_width g)"
  define u v where "u = n mod ?w" and "v = n div ?w"
  have w: "0 < ?w" using n by (cases "?w = 0") auto
  then have u: "u < ?w" "v < gi_height g" "n = v * ?w + u"
    using n by (auto simp: u_def v_def less_mult_imp_div_less mult.commute)
  have len: "length packed = ?s * gi_height g" using P by (simp add: packed_upto_def)
  have "u div 8 < ?s" using u(1) by (auto simp: stride_of_def)
  moreover have "Suc v * ?s \<le> gi_height g * ?s" using u(2) by (intro mult_right_mono) auto
  ultimately have at': "v * ?s + u div 8 < length packed" by (simp add: len mult.commute)
  have step: "pack_pixel g packed n =
      (if gi_pixels g ! n = 0
       then packed[v * ?s + u div 8 := Bit_Operations.or (packed ! (v * ?s + u div 8)) (drop_bit (u mod 8) 128)] else packed)"
    by (simp add: pack_pixel_def Let_def u_def v_def)
  have "bit (pack_pixel g packed n ! (y * ?s + x div 8)) (7 - x mod 8) \<longleftrightarrow>
      y * ?w + x < Suc n \<and> gi_pixels g ! (y * ?w + x) = 0" if xy: "x < ?w" "y < gi_height g" for x y
  proof -
    have old: "bit (packed ! (y * ?s + x div 8)) (7 - x mod 8) \<longleftrightarrow> y * ?w + x < n \<and> gi_pixels g ! (y * ?w + x) = 0"
      using P xy by (simp add: packed_upto_def)
    have same: "y * ?w + x = n \<longleftrightarrow> y = v \<and> x = u"
      using place_unique [OF xy(1) u(1), of y v] u(3) by simp
    have "x mod 8 < 8" "u mod 8 < 8" by simp_all
    then have "7 - x mod 8 = 7 - u mod 8 \<longleftrightarrow> x mod 8 = u mod 8" by linarith
    then have eq: "x div 8 = u div 8 \<and> 7 - x mod 8 = 7 - u mod 8 \<longleftrightarrow> x = u" by (metis mult_div_mod_eq)
    show ?thesis
    proof (cases "gi_pixels g ! n = 0")
      case False
      with old same step show ?thesis by (auto simp: less_Suc_eq u(3))
    next
      case True
      then have "bit (pack_pixel g packed n ! (y * ?s + x div 8)) (7 - x mod 8) \<longleftrightarrow>
          bit (packed ! (y * ?s + x div 8)) (7 - x mod 8) \<or> y = v \<and> x = u"
        using at' cell_unique [OF u(1) xy(1), of v y] eq by (auto simp: step nth_list_update set_bit_128)
      with old same True show ?thesis by (auto simp: less_Suc_eq u(3))
    qed
  qed
  with P show ?thesis by (simp add: packed_upto_def pack_pixel_def Let_def)
qed

lemma pack_page_done: "packed_upto g (gi_width g * gi_height g) (pack_page g)"
proof -
  have "packed_upto g n (foldl (pack_pixel g) (replicate (stride_of (gi_width g) * gi_height g) 0) [0..<n])"
    if "n \<le> gi_width g * gi_height g" for n
    using that
  proof (induction n)
    case 0
    have "y * stride_of (gi_width g) + x div 8 < stride_of (gi_width g) * gi_height g" if "x < gi_width g" "y < gi_height g" for x y
    proof -
      have "x div 8 < stride_of (gi_width g)" using that(1) by (auto simp: stride_of_def)
      moreover have "Suc y * stride_of (gi_width g) \<le> gi_height g * stride_of (gi_width g)" using that(2) by (intro mult_right_mono) auto
      ultimately show ?thesis by (simp add: mult.commute)
    qed
    then show ?case by (simp add: packed_upto_def)
  qed (simp add: pack_step)
  then show ?thesis by (simp add: pack_page_def)
qed

lemma concat_rows:
  "concat (map (\<lambda>y. map (f y) [0..<w]) [0..<h]) = map (\<lambda>k. f (k div w) (k mod w)) [0..<h * w]" for f :: "nat \<Rightarrow> nat \<Rightarrow> 'a"
proof (induction h)
  case (Suc h)
  have "map (f h) [0..<w] = map (\<lambda>k. f (k div w) (k mod w)) [h * w..<Suc h * w]"
    by (rule nth_equalityI) auto
  moreover have "[0..<Suc h * w] = [0..<h * w] @ [h * w..<Suc h * w]"
    using upt_add_eq_append [of 0 "h * w" w] by (simp add: add.commute)
  ultimately show ?case using Suc by simp
qed simp

text \<open>C32: The rows of the TIFF hold the page. The packed data has eight pixels in a byte and whole bytes in a row,
  as \<open>StripByteCounts\<close> says, a set bit exactly for each black pixel; unpacked as the export of a received fax
  unpacks its TIFF, it gives every pixel back, black as a set bit, any other as a clear one.\<close>

theorem packed_page_roundtrip:
  assumes "length (gi_pixels g) = gi_width g * gi_height g"
  shows "length (pack_page g) = stride_of (gi_width g) * gi_height g \<and>
    unpack_pixels (gi_width g) (gi_height g) (pack_page g) = map (\<lambda>p. if p = 0 then 255 else 0) (gi_pixels g)"
proof -
  let ?w = "gi_width g" and ?h = "gi_height g"
  have P: "packed_upto g (?w * ?h) (pack_page g)" by (rule pack_page_done)
  have "unpack_pixels ?w ?h (pack_page g) =
      map (\<lambda>k. if bit (pack_page g ! (k div ?w * stride_of ?w + k mod ?w div 8)) (7 - k mod ?w mod 8) then 255 else 0) [0..<?h * ?w]"
    by (simp add: unpack_pixels_def test_bit_128 concat_rows stride_of_def [symmetric] Let_def)
  also have "\<dots> = map (\<lambda>p. if p = 0 then 255 else 0) (gi_pixels g)"
  proof (rule nth_equalityI)
    fix k assume "k < length (map (\<lambda>k. if bit (pack_page g ! (k div ?w * stride_of ?w + k mod ?w div 8)) (7 - k mod ?w mod 8) then 255 else (0 :: byte)) [0..<?h * ?w])"
    then have k: "k < ?h * ?w" by simp
    then have "k mod ?w < ?w" "k div ?w < ?h" "k div ?w * ?w + k mod ?w = k"
      by (cases "?w = 0"; auto simp: less_mult_imp_div_less)+
    with P have "bit (pack_page g ! (k div ?w * stride_of ?w + k mod ?w div 8)) (7 - k mod ?w mod 8) \<longleftrightarrow>
        k < ?w * ?h \<and> gi_pixels g ! k = 0"
      unfolding packed_upto_def by metis
    with k assms show "map (\<lambda>k. if bit (pack_page g ! (k div ?w * stride_of ?w + k mod ?w div 8)) (7 - k mod ?w mod 8) then 255 else 0) [0..<?h * ?w] ! k =
        map (\<lambda>p. if p = 0 then 255 else 0) (gi_pixels g) ! k"
      by (simp add: mult.commute)
  qed (simp add: assms mult.commute)
  finally show ?thesis using P by (simp add: packed_upto_def)
qed

lemma packed_page_roundtrip_witness:
  "unpack_pixels 9 1 (pack_page \<lparr>gi_width = 9, gi_height = 1, gi_pixels = [0, 255, 0, 0, 255, 255, 255, 0, 0]\<rparr>) =
     [255, 0, 255, 255, 0, 0, 0, 255, 255]"
  using packed_page_roundtrip [of "\<lparr>gi_width = 9, gi_height = 1, gi_pixels = [0, 255, 0, 0, 255, 255, 255, 0, 0]\<rparr>"] by simp

end
