(* ===== verification/DocumentsProps.thy ===== *)
theory DocumentsProps
  imports DocumentsInv DocumentPages DesktopInv
begin

text \<open>
  What the document component promises: published documents never change, a prepared document is complete and
  can be loaded, it is what the desktop application relies on, and its pages have the fax geometry and
  round-trip through the packing of the TIFF.
\<close>

section \<open>Preparing\<close>

lemma create_temp_cases:
  "create_temp_dir base d = (r, e) \<Longrightarrow>
     (\<exists>x. r = Inl x) \<and> quiet d e \<or>
     (\<exists>st. r = Inr st \<and> \<not> has_dir st d \<and> e = (later d)\<lparr>dk_dirs := st # dk_dirs d\<rparr>)"
  by (auto simp: create_temp_dir_def io_def Let_def split: option.splits if_splits)

lemma has_dir_Cons: "has_dir x (d\<lparr>dk_dirs := st # dk_dirs e\<rparr>) \<longleftrightarrow> dir_prefix st = dir_prefix x \<or> has_dir x e"
  by (simp add: has_dir_def)

lemma ends_others:
  assumes "ends st C d (r, e)" "\<And>doc d1. C doc d1 e \<Longrightarrow> \<exists>t. \<not> has_dir t d1 \<and> e = moved st t d1"
  shows "others_kept st d e"
proof (cases r)
  case (Inr doc)
  with assms(1) obtain d1 where d1: "fills st d d1" "C doc d1 e" by (auto simp: ends_def)
  with assms(2) obtain t where "\<not> has_dir t d1" "e = moved st t d1" by blast
  with others_trans [OF fills_others [OF d1(1)] moved_others] show ?thesis by simp
qed (use assms(1) in \<open>simp add: ends_def fills_others\<close>)

lemma prepare_impl_cases:
  assumes "prepare_impl env base input original d = (r, e)"
  shows "dk_env e = dk_env d \<and>
    (\<forall>x. has_dir x d \<longrightarrow> has_dir x e \<and> (\<forall>q. in_dir x q \<longrightarrow> dk_files e q = dk_files d q)) \<and>
    (\<forall>doc. r = Inr doc \<longrightarrow>
       published env base doc e \<and> \<not> has_dir (join_path base (doc_id doc)) d \<and> doc_pages doc \<le> 250 \<and>
       doc_options doc = di_options input \<and>
       doc_sources doc = (case original of Some o' \<Rightarrow> doc_sources o' | None \<Rightarrow> map source_name (di_paths input)))"
proof (cases "di_paths input = []")
  case False
  obtain c d1 where c: "create_temp_dir base d = (c, d1)" by fastforce
  show ?thesis
  proof (cases c)
    case (Inl x)
    with create_temp_cases [OF c] c assms False show ?thesis
      by (auto simp: prepare_impl_def quiet_def has_dir_def)
  next
    case (Inr st)
    with create_temp_cases [OF c] have st: "\<not> has_dir st d" "d1 = (later d)\<lparr>dk_dirs := st # dk_dirs d\<rparr>" by auto
    obtain f where f: "fill_staging env base original input st d1 = (r, f)" "e = drop_temp_dir st f"
      using assms c Inr False by (auto simp: prepare_impl_def split: prod.splits)
    note ends = fill_ends [OF False, of st env base original d1, unfolded f(1)]
    have "others_kept st d1 f" by (rule ends_others [OF ends]) (auto simp: publishes_as_def)
    then have "others_kept st d1 e" using others_trans [OF _ drop_dir_others] f(2) by simp
    moreover have "has_dir x d1" "dir_prefix x \<noteq> dir_prefix st" if "has_dir x d" for x
      using st that has_dir_cong [of x st d] by (auto simp: has_dir_Cons)
    ultimately have "dk_env e = dk_env d \<and> (\<forall>x. has_dir x d \<longrightarrow> has_dir x e \<and> (\<forall>q. in_dir x q \<longrightarrow> dk_files e q = dk_files d q))"
      using st(2) by (auto simp: others_kept_def)
    moreover have "published env base doc e \<and> \<not> has_dir (join_path base (doc_id doc)) d \<and> doc_pages doc \<le> 250 \<and>
       doc_options doc = di_options input \<and>
       doc_sources doc = (case original of Some o' \<Rightarrow> doc_sources o' | None \<Rightarrow> map source_name (di_paths input))"
      if r: "r = Inr doc" for doc
    proof -
      from ends r obtain d2 bytes where d2: "fills st d1 d2" "\<not> has_dir (join_path base (doc_id doc)) d2"
          "f = moved st (join_path base (doc_id doc)) d2" "written st (doc_pages doc) d2" "0 < doc_pages doc" "doc_pages doc \<le> 250"
          "dk_files d2 (join_path st (lit ''fax.tiff'')) \<noteq> None" "dk_files d2 (document_json st) = Some bytes"
          "pv_show env doc = Inr bytes" "doc_options doc = di_options input"
          "doc_sources doc = (case original of Some o' \<Rightarrow> doc_sources o' | None \<Rightarrow> map source_name (di_paths input))"
        by (auto simp: ends_def publishes_as_def)
      have dirs: "dk_dirs d2 = st # dk_dirs d" using d2(1) st(2) by (simp add: fills_def)
      then have "dir_prefix (join_path base (doc_id doc)) \<noteq> dir_prefix st" "\<not> has_dir (join_path base (doc_id doc)) d"
        using d2(2) by (auto simp: has_dir_def)
      with d2 moved_published [OF d2(4,5,7,8,9)] show ?thesis by (simp add: f(2) drop_dir_published)
    qed
    ultimately show ?thesis by blast
  qed
qed (use assms in \<open>auto simp: prepare_impl_def\<close>)

lemma load_quiet: "quiet d (snd (load_document env base i d))"
proof -
  have last: "quiet d (snd (case path_is_file p d of (found, d) \<Rightarrow> (h found, d)))" for p d and h :: "bool \<Rightarrow> engine_error + prepared_document"
    using quiet_reads(2) [of d p] by (simp add: prod.case_eq_if)
  show ?thesis unfolding load_document_def Let_def by (intro quiet_and_then quiet_reads) (auto intro: last)
qed

section \<open>Published documents\<close>

text \<open>C28: A published document never changes. Preparing or adjusting a document, whatever its input and wherever it
  fails or crashes, changes no file of any directory that exists and removes none, so a queued fax keeps its pages;
  reading a document changes nothing at all.\<close>

theorem documents_immutable:
  assumes "has_dir x d" "in_dir x q"
  shows "has_dir x (snd (prepare_document env base input d)) \<and> dk_files (snd (prepare_document env base input d)) q = dk_files d q \<and>
    has_dir x (snd (adjust_document env base i opts d)) \<and> dk_files (snd (adjust_document env base i opts d)) q = dk_files d q \<and>
    dk_files (snd (load_preview_source env base i page d)) q = dk_files d q"
proof -
  have kept: "has_dir x (snd (prepare_impl env base input original s)) \<and> dk_files (snd (prepare_impl env base input original s)) q = dk_files s q"
    if "has_dir x s" for input original s
    using prepare_impl_cases [of env base input original s] that assms(2) by (cases "prepare_impl env base input original s") auto
  have load: "has_dir x s \<and> dk_files s = dk_files d" if "load_document env base i d = (r, s)" for r s
    using load_quiet [of d env base i] that assms(1) by (simp add: quiet_def has_dir_def)
  obtain r s where s: "load_document env base i d = (r, s)" by fastforce
  have "has_dir x (snd (adjust_document env base i opts d)) \<and> dk_files (snd (adjust_document env base i opts d)) q = dk_files d q"
    using load [OF s] s kept [of s] by (cases r) (auto simp: adjust_document_def)
  moreover have "quiet d (snd (load_preview_source env base i page d))"
    unfolding load_preview_source_def by (intro quiet_and_then load_quiet) (auto intro!: quiet_and_then)
  ultimately show ?thesis using kept [OF assms(1)] by (simp add: prepare_document_def quiet_def)
qed

text \<open>Nothing fails after a number of operations.\<close>

definition reliable :: "disk \<Rightarrow> bool" where
  "reliable d \<longleftrightarrow> (\<forall>n \<ge> dk_ticks d. de_fault (dk_env d) n = None \<and> \<not> de_blind (dk_env d) n)"

lemma published_loads:
  assumes "published env base doc d" "reliable d" "\<And>bytes. pv_show env doc = Inr bytes \<Longrightarrow> pv_parse env bytes = Inr doc"
  shows "fst (load_document env base (doc_id doc) d) = Inr doc"
  using assms by (auto simp: published_def Let_def load_document_def read_file_def io_def reliable_def path_is_file_def
      later_def split: prod.split)

text \<open>C29: What was prepared can be loaded. A document that a preparation or adjustment returned has a directory of its
  own that did not exist, with its TIFF and a gray page and a preview for each of its 1 to 250 pages, has the options of
  the input and the names of its files or of the original, and while the disk works \<open>load\<close> returns exactly it, given
  that its metadata can be parsed again.\<close>

theorem prepare_load_roundtrip:
  assumes "prepare_impl env base input original d = (Inr doc, e)" "reliable e"
    and "\<And>bytes. pv_show env doc = Inr bytes \<Longrightarrow> pv_parse env bytes = Inr doc"
  shows "fst (load_document env base (doc_id doc) e) = Inr doc \<and> \<not> has_dir (join_path base (doc_id doc)) d \<and>
    1 \<le> doc_pages doc \<and> doc_pages doc \<le> 250 \<and> doc_options doc = di_options input \<and>
    doc_sources doc = (case original of Some o' \<Rightarrow> doc_sources o' | None \<Rightarrow> map source_name (di_paths input)) \<and>
    dk_files e (fax_path base (doc_id doc)) \<noteq> None \<and>
    (\<forall>k \<in> {1..doc_pages doc}. dk_files e (grayscale_path base (doc_id doc) k) \<noteq> None \<and>
       dk_files e (preview_path base (doc_id doc) k) \<noteq> None)"
proof -
  note c = prepare_impl_cases [OF assms(1), THEN conjunct2, THEN conjunct2, rule_format, OF refl]
  then have "published env base doc e" by simp
  with published_loads [OF this assms(2,3)] c show ?thesis
    by (auto simp: published_def Let_def written_def grayscale_path_def preview_path_def page_name_def)
qed

definition sample_reception :: received_fax where
  "sample_reception =
     \<lparr>rf_id = [55], rf_profile = None, rf_profile_name = [], rf_caller = [], rf_destination = [], rf_peer = [],
      rf_tiff_path = None, rf_arrived = 0, rf_stem = [], rf_finished = None, rf_options = default_receive_settings,
      rf_confirmed = 0, rf_recovered = 0, rf_transport = None, rf_outcome = OutReceived, rf_result = None,
      rf_recovery = None, rf_export = XPending, rf_partial_available = False\<rparr>"

definition sample_files :: disk where
  "sample_files =
     \<lparr>dk_files = (\<lambda>_. None)(document_json (join_path [115] [97]) := Some [1], fax_path [115] [97] := Some [],
        grayscale_path [115] [97] 1 := Some [7], join_path (join_path [115] [97]) (page_name 1) := Some [0]),
      dk_dirs = [[115], join_path [115] [97]],
      dk_env = \<lparr>de_fault = \<lambda>_. None, de_blind = \<lambda>_. False, de_temp = \<lambda>_. [116], de_block = \<lambda>_. 16384, de_journal = \<lambda>_. None\<rparr>,
      dk_ticks = 0, dk_fax = sample_reception, dk_saved = sample_reception\<rparr>"

definition sample_adjusted :: "prepared_document on_disk" where
  "sample_adjusted = adjust_document sample_doc_env [115] [97] (doc_options sample_copy) sample_files"

lemma sample_adjusts: "fst sample_adjusted = Inr sample_copy"
  by code_simp

lemma sample_paths: "has_dir [115] sample_files" "in_dir (join_path [115] [97]) (fax_path [115] [97])"
    "has_dir (join_path [115] [97]) sample_files"
  by code_simp+

lemma documents_immutable_witness:
  "dk_files (snd (prepare_document sample_doc_env [115] \<lparr>di_paths = [[5]], di_options = default_document_options\<rparr> sample_files))
     (fax_path [115] [97]) = Some []"
proof -
  have "dk_files sample_files (fax_path [115] [97]) = Some []" by code_simp
  with documents_immutable [OF sample_paths(3,2), of sample_doc_env "[115]" "\<lparr>di_paths = [[5]], di_options = default_document_options\<rparr>"]
  show ?thesis by simp
qed

lemma sample_law: "pv_show sample_doc_env doc = Inr bytes \<Longrightarrow> pv_parse sample_doc_env bytes = Inr doc"
  by (auto simp: sample_doc_env_def split: if_splits)

definition sample_adjustment :: "prepared_document on_disk" where
  "sample_adjustment =
     prepare_impl sample_doc_env [115]
       \<lparr>di_paths = [grayscale_path [115] [97] 1], di_options = doc_options sample_copy\<rparr> (Some sample_paper) sample_files"

lemma prepare_load_roundtrip_witness:
  "fst (load_document sample_doc_env [115] [98] (snd sample_adjustment)) = Inr sample_copy"
proof -
  have "fst sample_adjustment = Inr sample_copy" by code_simp
  then have r: "sample_adjustment = (Inr sample_copy, snd sample_adjustment)" by (simp add: prod_eq_iff)
  have rel: "reliable (snd sample_adjustment)"
    using prepare_impl_cases [OF r [unfolded sample_adjustment_def]] by (simp add: sample_adjustment_def reliable_def sample_files_def)
  from prepare_load_roundtrip [OF r [unfolded sample_adjustment_def] rel [unfolded sample_adjustment_def] sample_law]
  show ?thesis by (simp add: sample_adjustment_def sample_copy_def)
qed

section \<open>The desktop\<close>

text \<open>What the desktop asks of the engine, and its spool on the disk.\<close>

definition engine_prepares ::
  "doc_env \<Rightarrow> path \<Rightarrow> uuid option \<Rightarrow> document_input \<Rightarrow> disk \<Rightarrow> prepared_document on_disk" where
  "engine_prepares env base original input d =
     (case original of
        Some i \<Rightarrow> adjust_document env base i (di_options input) d
      | None \<Rightarrow> prepare_document env base input d)"

definition spool_on :: "doc_env \<Rightarrow> path \<Rightarrow> ('p, 'i) desktop \<Rightarrow> disk \<Rightarrow> bool" where
  "spool_on env base s d \<longleftrightarrow>
     (\<forall>i doc. map_of (dk_spool s) i = Some doc \<longrightarrow> doc_id doc = i \<and> published env base doc d)"

lemma published_kept:
  assumes "published env base doc d" "\<And>x q. has_dir x d \<Longrightarrow> has_dir x e \<and> (in_dir x q \<longrightarrow> dk_files e q = dk_files d q)"
  shows "published env base doc e"
proof -
  let ?dir = "join_path base (doc_id doc)"
  have "has_dir ?dir d" using assms(1) by (simp add: published_def Let_def)
  then have "has_dir ?dir e" "\<And>n. 47 \<notin> set n \<Longrightarrow> dk_files e (join_path ?dir n) = dk_files d (join_path ?dir n)"
    using assms(2) by auto
  with assms(1) show ?thesis by (simp add: published_def Let_def written_def fax_path_def document_json_def)
qed

text \<open>C30: The document component is what the desktop relies on. If the desktop's spool is on the disk, a document
  that the engine prepared from files, or adjusted from a document of the spool, satisfies the contract under which
  the desktop's properties are proved: a new id, the options of the input, the names of the listed files or those of
  the adjusted document, whose paper and resolution it keeps; and the spool with it is on the disk.\<close>

theorem documents_meet_desktop:
  assumes "spool_on env base s d" "dk_names s = source_name"
    and "engine_prepares env base original input d = (Inr doc, e)"
    and "\<And>i. original = Some i \<Longrightarrow> map_of (dk_spool s) i \<noteq> None"
    and "\<And>doc bytes. pv_show env doc = Inr bytes \<Longrightarrow> pv_parse env bytes = Inr doc"
  shows "publishes s original input doc \<and> spool_on env base (record_result (MDocument (MsPrepared n (Inr doc))) s) e"
proof -
  obtain input' original' d' where impl: "prepare_impl env base input' original' d' = (Inr doc, e)"
    and same: "\<And>x. has_dir x d' = has_dir x d" "dk_files d' = dk_files d" "di_options input' = di_options input"
    and from': "case original of None \<Rightarrow> original' = None \<and> input' = input
      | Some i \<Rightarrow> \<exists>d0. map_of (dk_spool s) i = Some d0 \<and> original' = Some d0 \<and> layout (doc_options d0) = layout (di_options input)"
  proof (cases original)
    case None
    with assms(3) show ?thesis by (intro that [of input None d]) (auto simp: engine_prepares_def prepare_document_def)
  next
    case (Some i)
    with assms(3) obtain doc0 d1 where load: "load_document env base i d = (Inr doc0, d1)"
      and adj: "do_paper (di_options input) = do_paper (doc_options doc0)" "do_resolution (di_options input) = do_resolution (doc_options doc0)"
        "prepare_impl env base \<lparr>di_paths = map (grayscale_path base i) [1..<Suc (doc_pages doc0)], di_options = di_options input\<rparr> (Some doc0) d1 = (Inr doc, e)"
      by (auto simp: engine_prepares_def adjust_document_def elim!: and_then_okE split: if_splits)
    from Some assms(4) obtain d0 where d0: "map_of (dk_spool s) i = Some d0" by auto
    with assms(1) have "doc_id d0 = i" "published env base d0 d" by (auto simp: spool_on_def)
    then obtain bytes where "dk_files d (document_json (join_path base i)) = Some bytes" "pv_show env d0 = Inr bytes"
      by (auto simp: published_def Let_def)
    with load assms(5) have "doc0 = d0"
      by (auto simp: load_document_def read_file_def io_def Let_def elim!: and_then_okE split: option.splits prod.splits if_splits)
    moreover have "quiet d d1" using load_quiet [of d env base i] load by simp
    ultimately show ?thesis using adj d0 Some
      by (intro that [OF adj(3)]) (auto simp: quiet_def has_dir_def layout_def)
  qed
  note c = prepare_impl_cases [OF impl]
  have kept: "has_dir x d \<Longrightarrow> has_dir x e \<and> (in_dir x q \<longrightarrow> dk_files e q = dk_files d q)" for x q
    using c [THEN conjunct2, THEN conjunct1] same by auto
  have doc: "published env base doc e" "\<not> has_dir (join_path base (doc_id doc)) d" "doc_options doc = di_options input"
    "doc_sources doc = (case original' of Some o' \<Rightarrow> doc_sources o' | None \<Rightarrow> map source_name (di_paths input'))"
    using c [THEN conjunct2, THEN conjunct2] same by auto
  have "map_of (dk_spool s) (doc_id doc) = None"
  proof (rule ccontr)
    assume "map_of (dk_spool s) (doc_id doc) \<noteq> None"
    then obtain a where "map_of (dk_spool s) (doc_id doc) = Some a" by auto
    with assms(1) have "doc_id a = doc_id doc" "published env base a d" by (auto simp: spool_on_def)
    with doc(2) show False by (simp add: published_def Let_def)
  qed
  with doc from' assms(2) have "publishes s original input doc" by (auto simp: publishes_def split: option.splits)
  moreover have "spool_on env base (record_result (MDocument (MsPrepared n (Inr doc))) s) e"
    using assms(1) doc(1) published_kept [OF _ kept] by (auto simp: spool_on_def record_result_def)
  ultimately show ?thesis by simp
qed

definition sample_desk :: "(nat, nat) desktop" where
  "sample_desk = (desk_boot source_name (\<lambda>x b c. Inr x) 0 [0])\<lparr>dk_spool := [([97], sample_paper)]\<rparr>"

lemma documents_meet_desktop_witness:
  "publishes sample_desk (Some [97]) \<lparr>di_paths = [[5]], di_options = doc_options sample_copy\<rparr> sample_copy"
proof -
  have one: "k = 1" if "1 \<le> k" "k \<le> Suc 0" for k :: nat using that by simp
  have "dk_files sample_files (document_json (join_path [115] [97])) = Some [1]" "dk_files sample_files (fax_path [115] [97]) = Some []"
    "dk_files sample_files (join_path (join_path [115] [97]) (gray_name 1)) = Some [7]"
    "dk_files sample_files (join_path (join_path [115] [97]) (page_name 1)) = Some [0]" by code_simp+
  then have "published sample_doc_env [115] sample_paper sample_files"
    using sample_paths(3) by (auto simp: published_def Let_def written_def sample_paper_def dest!: one) (simp add: sample_doc_env_def sample_paper_def)
  then have spool: "spool_on sample_doc_env [115] sample_desk sample_files"
    by (auto simp: spool_on_def sample_desk_def sample_paper_def)
  have done': "engine_prepares sample_doc_env [115] (Some [97]) \<lparr>di_paths = [[5]], di_options = doc_options sample_copy\<rparr> sample_files =
      (Inr sample_copy, snd sample_adjusted)"
    using sample_adjusts by (simp add: engine_prepares_def sample_adjusted_def prod_eq_iff)
  have names: "dk_names sample_desk = source_name" by (simp add: sample_desk_def desk_boot_def)
  have known: "Some [97] = Some i \<Longrightarrow> map_of (dk_spool sample_desk) i \<noteq> None" for i by (simp add: sample_desk_def)
  show ?thesis
    using documents_meet_desktop [OF spool names done' known sample_law, of 0] by blast
qed

end
