(* ===== verification/Spec2Isabelle.thy ===== *)
theory Spec2Isabelle
  imports StoreProps Network ActorProps ActorOutcomes ExportProps ServiceProps DesktopProps DocumentsProps
begin

text \<open>
  FAXE, a fax program over SIP: a formal model of its engine, its native call handling, its SIP service
  and its desktop application.

  \<^bold>\<open>The program.\<close> \<open>crates/faxe-engine\<close> keeps profiles, destinations, jobs and received faxes in an
  SQLite database (\<open>store.rs\<close>) and runs one owner thread (\<open>runtime.rs\<close>) that serves the requests of the
  application, hands jobs to the SIP backend (\<open>sender.rs\<close>), records what calls report and exports received
  faxes as PDF files (\<open>export.rs\<close>). \<open>crates/faxe-native\<close> carries the calls: SDP negotiation (\<open>sdp.rs\<close>),
  NAT traversal (\<open>nat.rs\<close>), media sockets and networks (\<open>network.rs\<close>), the playout buffer (\<open>playout.rs\<close>),
  the fax sessions around SpanDSP (\<open>fax.rs\<close>) and the pump of one call (\<open>sip.rs\<close>); the SIP service
  (\<open>sip/service.rs\<close>) is the thread that owns all calls and listeners. The desktop application
  (\<open>src/desktop.rs\<close>) owns the engine's runtime, shows its view and sends its requests.

  \<^bold>\<open>Theories.\<close>
  \<^item> \<open>Prelude\<close>, \<open>RustText\<close>, \<open>NetAddr\<close>, \<open>Systems\<close>: text, \<open>Result\<close> and \<open>?\<close>, maps, time; the parts of
    Rust's library the code uses; addresses; the interfaces as locales (\<open>labelled_system\<close>,
    \<open>graded_system\<close>, \<open>keyed_table\<close>), each interpreted on the components that provide it.
  \<^item> \<open>NativeTypes\<close>, \<open>Model\<close>, \<open>Receive\<close>: the values of both crates and their validation
    (\<open>lib.rs\<close>, \<open>recovery.rs\<close>, \<open>error.rs\<close>, \<open>options.rs\<close>, \<open>model.rs\<close>, \<open>receive.rs\<close>).
  \<^item> \<open>Store\<close>, \<open>StoreInv\<close>, \<open>StoreOpen\<close>, \<open>StoreFlow\<close>, \<open>StoreProps\<close>: tables as lists of rows in rowid
    order, statements that fail as the environment says; the invariant, recovery on opening (and what it
    leaves alone), and what operations can do to the queue.
  \<^item> \<open>Sender\<close>, \<open>ActorState\<close>, \<open>Actor\<close>, \<open>ActorRun\<close>: the owner thread as one deterministic machine over
    requests, messages of its workers and completions; closures handed to workers are a datatype \<open>task\<close>
    and what is sent on channels is a log. \<open>ActorInv\<close>, \<open>ActorBooks\<close>, \<open>ActorSteps\<close>, \<open>ActorLives\<close>,
    \<open>ActorStop\<close>: its invariant step by step, over restarts, and its shutdown; \<open>ActorSamples\<close>,
    \<open>ActorProps\<close>, \<open>ActorOutcomes\<close>: sample states and properties.
  \<^item> \<open>Disk\<close>, \<open>Export\<close>: a file system on which every operation may fail, and the exporter on it;
    \<open>ExportInv\<close>, \<open>ExportOnce\<close>, \<open>ExportProps\<close>: what an export leaves alone, publication at most once over
    any crashes and retries, and the properties.
  \<^item> \<open>Sdp\<close>, \<open>NatTraversal\<close>, \<open>Playout\<close>, \<open>Network\<close>, \<open>Sockets\<close>: negotiation and media, each with its
    properties. The playout ring refines a window of an unbounded map.
  \<^item> \<open>FaxSession\<close>, \<open>CallPump\<close>, \<open>CallNegotiation\<close>, \<open>CallProps\<close>: SpanDSP as a parameter, the call's state
    machine, the abstract negotiation it refines together with what a step keeps of the media and knows
    of SpanDSP's completion, and its properties.
  \<^item> \<open>SipTarget\<close>, \<open>Service\<close>, \<open>ServiceLoop\<close>: SIP addresses and routes; the service thread with its
    connections, connectors, calls, persisted admissions and idle slots, the callback of an INVITE, every
    command, and one iteration of the loop in its phases. \<open>ServiceInv\<close>, \<open>ServiceBooks\<close>, \<open>ServiceSteps\<close>:
    who owes which answer, and that every phase pays what it removes; \<open>ServiceProps\<close>: every send is
    answered once, every admission closed once, capacities, TLS routes.
  \<^item> \<open>Desktop\<close>: \<open>App\<close> and \<open>App::update\<close>, arm by arm, yielding the tasks the toolkit runs. \<open>DesktopInv\<close>,
    \<open>DesktopSteps\<close>: the application with its running tasks as a machine and its invariant;
    \<open>DesktopProps\<close>: every opened engine is shut down before the exit, preview, what is sent, the password.
  \<^item> \<open>Documents\<close>: prepared documents (\<open>document.rs\<close>) on the file system of \<open>Disk\<close>. \<open>DocumentPages\<close>: geometry,
    tone and packing of pages; \<open>DocumentsInv\<close>, \<open>DocumentsProps\<close>: only the staging directory is written,
    publication, and that preparing satisfies the contract the desktop's machine assumes.

  \<^bold>\<open>Conventions.\<close> Text, paths and uuids are lists of Unicode scalar values; instants and durations are
  nanoseconds; machine integers are words wherever they can wrap. A fallible operation on a state yields
  \<open>(error + 'a) \<times> state\<close>. Everything read from outside (clock, random values, file system, sockets,
  thread creation, the SIP stack, SpanDSP) is a function of the number of readings made so far, so a
  theorem over all environments covers every failure at every point; a crash is an environment in which
  all later operations fail, or the end of the list of inputs.

  \<^bold>\<open>Bounds and fuel.\<close> A receive call drains at most 64 datagrams and plays at most 64 frames, as the code
  does. \<open>send_loop\<close> recurses on the outgoing limit; \<open>send_loop_terminates\<close> shows that the unbounded
  loop of the code ends with its result. One iteration of the service takes at most 64 queued commands,
  as the code does. \<open>link_loop\<close> tries the names up to 99999 as the code does.
  \<open>run_call\<close> takes a number of steps; \<open>call_ends\<close> shows that some number suffices once time passes.

  \<^bold>\<open>Over-approximations.\<close> In the service the environment answers every call of PJSIP, a socket or a thread
  and every reading of the clock, one tick each (one reading per status, sleep and sweep); a \<open>HashMap\<close>
  is an association list in order of insertion; INVITEs and commands arrive at the start of an iteration,
  which finds the wake-ups of its idle wait there too; the polling of retired endpoints in the last two
  seconds has no effect the model sees. In the desktop the messages are grouped by subject, and those of
  the user, the window and the engine's streams come in any order with any content; the results of tasks
  come only while the task runs, with what \<open>Documents\<close> promises of a prepared document and of a
  rendering; the animation's \<open>f32\<close> is a rational number. In
  the documents PDFium, the image decoders, the resampler, the dithering and the file formats are
  parameters, \<open>f64\<close> is rational or real, and a staging directory holds files only, so that renaming or
  removing it concerns the files directly in it.

  \<^bold>\<open>Not modelled.\<close> The calls into PJSIP (\<open>Sip\<close>, \<open>Endpoint\<close> and callbacks in \<open>sip.rs\<close>), the TLS transport,
  the wake-up socket and the poller (\<open>tls.rs\<close>, \<open>sip/wake.rs\<close>, \<open>sip/io.rs\<close>): C library behind raw pointers
  and I/O, whose answers are the environment. Loading PDFium (\<open>document.rs\<close>), logging, the C
  interface, the command line, the desktop's widgets (\<open>views.rs\<close>) and
  its picker, tray, keyring and notifications, build scripts and examples.
\<close>

end
